(* ===== verification/Droid_Prelude.thy ===== *)
theory Droid_Prelude
  imports Complex_Main "HOL-Library.AList"
begin

text \<open>
  Shared vocabulary of the development.

  \<^item> Python exceptions are values of \<open>exn\<close>; a call that may raise returns
    \<open>exn + 'a\<close> (\<open>Inl\<close> is the exception). \<open>ebind\<close> sequences such calls and
    \<open>ecatch\<close> is a \<open>try ... except Exception\<close> block.
  \<^item> A Python \<open>dict\<close> keeps insertion order, so it is an association list with
    \<open>map_of\<close> for \<open>get\<close>, \<open>AList.update\<close> for \<open>d[k] = v\<close> (in place, or at the end)
    and \<open>AList.delete\<close> for \<open>pop\<close>.
  \<^item> The locale \<open>keyed_store\<close> is the contract every in-memory registry of the
    program offers its clients: read back what was written, nothing else moves.
  \<^item> The locale \<open>transition_table\<close> is the contract of the life-cycle tables.
\<close>

named_theorems dict_simps
named_theorems exn_simps

subsection \<open>Exceptions\<close>

datatype exn =
    InvalidOperation
  | DivisionByZero
  | OverflowError
  | ValueError
  | TypeError
  | KeyError
  | IndexError
  | BrokerError string

type_synonym 'a result = "exn + 'a"

definition ebind :: "'a result \<Rightarrow> ('a \<Rightarrow> 'b result) \<Rightarrow> 'b result" where
  "ebind m f = (case m of Inl e \<Rightarrow> Inl e | Inr x \<Rightarrow> f x)"

definition ecatch :: "'a result \<Rightarrow> (exn \<Rightarrow> 'a) \<Rightarrow> 'a" where
  "ecatch m h = (case m of Inl e \<Rightarrow> h e | Inr x \<Rightarrow> x)"

lemma ebind_simps [simp, exn_simps]:
  "ebind (Inl e) f = Inl e"
  "ebind (Inr x) f = f x"
  by (simp_all add: ebind_def)

lemma ecatch_simps [simp, exn_simps]:
  "ecatch (Inl e) h = h e"
  "ecatch (Inr x) h = x"
  by (simp_all add: ecatch_def)

lemma ebind_Inr_iff [exn_simps]:
  "ebind m f = Inr y \<longleftrightarrow> (\<exists>x. m = Inr x \<and> f x = Inr y)"
  by (cases m) auto

lemma ebind_ex_iff:
  "(\<exists>y. ebind m f = Inr y \<and> P y) \<longleftrightarrow> (\<exists>x. m = Inr x \<and> (\<exists>y. f x = Inr y \<and> P y))"
  by (cases m) auto

lemma ebind_assoc: "ebind (ebind m f) g = ebind m (\<lambda>x. ebind (f x) g)"
  by (cases m) auto

lemma ebind_cong [fundef_cong]:
  "m = m' \<Longrightarrow> (\<And>x. m' = Inr x \<Longrightarrow> f x = f' x) \<Longrightarrow> ebind m f = ebind m' f'"
  by (cases m') auto

subsection \<open>Python truthiness and defaults\<close>

definition or_else :: "'a option \<Rightarrow> 'a \<Rightarrow> 'a" where
  "or_else x d = (case x of None \<Rightarrow> d | Some v \<Rightarrow> v)"

lemma or_else_simps [simp]: "or_else None d = d" "or_else (Some v) d = v"
  by (simp_all add: or_else_def)

subsection \<open>Dictionaries\<close>

type_synonym ('k, 'v) dict = "('k \<times> 'v) list"

lemma map_of_update [dict_simps]:
  "map_of (AList.update k v d) k' = (if k' = k then Some v else map_of d k')"
  by (simp add: update_conv')

lemma map_of_delete [dict_simps]:
  "map_of (AList.delete k d) k' = (if k' = k then None else map_of d k')"
  by (simp add: delete_conv')

lemma keys_update: "fst ` set (AList.update k v d) = insert k (fst ` set d)"
  by (simp add: dom_map_of_conv_image_fst [symmetric] update_conv')

lemma update_hit_keys:
  "k \<in> fst ` set d \<Longrightarrow> map fst (AList.update k v d) = map fst d"
  by (induction d) auto

lemma update_new_append:
  "map_of d k = None \<Longrightarrow> AList.update k v d = d @ [(k, v)]"
  by (induction d) (auto split: if_splits)

lemma map_of_None_notin: "map_of d k = None \<longleftrightarrow> k \<notin> fst ` set d"
  by (simp add: map_of_eq_None_iff)

subsection \<open>The contract of a keyed registry\<close>

locale keyed_store =
  fixes sget :: "'s \<Rightarrow> 'k \<Rightarrow> 'v option"
    and sput :: "'k \<Rightarrow> 'v \<Rightarrow> 's \<Rightarrow> 's"
  assumes sget_sput_same: "sget (sput k v s) k = Some v"
    and sget_sput_other: "k' \<noteq> k \<Longrightarrow> sget (sput k v s) k' = sget s k'"
begin

lemma sget_sput: "sget (sput k v s) k' = (if k' = k then Some v else sget s k')"
  by (simp add: sget_sput_same sget_sput_other)

lemma sput_all:
  assumes "\<And>k v. sget s k = Some v \<Longrightarrow> P k v" and "P k0 v0"
  shows "sget (sput k0 v0 s) k = Some v \<Longrightarrow> P k v"
  using assms by (auto simp: sget_sput split: if_splits)

lemma sput_dom: "{k. sget (sput k0 v0 s) k \<noteq> None} = insert k0 {k. sget s k \<noteq> None}"
  by (auto simp: sget_sput)

lemma sput_put: "sget (sput k v (sput k w s)) k' = sget (sput k v s) k'"
  by (simp add: sget_sput)

end

interpretation dict_store: keyed_store "map_of" "AList.update"
  by unfold_locales (simp_all add: dict_simps)

subsection \<open>The contract of a transition table\<close>

text \<open>A table lists the successors of every state; a final state has none.\<close>

locale transition_table =
  fixes succs :: "'s \<Rightarrow> 's list"
    and final :: "'s \<Rightarrow> bool"
  assumes final_stuck: "final s \<Longrightarrow> succs s = []"
begin

lemma path_from_final:
  assumes "(\<lambda>a b. b \<in> set (succs a))\<^sup>*\<^sup>* s t" and "final s"
  shows "t = s"
  using assms by (induction rule: converse_rtranclp_induct) (auto simp: final_stuck)

lemma path_within:
  assumes "(\<lambda>a b. b \<in> set (succs a))\<^sup>*\<^sup>* s t" and "s \<in> S"
    and "\<And>x. x \<in> S \<Longrightarrow> set (succs x) \<subseteq> S"
  shows "t \<in> S"
  using assms by (induction rule: rtranclp_induct) auto

lemma path_avoids:
  assumes "(\<lambda>a b. b \<in> set (succs a))\<^sup>*\<^sup>* s t" and "\<And>x. t \<notin> set (succs x)"
  shows "t = s"
  using assms(1) by (rule rtranclp.cases) (use assms(2) in auto)

end

subsection \<open>Lists\<close>

definition last_n :: "nat \<Rightarrow> 'a list \<Rightarrow> 'a list" where
  "last_n n xs = drop (length xs - n) xs"

lemma set_last_n_subset: "set (last_n n xs) \<subseteq> set xs"
  by (simp add: last_n_def set_drop_subset)

lemma length_last_n [simp]: "length (last_n n xs) = min n (length xs)"
  by (simp add: last_n_def)

lemma last_n_last_n: "m \<le> n \<Longrightarrow> last_n m (last_n n xs) = last_n m xs"
  by (cases "n \<le> length xs") (auto simp: last_n_def)

lemma distinct_last_n: "distinct xs \<Longrightarrow> distinct (last_n n xs)"
  by (simp add: last_n_def)

lemma last_n_append_one: "0 < n \<Longrightarrow> last_n n (xs @ [x]) = last_n (n - 1) xs @ [x]"
  by (cases n) (auto simp: last_n_def Suc_diff_le)

text \<open>Trimming a bounded log before or after an append is the same.\<close>

lemma last_n_append_last_n: "0 < n \<Longrightarrow> last_n n (last_n n xs @ [x]) = last_n n (xs @ [x])"
  by (simp add: last_n_append_one last_n_last_n)

lemma last_n_all [simp]: "length xs \<le> n \<Longrightarrow> last_n n xs = xs"
  by (simp add: last_n_def)

lemma last_n_absorb: "last_n n (last_n n xs @ ys) = last_n n (xs @ ys)"
  by (auto simp: last_n_def drop_append intro!: arg_cong2 [where f = drop])

subsection \<open>The contract of a bounded log\<close>

text \<open>A log keeps the last entries of everything that was put into it.\<close>

locale bounded_log =
  fixes entries :: "'s \<Rightarrow> 'a list"
    and put :: "'a \<Rightarrow> 's \<Rightarrow> 's"
    and bound :: "'s \<Rightarrow> nat"
  assumes entries_put: "0 < bound s \<Longrightarrow> length (entries s) \<le> bound s \<Longrightarrow> entries (put x s) = last_n (bound s) (entries s @ [x])"
    and bound_put: "bound (put x s) = bound s"
begin

lemma entries_fold:
  assumes "0 < bound s" "length (entries s) \<le> bound s"
  shows "entries (fold put xs s) = last_n (bound s) (entries s @ xs)"
  using assms
proof (induction xs arbitrary: s)
  case (Cons x xs)
  have "length (entries (put x s)) \<le> bound s" using Cons.prems by (simp add: entries_put)
  then have "entries (fold put xs (put x s)) = last_n (bound s) (entries (put x s) @ xs)"
    using Cons.IH [of "put x s"] Cons.prems(1) by (simp add: bound_put)
  then show ?case using Cons.prems by (simp add: entries_put last_n_absorb)
qed simp

end

subsection \<open>The contract of an invariant over operations\<close>

text \<open>An invariant that holds as long as every operation of the run is admissible.\<close>

locale guarded_invariant =
  fixes step :: "'op \<Rightarrow> 's \<Rightarrow> 's"
    and inv :: "'s \<Rightarrow> bool"
    and ok :: "'op \<Rightarrow> bool"
  assumes step_ok_inv: "ok x \<Longrightarrow> inv s \<Longrightarrow> inv (step x s)"
begin

lemma guarded_run: "list_all ok xs \<Longrightarrow> inv s \<Longrightarrow> inv (fold step xs s)"
  by (induction xs arbitrary: s) (simp_all add: step_ok_inv)

end

locale op_invariant =
  fixes step :: "'op \<Rightarrow> 's \<Rightarrow> 's"
    and inv :: "'s \<Rightarrow> bool"
  assumes step_inv: "inv s \<Longrightarrow> inv (step x s)"
begin

lemma run_inv: "inv s \<Longrightarrow> inv (fold step xs s)"
  by (induction xs arbitrary: s) (simp_all add: step_inv)

end

sublocale op_invariant \<subseteq> always: guarded_invariant step inv "\<lambda>_. True"
  by unfold_locales (simp add: step_inv)

subsection \<open>Integers in decimal\<close>

text \<open>\<open>str\<close> of an integer.\<close>

definition digit :: "nat \<Rightarrow> char" where
  "digit n = char_of (48 + n)"

fun show_nat :: "nat \<Rightarrow> string" where
  "show_nat n = (if n < 10 then [digit n] else show_nat (n div 10) @ [digit (n mod 10)])"

declare show_nat.simps [simp del]

definition show_int :: "int \<Rightarrow> string" where
  "show_int k = (if k < 0 then CHR ''-'' # show_nat (nat (- k)) else show_nat (nat k))"

lemma digit_code: "n < 10 \<Longrightarrow> of_char (digit n) = 48 + n"
  by (simp add: digit_def)

lemma digit_inj: "a < 10 \<Longrightarrow> b < 10 \<Longrightarrow> digit a = digit b \<Longrightarrow> a = b"
  by (metis digit_code add_left_cancel)

lemma digit_plain: "n < 10 \<Longrightarrow> digit n \<noteq> CHR '':'' \<and> digit n \<noteq> CHR ''-''"
proof -
  assume n: "n < 10"
  have "of_char (CHR '':'') = (58::nat)" "of_char (CHR ''-'') = (45::nat)" by simp_all
  then show ?thesis using digit_code [OF n] n by fastforce
qed

lemma show_nat_nonempty [simp]: "show_nat n \<noteq> []" "[] \<noteq> show_nat n"
  by (subst show_nat.simps, simp)+

lemma show_nat_inj: "show_nat m = show_nat n \<Longrightarrow> m = n"
proof (induction m arbitrary: n rule: less_induct)
  case (less m)
  note eqs = show_nat.simps [of m] show_nat.simps [of n]
  show ?case
  proof (cases "m < 10 \<or> n < 10")
    case True
    then show ?thesis using less.prems eqs digit_inj show_nat_nonempty by (auto split: if_splits)
  next
    case False
    then have e: "show_nat (m div 10) = show_nat (n div 10)" "digit (m mod 10) = digit (n mod 10)"
      using less.prems eqs by simp_all
    then have "m div 10 = n div 10" using False by (intro less.IH) auto
    moreover have "m mod 10 = n mod 10" using e(2) by (rule digit_inj [rotated 2]) simp_all
    ultimately show ?thesis by (metis div_mult_mod_eq)
  qed
qed

lemma show_nat_plain: "CHR '':'' \<notin> set (show_nat n) \<and> CHR ''-'' \<notin> set (show_nat n)"
proof (induction n rule: less_induct)
  case (less n)
  then show ?case
    using digit_plain [of n] digit_plain [of "n mod 10"] by (subst show_nat.simps) (auto simp: show_nat.simps [of n])
qed

lemma show_int_plain: "CHR '':'' \<notin> set (show_int k)"
  using show_nat_plain by (simp add: show_int_def)

lemma show_int_inj: "show_int a = show_int b \<Longrightarrow> a = b"
proof -
  assume e: "show_int a = show_int b"
  have "hd (show_nat n) \<noteq> CHR ''-''" for n
    using show_nat_plain [of n] show_nat_nonempty [of n] by (metis hd_in_set)
  then have "(a < 0) = (b < 0)" using e by (auto simp: show_int_def split: if_splits) (metis list.sel(1))+
  then show ?thesis using e show_nat_inj by (auto simp: show_int_def split: if_splits) fastforce+
qed

end
