(* ===== verification/Droid_Rounding.thy ===== *)
theory Droid_Rounding
  imports Droid_Prelude "HOL-Library.Log_Nat"
begin

text \<open>
  Rounded arithmetic. The program computes with \<open>decimal.Decimal\<close> under a context of
  28 significant digits, and with IEEE binary64 floats; both round the exact result of an
  operation to a fixed number of significant digits, halves to even. \<open>round_sig b p\<close> is
  that rounding on exact rationals (base \<open>b\<close>, \<open>p\<close> digits). The exponent is unbounded:
  overflow and subnormal numbers (magnitudes above \<open>10^999999\<close> or \<open>2^1023\<close>, below
  \<open>10^-999999\<close> or \<open>2^-1022\<close>) are outside the model.

  The locale \<open>rounding\<close> is the contract a client of rounded arithmetic uses:
  monotone, odd, idempotent and exact at zero; its lemmas are the order facts the
  component proofs need. It is interpreted on both roundings.
\<close>

subsection \<open>The contract\<close>

locale rounding =
  fixes rnd :: "rat \<Rightarrow> rat"
  assumes rnd_mono: "x \<le> y \<Longrightarrow> rnd x \<le> rnd y"
    and rnd_zero: "rnd 0 = 0"
    and rnd_neg: "rnd (- x) = - rnd x"
    and rnd_idem: "rnd (rnd x) = rnd x"
begin

lemma rnd_nonneg: "0 \<le> x \<Longrightarrow> 0 \<le> rnd x"
  using rnd_mono [of 0 x] by (simp add: rnd_zero)

lemma rnd_nonpos: "x \<le> 0 \<Longrightarrow> rnd x \<le> 0"
  using rnd_mono [of x 0] by (simp add: rnd_zero)

lemma rnd_abs: "rnd \<bar>x\<bar> = \<bar>rnd x\<bar>"
  using rnd_nonneg [of x] rnd_nonpos [of x] by (cases "0 \<le> x") (auto simp: rnd_neg abs_if)

lemma rnd_le_rep: "rnd y = y \<Longrightarrow> x \<le> y \<Longrightarrow> rnd x \<le> y"
  using rnd_mono [of x y] by simp

lemma rnd_ge_rep: "rnd y = y \<Longrightarrow> y \<le> x \<Longrightarrow> y \<le> rnd x"
  using rnd_mono [of y x] by simp

lemma rnd_less_imp_less: "rnd x < rnd y \<Longrightarrow> x < y"
  using rnd_mono [of y x] by (auto simp: not_le [symmetric])

lemma rnd_gt_rep_imp: "rnd y = y \<Longrightarrow> y < rnd x \<Longrightarrow> y < x"
  using rnd_less_imp_less [of y x] by simp

lemma rnd_add_mono: "x \<le> y \<Longrightarrow> rnd (z + x) \<le> rnd (z + y)"
  by (rule rnd_mono) simp

end

subsection \<open>Rounding to significant digits\<close>

definition ilog :: "nat \<Rightarrow> rat \<Rightarrow> int" where
  "ilog b x = (let (n, d) = quotient_of x in
     if d \<le> n then int (floorlog b (nat (n div d))) - 1
     else - int (floorlog b (nat ((d - 1) div n))))"

definition round_half_even :: "rat \<Rightarrow> int" where
  "round_half_even x = (let f = \<lfloor>x\<rfloor>; r = x - of_int f in
     if r < 1/2 then f else if 1/2 < r then f + 1
     else if even f then f else f + 1)"

definition round_sig :: "nat \<Rightarrow> nat \<Rightarrow> rat \<Rightarrow> rat" where
  "round_sig b p x = (if x = 0 then 0 else
     let u = of_nat b powi (ilog b \<bar>x\<bar> - (int p - 1))
     in of_int (round_half_even (x / u)) * u)"

subsection \<open>The integer logarithm\<close>

lemma floorlog_pos_bounds:
  assumes "1 < b" and "0 < m"
  shows "b ^ (floorlog b m - 1) \<le> m" and "m < b ^ floorlog b m" and "0 < floorlog b m"
  using assms floorlog_bounds [of m b] by (auto simp: floorlog_def)

lemma ilog_bounds_aux:
  assumes b: "1 < b" and nd: "quotient_of x = (n, d)" and n: "0 < n"
  shows "of_nat b powi ilog b x \<le> x \<and> x < of_nat b powi (ilog b x + 1)"
proof -
  have d: "0 < d" using quotient_of_denom_pos [OF nd] .
  have xq: "x = of_int n / of_int d" using quotient_of_div [OF nd] .
  show ?thesis
  proof (cases "d \<le> n")
    case True
    define m where "m = nat (n div d)"
    have m: "0 < m" using True d by (simp add: m_def pos_imp_zdiv_pos_iff)
    have mi: "int m = n div d" using m_def m by simp
    define k where "k = floorlog b m"
    note kb = floorlog_pos_bounds [OF b m, folded k_def]
    have il: "ilog b x = int k - 1" using True by (simp add: ilog_def nd k_def m_def)
    have p1: "(of_nat b :: rat) powi ilog b x = of_nat (b ^ (k - 1))"
      using kb(3) by (simp add: il power_int_def nat_diff_distrib)
    have p2: "(of_nat b :: rat) powi (ilog b x + 1) = of_nat (b ^ k)"
      by (simp add: il power_int_def)
    have "int (b ^ (k - 1)) * d \<le> n div d * d"
      using kb(1) mi d by (metis mult_right_mono of_nat_mono order_less_imp_le)
    also have "\<dots> \<le> n" using div_mult_mod_eq [of n d] pos_mod_sign [OF d, of n] by linarith
    finally have lo: "rat_of_int (int (b ^ (k - 1)) * d) \<le> of_int n" by (simp only: of_int_le_iff)
    have "n < (n div d + 1) * d" 
unfolding distrib_right
      using div_mult_mod_eq [of n d] pos_mod_bound [OF d, of n] by linarith
    also have "\<dots> \<le> int (b ^ k) * d"
      using kb(2) mi d by (metis mult_right_mono of_nat_mono order_less_imp_le Suc_leI of_nat_Suc add.commute)
    finally have hi: "rat_of_int n < of_int (int (b ^ k) * d)" by (simp only: of_int_less_iff)
    show ?thesis
      unfolding p1 p2 using lo hi d by (simp add: xq pos_le_divide_eq pos_divide_less_eq)
  next
    case False
    define m where "m = nat ((d - 1) div n)"
    have m: "0 < m" using False n by (simp add: m_def pos_imp_zdiv_pos_iff)
    have mi: "int m = (d - 1) div n" using m_def m by simp
    define k where "k = floorlog b m"
    note kb = floorlog_pos_bounds [OF b m, folded k_def]
    have il: "ilog b x = - int k" using False by (simp add: ilog_def nd k_def m_def)
    have p1: "(of_nat b :: rat) powi ilog b x = 1 / of_nat (b ^ k)"
      by (simp add: il power_int_minus inverse_eq_divide)
    have p2: "(of_nat b :: rat) powi (ilog b x + 1) = 1 / of_nat (b ^ (k - 1))"
    proof -
      have "ilog b x + 1 = - int (k - 1)" using kb(3) il by simp
      then show ?thesis by (simp add: power_int_minus inverse_eq_divide)
    qed
    have "n * int (b ^ (k - 1)) \<le> n * ((d - 1) div n)"
      using kb(1) mi n by (metis mult_left_mono of_nat_mono order_less_imp_le)
    also have "\<dots> \<le> d - 1" 
      using mult_div_mod_eq [of n "d - 1"] pos_mod_sign [OF n, of "d - 1"] by linarith
    finally have hi: "rat_of_int (n * int (b ^ (k - 1))) < of_int d" by (simp only: of_int_less_iff)
    have "d - 1 < n * ((d - 1) div n + 1)" 
      unfolding distrib_left
      using mult_div_mod_eq [of n "d - 1"] pos_mod_bound [OF n, of "d - 1"] by linarith
    also have "\<dots> \<le> n * int (b ^ k)"
      using kb(2) mi n by (metis mult_left_mono of_nat_mono order_less_imp_le Suc_leI of_nat_Suc add.commute)
    finally have lo: "rat_of_int d \<le> of_int (n * int (b ^ k))" by (simp only: of_int_le_iff)
    have pos: "(0::rat) < of_nat (b ^ k)" "(0::rat) < of_nat (b ^ (k - 1))" using b by auto
    show ?thesis
      unfolding p1 p2 using lo hi d pos by (simp add: xq field_simps)
  qed
qed

lemma ilog_bounds:
  assumes "1 < b" and "0 < x"
  shows "of_nat b powi ilog b x \<le> x" and "x < of_nat b powi (ilog b x + 1)"
proof -
  obtain n d where nd: "quotient_of x = (n, d)" by (cases "quotient_of x")
  have "0 < d" and "x = of_int n / of_int d"
    using quotient_of_denom_pos [OF nd] quotient_of_div [OF nd] by auto
  then have n: "0 < n" using assms(2) by (simp add: zero_less_divide_iff)
  show "of_nat b powi ilog b x \<le> x" and "x < of_nat b powi (ilog b x + 1)"
    using ilog_bounds_aux [OF assms(1) nd n] by auto
qed

lemma powi_less_iff:
  assumes "1 < b"
  shows "(of_nat b :: rat) powi i < of_nat b powi j \<longleftrightarrow> i < j"
proof
  have b1: "(1::rat) < of_nat b" using assms by simp
  show "i < j" if "(of_nat b :: rat) powi i < of_nat b powi j"
    using that power_int_increasing [of j i "of_nat b :: rat"] b1 by (cases "i < j") auto
  show "(of_nat b :: rat) powi i < of_nat b powi j" if "i < j"
    using power_int_strict_increasing [OF that b1] .
qed

lemma ilog_eqI:
  assumes b: "1 < b" and lo: "of_nat b powi e \<le> x" and hi: "x < of_nat b powi (e + 1)"
  shows "ilog b x = e"
proof -
  have "(0::rat) < of_nat b powi e" using b by simp
  then have x: "0 < x" using lo by linarith
  have "(of_nat b :: rat) powi e < of_nat b powi (ilog b x + 1)"
    using lo ilog_bounds(2) [OF b x] by linarith
  moreover have "(of_nat b :: rat) powi ilog b x < of_nat b powi (e + 1)"
    using hi ilog_bounds(1) [OF b x] by linarith
  ultimately show ?thesis by (simp add: powi_less_iff [OF b])
qed

lemma ilog_mono:
  assumes b: "1 < b" and x: "0 < x" and xy: "x \<le> y"
  shows "ilog b x \<le> ilog b y"
proof -
  have "(of_nat b :: rat) powi ilog b x < of_nat b powi (ilog b y + 1)"
    using ilog_bounds(1) [OF b x] ilog_bounds(2) [OF b, of y] x xy by linarith
  then show ?thesis by (simp add: powi_less_iff [OF b])
qed

subsection \<open>Halves to even\<close>

lemma rhe_int [simp]: "round_half_even (of_int z) = z"
  by (simp add: round_half_even_def)

lemma rhe_near: "\<bar>of_int (round_half_even x) - x\<bar> \<le> 1/2"
proof -
  have "of_int \<lfloor>x\<rfloor> \<le> x" "x < of_int \<lfloor>x\<rfloor> + 1" by linarith+
  then show ?thesis unfolding round_half_even_def Let_def abs_if
    by (simp split: if_splits) linarith
qed

lemma rhe_mono:
  assumes "x \<le> y"
  shows "round_half_even x \<le> round_half_even y"
proof -
  have f: "\<lfloor>x\<rfloor> \<le> \<lfloor>y\<rfloor>" using assms by (rule floor_mono)
  show ?thesis
  proof (cases "\<lfloor>x\<rfloor> = \<lfloor>y\<rfloor>")
    case True
    then show ?thesis using assms by (auto simp: round_half_even_def Let_def)
  next
    case False
    with f have "\<lfloor>x\<rfloor> + 1 \<le> \<lfloor>y\<rfloor>" by simp
    then show ?thesis by (auto simp: round_half_even_def Let_def)
  qed
qed

lemma rhe_neg: "round_half_even (- x) = - round_half_even x"
proof (cases "x = of_int \<lfloor>x\<rfloor>")
  case True
  then show ?thesis by (metis of_int_minus rhe_int)
next
  case False
  then have "\<lfloor>- x\<rfloor> = - \<lfloor>x\<rfloor> - 1" by (smt (verit) floor_minus ceiling_altdef)
  then show ?thesis
    by (auto simp: round_half_even_def Let_def)
qed

text \<open>For evaluation, the digit count is computed on binary integers.\<close>

function ilen :: "int \<Rightarrow> int \<Rightarrow> int" where
  "ilen b x = (if 0 < x \<and> 1 < b then ilen b (x div b) + 1 else 0)"
  by pat_completeness auto
termination
proof (relation "measure (\<lambda>(b, x). nat x)", goal_cases)
  case (2 b x)
  then have "x div b < x" by (intro int_div_less_self) auto
  with 2 show ?case by simp
qed simp

declare ilen.simps [simp del]

lemma ilen_floorlog: "0 \<le> x \<Longrightarrow> ilen (int b) x = int (floorlog b (nat x))"
proof (induction "nat x" arbitrary: x rule: less_induct)
  case less
  show ?case
  proof (cases "0 < x \<and> 1 < b")
    case True
    then have lt: "x div int b < x" by (intro int_div_less_self) auto
    have "0 \<le> x div int b" using True by (simp add: pos_imp_zdiv_nonneg_iff)
    then have "ilen (int b) (x div int b) = int (floorlog b (nat (x div int b)))"
      using less.hyps lt True by simp
    then show ?thesis
      using True by (simp add: ilen.simps [of "int b" x] compute_floorlog [of b "nat x"] nat_div_distrib)
  next
    case False
    then show ?thesis using less.prems by (auto simp: ilen.simps [of "int b" x] floorlog_def)
  qed
qed

lemma ilog_code [code]:
  "ilog b x = (let (n, d) = quotient_of x in
     if d \<le> n then ilen (int b) (n div d) - 1
     else if 0 < n then - ilen (int b) ((d - 1) div n)
     else - int (floorlog b (nat ((d - 1) div n))))"
proof -
  obtain n d where nd: "quotient_of x = (n, d)" by (cases "quotient_of x")
  have d: "0 < d" using quotient_of_denom_pos [OF nd] .
  have "d \<le> n \<Longrightarrow> 0 \<le> n div d" using d by (simp add: pos_imp_zdiv_nonneg_iff)
  moreover have "0 < n \<Longrightarrow> 0 \<le> (d - 1) div n" using d by (simp add: pos_imp_zdiv_nonneg_iff)
  ultimately show ?thesis by (simp add: ilog_def nd ilen_floorlog)
qed

subsection \<open>Properties of the rounding\<close>

lemma round_sig_zero: "round_sig b p 0 = 0"
  by (simp add: round_sig_def)

lemma round_sig_neg: "round_sig b p (- x) = - round_sig b p x"
  by (simp add: round_sig_def Let_def rhe_neg)

lemma round_sig_near:
  assumes b: "1 < b" and p: "0 < p"
  shows "\<bar>round_sig b p x - x\<bar> \<le> \<bar>x\<bar> / (2 * of_nat b ^ (p - 1))"
proof (cases "x = 0")
  case True
  then show ?thesis by (simp add: round_sig_def)
next
  case False
  define u where "u = (of_nat b :: rat) powi (ilog b \<bar>x\<bar> - (int p - 1))"
  have u: "0 < u" using b by (simp add: u_def)
  have "(of_nat b :: rat) ^ (p - 1) = of_nat b powi (int p - 1)"
    using p power_int_of_nat [of "of_nat b :: rat" "p - 1"] by (simp add: of_nat_diff)
  then have "u * of_nat b ^ (p - 1) = of_nat b powi ilog b \<bar>x\<bar>"
    using b by (simp add: u_def power_int_add [symmetric])
  also have "\<dots> \<le> \<bar>x\<bar>" using ilog_bounds(1) [OF b] False by simp
  finally have ux: "u \<le> \<bar>x\<bar> / of_nat b ^ (p - 1)"
    using b by (simp add: pos_le_divide_eq)
  have "round_sig b p x - x = (of_int (round_half_even (x / u)) - x / u) * u"
    using False u by (simp add: round_sig_def Let_def u_def [symmetric] left_diff_distrib)
  then have "\<bar>round_sig b p x - x\<bar> = \<bar>of_int (round_half_even (x / u)) - x / u\<bar> * u"
    using u by (simp add: abs_mult)
  also have "\<dots> \<le> 1/2 * u" by (intro mult_right_mono rhe_near) (use u in simp)
  also have "\<dots> \<le> 1/2 * (\<bar>x\<bar> / of_nat b ^ (p - 1))" using ux by simp
  finally show ?thesis by (simp add: field_simps)
qed

text \<open>A number with at most \<open>p\<close> digits is its own rounding.\<close>

lemma round_sig_exact_pos:
  assumes b: "1 < b" and p: "0 < p" and c: "0 < c" "c < int b ^ p"
    and x: "x = of_int c * of_nat b powi k"
  shows "round_sig b p x = x"
proof -
  have xpos: "0 < x" using b c by (simp add: x)
  have "x < of_int (int b ^ p) * of_nat b powi k"
    using b c(2) unfolding x by (intro mult_strict_right_mono) (simp_all only: of_int_less_iff, simp)
  also have "\<dots> = of_nat b powi (int p + k)"
    using b by (simp add: power_int_add)
  finally have "ilog b x < int p + k"
    using ilog_bounds(1) [OF b xpos] powi_less_iff [OF b] by (meson le_less_trans)
  then obtain j where j: "k - (ilog b x - (int p - 1)) = int j"
    by (metis nonneg_int_cases add.commute diff_ge_0_iff_ge diff_le_eq zle_diff1_eq diff_diff_eq2 add_diff_eq)
  define u where "u = (of_nat b :: rat) powi (ilog b x - (int p - 1))"
  have u: "u \<noteq> 0" using b by (simp add: u_def)
  have "x / u = of_int c * of_nat b powi (k - (ilog b x - (int p - 1)))"
    using b by (simp add: x u_def power_int_diff)
  also have "\<dots> = of_int (c * int b ^ j)" by (simp only: j) simp
  finally have "of_int (round_half_even (x / u)) = x / u" by (simp only: rhe_int)
  then show ?thesis using xpos u by (simp add: round_sig_def Let_def u_def [symmetric])
qed

definition representable :: "nat \<Rightarrow> nat \<Rightarrow> rat \<Rightarrow> bool" where
  "representable b p x \<longleftrightarrow> (\<exists>c k. \<bar>c\<bar> \<le> int b ^ p \<and> x = of_int c * of_nat b powi k)"

lemma round_sig_exact:
  assumes b: "1 < b" and p: "0 < p" and r: "representable b p x"
  shows "round_sig b p x = x"
proof -
  obtain c k where ck: "\<bar>c\<bar> \<le> int b ^ p" "x = of_int c * of_nat b powi k"
    using r by (auto simp: representable_def)
  have pos: "round_sig b p (of_int \<bar>c\<bar> * of_nat b powi k) = of_int \<bar>c\<bar> * of_nat b powi k"
  proof (cases "c = 0")
    case True
    then show ?thesis by (simp add: round_sig_zero)
  next
    case nz: False
    show ?thesis
    proof (cases "\<bar>c\<bar> = int b ^ p")
      case True
      have "of_int \<bar>c\<bar> * of_nat b powi k = of_int 1 * (of_nat b :: rat) powi (int p + k)"
        using b by (simp add: True power_int_add)
      moreover have "(1::int) < int b ^ p" using b p by (simp add: one_less_power)
      ultimately show ?thesis using round_sig_exact_pos [OF b p, of 1] by simp
    next
      case False
      then show ?thesis using ck nz by (intro round_sig_exact_pos [OF b p, of "\<bar>c\<bar>"]) auto
    qed
  qed
  show ?thesis
  proof (cases "0 \<le> c")
    case True
    then show ?thesis using pos by (simp add: ck)
  next
    case False
    then have "x = - (of_int \<bar>c\<bar> * of_nat b powi k)" by (simp add: ck)
    then show ?thesis using pos by (simp add: round_sig_neg)
  qed
qed

lemma round_sig_representable:
  assumes b: "1 < b" and p: "0 < p"
  shows "representable b p (round_sig b p x)"
proof (cases "x = 0")
  case True
  then show ?thesis by (auto simp: round_sig_zero representable_def intro!: exI [of _ 0])
next
  case False
  define e where "e = ilog b \<bar>x\<bar> - (int p - 1)"
  define u where "u = (of_nat b :: rat) powi e"
  have u: "0 < u" using b by (simp add: u_def)
  have "\<bar>x\<bar> < of_nat b powi (ilog b \<bar>x\<bar> + 1)" using ilog_bounds(2) [OF b] False by simp
  also have "\<dots> = of_nat b powi (int p + e)" by (simp add: e_def)
  also have "\<dots> = of_nat b ^ p * u" using b by (simp add: power_int_add u_def)
  finally have lt: "\<bar>x\<bar> / u \<le> of_int (int b ^ p)" using u by (simp add: pos_divide_le_eq)
  have "x / u \<le> of_int (int b ^ p)" "- (x / u) \<le> of_int (int b ^ p)"
    using lt u order_trans [OF divide_right_mono [OF abs_ge_self [of x]] lt]
      order_trans [OF divide_right_mono [OF abs_ge_minus_self [of x]] lt]
    by simp_all
  then have "round_half_even (x / u) \<le> int b ^ p" "- round_half_even (x / u) \<le> int b ^ p"
    using rhe_mono rhe_int rhe_neg by metis+
  then have "\<bar>round_half_even (x / u)\<bar> \<le> int b ^ p" by simp
  moreover have "round_sig b p x = of_int (round_half_even (x / u)) * of_nat b powi e"
    using False by (simp add: round_sig_def Let_def u_def e_def)
  ultimately show ?thesis unfolding representable_def by blast
qed

lemma round_sig_idem:
  "1 < b \<Longrightarrow> 0 < p \<Longrightarrow> round_sig b p (round_sig b p x) = round_sig b p x"
  by (intro round_sig_exact round_sig_representable)

lemma round_sig_nonneg: "0 \<le> x \<Longrightarrow> 0 \<le> round_sig b p x"
  using rhe_mono [of 0 "x / of_nat b powi (ilog b \<bar>x\<bar> - (int p - 1))"] rhe_int [of 0]
  by (simp add: round_sig_def Let_def)

lemma round_sig_mono_pos:
  assumes b: "1 < b" and p: "0 < p" and x: "0 < x" and xy: "x \<le> y"
  shows "round_sig b p x \<le> round_sig b p y"
proof -
  have y: "0 < y" using x xy by simp
  define u v where "u = (of_nat b :: rat) powi (ilog b x - (int p - 1))"
    and "v = (of_nat b :: rat) powi (ilog b y - (int p - 1))"
  have uv: "0 < u" "0 < v" using b by (simp_all add: u_def v_def)
  have rx: "round_sig b p x = of_int (round_half_even (x / u)) * u"
    and ry: "round_sig b p y = of_int (round_half_even (y / v)) * v"
    using x y by (simp_all add: round_sig_def Let_def u_def v_def)
  show ?thesis
  proof (cases "ilog b x = ilog b y")
    case True
    then have "u = v" by (simp add: u_def v_def)
    then show ?thesis
      using uv xy by (auto simp: rx ry intro!: mult_right_mono rhe_mono divide_right_mono)
  next
    case False
    then have e: "ilog b x + 1 \<le> ilog b y" using ilog_mono [OF b x xy] by simp
    have U: "of_int (int b ^ p) * u = of_nat b powi (ilog b x + 1)"
      using b by (simp add: u_def power_int_of_nat [symmetric] power_int_add [symmetric]
          del: power_int_of_nat)
    have V: "of_int (int b ^ (p - 1)) * v = of_nat b powi ilog b y"
      using b p by (simp add: v_def power_int_of_nat [symmetric] power_int_add [symmetric]
          of_nat_diff del: power_int_of_nat)
    have "x / u \<le> of_int (int b ^ p)"
      unfolding pos_divide_le_eq [OF uv(1)] U using ilog_bounds(2) [OF b x] by simp
    then have "round_half_even (x / u) \<le> int b ^ p" using rhe_mono rhe_int by metis
    then have "round_sig b p x \<le> of_int (int b ^ p) * u"
      unfolding rx using uv by (intro mult_right_mono) (simp_all only: of_int_le_iff less_imp_le)
    also have "\<dots> \<le> of_int (int b ^ (p - 1)) * v"
      unfolding U V using e b by (intro power_int_increasing) simp_all
    also have "\<dots> \<le> round_sig b p y"
    proof -
      have "of_int (int b ^ (p - 1)) \<le> y / v"
        unfolding pos_le_divide_eq [OF uv(2)] V by (rule ilog_bounds(1) [OF b y])
      then have "int b ^ (p - 1) \<le> round_half_even (y / v)" using rhe_mono rhe_int by metis
      then show ?thesis
        unfolding ry using uv by (intro mult_right_mono) (simp_all only: of_int_le_iff less_imp_le)
    qed
    finally show ?thesis .
  qed
qed

lemma round_sig_mono:
  assumes b: "1 < b" and p: "0 < p" and xy: "x \<le> y"
  shows "round_sig b p x \<le> round_sig b p y"
proof -
  have np: "round_sig b p z \<le> 0" if "z \<le> 0" for z
    using round_sig_nonneg [of "- z" b p] that by (simp add: round_sig_neg)
  consider "0 < x" | "x \<le> 0" "0 \<le> y" | "y < 0" by linarith
  then show ?thesis
  proof cases
    case 1
    then show ?thesis using round_sig_mono_pos [OF b p _ xy] by simp
  next
    case 2
    then show ?thesis using np round_sig_nonneg by (meson order_trans)
  next
    case 3
    then show ?thesis using round_sig_mono_pos [OF b p, of "- y" "- x"] xy
      by (simp add: round_sig_neg)
  qed
qed

subsection \<open>The two roundings of the program\<close>

definition drnd :: "rat \<Rightarrow> rat" where
  "drnd = round_sig 10 28"

definition frnd :: "rat \<Rightarrow> rat" where
  "frnd = round_sig 2 53"

interpretation dec: rounding drnd
  by unfold_locales
    (simp_all add: drnd_def round_sig_mono round_sig_zero round_sig_neg round_sig_idem)

interpretation flt: rounding frnd
  by unfold_locales
    (simp_all add: frnd_def round_sig_mono round_sig_zero round_sig_neg round_sig_idem)

lemma drnd_near: "\<bar>drnd x - x\<bar> \<le> \<bar>x\<bar> / (2 * 10 ^ 27)"
  using round_sig_near [of 10 28 x] by (simp add: drnd_def)

lemma drnd_exactI: "\<bar>c\<bar> \<le> 10 ^ 28 \<Longrightarrow> x = of_int c * 10 powi k \<Longrightarrow> drnd x = x"
  unfolding drnd_def by (intro round_sig_exact) (auto simp: representable_def)

lemma frnd_exactI: "\<bar>c\<bar> \<le> 2 ^ 53 \<Longrightarrow> x = of_int c * 2 powi k \<Longrightarrow> frnd x = x"
  unfolding frnd_def by (intro round_sig_exact) (auto simp: representable_def)

lemma drnd_int [simp]: "\<bar>c\<bar> \<le> 10 ^ 28 \<Longrightarrow> drnd (of_int c) = of_int c"
  by (rule drnd_exactI [where k = 0]) simp_all

lemma frnd_int [simp]: "\<bar>c\<bar> \<le> 2 ^ 53 \<Longrightarrow> frnd (of_int c) = of_int c"
  by (rule frnd_exactI [where k = 0]) simp_all

lemma drnd_zero [simp]: "drnd 0 = 0" and frnd_zero [simp]: "frnd 0 = 0"
  by (rule dec.rnd_zero, rule flt.rnd_zero)

lemma drnd_one [simp]: "drnd 1 = 1" and frnd_one [simp]: "frnd 1 = 1"
  using drnd_int [of 1] frnd_int [of 1] by simp_all

lemma drnd_numeral [simp]: "numeral w \<le> (10 ^ 28 :: int) \<Longrightarrow> drnd (numeral w) = numeral w"
  using drnd_int [of "numeral w"] by simp

lemma frnd_numeral [simp]: "numeral w \<le> (2 ^ 53 :: int) \<Longrightarrow> frnd (numeral w) = numeral w"
  using frnd_int [of "numeral w"] by simp

subsection \<open>Rounding and summing floats\<close>

text \<open>\<open>round(x, n)\<close>: the exact value to \<open>n\<close> places, half to even, and the nearest float.\<close>

definition round2 :: "rat \<Rightarrow> rat" where
  "round2 x = frnd (of_int (round_half_even (x * 100)) / 100)"

definition round_places :: "nat \<Rightarrow> rat \<Rightarrow> rat" where
  "round_places n x = frnd (of_int (round_half_even (x * 10 ^ n)) / 10 ^ n)"

text \<open>\<open>sum\<close> of floats as of Python 3.12: compensated summation.\<close>

fun nsum_from :: "rat \<Rightarrow> rat \<Rightarrow> rat list \<Rightarrow> rat" where
  "nsum_from f c [] = (if c = 0 then f else frnd (f + c))"
| "nsum_from f c (x # xs) = (let t = frnd (f + x) in
     nsum_from t (frnd (c + (if \<bar>x\<bar> \<le> \<bar>f\<bar> then frnd (frnd (f - t) + x) else frnd (frnd (x - t) + f)))) xs)"

fun py_sum :: "rat list \<Rightarrow> rat" where
  "py_sum [] = 0"
| "py_sum (x # xs) = nsum_from x 0 xs"

subsection \<open>Seconds of a time difference\<close>

text \<open>A time is a number of microseconds; \<open>total_seconds\<close> of a difference is a float.\<close>

definition total_seconds :: "int \<Rightarrow> rat" where
  "total_seconds us = frnd (of_int us / 1000000)"

text \<open>The division is exact enough to order whole seconds.\<close>

lemma total_seconds_le_iff:
  assumes "\<bar>n\<bar> < 2 ^ 31"
  shows "total_seconds us \<le> of_int n \<longleftrightarrow> us \<le> n * 1000000"
proof
  assume le: "total_seconds us \<le> of_int n"
  show "us \<le> n * 1000000"
  proof (rule ccontr)
    assume "\<not> ?thesis"
    then have "of_int (n * 1000000 + 1) \<le> (of_int us :: rat)" by (simp only: of_int_le_iff)
    then have "of_int (n * 2097152 + 1) / 2097152 \<le> (of_int us / 1000000 :: rat)" by (simp add: field_simps)
    then have "frnd (of_int (n * 2097152 + 1) / 2097152) \<le> total_seconds us" unfolding total_seconds_def by (rule flt.rnd_mono)
    moreover have "frnd (of_int (n * 2097152 + 1) / 2097152) = of_int (n * 2097152 + 1) / 2097152"
      using assms by (intro frnd_exactI [where c = "n * 2097152 + 1" and k = "-21"]) auto
    ultimately show False using le by (simp add: field_simps)
  qed
next
  assume "us \<le> n * 1000000"
  then have "(of_int us / 1000000 :: rat) \<le> of_int n" by (simp add: field_simps flip: of_int_mult)
  then have "total_seconds us \<le> frnd (of_int n)" unfolding total_seconds_def by (rule flt.rnd_mono)
  then show "total_seconds us \<le> of_int n" using assms frnd_int [of n] by simp
qed


end
