(* ===== verification/Droid_Decimal.thy ===== *)
theory Droid_Decimal
  imports Droid_Rounding
begin

text \<open>
  Python's \<open>decimal.Decimal\<close> as the program uses it, and the financial-precision module
  \<open>backend/app/algo/money.py\<close>.

  A decimal is a finite value, a signed infinity or a quiet NaN (\<open>dval\<close>); the sign of
  zero and signalling NaNs are not modelled, and the exponent of a finite value appears
  only where the code reads it (\<open>quantize\<close>), as an explicit argument. The context is the
  one \<open>money.py\<close> installs: 28 digits, halves to even, with \<open>InvalidOperation\<close> and
  \<open>DivisionByZero\<close> trapped, so those conditions are raised (\<open>Inl\<close>).
  \<open>declike\<close> is what the code calls \<open>DecimalLike\<close>: the argument of \<open>D\<close>.
\<close>

subsection \<open>Values and arithmetic\<close>

datatype dval = DFin rat | DInf bool | DNaN

definition dadd :: "dval \<Rightarrow> dval \<Rightarrow> dval result" where
  "dadd x y = (case x of
     DNaN \<Rightarrow> Inr DNaN
   | DFin a \<Rightarrow> (case y of DFin b \<Rightarrow> Inr (DFin (drnd (a + b))) | _ \<Rightarrow> Inr y)
   | DInf s \<Rightarrow> (case y of
        DNaN \<Rightarrow> Inr DNaN
      | DFin b \<Rightarrow> Inr x
      | DInf t \<Rightarrow> if s = t then Inr x else Inl InvalidOperation))"

definition dneg :: "dval \<Rightarrow> dval" where
  "dneg x = (case x of DFin a \<Rightarrow> DFin (drnd (- a)) | DInf s \<Rightarrow> DInf (\<not> s) | DNaN \<Rightarrow> DNaN)"

definition dsub :: "dval \<Rightarrow> dval \<Rightarrow> dval result" where
  "dsub x y = dadd x (case y of DFin b \<Rightarrow> DFin (- b) | DInf s \<Rightarrow> DInf (\<not> s) | DNaN \<Rightarrow> DNaN)"

definition dabs :: "dval \<Rightarrow> dval" where
  "dabs x = (case x of DFin a \<Rightarrow> DFin (drnd \<bar>a\<bar>) | DInf s \<Rightarrow> DInf False | DNaN \<Rightarrow> DNaN)"

definition dmul :: "dval \<Rightarrow> dval \<Rightarrow> dval result" where
  "dmul x y = (case x of
     DNaN \<Rightarrow> Inr DNaN
   | DFin a \<Rightarrow> (case y of
        DNaN \<Rightarrow> Inr DNaN
      | DFin b \<Rightarrow> Inr (DFin (drnd (a * b)))
      | DInf t \<Rightarrow> if a = 0 then Inl InvalidOperation else Inr (DInf ((a < 0) \<noteq> t)))
   | DInf s \<Rightarrow> (case y of
        DNaN \<Rightarrow> Inr DNaN
      | DFin b \<Rightarrow> if b = 0 then Inl InvalidOperation else Inr (DInf (s \<noteq> (b < 0)))
      | DInf t \<Rightarrow> Inr (DInf (s \<noteq> t))))"

definition ddiv :: "dval \<Rightarrow> dval \<Rightarrow> dval result" where
  "ddiv x y = (case x of
     DNaN \<Rightarrow> Inr DNaN
   | DFin a \<Rightarrow> (case y of
        DNaN \<Rightarrow> Inr DNaN
      | DFin b \<Rightarrow> if b = 0 then (if a = 0 then Inl InvalidOperation else Inl DivisionByZero)
                  else Inr (DFin (drnd (a / b)))
      | DInf t \<Rightarrow> Inr (DFin 0))
   | DInf s \<Rightarrow> (case y of
        DNaN \<Rightarrow> Inr DNaN
      | DFin b \<Rightarrow> Inr (DInf (s \<noteq> (b < 0)))
      | DInf t \<Rightarrow> Inl InvalidOperation))"

text \<open>Order comparisons raise on a NaN; equality never does.\<close>

definition dless_val :: "dval \<Rightarrow> dval \<Rightarrow> bool" where
  "dless_val x y = (case x of
     DFin a \<Rightarrow> (case y of DFin b \<Rightarrow> a < b | DInf t \<Rightarrow> \<not> t | DNaN \<Rightarrow> False)
   | DInf s \<Rightarrow> (case y of DFin b \<Rightarrow> s | DInf t \<Rightarrow> s \<and> \<not> t | DNaN \<Rightarrow> False)
   | DNaN \<Rightarrow> False)"

definition dlt :: "dval \<Rightarrow> dval \<Rightarrow> bool result" where
  "dlt x y = (if x = DNaN \<or> y = DNaN then Inl InvalidOperation else Inr (dless_val x y))"

definition dle :: "dval \<Rightarrow> dval \<Rightarrow> bool result" where
  "dle x y = (if x = DNaN \<or> y = DNaN then Inl InvalidOperation else Inr (\<not> dless_val y x))"

definition deq :: "dval \<Rightarrow> dval \<Rightarrow> bool" where
  "deq x y \<longleftrightarrow> x = y \<and> x \<noteq> DNaN"

lemmas dec_ops = dadd_def dsub_def dneg_def dabs_def dmul_def ddiv_def
  dlt_def dle_def dless_val_def deq_def

lemma dec_fin_simps [simp]:
  "dadd (DFin a) (DFin b) = Inr (DFin (drnd (a + b)))"
  "dsub (DFin a) (DFin b) = Inr (DFin (drnd (a - b)))"
  "dmul (DFin a) (DFin b) = Inr (DFin (drnd (a * b)))"
  "b \<noteq> 0 \<Longrightarrow> ddiv (DFin a) (DFin b) = Inr (DFin (drnd (a / b)))"
  "dneg (DFin a) = DFin (drnd (- a))"
  "dabs (DFin a) = DFin (drnd \<bar>a\<bar>)"
  "dlt (DFin a) (DFin b) = Inr (a < b)"
  "dle (DFin a) (DFin b) = Inr (a \<le> b)"
  "deq (DFin a) (DFin b) = (a = b)"
  by (auto simp: dec_ops)

lemma dec_nan_compare [simp]:
  "dlt DNaN y = Inl InvalidOperation" "dlt x DNaN = Inl InvalidOperation"
  "dle DNaN y = Inl InvalidOperation" "dle x DNaN = Inl InvalidOperation"
  "\<not> deq DNaN y" "\<not> deq x DNaN"
  by (auto simp: dec_ops)

lemma dle_Inr_iff:
  "dle x y = Inr True \<longleftrightarrow> x \<noteq> DNaN \<and> y \<noteq> DNaN \<and> \<not> dless_val y x"
  by (auto simp: dle_def)

subsection \<open>Integer rounding, quantize, floor division and remainder\<close>

datatype rounding_mode = ROUND_HALF_UP | ROUND_HALF_EVEN | ROUND_FLOOR | ROUND_DOWN

definition rat_trunc :: "rat \<Rightarrow> int" where
  "rat_trunc x = (if 0 \<le> x then \<lfloor>x\<rfloor> else - \<lfloor>- x\<rfloor>)"

definition round_half_up :: "rat \<Rightarrow> int" where
  "round_half_up x = (if 0 \<le> x then \<lfloor>x + 1/2\<rfloor> else - \<lfloor>- x + 1/2\<rfloor>)"

definition round_int :: "rounding_mode \<Rightarrow> rat \<Rightarrow> int" where
  "round_int m x = (case m of
     ROUND_HALF_UP \<Rightarrow> round_half_up x
   | ROUND_HALF_EVEN \<Rightarrow> round_half_even x
   | ROUND_FLOOR \<Rightarrow> \<lfloor>x\<rfloor>
   | ROUND_DOWN \<Rightarrow> rat_trunc x)"

definition to_integral_value :: "rounding_mode \<Rightarrow> dval \<Rightarrow> dval" where
  "to_integral_value m x = (case x of DFin a \<Rightarrow> DFin (of_int (round_int m a)) | _ \<Rightarrow> x)"

definition dec_int :: "dval \<Rightarrow> int result" where
  "dec_int x = (case x of
     DFin a \<Rightarrow> Inr (rat_trunc a) | DInf s \<Rightarrow> Inl OverflowError | DNaN \<Rightarrow> Inl ValueError)"

text \<open>\<open>x.quantize(q)\<close> where \<open>q\<close> has exponent \<open>k\<close>: at most 28 digits may result.\<close>

definition dquantize :: "rounding_mode \<Rightarrow> dval \<Rightarrow> int \<Rightarrow> dval result" where
  "dquantize m x k = (case x of
     DFin a \<Rightarrow> (let c = round_int m (a / 10 powi k) in
        if \<bar>c\<bar> < 10 ^ 28 then Inr (DFin (of_int c * 10 powi k)) else Inl InvalidOperation)
   | DInf s \<Rightarrow> Inl InvalidOperation
   | DNaN \<Rightarrow> Inr DNaN)"

definition dfloordiv :: "dval \<Rightarrow> dval \<Rightarrow> dval result" where
  "dfloordiv x y = (case x of
     DNaN \<Rightarrow> Inr DNaN
   | DFin a \<Rightarrow> (case y of
        DNaN \<Rightarrow> Inr DNaN
      | DFin b \<Rightarrow> if b = 0 then (if a = 0 then Inl InvalidOperation else Inl DivisionByZero)
                  else (let q = rat_trunc (a / b) in
                        if \<bar>q\<bar> < 10 ^ 28 then Inr (DFin (of_int q)) else Inl InvalidOperation)
      | DInf t \<Rightarrow> Inr (DFin 0))
   | DInf s \<Rightarrow> (case y of
        DNaN \<Rightarrow> Inr DNaN
      | DFin b \<Rightarrow> Inr (DInf (s \<noteq> (b < 0)))
      | DInf t \<Rightarrow> Inl InvalidOperation))"

definition dmod :: "dval \<Rightarrow> dval \<Rightarrow> dval result" where
  "dmod x y = (case x of
     DNaN \<Rightarrow> Inr DNaN
   | DFin a \<Rightarrow> (case y of
        DNaN \<Rightarrow> Inr DNaN
      | DFin b \<Rightarrow> if b = 0 then Inl InvalidOperation
                  else (let q = rat_trunc (a / b) in
                        if \<bar>q\<bar> < 10 ^ 28 then Inr (DFin (drnd (a - of_int q * b)))
                        else Inl InvalidOperation)
      | DInf t \<Rightarrow> Inr (DFin (drnd a)))
   | DInf s \<Rightarrow> if y = DNaN then Inr DNaN else Inl InvalidOperation)"

lemma rat_trunc_int [simp]: "rat_trunc (of_int z) = z"
  by (simp add: rat_trunc_def)

lemma round_half_up_int [simp]: "round_half_up (of_int z) = z"
proof -
  have "\<lfloor>of_int z + 1/2 :: rat\<rfloor> = z" "\<lfloor>- of_int z + 1/2 :: rat\<rfloor> = - z" for z
    by linarith+
  then show ?thesis by (simp add: round_half_up_def)
qed

lemma round_int_int [simp]: "round_int m (of_int z) = z"
  by (cases m) (simp_all add: round_int_def)

lemma round_half_up_near: "\<bar>of_int (round_half_up x) - x\<bar> \<le> 1/2"
  unfolding round_half_up_def abs_if by (simp split: if_splits) linarith

subsection \<open>Text to decimal\<close>

text \<open>
  The numeric strings \<open>Decimal(s)\<close> accepts: surrounding white space and underscores
  dropped, a sign, digits with an optional point, an exponent, or \<open>inf\<close>,
  \<open>infinity\<close>, \<open>nan\<close> in any case (ASCII digits only).
\<close>

definition is_digit :: "char \<Rightarrow> bool" where
  "is_digit c \<longleftrightarrow> 48 \<le> (of_char c :: nat) \<and> (of_char c :: nat) \<le> 57"

definition is_space :: "char \<Rightarrow> bool" where
  "is_space c \<longleftrightarrow> (of_char c :: nat) = 32 \<or> (9 \<le> (of_char c :: nat) \<and> (of_char c :: nat) \<le> 13)"

definition to_lower :: "char \<Rightarrow> char" where
  "to_lower c = (if 65 \<le> (of_char c :: nat) \<and> (of_char c :: nat) \<le> 90
     then char_of ((of_char c :: nat) + 32) else c)"

definition to_upper :: "char \<Rightarrow> char" where
  "to_upper c = (if 97 \<le> (of_char c :: nat) \<and> (of_char c :: nat) \<le> 122
     then char_of ((of_char c :: nat) - 32) else c)"

text \<open>\<open>p in s\<close> on strings.\<close>

fun occurs_in :: "string \<Rightarrow> string \<Rightarrow> bool" where
  "occurs_in p [] = (p = [])"
| "occurs_in p (c # cs) = (take (length p) (c # cs) = p \<or> occurs_in p cs)"

definition strip :: "string \<Rightarrow> string" where
  "strip s = rev (dropWhile is_space (rev (dropWhile is_space s)))"

definition digits_val :: "string \<Rightarrow> int" where
  "digits_val ds = foldl (\<lambda>a c. 10 * a + (int (of_char c) - 48)) 0 ds"

definition split_sign :: "string \<Rightarrow> bool \<times> string" where
  "split_sign s = (case s of
     [] \<Rightarrow> (False, s)
   | c # cs \<Rightarrow> if c = CHR ''-'' then (True, cs) else if c = CHR ''+'' then (False, cs)
               else (False, s))"

text \<open>Coefficient and exponent of an unsigned literal, if it is one.\<close>

definition exponent_of :: "string \<Rightarrow> int option" where
  "exponent_of s = (case s of
     [] \<Rightarrow> Some 0
   | c # cs \<Rightarrow> if to_lower c = CHR ''e'' then
        (let (n, ds) = split_sign cs in
         if ds \<noteq> [] \<and> list_all is_digit ds
         then Some (if n then - digits_val ds else digits_val ds) else None)
        else None)"

definition unsigned_literal :: "string \<Rightarrow> (int \<times> int) option" where
  "unsigned_literal s =
     (let ip = takeWhile is_digit s; r = dropWhile is_digit s;
          (fp, r') = (case r of c # cs \<Rightarrow> if c = CHR ''.'' then
                         (takeWhile is_digit cs, dropWhile is_digit cs) else ([], r)
                      | [] \<Rightarrow> ([], []))
      in if ip = [] \<and> fp = [] then None
         else (case exponent_of r' of None \<Rightarrow> None
               | Some e \<Rightarrow> Some (digits_val (ip @ fp), e - int (length fp))))"

definition lit_val :: "int \<times> int \<Rightarrow> rat" where
  "lit_val l = of_int (fst l) * 10 powi (snd l)"

definition dec_of_string :: "string \<Rightarrow> dval option" where
  "dec_of_string s0 =
     (let (n, s) = split_sign (filter (\<lambda>c. c \<noteq> CHR ''_'') (strip s0)); l = map to_lower s
      in if l = ''inf'' \<or> l = ''infinity'' then Some (DInf n)
         else if take 3 l = ''nan'' \<and> list_all is_digit (drop 3 l) then Some DNaN
         else (case unsigned_literal s of None \<Rightarrow> None
               | Some ce \<Rightarrow> Some (DFin (if n then - lit_val ce else lit_val ce))))"

text \<open>
  \<open>DecimalLike\<close> arguments: a \<open>Decimal\<close>, an \<open>int\<close>, a \<open>float\<close> (given by the decimal
  that its \<open>repr\<close> denotes), a string, or any other object.
\<close>

datatype declike = DecV dval | IntV int | FloatV dval | StrV string | OtherV

definition D :: "declike \<Rightarrow> dval result" where
  "D v = (case v of
     DecV d \<Rightarrow> Inr d
   | FloatV d \<Rightarrow> Inr d
   | IntV i \<Rightarrow> Inr (DFin (of_int i))
   | StrV s \<Rightarrow> (case dec_of_string s of None \<Rightarrow> Inl InvalidOperation | Some d \<Rightarrow> Inr d)
   | OtherV \<Rightarrow> Inl InvalidOperation)"

lemma D_simps [simp]:
  "D (DecV d) = Inr d" "D (FloatV d) = Inr d" "D (IntV i) = Inr (DFin (of_int i))"
  "D OtherV = Inl InvalidOperation"
  by (simp_all add: D_def)

end
