(* ===== verification/Droid_Money.thy ===== *)
theory Droid_Money
  imports Droid_Decimal
begin

text \<open>
  \<open>backend/app/algo/money.py\<close>: price and quantity quantisation and the \<open>Money\<close> helper.
  \<open>backend/app/signals/safety/decimal_types.py\<close>: the strict constructors, tick
  normalisation and quantity validation that the execution guard uses.
  A tick size is given with its exponent (coefficient, exponent), since \<open>quantize\<close>
  reads it. Message texts with interpolated numbers are constructors carrying them.
\<close>

subsection \<open>algo/money.py\<close>

definition PRICE_QUANT :: "int \<times> int" where
  "PRICE_QUANT = (1, -2)"

definition quantize_price :: "declike \<Rightarrow> (int \<times> int) option \<Rightarrow> dval result" where
  "quantize_price p tick_size =
     (let q = (case tick_size of Some t \<Rightarrow> if 0 < lit_val t then t else PRICE_QUANT
               | None \<Rightarrow> PRICE_QUANT)
      in ebind (D p) (\<lambda>pd. ebind (ddiv pd (DFin (lit_val q))) (\<lambda>r.
           let ticks = to_integral_value ROUND_HALF_UP r
           in ebind (dmul ticks (DFin (lit_val q))) (\<lambda>v. dquantize ROUND_HALF_EVEN v (snd q)))))"

definition quantize_qty :: "declike \<Rightarrow> int option \<Rightarrow> dval result" where
  "quantize_qty qty lot_size =
     ebind (D qty) (\<lambda>q0. let d = to_integral_value ROUND_DOWN q0 in
       (case lot_size of
          Some l \<Rightarrow> if l \<noteq> 0 \<and> 1 < l
            then ebind (dfloordiv d (DFin (of_int l))) (\<lambda>n. dmul n (DFin (of_int l)))
            else Inr d
        | None \<Rightarrow> Inr d))"

datatype money = Money dval

datatype money_arg = MoneyArg money | LikeArg declike

fun mvalue :: "money \<Rightarrow> dval" where
  "mvalue (Money v) = v"

definition mk_money :: "declike \<Rightarrow> money result" where
  "mk_money v = ebind (D v) (\<lambda>d. ebind (dquantize ROUND_HALF_UP d (snd PRICE_QUANT)) (\<lambda>r. Inr (Money r)))"

definition arg_value :: "money_arg \<Rightarrow> dval result" where
  "arg_value a = (case a of MoneyArg m \<Rightarrow> Inr (mvalue m) | LikeArg v \<Rightarrow> D v)"

definition money_add :: "money \<Rightarrow> money_arg \<Rightarrow> money result" where
  "money_add m a = ebind (arg_value a) (\<lambda>b. ebind (dadd (mvalue m) b) (\<lambda>r. mk_money (DecV r)))"

definition money_sub :: "money \<Rightarrow> money_arg \<Rightarrow> money result" where
  "money_sub m a = ebind (arg_value a) (\<lambda>b. ebind (dsub (mvalue m) b) (\<lambda>r. mk_money (DecV r)))"

definition money_mul :: "money \<Rightarrow> declike \<Rightarrow> money result" where
  "money_mul m v = ebind (D v) (\<lambda>b. ebind (dmul (mvalue m) b) (\<lambda>r. mk_money (DecV r)))"

definition money_truediv :: "money \<Rightarrow> declike \<Rightarrow> money result" where
  "money_truediv m v = ebind (D v) (\<lambda>b. ebind (ddiv (mvalue m) b) (\<lambda>r. mk_money (DecV r)))"

definition money_neg :: "money \<Rightarrow> money result" where
  "money_neg m = mk_money (DecV (dneg (mvalue m)))"

definition money_eq :: "money \<Rightarrow> money_arg \<Rightarrow> bool" where
  "money_eq m a = (case a of
     MoneyArg n \<Rightarrow> deq (mvalue m) (mvalue n)
   | LikeArg (DecV d) \<Rightarrow> deq (mvalue m) d
   | _ \<Rightarrow> False)"

definition money_lt :: "money \<Rightarrow> money_arg \<Rightarrow> bool result" where
  "money_lt m a = ebind (arg_value a) (\<lambda>b. dlt (mvalue m) b)"

definition money_le :: "money \<Rightarrow> money_arg \<Rightarrow> bool result" where
  "money_le m a = ebind (arg_value a) (\<lambda>b. dle (mvalue m) b)"

definition money_gt :: "money \<Rightarrow> money_arg \<Rightarrow> bool result" where
  "money_gt m a = ebind (arg_value a) (\<lambda>b. dlt b (mvalue m))"

definition money_ge :: "money \<Rightarrow> money_arg \<Rightarrow> bool result" where
  "money_ge m a = ebind (arg_value a) (\<lambda>b. dle b (mvalue m))"

subsection \<open>signals/safety/decimal_types.py\<close>

text \<open>\<open>^-?\d+(\.\d+)?$\<close>, where \<open>$\<close> also matches before a final newline.\<close>

definition is_decimal_string :: "string \<Rightarrow> bool" where
  "is_decimal_string s =
     (let t = (case s of [] \<Rightarrow> s | c # cs \<Rightarrow> if c = CHR ''-'' then cs else s);
          r = dropWhile is_digit t
      in takeWhile is_digit t \<noteq> [] \<and>
         (r = [] \<or> r = [CHR 0x0A] \<or>
          (case r of [] \<Rightarrow> False | c # cs \<Rightarrow> c = CHR ''.'' \<and> takeWhile is_digit cs \<noteq> [] \<and>
             (dropWhile is_digit cs = [] \<or> dropWhile is_digit cs = [CHR 0x0A]))))"

definition D_strict :: "declike \<Rightarrow> dval result" where
  "D_strict v = (case v of
     FloatV f \<Rightarrow> Inl TypeError
   | DecV d \<Rightarrow> Inr d
   | IntV i \<Rightarrow> Inr (DFin (of_int i))
   | StrV s \<Rightarrow> if is_decimal_string (strip s) then D (StrV (strip s)) else Inl ValueError
   | OtherV \<Rightarrow> Inl TypeError)"

text \<open>\<open>Price\<close>, \<open>Quantity\<close>, \<open>Rate\<close>, \<open>Percentage\<close>, \<open>Notional\<close>: no float, else \<open>D\<close>.\<close>

definition no_float :: "declike \<Rightarrow> dval result" where
  "no_float v = (case v of FloatV f \<Rightarrow> Inl TypeError | _ \<Rightarrow> D v)"

definition mk_tick_size :: "declike \<Rightarrow> dval result" where
  "mk_tick_size v = ebind (no_float v) (\<lambda>d. ebind (dle d (DFin 0)) (\<lambda>b.
     if b then Inl ValueError else Inr d))"

definition price_quantized :: "dval \<Rightarrow> declike \<Rightarrow> dval result" where
  "price_quantized v tick = ebind (D tick) (\<lambda>t. ebind (ddiv v t) (\<lambda>r.
     dmul (to_integral_value ROUND_HALF_UP r) t))"

definition compute_notional :: "declike \<Rightarrow> declike \<Rightarrow> declike \<Rightarrow> dval result" where
  "compute_notional price quantity contract_multiplier =
     ebind (D price) (\<lambda>p. ebind (D quantity) (\<lambda>q. ebind (dmul p q) (\<lambda>n.
     ebind (D contract_multiplier) (\<lambda>m. dmul n m))))"

definition normalize_price_to_tick :: "declike \<Rightarrow> (int \<times> int) \<Rightarrow> rounding_mode \<Rightarrow> dval result" where
  "normalize_price_to_tick price tick rmode =
     ebind (D price) (\<lambda>p. let t = DFin (lit_val tick) in
       ebind (ddiv p t) (\<lambda>r. let ticks = to_integral_value rmode r in
         ebind (dmul ticks t) (\<lambda>v.
           dquantize ROUND_HALF_EVEN v (if snd tick < 0 then snd tick else -2))))"

datatype qty_reason =
    BelowMinimum dval dval
  | NotPositive
  | NotStepMultiple dval dval dval
  | NotLotMultiple dval dval

definition like_ne_zero :: "declike \<Rightarrow> bool" where
  "like_ne_zero v = (case v of
     DecV d \<Rightarrow> \<not> deq d (DFin 0) | FloatV d \<Rightarrow> \<not> deq d (DFin 0) | IntV i \<Rightarrow> i \<noteq> 0
   | StrV s \<Rightarrow> True | OtherV \<Rightarrow> True)"

definition QTY_EPS :: rat where
  "QTY_EPS = 1 / 10 ^ 9"

definition validate_step :: "dval \<Rightarrow> dval \<Rightarrow> dval \<Rightarrow> qty_reason option result" where
  "validate_step q mn step =
     ebind (if \<not> deq step (DFin 0) then ebind (dsub q mn) (\<lambda>d. dmod d step) else Inr (DFin 0)) (\<lambda>remainder.
       if deq remainder (DFin 0) then Inr None
       else ebind (dlt (DFin QTY_EPS) (dabs remainder)) (\<lambda>far0.
         if \<not> far0 then Inr None
         else ebind (dsub remainder step) (\<lambda>rs. ebind (dlt (DFin QTY_EPS) (dabs rs)) (\<lambda>far1.
           Inr (if far1 then Some (NotStepMultiple q step mn) else None)))))"

definition validate_lot :: "dval \<Rightarrow> declike option \<Rightarrow> qty_reason option result" where
  "validate_lot q lot_size = (case lot_size of
     None \<Rightarrow> Inr None
   | Some l \<Rightarrow> if like_ne_zero l
       then ebind (D l) (\<lambda>lots. ebind (dmod q lots) (\<lambda>r.
              Inr (if deq r (DFin 0) then None else Some (NotLotMultiple q lots))))
       else Inr None)"

definition validate_quantity ::
  "declike \<Rightarrow> declike \<Rightarrow> declike \<Rightarrow> declike option \<Rightarrow> (bool \<times> qty_reason option) result" where
  "validate_quantity quantity min_qty quantity_step lot_size =
     ebind (D quantity) (\<lambda>q. ebind (D min_qty) (\<lambda>mn. ebind (D quantity_step) (\<lambda>step.
     ebind (dlt q mn) (\<lambda>b1. if b1 then Inr (False, Some (BelowMinimum q mn)) else
     ebind (dle q (DFin 0)) (\<lambda>b2. if b2 then Inr (False, Some NotPositive) else
     ebind (validate_step q mn step) (\<lambda>r1. if r1 \<noteq> None then Inr (False, r1) else
     ebind (validate_lot q lot_size) (\<lambda>r2. if r2 \<noteq> None then Inr (False, r2) else
     Inr (True, None))))))))"

subsection \<open>Exactness on the tick grid\<close>

lemma lit_val_pos: "0 < fst t \<Longrightarrow> 0 < lit_val t"
  by (simp add: lit_val_def)

lemma grid_product_exact:
  assumes "\<bar>n * fst t\<bar> \<le> 10 ^ 28"
  shows "drnd (of_int n * lit_val t) = of_int n * lit_val t"
  using assms by (intro drnd_exactI [of "n * fst t" _ "snd t"]) (simp_all add: lit_val_def)

lemma grid_quantize:
  assumes "\<bar>n * fst t\<bar> < 10 ^ 28"
  shows "dquantize m (DFin (of_int n * lit_val t)) (snd t) = Inr (DFin (of_int n * lit_val t))"
proof -
  have "of_int n * lit_val t / 10 powi snd t = of_int (n * fst t)"
    by (simp add: lit_val_def)
  then have "round_int m (of_int n * lit_val t / 10 powi snd t) = n * fst t"
    by (simp only: round_int_int)
  then show ?thesis using assms by (simp add: dquantize_def Let_def lit_val_def)
qed

lemma grid_ticks:
  assumes t: "0 < fst t" and n: "\<bar>n * fst t\<bar> \<le> 10 ^ 28"
  shows "drnd (of_int n * lit_val t / lit_val t) = of_int n"
proof -
  have "\<bar>n\<bar> * 1 \<le> \<bar>n\<bar> * fst t" using t by (intro mult_left_mono) auto
  then have "\<bar>n\<bar> \<le> 10 ^ 28" using n t by (simp add: abs_mult)
  then show ?thesis using lit_val_pos [OF t] by simp
qed

lemma drnd_eq_0_iff [simp]: "drnd x = 0 \<longleftrightarrow> x = 0"
  using drnd_near [of x] by (auto simp: divide_simps)

text \<open>
  One step of tick rounding on a finite price, shared by \<open>quantize_price\<close> and
  \<open>normalize_price_to_tick\<close>: the number of ticks is the rounded quotient.
\<close>

definition ticks_of :: "rounding_mode \<Rightarrow> int \<times> int \<Rightarrow> rat \<Rightarrow> int" where
  "ticks_of m t x = round_int m (drnd (x / lit_val t))"

lemma ticks_of_grid:
  "0 < fst t \<Longrightarrow> \<bar>n * fst t\<bar> \<le> 10 ^ 28 \<Longrightarrow> ticks_of m t (of_int n * lit_val t) = n"
  unfolding ticks_of_def grid_ticks by (rule round_int_int)

lemma quantize_price_fin:
  assumes "0 < fst t" and "D p = Inr (DFin x)"
    and "\<bar>ticks_of ROUND_HALF_UP t x * fst t\<bar> < 10 ^ 28"
  shows "quantize_price p (Some t) = Inr (DFin (of_int (ticks_of ROUND_HALF_UP t x) * lit_val t))"
  using assms lit_val_pos [OF assms(1)]
  by (simp add: quantize_price_def to_integral_value_def ticks_of_def [symmetric]
      grid_product_exact grid_quantize)

lemma normalize_fin:
  assumes "0 < fst t" and "D p = Inr (DFin x)" and "snd t < 0"
    and "\<bar>ticks_of m t x * fst t\<bar> < 10 ^ 28"
  shows "normalize_price_to_tick p t m = Inr (DFin (of_int (ticks_of m t x) * lit_val t))"
  using assms lit_val_pos [OF assms(1)]
  by (simp add: normalize_price_to_tick_def to_integral_value_def ticks_of_def [symmetric]
      grid_product_exact grid_quantize)

lemma ticks_near:
  assumes t: "0 < fst t"
  shows "\<bar>of_int (ticks_of ROUND_HALF_UP t x) * lit_val t - x\<bar> \<le> lit_val t / 2 + \<bar>x\<bar> / (2 * 10 ^ 27)"
proof -
  define q where "q = lit_val t"
  have q: "0 < q" using lit_val_pos [OF t] by (simp add: q_def)
  define r where "r = drnd (x / q)"
  have "of_int (ticks_of ROUND_HALF_UP t x) * q - x = (of_int (round_half_up r) - r) * q + (r - x / q) * q"
    using q by (simp add: ticks_of_def round_int_def r_def q_def [symmetric] algebra_simps)
  also have "\<bar>\<dots>\<bar> \<le> \<bar>of_int (round_half_up r) - r\<bar> * q + \<bar>r - x / q\<bar> * q"
    using q by (metis abs_mult abs_of_pos abs_triangle_ineq)
  also have "\<dots> \<le> 1/2 * q + \<bar>x / q\<bar> / (2 * 10 ^ 27) * q"
    using q round_half_up_near [of r] drnd_near [of "x / q"]
    by (intro add_mono mult_right_mono) (simp_all add: r_def)
  finally show ?thesis using q by (simp add: q_def [symmetric] abs_divide)
qed

text \<open>
  Price quantisation: on a positive tick, the result is a whole number of ticks, within
  half a tick of the price (up to the 28-digit rounding of the quotient), and a price
  already on the grid is returned unchanged.
\<close>

theorem quantize_price_on_grid:
  assumes "0 < fst t" and "D p = Inr (DFin x)"
    and "\<bar>ticks_of ROUND_HALF_UP t x * fst t\<bar> < 10 ^ 28"
  shows "\<exists>n. quantize_price p (Some t) = Inr (DFin (of_int n * lit_val t))
           \<and> \<bar>of_int n * lit_val t - x\<bar> \<le> lit_val t / 2 + \<bar>x\<bar> / (2 * 10 ^ 27)
           \<and> (\<forall>k. x = of_int k * lit_val t \<and> \<bar>k * fst t\<bar> < 10 ^ 28
                \<longrightarrow> quantize_price p (Some t) = Inr (DFin x))"
  using quantize_price_fin [OF assms] ticks_near [OF assms(1), of x]
  by (auto simp: ticks_of_grid [OF assms(1)])

theorem quantize_price_on_grid_witness:
  "\<exists>n. quantize_price (DecV (DFin (24735 + 7/100))) (Some (5, -2)) = Inr (DFin (of_int n * lit_val (5, -2)))"
proof -
  have "\<bar>ticks_of ROUND_HALF_UP (5, -2) (24735 + 7/100) * fst (5::int, -2::int)\<bar> < 10 ^ 28"
    by code_simp
  with quantize_price_on_grid [of "(5, -2)" "DecV (DFin (24735 + 7/100))" "24735 + 7/100"]
  show ?thesis by auto
qed

text \<open>
  Quantity quantisation never rounds up: a finite non-negative quantity becomes the
  largest whole number of lots not above it.
\<close>

theorem quantize_qty_floor:
  assumes "D q = Inr (DFin x)" and "0 \<le> x" and "x < 10 ^ 28" and "1 < l"
  shows "\<exists>k. quantize_qty q (Some l) = Inr (DFin (of_int (k * l))) \<and> 0 \<le> k
           \<and> of_int (k * l) \<le> x \<and> x < of_int ((k + 1) * l)"
proof -
  define f where "f = \<lfloor>x\<rfloor>"
  have f: "0 \<le> f" "f < 10 ^ 28" "of_int f \<le> x"
    using assms(2,3) unfolding f_def by (simp_all add: floor_less_iff)
  have f4: "x < of_int f + 1" unfolding f_def by linarith
  define k where "k = f div l"
  have "0 \<le> f mod l" "f mod l < l" "k * l + f mod l = f"
    using assms(4) by (simp_all add: k_def)
  then have k: "0 \<le> k" "k * l \<le> f" "f < (k + 1) * l"
    using f(1) assms(4) unfolding distrib_right
    by (simp add: k_def pos_imp_zdiv_nonneg_iff, linarith, linarith)
  have "k \<le> f" unfolding k_def using f(1) assms(4)
    by (metis div_by_1 zdiv_mono2 less_imp_le zero_less_one)
  then have kb: "\<bar>k\<bar> < 10 ^ 28" "\<bar>k * l\<bar> \<le> 10 ^ 28" using k f assms(4) by auto
  have tr: "rat_trunc (of_int f / of_int l) = k"
    using f(1) assms(4) by (simp add: rat_trunc_def k_def floor_divide_of_int_eq)
  have "quantize_qty q (Some l) = Inr (DFin (of_int (k * l)))"
    using assms f kb drnd_int [OF kb(2)]
    by (simp add: quantize_qty_def to_integral_value_def round_int_def rat_trunc_def [of x]
        f_def [symmetric] dfloordiv_def tr)
  moreover have "x < of_int ((k + 1) * l)"
    using f4 k(3) by (metis of_int_1 of_int_add less_le_trans of_int_le_iff zless_imp_add1_zle)
  ultimately show ?thesis using k f(3) by (metis of_int_le_iff order_trans)
qed

theorem quantize_qty_floor_witness:
  "\<exists>k. quantize_qty (IntV 187) (Some 75) = Inr (DFin (of_int (k * 75))) \<and> k = 2"
  using quantize_qty_floor [of "IntV 187" 187 75] by auto

subsection \<open>Money is exact on the paisa grid\<close>

definition paisa :: "int \<Rightarrow> money" where
  "paisa n = Money (DFin (of_int n * lit_val PRICE_QUANT))"

lemma mk_money_grid:
  "\<bar>n\<bar> < 10 ^ 28 \<Longrightarrow> mk_money (DecV (DFin (of_int n * lit_val PRICE_QUANT))) = Inr (paisa n)"
  using grid_quantize [of n PRICE_QUANT ROUND_HALF_UP]
  by (simp add: mk_money_def paisa_def PRICE_QUANT_def)

lemma paisa_exact [simp]:
  "\<bar>n\<bar> < 10 ^ 28 \<Longrightarrow> drnd (of_int n * lit_val PRICE_QUANT) = of_int n * lit_val PRICE_QUANT"
  by (rule grid_product_exact) (simp add: PRICE_QUANT_def)

lemma mvalue_paisa [simp]: "mvalue (paisa n) = DFin (of_int n * lit_val PRICE_QUANT)"
  by (simp add: paisa_def)

lemma money_add_paisa:
  assumes "\<bar>a + b\<bar> < 10 ^ 28"
  shows "money_add (paisa a) (MoneyArg (paisa b)) = Inr (paisa (a + b))"
  using assms mk_money_grid [OF assms] paisa_exact [OF assms]
  by (simp add: money_add_def arg_value_def distrib_right)

lemma money_sub_paisa:
  assumes "\<bar>a - b\<bar> < 10 ^ 28"
  shows "money_sub (paisa a) (MoneyArg (paisa b)) = Inr (paisa (a - b))"
  using assms mk_money_grid [OF assms] paisa_exact [OF assms]
  by (simp add: money_sub_def arg_value_def left_diff_distrib)

lemma money_mul_paisa:
  assumes "\<bar>a * k\<bar> < 10 ^ 28"
  shows "money_mul (paisa a) (IntV k) = Inr (paisa (a * k))"
  using assms mk_money_grid [OF assms] paisa_exact [OF assms]
  by (simp add: money_mul_def ac_simps)

lemma money_neg_paisa:
  assumes "\<bar>a\<bar> < 10 ^ 28"
  shows "money_neg (paisa a) = Inr (paisa (- a))"
  using assms mk_money_grid [of "- a"] paisa_exact [of "- a"]
  by (simp add: money_neg_def dneg_def)

text \<open>
  Money arithmetic on paisa amounts is exact integer arithmetic: construction puts every
  finite amount on the grid, and sums, differences, integer multiples and negation of grid
  amounts are the exact ones, so adding and subtracting the same amount cancels.
\<close>

theorem money_exact:
  assumes "\<bar>a\<bar> + \<bar>b\<bar> < 10 ^ 28" and "\<bar>a * k\<bar> < 10 ^ 28"
  shows "money_add (paisa a) (MoneyArg (paisa b)) = Inr (paisa (a + b)) \<and>
    money_sub (paisa a) (MoneyArg (paisa b)) = Inr (paisa (a - b)) \<and>
    money_mul (paisa a) (IntV k) = Inr (paisa (a * k)) \<and>
    money_neg (paisa a) = Inr (paisa (- a)) \<and>
    ebind (money_add (paisa a) (MoneyArg (paisa b))) (\<lambda>s. money_sub s (MoneyArg (paisa b)))
      = Inr (paisa a)"
  using assms
  by (simp_all add: money_add_paisa money_sub_paisa money_mul_paisa money_neg_paisa)

theorem money_exact_witness:
  "money_add (paisa 11850) (MoneyArg (paisa 15)) = Inr (paisa 11865)"
  using money_exact [of 11850 15 75] by simp

subsection \<open>Quantity validation\<close>

lemma dmod_zero_iff:
  assumes "b \<noteq> 0" and "dmod (DFin a) (DFin b) = Inr r"
  shows "deq r (DFin 0) \<longleftrightarrow> a = of_int (rat_trunc (a / b)) * b"
  using assms by (auto simp: dmod_def Let_def split: if_splits)

lemma validate_lot_None:
  assumes "validate_lot (DFin q) (Some l) = Inr None" and "D l = Inr (DFin lv)" and "like_ne_zero l"
  shows "\<exists>k. q = of_int k * lv"
proof (cases "lv = 0")
  case True
  then show ?thesis using assms by (simp add: validate_lot_def dmod_def)
next
  case False
  then show ?thesis using assms dmod_zero_iff [OF False, of q]
    by (auto simp: validate_lot_def exn_simps split: if_splits)
qed

text \<open>
  An accepted quantity is positive, at least the minimum, and an exact multiple of the
  lot size when one is given; the step check alone has a tolerance of \<open>10^-9\<close>.
\<close>

theorem validate_quantity_sound:
  assumes "validate_quantity qty mn step (Some l) = Inr (True, None)"
    and "D qty = Inr (DFin q)" and "D mn = Inr (DFin m)" and "D l = Inr (DFin lv)"
    and "like_ne_zero l"
  shows "0 < q \<and> m \<le> q \<and> (\<exists>k. q = of_int k * lv)"
proof -
  have "validate_lot (DFin q) (Some l) = Inr None" "\<not> q < m" "\<not> q \<le> 0"
    using assms(1-3) by (auto simp: validate_quantity_def exn_simps split: if_splits)
  then show ?thesis using validate_lot_None assms(4,5) by auto
qed

theorem validate_quantity_sound_witness:
  "\<exists>k. (150::rat) = of_int k * 75"
proof -
  have "validate_quantity (IntV 150) (StrV ''1'') (StrV ''1'') (Some (IntV 75)) = Inr (True, None)"
    by code_simp
  moreover have "D (StrV ''1'') = Inr (DFin 1)" by code_simp
  ultimately show ?thesis
    using validate_quantity_sound [of "IntV 150" "StrV ''1''" "StrV ''1''" "IntV 75" 150 1 75]
    by (simp add: like_ne_zero_def)
qed

end
