(* ===== verification/Droid_Sizing.thy ===== *)
theory Droid_Sizing
  imports Droid_Money
begin

text \<open>
  \<open>backend/app/algo/position_sizing.py\<close>: \<open>size_position\<close> turns a risk budget into a
  lot-aligned quantity and lowers it by every cap in turn. The fields hold Decimals as the
  dataclass declares, so \<open>D\<close> is the identity on them; nothing is caught, so a zero
  multiplier or a NaN raises to the caller (\<open>Inl\<close>).
\<close>

record sizing_inputs =
  algo_capital_available :: dval
  risk_budget :: dval
  entry_price :: dval
  stop_price :: "dval option"
  lot_size :: int
  contract_multiplier :: dval
  max_capital_per_trade :: "dval option"
  max_position_size :: "int option"
  max_notional :: "dval option"
  margin_per_unit :: "dval option"
  available_margin :: "dval option"
  portfolio_capacity :: "dval option"

record sizing_result =
  s_quantity :: int
  s_notional :: dval
  s_risk_per_unit :: "dval option"
  s_reason :: string
  s_capped_by :: "string option"

text \<open>\<open>int(x.to_integral_value(rounding="ROUND_FLOOR"))\<close>\<close>

definition floor_qty :: "dval \<Rightarrow> int result" where
  "floor_qty x = dec_int (to_integral_value ROUND_FLOOR x)"

definition lot_align :: "int \<Rightarrow> int \<Rightarrow> int" where
  "lot_align lot q = (if 1 < lot then q div lot * lot else q)"

type_synonym sizing_state = "int \<times> string option"

definition apply_cap :: "string \<Rightarrow> int \<Rightarrow> sizing_state \<Rightarrow> sizing_state" where
  "apply_cap lbl m st = (if m < fst st then (m, Some lbl) else st)"

text \<open>Units a currency amount buys: \<open>floor(budget / (entry * contract_multiplier))\<close>.\<close>

definition units_for :: "sizing_inputs \<Rightarrow> dval \<Rightarrow> int result" where
  "units_for inp budget =
     ebind (dmul (entry_price inp) (contract_multiplier inp)) (\<lambda>u. ebind (ddiv budget u) floor_qty)"

definition cap_money :: "sizing_inputs \<Rightarrow> string \<Rightarrow> dval option \<Rightarrow> sizing_state \<Rightarrow> sizing_state result" where
  "cap_money inp lbl budget st = (case budget of
     None \<Rightarrow> Inr st
   | Some b \<Rightarrow> ebind (dlt (DFin 0) (entry_price inp)) (\<lambda>pos.
       if pos then ebind (units_for inp b) (\<lambda>m. Inr (apply_cap lbl (lot_align (lot_size inp) m) st))
       else Inr st))"

definition cap_margin :: "sizing_inputs \<Rightarrow> sizing_state \<Rightarrow> sizing_state result" where
  "cap_margin inp st = (case (margin_per_unit inp, available_margin inp) of
     (Some mpu, Some av) \<Rightarrow> ebind (dlt (DFin 0) mpu) (\<lambda>pos.
       if pos then ebind (ddiv av mpu) (\<lambda>r. ebind (floor_qty r) (\<lambda>m.
                     Inr (apply_cap ''AVAILABLE_MARGIN'' (lot_align (lot_size inp) m) st)))
       else Inr st)
   | _ \<Rightarrow> Inr st)"

definition cap_position :: "sizing_inputs \<Rightarrow> sizing_state \<Rightarrow> sizing_state" where
  "cap_position inp st = (case max_position_size inp of
     None \<Rightarrow> st
   | Some m \<Rightarrow> if m < fst st then (lot_align (lot_size inp) m, Some ''MAX_POSITION_SIZE'') else st)"

datatype risk_units = ZeroRisk dval | RiskUnits "dval option" int

text \<open>The risk-based quantity before alignment, or the zero-risk early return.\<close>

definition risk_quantity :: "sizing_inputs \<Rightarrow> risk_units result" where
  "risk_quantity inp =
     (let entry = entry_price inp; fallback =
        ebind (dlt (DFin 0) entry) (\<lambda>pos.
          if pos then ebind (units_for inp (risk_budget inp)) (\<lambda>q. Inr (RiskUnits None q))
          else Inr (RiskUnits None 0))
      in (case stop_price inp of
            None \<Rightarrow> fallback
          | Some stop \<Rightarrow> ebind (dlt (DFin 0) stop) (\<lambda>pos.
              if pos \<and> \<not> deq entry stop then
                ebind (dsub entry stop) (\<lambda>d. ebind (dmul (dabs d) (contract_multiplier inp)) (\<lambda>rpu.
                ebind (dle rpu (DFin 0)) (\<lambda>z.
                  if z then Inr (ZeroRisk rpu)
                  else ebind (ddiv (risk_budget inp) rpu) (\<lambda>r. ebind (floor_qty r) (\<lambda>q.
                         Inr (RiskUnits (Some rpu) q))))))
              else fallback)))"

definition final_quantity :: "sizing_inputs \<Rightarrow> sizing_state \<Rightarrow> sizing_state" where
  "final_quantity inp st =
     (let q = (if fst st < 0 then 0 else fst st)
      in if 0 < q \<and> q < lot_size inp then (0, Some ''LOT_SIZE_MINIMUM'') else (q, snd st))"

definition apply_all_caps :: "sizing_inputs \<Rightarrow> int \<Rightarrow> sizing_state result" where
  "apply_all_caps inp q0 =
     ebind (cap_money inp ''MAX_CAPITAL_PER_TRADE'' (max_capital_per_trade inp)
             (lot_align (lot_size inp) q0, None)) (\<lambda>s1.
     ebind (cap_money inp ''AVAILABLE_CAPITAL'' (Some (algo_capital_available inp)) s1) (\<lambda>s2.
     ebind (cap_margin inp s2) (\<lambda>s3.
     ebind (cap_money inp ''MAX_NOTIONAL'' (max_notional inp) (cap_position inp s3)) (\<lambda>s5.
     ebind (cap_money inp ''PORTFOLIO_CAPACITY'' (portfolio_capacity inp) s5) (\<lambda>s6.
     Inr (final_quantity inp s6))))))"

definition size_position :: "sizing_inputs \<Rightarrow> sizing_result result" where
  "size_position inp =
     ebind (dle (risk_budget inp) (DFin 0)) (\<lambda>zero.
     if zero then Inr \<lparr>s_quantity = 0, s_notional = DFin 0, s_risk_per_unit = None,
                       s_reason = ''ZERO_RISK_BUDGET'', s_capped_by = Some ''RISK_BUDGET''\<rparr>
     else ebind (risk_quantity inp) (\<lambda>rq. case rq of
       ZeroRisk rpu \<Rightarrow> Inr \<lparr>s_quantity = 0, s_notional = DFin 0, s_risk_per_unit = Some rpu,
                       s_reason = ''ZERO_RISK_PER_UNIT'', s_capped_by = Some ''RISK_PER_UNIT''\<rparr>
     | RiskUnits rpu q0 \<Rightarrow>
         ebind (apply_all_caps inp q0) (\<lambda>st.
         ebind (dmul (DFin (of_int (fst st))) (entry_price inp)) (\<lambda>n.
         ebind (dmul n (contract_multiplier inp)) (\<lambda>notional.
         Inr \<lparr>s_quantity = fst st, s_notional = notional, s_risk_per_unit = rpu,
               s_reason = (case snd st of Some c \<Rightarrow> ''CAPPED_BY_'' @ c
                           | None \<Rightarrow> if 0 < fst st then ''SIZED_OK'' else ''SIZED_ZERO''),
               s_capped_by = snd st\<rparr>)))))"

subsection \<open>One cap at a time\<close>

definition lot_ok :: "sizing_inputs \<Rightarrow> int \<Rightarrow> bool" where
  "lot_ok inp q \<longleftrightarrow> (1 < lot_size inp \<longrightarrow> lot_size inp dvd q)"

definition lowers :: "sizing_inputs \<Rightarrow> sizing_state \<Rightarrow> sizing_state \<Rightarrow> bool" where
  "lowers inp s t \<longleftrightarrow> fst t \<le> fst s \<and> (lot_ok inp (fst s) \<longrightarrow> lot_ok inp (fst t))"

lemma lowers_refl [simp]: "lowers inp s s"
  and lowers_trans: "lowers inp s t \<Longrightarrow> lowers inp t u \<Longrightarrow> lowers inp s u"
  by (auto simp: lowers_def)

lemma lot_align_ok [simp]: "lot_ok inp (lot_align (lot_size inp) q)"
  by (simp add: lot_ok_def lot_align_def)

lemma lot_align_le: "lot_align lot q \<le> q"
proof (cases "1 < lot")
  case True
  then have "0 \<le> q mod lot" "q div lot * lot + q mod lot = q" by simp_all
  then have "q div lot * lot \<le> q" by linarith
  then show ?thesis using True by (simp only: lot_align_def if_True)
qed (simp add: lot_align_def)

lemma apply_cap_lowers [simp]: "lowers inp s (apply_cap lbl (lot_align (lot_size inp) m) s)"
  by (auto simp: lowers_def apply_cap_def)

lemma apply_cap_le: "fst (apply_cap lbl m s) \<le> m"
  by (simp add: apply_cap_def)

lemma cap_money_lowers: "cap_money inp lbl b s = Inr t \<Longrightarrow> lowers inp s t"
  by (auto simp: cap_money_def exn_simps split: option.splits if_splits)

lemma cap_margin_lowers: "cap_margin inp s = Inr t \<Longrightarrow> lowers inp s t"
  by (auto simp: cap_margin_def exn_simps split: option.splits if_splits)

lemma cap_position_lowers: "lowers inp s (cap_position inp s)"
  using lot_align_le [of "lot_size inp"]
  by (auto simp: cap_position_def lowers_def intro: order_trans less_imp_le split: option.splits)

text \<open>A cap bounds the quantity by the units its budget buys.\<close>

lemma cap_money_bound:
  assumes "cap_money inp lbl (Some b) s = Inr t" and "dlt (DFin 0) (entry_price inp) = Inr True"
  shows "\<exists>m. units_for inp b = Inr m \<and> fst t \<le> m"
  using assms by (auto simp: cap_money_def exn_simps intro: order_trans [OF apply_cap_le lot_align_le])

lemma final_quantity_le: "fst (final_quantity inp s) \<le> max 0 (fst s)"
  by (auto simp: final_quantity_def Let_def)

lemma floor_qty_fin [simp]: "floor_qty (DFin x) = Inr \<lfloor>x\<rfloor>"
  by (simp add: floor_qty_def to_integral_value_def dec_int_def round_int_def)

text \<open>Rounding can buy at most one part in \<open>2 * 10^27\<close> more than the budget.\<close>

definition slack :: rat where
  "slack = 1 + 1 / (2 * 10 ^ 27)"

lemma floor_div_slack:
  assumes "0 < u" and "0 \<le> b" and "q \<le> max 0 \<lfloor>drnd (b / u)\<rfloor>"
  shows "of_int q * u \<le> b * slack"
proof -
  have bu: "0 \<le> b / u" using assms by simp
  have sl: "drnd r \<le> r * slack" if "0 \<le> r" for r
    using drnd_near [of r] that unfolding slack_def distrib_left abs_le_iff by simp
  have "drnd (b / u) \<le> b / u * slack" using sl [OF bu] .
  moreover have "0 \<le> drnd (b / u)" using bu by (rule dec.rnd_nonneg)
  then have "of_int q \<le> drnd (b / u)" using assms(3) by (auto simp: max_def le_floor_iff split: if_splits)
  ultimately have "of_int q * u \<le> b / u * slack * u" using assms(1) by (intro mult_right_mono) auto
  then show ?thesis using assms(1) by simp
qed

text \<open>All caps together.\<close>

lemma apply_all_caps_props:
  assumes "apply_all_caps inp q0 = Inr st"
  shows "fst st \<le> max 0 (lot_align (lot_size inp) q0)" and "0 \<le> fst st" and "lot_ok inp (fst st)"
    and "b \<in> set_option (max_capital_per_trade inp) \<union> {algo_capital_available inp}
          \<union> set_option (max_notional inp) \<union> set_option (portfolio_capacity inp) \<Longrightarrow>
         dlt (DFin 0) (entry_price inp) = Inr True \<Longrightarrow>
         \<exists>m. units_for inp b = Inr m \<and> fst st \<le> max 0 m"
proof -
  obtain s1 s2 s3 s5 s6 where
    c1: "cap_money inp ''MAX_CAPITAL_PER_TRADE'' (max_capital_per_trade inp)
           (lot_align (lot_size inp) q0, None) = Inr s1" and
    c2: "cap_money inp ''AVAILABLE_CAPITAL'' (Some (algo_capital_available inp)) s1 = Inr s2" and
    c3: "cap_margin inp s2 = Inr s3" and
    c5: "cap_money inp ''MAX_NOTIONAL'' (max_notional inp) (cap_position inp s3) = Inr s5" and
    c6: "cap_money inp ''PORTFOLIO_CAPACITY'' (portfolio_capacity inp) s5 = Inr s6" and
    st: "st = final_quantity inp s6"
    using assms by (auto simp: apply_all_caps_def exn_simps)
  note l1 = cap_money_lowers [OF c1] and l2 = cap_money_lowers [OF c2]
    and l3 = cap_margin_lowers [OF c3] and l4 = cap_position_lowers [of inp s3]
    and l5 = cap_money_lowers [OF c5] and l6 = cap_money_lowers [OF c6]
  note below = l1 l2 l3 l4 l5 l6
  have le: "fst s6 \<le> fst s5" "fst s6 \<le> fst s3" "fst s6 \<le> fst s2" "fst s6 \<le> fst s1"
    "fst s6 \<le> lot_align (lot_size inp) q0"
    using below by (auto simp: lowers_def)
  show "fst st \<le> max 0 (lot_align (lot_size inp) q0)"
    using le(5) final_quantity_le [of inp s6] by (simp add: st)
  show "0 \<le> fst st" by (simp add: st final_quantity_def Let_def)
  have "lot_ok inp (fst s6)" using below by (auto simp: lowers_def)
  then show "lot_ok inp (fst st)" by (auto simp: st final_quantity_def Let_def lot_ok_def)
  show "\<exists>m. units_for inp b = Inr m \<and> fst st \<le> max 0 m"
    if "b \<in> set_option (max_capital_per_trade inp) \<union> {algo_capital_available inp}
          \<union> set_option (max_notional inp) \<union> set_option (portfolio_capacity inp)"
      and pos: "dlt (DFin 0) (entry_price inp) = Inr True"
  proof -
    have "\<exists>m. units_for inp b = Inr m \<and> fst s6 \<le> m"
      using that(1) cap_money_bound [OF _ pos] c1 c2 c5 c6 le by (fastforce simp: elem_set)
    then show ?thesis using final_quantity_le [of inp s6] unfolding st by fastforce
  qed
qed

subsection \<open>What a sized position guarantees\<close>

lemma size_position_cases:
  assumes "size_position inp = Inr r"
  obtains "s_quantity r = 0"
  | rpu q0 st where "risk_quantity inp = Inr (RiskUnits rpu q0)" "apply_all_caps inp q0 = Inr st"
      "s_quantity r = fst st" "s_risk_per_unit r = rpu"
proof (cases "dle (risk_budget inp) (DFin 0) = Inr True")
  case True
  then show ?thesis using assms that(1) by (auto simp: size_position_def)
next
  case False
  then have "dle (risk_budget inp) (DFin 0) = Inr False"
    using assms by (auto simp: size_position_def exn_simps)
  moreover obtain rq where rq: "risk_quantity inp = Inr rq"
    using assms calculation by (auto simp: size_position_def exn_simps)
  ultimately show ?thesis
  proof (cases rq)
    case (ZeroRisk rpu)
    with \<open>dle _ _ = _\<close> rq show ?thesis using assms that(1) by (auto simp: size_position_def)
  next
    case (RiskUnits rpu q0)
    with \<open>dle _ _ = _\<close> rq obtain st where "apply_all_caps inp q0 = Inr st" "s_quantity r = fst st"
      "s_risk_per_unit r = rpu"
      using assms by (auto simp: size_position_def ebind_Inr_iff)
    then show ?thesis using that(2) rq RiskUnits by blast
  qed
qed

lemma units_for_fin:
  assumes "entry_price inp = DFin e" and "contract_multiplier inp = DFin m" and "drnd (e * m) \<noteq> 0"
  shows "units_for inp (DFin b) = Inr \<lfloor>drnd (b / drnd (e * m))\<rfloor>"
  using assms by (simp add: units_for_def)

text \<open>
  A sized quantity is never negative and is a whole number of lots, whatever the inputs
  (every branch, zero results included).
\<close>

theorem size_position_lots:
  assumes "size_position inp = Inr r"
  shows "0 \<le> s_quantity r \<and> (1 < lot_size inp \<longrightarrow> lot_size inp dvd s_quantity r)"
  using assms
proof (cases rule: size_position_cases)
  case 2
  then show ?thesis using apply_all_caps_props(2,3) [OF 2(2)] by (auto simp: lot_ok_def)
qed simp

text \<open>
  C30. Capital cap: with a positive entry price and multiplier, the exposure
  \<open>quantity * (entry * multiplier)\<close> never exceeds any configured currency cap by more than
  one part in \<open>2 * 10^27\<close> (the rounding of one division).
\<close>

theorem size_position_capital:
  assumes "size_position inp = Inr r" and "entry_price inp = DFin e" and "0 < e"
    and "contract_multiplier inp = DFin m" and "0 < m"
    and "DFin b \<in> set_option (max_capital_per_trade inp) \<union> {algo_capital_available inp}
           \<union> set_option (max_notional inp) \<union> set_option (portfolio_capacity inp)" and "0 \<le> b"
  shows "of_int (s_quantity r) * drnd (e * m) \<le> b * slack"
proof -
  have u: "0 < drnd (e * m)"
    using dec.rnd_nonneg [of "e * m"] assms(3,5) by (simp add: order_less_le)
  from assms(1) show ?thesis
  proof (cases rule: size_position_cases)
    case 1
    then show ?thesis using assms(7) by (simp add: slack_def)
  next
    case (2 rpu q0 st)
    obtain k where "units_for inp (DFin b) = Inr k" "fst st \<le> max 0 k"
      using apply_all_caps_props(4) [OF 2(2) assms(6)] assms(2,3) by auto
    then show ?thesis
      using floor_div_slack [OF u assms(7)] units_for_fin [OF assms(2,4) less_imp_neq [OF u, symmetric]] 2(3)
      by simp
  qed
qed

lemma risk_quantity_stop:
  assumes "risk_quantity inp = Inr (RiskUnits rpu q)" and "risk_budget inp = DFin b"
    and "entry_price inp = DFin e" and "stop_price inp = Some (DFin s)" and "0 < s" and "e \<noteq> s"
    and "contract_multiplier inp = DFin m"
  shows "\<exists>u. rpu = Some (DFin u) \<and> 0 < u \<and> u = drnd (drnd \<bar>drnd (e - s)\<bar> * m) \<and> q = \<lfloor>drnd (b / u)\<rfloor>"
proof -
  define u where "u = drnd (drnd \<bar>drnd (e - s)\<bar> * m)"
  have run: "ebind (dle (DFin u) (DFin 0)) (\<lambda>z. if z then Inr (ZeroRisk (DFin u))
      else ebind (ddiv (DFin b) (DFin u)) (\<lambda>r. ebind (floor_qty r) (\<lambda>q. Inr (RiskUnits (Some (DFin u)) q))))
      = Inr (RiskUnits rpu q)"
    using assms by (simp add: risk_quantity_def u_def split: if_splits)
  then have "0 < u" by (cases "u \<le> 0") auto
  then have "ddiv (DFin b) (DFin u) = Inr (DFin (drnd (b / u)))" by (intro dec_fin_simps) simp
  then show ?thesis using run \<open>0 < u\<close> by (auto simp: u_def)
qed

text \<open>
  Risk budget: with a positive stop away from the entry, the loss at the stop,
  \<open>quantity * risk_per_unit\<close>, stays within the risk budget (up to the same rounding), and
  \<open>risk_per_unit\<close> is the rounded distance times the multiplier.
\<close>

theorem size_position_risk:
  assumes "size_position inp = Inr r" and "risk_budget inp = DFin b"
    and "entry_price inp = DFin e" and "stop_price inp = Some (DFin s)" and "0 < s" and "e \<noteq> s"
    and "contract_multiplier inp = DFin m" and "0 < s_quantity r"
  shows "\<exists>u. s_risk_per_unit r = Some (DFin u) \<and> 0 < u \<and> u = drnd (drnd \<bar>drnd (e - s)\<bar> * m)
           \<and> of_int (s_quantity r) * u \<le> b * slack"
  using assms(1)
proof (cases rule: size_position_cases)
  case 1
  then show ?thesis using assms(8) by simp
next
  case (2 rpu q0 st)
  obtain u where u: "rpu = Some (DFin u)" "0 < u" "u = drnd (drnd \<bar>drnd (e - s)\<bar> * m)"
      "q0 = \<lfloor>drnd (b / u)\<rfloor>"
    using risk_quantity_stop [OF 2(1) assms(2-7)] by auto
  have b: "0 \<le> b"
  proof -
    have "\<not> b \<le> 0" using assms(1,2,8) by (auto simp: size_position_def)
    then show ?thesis by simp
  qed
  have "fst st \<le> max 0 \<lfloor>drnd (b / u)\<rfloor>"
    using apply_all_caps_props(1) [OF 2(2)] lot_align_le [of "lot_size inp" q0] u(4) by simp
  then show ?thesis using floor_div_slack [OF u(2) b] u 2(3,4) by simp
qed

definition sizing_example :: sizing_inputs where
  "sizing_example = \<lparr>algo_capital_available = DFin 59000, risk_budget = DFin 5000,
     entry_price = DFin 118, stop_price = Some (DFin 98), lot_size = 75,
     contract_multiplier = DFin 1, max_capital_per_trade = Some (DFin 23600),
     max_position_size = Some 500, max_notional = None, margin_per_unit = None,
     available_margin = None, portfolio_capacity = None\<rparr>"

definition sizing_example_result :: sizing_result where
  "sizing_example_result = \<lparr>s_quantity = 150, s_notional = DFin 17700,
     s_risk_per_unit = Some (DFin 20), s_reason = ''CAPPED_BY_MAX_CAPITAL_PER_TRADE'',
     s_capped_by = Some ''MAX_CAPITAL_PER_TRADE''\<rparr>"

lemma sizing_example_run: "size_position sizing_example = Inr sizing_example_result"
  by (simp add: sizing_example_def sizing_example_result_def size_position_def risk_quantity_def
      apply_all_caps_def cap_money_def cap_margin_def cap_position_def units_for_def apply_cap_def
      lot_align_def final_quantity_def)

theorem size_position_lots_witness: "(75::int) dvd 150"
  using size_position_lots [OF sizing_example_run]
  by (simp add: sizing_example_def sizing_example_result_def)

theorem size_position_capital_witness: "of_int 150 * drnd (118 * 1) \<le> 23600 * slack"
  using size_position_capital [OF sizing_example_run, of 118 1 23600]
  by (simp add: sizing_example_def sizing_example_result_def)

theorem size_position_risk_witness: "(150::rat) * 20 \<le> 5000 * slack"
  using size_position_risk [OF sizing_example_run, of 5000 118 98 1]
  by (auto simp: sizing_example_def sizing_example_result_def)

end
