(* ===== verification/Droid_Risk.thy ===== *)
theory Droid_Risk
  imports Droid_Money
begin

text \<open>
  \<open>backend/app/algo/risk.py\<close>: the trade-level and portfolio-level risk engines.

  Each \<open>if not chk(...): return RiskDecision(...)\<close> of the code is a \<open>step\<close>: it appends
  to the list of recorded checks and continues, stops with a rejection, or faults with
  the exception an expression raised. \<open>run_steps\<close> is the straight-line body; the
  \<open>except Exception\<close> clause turns a fault into the engine-failure rejection. A recorded
  check keeps its name and verdict (its message texts are not modelled). Values the code
  passes through \<open>D\<close> are \<open>declike\<close>; a limit absent from the dictionary is \<open>None\<close>.
\<close>

subsection \<open>Checks, decisions and steps\<close>

record risk_check =
  rc_name :: string
  rc_passed :: bool

datatype verdict = APPROVED | REJECTED

record risk_decision =
  rd_stage :: string
  rd_result :: verdict
  rd_reason :: "string option"
  rd_failed_check :: "string option"
  rd_checks :: "risk_check list"

datatype outcome = Go | Stop string string | Fault exn

type_synonym step = "risk_check list \<Rightarrow> risk_check list \<times> outcome"

definition mk_check :: "string \<Rightarrow> bool \<Rightarrow> risk_check" where
  "mk_check n b = \<lparr>rc_name = n, rc_passed = b\<rparr>"

definition skip_step :: step where
  "skip_step cs = (cs, Go)"

definition chk_step :: "string \<Rightarrow> bool result \<Rightarrow> string \<Rightarrow> step" where
  "chk_step name c reason cs = (case c of
     Inl e \<Rightarrow> (cs, Fault e)
   | Inr b \<Rightarrow> (cs @ [mk_check name b], if b then Go else Stop reason name))"

definition opt_step :: "'a option \<Rightarrow> ('a \<Rightarrow> step) \<Rightarrow> step" where
  "opt_step x f = (case x of None \<Rightarrow> skip_step | Some v \<Rightarrow> f v)"

definition bind_step :: "'a result \<Rightarrow> ('a \<Rightarrow> step) \<Rightarrow> step" where
  "bind_step m f cs = (case m of Inl e \<Rightarrow> (cs, Fault e) | Inr v \<Rightarrow> f v cs)"

fun run_steps :: "step list \<Rightarrow> step" where
  "run_steps [] cs = (cs, Go)"
| "run_steps (s # ss) cs = (case s cs of (cs', Go) \<Rightarrow> run_steps ss cs' | r \<Rightarrow> r)"

text \<open>The tail of both engines: approve, return the rejection, or fail closed.\<close>

definition conclude :: "string \<Rightarrow> string \<Rightarrow> string \<Rightarrow> risk_check list \<times> outcome \<Rightarrow> risk_decision" where
  "conclude stage all_name failure r = (case r of
     (cs, Go) \<Rightarrow> \<lparr>rd_stage = stage, rd_result = APPROVED, rd_reason = None,
        rd_failed_check = None, rd_checks = cs @ [mk_check all_name True]\<rparr>
   | (cs, Stop reason failed) \<Rightarrow> \<lparr>rd_stage = stage, rd_result = REJECTED, rd_reason = Some reason,
        rd_failed_check = Some failed, rd_checks = cs\<rparr>
   | (cs, Fault e) \<Rightarrow> \<lparr>rd_stage = stage, rd_result = REJECTED, rd_reason = Some failure,
        rd_failed_check = Some ''engine_error'', rd_checks = cs @ [mk_check ''engine_error'' False]\<rparr>)"

subsection \<open>Coercions used by the engines\<close>

definition le_like :: "declike \<Rightarrow> declike \<Rightarrow> bool result" where
  "le_like x y = ebind (D x) (\<lambda>a. ebind (D y) (\<lambda>b. dle a b))"

text \<open>\<open>int(x)\<close>\<close>

definition int_literal :: "string \<Rightarrow> int option" where
  "int_literal s = (let (n, ds) = split_sign (strip s) in
     if ds \<noteq> [] \<and> list_all is_digit ds then Some (if n then - digits_val ds else digits_val ds)
     else None)"

definition py_int :: "declike \<Rightarrow> int result" where
  "py_int v = (case v of
     IntV i \<Rightarrow> Inr i | DecV d \<Rightarrow> dec_int d | FloatV d \<Rightarrow> dec_int d
   | StrV s \<Rightarrow> (case int_literal s of None \<Rightarrow> Inl ValueError | Some i \<Rightarrow> Inr i)
   | OtherV \<Rightarrow> Inl TypeError)"

subsection \<open>Trade-level engine\<close>

record greeks =
  g_delta :: "declike option"
  g_gamma :: "declike option"
  g_theta :: "declike option"
  g_vega :: "declike option"
  g_iv :: "declike option"
  g_iv_required :: bool

record order_intent =
  oi_quantity :: int
  oi_price :: declike
  oi_bid :: "declike option"
  oi_ask :: "declike option"
  oi_greeks :: "greeks option"
  oi_data_health :: string
  oi_clock_health :: string
  oi_broker_health :: string
  oi_reconciliation_health :: string
  oi_is_tradable :: bool
  oi_has_circuit :: bool
  oi_capital_available :: "declike option"
  oi_margin_available :: "declike option"
  oi_estimated_margin :: "declike option"
  oi_daily_loss :: "declike option"
  oi_daily_loss_limit :: "declike option"
  oi_oi :: "int option"
  oi_volume :: "int option"
  oi_bid_size :: "int option"
  oi_ask_size :: "int option"
  oi_spread_pct :: "declike option"
  oi_slippage_pct :: "declike option"
  oi_trading_hours_ok :: bool
  oi_is_duplicate_signal :: bool
  oi_is_duplicate_order :: bool

record trade_limits =
  max_position_quantity :: "declike option"
  min_oi :: "declike option"
  min_volume :: "declike option"
  min_bid_size :: "declike option"
  min_ask_size :: "declike option"
  max_spread_pct :: "declike option"
  max_slippage_pct :: "declike option"

definition health_steps :: "order_intent \<Rightarrow> step list" where
  "health_steps i =
    [chk_step ''data_health'' (Inr (oi_data_health i \<noteq> ''STALE'')) ''STALE_DATA'',
     chk_step ''clock_health'' (Inr (oi_clock_health i \<noteq> ''STALE'')) ''CLOCK_DRIFT_CRITICAL'',
     chk_step ''broker_health'' (Inr (oi_broker_health i \<noteq> ''CRITICAL'' \<and> oi_broker_health i \<noteq> ''DISCONNECTED''))
       ''BROKER_UNHEALTHY'',
     chk_step ''reconciliation'' (Inr (oi_reconciliation_health i \<noteq> ''BLOCKED'')) ''RECONCILIATION_BLOCKED'',
     chk_step ''instrument_tradable'' (Inr (oi_is_tradable i)) ''INSTRUMENT_NOT_TRADABLE'',
     chk_step ''circuit'' (Inr (\<not> oi_has_circuit i)) ''CIRCUIT_OR_HALT_ACTIVE'',
     chk_step ''duplicate_signal'' (Inr (\<not> oi_is_duplicate_signal i)) ''DUPLICATE_SIGNAL'',
     chk_step ''duplicate_order'' (Inr (\<not> oi_is_duplicate_order i)) ''DUPLICATE_ORDER'',
     chk_step ''trading_hours'' (Inr (oi_trading_hours_ok i)) ''OUTSIDE_TRADING_HOURS'']"

text \<open>\<open>need\<close>: price times quantity, replaced by the estimated margin when there is one.\<close>

definition capital_need :: "order_intent \<Rightarrow> dval result" where
  "capital_need i =
     ebind (D (oi_price i)) (\<lambda>p. ebind (dmul p (DFin (of_int (oi_quantity i)))) (\<lambda>n.
       case oi_estimated_margin i of None \<Rightarrow> Inr n | Some em \<Rightarrow> D em))"

definition capital_step :: "order_intent \<Rightarrow> step" where
  "capital_step i = opt_step (oi_capital_available i) (\<lambda>av.
     chk_step ''algo_capital'' (ebind (capital_need i) (\<lambda>n. ebind (D av) (\<lambda>a. dle n a)))
       ''INSUFFICIENT_CAPITAL'')"

definition margin_step :: "order_intent \<Rightarrow> step" where
  "margin_step i = opt_step (oi_margin_available i) (\<lambda>av. opt_step (oi_estimated_margin i) (\<lambda>em.
     chk_step ''margin'' (le_like em av) ''INSUFFICIENT_MARGIN''))"

definition position_step :: "order_intent \<Rightarrow> trade_limits \<Rightarrow> step" where
  "position_step i l = opt_step (max_position_quantity l) (\<lambda>mq.
     chk_step ''position_size'' (ebind (py_int mq) (\<lambda>m. Inr (oi_quantity i \<le> m)))
       ''POSITION_SIZE_EXCEEDED'')"

definition daily_loss_step :: "order_intent \<Rightarrow> step" where
  "daily_loss_step i = opt_step (oi_daily_loss i) (\<lambda>dl. opt_step (oi_daily_loss_limit i) (\<lambda>lm.
     chk_step ''daily_loss'' (ebind (D dl) (\<lambda>a. ebind (D lm) (\<lambda>b. dlt (dneg b) a)))
       ''DAILY_LOSS_LIMIT_HIT''))"

definition min_step :: "string \<Rightarrow> string \<Rightarrow> declike option \<Rightarrow> int option \<Rightarrow> step" where
  "min_step name reason lm v = opt_step lm (\<lambda>m. opt_step v (\<lambda>x.
     chk_step name (ebind (py_int m) (\<lambda>k. Inr (k \<le> x))) reason))"

definition bad_quote :: "dval \<Rightarrow> dval \<Rightarrow> bool result" where
  "bad_quote bid ask = ebind (dle bid (DFin 0)) (\<lambda>b1. if b1 then Inr True
     else ebind (dle ask (DFin 0)) (\<lambda>b2. if b2 then Inr True else dlt ask bid))"

definition spread_pct_of :: "dval \<Rightarrow> dval \<Rightarrow> dval result" where
  "spread_pct_of bid ask =
     ebind (dadd bid ask) (\<lambda>s. ebind (ddiv s (DFin 2)) (\<lambda>mid.
     ebind (dlt (DFin 0) mid) (\<lambda>pos. if pos
       then ebind (dsub ask bid) (\<lambda>w. ebind (ddiv w mid) (\<lambda>r. dmul r (DFin 100)))
       else Inr (DFin 999))))"

definition explicit_spread_step :: "order_intent \<Rightarrow> trade_limits \<Rightarrow> step" where
  "explicit_spread_step i l = opt_step (oi_spread_pct i) (\<lambda>sp. opt_step (max_spread_pct l) (\<lambda>mx.
     bind_step (ebind (D sp) (\<lambda>a. ebind (D mx) (\<lambda>b. dlt b a))) (\<lambda>wide cs.
       (cs, if wide then Stop ''SPREAD_TOO_WIDE'' ''max_spread'' else Go))))"

definition quote_step :: "order_intent \<Rightarrow> trade_limits \<Rightarrow> step" where
  "quote_step i l = opt_step (oi_bid i) (\<lambda>b. opt_step (oi_ask i) (\<lambda>a.
     bind_step (ebind (D b) (\<lambda>bid. ebind (D a) (\<lambda>ask. Inr (bid, ask)))) (\<lambda>(bid, ask).
     bind_step (bad_quote bid ask) (\<lambda>bad.
       if bad then chk_step ''spread_valid'' (Inr False) ''INVALID_QUOTE''
       else bind_step (spread_pct_of bid ask) (\<lambda>pct. run_steps
         [opt_step (max_spread_pct l) (\<lambda>mx.
            chk_step ''max_spread'' (ebind (D mx) (\<lambda>m. dle pct m)) ''SPREAD_TOO_WIDE''),
          explicit_spread_step i l])))))"

definition slippage_step :: "order_intent \<Rightarrow> trade_limits \<Rightarrow> step" where
  "slippage_step i l = opt_step (max_slippage_pct l) (\<lambda>mx. opt_step (oi_slippage_pct i) (\<lambda>sp.
     chk_step ''slippage'' (le_like sp mx) ''SLIPPAGE_TOO_HIGH''))"

definition is_finite_dec :: "dval \<Rightarrow> bool" where
  "is_finite_dec d = (case d of DFin a \<Rightarrow> True | _ \<Rightarrow> False)"

text \<open>One iteration of the Greek loop; a conversion error is caught and rejects too.\<close>

definition greek_valid_step :: "declike option \<Rightarrow> step" where
  "greek_valid_step g = opt_step g (\<lambda>gv cs.
     (if ecatch (ebind (D gv) (\<lambda>d. Inr (is_finite_dec d))) (\<lambda>e. False) then (cs, Go)
      else chk_step ''greeks_valid'' (Inr False) ''INVALID_GREEKS'' cs))"

definition greeks_step :: "order_intent \<Rightarrow> step" where
  "greeks_step i = opt_step (oi_greeks i) (\<lambda>g. run_steps
     (map greek_valid_step [g_delta g, g_gamma g, g_theta g, g_vega g, g_iv g]
      @ [\<lambda>cs. (cs, if g_iv g = None \<and> g_iv_required g then Stop ''INVALID_IV'' ''greeks_valid'' else Go)]))"

definition trade_steps :: "order_intent \<Rightarrow> trade_limits \<Rightarrow> step list" where
  "trade_steps i l = health_steps i @
    [capital_step i, margin_step i, position_step i l, daily_loss_step i,
     min_step ''min_oi'' ''ILLIQUID_OI'' (min_oi l) (oi_oi i),
     min_step ''min_volume'' ''ILLIQUID_VOLUME'' (min_volume l) (oi_volume i),
     min_step ''bid_size'' ''ILLIQUID_BID_SIZE'' (min_bid_size l) (oi_bid_size i),
     min_step ''ask_size'' ''ILLIQUID_ASK_SIZE'' (min_ask_size l) (oi_ask_size i),
     quote_step i l, slippage_step i l, greeks_step i]"

definition trade_evaluate :: "order_intent \<Rightarrow> trade_limits \<Rightarrow> risk_decision" where
  "trade_evaluate i l = conclude ''TRADE_RISK'' ''all_trade_checks'' ''RISK_ENGINE_FAILURE''
     (run_steps (trade_steps i l) [])"

subsection \<open>Portfolio-level engine\<close>

record portfolio_exposure =
  gross_exposure :: dval
  net_exposure :: dval
  margin_utilization_pct :: dval
  portfolio_delta :: dval
  portfolio_gamma :: dval
  portfolio_theta :: dval
  portfolio_vega :: dval
  by_underlying :: "(string, declike) dict"
  by_strategy :: "(string, declike) dict"
  by_expiry :: "(string, declike) dict"

record portfolio_limits =
  pl_gross :: "declike option"
  pl_net :: "declike option"
  pl_margin_pct :: "declike option"
  pl_underlying_pct :: "declike option"
  pl_strategy_pct :: "declike option"
  pl_expiry_pct :: "declike option"
  pl_delta :: "declike option"
  pl_gamma :: "declike option"
  pl_vega :: "declike option"
  pl_var :: "declike option"
  pl_stress :: "declike option"
  pl_correlation_low :: bool

record portfolio_input =
  pi_exposure :: portfolio_exposure
  pi_notional :: declike
  pi_margin :: declike
  pi_greeks :: "greeks option"
  pi_underlying :: "string option"
  pi_strategy :: "string option"
  pi_expiry :: "string option"
  pi_limits :: portfolio_limits
  pi_current_var :: "declike option"
  pi_incremental_var :: "declike option"
  pi_stress_loss :: "declike option"
  pi_available_margin :: "declike option"
  pi_total_required_margin :: "declike option"

text \<open>\<open>proj_margin_util\<close>: projected margin use in percent.\<close>

definition margin_util :: "dval \<Rightarrow> dval \<Rightarrow> dval \<Rightarrow> dval result" where
  "margin_util required new_margin avail =
     ebind (dadd required new_margin) (\<lambda>tm. ebind (dadd tm avail) (\<lambda>base.
     ebind (dlt (DFin 0) base) (\<lambda>pos. if pos
       then ebind (ddiv tm base) (\<lambda>r. dmul r (DFin 100)) else Inr (DFin 0))))"

definition margin_util_step :: "portfolio_input \<Rightarrow> dval \<Rightarrow> step" where
  "margin_util_step p new_margin =
     opt_step (pl_margin_pct (pi_limits p)) (\<lambda>lm. opt_step (pi_available_margin p) (\<lambda>av.
     opt_step (pi_total_required_margin p) (\<lambda>req.
       chk_step ''margin_utilization''
         (ebind (D req) (\<lambda>r. ebind (D av) (\<lambda>a. ebind (margin_util r new_margin a) (\<lambda>u.
          ebind (D lm) (\<lambda>m. dle u m))))) ''MARGIN_BREACH'')))"

text \<open>The share of the projected gross exposure the order's bucket would hold, in percent.\<close>

definition concentration_pct ::
  "(string, declike) dict \<Rightarrow> string option \<Rightarrow> dval \<Rightarrow> dval \<Rightarrow> dval result" where
  "concentration_pct buckets key abs_new proj_gross =
     ebind (ddiv abs_new proj_gross) (\<lambda>r. ebind (dmul r (DFin 100)) (\<lambda>new_pct.
       case (case key of None \<Rightarrow> None | Some k \<Rightarrow> if k = [] then None else map_of buckets k) of
         Some b \<Rightarrow> ebind (D b) (\<lambda>ex. ebind (dadd ex abs_new) (\<lambda>comb.
                     ebind (ddiv comb proj_gross) (\<lambda>c. dmul c (DFin 100))))
       | None \<Rightarrow> Inr new_pct))"

definition concentration_step ::
  "string \<Rightarrow> declike option \<Rightarrow> (string, declike) dict \<Rightarrow> string option \<Rightarrow> dval \<Rightarrow> dval \<Rightarrow> step" where
  "concentration_step label lm buckets key abs_new proj_gross = opt_step lm (\<lambda>m.
     bind_step (dlt (DFin 0) proj_gross) (\<lambda>pos. if pos
       then chk_step (''concentration_'' @ label)
              (ebind (concentration_pct buckets key abs_new proj_gross) (\<lambda>pct. ebind (D m) (\<lambda>b. dle pct b)))
              (label @ ''_BREACH'')
       else skip_step))"

definition greek_limit_step :: "string \<Rightarrow> string \<Rightarrow> dval \<Rightarrow> declike option \<Rightarrow> step" where
  "greek_limit_step name code proj lm = opt_step lm (\<lambda>m. if m = StrV [] then skip_step
     else bind_step (D m) (\<lambda>d. if deq d (DFin 0) then skip_step
            else chk_step (''greek_'' @ name) (dle (dabs proj) (dabs d)) code))"

definition greek_or_zero :: "declike option \<Rightarrow> declike" where
  "greek_or_zero g = or_else g (IntV 0)"

definition portfolio_greeks_step :: "portfolio_input \<Rightarrow> step" where
  "portfolio_greeks_step p = opt_step (pi_greeks p) (\<lambda>g.
     let e = pi_exposure p; l = pi_limits p;
         plus = (\<lambda>x v. ebind (D (greek_or_zero v)) (dadd x)) in
     bind_step (plus (portfolio_delta e) (g_delta g)) (\<lambda>pd.
     bind_step (plus (portfolio_gamma e) (g_gamma g)) (\<lambda>pg.
     bind_step (plus (portfolio_theta e) (g_theta g)) (\<lambda>pt.
     bind_step (plus (portfolio_vega e) (g_vega g)) (\<lambda>pv.
       run_steps [greek_limit_step ''delta'' ''DELTA_BREACH'' pd (pl_delta l),
                  greek_limit_step ''gamma'' ''GAMMA_BREACH'' pg (pl_gamma l),
                  greek_limit_step ''vega'' ''VEGA_BREACH'' pv (pl_vega l)])))))"

text \<open>\<open>D(inp.incremental_var or 0)\<close>\<close>

definition like_truthy :: "declike \<Rightarrow> bool" where
  "like_truthy v = (case v of
     DecV d \<Rightarrow> \<not> deq d (DFin 0) | FloatV d \<Rightarrow> \<not> deq d (DFin 0) | IntV i \<Rightarrow> i \<noteq> 0
   | StrV s \<Rightarrow> s \<noteq> [] | OtherV \<Rightarrow> True)"

definition or_zero :: "declike option \<Rightarrow> declike" where
  "or_zero v = (case v of None \<Rightarrow> IntV 0 | Some x \<Rightarrow> if like_truthy x then x else IntV 0)"

definition var_step :: "portfolio_input \<Rightarrow> step" where
  "var_step p = opt_step (pl_var (pi_limits p)) (\<lambda>lm. opt_step (pi_current_var p) (\<lambda>cv.
     chk_step ''var_limit''
       (ebind (D cv) (\<lambda>a. ebind (D (or_zero (pi_incremental_var p))) (\<lambda>b. ebind (dadd a b) (\<lambda>pv.
        ebind (D lm) (\<lambda>m. dle pv m))))) ''VAR_BREACH''))"

definition stress_step :: "portfolio_input \<Rightarrow> step" where
  "stress_step p = opt_step (pl_stress (pi_limits p)) (\<lambda>lm. opt_step (pi_stress_loss p) (\<lambda>sl.
     chk_step ''stress_limit'' (le_like sl lm) ''STRESS_BREACH''))"

definition correlation_step :: "portfolio_input \<Rightarrow> step" where
  "correlation_step p = (if pl_correlation_low (pi_limits p)
     then chk_step ''correlation_confidence'' (Inr True) [] else skip_step)"

definition exposure_steps :: "portfolio_input \<Rightarrow> dval \<Rightarrow> dval \<Rightarrow> dval \<Rightarrow> dval \<Rightarrow> step list" where
  "exposure_steps p abs_new new_margin proj_gross proj_net =
    (let e = pi_exposure p; l = pi_limits p in
    [opt_step (pl_gross l) (\<lambda>m. chk_step ''gross_exposure'' (ebind (D m) (\<lambda>b. dle proj_gross b))
       ''GROSS_EXPOSURE_BREACH''),
     opt_step (pl_net l) (\<lambda>m. chk_step ''net_exposure'' (ebind (D m) (\<lambda>b. dle (dabs proj_net) b))
       ''NET_EXPOSURE_BREACH''),
     margin_util_step p new_margin,
     concentration_step ''UNDERLYING_CONCENTRATION'' (pl_underlying_pct l) (by_underlying e)
       (pi_underlying p) abs_new proj_gross,
     concentration_step ''STRATEGY_CONCENTRATION'' (pl_strategy_pct l) (by_strategy e)
       (pi_strategy p) abs_new proj_gross,
     concentration_step ''EXPIRY_CONCENTRATION'' (pl_expiry_pct l) (by_expiry e)
       (pi_expiry p) abs_new proj_gross,
     portfolio_greeks_step p, var_step p, stress_step p, correlation_step p])"

definition projected :: "portfolio_input \<Rightarrow> (dval \<times> dval \<times> dval \<times> dval) result" where
  "projected p =
     ebind (D (pi_notional p)) (\<lambda>n. ebind (D (pi_margin p)) (\<lambda>m.
     ebind (dadd (gross_exposure (pi_exposure p)) (dabs n)) (\<lambda>pg.
     ebind (dadd (net_exposure (pi_exposure p)) n) (\<lambda>pn. Inr (dabs n, m, pg, pn)))))"

definition portfolio_evaluate :: "portfolio_input \<Rightarrow> risk_decision" where
  "portfolio_evaluate p = conclude ''PORTFOLIO_RISK'' ''all_portfolio_checks''
     ''PORTFOLIO_RISK_ENGINE_FAILURE''
     (bind_step (projected p) (\<lambda>(an, m, pg, pn). run_steps (exposure_steps p an m pg pn)) [])"

datatype portfolio_state = NORMAL | WARNING | LIMIT_BREACHED | MARGIN_BREACH

text \<open>\<open>limits.get(k) and x >= D(limits[k])\<close>\<close>

definition limit_hit :: "declike option \<Rightarrow> dval \<Rightarrow> bool result" where
  "limit_hit lm x = (case lm of None \<Rightarrow> Inr False
     | Some v \<Rightarrow> if like_truthy v then ebind (D v) (\<lambda>d. dle d x) else Inr False)"

definition portfolio_state :: "portfolio_exposure \<Rightarrow> portfolio_limits \<Rightarrow> portfolio_state result" where
  "portfolio_state e l =
     ebind (limit_hit (pl_gross l) (gross_exposure e)) (\<lambda>g. if g then Inr LIMIT_BREACHED else
     ebind (limit_hit (pl_margin_pct l) (margin_utilization_pct e)) (\<lambda>m. if m then Inr MARGIN_BREACH else
     ebind (dlt (DFin 70) (margin_utilization_pct e)) (\<lambda>w1. if w1 then Inr WARNING else
     ebind (D (or_else (pl_gross l) (IntV 999999999))) (\<lambda>lm. ebind (dmul lm (DFin (8/10))) (\<lambda>lim80.
     ebind (dlt lim80 (gross_exposure e)) (\<lambda>w2. Inr (if w2 then WARNING else NORMAL)))))))"

subsection \<open>Steps are uniform: what they append and decide does not depend on the record\<close>

definition uniform :: "step \<Rightarrow> bool" where
  "uniform s \<longleftrightarrow> (\<exists>d r. \<forall>cs. s cs = (cs @ d, r))"

definition passes :: "step \<Rightarrow> bool" where
  "passes s \<longleftrightarrow> snd (s []) = Go"

named_theorems uniform_intros

lemma uniform_pure [uniform_intros]: "uniform (\<lambda>cs. (cs, r))"
  by (auto simp: uniform_def)

lemma uniform_skip [uniform_intros]: "uniform skip_step"
  by (auto simp: uniform_def skip_step_def)

lemma uniform_chk [uniform_intros]: "uniform (chk_step n c r)"
  by (cases c) (auto simp: uniform_def chk_step_def)

lemma uniform_opt [uniform_intros]: "(\<And>v. uniform (f v)) \<Longrightarrow> uniform (opt_step x f)"
  by (cases x) (auto simp: opt_step_def uniform_skip)

lemma uniform_bind [uniform_intros]: "(\<And>v. uniform (f v)) \<Longrightarrow> uniform (bind_step m f)"
  by (cases m) (auto simp: uniform_def bind_step_def)

lemma uniform_if [uniform_intros]:
  "uniform s \<Longrightarrow> uniform t \<Longrightarrow> uniform (if b then s else t)"
  "uniform s \<Longrightarrow> uniform t \<Longrightarrow> uniform (\<lambda>cs. if b then s cs else t cs)"
  by (cases b; simp add: uniform_def)+

lemma uniform_run: "(\<And>s. s \<in> set ss \<Longrightarrow> uniform s) \<Longrightarrow> uniform (run_steps ss)"
proof (induction ss)
  case Nil
  then show ?case by (auto simp: uniform_def)
next
  case (Cons s ss)
  obtain d r where s: "s cs = (cs @ d, r)" for cs using Cons.prems by (force simp: uniform_def)
  obtain d' r' where ss: "run_steps ss cs = (cs @ d', r')" for cs
    using Cons by (force simp: uniform_def)
  show ?case by (cases r) (auto simp: uniform_def s ss)
qed

lemma passes_uniform: "uniform s \<Longrightarrow> snd (s cs) = Go \<longleftrightarrow> passes s"
  unfolding uniform_def passes_def by force

lemma passes_run:
  "(\<And>s. s \<in> set ss \<Longrightarrow> uniform s) \<Longrightarrow> passes (run_steps ss) \<longleftrightarrow> (\<forall>s \<in> set ss. passes s)"
proof (induction ss)
  case Nil
  then show ?case by (simp add: passes_def)
next
  case (Cons s ss)
  obtain d r where s: "s cs = (cs @ d, r)" for cs using Cons.prems by (force simp: uniform_def)
  have "uniform (run_steps ss)" using Cons.prems by (intro uniform_run) auto
  then show ?case
    using Cons passes_uniform [of "run_steps ss" d] by (cases r) (auto simp: passes_def s)
qed

lemma passes_simps [simp]:
  "passes (\<lambda>cs. (cs, r)) \<longleftrightarrow> r = Go"
  "passes skip_step"
  "passes (chk_step n c r') \<longleftrightarrow> c = Inr True"
  "passes (opt_step x f) \<longleftrightarrow> (\<forall>v. x = Some v \<longrightarrow> passes (f v))"
  "passes (bind_step m g) \<longleftrightarrow> (\<exists>v. m = Inr v \<and> passes (g v))"
  by (cases x; cases m; cases c; auto simp: passes_def skip_step_def chk_step_def opt_step_def bind_step_def)+

text \<open>Every step of the two engines is uniform.\<close>

lemma health_steps_uniform: "s \<in> set (health_steps i) \<Longrightarrow> uniform s"
  by (auto simp: health_steps_def intro: uniform_chk)

lemma quote_step_uniform [uniform_intros]: "uniform (quote_step i l)"
  unfolding quote_step_def explicit_spread_step_def
  by (auto intro!: uniform_intros uniform_run split: prod.split)

lemma greek_valid_uniform [uniform_intros]: "uniform (greek_valid_step g)"
  unfolding greek_valid_step_def by (intro uniform_intros)

lemma greeks_step_uniform [uniform_intros]: "uniform (greeks_step i)"
  unfolding greeks_step_def by (auto intro!: uniform_opt uniform_run uniform_pure greek_valid_uniform)

lemma trade_steps_uniform: "s \<in> set (trade_steps i l) \<Longrightarrow> uniform s"
  by (auto simp: trade_steps_def health_steps_uniform capital_step_def margin_step_def position_step_def
      daily_loss_step_def min_step_def slippage_step_def intro!: uniform_intros)

lemma greek_limit_uniform [uniform_intros]: "uniform (greek_limit_step n c p l)"
  unfolding greek_limit_step_def by (intro uniform_intros)

lemma exposure_steps_uniform: "s \<in> set (exposure_steps p an m pg pn) \<Longrightarrow> uniform s"
  by (auto simp: exposure_steps_def Let_def margin_util_step_def concentration_step_def
      portfolio_greeks_step_def var_step_def stress_step_def correlation_step_def
      intro!: uniform_intros uniform_run)

subsection \<open>What an approval means\<close>

text \<open>The relative spread of a quote, as the decimal context computes it.\<close>

definition spread_val :: "rat \<Rightarrow> rat \<Rightarrow> rat" where
  "spread_val x y = drnd (drnd (drnd (y - x) / drnd (drnd (x + y) / 2)) * 100)"

lemma bad_quote_False:
  "bad_quote b a = Inr False \<longleftrightarrow>
     (\<exists>x. b = DFin x \<and> 0 < x \<and> (a = DInf False \<or> (\<exists>y. a = DFin y \<and> x \<le> y)))
     \<or> b = DInf False \<and> a = DInf False"
  by (cases b; cases a)
    (auto simp: bad_quote_def dle_def dlt_def dless_val_def not_le not_less split: if_splits)

lemma spread_pct_fin:
  assumes "0 < x" and "x \<le> y"
  shows "spread_pct_of (DFin x) (DFin y) = Inr (DFin (spread_val x y))"
proof -
  have "0 < drnd (x + y)" using assms dec.rnd_nonneg [of "x + y"] by (simp add: order_less_le)
  then have m: "0 < drnd (drnd (x + y) / 2)"
    using assms dec.rnd_nonneg [of "drnd (x + y) / 2"] by (simp add: order_less_le)
  then have "ddiv (DFin (drnd (y - x))) (DFin (drnd (drnd (x + y) / 2)))
      = Inr (DFin (drnd (drnd (y - x) / drnd (drnd (x + y) / 2))))"
    by (intro dec_fin_simps less_imp_neq [THEN not_sym])
  moreover have "x + y \<noteq> 0" using assms by simp
  ultimately show ?thesis using m by (simp add: spread_pct_of_def spread_val_def)
qed

lemma spread_pct_inf: "spread_pct_of b (DInf False) = Inr p \<Longrightarrow> b = DInf True \<or> b = DNaN"
  by (cases b) (auto simp: spread_pct_of_def dec_ops split: if_splits)

lemma quote_accepted:
  "bad_quote b a = Inr False \<and> spread_pct_of b a = Inr p \<longleftrightarrow>
     (\<exists>x y. b = DFin x \<and> a = DFin y \<and> 0 < x \<and> x \<le> y \<and> p = DFin (spread_val x y))"
  by (auto simp: bad_quote_False spread_pct_fin dest: spread_pct_inf)

definition holds :: "bool result \<Rightarrow> bool" where
  "holds m \<longleftrightarrow> m = Inr True"

text \<open>A numeric cap: absent, or an integer at least the value.\<close>

definition at_least :: "declike option \<Rightarrow> int option \<Rightarrow> bool" where
  "at_least m x \<longleftrightarrow> (case (m, x) of (Some k, Some v) \<Rightarrow> (\<exists>n. py_int k = Inr n \<and> n \<le> v) | _ \<Rightarrow> True)"

definition healthy :: "order_intent \<Rightarrow> bool" where
  "healthy i \<longleftrightarrow> oi_data_health i \<noteq> ''STALE'' \<and> oi_clock_health i \<noteq> ''STALE''
     \<and> oi_broker_health i \<notin> {''CRITICAL'', ''DISCONNECTED''} \<and> oi_reconciliation_health i \<noteq> ''BLOCKED''
     \<and> oi_is_tradable i \<and> \<not> oi_has_circuit i \<and> \<not> oi_is_duplicate_signal i
     \<and> \<not> oi_is_duplicate_order i \<and> oi_trading_hours_ok i"

definition funded :: "order_intent \<Rightarrow> bool" where
  "funded i \<longleftrightarrow>
     (\<forall>av. oi_capital_available i = Some av \<longrightarrow> holds (ebind (capital_need i) (\<lambda>n. ebind (D av) (dle n))))
     \<and> (\<forall>av em. oi_margin_available i = Some av \<longrightarrow> oi_estimated_margin i = Some em \<longrightarrow> holds (le_like em av))
     \<and> (\<forall>dl lm. oi_daily_loss i = Some dl \<longrightarrow> oi_daily_loss_limit i = Some lm \<longrightarrow>
          holds (ebind (D dl) (\<lambda>a. ebind (D lm) (\<lambda>b. dlt (dneg b) a))))"

definition liquid :: "order_intent \<Rightarrow> trade_limits \<Rightarrow> bool" where
  "liquid i l \<longleftrightarrow>
     (\<forall>mq. max_position_quantity l = Some mq \<longrightarrow> (\<exists>m. py_int mq = Inr m \<and> oi_quantity i \<le> m))
     \<and> at_least (min_oi l) (oi_oi i) \<and> at_least (min_volume l) (oi_volume i)
     \<and> at_least (min_bid_size l) (oi_bid_size i) \<and> at_least (min_ask_size l) (oi_ask_size i)
     \<and> (\<forall>mx sp. max_slippage_pct l = Some mx \<longrightarrow> oi_slippage_pct i = Some sp \<longrightarrow> holds (le_like sp mx))"

text \<open>With both sides quoted: a proper finite quote whose spread, and the caller's own spread
  figure if it sends one, are within the limit.\<close>

definition quote_ok :: "order_intent \<Rightarrow> trade_limits \<Rightarrow> bool" where
  "quote_ok i l \<longleftrightarrow> (\<forall>b a. oi_bid i = Some b \<longrightarrow> oi_ask i = Some a \<longrightarrow>
     (\<exists>x y. D b = Inr (DFin x) \<and> D a = Inr (DFin y) \<and> 0 < x \<and> x \<le> y
        \<and> (\<forall>mx. max_spread_pct l = Some mx \<longrightarrow> (\<exists>m. D mx = Inr m \<and> dle (DFin (spread_val x y)) m = Inr True
             \<and> (\<forall>sp. oi_spread_pct i = Some sp \<longrightarrow> (\<exists>s. D sp = Inr s \<and> dle s m = Inr True))))))"

definition greeks_ok :: "order_intent \<Rightarrow> bool" where
  "greeks_ok i \<longleftrightarrow> (\<forall>g. oi_greeks i = Some g \<longrightarrow>
     (\<forall>v \<in> set_option (g_delta g) \<union> set_option (g_gamma g) \<union> set_option (g_theta g)
            \<union> set_option (g_vega g) \<union> set_option (g_iv g). \<exists>r. D v = Inr (DFin r))
     \<and> (g_iv_required g \<longrightarrow> g_iv g \<noteq> None))"

lemma dlt_False_iff: "dlt b a = Inr False \<longleftrightarrow> dle a b = Inr True"
  by (auto simp: dlt_def dle_def)

lemma passes_if [simp]: "passes (if b then s else t) \<longleftrightarrow> (if b then passes s else passes t)"
  by simp

lemma passes_min_step: "passes (min_step n r lm v) \<longleftrightarrow> at_least lm v"
  by (auto simp: min_step_def at_least_def exn_simps split: option.splits)

lemma passes_explicit:
  "passes (explicit_spread_step i l) \<longleftrightarrow> (\<forall>sp mx. oi_spread_pct i = Some sp \<longrightarrow> max_spread_pct l = Some mx \<longrightarrow>
     (\<exists>s m. D sp = Inr s \<and> D mx = Inr m \<and> dle s m = Inr True))"
  by (auto simp: explicit_spread_step_def exn_simps dlt_False_iff)

lemma uniform_explicit [uniform_intros]: "uniform (explicit_spread_step i l)"
  unfolding explicit_spread_step_def by (intro uniform_intros)

lemma passes_pair: "passes (run_steps [s, t]) \<longleftrightarrow> passes s \<and> passes t" if "uniform s" "uniform t"
  using that by (subst passes_run) auto

definition quoted_ok :: "order_intent \<Rightarrow> trade_limits \<Rightarrow> declike \<Rightarrow> declike \<Rightarrow> bool" where
  "quoted_ok i l b a \<longleftrightarrow> (\<exists>bid ask pct. D b = Inr bid \<and> D a = Inr ask
     \<and> (bad_quote bid ask = Inr False \<and> spread_pct_of bid ask = Inr pct)
     \<and> (\<forall>mx. max_spread_pct l = Some mx \<longrightarrow> (\<exists>m. D mx = Inr m \<and> dle pct m = Inr True))
     \<and> passes (explicit_spread_step i l))"

lemma quote_step_quoted: "passes (quote_step i l) \<longleftrightarrow>
    (\<forall>b a. oi_bid i = Some b \<longrightarrow> oi_ask i = Some a \<longrightarrow> quoted_ok i l b a)"
proof (cases "oi_bid i")
  case (Some b)
  note b = this
  show ?thesis
  proof (cases "oi_ask i")
    case (Some a)
    show ?thesis
      by (cases "D b"; cases "D a")
        (auto simp: quote_step_def b Some quoted_ok_def passes_pair uniform_intros exn_simps)
  qed (simp add: quote_step_def)
qed (simp add: quote_step_def)

lemma passes_quote_step: "passes (quote_step i l) \<longleftrightarrow> quote_ok i l"
proof -
  have "quoted_ok i l b a \<longleftrightarrow> (\<exists>x y. D b = Inr (DFin x) \<and> D a = Inr (DFin y) \<and> 0 < x \<and> x \<le> y
        \<and> (\<forall>mx. max_spread_pct l = Some mx \<longrightarrow> (\<exists>m. D mx = Inr m \<and> dle (DFin (spread_val x y)) m = Inr True))
        \<and> passes (explicit_spread_step i l))" for b a
    unfolding quoted_ok_def quote_accepted by blast
  then show ?thesis
    unfolding quote_step_quoted quote_ok_def passes_explicit by fastforce
qed

lemma passes_greek_valid: "passes (greek_valid_step g) \<longleftrightarrow> (\<forall>v. g = Some v \<longrightarrow> (\<exists>r. D v = Inr (DFin r)))"
proof (cases g)
  case (Some v)
  then show ?thesis
    by (cases "D v") (auto simp: greek_valid_step_def is_finite_dec_def split: dval.splits)
qed (simp add: greek_valid_step_def)

lemma passes_greeks_step: "passes (greeks_step i) \<longleftrightarrow> greeks_ok i"
proof (cases "oi_greeks i")
  case (Some g)
  show ?thesis unfolding greeks_step_def Some
    by (subst passes_simps, subst passes_run)
      (auto simp: greeks_ok_def Some passes_greek_valid intro: uniform_pure greek_valid_uniform)
qed (simp add: greeks_step_def greeks_ok_def)

lemma passes_health: "(\<forall>s \<in> set (health_steps i). passes s) \<longleftrightarrow> healthy i"
  by (auto simp: health_steps_def healthy_def)

lemma conclude_approved:
  "rd_result (conclude st a f r) = APPROVED \<longleftrightarrow> snd r = Go"
  by (auto simp: conclude_def split: prod.split outcome.split)

definition trade_ok :: "order_intent \<Rightarrow> trade_limits \<Rightarrow> bool" where
  "trade_ok i l \<longleftrightarrow> healthy i \<and> funded i \<and> liquid i l \<and> quote_ok i l \<and> greeks_ok i"

text \<open>
  C7. The trade engine approves exactly the orders that satisfy every limit: healthy feeds and
  no halt or duplicate, enough capital, margin and loss room, size and liquidity limits, a
  proper quote within the spread limit, finite Greeks. Any exception on the way rejects.
\<close>

theorem trade_approved_iff: "rd_result (trade_evaluate i l) = APPROVED \<longleftrightarrow> trade_ok i l"
proof -
  have "rd_result (trade_evaluate i l) = APPROVED \<longleftrightarrow> (\<forall>s \<in> set (trade_steps i l). passes s)"
    unfolding trade_evaluate_def conclude_approved passes_def [symmetric]
    by (rule passes_run) (rule trade_steps_uniform)
  also have "\<dots> \<longleftrightarrow> trade_ok i l"
    unfolding trade_steps_def set_append ball_Un passes_health
    by (auto simp: trade_ok_def passes_min_step passes_quote_step passes_greeks_step funded_def
        liquid_def holds_def capital_step_def margin_step_def position_step_def daily_loss_step_def
        slippage_step_def exn_simps)
  finally show ?thesis .
qed

subsection \<open>The audit trail\<close>

definition all_passed :: "risk_check list \<Rightarrow> bool" where
  "all_passed cs \<longleftrightarrow> list_all rc_passed cs"

lemma all_passed_simps [simp]:
  "all_passed []" "all_passed (cs @ ds) \<longleftrightarrow> all_passed cs \<and> all_passed ds"
  "all_passed [c] \<longleftrightarrow> rc_passed c"
  by (auto simp: all_passed_def)

text \<open>A step is orderly when it appends only passed checks unless it stops, and then at most
  the last one fails.\<close>

definition orderly :: "step \<Rightarrow> bool" where
  "orderly s \<longleftrightarrow> (\<forall>cs cs' r. s cs = (cs', r) \<longrightarrow> (\<exists>d. cs' = cs @ d
     \<and> (if (\<exists>a b. r = Stop a b) then all_passed (butlast d) else all_passed d)))"

named_theorems orderly_intros

lemma orderly_pure [orderly_intros]: "orderly (\<lambda>cs. (cs, r))"
  by (auto simp: orderly_def)

lemma orderly_skip [orderly_intros]: "orderly skip_step"
  by (auto simp: orderly_def skip_step_def)

lemma orderly_chk [orderly_intros]: "orderly (chk_step n c r)"
  by (cases c) (auto simp: orderly_def chk_step_def mk_check_def)

lemma orderly_opt [orderly_intros]: "(\<And>v. orderly (f v)) \<Longrightarrow> orderly (opt_step x f)"
  by (cases x) (auto simp: opt_step_def orderly_skip)

lemma orderly_bind [orderly_intros]: "(\<And>v. orderly (f v)) \<Longrightarrow> orderly (bind_step m f)"
  by (cases m) (auto simp: orderly_def bind_step_def)

lemma orderly_if [orderly_intros]:
  "orderly s \<Longrightarrow> orderly t \<Longrightarrow> orderly (if b then s else t)"
  "orderly s \<Longrightarrow> orderly t \<Longrightarrow> orderly (\<lambda>cs. if b then s cs else t cs)"
  by (cases b; simp)+

lemma butlast_passed: "all_passed d \<Longrightarrow> all_passed (butlast e) \<Longrightarrow> all_passed (butlast (d @ e))"
  by (cases e rule: rev_cases)
    (auto simp: butlast_append all_passed_def list_all_iff dest: in_set_butlastD)

lemma orderly_run: "(\<And>s. s \<in> set ss \<Longrightarrow> orderly s) \<Longrightarrow> orderly (run_steps ss)"
proof (induction ss)
  case Nil
  then show ?case by (auto simp: orderly_def)
next
  case (Cons s ss)
  have s: "orderly s" and ss: "orderly (run_steps ss)" using Cons by auto
  show ?case unfolding orderly_def
  proof (intro allI impI)
    fix cs cs' r assume run: "run_steps (s # ss) cs = (cs', r)"
    obtain c1 r1 where one: "s cs = (c1, r1)" by fastforce
    obtain d where d: "c1 = cs @ d" "if (\<exists>a b. r1 = Stop a b) then all_passed (butlast d) else all_passed d"
      using s one unfolding orderly_def by blast
    show "\<exists>d. cs' = cs @ d \<and> (if (\<exists>a b. r = Stop a b) then all_passed (butlast d) else all_passed d)"
    proof (cases "r1 = Go")
      case True
      then have "run_steps ss c1 = (cs', r)" using run one by simp
      then obtain e where "cs' = c1 @ e"
        "if (\<exists>a b. r = Stop a b) then all_passed (butlast e) else all_passed e"
        using ss unfolding orderly_def by blast
      then show ?thesis using d True
        by (intro exI [of _ "d @ e"]) (auto simp: butlast_passed split: if_splits)
    next
      case False
      then have "cs' = c1" "r = r1" using run one by (auto split: outcome.splits)
      then show ?thesis using d by blast
    qed
  qed
qed

lemma greek_valid_orderly [orderly_intros]: "orderly (greek_valid_step g)"
  unfolding greek_valid_step_def by (intro orderly_intros)

lemma trade_steps_orderly: "s \<in> set (trade_steps i l) \<Longrightarrow> orderly s"
  unfolding trade_steps_def health_steps_def capital_step_def margin_step_def position_step_def
    daily_loss_step_def min_step_def slippage_step_def quote_step_def explicit_spread_step_def greeks_step_def
  by (auto intro!: orderly_intros orderly_run split: prod.split)

lemma exposure_steps_orderly: "s \<in> set (exposure_steps p an m pg pn) \<Longrightarrow> orderly s"
  by (auto simp: exposure_steps_def Let_def margin_util_step_def concentration_step_def
      portfolio_greeks_step_def var_step_def stress_step_def correlation_step_def greek_limit_step_def
      intro!: orderly_intros orderly_run)

text \<open>What a reader of a decision may rely on.\<close>

definition well_audited :: "string \<Rightarrow> risk_decision \<Rightarrow> bool" where
  "well_audited all_name d \<longleftrightarrow>
     (case rd_result d of
        APPROVED \<Rightarrow> all_passed (rd_checks d) \<and> rd_checks d \<noteq> [] \<and> rc_name (last (rd_checks d)) = all_name
          \<and> rd_reason d = None \<and> rd_failed_check d = None
      | REJECTED \<Rightarrow> all_passed (butlast (rd_checks d)) \<and> rd_reason d \<noteq> None \<and> rd_failed_check d \<noteq> None)"

lemma conclude_audited:
  assumes "orderly s"
  shows "well_audited a (conclude st a f (s []))"
proof -
  obtain cs r where run: "s [] = (cs, r)" by fastforce
  then have "if (\<exists>x y. r = Stop x y) then all_passed (butlast cs) else all_passed cs"
    using assms unfolding orderly_def by (metis append_Nil)
  then show ?thesis using run
    by (cases r) (auto simp: well_audited_def conclude_def mk_check_def)
qed

text \<open>
  Both engines leave an honest audit trail: an approval has only passed checks, ended by
  the summary check; a rejection names its reason and its failed check, and no check but the
  last recorded one can have failed.
\<close>

theorem decisions_audited:
  "well_audited ''all_trade_checks'' (trade_evaluate i l)
   \<and> well_audited ''all_portfolio_checks'' (portfolio_evaluate p)"
proof
  have "orderly (run_steps (trade_steps i l))" by (rule orderly_run) (rule trade_steps_orderly)
  then show "well_audited ''all_trade_checks'' (trade_evaluate i l)"
    unfolding trade_evaluate_def by (rule conclude_audited)
  have "orderly (bind_step (projected p) (\<lambda>(an, m, pg, pn). run_steps (exposure_steps p an m pg pn)))"
    by (intro orderly_bind) (auto intro: orderly_run exposure_steps_orderly split: prod.split)
  then show "well_audited ''all_portfolio_checks'' (portfolio_evaluate p)"
    unfolding portfolio_evaluate_def by (rule conclude_audited)
qed

subsection \<open>What a portfolio approval means\<close>

text \<open>\<open>x\<close> is within the limit: the limit is absent, or reads as a number not below \<open>x\<close>.\<close>

definition within_limit :: "dval \<Rightarrow> declike option \<Rightarrow> bool" where
  "within_limit x lm \<longleftrightarrow> (\<forall>m. lm = Some m \<longrightarrow> (\<exists>b. D m = Inr b \<and> dle x b = Inr True))"

definition concentrated_ok ::
  "declike option \<Rightarrow> (string, declike) dict \<Rightarrow> string option \<Rightarrow> dval \<Rightarrow> dval \<Rightarrow> bool" where
  "concentrated_ok lm buckets key an pg \<longleftrightarrow> (lm \<noteq> None \<longrightarrow> (\<exists>pos. dlt (DFin 0) pg = Inr pos
     \<and> (pos \<longrightarrow> (\<exists>pct. concentration_pct buckets key an pg = Inr pct \<and> within_limit pct lm))))"

text \<open>A Greek limit binds when it is present, not the empty string and not zero.\<close>

definition greek_within :: "dval \<Rightarrow> declike option \<Rightarrow> bool" where
  "greek_within x lm \<longleftrightarrow> (\<forall>m. lm = Some m \<longrightarrow> m \<noteq> StrV [] \<longrightarrow>
     (\<exists>d. D m = Inr d \<and> (\<not> deq d (DFin 0) \<longrightarrow> dle (dabs x) (dabs d) = Inr True)))"

definition projected_greek :: "dval \<Rightarrow> declike option \<Rightarrow> dval \<Rightarrow> bool" where
  "projected_greek held g v \<longleftrightarrow> (\<exists>x. D (greek_or_zero g) = Inr x \<and> dadd held x = Inr v)"

definition portfolio_greeks_ok :: "portfolio_input \<Rightarrow> bool" where
  "portfolio_greeks_ok p \<longleftrightarrow> (\<forall>g. pi_greeks p = Some g \<longrightarrow> (\<exists>d ga t v.
     projected_greek (portfolio_delta (pi_exposure p)) (g_delta g) d
     \<and> projected_greek (portfolio_gamma (pi_exposure p)) (g_gamma g) ga
     \<and> projected_greek (portfolio_theta (pi_exposure p)) (g_theta g) t
     \<and> projected_greek (portfolio_vega (pi_exposure p)) (g_vega g) v
     \<and> greek_within d (pl_delta (pi_limits p)) \<and> greek_within ga (pl_gamma (pi_limits p))
     \<and> greek_within v (pl_vega (pi_limits p))))"

definition portfolio_margin_ok :: "portfolio_input \<Rightarrow> dval \<Rightarrow> bool" where
  "portfolio_margin_ok p m \<longleftrightarrow> (\<forall>lm av req. pl_margin_pct (pi_limits p) = Some lm \<longrightarrow>
     pi_available_margin p = Some av \<longrightarrow> pi_total_required_margin p = Some req \<longrightarrow>
     (\<exists>r a u. D req = Inr r \<and> D av = Inr a \<and> margin_util r m a = Inr u \<and> within_limit u (Some lm)))"

definition portfolio_tail_ok :: "portfolio_input \<Rightarrow> bool" where
  "portfolio_tail_ok p \<longleftrightarrow>
     (\<forall>lm cv. pl_var (pi_limits p) = Some lm \<longrightarrow> pi_current_var p = Some cv \<longrightarrow>
        (\<exists>a b v. D cv = Inr a \<and> D (or_zero (pi_incremental_var p)) = Inr b \<and> dadd a b = Inr v
           \<and> within_limit v (Some lm)))
     \<and> (\<forall>lm sl. pl_stress (pi_limits p) = Some lm \<longrightarrow> pi_stress_loss p = Some sl \<longrightarrow>
        holds (le_like sl lm))"

definition portfolio_ok :: "portfolio_input \<Rightarrow> bool" where
  "portfolio_ok p \<longleftrightarrow> (\<exists>an m pg pn. projected p = Inr (an, m, pg, pn)
     \<and> within_limit pg (pl_gross (pi_limits p)) \<and> within_limit (dabs pn) (pl_net (pi_limits p))
     \<and> portfolio_margin_ok p m
     \<and> concentrated_ok (pl_underlying_pct (pi_limits p)) (by_underlying (pi_exposure p)) (pi_underlying p) an pg
     \<and> concentrated_ok (pl_strategy_pct (pi_limits p)) (by_strategy (pi_exposure p)) (pi_strategy p) an pg
     \<and> concentrated_ok (pl_expiry_pct (pi_limits p)) (by_expiry (pi_exposure p)) (pi_expiry p) an pg
     \<and> portfolio_greeks_ok p \<and> portfolio_tail_ok p)"

lemma passes_concentration:
  "passes (concentration_step lb lm bk k an pg) \<longleftrightarrow> concentrated_ok lm bk k an pg"
  by (cases lm; cases "dlt (DFin 0) pg")
    (simp_all add: concentration_step_def concentrated_ok_def within_limit_def exn_simps)

lemma passes_greek_limit: "passes (greek_limit_step n c x lm) \<longleftrightarrow> greek_within x lm"
  by (cases lm) (auto simp: greek_limit_step_def greek_within_def)

lemma passes_portfolio_greeks: "passes (portfolio_greeks_step p) \<longleftrightarrow> portfolio_greeks_ok p"
proof (cases "pi_greeks p")
  case (Some g)
  have three: "passes (run_steps [greek_limit_step n1 c1 x1 l1, greek_limit_step n2 c2 x2 l2,
      greek_limit_step n3 c3 x3 l3]) \<longleftrightarrow> greek_within x1 l1 \<and> greek_within x2 l2 \<and> greek_within x3 l3"
    for n1 n2 n3 c1 c2 c3 x1 x2 x3 l1 l2 l3
    by (subst passes_run) (auto simp: passes_greek_limit intro: greek_limit_uniform)
  have plus: "ebind (D (greek_or_zero x)) (dadd held) = Inr v \<longleftrightarrow> projected_greek held x v" for held x v
    by (simp add: projected_greek_def ebind_Inr_iff)
  show ?thesis
    unfolding portfolio_greeks_step_def portfolio_greeks_ok_def Some Let_def passes_simps three plus
    by (simp del: run_steps.simps)
qed (simp add: portfolio_greeks_step_def portfolio_greeks_ok_def)

lemma passes_exposure:
  "(\<forall>s \<in> set (exposure_steps p an m pg pn). passes s) \<longleftrightarrow>
     within_limit pg (pl_gross (pi_limits p)) \<and> within_limit (dabs pn) (pl_net (pi_limits p))
     \<and> portfolio_margin_ok p m
     \<and> concentrated_ok (pl_underlying_pct (pi_limits p)) (by_underlying (pi_exposure p)) (pi_underlying p) an pg
     \<and> concentrated_ok (pl_strategy_pct (pi_limits p)) (by_strategy (pi_exposure p)) (pi_strategy p) an pg
     \<and> concentrated_ok (pl_expiry_pct (pi_limits p)) (by_expiry (pi_exposure p)) (pi_expiry p) an pg
     \<and> portfolio_greeks_ok p \<and> portfolio_tail_ok p"
proof -
  have "passes (margin_util_step p m) \<longleftrightarrow> portfolio_margin_ok p m"
    by (auto simp: margin_util_step_def portfolio_margin_ok_def within_limit_def exn_simps)
  moreover have "passes (var_step p) \<and> passes (stress_step p) \<longleftrightarrow> portfolio_tail_ok p"
    by (auto simp: var_step_def stress_step_def portfolio_tail_ok_def within_limit_def holds_def exn_simps)
  moreover have "passes (correlation_step p)" by (simp add: correlation_step_def)
  ultimately show ?thesis
    by (auto simp: exposure_steps_def Let_def passes_concentration passes_portfolio_greeks within_limit_def exn_simps)
qed

lemma portfolio_passes:
  "passes (bind_step (projected p) (\<lambda>(an, m, pg, pn). run_steps (exposure_steps p an m pg pn))) \<longleftrightarrow> portfolio_ok p"
proof -
  have run: "passes (run_steps (exposure_steps p an m pg pn)) \<longleftrightarrow>
      (\<forall>s \<in> set (exposure_steps p an m pg pn). passes s)" for an m pg pn
    by (rule passes_run) (rule exposure_steps_uniform)
  show ?thesis by (auto simp: run passes_exposure portfolio_ok_def)
qed


lemma limit_breached_iff:
  assumes "pl_gross l = Some v" and "D v = Inr (DFin b)" and "like_truthy v" and "gross_exposure e = DFin g"
    and "g \<le> b"
  shows "portfolio_state e l = Inr LIMIT_BREACHED \<longleftrightarrow> g = b"
  using assms by (auto simp: portfolio_state_def limit_hit_def exn_simps split: if_splits)

text \<open>
  An approved order can still put the portfolio in the breached state, in one case only: the
  projected gross exposure equals the limit (approval tests \<open><=\<close>, the state tests \<open>>=\<close>).
\<close>

theorem portfolio_state_boundary:
  assumes "rd_result (portfolio_evaluate p) = APPROVED"
    and "pl_gross (pi_limits p) = Some v" and "D v = Inr (DFin b)" and "like_truthy v"
    and "gross_exposure (pi_exposure p) = DFin g" and "D (pi_notional p) = Inr (DFin n)"
    and "gross_exposure e = DFin (drnd (g + drnd \<bar>n\<bar>))"
  shows "portfolio_state e (pi_limits p) = Inr LIMIT_BREACHED \<longleftrightarrow> drnd (g + drnd \<bar>n\<bar>) = b"
proof (rule limit_breached_iff [OF assms(2-4,7)])
  have "portfolio_ok p"
    using assms(1) unfolding portfolio_evaluate_def conclude_approved passes_def [symmetric] portfolio_passes .
  then show "drnd (g + drnd \<bar>n\<bar>) \<le> b"
    using assms(2,3,5,6) by (auto simp: portfolio_ok_def projected_def within_limit_def exn_simps)
qed

definition empty_portfolio :: "portfolio_exposure" where
  "empty_portfolio = \<lparr>gross_exposure = DFin 400, net_exposure = DFin 0, margin_utilization_pct = DFin 10,
     portfolio_delta = DFin 0, portfolio_gamma = DFin 0, portfolio_theta = DFin 0,
     portfolio_vega = DFin 0, by_underlying = [], by_strategy = [], by_expiry = []\<rparr>"

definition gross_only :: "portfolio_limits" where
  "gross_only = \<lparr>pl_gross = Some (IntV 1000), pl_net = None, pl_margin_pct = None,
     pl_underlying_pct = None, pl_strategy_pct = None, pl_expiry_pct = None, pl_delta = None,
     pl_gamma = None, pl_vega = None, pl_var = None, pl_stress = None, pl_correlation_low = False\<rparr>"

definition at_limit :: "portfolio_input" where
  "at_limit = \<lparr>pi_exposure = empty_portfolio, pi_notional = IntV 600, pi_margin = IntV 0,
     pi_greeks = None, pi_underlying = None, pi_strategy = None, pi_expiry = None,
     pi_limits = gross_only, pi_current_var = None, pi_incremental_var = None, pi_stress_loss = None,
     pi_available_margin = None, pi_total_required_margin = None\<rparr>"

theorem portfolio_state_boundary_witness:
  "rd_result (portfolio_evaluate at_limit) = APPROVED
   \<and> portfolio_state (empty_portfolio\<lparr>gross_exposure := DFin 1000\<rparr>) gross_only = Inr LIMIT_BREACHED"
proof -
  note defs = at_limit_def gross_only_def empty_portfolio_def
  have ok: "rd_result (portfolio_evaluate at_limit) = APPROVED"
    by (simp add: portfolio_evaluate_def projected_def exposure_steps_def defs bind_step_def opt_step_def
        chk_step_def skip_step_def conclude_def margin_util_step_def concentration_step_def
        portfolio_greeks_step_def var_step_def stress_step_def correlation_step_def Let_def)
  show ?thesis
    using portfolio_state_boundary [OF ok, of "IntV 1000" 1000 400 600
        "empty_portfolio\<lparr>gross_exposure := DFin 1000\<rparr>"] ok
    by (simp add: defs like_truthy_def)
qed

text \<open>
  The spread figure a caller supplies is never compared with the spread limit when one side
  of the quote is missing: the decision is the same whatever the figure.
\<close>

theorem spread_pct_unchecked:
  "trade_evaluate (i\<lparr>oi_bid := None, oi_spread_pct := s\<rparr>) l = trade_evaluate (i\<lparr>oi_bid := None\<rparr>) l
   \<and> trade_evaluate (i\<lparr>oi_ask := None, oi_spread_pct := s\<rparr>) l = trade_evaluate (i\<lparr>oi_ask := None\<rparr>) l"
proof -
  have skip: "opt_step x (\<lambda>v. opt_step None (f v)) = skip_step" for x :: "'x option" and f :: "'x \<Rightarrow> 'y \<Rightarrow> step"
    by (cases x) (simp_all add: opt_step_def)
  note defs = trade_steps_def health_steps_def capital_step_def capital_need_def margin_step_def
    position_step_def daily_loss_step_def slippage_step_def greeks_step_def quote_step_def skip
  have "trade_steps (i\<lparr>oi_bid := None, oi_spread_pct := s\<rparr>) l = trade_steps (i\<lparr>oi_bid := None\<rparr>) l"
    by (simp add: defs) (simp add: opt_step_def)
  moreover have "trade_steps (i\<lparr>oi_ask := None, oi_spread_pct := s\<rparr>) l = trade_steps (i\<lparr>oi_ask := None\<rparr>) l"
    by (simp add: defs)
  ultimately show ?thesis by (simp only: trade_evaluate_def simp_thms)
qed

end
