(* ===== verification/Droid_Orders.thy ===== *)
theory Droid_Orders
  imports Droid_Risk
begin

text \<open>
  \<open>backend/app/algo/execution.py\<close>: order records, broker adapters, the pre-submission
  recheck and the order manager.

  The manager's dictionary holds references to mutable records, and one record is stored under
  two keys (\<open>"account:cid"\<close> and the bare \<open>cid\<close>), so the state is a heap of records and
  an index from keys to heap positions. A broker call is a function of the record or broker id; its
  answer is a payload, a timeout of \<open>wait_for\<close> or an exception. A handler that catches an
  exception keeps the attribute writes made before it. Timestamps, logging and the interleaving of
  coroutines at the single \<open>await\<close> of each handler are not modelled.
\<close>

subsection \<open>Statuses and the transition table\<close>

datatype order_status =
    CREATED | RISK_APPROVED | SUBMITTED | ACKNOWLEDGED | PARTIALLY_FILLED | FILLED
  | O_REJECTED | CANCELLED | TIMED_OUT | UNKNOWN | RECONCILING | CANCEL_PENDING
  | EXIT_TRIGGERED | EXIT_SUBMITTED | EXIT_PARTIALLY_FILLED | EXIT_FILLED
  | EXIT_REJECTED | EXIT_BLOCKED_BY_CIRCUIT | EXIT_NETWORK_UNKNOWN | EXIT_RETRYING
  | ORPHANED_ALERT | CLOSED

fun ALLOWED_TRANSITIONS :: "order_status \<Rightarrow> order_status list" where
  "ALLOWED_TRANSITIONS CREATED = [RISK_APPROVED, O_REJECTED, CANCELLED]"
| "ALLOWED_TRANSITIONS RISK_APPROVED = [SUBMITTED, O_REJECTED, CANCELLED]"
| "ALLOWED_TRANSITIONS SUBMITTED =
     [ACKNOWLEDGED, PARTIALLY_FILLED, FILLED, O_REJECTED, TIMED_OUT, UNKNOWN, CANCEL_PENDING]"
| "ALLOWED_TRANSITIONS ACKNOWLEDGED = [PARTIALLY_FILLED, FILLED, O_REJECTED, CANCEL_PENDING, TIMED_OUT]"
| "ALLOWED_TRANSITIONS PARTIALLY_FILLED = [FILLED, CANCEL_PENDING, TIMED_OUT, UNKNOWN, RECONCILING]"
| "ALLOWED_TRANSITIONS FILLED = [CLOSED, RECONCILING]"
| "ALLOWED_TRANSITIONS O_REJECTED = [CLOSED, RECONCILING]"
| "ALLOWED_TRANSITIONS CANCELLED = [CLOSED, RECONCILING]"
| "ALLOWED_TRANSITIONS TIMED_OUT = [RECONCILING, CANCEL_PENDING, CLOSED, UNKNOWN]"
| "ALLOWED_TRANSITIONS UNKNOWN = [RECONCILING, CLOSED]"
| "ALLOWED_TRANSITIONS RECONCILING = [FILLED, O_REJECTED, CANCELLED, UNKNOWN, CLOSED, PARTIALLY_FILLED]"
| "ALLOWED_TRANSITIONS CANCEL_PENDING = [CANCELLED, RECONCILING, TIMED_OUT, FILLED, PARTIALLY_FILLED]"
| "ALLOWED_TRANSITIONS EXIT_TRIGGERED = [EXIT_SUBMITTED, EXIT_REJECTED]"
| "ALLOWED_TRANSITIONS EXIT_SUBMITTED =
     [EXIT_FILLED, EXIT_PARTIALLY_FILLED, EXIT_REJECTED, EXIT_BLOCKED_BY_CIRCUIT, EXIT_NETWORK_UNKNOWN, TIMED_OUT]"
| "ALLOWED_TRANSITIONS EXIT_PARTIALLY_FILLED = [EXIT_FILLED, EXIT_RETRYING, ORPHANED_ALERT]"
| "ALLOWED_TRANSITIONS EXIT_FILLED = [CLOSED]"
| "ALLOWED_TRANSITIONS EXIT_REJECTED = [EXIT_RETRYING, RECONCILING, ORPHANED_ALERT]"
| "ALLOWED_TRANSITIONS EXIT_BLOCKED_BY_CIRCUIT = [EXIT_RETRYING, RECONCILING, ORPHANED_ALERT]"
| "ALLOWED_TRANSITIONS EXIT_NETWORK_UNKNOWN = [RECONCILING, EXIT_RETRYING, ORPHANED_ALERT]"
| "ALLOWED_TRANSITIONS EXIT_RETRYING = [EXIT_SUBMITTED, ORPHANED_ALERT, RECONCILING]"
| "ALLOWED_TRANSITIONS ORPHANED_ALERT = [EXIT_RETRYING, RECONCILING, CLOSED]"
| "ALLOWED_TRANSITIONS CLOSED = []"

interpretation order_table: transition_table ALLOWED_TRANSITIONS "\<lambda>s. s = CLOSED"
  by unfold_locales simp

type_synonym uuid = nat

record order_record =
  o_account :: string
  o_client_id :: uuid
  o_symbol :: string
  o_side :: string
  o_quantity :: int
  o_price :: "dval option"
  o_order_type :: string
  o_status :: order_status
  o_broker_id :: "string option"
  o_instrument :: "string option"
  o_spread_id :: "uuid option"
  o_expected_price :: "dval option"
  o_fill_price :: "dval option"
  o_fill_quantity :: int
  o_slippage :: "dval option"
  o_is_paper :: bool
  o_attempts :: nat
  o_original_id :: "uuid option"

subsection \<open>Broker adapters\<close>

text \<open>The keys of an answer the manager reads; \<open>None\<close> is an absent key.\<close>

record broker_reply =
  r_broker_id :: "string option"
  r_status :: "string option"
  r_fill_price :: "declike option"
  r_fill_quantity :: "declike option"

datatype broker_answer = Answer broker_reply | WaitTimeout | AdapterError

record broker_adapter =
  ba_name :: string
  ba_submit :: "order_record \<Rightarrow> broker_answer"
  ba_query :: "string \<Rightarrow> broker_answer"
  ba_cancel :: "string \<Rightarrow> broker_answer"

definition status_only :: "string \<Rightarrow> broker_reply" where
  "status_only s = \<lparr>r_broker_id = None, r_status = Some s, r_fill_price = None, r_fill_quantity = None\<rparr>"

text \<open>\<open>str\<close> of a decimal with exponent \<open>-2\<close>, given by its coefficient.\<close>

definition digit_char :: "nat \<Rightarrow> char" where
  "digit_char n = char_of (48 + n)"

fun nat_str :: "nat \<Rightarrow> string" where
  "nat_str n = (if n < 10 then [digit_char n] else nat_str (n div 10) @ [digit_char (n mod 10)])"

declare nat_str.simps [simp del]

definition price_str :: "dval \<Rightarrow> string" where
  "price_str p = (case p of
     DFin x \<Rightarrow> (let c = \<lfloor>x * 100\<rfloor>; n = nat \<bar>c\<bar> in
        (if c < 0 then ''-'' else []) @ nat_str (n div 100) @ ''.''
          @ [digit_char (n div 10 mod 10), digit_char (n mod 10)])
   | DInf s \<Rightarrow> (if s then ''-Infinity'' else ''Infinity'')
   | DNaN \<Rightarrow> ''NaN'')"

text \<open>
  The paper simulator. Its random draws are arguments: the slippage draw (a float), whether the
  partial-fill draw falls below the probability, and the generated broker id.
\<close>

record paper_order =
  po_status :: string
  po_fill_price :: string
  po_fill_quantity :: int
  po_client_id :: uuid

type_synonym paper_state = "(string, paper_order) dict"

record paper_draw =
  pd_slip :: dval
  pd_partial :: bool
  pd_broker_id :: string

definition price_or_100 :: "dval option \<Rightarrow> declike" where
  "price_or_100 p = (case p of None \<Rightarrow> IntV 100 | Some d \<Rightarrow> if deq d (DFin 0) then IntV 100 else DecV d)"

definition paper_fill_price :: "paper_draw \<Rightarrow> order_record \<Rightarrow> dval result" where
  "paper_fill_price d r =
     ebind (D (price_or_100 (o_price r))) (\<lambda>base.
     ebind (dmul (pd_slip d) base) (\<lambda>slip.
     ebind (dadd base slip) (\<lambda>s. dquantize ROUND_HALF_EVEN s (-2))))"

definition paper_submit ::
  "paper_draw \<Rightarrow> paper_state \<Rightarrow> order_record \<Rightarrow> paper_state \<times> broker_answer" where
  "paper_submit d st r = (case paper_fill_price d r of
     Inl e \<Rightarrow> (st, AdapterError)
   | Inr p \<Rightarrow>
       (let is_partial = pd_partial d \<and> 1 < o_quantity r;
            qty = (if is_partial then o_quantity r div 2 else o_quantity r);
            status = (if is_partial then ''PARTIALLY_FILLED'' else ''FILLED'')
        in (AList.update (pd_broker_id d)
              \<lparr>po_status = status, po_fill_price = price_str p, po_fill_quantity = qty,
               po_client_id = o_client_id r\<rparr> st,
            Answer \<lparr>r_broker_id = Some (pd_broker_id d), r_status = Some status,
                    r_fill_price = Some (DecV p), r_fill_quantity = Some (IntV qty)\<rparr>)))"

definition paper_query :: "paper_state \<Rightarrow> string \<Rightarrow> broker_answer" where
  "paper_query st bid = Answer (case map_of st bid of
     Some o' \<Rightarrow> \<lparr>r_broker_id = Some bid, r_status = Some (po_status o'),
               r_fill_price = Some (StrV (po_fill_price o')),
               r_fill_quantity = Some (IntV (po_fill_quantity o'))\<rparr>
   | None \<Rightarrow> (status_only ''UNKNOWN'')\<lparr>r_broker_id := Some bid\<rparr>)"

definition paper_cancel :: "paper_state \<Rightarrow> string \<Rightarrow> paper_state \<times> broker_answer" where
  "paper_cancel st bid = (case map_of st bid of
     None \<Rightarrow> (st, Answer (status_only ''REJECTED''))
   | Some o' \<Rightarrow>
       if po_status o' \<in> {''FILLED'', ''PARTIALLY_FILLED''}
       then (st, Answer ((status_only (po_status o'))\<lparr>r_fill_price := Some (StrV (po_fill_price o'))\<rparr>))
       else (AList.update bid (o'\<lparr>po_status := ''CANCELLED''\<rparr>) st, Answer (status_only ''CANCELLED'')))"

definition paper_adapter :: "paper_draw \<Rightarrow> paper_state \<Rightarrow> broker_adapter" where
  "paper_adapter d st = \<lparr>ba_name = ''PAPER_SIMULATOR'', ba_submit = (\<lambda>r. snd (paper_submit d st r)),
     ba_query = paper_query st, ba_cancel = (\<lambda>b. snd (paper_cancel st b))\<rparr>"

text \<open>
  The Fyers adapter. The HTTP exchange is a function of the request payload; a 200 answer
  carries \<open>s == "ok"\<close> and the order id, if the JSON has one.
\<close>

record fyers_payload =
  fp_symbol :: string
  fp_qty :: int
  fp_type :: int
  fp_side :: int
  fp_limit_price :: "dval option"

datatype http_outcome = HttpOk bool "string option" | HttpOther | HttpError

definition nonzero_price :: "dval option \<Rightarrow> dval option" where
  "nonzero_price p = (case p of None \<Rightarrow> None | Some d \<Rightarrow> if deq d (DFin 0) then None else Some d)"

definition fyers_payload_of :: "order_record \<Rightarrow> fyers_payload result" where
  "fyers_payload_of r =
     ebind (case nonzero_price (o_price r) of None \<Rightarrow> Inr False | Some p \<Rightarrow> dlt (DFin 0) p) (\<lambda>limit.
     Inr \<lparr>fp_symbol = o_symbol r, fp_qty = o_quantity r, fp_type = (if limit then 1 else 2),
          fp_side = (if map to_upper (o_side r) \<in> {''BUY'', ''LONG''} then 1 else - 1),
          fp_limit_price = nonzero_price (o_price r)\<rparr>)"

definition fyers_submit ::
  "string \<Rightarrow> string \<Rightarrow> (fyers_payload \<Rightarrow> http_outcome) \<Rightarrow> string \<Rightarrow> order_record \<Rightarrow> broker_answer" where
  "fyers_submit app_id token http fresh r =
     Answer (if app_id = [] \<or> token = [] \<or> token = ''mock-demo-token'' then status_only ''REJECTED''
       else (case fyers_payload_of r of
          Inl e \<Rightarrow> status_only ''REJECTED''
        | Inr p \<Rightarrow> (case http p of
             HttpOk True fid \<Rightarrow>
               \<lparr>r_broker_id = Some (case fid of Some i \<Rightarrow> if i = [] then fresh else i | None \<Rightarrow> fresh),
                r_status = Some ''SUBMITTED'',
                r_fill_price = Some (case nonzero_price (o_price r) of Some d \<Rightarrow> DecV d | None \<Rightarrow> DecV (DFin 0)),
                r_fill_quantity = Some (IntV (o_quantity r))\<rparr>
           | _ \<Rightarrow> status_only ''REJECTED'')))"

definition fyers_query :: "string \<Rightarrow> broker_answer" where
  "fyers_query bid = Answer ((status_only ''UNKNOWN'')\<lparr>r_broker_id := Some bid\<rparr>)"

definition fyers_cancel :: "string \<Rightarrow> broker_answer" where
  "fyers_cancel bid = Answer ((status_only ''CANCELLED'')\<lparr>r_broker_id := Some bid\<rparr>)"

definition fyers_adapter ::
  "string \<Rightarrow> string \<Rightarrow> (fyers_payload \<Rightarrow> http_outcome) \<Rightarrow> string \<Rightarrow> broker_adapter" where
  "fyers_adapter app_id token http fresh = \<lparr>ba_name = ''fyers'',
     ba_submit = fyers_submit app_id token http fresh, ba_query = fyers_query, ba_cancel = fyers_cancel\<rparr>"

record broker_registry =
  br_adapters :: "(string, broker_adapter) dict"
  br_paper :: broker_adapter

definition registry_register :: "broker_adapter \<Rightarrow> broker_registry \<Rightarrow> broker_registry" where
  "registry_register a g = g\<lparr>br_adapters := AList.update (ba_name a) a (br_adapters g)\<rparr>"

definition registry_init :: "broker_adapter \<Rightarrow> broker_adapter \<Rightarrow> broker_registry" where
  "registry_init paper live = registry_register live \<lparr>br_adapters = [], br_paper = paper\<rparr>"

definition registry_get :: "broker_registry \<Rightarrow> string option \<Rightarrow> bool \<Rightarrow> broker_adapter" where
  "registry_get g provider paper = (case provider of
     None \<Rightarrow> br_paper g
   | Some p \<Rightarrow> if paper \<or> p = [] then br_paper g else or_else (map_of (br_adapters g) p) (br_paper g))"

definition registry_is_healthy :: "broker_registry \<Rightarrow> string \<Rightarrow> bool" where
  "registry_is_healthy g p \<longleftrightarrow> map_of (br_adapters g) p \<noteq> None"

subsection \<open>Recheck immediately before submission\<close>

record exec_snapshot =
  sn_allow_closed :: bool
  sn_data_health :: "string option"
  sn_broker_health :: "string option"
  sn_tradable :: bool
  sn_has_circuit :: bool
  sn_price :: "declike option"
  sn_max_dev :: "declike option"
  sn_max_spread :: "declike option"
  sn_spread :: "declike option"
  sn_capital :: "declike option"
  sn_margin :: "declike option"
  sn_portfolio_blocked :: bool

type_synonym named_checks = "(string \<times> bool) list"

definition deviation_pct :: "dval \<Rightarrow> dval \<Rightarrow> dval result" where
  "deviation_pct cur expected = ebind (dsub cur expected) (\<lambda>d. ebind (ddiv (dabs d) expected) (\<lambda>r.
     dmul r (DFin 100)))"

definition deviation_check :: "dval option \<Rightarrow> exec_snapshot \<Rightarrow> named_checks result" where
  "deviation_check price sn = (case (sn_price sn, price) of
     (Some cur, Some e) \<Rightarrow> if deq e (DFin 0) then Inr []
       else ebind (D cur) (\<lambda>c. ebind (deviation_pct c e) (\<lambda>dev.
            ebind (D (or_else (sn_max_dev sn) (IntV 1))) (\<lambda>m. ebind (dle dev m) (\<lambda>ok.
            Inr [(''price_deviation'', ok)]))))
   | _ \<Rightarrow> Inr [])"

definition opt_le_check :: "string \<Rightarrow> declike option \<Rightarrow> declike option \<Rightarrow> named_checks result" where
  "opt_le_check name x y = (case (x, y) of
     (Some a, Some b) \<Rightarrow> ebind (le_like a b) (\<lambda>ok. Inr [(name, ok)]) | _ \<Rightarrow> Inr [])"

definition recheck_list :: "bool \<Rightarrow> dval option \<Rightarrow> exec_snapshot \<Rightarrow> named_checks result" where
  "recheck_list can_trade price sn =
     ebind (case price of None \<Rightarrow> Inr True | Some p \<Rightarrow> dlt (DFin 0) p) (\<lambda>pos.
     ebind (deviation_check price sn) (\<lambda>dev.
     ebind (opt_le_check ''spread'' (sn_spread sn) (sn_max_spread sn)) (\<lambda>spread.
     ebind (opt_le_check ''capital'' (sn_margin sn) (sn_capital sn)) (\<lambda>capital.
     Inr ([(''market_hours'', sn_allow_closed sn \<or> can_trade), (''price_positive'', pos),
           (''data_health'', sn_data_health sn \<noteq> Some ''STALE''),
           (''broker_health'', sn_broker_health sn \<notin> {Some ''CRITICAL'', Some ''DISCONNECTED''}),
           (''instrument'', sn_tradable sn), (''circuit'', \<not> sn_has_circuit sn)]
          @ dev @ spread @ capital
          @ (if sn_portfolio_blocked sn then [(''portfolio_risk'', False)] else []))))))"

text \<open>The first failed check, by name, or success.\<close>

definition recheck :: "bool \<Rightarrow> dval option \<Rightarrow> exec_snapshot \<Rightarrow> (bool \<times> string option) result" where
  "recheck can_trade price sn = ebind (recheck_list can_trade price sn) (\<lambda>cs. Inr
     (case find (\<lambda>c. \<not> snd c) cs of None \<Rightarrow> (True, None) | Some c \<Rightarrow> (False, Some (fst c))))"

subsection \<open>The order manager\<close>

text \<open>The two spellings of a dictionary key; a UUID's text has no colon, so they never coincide.\<close>

datatype order_key = AcctKey string uuid | CidKey uuid

record order_manager =
  om_heap :: "order_record list"
  om_index :: "(order_key, nat) dict"
  om_max :: nat

definition om_init :: order_manager where
  "om_init = \<lparr>om_heap = [], om_index = [], om_max = 10000\<rparr>"

definition is_terminal :: "order_status \<Rightarrow> bool" where
  "is_terminal s \<longleftrightarrow> s \<in> {CLOSED, O_REJECTED, CANCELLED}"

definition terminal_keys :: "order_manager \<Rightarrow> order_key list" where
  "terminal_keys om = map fst (filter (\<lambda>(k, r). is_terminal (o_status (om_heap om ! r))) (om_index om))"

definition prune :: "order_manager \<Rightarrow> order_manager" where
  "prune om = (if om_max om \<le> length (om_index om)
     then om\<lparr>om_index := filter (\<lambda>(k, r). k \<notin> set (take 1000 (terminal_keys om))) (om_index om)\<rparr>
     else om)"

record order_request =
  rq_account :: string
  rq_symbol :: string
  rq_side :: string
  rq_quantity :: int
  rq_price :: "declike option"
  rq_order_type :: string
  rq_instrument :: "string option"
  rq_spread_id :: "uuid option"
  rq_expected :: "declike option"
  rq_is_paper :: bool
  rq_client_id :: "uuid option"

definition opt_D :: "declike option \<Rightarrow> dval option result" where
  "opt_D v = (case v of None \<Rightarrow> Inr None | Some x \<Rightarrow> ebind (D x) (\<lambda>d. Inr (Some d)))"

definition new_record :: "order_request \<Rightarrow> uuid \<Rightarrow> order_record result" where
  "new_record q cid =
     ebind (opt_D (rq_price q)) (\<lambda>p.
     ebind (if rq_expected q \<noteq> None then opt_D (rq_expected q) else Inr p) (\<lambda>e.
     Inr \<lparr>o_account = rq_account q, o_client_id = cid, o_symbol = rq_symbol q, o_side = rq_side q,
          o_quantity = rq_quantity q, o_price = p, o_order_type = rq_order_type q, o_status = CREATED,
          o_broker_id = None, o_instrument = rq_instrument q, o_spread_id = rq_spread_id q,
          o_expected_price = e, o_fill_price = None, o_fill_quantity = 0, o_slippage = None,
          o_is_paper = rq_is_paper q, o_attempts = 0, o_original_id = Some cid\<rparr>))"

text \<open>\<open>create_intent\<close>; the result is the reference of the returned record.\<close>

definition create_intent :: "order_manager \<Rightarrow> order_request \<Rightarrow> uuid \<Rightarrow> order_manager \<times> nat result" where
  "create_intent om0 q fresh =
     (let om = prune om0; cid = or_else (rq_client_id q) fresh; key = AcctKey (rq_account q) cid
      in case (case map_of (om_index om) key of Some r \<Rightarrow> Some r | None \<Rightarrow> map_of (om_index om) (CidKey cid)) of
           Some r \<Rightarrow> ((if map_of (om_index om) key = None
                        then om\<lparr>om_index := AList.update key r (om_index om)\<rparr> else om), Inr r)
         | None \<Rightarrow> (case new_record q cid of
             Inl e \<Rightarrow> (om, Inl e)
           | Inr rec \<Rightarrow> (let r = length (om_heap om) in
               (om\<lparr>om_heap := om_heap om @ [rec],
                   om_index := AList.update (CidKey cid) r (AList.update key r (om_index om))\<rparr>, Inr r))))"

definition get_order :: "order_manager \<Rightarrow> uuid \<Rightarrow> string option \<Rightarrow> nat option" where
  "get_order om cid account = (case account of
     Some a \<Rightarrow> (case map_of (om_index om) (AcctKey a cid) of
        Some r \<Rightarrow> Some r | None \<Rightarrow> map_of (om_index om) (CidKey cid))
   | None \<Rightarrow> map_of (om_index om) (CidKey cid))"

definition lookup_order :: "order_manager \<Rightarrow> uuid \<Rightarrow> nat option" where
  "lookup_order om cid = (case map_of (om_index om) (CidKey cid) of
     Some r \<Rightarrow> Some r
   | None \<Rightarrow> map_option snd (find (\<lambda>(k, r). o_client_id (om_heap om ! r) = cid) (om_index om)))"

record order_metadata =
  md_broker_id :: "string option option"
  md_fill_price :: "declike option"
  md_fill_quantity :: "declike option"
  md_slippage :: "declike option"

text \<open>Attribute writes in order; an exception keeps the writes made so far.\<close>

definition set_attr ::
  "'a result option \<Rightarrow> ('a \<Rightarrow> order_record \<Rightarrow> order_record) \<Rightarrow> order_record \<times> exn option
   \<Rightarrow> order_record \<times> exn option" where
  "set_attr v upd st = (case st of
     (r, Some e) \<Rightarrow> (r, Some e)
   | (r, None) \<Rightarrow> (case v of None \<Rightarrow> (r, None) | Some (Inl e) \<Rightarrow> (r, Some e)
                 | Some (Inr x) \<Rightarrow> (upd x r, None)))"

definition apply_metadata :: "order_metadata \<Rightarrow> order_record \<Rightarrow> order_record \<times> exn option" where
  "apply_metadata m r =
     set_attr (map_option D (md_slippage m)) (\<lambda>v r. r\<lparr>o_slippage := Some v\<rparr>)
     (set_attr (map_option py_int (md_fill_quantity m)) (\<lambda>v r. r\<lparr>o_fill_quantity := v\<rparr>)
     (set_attr (map_option D (md_fill_price m)) (\<lambda>v r. r\<lparr>o_fill_price := Some v\<rparr>)
     (set_attr (map_option Inr (md_broker_id m)) (\<lambda>v r. r\<lparr>o_broker_id := v\<rparr>) (r, None))))"

text \<open>\<open>transition\<close> on one record, then on the manager.\<close>

definition transition_rec ::
  "order_record \<Rightarrow> order_status \<Rightarrow> order_metadata \<Rightarrow> order_record \<times> exn option" where
  "transition_rec r t m =
     (if o_status r = t then (r, None)
      else if t \<notin> set (ALLOWED_TRANSITIONS (o_status r)) then (r, Some ValueError)
      else apply_metadata m (r\<lparr>o_status := t\<rparr>))"

definition put_rec :: "nat \<Rightarrow> order_record \<Rightarrow> order_manager \<Rightarrow> order_manager" where
  "put_rec r x om = om\<lparr>om_heap := (om_heap om)[r := x]\<rparr>"

definition transition ::
  "order_manager \<Rightarrow> uuid \<Rightarrow> order_status \<Rightarrow> order_metadata \<Rightarrow> order_manager \<times> nat result" where
  "transition om cid t m = (case lookup_order om cid of
     None \<Rightarrow> (om, Inl ValueError)
   | Some r \<Rightarrow> (case transition_rec (om_heap om ! r) t m of
        (x, e) \<Rightarrow> (put_rec r x om, case e of None \<Rightarrow> Inr r | Some ex \<Rightarrow> Inl ex)))"

definition internal_status :: "string \<Rightarrow> order_status" where
  "internal_status s = (if s = ''FILLED'' then FILLED else if s = ''PARTIALLY_FILLED'' then PARTIALLY_FILLED
     else if s = ''REJECTED'' then O_REJECTED else ACKNOWLEDGED)"

text \<open>The end of a handler: the status it writes if no exception came, or the one its \<open>except\<close>
  clause writes.\<close>

definition settle :: "order_record \<times> exn option \<Rightarrow> order_status \<Rightarrow> order_status \<Rightarrow> order_record" where
  "settle st ok failed = (fst st)\<lparr>o_status := (if snd st = None then ok else failed)\<rparr>"

text \<open>The success path of \<open>submit\<close>.\<close>

definition answer_writes :: "broker_reply \<Rightarrow> order_record \<Rightarrow> order_record \<times> exn option" where
  "answer_writes a r =
     set_attr (Some (py_int (or_else (r_fill_quantity a) (IntV (o_quantity r)))))
        (\<lambda>v r. r\<lparr>o_fill_quantity := v\<rparr>)
     (set_attr (Some (opt_D (r_fill_price a))) (\<lambda>v r. r\<lparr>o_fill_price := v\<rparr>)
     (set_attr (case (r_fill_price a, o_expected_price r) of
           (Some fp, Some e) \<Rightarrow> Some (ebind (D fp) (\<lambda>p. dsub p e)) | _ \<Rightarrow> None)
        (\<lambda>v r. r\<lparr>o_slippage := Some v\<rparr>)
     (r\<lparr>o_broker_id := r_broker_id a\<rparr>, None)))"

definition record_answer :: "broker_reply \<Rightarrow> order_record \<Rightarrow> order_record" where
  "record_answer a r =
     settle (answer_writes a r) (internal_status (or_else (r_status a) ''ACKNOWLEDGED'')) UNKNOWN"

definition submit :: "broker_registry \<Rightarrow> order_record \<Rightarrow> order_record result" where
  "submit g r = (if o_status r \<notin> {CREATED, RISK_APPROVED} then Inl ValueError
     else (let r1 = r\<lparr>o_status := SUBMITTED, o_attempts := Suc (o_attempts r)\<rparr> in
       Inr (case ba_submit (registry_get g None (o_is_paper r1)) r1 of
          Answer a \<Rightarrow> record_answer a r1
        | WaitTimeout \<Rightarrow> r1\<lparr>o_status := TIMED_OUT\<rparr>
        | AdapterError \<Rightarrow> r1\<lparr>o_status := UNKNOWN\<rparr>)))"

definition str_truthy :: "string option \<Rightarrow> bool" where
  "str_truthy s \<longleftrightarrow> s \<noteq> None \<and> s \<noteq> Some []"

text \<open>\<open>rec.fill_price = D(x) if x else rec.fill_price\<close>, then \<open>rec.fill_quantity = int(...)\<close>.\<close>

definition take_fill :: "broker_reply \<Rightarrow> order_record \<Rightarrow> order_record \<times> exn option" where
  "take_fill a r =
     set_attr (Some (py_int (or_else (r_fill_quantity a) (IntV (o_fill_quantity r)))))
        (\<lambda>v r. r\<lparr>o_fill_quantity := v\<rparr>)
     (set_attr (case r_fill_price a of Some v \<Rightarrow> if like_truthy v then Some (D v) else None | None \<Rightarrow> None)
        (\<lambda>v r. r\<lparr>o_fill_price := Some v\<rparr>) (r, None))"

definition needs_reconcile :: "order_status \<Rightarrow> bool" where
  "needs_reconcile s \<longleftrightarrow> s \<in> {TIMED_OUT, UNKNOWN, RECONCILING}"

definition reconcile :: "broker_registry \<Rightarrow> order_record \<Rightarrow> order_record" where
  "reconcile g r = (if \<not> needs_reconcile (o_status r) then r
     else if \<not> str_truthy (o_broker_id r) then r\<lparr>o_status := UNKNOWN\<rparr>
     else (let r1 = r\<lparr>o_status := RECONCILING\<rparr> in
       case ba_query (registry_get g None (o_is_paper r)) (the (o_broker_id r)) of
         Answer a \<Rightarrow> (let s = or_else (r_status a) ''UNKNOWN'' in
            if s = ''FILLED'' then settle (take_fill a r1) FILLED UNKNOWN
            else if s = ''PARTIALLY_FILLED'' then r1\<lparr>o_status := PARTIALLY_FILLED\<rparr>
            else if s = ''REJECTED'' then r1\<lparr>o_status := O_REJECTED\<rparr>
            else if s = ''CANCELLED'' then r1\<lparr>o_status := CANCELLED\<rparr>
            else r1\<lparr>o_status := UNKNOWN\<rparr>)
       | _ \<Rightarrow> r1\<lparr>o_status := UNKNOWN\<rparr>))"

definition cancel :: "broker_registry \<Rightarrow> order_record \<Rightarrow> order_record" where
  "cancel g r = (if \<not> str_truthy (o_broker_id r) then r\<lparr>o_status := CANCELLED\<rparr>
     else (let r1 = r\<lparr>o_status := CANCEL_PENDING\<rparr> in
       case ba_cancel (registry_get g None (o_is_paper r)) (the (o_broker_id r)) of
         Answer a \<Rightarrow>
            if r_status a \<in> {Some ''FILLED'', Some ''PARTIALLY_FILLED''}
            then settle (take_fill a r1) (internal_status (the (r_status a))) RECONCILING
            else if r_status a = Some ''CANCELLED'' then r1\<lparr>o_status := CANCELLED\<rparr>
            else r1\<lparr>o_status := RECONCILING\<rparr>
       | _ \<Rightarrow> r1\<lparr>o_status := RECONCILING\<rparr>))"

definition list_for_account :: "order_manager \<Rightarrow> string \<Rightarrow> order_record list" where
  "list_for_account om a =
     filter (\<lambda>r. o_account r = a) (map (\<lambda>(k, r). om_heap om ! r) (om_index om))"

subsection \<open>Runs of the manager\<close>

inductive om_step :: "order_manager \<Rightarrow> order_manager \<Rightarrow> bool" where
  om_create: "om_step om (fst (create_intent om q fresh))"
| om_transition: "om_step om (fst (transition om cid t m))"
| om_submit: "r < length (om_heap om) \<Longrightarrow> submit g (om_heap om ! r) = Inr x \<Longrightarrow> om_step om (put_rec r x om)"
| om_reconcile: "r < length (om_heap om) \<Longrightarrow> om_step om (put_rec r (reconcile g (om_heap om ! r)) om)"
| om_cancel: "r < length (om_heap om) \<Longrightarrow> om_step om (put_rec r (cancel g (om_heap om ! r)) om)"

inductive_cases om_stepE: "om_step om om'"

definition om_reach :: "order_manager \<Rightarrow> bool" where
  "om_reach om \<longleftrightarrow> om_step\<^sup>*\<^sup>* om_init om"

text \<open>Submitted at most once, and never again submittable once submitted.\<close>

definition once_ok :: "order_record \<Rightarrow> bool" where
  "once_ok x \<longleftrightarrow> o_attempts x \<le> 1 \<and> (o_attempts x \<noteq> 0 \<longrightarrow> o_status x \<notin> {CREATED, RISK_APPROVED})"

lemma set_attr_keeps:
  assumes "P (fst st)" and "\<And>v r. P r \<Longrightarrow> P (upd v r)"
  shows "P (fst (set_attr v upd st))"
  using assms by (auto simp: set_attr_def split: prod.splits option.splits sum.splits)

lemma once_ok_upd [simp]:
  "once_ok (x\<lparr>o_broker_id := b\<rparr>) \<longleftrightarrow> once_ok x" "once_ok (x\<lparr>o_fill_price := p\<rparr>) \<longleftrightarrow> once_ok x"
  "once_ok (x\<lparr>o_fill_quantity := q\<rparr>) \<longleftrightarrow> once_ok x" "once_ok (x\<lparr>o_slippage := s\<rparr>) \<longleftrightarrow> once_ok x"
  by (auto simp: once_ok_def)

lemmas set_attr_once = set_attr_keeps [where P = once_ok]

lemma apply_metadata_once: "once_ok r \<Longrightarrow> once_ok (fst (apply_metadata m r))"
  unfolding apply_metadata_def by (intro set_attr_once) simp_all

lemma take_fill_once: "once_ok r \<Longrightarrow> once_ok (fst (take_fill a r))"
  unfolding take_fill_def by (intro set_attr_once) simp_all

lemma not_fresh_status:
  "RISK_APPROVED \<in> set (ALLOWED_TRANSITIONS s) \<Longrightarrow> s = CREATED"
  "CREATED \<notin> set (ALLOWED_TRANSITIONS s)"
  by (cases s; simp)+

lemma once_ok_status: "once_ok x \<Longrightarrow> s \<notin> {CREATED, RISK_APPROVED} \<Longrightarrow> once_ok (x\<lparr>o_status := s\<rparr>)"
  by (auto simp: once_ok_def)

lemma transition_once: "once_ok x \<Longrightarrow> once_ok (fst (transition_rec x t m))"
proof -
  assume x: "once_ok x"
  show ?thesis
  proof (cases "t \<in> set (ALLOWED_TRANSITIONS (o_status x))")
    case True
    then have "once_ok (x\<lparr>o_status := t\<rparr>)"
      using x not_fresh_status [of "o_status x"] by (cases "t = RISK_APPROVED") (auto simp: once_ok_def)
    then show ?thesis using x by (simp add: transition_rec_def apply_metadata_once)
  qed (use x in \<open>simp add: transition_rec_def\<close>)
qed

lemma internal_status_range: "internal_status s \<in> {FILLED, PARTIALLY_FILLED, O_REJECTED, ACKNOWLEDGED}"
  by (simp add: internal_status_def)

lemmas set_attr_attempts = set_attr_keeps [where P = "\<lambda>r. o_attempts r = n" for n]

definition submit_outcomes :: "order_status set" where
  "submit_outcomes = {FILLED, PARTIALLY_FILLED, O_REJECTED, ACKNOWLEDGED, TIMED_OUT, UNKNOWN}"

lemma record_answer_outcome:
  "o_attempts (record_answer a r) = o_attempts r \<and> o_status (record_answer a r) \<in> submit_outcomes"
proof
  have "o_attempts (fst (answer_writes a r)) = o_attempts r"
    unfolding answer_writes_def by (intro set_attr_attempts) simp_all
  then show "o_attempts (record_answer a r) = o_attempts r" by (simp add: record_answer_def settle_def)
  show "o_status (record_answer a r) \<in> submit_outcomes"
    using internal_status_range [of "or_else (r_status a) ''ACKNOWLEDGED''"]
    by (auto simp: record_answer_def settle_def submit_outcomes_def)
qed

lemma submit_outcome:
  assumes "submit g r = Inr x"
  shows "o_status r \<in> {CREATED, RISK_APPROVED} \<and> o_attempts x = Suc (o_attempts r)
    \<and> o_status x \<in> submit_outcomes"
proof -
  define r1 where "r1 = r\<lparr>o_status := SUBMITTED, o_attempts := Suc (o_attempts r)\<rparr>"
  have st: "o_status r \<in> {CREATED, RISK_APPROVED}" using assms by (simp add: submit_def split: if_splits)
  then have "x = (case ba_submit (registry_get g None (o_is_paper r1)) r1 of
          Answer a \<Rightarrow> record_answer a r1 | WaitTimeout \<Rightarrow> r1\<lparr>o_status := TIMED_OUT\<rparr>
        | AdapterError \<Rightarrow> r1\<lparr>o_status := UNKNOWN\<rparr>)"
    using assms unfolding submit_def Let_def r1_def by simp
  then have "o_attempts x = o_attempts r1 \<and> o_status x \<in> submit_outcomes"
    using record_answer_outcome by (auto simp: submit_outcomes_def split: broker_answer.splits)
  then show ?thesis using st by (simp add: r1_def)
qed

lemma submit_once: "once_ok r \<Longrightarrow> submit g r = Inr x \<Longrightarrow> once_ok x"
  using submit_outcome [of g r x] by (auto simp: once_ok_def submit_outcomes_def)

lemma settle_once:
  "once_ok (fst st) \<Longrightarrow> s \<notin> {CREATED, RISK_APPROVED} \<Longrightarrow> t \<notin> {CREATED, RISK_APPROVED} \<Longrightarrow>
    once_ok (settle st s t)"
  by (simp add: settle_def once_ok_status)

lemma internal_status_settled: "internal_status s \<noteq> CREATED" "internal_status s \<noteq> RISK_APPROVED"
  by (simp_all add: internal_status_def)

lemma reconcile_once: "once_ok r \<Longrightarrow> once_ok (reconcile g r)"
  by (auto simp: reconcile_def Let_def once_ok_status split: broker_answer.split
      intro!: settle_once take_fill_once)

lemma cancel_once: "once_ok r \<Longrightarrow> once_ok (cancel g r)"
  by (auto simp: cancel_def Let_def once_ok_status internal_status_settled split: broker_answer.split
      intro!: settle_once take_fill_once)

lemma heap_put [simp]: "om_heap (put_rec r x om) = (om_heap om)[r := x]"
  by (simp add: put_rec_def)

lemma put_once:
  "\<forall>x \<in> set (om_heap om). once_ok x \<Longrightarrow> once_ok y \<Longrightarrow> \<forall>x \<in> set (om_heap (put_rec r y om)). once_ok x"
  using set_update_subset_insert [of "om_heap om" r y] by auto

lemma new_record_once: "new_record q c = Inr x \<Longrightarrow> once_ok x"
  by (auto simp: new_record_def once_ok_def exn_simps)

lemma prune_heap [simp]: "om_heap (prune om) = om_heap om"
  by (simp add: prune_def)

lemma create_once:
  "\<forall>x \<in> set (om_heap om). once_ok x \<Longrightarrow> \<forall>x \<in> set (om_heap (fst (create_intent om q f))). once_ok x"
  using new_record_once
  by (fastforce simp: create_intent_def Let_def split: option.splits sum.splits)

lemma transition_heap:
  assumes "\<forall>x \<in> set (om_heap om). once_ok x"
  shows "\<forall>x \<in> set (om_heap (fst (transition om cid t m))). once_ok x"
proof (cases "lookup_order om cid")
  case (Some r)
  obtain x e where x: "transition_rec (om_heap om ! r) t m = (x, e)" by fastforce
  show ?thesis
  proof (cases "r < length (om_heap om)")
    case True
    then have "once_ok x" using transition_once [of "om_heap om ! r" t m] x assms by simp
    then show ?thesis using put_once [OF assms, of x r] by (simp add: transition_def Some x del: heap_put)
  next
    case False
    then show ?thesis using assms by (simp add: transition_def Some x list_update_beyond)
  qed
qed (use assms in \<open>simp add: transition_def\<close>)

lemma step_once:
  assumes "om_step om om'" and "\<forall>x \<in> set (om_heap om). once_ok x"
  shows "\<forall>x \<in> set (om_heap om'). once_ok x"
  using assms(1)
proof cases
  case om_create
  then show ?thesis using create_once [OF assms(2)] by simp
next
  case om_transition
  then show ?thesis using transition_heap [OF assms(2)] by simp
next
  case (om_submit r g x)
  then have "once_ok x" using submit_once assms(2) nth_mem by blast
  then show ?thesis using put_once [OF assms(2)] om_submit(1) by simp
next
  case (om_reconcile r g)
  then have "once_ok (om_heap om ! r)" using assms(2) nth_mem by blast
  from put_once [OF assms(2) reconcile_once [OF this]] show ?thesis using om_reconcile(1) by simp
next
  case (om_cancel r g)
  then have "once_ok (om_heap om ! r)" using assms(2) nth_mem by blast
  from put_once [OF assms(2) cancel_once [OF this]] show ?thesis using om_cancel(1) by simp
qed

text \<open>
  C1. No blind resend: in every state the manager can reach through any sequence of
  creations, transitions, submissions, reconciliations and cancellations, with any
  brokers, an order has been sent at most once, and an order that was sent is refused by
  \<open>submit\<close> for ever.
\<close>

theorem never_resubmitted:
  assumes "om_reach om" and "x \<in> set (om_heap om)"
  shows "o_attempts x = 0 \<or> o_attempts x = 1 \<and> (\<forall>g. submit g x = Inl ValueError)"
proof -
  have "\<forall>x \<in> set (om_heap om). once_ok x"
    using assms(1) unfolding om_reach_def
    by (induction rule: rtranclp_induct) (auto simp: om_init_def dest: step_once)
  then have "once_ok x" using assms(2) by blast
  then show ?thesis by (auto simp: once_ok_def submit_def)
qed

definition demo_request :: order_request where
  "demo_request = \<lparr>rq_account = ''A'', rq_symbol = ''NIFTY'', rq_side = ''BUY'', rq_quantity = 75,
     rq_price = Some (IntV 100), rq_order_type = ''LIMIT'', rq_instrument = None, rq_spread_id = None,
     rq_expected = None, rq_is_paper = False, rq_client_id = Some 7\<rparr>"

definition demo_record :: order_record where
  "demo_record = \<lparr>o_account = ''A'', o_client_id = 7, o_symbol = ''NIFTY'', o_side = ''BUY'',
          o_quantity = 75, o_price = Some (DFin 100), o_order_type = ''LIMIT'', o_status = CREATED,
          o_broker_id = None, o_instrument = None, o_spread_id = None,
          o_expected_price = Some (DFin 100), o_fill_price = None, o_fill_quantity = 0, o_slippage = None,
          o_is_paper = False, o_attempts = 0, o_original_id = Some 7\<rparr>"

definition silent_broker :: broker_adapter where
  "silent_broker = \<lparr>ba_name = ''PAPER_SIMULATOR'', ba_submit = (\<lambda>r. WaitTimeout),
     ba_query = (\<lambda>b. AdapterError), ba_cancel = (\<lambda>b. AdapterError)\<rparr>"

definition demo_manager :: order_manager where
  "demo_manager = \<lparr>om_heap = [demo_record], om_index = [(AcctKey ''A'' 7, 0), (CidKey 7, 0)], om_max = 10000\<rparr>"

lemma demo_create: "create_intent om_init demo_request 0 = (demo_manager, Inr 0)"
  by (simp add: create_intent_def om_init_def prune_def demo_request_def new_record_def opt_D_def
      demo_manager_def demo_record_def Let_def)

lemma demo_submit:
  "submit \<lparr>br_adapters = [], br_paper = silent_broker\<rparr> demo_record
     = Inr (demo_record\<lparr>o_status := TIMED_OUT, o_attempts := 1\<rparr>)"
  by (simp add: submit_def demo_record_def silent_broker_def registry_get_def Let_def)

theorem never_resubmitted_witness:
  "\<forall>g. submit g (demo_record\<lparr>o_status := TIMED_OUT, o_attempts := 1\<rparr>) = Inl ValueError"
proof -
  let ?x = "demo_record\<lparr>o_status := TIMED_OUT, o_attempts := 1\<rparr>"
  have "om_step om_init demo_manager" using om_create [of om_init demo_request 0] by (simp add: demo_create)
  moreover have "om_step demo_manager (put_rec 0 ?x demo_manager)"
    using om_submit [of 0 demo_manager _ ?x] demo_submit by (simp add: demo_manager_def)
  ultimately have "om_reach (put_rec 0 ?x demo_manager)"
    unfolding om_reach_def by (meson rtranclp.rtrancl_into_rtrancl rtranclp.rtrancl_refl)
  from never_resubmitted [OF this, of ?x] show ?thesis by (simp add: demo_manager_def)
qed

subsection \<open>Properties of single operations\<close>

lemma dquantize_not_inf: "dquantize m x k = Inr (DInf s) \<Longrightarrow> False"
  by (cases x) (auto simp: dquantize_def Let_def split: if_splits)

lemma paper_price_fin: "paper_fill_price d r = Inr p \<Longrightarrow> p \<noteq> DInf s"
  by (auto simp: paper_fill_price_def exn_simps dest: dquantize_not_inf)

lemma dsub_defined: "p \<noteq> DInf True \<Longrightarrow> p \<noteq> DInf False \<Longrightarrow> \<exists>x. dsub p e = Inr x"
  by (cases p; cases e) (auto simp: dsub_def dadd_def split: dval.splits)

lemma filled_recorded:
  assumes "p \<noteq> DInf True" and "p \<noteq> DInf False"
  shows "o_broker_id (record_answer \<lparr>r_broker_id = b, r_status = Some s, r_fill_price = Some (DecV p),
      r_fill_quantity = Some (IntV q)\<rparr> r) = b"
    and "o_is_paper (record_answer \<lparr>r_broker_id = b, r_status = Some s, r_fill_price = Some (DecV p),
      r_fill_quantity = Some (IntV q)\<rparr> r) = o_is_paper r"
    and "o_status (record_answer \<lparr>r_broker_id = b, r_status = Some s, r_fill_price = Some (DecV p),
      r_fill_quantity = Some (IntV q)\<rparr> r) = internal_status s"
proof -
  have "\<exists>x. dsub p e = Inr x" for e using assms by (rule dsub_defined)
  then obtain f where f: "\<And>e. dsub p e = Inr (f e)" by metis
  show "o_broker_id (record_answer \<lparr>r_broker_id = b, r_status = Some s, r_fill_price = Some (DecV p),
      r_fill_quantity = Some (IntV q)\<rparr> r) = b"
    and "o_is_paper (record_answer \<lparr>r_broker_id = b, r_status = Some s, r_fill_price = Some (DecV p),
      r_fill_quantity = Some (IntV q)\<rparr> r) = o_is_paper r"
    and "o_status (record_answer \<lparr>r_broker_id = b, r_status = Some s, r_fill_price = Some (DecV p),
      r_fill_quantity = Some (IntV q)\<rparr> r) = internal_status s"
    by (cases "o_expected_price r";
        simp add: record_answer_def settle_def answer_writes_def set_attr_def opt_D_def py_int_def f)+
qed

text \<open>
  The manager asks the registry for an adapter without naming a provider, so a live
  order (\<open>is_paper = False\<close>) goes to the paper simulator: it comes back
  filled or partially filled with a simulated broker id, whatever live adapter is
  registered.
\<close>

theorem live_orders_simulated:
  "\<exists>x. submit (registry_init (paper_adapter d st) live) (r\<lparr>o_status := CREATED, o_is_paper := False\<rparr>) = Inr x
     \<and> o_is_paper x = False
     \<and> (case paper_fill_price d r of
          Inl e \<Rightarrow> o_status x = UNKNOWN
        | Inr p \<Rightarrow> o_broker_id x = Some (pd_broker_id d)
            \<and> o_status x = (if pd_partial d \<and> 1 < o_quantity r then PARTIALLY_FILLED else FILLED))"
proof (cases "paper_fill_price d r")
  case (Inl e)
  then show ?thesis
    by (simp add: submit_def registry_get_def registry_init_def registry_register_def paper_adapter_def
        paper_submit_def paper_fill_price_def Let_def)
next
  case (Inr p)
  note fin = filled_recorded [OF paper_price_fin [OF Inr] paper_price_fin [OF Inr]]
  have price: "paper_fill_price d (r\<lparr>o_is_paper := b, o_status := a, o_attempts := n\<rparr>) = Inr p" for a b n
    using Inr by (simp add: paper_fill_price_def)
  show ?thesis
    by (simp add: submit_def registry_get_def registry_init_def registry_register_def paper_adapter_def
        paper_submit_def Let_def price Inr fin internal_status_def)
qed

text \<open>
  Cancel: the order ends \<open>CANCELLED\<close> exactly when it has no broker id or
  the broker confirms the cancellation; a broker fill, a refusal or a lost answer never
  does. Its current status is not consulted.
\<close>

theorem cancelled_iff:
  "o_status (cancel g r) = CANCELLED \<longleftrightarrow>
     o_broker_id r \<in> {None, Some []}
     \<or> (\<exists>a. ba_cancel (br_paper g) (the (o_broker_id r)) = Answer a \<and> r_status a = Some ''CANCELLED'')"
  by (auto simp: str_truthy_def cancel_def Let_def settle_def registry_get_def internal_status_def split: broker_answer.split)

text \<open>
  The Fyers adapter fails closed: it answers \<open>SUBMITTED\<close> exactly when it
  has credentials, a payload and an accepted HTTP exchange, and \<open>REJECTED\<close>
  otherwise; it never reports a fill.
\<close>

theorem fyers_reports_no_fill:
  "\<exists>a. fyers_submit app_id token http fresh r = Answer a
     \<and> (r_status a = Some ''SUBMITTED'' \<or> r_status a = Some ''REJECTED'')
     \<and> (r_status a = Some ''SUBMITTED'' \<longleftrightarrow>
          app_id \<noteq> [] \<and> token \<noteq> [] \<and> token \<noteq> ''mock-demo-token''
          \<and> (\<exists>p fid. fyers_payload_of r = Inr p \<and> http p = HttpOk True fid))"
  by (auto simp: fyers_submit_def status_only_def split: sum.split http_outcome.split bool.split)

text \<open>
  A rejection carries no fill quantity and \<open>submit\<close> then takes the
  ordered quantity: the rejected order is recorded as filled in full.
\<close>

theorem rejection_records_full_fill:
  "record_answer (status_only ''REJECTED'') r
     = r\<lparr>o_broker_id := None, o_fill_price := None, o_fill_quantity := o_quantity r, o_status := O_REJECTED\<rparr>"
  by (simp add: record_answer_def settle_def answer_writes_def set_attr_def status_only_def opt_D_def
      py_int_def internal_status_def)

lemma map_of_filter_None: "map_of d k = None \<Longrightarrow> map_of (filter P d) k = None"
  by (auto simp: map_of_eq_None_iff)

lemma prune_None: "map_of (om_index om) k = None \<Longrightarrow> map_of (om_index (prune om)) k = None"
  by (simp add: prune_def map_of_filter_None)

lemma get_order_None:
  "get_order om c (Some a) = None \<longleftrightarrow>
     map_of (om_index om) (AcctKey a c) = None \<and> map_of (om_index om) (CidKey c) = None"
  by (simp add: get_order_def split: option.split)

lemma create_new:
  assumes "create_intent om q f = (om1, Inr r)" and "c = or_else (rq_client_id q) f"
    and "get_order om c (Some (rq_account q)) = None"
  shows "\<exists>x. new_record q c = Inr x \<and> r = length (om_heap om) \<and> om_heap om1 = om_heap om @ [x]
    \<and> om_index om1 = AList.update (CidKey c) r (AList.update (AcctKey (rq_account q) c) r (om_index (prune om)))"
  using assms prune_None [of om] unfolding get_order_None
  by (auto simp: create_intent_def Let_def split: sum.splits)

text \<open>
  Creating an order twice with one client order id gives the first record back and
  creates nothing. The id alone decides: a request of another account gets the first
  account's record.
\<close>

theorem create_intent_idempotent:
  assumes "create_intent om q f = (om1, Inr r)" and "c = or_else (rq_client_id q) f"
    and "\<And>a. get_order om c (Some a) = None"
    and "length (om_index om1) < om_max om1" and "rq_client_id q' = Some c"
  shows "\<exists>om2. create_intent om1 q' f' = (om2, Inr r) \<and> om_heap om2 = om_heap om1
    \<and> o_account (om_heap om2 ! r) = rq_account q"
proof -
  obtain x where x: "new_record q c = Inr x" "r = length (om_heap om)" "om_heap om1 = om_heap om @ [x]"
    "om_index om1 = AList.update (CidKey c) r (AList.update (AcctKey (rq_account q) c) r (om_index (prune om)))"
    using create_new [OF assms(1-3)] by blast
  have acct: "o_account x = rq_account q" using x(1) by (auto simp: new_record_def exn_simps)
  have "prune om1 = om1" using assms(4) by (simp add: prune_def)
  moreover have "map_of (om_index om1) (CidKey c) = Some r" by (simp add: x(4) dict_simps)
  moreover have "map_of (om_index om1) (AcctKey a c) = (if a = rq_account q then Some r else None)" for a
    using assms(3) prune_None [of om "AcctKey a c"] by (simp add: x(4) dict_simps get_order_None)
  ultimately show ?thesis using assms(5) x(2,3) acct
    by (simp add: create_intent_def Let_def)
qed

theorem create_intent_idempotent_witness:
  "\<exists>om2. create_intent demo_manager (demo_request\<lparr>rq_account := ''B'', rq_symbol := ''BANKNIFTY''\<rparr>) 9 = (om2, Inr 0)
     \<and> o_account (om_heap om2 ! 0) = ''A''"
proof -
  have "get_order om_init 7 (Some a) = None" for a by (simp add: get_order_def om_init_def)
  then show ?thesis
    using create_intent_idempotent [OF demo_create, of 7 "demo_request\<lparr>rq_account := ''B'', rq_symbol := ''BANKNIFTY''\<rparr>" 9]
    by (auto simp: demo_request_def demo_manager_def)
qed

text \<open>
  The account listing walks the dictionary's values, where a record sits under two
  keys: the first order of a manager is listed twice.
\<close>

theorem order_listed_twice:
  assumes "create_intent om_init q f = (om1, Inr r)"
  shows "\<exists>x. new_record q (or_else (rq_client_id q) f) = Inr x
    \<and> list_for_account om1 (rq_account q) = [x, x]"
proof -
  have "get_order om_init c (Some a) = None" for c a by (simp add: get_order_def om_init_def)
  from create_new [OF assms refl this] obtain x where x: "new_record q (or_else (rq_client_id q) f) = Inr x"
     "om_heap om1 = [x]"
    "om_index om1 = AList.update (CidKey (or_else (rq_client_id q) f)) r
       (AList.update (AcctKey (rq_account q) (or_else (rq_client_id q) f)) r [])" "r = 0"
    by (auto simp: om_init_def prune_def)
  then have "o_account x = rq_account q" by (auto simp: new_record_def exn_simps)
  then show ?thesis using x by (simp add: list_for_account_def)
qed

theorem order_listed_twice_witness:
  "list_for_account demo_manager ''A'' = [demo_record, demo_record]"
proof -
  have "new_record demo_request 7 = Inr demo_record"
    by (simp add: new_record_def demo_request_def demo_record_def opt_D_def)
  then show ?thesis using order_listed_twice [OF demo_create] by (auto simp: demo_request_def)
qed

subsection \<open>Transitions\<close>

lemma set_attr_status: "(\<And>v r. o_status (upd v r) = o_status r) \<Longrightarrow> o_status (fst (set_attr v upd st)) = o_status (fst st)"
  by (auto simp: set_attr_def split: prod.splits option.splits sum.splits)

lemma apply_metadata_status [simp]: "o_status (fst (apply_metadata m r)) = o_status r"
  by (simp add: apply_metadata_def set_attr_status)

fun transition_all :: "order_manager \<Rightarrow> (uuid \<times> order_status \<times> order_metadata) list \<Rightarrow> order_manager" where
  "transition_all om [] = om"
| "transition_all om ((cid, t, m) # ts) = transition_all (fst (transition om cid t m)) ts"

abbreviation order_next :: "order_status \<Rightarrow> order_status \<Rightarrow> bool" where
  "order_next a b \<equiv> b \<in> set (ALLOWED_TRANSITIONS a)"

lemma transition_rec_status:
  "o_status (fst (transition_rec x t m)) = o_status x \<or> order_next (o_status x) (o_status (fst (transition_rec x t m)))"
  by (simp add: transition_rec_def)

lemma transition_status:
  "order_next\<^sup>*\<^sup>* (o_status (om_heap om ! i)) (o_status (om_heap (fst (transition om cid t m)) ! i))"
proof (cases "lookup_order om cid")
  case (Some r)
  have heap: "om_heap (fst (transition om cid t m)) = (om_heap om)[r := fst (transition_rec (om_heap om ! r) t m)]"
    by (simp add: transition_def Some split: prod.split)
  show ?thesis
  proof (cases "i = r \<and> r < length (om_heap om)")
    case True
    then show ?thesis using transition_rec_status [of "om_heap om ! r" t m] by (auto simp: heap)
  next
    case False
    then show ?thesis by (cases "i = r") (simp_all add: heap list_update_beyond)
  qed
qed (simp add: transition_def)

lemma transition_all_status:
  "order_next\<^sup>*\<^sup>* (o_status (om_heap om ! i)) (o_status (om_heap (transition_all om ts) ! i))"
  by (induction om ts rule: transition_all.induct) (auto intro: rtranclp_trans transition_status)

text \<open>
  Along any sequence of \<open>transition\<close> calls, refused ones included, the
  status of every record moves only along the table: \<open>CLOSED\<close> is final and
  \<open>CREATED\<close> is never re-entered.
\<close>

theorem transition_history:
  "order_next\<^sup>*\<^sup>* (o_status (om_heap om ! i)) (o_status (om_heap (transition_all om ts) ! i))
   \<and> (o_status (om_heap om ! i) = CLOSED \<longrightarrow> o_status (om_heap (transition_all om ts) ! i) = CLOSED)
   \<and> (o_status (om_heap (transition_all om ts) ! i) = CREATED \<longrightarrow> o_status (om_heap om ! i) = CREATED)"
  using transition_all_status [of om i ts]
    order_table.path_from_final [of "o_status (om_heap om ! i)" "o_status (om_heap (transition_all om ts) ! i)"]
    order_table.path_avoids [of "o_status (om_heap om ! i)" CREATED] not_fresh_status(2)
  by auto

definition no_metadata :: order_metadata where
  "no_metadata = \<lparr>md_broker_id = None, md_fill_price = None, md_fill_quantity = None, md_slippage = None\<rparr>"

theorem transition_history_witness:
  "o_status (om_heap (transition_all demo_manager
      [(7, O_REJECTED, no_metadata), (7, CLOSED, no_metadata), (7, FILLED, no_metadata)]) ! 0) = CLOSED"
proof -
  let ?om = "transition_all demo_manager [(7, O_REJECTED, no_metadata), (7, CLOSED, no_metadata)]"
  have "o_status (om_heap ?om ! 0) = CLOSED"
    by (simp add: demo_manager_def transition_def lookup_order_def transition_rec_def demo_record_def
        apply_metadata_def set_attr_def no_metadata_def put_rec_def)
  from transition_history [of ?om 0 "[(7, FILLED, no_metadata)]"] this show ?thesis by simp
qed

subsection \<open>The simulator's price text\<close>

lemma digit_char_props [simp]:
  assumes "n < 10"
  shows "is_digit (digit_char n)" and "(of_char (digit_char n) :: nat) = 48 + n"
  using assms by (simp_all add: digit_char_def is_digit_def)

lemma is_digit_plain:
  assumes "is_digit c"
  shows "\<not> is_space c" and "to_lower c = c"
    and "c \<noteq> CHR ''_''" and "c \<noteq> CHR ''-''" and "c \<noteq> CHR ''+''" and "c \<noteq> CHR ''i''" and "c \<noteq> CHR ''n''"
  using assms by (auto simp: is_digit_def is_space_def to_lower_def)

lemma digits_val_append: "digits_val (xs @ ys) = digits_val xs * 10 ^ length ys + digits_val ys"
proof (induction ys rule: rev_induct)
  case (snoc y ys)
  then show ?case by (simp add: digits_val_def algebra_simps)
qed (simp add: digits_val_def)

lemma digits_val_single: "n < 10 \<Longrightarrow> digits_val [digit_char n] = int n"
  by (simp add: digits_val_def)

lemma nat_str_digits: "list_all is_digit (nat_str n) \<and> nat_str n \<noteq> [] \<and> digits_val (nat_str n) = int n"
proof (induction n rule: nat_str.induct)
  case (1 n)
  moreover have "int (n div 10) * 10 + int (n mod 10) = int n" by presburger
  ultimately show ?case
    by (simp add: nat_str.simps [of n] digits_val_append digits_val_single)
qed

text \<open>Reading a sign, digits, a point and digits.\<close>

lemma take_digits:
  "list_all is_digit xs \<Longrightarrow> takeWhile is_digit (xs @ CHR ''.'' # ys) = xs"
  "list_all is_digit xs \<Longrightarrow> dropWhile is_digit (xs @ CHR ''.'' # ys) = CHR ''.'' # ys"
  by (induction xs) (auto simp: is_digit_def)

lemma take_digits_all:
  "list_all is_digit xs \<Longrightarrow> takeWhile is_digit xs = xs \<and> dropWhile is_digit xs = []"
  by (induction xs) auto

lemma unsigned_literal_point:
  "list_all is_digit ip \<Longrightarrow> list_all is_digit fp \<Longrightarrow> ip \<noteq> [] \<Longrightarrow>
    unsigned_literal (ip @ CHR ''.'' # fp) = Some (digits_val (ip @ fp), - int (length fp))"
  by (simp add: unsigned_literal_def take_digits take_digits_all exponent_of_def)

lemma strip_id: "s \<noteq> [] \<Longrightarrow> \<not> is_space (hd s) \<Longrightarrow> \<not> is_space (last s) \<Longrightarrow> strip s = s"
proof -
  have keep: "xs \<noteq> [] \<Longrightarrow> \<not> is_space (hd xs) \<Longrightarrow> dropWhile is_space xs = xs" for xs by (cases xs) auto
  assume "s \<noteq> []" "\<not> is_space (hd s)" "\<not> is_space (last s)"
  then show ?thesis by (simp add: strip_def keep hd_rev)
qed

lemma digit_text_plain:
  "list_all is_digit xs \<Longrightarrow> map to_lower xs = xs \<and> filter (\<lambda>c. c \<noteq> CHR ''_'') xs = xs"
  by (induction xs) (auto simp: is_digit_plain)

lemma dec_of_point_literal:
  assumes ip: "list_all is_digit ip" "ip \<noteq> []" and fp: "list_all is_digit fp" "fp \<noteq> []"
    and sg: "sg = (if neg then ''-'' else [])"
  shows "dec_of_string (sg @ ip @ CHR ''.'' # fp) =
    Some (DFin ((if neg then -1 else 1) * lit_val (digits_val (ip @ fp), - int (length fp))))"
proof -
  let ?s = "ip @ CHR ''.'' # fp"
  obtain d ds where d: "ip = d # ds" "is_digit d" using ip by (cases ip) auto
  obtain es e where e: "fp = es @ [e]" "is_digit e" using fp by (cases fp rule: rev_cases) auto
  have "strip (sg @ ?s) = sg @ ?s"
    using d e by (intro strip_id) (auto simp: sg is_digit_plain is_space_def [of "CHR ''-''"])
  moreover have "filter (\<lambda>c. c \<noteq> CHR ''_'') (sg @ ?s) = sg @ ?s"
    using digit_text_plain ip(1) fp(1) by (simp add: sg)
  moreover have "split_sign (sg @ ?s) = (neg, ?s)"
    using d by (simp add: split_sign_def sg is_digit_plain)
  moreover have "hd (map to_lower ?s) = d" using d by (simp add: is_digit_plain)
  then have "map to_lower ?s \<noteq> ''inf''" "map to_lower ?s \<noteq> ''infinity''" "take 3 (map to_lower ?s) \<noteq> ''nan''"
    using is_digit_plain(6,7) [OF d(2)] d(1) by (auto simp: is_digit_plain [OF d(2)])
  ultimately show ?thesis
    using unsigned_literal_point [OF ip(1) fp(1) ip(2)] by (simp add: dec_of_string_def)
qed

lemma price_str_read:
  "D (StrV (price_str (DFin (of_int c * 10 powi (-2))))) = Inr (DFin (of_int c * 10 powi (-2)))"
proof -
  define n where "n = nat \<bar>c\<bar>"
  define fp where "fp = [digit_char (n div 10 mod 10), digit_char (n mod 10)]"
  have fl: "\<lfloor>of_int c * 10 powi (-2) * (100::rat)\<rfloor> = c"
    by (simp add: power_int_def power2_eq_square)
  have shape: "price_str (DFin (of_int c * 10 powi (-2))) =
      (if c < 0 then ''-'' else []) @ nat_str (n div 100) @ CHR ''.'' # fp"
    by (simp add: price_str_def fl Let_def n_def fp_def)
  have val: "digits_val (nat_str (n div 100) @ fp) = int n"
  proof -
    have "n div 100 * 100 + (n div 10 mod 10 * 10 + n mod 10) = n"
    proof -
      have "n div 100 * 10 + n div 10 mod 10 = n div 10"
        using div_mult_mod_eq [of "n div 10" 10] by (simp add: div_mult2_eq [symmetric])
      then show ?thesis using div_mult_mod_eq [of n 10] by linarith
    qed
    then have "int (n div 100) * 100 + (int (n div 10 mod 10) * 10 + int (n mod 10)) = int n"
      by (metis of_nat_add of_nat_mult of_nat_numeral)
    moreover have "digits_val fp = int (n div 10 mod 10) * 10 + int (n mod 10)"
      by (simp add: fp_def digits_val_def)
    ultimately show ?thesis
      using nat_str_digits [of "n div 100"] by (simp add: digits_val_append fp_def)
  qed
  have "list_all is_digit fp" "fp \<noteq> []" "length fp = 2" by (simp_all add: fp_def)
  then have "dec_of_string (price_str (DFin (of_int c * 10 powi (-2))))
      = Some (DFin ((if c < 0 then -1 else 1) * lit_val (int n, -2)))"
    unfolding shape using dec_of_point_literal [of "nat_str (n div 100)" fp _ "c < 0"]
      nat_str_digits [of "n div 100"] val by simp
  moreover have "(if c < 0 then -1 else 1) * lit_val (int n, -2) = of_int c * 10 powi (-2)"
    by (simp add: lit_val_def n_def)
  ultimately show ?thesis by (simp add: D_def)
qed

lemma dquantize_coefficient: "dquantize m x k = Inr (DFin p) \<Longrightarrow> \<exists>c. p = of_int c * 10 powi k"
  by (cases x) (auto simp: dquantize_def Let_def split: if_splits)

text \<open>
  The simulator stores a fill price as text and answers queries with it: reading that
  text gives back exactly the fill price, with the same status and quantity.
\<close>

theorem paper_query_roundtrip:
  assumes "paper_submit d st r = (st', Answer a)" and "r_fill_price a = Some (DecV (DFin p))"
  shows "\<exists>b s. paper_query st' (pd_broker_id d) = Answer b \<and> r_status b = r_status a
    \<and> r_fill_quantity b = r_fill_quantity a \<and> r_fill_price b = Some (StrV s)
    \<and> D (StrV s) = Inr (DFin p)"
proof -
  obtain q where q: "paper_fill_price d r = Inr q" using assms(1) by (cases "paper_fill_price d r") (auto simp: paper_submit_def)
  with assms have "q = DFin p" by (auto simp: paper_submit_def Let_def)
  then obtain c where "p = of_int c * 10 powi (-2)"
    using q by (auto simp: paper_fill_price_def exn_simps dest!: dquantize_coefficient)
  then have "D (StrV (price_str (DFin p))) = Inr (DFin p)" using price_str_read [of c] by metis
  then show ?thesis
    using assms q \<open>q = DFin p\<close> by (auto simp: paper_submit_def paper_query_def Let_def dict_simps)
qed


definition demo_draw :: paper_draw where
  "demo_draw = \<lparr>pd_slip = DFin (4 / 10000), pd_partial = True, pd_broker_id = ''PAPER-1''\<rparr>"

lemma demo_price: "paper_fill_price demo_draw demo_record = Inr (DFin (10004 / 100))"
proof -
  have e: "drnd (1 / 25) = 1 / 25" "drnd (2501 / 25) = 2501 / 25" by code_simp+
  show ?thesis
    by (simp add: paper_fill_price_def demo_draw_def demo_record_def price_or_100_def dquantize_def e
        round_int_def round_half_even_def)
qed

theorem paper_query_roundtrip_witness:
  "\<exists>b s. paper_query (fst (paper_submit demo_draw [] demo_record)) ''PAPER-1'' = Answer b
     \<and> r_status b = Some ''PARTIALLY_FILLED'' \<and> r_fill_price b = Some (StrV s) \<and> D (StrV s) = Inr (DFin (10004 / 100))"
proof -
  let ?a = "\<lparr>r_broker_id = Some ''PAPER-1'', r_status = Some ''PARTIALLY_FILLED'',
     r_fill_price = Some (DecV (DFin (10004 / 100))), r_fill_quantity = Some (IntV 37)\<rparr>"
  have "paper_submit demo_draw [] demo_record = (fst (paper_submit demo_draw [] demo_record), Answer ?a)"
    by (simp add: paper_submit_def demo_price Let_def) (simp add: demo_draw_def demo_record_def)
  from paper_query_roundtrip [OF this, of "10004 / 100"] show ?thesis by (auto simp: demo_draw_def)
qed

text \<open>What passing the recheck means.\<close>

definition deviation_ok :: "dval option \<Rightarrow> exec_snapshot \<Rightarrow> bool" where
  "deviation_ok price sn \<longleftrightarrow> (\<forall>cur e. sn_price sn = Some cur \<longrightarrow> price = Some e \<longrightarrow> \<not> deq e (DFin 0) \<longrightarrow>
     (\<exists>c dev m. D cur = Inr c \<and> deviation_pct c e = Inr dev
        \<and> D (or_else (sn_max_dev sn) (IntV 1)) = Inr m \<and> dle dev m = Inr True))"

definition both_le :: "declike option \<Rightarrow> declike option \<Rightarrow> bool" where
  "both_le x y \<longleftrightarrow> (case (x, y) of (Some a, Some b) \<Rightarrow> holds (le_like a b) | _ \<Rightarrow> True)"

lemma opt_le_passes:
  "(\<exists>cs. opt_le_check n x y = Inr cs \<and> list_all snd cs) \<longleftrightarrow> both_le x y"
  by (auto simp: opt_le_check_def both_le_def holds_def exn_simps split: option.splits)

lemma deviation_passes:
  "(\<exists>cs. deviation_check price sn = Inr cs \<and> list_all snd cs) \<longleftrightarrow> deviation_ok price sn"
  by (cases "sn_price sn"; cases price) (fastforce simp: deviation_check_def deviation_ok_def exn_simps)+

text \<open>
  The recheck before submission passes exactly when the market is open (or the caller
  waives it), the price is positive and close to the current one, the feeds, broker,
  instrument and circuit are fine, portfolio risk is not blocked, and spread and capital
  are within their limits.
\<close>

theorem recheck_passes_iff:
  "recheck can_trade price sn = Inr (True, None) \<longleftrightarrow>
     (sn_allow_closed sn \<or> can_trade)
     \<and> (price = None \<or> holds (dlt (DFin 0) (the price)))
     \<and> sn_data_health sn \<noteq> Some ''STALE''
     \<and> sn_broker_health sn \<notin> {Some ''CRITICAL'', Some ''DISCONNECTED''}
     \<and> sn_tradable sn \<and> \<not> sn_has_circuit sn \<and> \<not> sn_portfolio_blocked sn
     \<and> deviation_ok price sn \<and> both_le (sn_spread sn) (sn_max_spread sn)
     \<and> both_le (sn_margin sn) (sn_capital sn)"
proof -
  have "recheck can_trade price sn = Inr (True, None) \<longleftrightarrow>
      (\<exists>cs. recheck_list can_trade price sn = Inr cs \<and> list_all snd cs)"
  proof -
    have "(case find (\<lambda>c. \<not> snd c) cs of None \<Rightarrow> (True, None) | Some c \<Rightarrow> (False, Some (fst c))) = (True, None)
        \<longleftrightarrow> list_all snd cs" for cs :: named_checks
      by (induction cs) auto
    then show ?thesis by (simp add: recheck_def exn_simps)
  qed
  also have "\<dots> \<longleftrightarrow> (sn_allow_closed sn \<or> can_trade)
     \<and> (price = None \<or> holds (dlt (DFin 0) (the price)))
     \<and> sn_data_health sn \<noteq> Some ''STALE''
     \<and> sn_broker_health sn \<notin> {Some ''CRITICAL'', Some ''DISCONNECTED''}
     \<and> sn_tradable sn \<and> \<not> sn_has_circuit sn \<and> \<not> sn_portfolio_blocked sn
     \<and> (\<exists>cs. deviation_check price sn = Inr cs \<and> list_all snd cs)
     \<and> (\<exists>cs. opt_le_check ''spread'' (sn_spread sn) (sn_max_spread sn) = Inr cs \<and> list_all snd cs)
     \<and> (\<exists>cs. opt_le_check ''capital'' (sn_margin sn) (sn_capital sn) = Inr cs \<and> list_all snd cs)"
    by (cases price) (auto simp: recheck_list_def ebind_ex_iff holds_def)
  finally show ?thesis by (simp only: opt_le_passes deviation_passes)
qed

end
