(* ===== verification/Droid_Positions.thy ===== *)
theory Droid_Positions
  imports Droid_Orders
begin

text \<open>
  \<open>backend/app/algo/positions.py\<close>: positions, the position manager and the exit engine.

  The manager maps \<open>"account:position_id"\<close> to positions; an operation that mutates the stored
  object is a function from dictionary to dictionary. An operation that raises part-way keeps the
  writes it made, so it returns the new state beside the result. The exit engine works on one
  position and drives the order manager of \<open>Droid_Orders\<close>. Timestamps and logging are left out;
  the elapsed holding time is an argument.
\<close>

datatype exit_trigger =
    STOP_LOSS | TAKE_PROFIT | TRAILING_STOP | TIME_EXIT | TECHNICAL_REVERSAL | TREND_REVERSAL
  | AI_REGIME_REVERSAL | DAILY_RISK_LIMIT | END_OF_SESSION | BROKER_FAILURE | CIRCUIT_RECOVERY
  | EMERGENCY

datatype exit_state =
    NONE | EXIT_TRIGGERED | EXIT_SUBMITTED | EXIT_PARTIALLY_FILLED | EXIT_FILLED | EXIT_REJECTED
  | EXIT_BLOCKED_BY_CIRCUIT | EXIT_NETWORK_UNKNOWN | EXIT_RETRYING | ORPHANED_ALERT | CLOSED

datatype pside = LONG | SHORT

record position =
  p_account :: string
  p_id :: string
  p_symbol :: string
  p_underlying :: "string option"
  p_instrument :: "string option"
  p_side :: pside
  p_quantity :: int
  p_entry :: dval
  p_price :: dval
  p_stop :: "dval option"
  p_target :: "dval option"
  p_trailing :: "dval option"
  p_unrealized :: dval
  p_realized :: dval
  p_exit :: exit_state
  p_open :: bool

subsection \<open>One position\<close>

definition side_mult :: "pside \<Rightarrow> dval" where
  "side_mult s = (case s of LONG \<Rightarrow> DFin 1 | SHORT \<Rightarrow> DFin (-1))"

text \<open>\<open>(price - entry) * quantity * mult\<close>\<close>

definition pnl_of :: "position \<Rightarrow> dval \<Rightarrow> dval result" where
  "pnl_of p price = ebind (dsub price (p_entry p)) (\<lambda>d. ebind (dmul d (DFin (of_int (p_quantity p)))) (\<lambda>n.
     dmul n (side_mult (p_side p))))"

definition refresh_pnl :: "position \<Rightarrow> position result" where
  "refresh_pnl p = (if \<not> p_open p then Inr p
     else ebind (pnl_of p (p_price p)) (\<lambda>u. Inr (p\<lparr>p_unrealized := u\<rparr>)))"

text \<open>\<open>not self.stop_price\<close> is true of a missing and of a zero price.\<close>

definition is_stop_hit :: "position \<Rightarrow> bool result" where
  "is_stop_hit p = (case nonzero_price (p_stop p) of
     None \<Rightarrow> Inr False
   | Some s \<Rightarrow> if \<not> p_open p then Inr False
       else (case p_side p of LONG \<Rightarrow> dle (p_price p) s | SHORT \<Rightarrow> dle s (p_price p)))"

definition is_target_hit :: "position \<Rightarrow> bool result" where
  "is_target_hit p = (case nonzero_price (p_target p) of
     None \<Rightarrow> Inr False
   | Some t \<Rightarrow> if \<not> p_open p then Inr False
       else (case p_side p of LONG \<Rightarrow> dle t (p_price p) | SHORT \<Rightarrow> dle (p_price p) t))"

subsection \<open>The position manager\<close>

type_synonym positions = "(string, position) dict"

definition position_key :: "string \<Rightarrow> string \<Rightarrow> string" where
  "position_key account pid = account @ '':'' @ pid"

definition keep_orphan :: "position \<Rightarrow> position option \<Rightarrow> position" where
  "keep_orphan p existing = (case existing of
     Some e \<Rightarrow> if p_exit e = ORPHANED_ALERT then p\<lparr>p_exit := ORPHANED_ALERT\<rparr> else p
   | None \<Rightarrow> p)"

text \<open>Store under its key, then refresh: an exception leaves the unrefreshed position stored.\<close>

definition pm_upsert :: "position \<Rightarrow> positions \<Rightarrow> positions \<times> position result" where
  "pm_upsert p0 ps =
     (let key = position_key (p_account p0) (p_id p0); p = keep_orphan p0 (map_of ps key)
      in case refresh_pnl p of
           Inl e \<Rightarrow> (AList.update key p ps, Inl e)
         | Inr q \<Rightarrow> (AList.update key q ps, Inr q))"

definition pm_get :: "positions \<Rightarrow> string \<Rightarrow> string \<Rightarrow> position option" where
  "pm_get ps account pid = map_of ps (position_key account pid)"

definition pm_list_all :: "positions \<Rightarrow> string \<Rightarrow> position list" where
  "pm_list_all ps account = map snd (filter (\<lambda>(k, p). take (length account + 1) k = account @ '':'') ps)"

definition pm_list_open :: "positions \<Rightarrow> string \<Rightarrow> position list" where
  "pm_list_open ps account = filter p_open (pm_list_all ps account)"

definition close_position :: "position \<Rightarrow> position" where
  "close_position p = p\<lparr>p_open := False, p_exit := CLOSED\<rparr>"

definition pm_mark_closed ::
  "string \<Rightarrow> string \<Rightarrow> declike option \<Rightarrow> positions \<Rightarrow> positions \<times> position option result" where
  "pm_mark_closed account pid exit_price ps = (case pm_get ps account pid of
     None \<Rightarrow> (ps, Inr None)
   | Some p \<Rightarrow> (case (case exit_price of None \<Rightarrow> Inr p
         | Some x \<Rightarrow> ebind (D x) (\<lambda>d. ebind (pnl_of p d) (\<lambda>g. ebind (dadd (p_realized p) g) (\<lambda>r.
                       Inr (p\<lparr>p_realized := r\<rparr>))))) of
        Inl e \<Rightarrow> (ps, Inl e)
      | Inr q \<Rightarrow> (AList.update (position_key account pid) (close_position q) ps,
                  Inr (Some (close_position q)))))"

text \<open>The trailing stop: the price less (plus) the distance, if that tightens the stop.\<close>

definition trail_stop :: "position \<Rightarrow> position result" where
  "trail_stop p = (case p_trailing p of
     None \<Rightarrow> Inr p
   | Some t \<Rightarrow> if \<not> p_open p then Inr p
       else ebind (case p_side p of LONG \<Rightarrow> dsub (p_price p) t | SHORT \<Rightarrow> dadd (p_price p) t) (\<lambda>new_stop.
            ebind (case p_stop p of None \<Rightarrow> Inr True
                   | Some s \<Rightarrow> (case p_side p of LONG \<Rightarrow> dlt s new_stop | SHORT \<Rightarrow> dlt new_stop s)) (\<lambda>better.
            Inr (if better then p\<lparr>p_stop := Some new_stop\<rparr> else p))))"

text \<open>\<open>update_price\<close> on one position: price, profit, trailing stop, keeping earlier writes on an
  exception.\<close>

definition reprice :: "dval \<Rightarrow> position \<Rightarrow> position \<times> exn option" where
  "reprice price p0 = (let p = p0\<lparr>p_price := price\<rparr> in
     case refresh_pnl p of
       Inl e \<Rightarrow> (p, Some e)
     | Inr q \<Rightarrow> (case trail_stop q of Inl e \<Rightarrow> (q, Some e) | Inr r \<Rightarrow> (r, None)))"

definition pm_update_price ::
  "string \<Rightarrow> string \<Rightarrow> declike \<Rightarrow> positions \<Rightarrow> positions \<times> exn option" where
  "pm_update_price account pid price ps = (case pm_get ps account pid of
     None \<Rightarrow> (ps, None)
   | Some p \<Rightarrow> (case D price of Inl e \<Rightarrow> (ps, Some e)
      | Inr d \<Rightarrow> (case reprice d p of (q, e) \<Rightarrow> (AList.update (position_key account pid) q ps, e))))"

text \<open>A broker row; an absent key is \<open>None\<close>.\<close>

record broker_position =
  bp_position_id :: "string option"
  bp_symbol :: "string option"
  bp_underlying :: "string option"
  bp_instrument :: "string option"
  bp_side :: "pside option"
  bp_quantity :: "declike option"
  bp_average_price :: "declike option"
  bp_ltp :: "declike option"

text \<open>\<open>bp.get("position_id") or bp.get("symbol")\<close>; a row with neither is keyed by \<open>None\<close>, whose
  text is \<open>"None"\<close>.\<close>

definition bp_pid :: "broker_position \<Rightarrow> string option" where
  "bp_pid bp = (if str_truthy (bp_position_id bp) then bp_position_id bp else bp_symbol bp)"

definition pid_text :: "string option \<Rightarrow> string" where
  "pid_text x = or_else x ''None''"

definition settle_from_broker :: "broker_position \<Rightarrow> position \<Rightarrow> position \<times> exn option" where
  "settle_from_broker bp p =
     (case py_int (or_else (bp_quantity bp) (IntV (p_quantity p))) of
        Inl e \<Rightarrow> (p, Some e)
      | Inr q \<Rightarrow> (let p1 = p\<lparr>p_quantity := q\<rparr> in
          case D (or_else (bp_average_price bp) (DecV (p_entry p1))) of
            Inl e \<Rightarrow> (p1, Some e)
          | Inr a \<Rightarrow> (let p2 = p1\<lparr>p_entry := a\<rparr> in
              (if p_quantity p2 = 0 then close_position p2 else p2, None))))"

definition position_from_broker :: "string \<Rightarrow> broker_position \<Rightarrow> position result" where
  "position_from_broker account bp =
     ebind (py_int (or_else (bp_quantity bp) (IntV 0))) (\<lambda>q.
     ebind (D (or_else (bp_average_price bp) (IntV 0))) (\<lambda>a.
     ebind (D (or_else (bp_ltp bp) (IntV 0))) (\<lambda>l.
     Inr \<lparr>p_account = account, p_id = pid_text (bp_pid bp),
          p_symbol = or_else (bp_symbol bp) (pid_text (bp_pid bp)), p_underlying = bp_underlying bp,
          p_instrument = bp_instrument bp, p_side = or_else (bp_side bp) LONG, p_quantity = q, p_entry = a,
          p_price = l, p_stop = None, p_target = None, p_trailing = None, p_unrealized = DFin 0,
          p_realized = DFin 0, p_exit = NONE, p_open = True\<rparr>)))"

definition sync_one :: "string \<Rightarrow> broker_position \<Rightarrow> positions \<Rightarrow> positions \<times> exn option" where
  "sync_one account bp ps = (let pid = pid_text (bp_pid bp) in
     case pm_get ps account pid of
       Some p \<Rightarrow> (case settle_from_broker bp p of
          (q, e) \<Rightarrow> (AList.update (position_key account pid) q ps, e))
     | None \<Rightarrow> (case position_from_broker account bp of
          Inl e \<Rightarrow> (ps, Some e)
        | Inr p \<Rightarrow> (case pm_upsert p ps of (ps', Inl e) \<Rightarrow> (ps', Some e) | (ps', Inr q) \<Rightarrow> (ps', None))))"

fun pm_sync_from_broker :: "string \<Rightarrow> broker_position list \<Rightarrow> positions \<Rightarrow> positions \<times> exn option" where
  "pm_sync_from_broker account [] ps = (ps, None)"
| "pm_sync_from_broker account (bp # bps) ps = (case sync_one account bp ps of
     (ps', Some e) \<Rightarrow> (ps', Some e) | (ps', None) \<Rightarrow> pm_sync_from_broker account bps ps')"

subsection \<open>The exit engine\<close>

record exit_context =
  ec_end_of_session :: bool
  ec_daily_loss_hit :: bool
  ec_has_circuit :: bool
  ec_max_hold :: "rat option"
  ec_held :: rat
  ec_technical :: bool
  ec_trend :: bool
  ec_regime :: bool
  ec_broker_failure :: bool

text \<open>The verdict names the trigger; the reason texts follow it and are not modelled.\<close>

definition exit_evaluate :: "position \<Rightarrow> exit_context \<Rightarrow> exit_trigger option result" where
  "exit_evaluate p c =
     (if \<not> p_open p then Inr None
      else if p_exit p = ORPHANED_ALERT then Inr (Some EMERGENCY)
      else if ec_end_of_session c then Inr (Some END_OF_SESSION)
      else if ec_daily_loss_hit c then Inr (Some DAILY_RISK_LIMIT)
      else if p_exit p = EXIT_BLOCKED_BY_CIRCUIT \<and> \<not> ec_has_circuit c then Inr (Some CIRCUIT_RECOVERY)
      else ebind (is_stop_hit p) (\<lambda>stop. if stop then Inr (Some STOP_LOSS)
      else ebind (is_target_hit p) (\<lambda>target. if target then Inr (Some TAKE_PROFIT)
      else Inr (if (case ec_max_hold c of None \<Rightarrow> False | Some m \<Rightarrow> m \<noteq> 0 \<and> m \<le> ec_held c)
                then Some TIME_EXIT
                else if ec_technical c then Some TECHNICAL_REVERSAL
                else if ec_trend c then Some TREND_REVERSAL
                else if ec_regime c then Some AI_REGIME_REVERSAL
                else if ec_broker_failure c then Some BROKER_FAILURE
                else None))))"

definition exit_request :: "position \<Rightarrow> bool \<Rightarrow> order_request" where
  "exit_request p emergency =
     \<lparr>rq_account = p_account p, rq_symbol = p_symbol p,
      rq_side = (case p_side p of LONG \<Rightarrow> ''SELL'' | SHORT \<Rightarrow> ''BUY''), rq_quantity = p_quantity p,
      rq_price = Some (DecV (p_price p)),
      rq_order_type = (if emergency then ''MARKET'' else ''MARKETABLE_LIMIT''),
      rq_instrument = p_instrument p, rq_spread_id = None, rq_expected = Some (DecV (p_price p)),
      rq_is_paper = True, rq_client_id = None\<rparr>"

text \<open>The exit state after the order came back; other statuses leave \<open>EXIT_SUBMITTED\<close>.\<close>

definition exit_state_of :: "order_status \<Rightarrow> exit_state" where
  "exit_state_of s = (case s of
     order_status.FILLED \<Rightarrow> EXIT_FILLED
   | order_status.PARTIALLY_FILLED \<Rightarrow> EXIT_PARTIALLY_FILLED
   | order_status.O_REJECTED \<Rightarrow> EXIT_REJECTED
   | order_status.UNKNOWN \<Rightarrow> EXIT_NETWORK_UNKNOWN
   | order_status.TIMED_OUT \<Rightarrow> EXIT_RETRYING
   | order_status.RECONCILING \<Rightarrow> EXIT_RETRYING
   | _ \<Rightarrow> EXIT_SUBMITTED)"

text \<open>The \<open>except\<close> clause looks for the word circuit in the message: the only message that can
  hold it is the refusal to submit from a status with that word.\<close>

definition failed_exit_state :: "order_record option \<Rightarrow> exit_state" where
  "failed_exit_state rec = (case rec of
     Some r \<Rightarrow> if o_status r = order_status.EXIT_BLOCKED_BY_CIRCUIT then EXIT_BLOCKED_BY_CIRCUIT
               else EXIT_NETWORK_UNKNOWN
   | None \<Rightarrow> EXIT_NETWORK_UNKNOWN)"

definition trigger_exit ::
  "broker_registry \<Rightarrow> order_manager \<Rightarrow> uuid \<Rightarrow> bool \<Rightarrow> position \<Rightarrow> order_manager \<times> position" where
  "trigger_exit g om fresh emergency p =
     (case create_intent om (exit_request p emergency) fresh of
        (om1, Inl e) \<Rightarrow> (om1, p\<lparr>p_exit := failed_exit_state None\<rparr>)
      | (om1, Inr r) \<Rightarrow> (case submit g (om_heap om1 ! r) of
          Inl e \<Rightarrow> (om1, p\<lparr>p_exit := failed_exit_state (Some (om_heap om1 ! r))\<rparr>)
        | Inr x \<Rightarrow> (put_rec r x om1, p\<lparr>p_exit := exit_state_of (o_status x)\<rparr>)))"

definition handle_exit_failure :: "string \<Rightarrow> position \<Rightarrow> position" where
  "handle_exit_failure status p =
     (if status \<in> {''REJECTED'', ''TIMED_OUT'', ''EXIT_NETWORK_UNKNOWN'', ''EXIT_BLOCKED_BY_CIRCUIT'',
                   ''PARTIALLY_FILLED''}
      then (if p_exit p \<in> {EXIT_REJECTED, EXIT_NETWORK_UNKNOWN, EXIT_BLOCKED_BY_CIRCUIT}
            then p\<lparr>p_exit := ORPHANED_ALERT\<rparr> else p\<lparr>p_exit := EXIT_RETRYING\<rparr>)
      else p)"

subsection \<open>Exits\<close>

fun reprice_all :: "dval list \<Rightarrow> position \<Rightarrow> position" where
  "reprice_all [] p = p"
| "reprice_all (d # ds) p = reprice_all ds (fst (reprice d p))"

text \<open>A stop that is as tight as \<open>s\<close>, on the protective side of the position.\<close>

definition tighter :: "pside \<Rightarrow> dval \<Rightarrow> dval \<Rightarrow> bool" where
  "tighter side s s' \<longleftrightarrow> (case side of LONG \<Rightarrow> dle s s' = Inr True | SHORT \<Rightarrow> dle s' s = Inr True)"

lemma dle_refl: "s \<noteq> DNaN \<Longrightarrow> dle s s = Inr True"
  by (cases s) (auto simp: dle_def dless_val_def)

lemma dle_trans: "dle a b = Inr True \<Longrightarrow> dle b c = Inr True \<Longrightarrow> dle a c = Inr True"
  by (cases a; cases b; cases c) (auto simp: dle_def dless_val_def)

lemma dlt_dle: "dlt a b = Inr True \<Longrightarrow> dle a b = Inr True"
  by (cases a; cases b) (auto simp: dle_def dlt_def dless_val_def)

lemma tighter_refl: "s \<noteq> DNaN \<Longrightarrow> tighter side s s"
  by (cases side) (simp_all add: tighter_def dle_refl)

lemma tighter_trans: "tighter side a b \<Longrightarrow> tighter side b c \<Longrightarrow> tighter side a c"
  by (cases side) (auto simp: tighter_def intro: dle_trans)

lemma tighter_defined: "tighter side a b \<Longrightarrow> b \<noteq> DNaN"
  by (cases side) (auto simp: tighter_def)

lemma refresh_pnl_fields:
  "refresh_pnl p = Inr q \<Longrightarrow> p_stop q = p_stop p \<and> p_side q = p_side p"
  by (auto simp: refresh_pnl_def exn_simps split: if_splits)

lemma trail_stop_tighter:
  assumes "trail_stop p = Inr q" and "p_stop p = Some s" and "s \<noteq> DNaN"
  shows "p_side q = p_side p \<and> (\<exists>s'. p_stop q = Some s' \<and> tighter (p_side p) s s')"
  using assms tighter_refl [OF assms(3), of "p_side p"]
  by (auto simp: trail_stop_def exn_simps tighter_def dlt_dle split: option.splits if_splits pside.splits)

lemma reprice_tighter:
  assumes "p_stop p = Some s" and "s \<noteq> DNaN"
  shows "p_side (fst (reprice d p)) = p_side p
    \<and> (\<exists>s'. p_stop (fst (reprice d p)) = Some s' \<and> tighter (p_side p) s s')"
proof (cases "refresh_pnl (p\<lparr>p_price := d\<rparr>)")
  case (Inl e)
  then show ?thesis using assms by (simp add: reprice_def tighter_refl)
next
  case (Inr q)
  then have q: "p_stop q = Some s" "p_side q = p_side p" using refresh_pnl_fields assms(1) by fastforce+
  show ?thesis
  proof (cases "trail_stop q")
    case (Inl e)
    then show ?thesis using Inr assms q by (simp add: reprice_def tighter_refl)
  next
    case inr: (Inr r)
    then show ?thesis using trail_stop_tighter [OF inr q(1) assms(2)] Inr q by (simp add: reprice_def)
  qed
qed

text \<open>
  Whatever prices arrive, an existing stop only ever tightens: it never falls on a
  long position and never rises on a short one, updates that raise included.
\<close>

theorem trailing_stop_monotone:
  assumes "p_stop p = Some s" and "s \<noteq> DNaN"
  shows "\<exists>s'. p_stop (reprice_all ds p) = Some s' \<and> tighter (p_side p) s s'"
  using assms
proof (induction ds p arbitrary: s rule: reprice_all.induct)
  case (1 p)
  then show ?case by (simp add: tighter_refl)
next
  case (2 d ds p)
  obtain s1 where s1: "p_side (fst (reprice d p)) = p_side p" "p_stop (fst (reprice d p)) = Some s1"
    "tighter (p_side p) s s1" using reprice_tighter [OF 2(2,3), of d] by blast
  then show ?case using "2.IH" [OF s1(2) tighter_defined [OF s1(3)]] by (auto intro: tighter_trans)
qed

definition demo_position :: position where
  "demo_position = \<lparr>p_account = ''A'', p_id = ''P1'', p_symbol = ''NIFTY'', p_underlying = None,
     p_instrument = None, p_side = LONG, p_quantity = 75, p_entry = DFin 100, p_price = DFin 100,
     p_stop = Some (DFin 90), p_target = None, p_trailing = Some (DFin 10), p_unrealized = DFin 0,
     p_realized = DFin 0, p_exit = NONE, p_open = True\<rparr>"

theorem trailing_stop_monotone_witness:
  "\<exists>s. p_stop (reprice_all [DFin 120, DFin 95] demo_position) = Some s \<and> dle (DFin 90) s = Inr True"
  using trailing_stop_monotone [of demo_position "DFin 90" "[DFin 120, DFin 95]"]
  by (simp add: demo_position_def tighter_def)

text \<open>
  An exit attempt and its failure handling touch nothing but the exit state, and
  neither of them ever declares the position closed (quantity and openness stay as they
  were).
\<close>

theorem exits_never_assume_closed:
  "(\<exists>s. snd (trigger_exit g om fresh emergency p) = p\<lparr>p_exit := s\<rparr> \<and> s \<notin> {NONE, CLOSED, ORPHANED_ALERT})
   \<and> handle_exit_failure st p \<in> {p, p\<lparr>p_exit := ORPHANED_ALERT\<rparr>, p\<lparr>p_exit := EXIT_RETRYING\<rparr>}"
proof
  have "exit_state_of s \<notin> {NONE, CLOSED, ORPHANED_ALERT}" for s by (cases s) (simp_all add: exit_state_of_def)
  moreover have "failed_exit_state r \<notin> {NONE, CLOSED, ORPHANED_ALERT}" for r
    by (simp add: failed_exit_state_def split: option.split)
  ultimately show "\<exists>s. snd (trigger_exit g om fresh emergency p) = p\<lparr>p_exit := s\<rparr>
      \<and> s \<notin> {NONE, CLOSED, ORPHANED_ALERT}"
    unfolding trigger_exit_def by (auto split: prod.split sum.split)
  show "handle_exit_failure st p \<in> {p, p\<lparr>p_exit := ORPHANED_ALERT\<rparr>, p\<lparr>p_exit := EXIT_RETRYING\<rparr>}"
    by (simp add: handle_exit_failure_def)
qed

text \<open>
  A hit stop exits at once: the holding time, the technical, trend and AI signals and
  a broker failure cannot change the verdict; only the five triggers checked first can
  take its place.
\<close>

theorem stop_never_delayed:
  assumes "is_stop_hit p = Inr True"
  shows "\<exists>t \<in> {EMERGENCY, END_OF_SESSION, DAILY_RISK_LIMIT, CIRCUIT_RECOVERY, STOP_LOSS}.
    \<forall>hold held tech trend regime broker.
      exit_evaluate p (c\<lparr>ec_max_hold := hold, ec_held := held, ec_technical := tech, ec_trend := trend,
        ec_regime := regime, ec_broker_failure := broker\<rparr>) = Inr (Some t)"
proof -
  have "p_open p" using assms by (auto simp: is_stop_hit_def split: option.splits if_splits)
  then show ?thesis using assms by (simp add: exit_evaluate_def)
qed

theorem stop_never_delayed_witness:
  "\<exists>t. exit_evaluate (demo_position\<lparr>p_price := DFin 89\<rparr>) \<lparr>ec_end_of_session = False, ec_daily_loss_hit = False,
     ec_has_circuit = False, ec_max_hold = None, ec_held = 0, ec_technical = True, ec_trend = False,
     ec_regime = True, ec_broker_failure = False\<rparr> = Inr (Some t)"
proof -
  have "is_stop_hit (demo_position\<lparr>p_price := DFin 89\<rparr>) = Inr True"
    by (simp add: is_stop_hit_def demo_position_def nonzero_price_def)
  from stop_never_delayed [OF this, of "\<lparr>ec_end_of_session = False, ec_daily_loss_hit = False,
     ec_has_circuit = False, ec_max_hold = None, ec_held = 0, ec_technical = True, ec_trend = False,
     ec_regime = True, ec_broker_failure = False\<rparr>"] show ?thesis by force
qed

lemma submit_keeps:
  assumes "submit g r = Inr x" and "P r"
    and "\<And>r s. P (r\<lparr>o_status := s\<rparr>) = P r" "\<And>r n. P (r\<lparr>o_attempts := n\<rparr>) = P r"
      "\<And>r b. P (r\<lparr>o_broker_id := b\<rparr>) = P r" "\<And>r v. P (r\<lparr>o_fill_price := v\<rparr>) = P r"
      "\<And>r v. P (r\<lparr>o_fill_quantity := v\<rparr>) = P r" "\<And>r v. P (r\<lparr>o_slippage := v\<rparr>) = P r"
  shows "P x"
proof -
  have "P (record_answer a r1)" if "P r1" for a r1
  proof -
    have "P (fst (answer_writes a r1))"
      unfolding answer_writes_def
      by (rule set_attr_keeps [where P = P] | simp add: assms(3-) that)+
    then show ?thesis by (simp add: record_answer_def settle_def assms(3))
  qed
  then show ?thesis using assms
    by (auto simp: submit_def Let_def split: if_splits broker_answer.splits)
qed

lemma exit_request_record:
  "\<exists>x. new_record (exit_request p emergency) fresh = Inr x \<and> o_status x = CREATED
    \<and> o_client_id x = fresh \<and> o_is_paper x \<and> o_attempts x = 0 \<and> o_quantity x = p_quantity p"
  by (simp add: new_record_def exit_request_def opt_D_def)

text \<open>
  Every exit attempt sends a new order under the fresh id it is given, for the full
  position quantity and marked as paper; a retry after an unanswered exit is therefore a
  second order, not a resend.
\<close>

theorem exit_is_a_new_paper_order:
  assumes "\<And>a. get_order om fresh (Some a) = None"
  shows "\<exists>x. om_heap (fst (trigger_exit g om fresh emergency p)) = om_heap om @ [x]
    \<and> o_client_id x = fresh \<and> o_is_paper x \<and> o_attempts x = 1 \<and> o_quantity x = p_quantity p"
proof -
  let ?q = "exit_request p emergency"
  obtain n where n: "new_record ?q fresh = Inr n" "o_status n = CREATED" "o_client_id n = fresh"
    "o_is_paper n" "o_attempts n = 0" "o_quantity n = p_quantity p"
    using exit_request_record by blast
  have cid: "or_else (rq_client_id ?q) fresh = fresh" by (simp add: exit_request_def)
  have none: "map_of (om_index (prune om)) (AcctKey a fresh) = None"
    "map_of (om_index (prune om)) (CidKey fresh) = None" for a
    using assms prune_None [of om] by (simp_all add: get_order_None)
  obtain om1 where om1: "create_intent om ?q fresh = (om1, Inr (length (om_heap om)))"
    "om_heap om1 = om_heap om @ [n]"
    using n(1) cid none by (auto simp: create_intent_def Let_def)
  have "\<exists>x. submit g n = Inr x" using n(2) by (simp add: submit_def Let_def)
  then obtain x where x: "submit g n = Inr x" by blast
  have "o_client_id x = fresh \<and> o_is_paper x \<and> o_quantity x = p_quantity p"
    by (rule submit_keeps [OF x]) (simp_all add: n)
  moreover have "o_attempts x = 1" using submit_outcome [OF x] n(5) by simp
  ultimately show ?thesis by (simp add: trigger_exit_def om1 x)
qed

theorem exit_is_a_new_paper_order_witness:
  "\<exists>x. om_heap (fst (trigger_exit \<lparr>br_adapters = [], br_paper = silent_broker\<rparr> om_init 5 True demo_position)) = [x]
     \<and> o_client_id x = 5 \<and> o_is_paper x"
proof -
  have "get_order om_init 5 (Some a) = None" for a by (simp add: get_order_def om_init_def)
  from exit_is_a_new_paper_order [OF this] show ?thesis by (fastforce simp: om_init_def)
qed

lemma settle_from_broker_closed: "\<not> p_open p \<Longrightarrow> \<not> p_open (fst (settle_from_broker bp p))"
  by (auto simp: settle_from_broker_def close_position_def Let_def split: sum.split)

lemma position_key_inj [simp]: "position_key a x = position_key a y \<longleftrightarrow> x = y"
  by (simp add: position_key_def)

lemma from_broker_key:
  "position_from_broker a bp = Inr p \<Longrightarrow> p_account p = a \<and> p_id p = pid_text (bp_pid bp)"
  by (auto simp: position_from_broker_def exn_simps)

lemma upsert_other:
  "k \<noteq> position_key (p_account p) (p_id p) \<Longrightarrow> map_of (fst (pm_upsert p ps)) k = map_of ps k"
  by (simp add: pm_upsert_def Let_def dict_simps split: sum.split)

lemma sync_one_closed:
  assumes "pm_get ps account pid = Some p" and "\<not> p_open p"
  shows "\<exists>q. pm_get (fst (sync_one account bp ps)) account pid = Some q \<and> \<not> p_open q"
proof (cases "pm_get ps account (pid_text (bp_pid bp))")
  case (Some p')
  then show ?thesis using assms settle_from_broker_closed [of p bp]
    by (cases "pid = pid_text (bp_pid bp)")
      (auto simp: sync_one_def Let_def pm_get_def dict_simps split: prod.split)
next
  case None
  then have "pid \<noteq> pid_text (bp_pid bp)" using assms by auto
  then have ne: "position_key account pid \<noteq> position_key account (pid_text (bp_pid bp))" by simp
  show ?thesis
  proof (cases "position_from_broker account bp")
    case (Inl e)
    then show ?thesis using None assms by (simp add: sync_one_def)
  next
    case (Inr n)
    then have "map_of (fst (pm_upsert n ps)) (position_key account pid) = map_of ps (position_key account pid)"
      using upsert_other [of "position_key account pid" n ps] from_broker_key [OF Inr] ne by simp
    moreover have "fst (sync_one account bp ps) = fst (pm_upsert n ps)"
      using None Inr by (auto simp: sync_one_def split: prod.split sum.split)
    ultimately show ?thesis using assms by (simp add: pm_get_def)
  qed
qed

text \<open>
  Synchronising with the broker never re-opens a closed position, whatever quantity
  the broker reports for it.
\<close>

theorem sync_never_reopens:
  assumes "pm_get ps account pid = Some p" and "\<not> p_open p"
  shows "\<exists>q. pm_get (fst (pm_sync_from_broker account bps ps)) account pid = Some q \<and> \<not> p_open q"
  using assms
proof (induction account bps ps arbitrary: p rule: pm_sync_from_broker.induct)
  case (1 account ps)
  then show ?case by simp
next
  case (2 account bp bps ps)
  obtain ps' e where one: "sync_one account bp ps = (ps', e)" by fastforce
  obtain q where q: "pm_get ps' account pid = Some q" "\<not> p_open q"
    using sync_one_closed [OF 2(2,3), of bp] one by auto
  show ?case
  proof (cases e)
    case None
    then show ?thesis using "2.IH" [OF one [symmetric] None q] one by simp
  next
    case (Some x)
    then show ?thesis using q one by simp
  qed
qed

theorem sync_never_reopens_witness:
  "\<exists>q. pm_get (fst (pm_sync_from_broker ''A'' [\<lparr>bp_position_id = Some ''P1'', bp_symbol = None,
       bp_underlying = None, bp_instrument = None, bp_side = None, bp_quantity = Some (IntV 150),
       bp_average_price = None, bp_ltp = None\<rparr>] [(''A:P1'', close_position demo_position)])) ''A'' ''P1''
     = Some q \<and> \<not> p_open q"
  by (rule sync_never_reopens [of _ _ _ "close_position demo_position"])
    (simp_all add: pm_get_def position_key_def close_position_def)

end
