(* ===== verification/Droid_Capital.thy ===== *)
theory Droid_Capital
  imports Droid_Money
begin

text \<open>
  \<open>backend/app/algo/capital.py\<close>: capital reservations against a per-account limit.

  The database is a state: configurations per account, reservation rows and position rows (the
  tables of \<open>algo/models.py\<close>). Money columns are \<open>Numeric(18,2)\<close>: what is stored is rounded
  to the paisa, half away from zero (\<open>numeric2\<close>), and \<open>SUM\<close> is exact. \<open>reserve\<close> runs
  under a row lock, so it is one step; what the lock request answers (granted, timed out, another
  error) is an argument. Row ids and timestamps other than the reservation id are left out.
\<close>

subsection \<open>Tables\<close>

definition numeric2 :: "rat \<Rightarrow> rat" where
  "numeric2 x = of_int (round_half_up (x * 100)) / 100"

record capital_config =
  cc_limit :: rat
  cc_max_per_trade :: "rat option"

datatype reservation_status = RESERVED | RELEASED | CONSUMED

record reservation =
  rv_account :: string
  rv_id :: nat
  rv_order :: nat
  rv_amount :: rat
  rv_status :: reservation_status

record position_row =
  pr_account :: string
  pr_margin :: "rat option"
  pr_open :: bool

record capital_db =
  db_config :: "(string, capital_config) dict"
  db_reservations :: "reservation list"
  db_positions :: "position_row list"

text \<open>\<open>SUM\<close> over the account's open positions (\<open>NULL\<close> margins are skipped) and over its rows
  in status \<open>RESERVED\<close>.\<close>

definition deployed_sum :: "capital_db \<Rightarrow> string \<Rightarrow> rat" where
  "deployed_sum db a = sum_list (map (\<lambda>p. or_else (pr_margin p) 0)
     (filter (\<lambda>p. pr_account p = a \<and> pr_open p) (db_positions db)))"

definition reserved_sum :: "capital_db \<Rightarrow> string \<Rightarrow> rat" where
  "reserved_sum db a = sum_list (map rv_amount
     (filter (\<lambda>r. rv_account r = a \<and> rv_status r = RESERVED) (db_reservations db)))"

record capital_snapshot =
  cs_limit :: rat
  cs_deployed :: rat
  cs_reserved :: rat
  cs_available :: rat
  cs_utilization :: rat

definition config_limit :: "capital_db \<Rightarrow> string \<Rightarrow> rat" where
  "config_limit db a = (case map_of (db_config db) a of None \<Rightarrow> 3000 | Some c \<Rightarrow> cc_limit c)"

definition free_capital :: "capital_db \<Rightarrow> string \<Rightarrow> rat" where
  "free_capital db a = drnd (drnd (config_limit db a - deployed_sum db a) - reserved_sum db a)"

definition get_snapshot :: "capital_db \<Rightarrow> string \<Rightarrow> capital_snapshot" where
  "get_snapshot db a = \<lparr>cs_limit = config_limit db a, cs_deployed = deployed_sum db a,
     cs_reserved = reserved_sum db a,
     cs_available = (if free_capital db a < 0 then 0 else free_capital db a),
     cs_utilization = (if 0 < config_limit db a
       then drnd (drnd (drnd (deployed_sum db a + reserved_sum db a) / config_limit db a) * 100) else 0)\<rparr>"

subsection \<open>Operations\<close>

datatype lock_outcome = LockGranted | LockTimeout | LockError

datatype reserve_refusal =
    INVALID_AMOUNT | INSUFFICIENT_CAPITAL | EXCEEDS_MAX_CAPITAL_PER_TRADE | LOCK_CONTENTION
  | CAPITAL_RESERVE_ERROR

type_synonym reserve_result = "reserve_refusal + nat"

text \<open>The configuration row, created with the column defaults when the account has none.\<close>

definition default_config :: capital_config where
  "default_config = \<lparr>cc_limit = 3000, cc_max_per_trade = Some 1000\<rparr>"

definition ensure_config :: "capital_db \<Rightarrow> string \<Rightarrow> capital_db" where
  "ensure_config db a = (if map_of (db_config db) a = None
     then db\<lparr>db_config := AList.update a default_config (db_config db)\<rparr> else db)"

text \<open>\<open>D(x) if x else None\<close>: a zero cap means no cap.\<close>

definition trade_cap :: "capital_db \<Rightarrow> string \<Rightarrow> rat option" where
  "trade_cap db a = (case map_of (db_config db) a of
     None \<Rightarrow> None
   | Some c \<Rightarrow> (case cc_max_per_trade c of Some m \<Rightarrow> if m = 0 then None else Some m | None \<Rightarrow> None))"

text \<open>The comparisons with an infinite amount are those of \<open>Decimal\<close>.\<close>

definition above :: "dval \<Rightarrow> rat \<Rightarrow> bool" where
  "above amt x = dless_val (DFin x) amt"

definition stored_amount :: "dval \<Rightarrow> rat" where
  "stored_amount amt = (case amt of DFin x \<Rightarrow> numeric2 x | _ \<Rightarrow> 0)"

definition reserve ::
  "capital_db \<Rightarrow> string \<Rightarrow> nat \<Rightarrow> declike \<Rightarrow> lock_outcome \<Rightarrow> nat \<Rightarrow> capital_db \<times> reserve_result result" where
  "reserve db0 a order amount lock rid =
     (case ebind (D amount) (\<lambda>amt. ebind (dle amt (DFin 0)) (\<lambda>z. Inr (amt, z))) of
        Inl e \<Rightarrow> (db0, Inl e)
      | Inr (amt, True) \<Rightarrow> (db0, Inr (Inl INVALID_AMOUNT))
      | Inr (amt, False) \<Rightarrow> (case lock of
          LockTimeout \<Rightarrow> (db0, Inr (Inl LOCK_CONTENTION))
        | LockError \<Rightarrow> (db0, Inr (Inl CAPITAL_RESERVE_ERROR))
        | LockGranted \<Rightarrow> (let db = ensure_config db0 a in
            if above amt (free_capital db a) then (db, Inr (Inl INSUFFICIENT_CAPITAL))
            else if (case trade_cap db a of None \<Rightarrow> False | Some m \<Rightarrow> above amt m)
              then (db, Inr (Inl EXCEEDS_MAX_CAPITAL_PER_TRADE))
            else (db\<lparr>db_reservations := db_reservations db @
                      [\<lparr>rv_account = a, rv_id = rid, rv_order = order, rv_amount = stored_amount amt,
                        rv_status = RESERVED\<rparr>]\<rparr>, Inr (Inr rid)))))"

text \<open>One retry after contention, on the state the rollback leaves.\<close>

definition reserve_with_retry ::
  "capital_db \<Rightarrow> string \<Rightarrow> nat \<Rightarrow> declike \<Rightarrow> lock_outcome \<Rightarrow> nat \<Rightarrow> capital_db \<Rightarrow> lock_outcome \<Rightarrow> nat
    \<Rightarrow> capital_db \<times> reserve_result result" where
  "reserve_with_retry db a order amount lock1 rid1 rolled_back lock2 rid2 =
     (case reserve db a order amount lock1 rid1 of
        (db1, Inr (Inl LOCK_CONTENTION)) \<Rightarrow> reserve rolled_back a order amount lock2 rid2
      | res \<Rightarrow> res)"

text \<open>Reservation ids are unique in the table, so the row is the first with the id.\<close>

fun set_status :: "nat \<Rightarrow> reservation_status \<Rightarrow> reservation list \<Rightarrow> reservation list \<times> bool" where
  "set_status rid s [] = ([], False)"
| "set_status rid s (r # rs) =
     (if rv_id r = rid
      then (if rv_status r = RESERVED then (r\<lparr>rv_status := s\<rparr> # rs, True) else (r # rs, False))
      else (case set_status rid s rs of (rs', b) \<Rightarrow> (r # rs', b)))"

definition change_reservation :: "reservation_status \<Rightarrow> capital_db \<Rightarrow> nat \<Rightarrow> capital_db \<times> bool" where
  "change_reservation s db rid = (case set_status rid s (db_reservations db) of
     (rs, b) \<Rightarrow> (db\<lparr>db_reservations := rs\<rparr>, b))"

definition release :: "capital_db \<Rightarrow> nat \<Rightarrow> capital_db \<times> bool" where
  "release = change_reservation RELEASED"

definition consume :: "capital_db \<Rightarrow> nat \<Rightarrow> capital_db \<times> bool" where
  "consume = change_reservation CONSUMED"

record limit_check =
  lc_exceeded :: bool
  lc_deployed :: rat
  lc_new_limit :: rat
  lc_available :: rat

definition check_limit_reduction :: "capital_db \<Rightarrow> string \<Rightarrow> rat \<Rightarrow> limit_check" where
  "check_limit_reduction db a new_limit =
     (let s = get_snapshot db a; deployed = drnd (cs_deployed s + cs_reserved s)
      in \<lparr>lc_exceeded = (new_limit < deployed), lc_deployed = deployed, lc_new_limit = new_limit,
          lc_available = drnd (new_limit - deployed)\<rparr>)"

subsection \<open>The money column\<close>

lemma round_half_up_neg: "round_half_up (- x) = - round_half_up x"
proof (cases "x = 0")
  case True
  then show ?thesis using round_half_up_int [of 0] by simp
qed (auto simp: round_half_up_def)

lemma round_half_up_mono: "x \<le> y \<Longrightarrow> round_half_up x \<le> round_half_up y"
proof -
  assume le: "x \<le> y"
  consider "0 \<le> x" | "x < 0" "0 \<le> y" | "y < 0" by linarith
  then show ?thesis
  proof cases
    case 1
    then show ?thesis using le by (auto simp: round_half_up_def intro: floor_mono)
  next
    case 2
    have "0 \<le> \<lfloor>- x + 1/2\<rfloor>" "0 \<le> \<lfloor>y + 1/2\<rfloor>" using 2 by (simp_all add: le_floor_iff)
    then have "- \<lfloor>- x + 1/2\<rfloor> \<le> \<lfloor>y + 1/2\<rfloor>" by linarith
    then show ?thesis using 2 by (simp only: round_half_up_def not_le [symmetric] if_True if_False)
  next
    case 3
    then show ?thesis using le by (auto simp: round_half_up_def intro: floor_mono)
  qed
qed

interpretation cents: rounding numeric2
proof
  show "numeric2 x \<le> numeric2 y" if "x \<le> y" for x y
    using round_half_up_mono [of "x * 100" "y * 100"] that by (simp add: numeric2_def divide_right_mono)
  show "numeric2 0 = 0" using round_half_up_int [of 0] by (simp add: numeric2_def)
  show "numeric2 (- x) = - numeric2 x" for x using round_half_up_neg [of "x * 100"] by (simp add: numeric2_def)
  show "numeric2 (numeric2 x) = numeric2 x" for x by (simp add: numeric2_def)
qed

definition in_column :: "rat \<Rightarrow> bool" where
  "in_column x \<longleftrightarrow> numeric2 x = x"

lemma in_column_cents: "in_column (of_int n / 100)"
  by (simp add: in_column_def numeric2_def)

lemma in_column_iff: "in_column x \<longleftrightarrow> (\<exists>n. x = of_int n / 100)"
  by (metis in_column_cents in_column_def numeric2_def)

lemma in_column_numeric2 [simp]: "in_column (numeric2 x)"
  by (simp add: in_column_def cents.rnd_idem)

lemma in_column_add: "in_column x \<Longrightarrow> in_column y \<Longrightarrow> in_column (x + y)"
  by (metis in_column_iff add_divide_distrib of_int_add)

lemma in_column_diff: "in_column x \<Longrightarrow> in_column y \<Longrightarrow> in_column (x - y)"
  by (metis in_column_iff diff_divide_distrib of_int_diff)

lemma in_column_sum: "(\<And>x. x \<in> set xs \<Longrightarrow> in_column x) \<Longrightarrow> in_column (sum_list xs)"
  by (induction xs) (use in_column_cents [of 0] in \<open>auto intro: in_column_add\<close>)

text \<open>Column values below \<open>10^26\<close> are exact in the decimal context.\<close>

lemma column_exact:
  assumes "in_column x" and "\<bar>x\<bar> \<le> 10 ^ 26"
  shows "drnd x = x"
proof -
  obtain n where n: "x = of_int n / 100" using assms(1) in_column_iff by auto
  have "\<bar>rat_of_int n\<bar> \<le> 10 ^ 28" using assms(2) by (simp add: n abs_divide)
  then have "\<bar>n\<bar> \<le> 10 ^ 28"
    by (metis of_int_abs of_int_le_iff of_int_numeral of_int_power)
  then show ?thesis using grid_product_exact [of n PRICE_QUANT]
    by (simp add: PRICE_QUANT_def lit_val_def n power_int_def power2_eq_square)
qed

subsection \<open>The limit is kept\<close>

definition capital_ok :: "capital_db \<Rightarrow> string \<Rightarrow> bool" where
  "capital_ok db a \<longleftrightarrow> in_column (config_limit db a) \<and> config_limit db a \<le> 10 ^ 16
     \<and> in_column (deployed_sum db a) \<and> 0 \<le> deployed_sum db a
     \<and> (\<forall>r \<in> set (db_reservations db). in_column (rv_amount r) \<and> 0 \<le> rv_amount r)
     \<and> deployed_sum db a + reserved_sum db a \<le> config_limit db a"

lemma reserved_sum_ok:
  assumes "\<forall>r \<in> set (db_reservations db). in_column (rv_amount r) \<and> 0 \<le> rv_amount r"
  shows "in_column (reserved_sum db a)" and "0 \<le> reserved_sum db a"
  using assms by (auto simp: reserved_sum_def intro!: in_column_sum sum_list_nonneg)

lemma free_capital_exact:
  assumes "capital_ok db a"
  shows "free_capital db a = config_limit db a - deployed_sum db a - reserved_sum db a"
    and "in_column (free_capital db a)"
proof -
  note ok = assms [unfolded capital_ok_def]
  have c: "in_column (reserved_sum db a)" "0 \<le> reserved_sum db a" using reserved_sum_ok ok by blast+
  have d1: "in_column (config_limit db a - deployed_sum db a)" using ok by (auto intro: in_column_diff)
  have d2: "in_column (config_limit db a - deployed_sum db a - reserved_sum db a)" using d1 c by (auto intro: in_column_diff)
  have "drnd (config_limit db a - deployed_sum db a) = config_limit db a - deployed_sum db a"
    by (rule column_exact [OF d1]) (use ok c in auto)
  moreover have "drnd (config_limit db a - deployed_sum db a - reserved_sum db a) =
      config_limit db a - deployed_sum db a - reserved_sum db a"
    by (rule column_exact [OF d2]) (use ok c in auto)
  ultimately show "free_capital db a = config_limit db a - deployed_sum db a - reserved_sum db a"
    by (simp add: free_capital_def)
  then show "in_column (free_capital db a)" using d2 by simp
qed

lemma ensure_config_sums [simp]:
  "deployed_sum (ensure_config db b) a = deployed_sum db a"
  "reserved_sum (ensure_config db b) a = reserved_sum db a"
  "config_limit (ensure_config db b) a = config_limit db a"
  "db_reservations (ensure_config db b) = db_reservations db"
  by (simp_all add: ensure_config_def deployed_sum_def reserved_sum_def config_limit_def dict_simps default_config_def)

lemma ensure_config_ok [simp]: "capital_ok (ensure_config db b) a \<longleftrightarrow> capital_ok db a"
  by (simp add: capital_ok_def)

definition add_row :: "reservation \<Rightarrow> capital_db \<Rightarrow> capital_db" where
  "add_row r db = db\<lparr>db_reservations := db_reservations db @ [r]\<rparr>"

lemma add_row_ok:
  assumes "capital_ok db a" and "in_column (rv_amount r)" and "0 \<le> rv_amount r" and "rv_status r = RESERVED"
    and "rv_account r = a \<longrightarrow> rv_amount r \<le> free_capital db a"
  shows "capital_ok (add_row r db) a"
  using assms free_capital_exact [OF assms(1)]
  by (auto simp: capital_ok_def add_row_def deployed_sum_def config_limit_def reserved_sum_def)

text \<open>A reserve either leaves the rows alone or adds one within the free capital.\<close>

lemma reserve_shape:
  obtains "fst (reserve db b order amount lock rid) = db"
  | "fst (reserve db b order amount lock rid) = ensure_config db b"
  | x where "0 < x" "x \<le> free_capital (ensure_config db b) b"
      "fst (reserve db b order amount lock rid) = add_row \<lparr>rv_account = b, rv_id = rid, rv_order = order,
         rv_amount = numeric2 x, rv_status = RESERVED\<rparr> (ensure_config db b)"
proof (cases "ebind (D amount) (\<lambda>amt. ebind (dle amt (DFin 0)) (\<lambda>z. Inr (amt, z)))")
  case (Inl e)
  then show ?thesis using that(1) by (simp add: reserve_def)
next
  case (Inr v)
  obtain amt z where v: "v = (amt, z)" by fastforce
  show ?thesis
  proof (cases "z \<or> lock \<noteq> LockGranted \<or> above amt (free_capital (ensure_config db b) b)
      \<or> (case trade_cap (ensure_config db b) b of None \<Rightarrow> False | Some m \<Rightarrow> above amt m)")
    case True
    then show ?thesis using that(1,2) Inr v
      by (cases z; cases lock) (auto simp: reserve_def Let_def split: if_splits)
  next
    case False
    then have cap: "\<not> (case trade_cap (ensure_config db b) b of None \<Rightarrow> False | Some m \<Rightarrow> above amt m)" by blast
    have pos: "dle amt (DFin 0) = Inr False" using Inr v False by (auto simp: exn_simps)
    have "\<not> above amt (free_capital (ensure_config db b) b)" using False by simp
    with pos obtain x where x: "amt = DFin x" "0 < x" "x \<le> free_capital (ensure_config db b) b"
      by (cases amt) (auto simp: dle_def dless_val_def above_def split: if_splits)
    show ?thesis
      by (rule that(3) [OF x(2,3)])
        (use Inr v False x(1) in \<open>auto simp: reserve_def Let_def add_row_def stored_amount_def split: option.splits\<close>)
  qed
qed

lemma reserve_ok: "capital_ok db a \<Longrightarrow> capital_ok (fst (reserve db b order amount lock rid)) a"
proof (cases rule: reserve_shape [of db b order amount lock rid])
  case (3 x)
  assume ok: "capital_ok db a"
  have "capital_ok (add_row \<lparr>rv_account = b, rv_id = rid, rv_order = order,
         rv_amount = numeric2 x, rv_status = RESERVED\<rparr> (ensure_config db b)) a"
    using ok 3 free_capital_exact [of "ensure_config db b" a]
    by (intro add_row_ok) (auto intro: cents.rnd_nonneg cents.rnd_le_rep simp: in_column_def cents.rnd_idem)
  then show ?thesis using 3 by simp
qed auto

lemma set_status_rows:
  "r \<in> set (fst (set_status rid s rs)) \<Longrightarrow> \<exists>r' \<in> set rs. rv_amount r = rv_amount r'"
  by (induction rs) (auto split: if_splits prod.splits)

lemma set_status_sum:
  assumes "s \<noteq> RESERVED" and "\<forall>r \<in> set rs. 0 \<le> rv_amount r"
  shows "sum_list (map rv_amount (filter (\<lambda>r. rv_account r = a \<and> rv_status r = RESERVED) (fst (set_status rid s rs))))
    \<le> sum_list (map rv_amount (filter (\<lambda>r. rv_account r = a \<and> rv_status r = RESERVED) rs))"
  using assms by (induction rs) (auto split: prod.splits)

lemma change_ok: "capital_ok db a \<Longrightarrow> s \<noteq> RESERVED \<Longrightarrow> capital_ok (fst (change_reservation s db rid)) a"
proof -
  assume ok: "capital_ok db a" and s: "s \<noteq> RESERVED"
  have rows: "db_reservations (fst (change_reservation s db rid)) = fst (set_status rid s (db_reservations db))"
    by (simp add: change_reservation_def split: prod.split)
  have same: "deployed_sum (fst (change_reservation s db rid)) a = deployed_sum db a"
    "config_limit (fst (change_reservation s db rid)) a = config_limit db a"
    by (simp_all add: change_reservation_def deployed_sum_def config_limit_def split: prod.split)
  have "reserved_sum (fst (change_reservation s db rid)) a \<le> reserved_sum db a"
    unfolding reserved_sum_def rows using ok s by (intro set_status_sum) (auto simp: capital_ok_def)
  then show ?thesis
    using ok set_status_rows [of _ rid s "db_reservations db"] unfolding capital_ok_def same rows by fastforce
qed

inductive capital_step :: "capital_db \<Rightarrow> capital_db \<Rightarrow> bool" where
  step_reserve: "capital_step db (fst (reserve db b order amount lock rid))"
| step_release: "capital_step db (fst (release db rid))"
| step_consume: "capital_step db (fst (consume db rid))"

inductive_cases capital_stepE: "capital_step db db'"

text \<open>
  Through any interleaving of reserve, release and consume calls of any accounts, with any lock
  outcomes, an account whose deployed and reserved capital is within its limit stays within it. A
  consumed reservation is in neither sum: \<open>submit_order\<close> (\<open>algo_service.py\<close>) consumes the reservation of a
  filled order and no code of the repository inserts a position row, so the limit bounds only what is
  pending at one time (\<open>consumed_capital_unbounded\<close>).
\<close>

theorem never_overcommitted:
  assumes "capital_step\<^sup>*\<^sup>* db db'" and "capital_ok db a"
  shows "capital_ok db' a"
  using assms
proof (induction rule: rtranclp_induct)
  case (step db1 db2)
  then have ok: "capital_ok db1 a" by simp
  from step(2) show ?case
    by (rule capital_stepE) (use ok in \<open>simp_all add: reserve_ok release_def consume_def change_ok\<close>)
qed simp

definition demo_db :: capital_db where
  "demo_db = \<lparr>db_config = [(''A'', \<lparr>cc_limit = 2000, cc_max_per_trade = None\<rparr>)], db_reservations = [],
     db_positions = [\<lparr>pr_account = ''A'', pr_margin = Some 500, pr_open = True\<rparr>]\<rparr>"

lemma demo_db_ok: "capital_ok demo_db ''A''"
  using in_column_cents [of 200000] in_column_cents [of 50000]
  by (simp add: capital_ok_def demo_db_def config_limit_def deployed_sum_def reserved_sum_def)

theorem never_overcommitted_witness:
  "capital_ok (fst (release (fst (reserve demo_db ''A'' 1 (IntV 1500) LockGranted 7)) 7)) ''A''"
proof -
  have "capital_step\<^sup>*\<^sup>* demo_db (fst (release (fst (reserve demo_db ''A'' 1 (IntV 1500) LockGranted 7)) 7))"
    by (meson step_reserve step_release rtranclp.rtrancl_into_rtrancl rtranclp.rtrancl_refl)
  then show ?thesis using demo_db_ok by (rule never_overcommitted)
qed

text \<open>What was reserved and consumed.\<close>

definition consumed_sum :: "capital_db \<Rightarrow> string \<Rightarrow> rat" where
  "consumed_sum db a = sum_list (map rv_amount
     (filter (\<lambda>r. rv_account r = a \<and> rv_status r = CONSUMED) (db_reservations db)))"

definition spent_row :: "nat \<Rightarrow> reservation" where
  "spent_row i = \<lparr>rv_account = ''A'', rv_id = i, rv_order = i, rv_amount = 1500, rv_status = CONSUMED\<rparr>"

definition spent_db :: "nat \<Rightarrow> capital_db" where
  "spent_db n = demo_db\<lparr>db_reservations := map spent_row [0..<n]\<rparr>"

lemma spent_sums: "reserved_sum (spent_db n) ''A'' = 0" "consumed_sum (spent_db n) ''A'' = of_nat n * 1500"
  by (induction n) (simp_all add: spent_db_def reserved_sum_def consumed_sum_def spent_row_def algebra_simps)

lemma spent_reserve: "fst (reserve (spent_db n) ''A'' n (IntV 1500) LockGranted n)
    = spent_db n\<lparr>db_reservations := map spent_row [0..<n] @ [(spent_row n)\<lparr>rv_status := RESERVED\<rparr>]\<rparr>"
proof -
  have c: "ensure_config (spent_db n) ''A'' = spent_db n" by (simp add: ensure_config_def spent_db_def demo_db_def)
  have f: "free_capital (spent_db n) ''A'' = 1500"
    using spent_sums(1) [of n] by (simp add: free_capital_def)
      (simp add: config_limit_def deployed_sum_def spent_db_def demo_db_def)
  have t: "trade_cap (spent_db n) ''A'' = None" by (simp add: trade_cap_def spent_db_def demo_db_def)
  have a: "stored_amount (DFin 1500) = 1500" using in_column_cents [of 150000]
    by (simp add: stored_amount_def in_column_def)
  show ?thesis using c f t a by (simp add: reserve_def Let_def above_def dless_val_def spent_row_def)
    (simp add: spent_db_def)
qed

lemma set_status_append:
  "rid \<notin> rv_id ` set rs \<Longrightarrow> set_status rid s (rs @ [r]) = (case set_status rid s [r] of (x, b) \<Rightarrow> (rs @ x, b))"
  by (induction rs) (auto split: prod.split)

lemma spent_consume:
  "fst (consume (fst (reserve (spent_db n) ''A'' n (IntV 1500) LockGranted n)) n) = spent_db (Suc n)"
proof -
  have "set_status n CONSUMED (map spent_row [0..<n] @ [(spent_row n)\<lparr>rv_status := RESERVED\<rparr>])
      = (map spent_row [0..<n] @ [spent_row n], True)"
  proof -
    have "n \<notin> rv_id ` set (map spent_row [0..<n])" by (auto simp: spent_row_def)
    from set_status_append [OF this] show ?thesis by (simp add: spent_row_def)
  qed
  then show ?thesis unfolding spent_reserve by (simp add: consume_def change_reservation_def) (simp add: spent_db_def)
qed

text \<open>On an account with a limit of 2000, of which 500 are deployed, any multiple of 1500 is reserved and
  consumed, one reservation after the other.\<close>

theorem consumed_capital_unbounded:
  "capital_step\<^sup>*\<^sup>* demo_db (spent_db n) \<and> capital_ok demo_db ''A'' \<and> consumed_sum (spent_db n) ''A'' = of_nat n * 1500"
proof -
  have "capital_step\<^sup>*\<^sup>* demo_db (spent_db n)"
  proof (induction n)
    case 0
    show ?case by (simp add: spent_db_def demo_db_def)
  next
    case (Suc n)
    then show ?case
      using step_reserve [of "spent_db n" "''A''" n "IntV 1500" LockGranted n]
        step_consume [of "fst (reserve (spent_db n) ''A'' n (IntV 1500) LockGranted n)" n]
      unfolding spent_consume by (meson rtranclp.rtrancl_into_rtrancl)
  qed
  then show ?thesis by (simp add: spent_sums demo_db_ok)
qed

lemma set_status_again:
  "s \<noteq> RESERVED \<Longrightarrow> snd (set_status rid s rs) \<Longrightarrow> \<not> snd (set_status rid t (fst (set_status rid s rs)))"
  by (induction rs) (auto split: if_splits prod.splits)

lemma set_status_refused: "\<not> snd (set_status rid s rs) \<Longrightarrow> fst (set_status rid s rs) = rs"
  by (induction rs) (auto split: if_splits prod.splits)

text \<open>
  A reservation ends once: after it was released or consumed, a second release or
  consume is refused and changes nothing.
\<close>

theorem reservation_ends_once:
  assumes "s \<in> {RELEASED, CONSUMED}" and "snd (change_reservation s db rid)"
  shows "\<not> snd (release (fst (change_reservation s db rid)) rid)
    \<and> \<not> snd (consume (fst (change_reservation s db rid)) rid)
    \<and> fst (release (fst (change_reservation s db rid)) rid) = fst (change_reservation s db rid)"
proof -
  obtain rs where rs: "set_status rid s (db_reservations db) = (rs, True)"
    using assms(2) by (cases "set_status rid s (db_reservations db)") (simp add: change_reservation_def)
  have "\<not> snd (set_status rid t rs)" for t
    using set_status_again [of s rid "db_reservations db" t] assms(1) rs by auto
  then have "set_status rid t rs = (rs, False)" for t
    using set_status_refused [of rid t rs] \<open>\<And>t. \<not> snd (set_status rid t rs)\<close> by (simp add: prod_eq_iff)
  then show ?thesis by (simp add: release_def consume_def change_reservation_def rs)
qed

theorem reservation_ends_once_witness:
  "\<not> snd (consume (fst (release (fst (reserve demo_db ''A'' 1 (IntV 1500) LockGranted 7)) 7)) 7)"
proof -
  have "snd (change_reservation RELEASED (fst (reserve demo_db ''A'' 1 (IntV 1500) LockGranted 7)) 7)"
    by (simp add: reserve_def demo_db_def ensure_config_def free_capital_def config_limit_def deployed_sum_def
        reserved_sum_def above_def dless_val_def trade_cap_def Let_def change_reservation_def)
  from reservation_ends_once [OF _ this] show ?thesis by (simp add: release_def)
qed

end
