(* ===== verification/Droid_Recon.thy ===== *)
theory Droid_Recon
  imports Droid_Orders
begin

text \<open>
  \<open>backend/app/algo/reconciliation.py\<close>: internal books against the broker's.

  An order or position snapshot is a dictionary; the keys the engine reads are fields, \<open>None\<close>
  when absent. A dictionary comprehension is the list of its pairs with the last value of a key
  winning. The message keeps its fixed part; the discrepancy dictionary is not modelled.
\<close>

datatype recon_type = ORDERS | POSITIONS | FUNDS | RESERVATIONS

datatype recon_status = MATCHED | MISMATCHED

record recon_result =
  rr_type :: recon_type
  rr_status :: recon_status
  rr_block :: bool
  rr_message :: string
  rr_order :: "string option"
  rr_position :: "string option option"
  rr_magnitude :: "dval option"

definition matched :: "recon_type \<Rightarrow> string \<Rightarrow> recon_result" where
  "matched t msg = \<lparr>rr_type = t, rr_status = MATCHED, rr_block = False, rr_message = msg, rr_order = None,
     rr_position = None, rr_magnitude = None\<rparr>"

definition mismatch :: "recon_type \<Rightarrow> bool \<Rightarrow> string \<Rightarrow> recon_result" where
  "mismatch t block msg = \<lparr>rr_type = t, rr_status = MISMATCHED, rr_block = block, rr_message = msg,
     rr_order = None, rr_position = None, rr_magnitude = None\<rparr>"

definition or_matched :: "recon_type \<Rightarrow> string \<Rightarrow> recon_result list \<Rightarrow> recon_result list" where
  "or_matched t msg rs = (if rs = [] then [matched t msg] else rs)"

text \<open>\<open>a or b\<close> on optional strings.\<close>

definition or_str :: "string option \<Rightarrow> string option \<Rightarrow> string option" where
  "or_str a b = (if str_truthy a then a else b)"

text \<open>A loop that collects results and may raise.\<close>

fun collect :: "('a \<Rightarrow> recon_result list result) \<Rightarrow> 'a list \<Rightarrow> recon_result list result" where
  "collect f [] = Inr []"
| "collect f (x # xs) = ebind (f x) (\<lambda>r. ebind (collect f xs) (\<lambda>rs. Inr (r @ rs)))"

definition AMOUNT_TOLERANCE :: dval where
  "AMOUNT_TOLERANCE = DFin (1 / 100)"

definition QTY_TOLERANCE :: int where
  "QTY_TOLERANCE = 0"

subsection \<open>Orders\<close>

record order_view =
  v_client :: "string option"
  v_client_alt :: "string option"
  v_id :: "string option"
  v_broker :: "string option"
  v_order_id :: "string option"
  v_status :: "string option"
  v_quantity :: "declike option"
  v_fill_quantity :: "declike option"

text \<open>The last order of a list with a key wins.\<close>

definition last_with :: "('a \<Rightarrow> 'k option) \<Rightarrow> 'k \<Rightarrow> 'a list \<Rightarrow> 'a option" where
  "last_with key k xs = find (\<lambda>x. key x = Some k) (rev xs)"

definition has_client :: "order_view \<Rightarrow> bool" where
  "has_client o' \<longleftrightarrow> str_truthy (v_client o') \<or> str_truthy (v_client_alt o')"

definition client_key :: "order_view \<Rightarrow> string option" where
  "client_key o' = (case v_client o' of Some c \<Rightarrow> Some c | None \<Rightarrow> v_client_alt o')"

definition broker_key :: "order_view \<Rightarrow> string option" where
  "broker_key o' = (case v_broker o' of Some c \<Rightarrow> Some c | None \<Rightarrow> v_order_id o')"

definition internal_cid :: "order_view \<Rightarrow> string" where
  "internal_cid io = or_else (or_str (or_str (v_client io) (v_client_alt io)) (Some (or_else (v_id io) ''None''))) []"

definition broker_match :: "order_view list \<Rightarrow> order_view \<Rightarrow> order_view option" where
  "broker_match bos io =
     (case last_with client_key (internal_cid io) (filter has_client bos) of
        Some b \<Rightarrow> Some b
      | None \<Rightarrow> if str_truthy (v_broker io) then last_with broker_key (the (v_broker io)) bos else None)"

definition is_fill :: "string option \<Rightarrow> bool" where
  "is_fill s \<longleftrightarrow> s \<in> {Some ''FILLED'', Some ''PARTIALLY_FILLED''}"

text \<open>\<open>bo.get("quantity") or bo.get("fill_quantity")\<close>\<close>

definition broker_quantity :: "order_view \<Rightarrow> declike option" where
  "broker_quantity bo = (case v_quantity bo of
     Some q \<Rightarrow> if like_truthy q then Some q else v_fill_quantity bo | None \<Rightarrow> v_fill_quantity bo)"

definition quantity_differs :: "order_view \<Rightarrow> order_view \<Rightarrow> bool result" where
  "quantity_differs io bo = (case (v_quantity io, broker_quantity bo) of
     (Some iq, Some bq) \<Rightarrow> ebind (py_int iq) (\<lambda>i. ebind (py_int bq) (\<lambda>b.
        Inr (QTY_TOLERANCE < \<bar>i - b\<bar> \<and> is_fill (v_status bo))))
   | _ \<Rightarrow> Inr False)"

definition check_order :: "order_view list \<Rightarrow> order_view \<Rightarrow> recon_result list result" where
  "check_order bos io = (let cid = internal_cid io in case broker_match bos io of
     None \<Rightarrow> Inr [(mismatch ORDERS True ''ORDER_MISSING_ON_BROKER'')\<lparr>rr_order := Some cid\<rparr>]
   | Some bo \<Rightarrow>
       if v_status io \<noteq> v_status bo then
         (if is_fill (v_status bo) \<and> v_status io \<in> {Some ''CANCEL_PENDING'', Some ''CANCELLED''}
          then Inr [(mismatch ORDERS False ''CANCEL_FILL_RACE'')\<lparr>rr_order := Some cid\<rparr>]
          else Inr [(mismatch ORDERS True ''ORDER_STATUS_MISMATCH'')\<lparr>rr_order := Some cid\<rparr>])
       else ebind (quantity_differs io bo) (\<lambda>d.
         Inr (if d then [(mismatch ORDERS True ''ORDER_QTY_MISMATCH'')\<lparr>rr_order := Some cid\<rparr>] else [])))"

definition orphan_orders :: "order_view list \<Rightarrow> order_view list \<Rightarrow> recon_result list" where
  "orphan_orders ios bos = concat (map (\<lambda>bo. (let bcid = or_str (v_client bo) (v_client_alt bo) in
     if str_truthy bcid \<and> the bcid \<notin> set (map internal_cid ios)
     then [mismatch ORDERS True ''BROKER_ORPHAN_ORDER''] else [])) bos)"

definition reconcile_orders :: "order_view list \<Rightarrow> order_view list \<Rightarrow> recon_result list result" where
  "reconcile_orders ios bos = ebind (collect (check_order bos) ios) (\<lambda>rs.
     Inr (or_matched ORDERS ''ORDERS_RECONCILED_OK'' (rs @ orphan_orders ios bos)))"

subsection \<open>Positions\<close>

record position_view =
  pv_position_id :: "string option"
  pv_symbol :: "string option"
  pv_side :: "string option"
  pv_is_open :: bool
  pv_quantity :: "declike option"
  pv_qty :: "declike option"
  pv_average_price :: "declike option"
  pv_average_entry :: "declike option"

definition pv_key :: "position_view \<Rightarrow> string option" where
  "pv_key p = or_str (pv_position_id p) (pv_symbol p)"

definition by_key :: "position_view list \<Rightarrow> (string option, position_view) dict" where
  "by_key ps = fold (\<lambda>p d. AList.update (pv_key p) p d) ps []"

definition internal_quantity :: "position_view \<Rightarrow> int result" where
  "internal_quantity p = py_int (or_else (pv_quantity p) (IntV 0))"

definition broker_pos_quantity :: "position_view \<Rightarrow> int result" where
  "broker_pos_quantity p = py_int (case pv_quantity p of Some q \<Rightarrow> q | None \<Rightarrow> or_else (pv_qty p) (IntV 0))"

definition average_of :: "position_view \<Rightarrow> dval result" where
  "average_of p = D (or_zero (case pv_average_price p of Some a \<Rightarrow> Some a | None \<Rightarrow> pv_average_entry p))"

definition compare_position :: "string option \<Rightarrow> position_view \<Rightarrow> position_view \<Rightarrow> recon_result list result" where
  "compare_position pid i b =
     ebind (internal_quantity i) (\<lambda>iq. ebind (broker_pos_quantity b) (\<lambda>bq.
     ebind (average_of i) (\<lambda>ip. ebind (average_of b) (\<lambda>bp. ebind (dsub ip bp) (\<lambda>d.
     ebind (dlt AMOUNT_TOLERANCE (dabs d)) (\<lambda>far.
     Inr ((if QTY_TOLERANCE < \<bar>iq - bq\<bar> then [(mismatch POSITIONS True ''POSITION_QTY_MISMATCH'')
              \<lparr>rr_position := Some pid, rr_magnitude := Some (DFin (of_int \<bar>iq - bq\<bar>))\<rparr>] else [])
          @ (if far \<and> iq \<noteq> 0 then [(mismatch POSITIONS True ''POSITION_PRICE_MISMATCH'')
              \<lparr>rr_position := Some pid, rr_magnitude := Some (dabs d)\<rparr>] else []))))))))"

definition check_position ::
  "(string option, position_view) dict \<Rightarrow> string option \<times> position_view \<Rightarrow> recon_result list result" where
  "check_position bmap ip = (case ip of (pid, i) \<Rightarrow> (case map_of bmap pid of
     None \<Rightarrow> Inr (if pv_is_open i
       then [(mismatch POSITIONS True ''POSITION_MISSING_ON_BROKER'')\<lparr>rr_position := Some pid\<rparr>] else [])
   | Some b \<Rightarrow> compare_position pid i b))"

definition check_orphan_position ::
  "(string option, position_view) dict \<Rightarrow> string option \<times> position_view \<Rightarrow> recon_result list result" where
  "check_orphan_position imap bp = (case bp of (pid, b) \<Rightarrow>
     if map_of imap pid = None
     then ebind (broker_pos_quantity b) (\<lambda>q. Inr (if q \<noteq> 0
       then [(mismatch POSITIONS True ''BROKER_ORPHAN_POSITION'')\<lparr>rr_position := Some pid\<rparr>] else []))
     else Inr [])"

definition reconcile_positions :: "position_view list \<Rightarrow> position_view list \<Rightarrow> recon_result list result" where
  "reconcile_positions ips bps =
     ebind (collect (check_position (by_key bps)) (by_key ips)) (\<lambda>r1.
     ebind (collect (check_orphan_position (by_key ips)) (by_key bps)) (\<lambda>r2.
     Inr (or_matched POSITIONS ''POSITIONS_RECONCILED_OK'' (r1 @ r2))))"

subsection \<open>Funds, reservations, health\<close>

record funds_view =
  fv_available_margin :: "declike option"
  fv_available :: "declike option"

definition funds_of :: "funds_view \<Rightarrow> dval result" where
  "funds_of f = D (or_zero (case fv_available_margin f of Some a \<Rightarrow> Some a | None \<Rightarrow> fv_available f))"

definition reconcile_funds :: "funds_view \<Rightarrow> funds_view \<Rightarrow> recon_result result" where
  "reconcile_funds i b =
     ebind (funds_of i) (\<lambda>x. ebind (funds_of b) (\<lambda>y. ebind (dsub x y) (\<lambda>d.
     ebind (dlt (DFin 1) (dabs d)) (\<lambda>far. Inr (if far
       then (mismatch FUNDS True ''FUNDS_MISMATCH'')\<lparr>rr_magnitude := Some (dabs d)\<rparr>
       else matched FUNDS ''FUNDS_RECONCILED_OK'')))))"

record reservation_view =
  rs_status :: "string option"
  rs_client :: "string option"

definition check_reservation :: "order_view list \<Rightarrow> reservation_view \<Rightarrow> recon_result list" where
  "check_reservation os r =
     (if rs_status r \<noteq> Some ''RESERVED'' then []
      else (case last_with (\<lambda>o'. or_str (v_client o') (v_client_alt o')) (or_else (rs_client r) ''None'') os of
          None \<Rightarrow> [mismatch RESERVATIONS True ''RESERVATION_ORPHAN'']
        | Some o' \<Rightarrow> if v_status o' \<in> {Some ''FILLED'', Some ''CANCELLED'', Some ''REJECTED'', Some ''CLOSED''}
            then [mismatch RESERVATIONS False ''RESERVATION_SHOULD_BE_CONSUMED_OR_RELEASED''] else []))"

definition reconcile_reservations :: "reservation_view list \<Rightarrow> order_view list \<Rightarrow> recon_result list" where
  "reconcile_reservations rs os =
     or_matched RESERVATIONS ''RESERVATIONS_RECONCILED_OK'' (concat (map (check_reservation os) rs))"

datatype recon_health = HEALTHY | DEGRADED | BLOCKED

definition health :: "recon_result list \<Rightarrow> recon_health" where
  "health rs = (if \<exists>r \<in> set rs. rr_block r then BLOCKED
     else if \<exists>r \<in> set rs. rr_status r = MISMATCHED then DEGRADED else HEALTHY)"

subsection \<open>What healthy books mean\<close>

lemma health_HEALTHY: "health rs = HEALTHY \<Longrightarrow> r \<in> set rs \<Longrightarrow> rr_status r = MATCHED"
  by (cases "rr_status r") (auto simp: health_def split: if_splits)

lemma collect_clean:
  "collect f xs = Inr rs \<Longrightarrow> x \<in> set xs \<Longrightarrow> (\<exists>r. f x = Inr r \<and> set r \<subseteq> set rs)"
  by (induction xs arbitrary: rs) (fastforce simp: exn_simps)+

definition clean :: "recon_result list \<Rightarrow> bool" where
  "clean rs \<longleftrightarrow> (\<forall>r \<in> set rs. rr_status r \<noteq> MISMATCHED)"

lemma mismatch_status [simp]: "rr_status (mismatch t b m) = MISMATCHED"
  by (simp add: mismatch_def)

lemma healthy_or_matched: "health (or_matched t m rs) = HEALTHY \<Longrightarrow> clean rs"
  using health_HEALTHY [of "or_matched t m rs"] by (auto simp: clean_def or_matched_def split: if_splits)

lemma clean_subset: "clean rs \<Longrightarrow> set xs \<subseteq> set rs \<Longrightarrow> clean xs"
  by (auto simp: clean_def)

text \<open>
  Healthy order books agree: every internal order has a broker order of the same
  status and, when filled, the same quantity, and every broker order that carries a client
  id is known internally.
\<close>

theorem healthy_orders:
  assumes "reconcile_orders ios bos = Inr rs" and "health rs = HEALTHY"
  shows "(\<forall>io \<in> set ios. \<exists>bo \<in> set bos. broker_match bos io = Some bo \<and> v_status bo = v_status io
            \<and> quantity_differs io bo = Inr False)
    \<and> (\<forall>bo \<in> set bos. str_truthy (or_str (v_client bo) (v_client_alt bo))
          \<longrightarrow> the (or_str (v_client bo) (v_client_alt bo)) \<in> internal_cid ` set ios)"
proof -
  obtain r where r: "collect (check_order bos) ios = Inr r" "clean (r @ orphan_orders ios bos)"
    using assms healthy_or_matched by (fastforce simp: reconcile_orders_def exn_simps)
  have in_list: "broker_match bos io = Some bo \<Longrightarrow> bo \<in> set bos" for io bo
    by (auto simp: broker_match_def last_with_def find_Some_iff split: option.splits if_splits)
       (metis in_set_conv_nth length_rev set_rev nth_mem filter_is_subset subsetD)+
  have one: "\<exists>bo \<in> set bos. broker_match bos io = Some bo \<and> v_status bo = v_status io
            \<and> quantity_differs io bo = Inr False" if io: "io \<in> set ios" for io
  proof -
    obtain x where x: "check_order bos io = Inr x" "clean x"
      using collect_clean [OF r(1) io] clean_subset [OF r(2)] by auto
    then show ?thesis using in_list
      by (cases "broker_match bos io")
        (auto simp: check_order_def Let_def clean_def exn_simps split: if_splits)
  qed
  have "clean (orphan_orders ios bos)" using clean_subset [OF r(2)] by auto
  have "the (or_str (v_client bo) (v_client_alt bo)) \<in> internal_cid ` set ios"
    if "bo \<in> set bos" "str_truthy (or_str (v_client bo) (v_client_alt bo))" for bo
  proof (rule ccontr)
    assume "the (or_str (v_client bo) (v_client_alt bo)) \<notin> internal_cid ` set ios"
    then have "mismatch ORDERS True ''BROKER_ORPHAN_ORDER'' \<in> set (orphan_orders ios bos)"
      using that by (force simp: orphan_orders_def Let_def)
    then show False using \<open>clean (orphan_orders ios bos)\<close> by (auto simp: clean_def)
  qed
  with one show ?thesis by blast
qed

definition order_A :: order_view where
  "order_A = \<lparr>v_client = Some ''c1'', v_client_alt = None, v_id = None, v_broker = Some ''b1'',
     v_order_id = None, v_status = Some ''FILLED'', v_quantity = Some (IntV 75), v_fill_quantity = None\<rparr>"

theorem healthy_orders_witness:
  "\<exists>bo \<in> set [order_A]. broker_match [order_A] order_A = Some bo \<and> v_status bo = Some ''FILLED''"
proof -
  note defs = order_A_def reconcile_orders_def check_order_def broker_match_def last_with_def has_client_def
    client_key_def internal_cid_def or_str_def str_truthy_def quantity_differs_def broker_quantity_def
    like_truthy_def py_int_def QTY_TOLERANCE_def orphan_orders_def or_matched_def Let_def
  have "reconcile_orders [order_A] [order_A] = Inr [matched ORDERS ''ORDERS_RECONCILED_OK'']"
    by (simp add: defs)
  moreover have "health [matched ORDERS ''ORDERS_RECONCILED_OK''] = HEALTHY"
    by (simp add: health_def matched_def)
  ultimately show ?thesis using healthy_orders [of "[order_A]" "[order_A]"] by (simp add: order_A_def)
qed

text \<open>A pair of position books agree on an id.\<close>

definition positions_agree :: "position_view \<Rightarrow> position_view \<Rightarrow> bool" where
  "positions_agree i b \<longleftrightarrow> (\<exists>q ip bp d. internal_quantity i = Inr q \<and> broker_pos_quantity b = Inr q
     \<and> average_of i = Inr ip \<and> average_of b = Inr bp \<and> dsub ip bp = Inr d
     \<and> (q = 0 \<or> dle (dabs d) AMOUNT_TOLERANCE = Inr True))"

lemma compare_clean:
  "compare_position pid i b = Inr r \<Longrightarrow> clean r \<Longrightarrow> positions_agree i b"
  by (auto simp: compare_position_def exn_simps clean_def positions_agree_def QTY_TOLERANCE_def dlt_False_iff
      split: if_splits)

text \<open>
  Healthy position books agree: every internal position the broker knows has the same
  quantity and, unless flat, an average price within a paisa; one it does not know is
  closed; a broker position unknown internally is flat.
\<close>

theorem healthy_positions:
  assumes "reconcile_positions ips bps = Inr rs" and "health rs = HEALTHY"
  shows "(\<forall>(pid, i) \<in> set (by_key ips). case map_of (by_key bps) pid of
            None \<Rightarrow> \<not> pv_is_open i | Some b \<Rightarrow> positions_agree i b)
    \<and> (\<forall>(pid, b) \<in> set (by_key bps). map_of (by_key ips) pid \<noteq> None \<or> broker_pos_quantity b = Inr 0)"
proof -
  obtain r1 r2 where r: "collect (check_position (by_key bps)) (by_key ips) = Inr r1"
    "collect (check_orphan_position (by_key ips)) (by_key bps) = Inr r2" "clean (r1 @ r2)"
    using assms healthy_or_matched by (fastforce simp: reconcile_positions_def exn_simps)
  have "case map_of (by_key bps) pid of None \<Rightarrow> \<not> pv_is_open i | Some b \<Rightarrow> positions_agree i b"
    if m: "(pid, i) \<in> set (by_key ips)" for pid i
  proof -
    obtain x where "check_position (by_key bps) (pid, i) = Inr x" "clean x"
      using collect_clean [OF r(1) m] clean_subset [OF r(3)] by auto
    then show ?thesis
      by (auto simp: check_position_def clean_def [of "[_]"] intro: compare_clean split: option.splits if_splits)
  qed
  moreover have "map_of (by_key ips) pid \<noteq> None \<or> broker_pos_quantity b = Inr 0"
    if m: "(pid, b) \<in> set (by_key bps)" for pid b
  proof -
    obtain x where "check_orphan_position (by_key ips) (pid, b) = Inr x" "clean x"
      using collect_clean [OF r(2) m] clean_subset [OF r(3)] by auto
    then show ?thesis
      by (auto simp: check_orphan_position_def clean_def exn_simps split: if_splits)
  qed
  ultimately show ?thesis by blast
qed

definition position_A :: position_view where
  "position_A = \<lparr>pv_position_id = Some ''p1'', pv_symbol = None, pv_side = Some ''LONG'', pv_is_open = True,
     pv_quantity = Some (IntV 75), pv_qty = None, pv_average_price = Some (IntV 100),
     pv_average_entry = None\<rparr>"

theorem healthy_positions_witness:
  "reconcile_positions [position_A] [position_A\<lparr>pv_side := Some ''SHORT''\<rparr>]
     = Inr [matched POSITIONS ''POSITIONS_RECONCILED_OK'']
   \<and> positions_agree position_A (position_A\<lparr>pv_side := Some ''SHORT''\<rparr>)"
proof -
  note defs = position_A_def reconcile_positions_def by_key_def pv_key_def or_str_def str_truthy_def
    check_position_def compare_position_def internal_quantity_def broker_pos_quantity_def average_of_def
    py_int_def or_zero_def like_truthy_def check_orphan_position_def or_matched_def QTY_TOLERANCE_def
    AMOUNT_TOLERANCE_def
  let ?b = "position_A\<lparr>pv_side := Some ''SHORT''\<rparr>"
  have run: "reconcile_positions [position_A] [?b] = Inr [matched POSITIONS ''POSITIONS_RECONCILED_OK'']"
    by (simp add: defs)
  have keys: "by_key [position_A] = [(Some ''p1'', position_A)]" "by_key [?b] = [(Some ''p1'', ?b)]"
    by (simp_all add: by_key_def pv_key_def or_str_def str_truthy_def position_A_def)
  have "health [matched POSITIONS ''POSITIONS_RECONCILED_OK''] = HEALTHY"
    by (simp add: health_def matched_def)
  with healthy_positions [OF run] show ?thesis by (simp add: run keys)
qed

end
