(* ===== verification/Droid_ExecSM.thy ===== *)
theory Droid_ExecSM
  imports Droid_Risk
begin

text \<open>
  \<open>backend/app/services/execution_state_machine.py\<close>: the idempotent execution life cycle.

  Orders are kept per id; an operation returns the new machine beside its result, because an
  exception raised while metadata is read comes after the state change. Generated ids (order and
  event) are arguments; timestamps are left out.
\<close>

datatype exec_state =
    SIGNAL_CREATED | ORDER_SUBMITTED | ACKNOWLEDGED | PARTIALLY_FILLED | FILLED | OCO_ACTIVE
  | TARGET_TRIGGERED | STOP_TRIGGERED | CANCEL_PENDING | CANCELLED | X_REJECTED | TIMEOUT
  | BROKER_DISCONNECTED | RECONCILIATION_REQUIRED | CLOSED

fun exec_transitions :: "exec_state \<Rightarrow> exec_state list" where
  "exec_transitions SIGNAL_CREATED = [ORDER_SUBMITTED, X_REJECTED, CANCELLED]"
| "exec_transitions ORDER_SUBMITTED = [ACKNOWLEDGED, X_REJECTED, TIMEOUT, BROKER_DISCONNECTED, CANCEL_PENDING]"
| "exec_transitions ACKNOWLEDGED = [PARTIALLY_FILLED, FILLED, X_REJECTED, CANCEL_PENDING, TIMEOUT]"
| "exec_transitions PARTIALLY_FILLED =
     [FILLED, CANCEL_PENDING, TIMEOUT, BROKER_DISCONNECTED, RECONCILIATION_REQUIRED]"
| "exec_transitions FILLED = [OCO_ACTIVE, CLOSED, RECONCILIATION_REQUIRED]"
| "exec_transitions OCO_ACTIVE =
     [TARGET_TRIGGERED, STOP_TRIGGERED, CANCEL_PENDING, RECONCILIATION_REQUIRED, BROKER_DISCONNECTED]"
| "exec_transitions TARGET_TRIGGERED = [CLOSED, RECONCILIATION_REQUIRED]"
| "exec_transitions STOP_TRIGGERED = [CLOSED, RECONCILIATION_REQUIRED]"
| "exec_transitions CANCEL_PENDING = [CANCELLED, RECONCILIATION_REQUIRED, TIMEOUT]"
| "exec_transitions CANCELLED = [CLOSED, RECONCILIATION_REQUIRED]"
| "exec_transitions X_REJECTED = [CLOSED, RECONCILIATION_REQUIRED]"
| "exec_transitions TIMEOUT = [RECONCILIATION_REQUIRED, CANCEL_PENDING, CLOSED]"
| "exec_transitions BROKER_DISCONNECTED = [RECONCILIATION_REQUIRED, TIMEOUT, CANCEL_PENDING]"
| "exec_transitions RECONCILIATION_REQUIRED = [CLOSED, FILLED, CANCELLED, X_REJECTED]"
| "exec_transitions CLOSED = []"

interpretation exec_table: transition_table exec_transitions "\<lambda>s. s = CLOSED"
  by unfold_locales simp

record exec_event =
  ev_state :: exec_state
  ev_id :: string

record exec_order =
  xo_id :: string
  xo_analysis :: string
  xo_symbol :: string
  xo_side :: string
  xo_quantity :: int
  xo_state :: exec_state
  xo_version :: "int option"
  xo_broker_id :: "string option"
  xo_fill_quantity :: int
  xo_avg_price :: "dval option"
  xo_events :: "exec_event list"
  xo_processed :: "string set"

type_synonym exec_machine = "(string, exec_order) dict"

definition create_signal ::
  "exec_machine \<Rightarrow> string \<Rightarrow> string \<Rightarrow> int \<Rightarrow> string \<Rightarrow> int option \<Rightarrow> string \<Rightarrow> string \<Rightarrow> exec_machine \<times> exec_order" where
  "create_signal sm symbol side quantity analysis version oid eid =
     (let x = \<lparr>xo_id = oid, xo_analysis = analysis, xo_symbol = symbol, xo_side = side,
               xo_quantity = quantity, xo_state = SIGNAL_CREATED, xo_version = version,
               xo_broker_id = None, xo_fill_quantity = 0, xo_avg_price = None,
               xo_events = [\<lparr>ev_state = SIGNAL_CREATED, ev_id = eid\<rparr>], xo_processed = {}\<rparr>
      in (AList.update oid x sm, x))"

definition get_exec_order :: "exec_machine \<Rightarrow> string \<Rightarrow> exec_order option" where
  "get_exec_order sm oid = map_of sm oid"

definition list_exec_orders :: "exec_machine \<Rightarrow> exec_order list" where
  "list_exec_orders sm = map snd sm"

record exec_metadata =
  xm_broker_id :: "string option option"
  xm_fill_quantity :: "declike option"
  xm_avg_price :: "declike option"

text \<open>\<open>float(x)\<close>: the nearest binary64 value.\<close>

definition py_float :: "declike \<Rightarrow> dval result" where
  "py_float v = (case (case v of
       StrV s \<Rightarrow> (case dec_of_string s of None \<Rightarrow> Inl ValueError | Some d \<Rightarrow> Inr d)
     | OtherV \<Rightarrow> Inl TypeError | DecV d \<Rightarrow> Inr d | FloatV d \<Rightarrow> Inr d
     | IntV i \<Rightarrow> Inr (DFin (of_int i))) of
     Inl e \<Rightarrow> Inl e | Inr (DFin x) \<Rightarrow> Inr (DFin (frnd x)) | Inr d \<Rightarrow> Inr d)"

definition exec_metadata_writes :: "exec_metadata \<Rightarrow> exec_order \<Rightarrow> exec_order \<times> exn option" where
  "exec_metadata_writes m x0 =
     (let x = (case xm_broker_id m of None \<Rightarrow> x0 | Some b \<Rightarrow> x0\<lparr>xo_broker_id := b\<rparr>) in
      case (case xm_fill_quantity m of None \<Rightarrow> Inr x
            | Some q \<Rightarrow> ebind (py_int q) (\<lambda>n. Inr (x\<lparr>xo_fill_quantity := n\<rparr>))) of
        Inl e \<Rightarrow> (x, Some e)
      | Inr y \<Rightarrow> (case (case xm_avg_price m of None \<Rightarrow> Inr y
            | Some p \<Rightarrow> ebind (py_float p) (\<lambda>f. Inr (y\<lparr>xo_avg_price := Some f\<rparr>))) of
          Inl e \<Rightarrow> (y, Some e) | Inr z \<Rightarrow> (z, None)))"

definition mark_processed :: "string option \<Rightarrow> exec_order \<Rightarrow> exec_order" where
  "mark_processed eid x = (case eid of
     None \<Rightarrow> x | Some e \<Rightarrow> if e = [] then x else x\<lparr>xo_processed := insert e (xo_processed x)\<rparr>)"

definition already_processed :: "string option \<Rightarrow> exec_order \<Rightarrow> bool" where
  "already_processed eid x = (case eid of None \<Rightarrow> False | Some e \<Rightarrow> e \<noteq> [] \<and> e \<in> xo_processed x)"

definition event_name :: "string option \<Rightarrow> string \<Rightarrow> string" where
  "event_name eid fresh = (case eid of None \<Rightarrow> fresh | Some e \<Rightarrow> if e = [] then fresh else e)"

text \<open>\<open>transition\<close> on the order itself.\<close>

definition exec_advance ::
  "exec_order \<Rightarrow> exec_state \<Rightarrow> string option \<Rightarrow> exec_metadata \<Rightarrow> string \<Rightarrow> exec_order \<times> exn option" where
  "exec_advance x t eid m fresh =
     (if already_processed eid x then (x, None)
      else if xo_state x = t then (mark_processed eid x, None)
      else if t \<notin> set (exec_transitions (xo_state x)) then (x, Some ValueError)
      else exec_metadata_writes m ((mark_processed eid (x\<lparr>xo_state := t\<rparr>))
             \<lparr>xo_events := xo_events x @ [\<lparr>ev_state = t, ev_id = event_name eid fresh\<rparr>]\<rparr>))"

definition exec_transition ::
  "exec_machine \<Rightarrow> string \<Rightarrow> exec_state \<Rightarrow> string option \<Rightarrow> exec_metadata \<Rightarrow> string
    \<Rightarrow> exec_machine \<times> exec_order result" where
  "exec_transition sm oid t eid m fresh = (case map_of sm oid of
     None \<Rightarrow> (sm, Inl ValueError)
   | Some x \<Rightarrow> (case exec_advance x t eid m fresh of
        (y, e) \<Rightarrow> (AList.update oid y sm, case e of None \<Rightarrow> Inr y | Some ex \<Rightarrow> Inl ex)))"

definition broker_event_state :: "string \<Rightarrow> exec_state option" where
  "broker_event_state t = map_of
     [(''ACK'', ACKNOWLEDGED), (''PARTIAL_FILL'', PARTIALLY_FILLED), (''FILL'', FILLED),
      (''REJECT'', X_REJECTED), (''CANCEL'', CANCELLED), (''TIMEOUT'', TIMEOUT),
      (''DISCONNECT'', BROKER_DISCONNECTED), (''OCO_ACTIVE'', OCO_ACTIVE),
      (''TARGET_HIT'', TARGET_TRIGGERED), (''STOP_HIT'', STOP_TRIGGERED)] (map to_upper t)"

definition handle_broker_event ::
  "exec_machine \<Rightarrow> string \<Rightarrow> string \<Rightarrow> string \<Rightarrow> exec_metadata \<Rightarrow> string \<Rightarrow> exec_machine \<times> exec_order result" where
  "handle_broker_event sm oid etype eid payload fresh = (case broker_event_state etype of
     None \<Rightarrow> (sm, Inl ValueError)
   | Some t \<Rightarrow> exec_transition sm oid t (Some eid) payload fresh)"

subsection \<open>Runs\<close>

inductive exec_step :: "exec_machine \<Rightarrow> exec_machine \<Rightarrow> bool" where
  step_create: "exec_step sm (fst (create_signal sm sy si q an v oid eid))"
| step_transition: "exec_step sm (fst (exec_transition sm oid t eid m fresh))"
| step_event: "exec_step sm (fst (handle_broker_event sm oid etype eid m fresh))"

inductive_cases exec_stepE: "exec_step sm sm'"

definition linked :: "exec_state list \<Rightarrow> bool" where
  "linked ss \<longleftrightarrow> (\<forall>i. Suc i < length ss \<longrightarrow> ss ! Suc i \<in> set (exec_transitions (ss ! i)))"

text \<open>The event log is a path of the table from \<open>SIGNAL_CREATED\<close> to the current state.\<close>

definition log_ok :: "exec_order \<Rightarrow> bool" where
  "log_ok x \<longleftrightarrow> (let ss = map ev_state (xo_events x) in
     ss \<noteq> [] \<and> hd ss = SIGNAL_CREATED \<and> last ss = xo_state x \<and> linked ss)"

lemma linked_snoc:
  "ss \<noteq> [] \<Longrightarrow> linked ss \<Longrightarrow> t \<in> set (exec_transitions (last ss)) \<Longrightarrow> linked (ss @ [t])"
  unfolding linked_def
proof (intro allI impI)
  fix i assume ss: "ss \<noteq> []" and l: "\<forall>i. Suc i < length ss \<longrightarrow> ss ! Suc i \<in> set (exec_transitions (ss ! i))"
    and t: "t \<in> set (exec_transitions (last ss))" and i: "Suc i < length (ss @ [t])"
  show "(ss @ [t]) ! Suc i \<in> set (exec_transitions ((ss @ [t]) ! i))"
  proof (cases "Suc i < length ss")
    case True
    then show ?thesis using l by (simp add: nth_append)
  next
    case False
    then have "i = length ss - 1" "Suc i = length ss" using i by auto
    then show ?thesis using t ss by (simp add: nth_append last_conv_nth)
  qed
qed

lemma mark_processed_fields [simp]:
  "xo_state (mark_processed e x) = xo_state x" "xo_events (mark_processed e x) = xo_events x"
  "xo_fill_quantity (mark_processed e x) = xo_fill_quantity x"
  by (simp_all add: mark_processed_def split: option.split)

lemma metadata_writes_fields [simp]:
  "xo_state (fst (exec_metadata_writes m x)) = xo_state x"
  "xo_events (fst (exec_metadata_writes m x)) = xo_events x"
  "xo_processed (fst (exec_metadata_writes m x)) = xo_processed x"
  by (auto simp: exec_metadata_writes_def Let_def exn_simps split: option.splits sum.splits)

lemma advance_log_ok: "log_ok x \<Longrightarrow> log_ok (fst (exec_advance x t eid m fresh))"
  by (auto simp: exec_advance_def log_ok_def Let_def linked_snoc hd_append)

lemma transition_log_ok:
  assumes "\<forall>x \<in> ran (map_of sm). log_ok x"
  shows "\<forall>x \<in> ran (map_of (fst (exec_transition sm oid t eid m fresh))). log_ok x"
proof (cases "map_of sm oid")
  case (Some x)
  then have "log_ok (fst (exec_advance x t eid m fresh))" using assms by (intro advance_log_ok) (auto intro: ranI)
  then show ?thesis using Some assms
    by (auto simp: exec_transition_def ran_def dict_simps split: prod.splits if_splits)
qed (use assms in \<open>simp add: exec_transition_def\<close>)

lemma step_log_ok:
  assumes "exec_step sm sm'" and "\<forall>x \<in> ran (map_of sm). log_ok x"
  shows "\<forall>x \<in> ran (map_of sm'). log_ok x"
  using assms(1)
proof (rule exec_stepE)
  fix sy si q an v oid eid
  assume "sm' = fst (create_signal sm sy si q an v oid eid)"
  then show ?thesis using assms(2)
    by (auto simp: create_signal_def Let_def ran_def dict_simps log_ok_def linked_def split: if_splits)
next
  fix oid t eid m fresh
  assume "sm' = fst (exec_transition sm oid t eid m fresh)"
  then show ?thesis using transition_log_ok [OF assms(2)] by simp
next
  fix oid etype eid m fresh
  assume "sm' = fst (handle_broker_event sm oid etype eid m fresh)"
  then show ?thesis using transition_log_ok [OF assms(2)] assms(2)
    by (simp add: handle_broker_event_def split: option.split)
qed

lemma reach_log_ok: "exec_step\<^sup>*\<^sup>* [] sm \<Longrightarrow> \<forall>x \<in> ran (map_of sm). log_ok x"
  by (induction rule: rtranclp_induct) (auto dest: step_log_ok)

text \<open>
  Every order's event log, in every machine reachable from the empty one, is a path of the
  transition table that starts at \<open>SIGNAL_CREATED\<close> and ends in the current state.
\<close>

theorem exec_log_is_path:
  assumes "exec_step\<^sup>*\<^sup>* [] sm" and "get_exec_order sm oid = Some x"
  shows "hd (map ev_state (xo_events x)) = SIGNAL_CREATED \<and> last (map ev_state (xo_events x)) = xo_state x
    \<and> linked (map ev_state (xo_events x))"
  using reach_log_ok [OF assms(1)] assms(2)
  by (auto simp: get_exec_order_def log_ok_def Let_def intro: ranI)

definition no_exec_metadata :: exec_metadata where
  "no_exec_metadata = \<lparr>xm_broker_id = None, xm_fill_quantity = None, xm_avg_price = None\<rparr>"

definition demo_signal :: exec_machine where
  "demo_signal = fst (create_signal [] ''NIFTY'' ''BUY'' 75 ''a1'' None ''O1'' ''e0'')"

theorem exec_log_is_path_witness:
  "\<exists>x. get_exec_order (fst (exec_transition demo_signal ''O1'' ORDER_SUBMITTED (Some ''e1'') no_exec_metadata [])) ''O1''
     = Some x \<and> last (map ev_state (xo_events x)) = xo_state x"
proof -
  let ?sm = "fst (exec_transition demo_signal ''O1'' ORDER_SUBMITTED (Some ''e1'') no_exec_metadata [])"
  have "exec_step [] demo_signal" unfolding demo_signal_def by (rule step_create)
  moreover have "exec_step demo_signal ?sm" by (rule step_transition)
  ultimately have r: "exec_step\<^sup>*\<^sup>* [] ?sm" by (meson rtranclp.rtrancl_into_rtrancl rtranclp.rtrancl_refl)
  obtain x where x: "get_exec_order ?sm ''O1'' = Some x"
    by (auto simp: demo_signal_def create_signal_def exec_transition_def get_exec_order_def Let_def
        exec_advance_def already_processed_def exec_metadata_writes_def no_exec_metadata_def mark_processed_def)
  show ?thesis using exec_log_is_path [OF r x] x by blast
qed

text \<open>
  Broker events are idempotent: once an event with a non-empty id was applied to an order
  without an error, any event with that id, of whatever type and payload, changes nothing.
\<close>

theorem broker_event_idempotent:
  assumes "handle_broker_event sm oid etype eid m fresh = (sm', Inr x)" and "eid \<noteq> []"
    and "broker_event_state etype' = Some t"
  shows "handle_broker_event sm' oid etype' eid m' fresh' = (sm', Inr x)"
proof -
  obtain s where ev: "exec_transition sm oid s (Some eid) m fresh = (sm', Inr x)"
    using assms(1) by (auto simp: handle_broker_event_def split: option.splits)
  then obtain o' e where o: "map_of sm oid = Some o'" "exec_advance o' s (Some eid) m fresh = (x, None)"
    "sm' = AList.update oid x sm"
    by (auto simp: exec_transition_def split: option.splits prod.splits)
  have "eid \<in> xo_processed (fst (exec_advance o' s (Some eid) m fresh))"
    if "snd (exec_advance o' s (Some eid) m fresh) = None"
    using that assms(2) by (auto simp: exec_advance_def already_processed_def mark_processed_def split: if_splits)
  then have "already_processed (Some eid) x" using o assms(2) by (simp add: already_processed_def)
  moreover have "AList.update oid x sm' = sm'"
  proof -
    have "map_of sm' oid = Some x" by (simp add: o(3) dict_simps)
    then show ?thesis unfolding o(3) by (induction sm) auto
  qed
  ultimately show ?thesis
    by (simp add: handle_broker_event_def assms(3) exec_transition_def exec_advance_def o(3) dict_simps)
qed

definition partly_filled :: exec_order where
  "partly_filled = \<lparr>xo_id = ''O1'', xo_analysis = ''a1'', xo_symbol = ''NIFTY'', xo_side = ''BUY'',
     xo_quantity = 75, xo_state = ACKNOWLEDGED, xo_version = None, xo_broker_id = None,
     xo_fill_quantity = 0, xo_avg_price = None, xo_events = [], xo_processed = {}\<rparr>"

definition fill_of :: "int \<Rightarrow> exec_metadata" where
  "fill_of n = no_exec_metadata\<lparr>xm_fill_quantity := Some (IntV n)\<rparr>"

definition after_fill :: exec_order where
  "after_fill = partly_filled\<lparr>xo_state := PARTIALLY_FILLED, xo_processed := {''b1''}, xo_fill_quantity := 25,
     xo_events := [\<lparr>ev_state = PARTIALLY_FILLED, ev_id = ''b1''\<rparr>]\<rparr>"

lemma partial_fill_run:
  "handle_broker_event [(''O1'', partly_filled)] ''O1'' ''PARTIAL_FILL'' ''b1'' (fill_of 25) []
     = ([(''O1'', after_fill)], Inr after_fill)"
proof -
  have ev: "broker_event_state ''PARTIAL_FILL'' = Some PARTIALLY_FILLED" by code_simp
  show ?thesis
    by (simp add: handle_broker_event_def ev exec_transition_def exec_advance_def partly_filled_def
        already_processed_def mark_processed_def exec_metadata_writes_def fill_of_def no_exec_metadata_def
        py_int_def after_fill_def event_name_def)
qed

theorem broker_event_idempotent_witness:
  "handle_broker_event [(''O1'', after_fill)] ''O1'' ''FILL'' ''b1'' (fill_of 75) [] = ([(''O1'', after_fill)], Inr after_fill)"
proof -
  have "broker_event_state ''FILL'' = Some FILLED" by code_simp
  from broker_event_idempotent [OF partial_fill_run _ this] show ?thesis by simp
qed

text \<open>
  A second partial fill with a new event id is acknowledged but its quantity is lost: the
  state is already \<open>PARTIALLY_FILLED\<close>, so the payload is not read.
\<close>

theorem later_partial_fill_ignored:
  assumes "map_of sm oid = Some x" and "xo_state x = PARTIALLY_FILLED" and "eid \<notin> xo_processed x" and "eid \<noteq> []"
  shows "\<exists>y. handle_broker_event sm oid ''PARTIAL_FILL'' eid m fresh = (AList.update oid y sm, Inr y)
    \<and> xo_fill_quantity y = xo_fill_quantity x \<and> xo_events y = xo_events x"
proof -
  have ev: "broker_event_state ''PARTIAL_FILL'' = Some PARTIALLY_FILLED" by code_simp
  show ?thesis using assms
    by (simp add: handle_broker_event_def ev exec_transition_def exec_advance_def already_processed_def)
qed

theorem later_partial_fill_ignored_witness:
  "\<exists>y. snd (handle_broker_event [(''O1'', after_fill)] ''O1'' ''PARTIAL_FILL'' ''b2'' (fill_of 50) []) = Inr y
     \<and> xo_fill_quantity y = 25"
  using later_partial_fill_ignored [of "[(''O1'', after_fill)]" "''O1''" after_fill "''b2''" "fill_of 50" "[]"]
  by (auto simp: after_fill_def)

end
