(* ===== verification/Droid_Circuit.thy ===== *)
theory Droid_Circuit
  imports Droid_Rounding
begin

text \<open>
  \<open>backend/app/core/circuit_breaker.py\<close>: the three-state circuit breaker.

  A protected call is admitted, runs, and reports back; other calls may run between, so
  \<open>cb_admit\<close>, \<open>on_success\<close> and \<open>on_failure\<close> are separate steps and \<open>cb_call\<close> composes
  them for one call. Clock readings are arguments; elapsed time is a binary64 subtraction. The
  wall-clock stamp of the last change is left out.
\<close>

datatype circuit_state = CLOSED | OPEN | HALF_OPEN

record breaker =
  cb_failure_threshold :: int
  cb_recovery_timeout :: rat
  cb_success_threshold :: int
  cb_state :: circuit_state
  cb_failures :: int
  cb_successes :: int
  cb_last_failure :: rat
  cb_total_calls :: nat
  cb_tripped :: nat

definition breaker_init :: "int \<Rightarrow> rat \<Rightarrow> int \<Rightarrow> breaker" where
  "breaker_init ft rt st = \<lparr>cb_failure_threshold = ft, cb_recovery_timeout = rt, cb_success_threshold = st,
     cb_state = CLOSED, cb_failures = 0, cb_successes = 0, cb_last_failure = 0, cb_total_calls = 0,
     cb_tripped = 0\<rparr>"

definition update_state :: "rat \<Rightarrow> breaker \<Rightarrow> breaker" where
  "update_state now cb =
     (if cb_state cb = OPEN \<and> cb_recovery_timeout cb \<le> frnd (now - cb_last_failure cb)
      then cb\<lparr>cb_state := HALF_OPEN, cb_successes := 0\<rparr> else cb)"

text \<open>The locked entry of \<open>call\<close>: the new state and whether the call may run.\<close>

definition cb_admit :: "rat \<Rightarrow> breaker \<Rightarrow> breaker \<times> bool" where
  "cb_admit now cb = (let c = update_state now (cb\<lparr>cb_total_calls := Suc (cb_total_calls cb)\<rparr>)
     in (c, cb_state c \<noteq> OPEN))"

definition on_success :: "breaker \<Rightarrow> breaker" where
  "on_success cb = (case cb_state cb of
     HALF_OPEN \<Rightarrow> (let n = cb_successes cb + 1 in
        if cb_success_threshold cb \<le> n
        then cb\<lparr>cb_state := CLOSED, cb_failures := 0, cb_successes := 0\<rparr>
        else cb\<lparr>cb_successes := n\<rparr>)
   | CLOSED \<Rightarrow> cb\<lparr>cb_failures := 0\<rparr>
   | OPEN \<Rightarrow> cb)"

definition on_failure :: "rat \<Rightarrow> breaker \<Rightarrow> breaker" where
  "on_failure now cb0 = (let cb = cb0\<lparr>cb_last_failure := now\<rparr> in
     case cb_state cb of
       HALF_OPEN \<Rightarrow> cb\<lparr>cb_state := OPEN, cb_tripped := Suc (cb_tripped cb)\<rparr>
     | CLOSED \<Rightarrow> (let n = cb_failures cb + 1 in
          if cb_failure_threshold cb \<le> n
          then cb\<lparr>cb_failures := n, cb_state := OPEN, cb_tripped := Suc (cb_tripped cb)\<rparr>
          else cb\<lparr>cb_failures := n\<rparr>)
     | OPEN \<Rightarrow> cb)"

definition cb_trip :: "rat \<Rightarrow> breaker \<Rightarrow> breaker" where
  "cb_trip now cb = cb\<lparr>cb_state := OPEN, cb_last_failure := now, cb_tripped := Suc (cb_tripped cb)\<rparr>"

definition cb_reset :: "breaker \<Rightarrow> breaker" where
  "cb_reset cb = cb\<lparr>cb_state := CLOSED, cb_failures := 0, cb_successes := 0\<rparr>"

text \<open>\<open>get_status\<close> also moves an expired \<open>OPEN\<close> to \<open>HALF_OPEN\<close>.\<close>

record breaker_status =
  st_state :: circuit_state
  st_failures :: int
  st_threshold :: int
  st_timeout :: rat
  st_total :: nat
  st_tripped :: nat

definition cb_get_status :: "rat \<Rightarrow> breaker \<Rightarrow> breaker \<times> breaker_status" where
  "cb_get_status now cb = (let c = update_state now cb in
     (c, \<lparr>st_state = cb_state c, st_failures = cb_failures c, st_threshold = cb_failure_threshold c,
          st_timeout = cb_recovery_timeout c, st_total = cb_total_calls c, st_tripped = cb_tripped c\<rparr>))"

datatype 'a func_outcome = Returned 'a | RaisedValueError | RaisedOther

datatype 'a call_result = Result 'a | FallbackUsed | OpenRefused | ValueErrorRaised | ErrorRaised

text \<open>One call on its own; the fallback's own value and errors are not modelled.\<close>

definition cb_call :: "rat \<Rightarrow> 'a func_outcome \<Rightarrow> rat \<Rightarrow> bool \<Rightarrow> breaker \<Rightarrow> breaker \<times> 'a call_result" where
  "cb_call now f later has_fallback cb = (case cb_admit now cb of
     (c, False) \<Rightarrow> (c, if has_fallback then FallbackUsed else OpenRefused)
   | (c, True) \<Rightarrow> (case f of
        Returned v \<Rightarrow> (on_success c, Result v)
      | RaisedValueError \<Rightarrow> (c, ValueErrorRaised)
      | RaisedOther \<Rightarrow> (on_failure later c, if has_fallback then FallbackUsed else ErrorRaised)))"

subsection \<open>Properties\<close>

inductive cb_step :: "breaker \<Rightarrow> breaker \<Rightarrow> bool" where
  step_admit: "cb_step cb (fst (cb_admit now cb))"
| step_success: "cb_step cb (on_success cb)"
| step_failure: "cb_step cb (on_failure now cb)"
| step_trip: "cb_step cb (cb_trip now cb)"
| step_reset: "cb_step cb (cb_reset cb)"
| step_status: "cb_step cb (fst (cb_get_status now cb))"

inductive_cases cb_stepE: "cb_step cb cb'"

definition breaker_ok :: "breaker \<Rightarrow> bool" where
  "breaker_ok cb \<longleftrightarrow> 1 \<le> cb_failure_threshold cb \<and> 1 \<le> cb_success_threshold cb
     \<and> 0 \<le> cb_failures cb \<and> 0 \<le> cb_successes cb
     \<and> (cb_state cb = CLOSED \<longrightarrow> cb_failures cb < cb_failure_threshold cb)
     \<and> (cb_state cb = HALF_OPEN \<longrightarrow> cb_successes cb < cb_success_threshold cb)"

lemmas breaker_defs = breaker_ok_def update_state_def cb_admit_def on_success_def on_failure_def cb_trip_def
  cb_reset_def cb_get_status_def Let_def

lemma step_breaker_ok: "cb_step cb cb' \<Longrightarrow> breaker_ok cb \<Longrightarrow> breaker_ok cb'"
  by (erule cb_stepE) (auto simp: breaker_defs split: circuit_state.splits)

text \<open>
  In every interleaving of admissions, results, trips, resets and status reads, a closed
  breaker has fewer failures than its threshold and a half-open one fewer successes than needed
  to close: no counter ever passes its threshold without the state having changed.
\<close>

theorem breaker_thresholds_kept:
  assumes "cb_step\<^sup>*\<^sup>* (breaker_init ft rt st) cb" and "1 \<le> ft" and "1 \<le> st"
  shows "breaker_ok cb"
proof -
  have "breaker_ok (breaker_init ft rt st)" using assms(2,3) by (simp add: breaker_ok_def breaker_init_def)
  with assms(1) show ?thesis by (induction rule: rtranclp_induct) (auto dest: step_breaker_ok)
qed

theorem breaker_thresholds_kept_witness: "breaker_ok (on_failure 5 (breaker_init 1 30 2))"
proof -
  have "cb_step\<^sup>*\<^sup>* (breaker_init 1 30 2) (on_failure 5 (breaker_init 1 30 2))"
    by (meson step_failure rtranclp.rtrancl_into_rtrancl rtranclp.rtrancl_refl)
  then show ?thesis by (rule breaker_thresholds_kept) simp_all
qed

fun fail_all :: "rat list \<Rightarrow> breaker \<Rightarrow> breaker" where
  "fail_all [] cb = cb"
| "fail_all (t # ts) cb = fail_all ts (on_failure t cb)"

lemma fail_open: "cb_state cb = OPEN \<Longrightarrow> cb_state (fail_all ts cb) = OPEN"
  by (induction ts arbitrary: cb) (simp_all add: on_failure_def Let_def)

lemma fail_closed:
  "cb_state cb = CLOSED \<Longrightarrow> cb_failures cb < cb_failure_threshold cb \<Longrightarrow>
    cb_state (fail_all ts cb) = (if cb_failure_threshold cb \<le> cb_failures cb + int (length ts) then OPEN else CLOSED)"
proof (induction ts arbitrary: cb)
  case (Cons t ts)
  show ?case
  proof (cases "cb_failure_threshold cb \<le> cb_failures cb + 1")
    case True
    then have "cb_state (on_failure t cb) = OPEN" using Cons.prems by (simp add: on_failure_def Let_def)
    then show ?thesis using True by (simp add: fail_open)
  next
    case False
    then have "cb_state (on_failure t cb) = CLOSED" "cb_failures (on_failure t cb) = cb_failures cb + 1"
      "cb_failure_threshold (on_failure t cb) = cb_failure_threshold cb"
      using Cons.prems by (simp_all add: on_failure_def Let_def)
    then show ?thesis using Cons.IH [of "on_failure t cb"] False by simp
  qed
qed simp

text \<open>
  The breaker trips at the configured number of consecutive failures, not before: after a
  reset, a run of failures opens it exactly when the run is as long as the threshold.
\<close>

theorem breaker_trips_at_threshold:
  assumes "1 \<le> cb_failure_threshold cb"
  shows "cb_state (fail_all ts (cb_reset cb)) = (if cb_failure_threshold cb \<le> int (length ts) then OPEN else CLOSED)"
  using fail_closed [of "cb_reset cb" ts] assms by (simp add: cb_reset_def)

theorem breaker_trips_at_threshold_witness:
  "cb_state (fail_all [1, 2, 3] (cb_reset (breaker_init 3 30 2))) = OPEN"
  using breaker_trips_at_threshold [of "breaker_init 3 30 2" "[1, 2, 3]"] by (simp add: breaker_init_def)

end
