(* ===== verification/Droid_RateLimit.thy ===== *)
theory Droid_RateLimit
  imports Droid_Rounding
begin

text \<open>
  \<open>backend/app/core/rate_limiter.py\<close>: the token bucket. All quantities are binary64 floats, so
  every operation rounds with \<open>frnd\<close>; clock readings are arguments. The waiting loop of
  \<open>acquire\<close> is a recursion over the readings it takes: no reading left means still waiting.
\<close>

record bucket =
  rl_per_second :: rat
  rl_per_minute :: "rat option"
  rl_burst :: int
  rl_tokens :: rat
  rl_last :: rat

definition bucket_init :: "rat \<Rightarrow> rat option \<Rightarrow> int \<Rightarrow> rat \<Rightarrow> bucket" where
  "bucket_init ps pm burst now = \<lparr>rl_per_second = ps, rl_per_minute = pm, rl_burst = burst,
     rl_tokens = frnd (of_int burst), rl_last = now\<rparr>"

text \<open>A missing or zero per-minute rate does not limit.\<close>

definition effective_rate :: "bucket \<Rightarrow> rat" where
  "effective_rate b = (case rl_per_minute b of
     None \<Rightarrow> rl_per_second b
   | Some m \<Rightarrow> if m = 0 then rl_per_second b else min (rl_per_second b) (frnd (m / 60)))"

definition refill :: "rat \<Rightarrow> bucket \<Rightarrow> bucket" where
  "refill now b = b\<lparr>rl_tokens := min (frnd (of_int (rl_burst b)))
       (frnd (rl_tokens b + frnd (frnd (now - rl_last b) * effective_rate b))), rl_last := now\<rparr>"

record limit_status =
  ls_allowed :: bool
  ls_retry_after :: rat
  ls_tokens :: rat

definition wait_time :: "rat \<Rightarrow> bucket \<Rightarrow> rat" where
  "wait_time req b = (if 0 < effective_rate b then frnd (frnd (req - rl_tokens b) / effective_rate b) else 1)"

definition rl_check :: "rat \<Rightarrow> rat \<Rightarrow> bucket \<Rightarrow> bucket \<times> limit_status" where
  "rl_check now req b0 = (let b = refill now b0 in
     (b, if req \<le> rl_tokens b
         then \<lparr>ls_allowed = True, ls_retry_after = 0, ls_tokens = rl_tokens b\<rparr>
         else \<lparr>ls_allowed = False, ls_retry_after = wait_time req b, ls_tokens = rl_tokens b\<rparr>))"

definition try_acquire :: "rat \<Rightarrow> rat \<Rightarrow> bucket \<Rightarrow> bucket \<times> bool" where
  "try_acquire now req b0 = (let b = refill now b0 in
     if req \<le> rl_tokens b then (b\<lparr>rl_tokens := frnd (rl_tokens b - req)\<rparr>, True) else (b, False))"

fun acquire :: "rat list \<Rightarrow> rat \<Rightarrow> bucket \<Rightarrow> bucket option" where
  "acquire [] req b = None"
| "acquire (now # nows) req b = (case try_acquire now req b of
     (b', True) \<Rightarrow> Some b' | (b', False) \<Rightarrow> acquire nows req b')"

subsection \<open>Properties\<close>

inductive rl_step :: "bucket \<Rightarrow> bucket \<Rightarrow> bool" where
  step_check: "rl_last b \<le> now \<Longrightarrow> rl_step b (fst (rl_check now req b))"
| step_acquire: "rl_last b \<le> now \<Longrightarrow> 0 \<le> req \<Longrightarrow> rl_step b (fst (try_acquire now req b))"

inductive_cases rl_stepE: "rl_step b b'"

definition bucket_ok :: "bucket \<Rightarrow> bool" where
  "bucket_ok b \<longleftrightarrow> 0 \<le> rl_tokens b \<and> rl_tokens b \<le> frnd (of_int (rl_burst b)) \<and> frnd (rl_tokens b) = rl_tokens b
     \<and> 0 \<le> effective_rate b \<and> 0 \<le> rl_burst b"

lemma refill_fields [simp]:
  "rl_burst (refill now b) = rl_burst b" "effective_rate (refill now b) = effective_rate b"
  "rl_last (refill now b) = now"
  by (auto simp: refill_def effective_rate_def split: option.split)

lemma refill_ok:
  assumes "bucket_ok b" and "rl_last b \<le> now"
  shows "bucket_ok (refill now b)"
proof -
  have "0 \<le> frnd (now - rl_last b)" using assms(2) by (intro flt.rnd_nonneg) simp
  then have "0 \<le> frnd (frnd (now - rl_last b) * effective_rate b)"
    using assms(1) by (intro flt.rnd_nonneg [OF mult_nonneg_nonneg]) (simp_all add: bucket_ok_def)
  then have "0 \<le> frnd (rl_tokens b + frnd (frnd (now - rl_last b) * effective_rate b))"
    using assms(1) by (intro flt.rnd_nonneg [OF add_nonneg_nonneg]) (simp_all add: bucket_ok_def)
  moreover have "0 \<le> frnd (rat_of_int (rl_burst b))"
    using assms(1) by (intro flt.rnd_nonneg) (simp add: bucket_ok_def)
  ultimately show ?thesis using assms(1)
    by (simp add: bucket_ok_def) (simp add: refill_def min_def flt.rnd_idem)
qed

lemma spend_ok:
  assumes "bucket_ok b" and "0 \<le> req" and "req \<le> rl_tokens b"
  shows "bucket_ok (b\<lparr>rl_tokens := frnd (rl_tokens b - req)\<rparr>)"
proof -
  have "0 \<le> frnd (rl_tokens b - req)" using assms(3) by (intro flt.rnd_nonneg) simp
  moreover have "frnd (rl_tokens b - req) \<le> rl_tokens b"
    using assms by (intro flt.rnd_le_rep) (simp_all add: bucket_ok_def)
  ultimately show ?thesis using assms(1)
    by (auto simp: bucket_ok_def effective_rate_def flt.rnd_idem split: option.splits)
qed

lemma try_acquire_ok:
  "bucket_ok b \<Longrightarrow> rl_last b \<le> now \<Longrightarrow> 0 \<le> req \<Longrightarrow> bucket_ok (fst (try_acquire now req b))"
  using spend_ok [OF refill_ok] by (simp add: try_acquire_def Let_def refill_ok)

lemma rl_step_ok: "rl_step b b' \<Longrightarrow> bucket_ok b \<Longrightarrow> bucket_ok b'"
  by (erule rl_stepE) (auto simp: rl_check_def Let_def refill_ok try_acquire_ok)

text \<open>
  Over any sequence of checks and acquisitions with a clock that does not go back, the
  bucket never holds a negative number of tokens nor more than the burst limit, rounding
  included.
\<close>

theorem bucket_bounded:
  assumes "rl_step\<^sup>*\<^sup>* b b'" and "bucket_ok b"
  shows "bucket_ok b'"
  using assms by (induction rule: rtranclp_induct) (auto dest: rl_step_ok)

definition demo_bucket :: bucket where
  "demo_bucket = bucket_init 10 (Some 0) 20 0"

lemma demo_bucket_ok: "bucket_ok demo_bucket"
  by (simp add: bucket_ok_def demo_bucket_def bucket_init_def effective_rate_def)

theorem bucket_bounded_witness: "bucket_ok (fst (try_acquire 1 5 demo_bucket))"
proof -
  have "rl_step demo_bucket (fst (try_acquire 1 5 demo_bucket))"
    by (rule step_acquire) (simp_all add: demo_bucket_def bucket_init_def)
  then show ?thesis using demo_bucket_ok bucket_bounded [of demo_bucket] by blast
qed

lemma refill_tokens_le: "rl_tokens (refill now b) \<le> frnd (of_int (rl_burst b))"
  by (simp add: refill_def)

lemma refill_tokens_ge:
  assumes "0 \<le> rl_tokens b" and "frnd req = req" and "req \<le> frnd (of_int (rl_burst b))"
    and "req \<le> frnd (frnd (now - rl_last b) * effective_rate b)"
  shows "req \<le> rl_tokens (refill now b)"
  using assms flt.rnd_ge_rep [OF assms(2), of "rl_tokens b + frnd (frnd (now - rl_last b) * effective_rate b)"]
  by (simp add: refill_def)

lemma acquire_never: "frnd (of_int (rl_burst b)) < req \<Longrightarrow> acquire nows req b = None"
proof (induction nows arbitrary: b)
  case (Cons now nows)
  then have "\<not> req \<le> rl_tokens (refill now b)" using refill_tokens_le [of now b] by simp
  then show ?case using Cons by (simp add: try_acquire_def Let_def)
qed simp

text \<open>
  \<open>acquire\<close> returns at the latest at the first reading by which the refill alone covers
  the request; a request above the burst limit waits for ever, whatever the clock shows.
\<close>

theorem acquire_returns:
  assumes "0 \<le> rl_tokens b" and "frnd req = req"
    and "req \<le> frnd (frnd (now - rl_last b) * effective_rate b)"
  shows "(acquire (now # nows) req b \<noteq> None) = (req \<le> frnd (of_int (rl_burst b)))"
proof (cases "req \<le> frnd (of_int (rl_burst b))")
  case True
  then show ?thesis using refill_tokens_ge [OF assms(1,2) True assms(3)] by (simp add: try_acquire_def Let_def)
next
  case False
  then show ?thesis using acquire_never [of b req "now # nows"] by simp
qed

theorem acquire_returns_witness: "acquire [1] 5 demo_bucket \<noteq> None"
  using acquire_returns [of demo_bucket 5 1 "[]"] by (simp add: demo_bucket_def bucket_init_def effective_rate_def)

end
