(* ===== verification/Droid_Leadership.thy ===== *)
theory Droid_Leadership
  imports Droid_Prelude Droid_Rounding
begin

text \<open>
  \<open>backend/app/core/leadership.py\<close>: leader leases with monotonic fencing tokens.

  Every operation runs under the election's lock, so it is one step on the state; the clock
  reading (one per operation) and the leader id after its default are arguments, and an expiry is a
  binary64 sum. \<open>_active_leases\<close> holds the same lease
  objects as \<open>_in_memory_leases\<close>, so only its keys are kept, and of the renewal tasks only the
  scopes that have one.
\<close>

record lease =
  ll_leader :: string
  ll_token :: nat
  ll_expires :: rat

record election =
  le_duration :: rat
  le_leases :: "(string, lease) dict"
  le_highest :: "(string, nat) dict"
  le_active :: "string list"
  le_renewing :: "string list"

definition election_init :: "rat \<Rightarrow> election" where
  "election_init d = \<lparr>le_duration = d, le_leases = [], le_highest = [], le_active = [], le_renewing = []\<rparr>"

definition is_valid :: "rat \<Rightarrow> lease \<Rightarrow> bool" where
  "is_valid now l \<longleftrightarrow> now < ll_expires l"

definition time_remaining :: "rat \<Rightarrow> lease \<Rightarrow> rat" where
  "time_remaining now l = max 0 (frnd (ll_expires l - now))"

definition put_lease :: "string \<Rightarrow> lease \<Rightarrow> election \<Rightarrow> election" where
  "put_lease scope l e = e\<lparr>le_leases := AList.update scope l (le_leases e)\<rparr>"

definition next_token :: "election \<Rightarrow> string \<Rightarrow> nat" where
  "next_token e scope = Suc (or_else (map_of (le_highest e) scope) 0)"

definition elect :: "rat \<Rightarrow> string \<Rightarrow> string \<Rightarrow> election \<Rightarrow> election \<times> lease option" where
  "elect now scope lid e =
     (let l = \<lparr>ll_leader = lid, ll_token = next_token e scope, ll_expires = frnd (now + le_duration e)\<rparr> in
      (put_lease scope l (e\<lparr>le_highest := AList.update scope (next_token e scope) (le_highest e),
         le_active := List.insert scope (le_active e)\<rparr>), Some l))"

definition acquire_lease :: "rat \<Rightarrow> string \<Rightarrow> string \<Rightarrow> election \<Rightarrow> election \<times> lease option" where
  "acquire_lease now scope lid e = (case map_of (le_leases e) scope of
     Some c \<Rightarrow> if is_valid now c
       then (if ll_leader c = lid
             then (let c' = c\<lparr>ll_expires := frnd (now + le_duration e)\<rparr> in (put_lease scope c' e, Some c'))
             else (e, None))
       else elect now scope lid e
   | None \<Rightarrow> elect now scope lid e)"

definition renew_lease :: "rat \<Rightarrow> string \<Rightarrow> string \<Rightarrow> nat \<Rightarrow> election \<Rightarrow> election \<times> bool" where
  "renew_lease now scope lid token e = (case map_of (le_leases e) scope of
     Some c \<Rightarrow> if ll_leader c = lid \<and> ll_token c = token \<and> is_valid now c
       then (put_lease scope (c\<lparr>ll_expires := frnd (now + le_duration e)\<rparr>) e, True) else (e, False)
   | None \<Rightarrow> (e, False))"

definition step_down :: "string \<Rightarrow> string \<Rightarrow> election \<Rightarrow> election" where
  "step_down scope lid e =
     (let e1 = (case map_of (le_leases e) scope of
                  Some c \<Rightarrow> if ll_leader c = lid then put_lease scope (c\<lparr>ll_expires := 0\<rparr>) e else e
                | None \<Rightarrow> e)
      in e1\<lparr>le_renewing := removeAll scope (le_renewing e1), le_active := removeAll scope (le_active e1)\<rparr>)"

definition verify_authority :: "rat \<Rightarrow> string \<Rightarrow> string \<Rightarrow> nat \<Rightarrow> election \<Rightarrow> bool" where
  "verify_authority now scope lid token e = (case map_of (le_leases e) scope of
     None \<Rightarrow> False | Some c \<Rightarrow> is_valid now c \<and> ll_leader c = lid \<and> ll_token c = token)"

definition get_current_lease :: "rat \<Rightarrow> string \<Rightarrow> election \<Rightarrow> lease option" where
  "get_current_lease now scope e = (case map_of (le_leases e) scope of
     Some c \<Rightarrow> if is_valid now c then Some c else None | None \<Rightarrow> None)"

definition start_heartbeat :: "string \<Rightarrow> election \<Rightarrow> election" where
  "start_heartbeat scope e = e\<lparr>le_renewing := List.insert scope (le_renewing e)\<rparr>"

text \<open>The heartbeat loop over the clock readings of its iterations; it ends at the first failure.\<close>

fun heartbeat :: "rat list \<Rightarrow> string \<Rightarrow> string \<Rightarrow> nat \<Rightarrow> election \<Rightarrow> election \<times> bool" where
  "heartbeat [] scope lid token e = (e, True)"
| "heartbeat (now # nows) scope lid token e = (case renew_lease now scope lid token e of
     (e', True) \<Rightarrow> heartbeat nows scope lid token e' | (e', False) \<Rightarrow> (e', False))"

subsection \<open>Fencing\<close>

inductive le_step :: "election \<Rightarrow> election \<Rightarrow> bool" where
  step_acquire: "le_step e (fst (acquire_lease now scope lid e))"
| step_renew: "le_step e (fst (renew_lease now scope lid token e))"
| step_step_down: "le_step e (step_down scope lid e)"
| step_heartbeat: "le_step e (start_heartbeat scope e)"

inductive_cases le_stepE: "le_step e e'"

text \<open>The token of the lease a scope holds; no lease counts as token 0.\<close>

definition held_token :: "election \<Rightarrow> string \<Rightarrow> nat" where
  "held_token e scope = (case map_of (le_leases e) scope of None \<Rightarrow> 0 | Some c \<Rightarrow> ll_token c)"

definition highest :: "election \<Rightarrow> string \<Rightarrow> nat" where
  "highest e scope = or_else (map_of (le_highest e) scope) 0"

definition tokens_ok :: "election \<Rightarrow> bool" where
  "tokens_ok e \<longleftrightarrow> (\<forall>s. held_token e s = highest e s)"

lemma put_lease_simps [simp]:
  "held_token (put_lease s l e) s' = (if s' = s then ll_token l else held_token e s')"
  "highest (put_lease s l e) s' = highest e s'"
  by (simp_all add: put_lease_def held_token_def highest_def dict_simps)

lemma elect_tokens:
  "held_token (fst (elect now s lid e)) s' = (if s' = s then Suc (highest e s) else held_token e s')"
  "highest (fst (elect now s lid e)) s' = (if s' = s then Suc (highest e s) else highest e s')"
  by (simp_all add: elect_def Let_def next_token_def put_lease_def held_token_def highest_def dict_simps)

text \<open>A step keeps a scope's lease (up to its expiry) or issues the next token.\<close>

lemma le_step_tokens:
  assumes "le_step e e'" and "tokens_ok e"
  shows "tokens_ok e' \<and> (\<forall>s. held_token e s \<le> held_token e' s)"
  using assms(1)
proof (rule le_stepE)
  fix now scope lid assume "e' = fst (acquire_lease now scope lid e)"
  then show ?thesis using assms(2)
    by (auto simp: acquire_lease_def tokens_ok_def elect_tokens held_token_def [of e] Let_def split: option.splits if_splits)
next
  fix now scope lid token assume "e' = fst (renew_lease now scope lid token e)"
  then show ?thesis using assms(2)
    by (auto simp: renew_lease_def tokens_ok_def held_token_def [of e] split: option.splits if_splits)
next
  fix scope lid assume e': "e' = step_down scope lid e"
  have "held_token (x\<lparr>le_renewing := a, le_active := b\<rparr>) s = held_token x s"
    "highest (x\<lparr>le_renewing := a, le_active := b\<rparr>) s = highest x s" for x a b s
    by (simp_all add: held_token_def highest_def)
  then show ?thesis using assms(2) e'
    by (auto simp: step_down_def Let_def tokens_ok_def held_token_def [of e] split: option.splits if_splits)
next
  fix scope assume "e' = start_heartbeat scope e"
  then show ?thesis using assms(2) by (simp add: start_heartbeat_def tokens_ok_def held_token_def highest_def)
qed

lemma le_steps_tokens:
  assumes "le_step\<^sup>*\<^sup>* e e'" and "tokens_ok e"
  shows "tokens_ok e' \<and> (\<forall>s. held_token e s \<le> held_token e' s)"
  using assms
proof (induction rule: rtranclp_induct)
  case (step y z)
  then show ?case using le_step_tokens [of y z] by (meson order_trans)
qed simp

lemma tokens_ok_init: "tokens_ok (election_init d)"
  by (simp add: tokens_ok_def election_init_def held_token_def highest_def)

text \<open>
  C23. Fencing: once a scope was leased under a higher token, an authority with an older token
  is never accepted again, at any time and after any further operations.
\<close>

theorem stale_leader_fenced:
  assumes "le_step\<^sup>*\<^sup>* (election_init d) e" and "le_step\<^sup>*\<^sup>* e e'" and "token < held_token e scope"
  shows "\<not> verify_authority now scope lid token e'"
proof -
  have "held_token e scope \<le> held_token e' scope"
    using le_steps_tokens [OF assms(2)] le_steps_tokens [OF assms(1) tokens_ok_init] by blast
  then show ?thesis using assms(3)
    by (auto simp: verify_authority_def held_token_def split: option.splits)
qed

text \<open>
  A lease is exclusive: while a valid lease of another leader exists, an acquisition is
  refused and changes nothing; otherwise the caller gets a lease, renewed under the same token
  if it is its own, and with a token above every earlier one of the scope if not.
\<close>

theorem acquire_lease_exclusive:
  assumes "le_step\<^sup>*\<^sup>* (election_init d) e"
  shows "case get_current_lease now scope e of
     Some c \<Rightarrow> if ll_leader c = lid
        then snd (acquire_lease now scope lid e) = Some (c\<lparr>ll_expires := frnd (now + le_duration e)\<rparr>)
        else acquire_lease now scope lid e = (e, None)
   | None \<Rightarrow> (\<exists>l. snd (acquire_lease now scope lid e) = Some l \<and> ll_leader l = lid
        \<and> ll_token l = Suc (held_token e scope))"
proof -
  have "held_token e scope = highest e scope"
    using le_steps_tokens [OF assms tokens_ok_init] by (simp add: tokens_ok_def)
  then show ?thesis
    by (auto simp: get_current_lease_def acquire_lease_def elect_def next_token_def highest_def Let_def
        split: option.split)
qed

definition led :: election where
  "led = fst (acquire_lease 0 ''NIFTY'' ''w1'' (election_init 3))"

lemma led_reach: "le_step\<^sup>*\<^sup>* (election_init 3) led"
  unfolding led_def using step_acquire by blast

lemma led_lease: "map_of (le_leases led) ''NIFTY'' = Some \<lparr>ll_leader = ''w1'', ll_token = 1, ll_expires = 3\<rparr>"
  by (simp add: led_def acquire_lease_def election_init_def elect_def next_token_def put_lease_def Let_def)

theorem stale_leader_fenced_witness:
  "\<not> verify_authority 1 ''NIFTY'' ''w0'' 0 (step_down ''NIFTY'' ''w1'' led)"
proof -
  have "le_step\<^sup>*\<^sup>* led (step_down ''NIFTY'' ''w1'' led)" using step_step_down by blast
  from stale_leader_fenced [OF led_reach this] show ?thesis by (simp add: held_token_def led_lease)
qed

theorem acquire_lease_exclusive_witness: "acquire_lease 1 ''NIFTY'' ''w2'' led = (led, None)"
  using acquire_lease_exclusive [OF led_reach, of 1 "''NIFTY''" "''w2''"]
  by (simp add: get_current_lease_def led_lease is_valid_def)

text \<open>
  Stepping down does not check who asks when it stops the heartbeat: a worker that is not
  the leader cancels the renewal of the leader's still valid lease.
\<close>

theorem stranger_stops_heartbeat:
  assumes "get_current_lease now scope e = Some c" and "ll_leader c \<noteq> lid"
  shows "get_current_lease now scope (step_down scope lid e) = Some c
    \<and> scope \<notin> set (le_renewing (step_down scope lid e))"
  using assms by (auto simp: get_current_lease_def step_down_def Let_def split: option.splits if_splits)

theorem stranger_stops_heartbeat_witness:
  "''NIFTY'' \<in> set (le_renewing (start_heartbeat ''NIFTY'' led))
   \<and> ''NIFTY'' \<notin> set (le_renewing (step_down ''NIFTY'' ''w2'' (start_heartbeat ''NIFTY'' led)))"
  using stranger_stops_heartbeat [of 1 "''NIFTY''" "start_heartbeat ''NIFTY'' led"
      "\<lparr>ll_leader = ''w1'', ll_token = 1, ll_expires = 3\<rparr>" "''w2''"]
  by (simp add: start_heartbeat_def get_current_lease_def led_lease is_valid_def)

end
