(* ===== verification/Droid_SignalFSM.thy ===== *)
theory Droid_SignalFSM
  imports Droid_Decimal "HOL-Library.Product_Lexorder"
begin

text \<open>
  \<open>backend/app/signals/fsm.py\<close> (and the outcome labels of
  \<open>backend/app/signals/transaction_costs.py\<close>): the signal life cycle.

  A signal is a record of the fields the life cycle reads or writes; its Decimal fields are finite
  (the data model validates them), so they are rationals, rounded by \<open>drnd\<close> where the code
  computes. Times are integer milliseconds. What a handler takes from its surroundings is in
  \<open>fsm_env\<close>: the wall clock, the calendar's answer, and whether the data-model library accepts
  an attribute the model does not declare (pydantic's default is to raise). Risk multiples, friction
  costs, event publication and persistence are not modelled.
\<close>

subsection \<open>States and signals\<close>

datatype fsm_state =
    DETECTED | PRE_ARMED | VALIDATED | ARMED | TRIGGERED | CONFIRMED | TARGET_1_HIT | TARGET_2_HIT
  | STOP_LOSS_HIT | TIME_STOP_HIT | RUNNER_TIME_STOP_HIT | INVALIDATED | EXPIRED | CLOSED

fun fsm_transitions :: "fsm_state \<Rightarrow> fsm_state list" where
  "fsm_transitions DETECTED = [PRE_ARMED, VALIDATED, ARMED, INVALIDATED, EXPIRED]"
| "fsm_transitions PRE_ARMED = [ARMED, TRIGGERED, VALIDATED, EXPIRED, INVALIDATED, CLOSED]"
| "fsm_transitions VALIDATED = [PRE_ARMED, ARMED, TRIGGERED, INVALIDATED, EXPIRED]"
| "fsm_transitions ARMED = [TRIGGERED, EXPIRED, INVALIDATED]"
| "fsm_transitions TRIGGERED = [CONFIRMED, INVALIDATED, EXPIRED]"
| "fsm_transitions CONFIRMED =
     [TARGET_1_HIT, TARGET_2_HIT, STOP_LOSS_HIT, TIME_STOP_HIT, INVALIDATED, EXPIRED, CLOSED]"
| "fsm_transitions TARGET_1_HIT = [TARGET_2_HIT, STOP_LOSS_HIT, RUNNER_TIME_STOP_HIT, CLOSED]"
| "fsm_transitions TARGET_2_HIT = [CLOSED]"
| "fsm_transitions STOP_LOSS_HIT = [CLOSED]"
| "fsm_transitions TIME_STOP_HIT = [CLOSED]"
| "fsm_transitions RUNNER_TIME_STOP_HIT = [CLOSED]"
| "fsm_transitions INVALIDATED = [CLOSED]"
| "fsm_transitions EXPIRED = [CLOSED]"
| "fsm_transitions CLOSED = []"

interpretation fsm_table: transition_table fsm_transitions "\<lambda>s. s = CLOSED"
  by unfold_locales simp

definition TERMINAL_STATES :: "fsm_state list" where
  "TERMINAL_STATES = [TARGET_2_HIT, STOP_LOSS_HIT, TIME_STOP_HIT, RUNNER_TIME_STOP_HIT, INVALIDATED,
     EXPIRED, CLOSED]"

record fsm_audit =
  au_signal :: string
  au_from :: fsm_state
  au_to :: fsm_state
  au_price :: "rat option"
  au_reason :: string

record signal =
  sg_id :: string
  sg_underlying :: string
  sg_strategy :: string
  sg_direction :: string
  sg_spot :: rat
  sg_entry_min :: rat
  sg_entry_max :: rat
  sg_trigger :: rat
  sg_stop :: rat
  sg_target_1 :: rat
  sg_target_2 :: rat
  sg_fno_degraded :: bool
  sg_option :: "(rat \<times> string) option"
  sg_is_scalp :: bool
  sg_timeframe :: string
  sg_initial_stop :: "rat option"
  sg_current_stop :: "rat option"
  sg_risk_r :: "rat option"
  sg_be_activated :: bool
  sg_be_trigger :: "rat option"
  sg_be_activation :: "rat option"
  sg_time_stop_seconds :: "int option"
  sg_time_stop_at :: "int option"
  sg_runner_stop_at :: "int option"
  sg_runner_ttl :: "int option"
  sg_t1_price :: "rat option"
  sg_t2_price :: "rat option"
  sg_t1_hit :: bool
  sg_t1_fill_at :: "int option"
  sg_t2_hit :: bool
  sg_entry_price :: "rat option"
  sg_fill_price :: "rat option"
  sg_remaining_qty :: rat
  sg_paper_order :: bool
  sg_state :: fsm_state
  sg_created :: int
  sg_expires :: int
  sg_ttl_seconds :: int
  sg_updated :: int
  sg_triggered_at :: "int option"
  sg_confirmed_at :: "int option"
  sg_exit_price :: "rat option"
  sg_outcome_status :: "string option"
  sg_terminal_outcome :: "string option"
  sg_history :: "fsm_audit list"
  sg_version :: int

record fsm_env =
  env_now :: int
  env_market_closed :: bool
  env_accepts_undeclared :: bool

text \<open>\<open>x or y\<close> on an optional number: zero counts as missing.\<close>

definition num_or :: "'a::zero option \<Rightarrow> 'a \<Rightarrow> 'a" where
  "num_or x y = (case x of None \<Rightarrow> y | Some v \<Rightarrow> if v = 0 then y else v)"

definition is_long :: "signal \<Rightarrow> bool" where
  "is_long s \<longleftrightarrow> sg_direction s = ''LONG_CALL''"

definition is_short :: "signal \<Rightarrow> bool" where
  "is_short s \<longleftrightarrow> sg_direction s = ''LONG_PUT''"

definition is_expired :: "signal \<Rightarrow> int \<Rightarrow> bool" where
  "is_expired s now \<longleftrightarrow> sg_expires s < now \<and> sg_state s \<in> {DETECTED, VALIDATED, ARMED}"

definition ttl_remaining :: "signal \<Rightarrow> int \<Rightarrow> int" where
  "ttl_remaining s now =
     (let left = (\<lambda>t. max 0 (rat_trunc (frnd (of_int (t - now) / 1000)))) in
      if sg_state s = TARGET_1_HIT \<and> num_or (sg_runner_stop_at s) 0 \<noteq> 0 then left (num_or (sg_runner_stop_at s) 0)
      else if sg_state s = CONFIRMED \<and> num_or (sg_time_stop_at s) 0 \<noteq> 0 then left (num_or (sg_time_stop_at s) 0)
      else left (sg_expires s))"

text \<open>The spot price a breakeven stop may move to.\<close>

definition spot_be_reference :: "signal \<Rightarrow> rat option" where
  "spot_be_reference s =
     (let trig = sg_trigger s;
          fills = [v. Some v \<leftarrow> [sg_fill_price s, sg_entry_price s], 0 < v \<and> 0 < trig
                      \<and> drnd (trig * (1/2)) < v \<and> v < drnd (trig * (3/2))];
          zone = [v. v \<leftarrow> [sg_entry_min s, sg_entry_max s, sg_trigger s, sg_spot s], 0 < v]
      in case fills @ zone of [] \<Rightarrow> None | v # vs \<Rightarrow> Some v)"

subsection \<open>Terminal outcomes\<close>

text \<open>Intrinsic value at expiry of the option contract (strike and type), if it has one.\<close>

definition intrinsic_at_expiry :: "signal \<Rightarrow> rat option \<Rightarrow> rat option" where
  "intrinsic_at_expiry s price = (case sg_option s of
     None \<Rightarrow> None
   | Some (strike, otype) \<Rightarrow>
       (let kind = map to_upper otype; spot = frnd (or_else price (sg_spot s)) in
        if strike \<le> 0 \<or> kind \<notin> {''CE'', ''PE''} \<or> spot \<le> 0 then None
        else Some (max 0 (if kind = ''CE'' then frnd (spot - strike) else frnd (strike - spot)))))"

definition label :: "string \<Rightarrow> string \<Rightarrow> signal \<Rightarrow> signal" where
  "label status outcome s = s\<lparr>sg_outcome_status := Some status, sg_terminal_outcome := Some outcome\<rparr>"

text \<open>\<open>compute_terminal_outcome\<close> with the attribute writes of its caller. An expiry with a known
  intrinsic value also writes \<open>intrinsic_per_share\<close>, which the model does not declare.\<close>

definition write_outcome :: "fsm_env \<Rightarrow> fsm_state \<Rightarrow> rat option \<Rightarrow> signal \<Rightarrow> signal \<times> exn option" where
  "write_outcome env t price s0 = (let s = s0\<lparr>sg_exit_price := price\<rparr> in
     case t of
       TARGET_1_HIT \<Rightarrow> (label ''WIN_T1'' ''PARTIAL_WIN'' (s\<lparr>sg_t1_hit := True\<rparr>), None)
     | TARGET_2_HIT \<Rightarrow> (label ''WIN_T2'' ''FULL_WIN'' (s\<lparr>sg_t2_hit := True\<rparr>), None)
     | STOP_LOSS_HIT \<Rightarrow> (label ''LOSS_SL'' (if sg_be_activated s then ''BREAKEVEN'' else ''STOP_LOSS_HIT'') s, None)
     | TIME_STOP_HIT \<Rightarrow> (label ''TIME_STOP'' ''TIME_STOP_LOSS'' s, None)
     | RUNNER_TIME_STOP_HIT \<Rightarrow> (label ''RUNNER_TIME_STOP'' ''PARTIAL_WIN'' s, None)
     | EXPIRED \<Rightarrow> (case intrinsic_at_expiry s price of
          None \<Rightarrow> (label ''EXPIRED'' ''EXPIRED'' s, None)
        | Some v \<Rightarrow> (if v \<le> 0 then label ''EXPIRED_OTM'' ''EXPIRED'' s else label ''EXPIRED_ITM'' ''ASSIGNED'' s,
                     if env_accepts_undeclared env then None else Some ValueError))
     | INVALIDATED \<Rightarrow> (label ''INVALIDATED'' ''INVALIDATED'' s, None)
     | _ \<Rightarrow> (s, None))"

subsection \<open>The pure transition\<close>

datatype refusal = NotFound | VersionConflict | IllegalTransition | FnoDegraded

text \<open>The runner clock and the breakeven stop on the first target.\<close>

definition enter_runner :: "int \<Rightarrow> signal \<Rightarrow> signal" where
  "enter_runner now s0 =
     (let s = s0\<lparr>sg_t1_fill_at := Some now,
                 sg_runner_stop_at := Some (now + num_or (sg_runner_ttl s0) 300 * 1000)\<rparr> in
      if sg_be_activated s then s
      else (let cost = or_else (spot_be_reference s) (sg_stop s); cur = num_or (sg_current_stop s) (sg_stop s)
            in s\<lparr>sg_be_activated := True,
                 sg_current_stop := Some (if is_long s then max cur cost else min cur cost)\<rparr>))"

definition enter_confirmed :: "int \<Rightarrow> signal \<Rightarrow> signal" where
  "enter_confirmed now s0 = (let s = s0\<lparr>sg_confirmed_at := Some now\<rparr> in
     if sg_time_stop_at s = None
     then s\<lparr>sg_time_stop_at := Some (now + num_or (sg_time_stop_seconds s) (if sg_is_scalp s then 900 else 4500) * 1000)\<rparr>
     else s)"

definition enter_state :: "fsm_env \<Rightarrow> int \<Rightarrow> fsm_state \<Rightarrow> rat option \<Rightarrow> signal \<Rightarrow> signal \<times> exn option" where
  "enter_state env now t price s0 =
     (let s = s0\<lparr>sg_state := t, sg_updated := now, sg_version := sg_version s0 + 1\<rparr> in
      if t = TRIGGERED then (s\<lparr>sg_triggered_at := Some now\<rparr>, None)
      else if t = CONFIRMED then (enter_confirmed now s, None)
      else if t \<in> {TARGET_1_HIT, TARGET_2_HIT, STOP_LOSS_HIT, TIME_STOP_HIT, RUNNER_TIME_STOP_HIT, EXPIRED, INVALIDATED}
      then (case write_outcome env t price s of
              (x, Some e) \<Rightarrow> (x, Some e)
            | (x, None) \<Rightarrow> (if t = TARGET_1_HIT then enter_runner now x else x, None))
      else (s, None))"

text \<open>\<open>timestamp_ms or time.time()\<close>; the answer is the signal and a refusal, success, or the
  exception a write raised. The proof check of \<open>CONFIRMED\<close> has no effect in the code.\<close>

definition apply_fsm_transition_pure ::
  "fsm_env \<Rightarrow> signal \<Rightarrow> fsm_state \<Rightarrow> rat option \<Rightarrow> int option \<Rightarrow> int option \<Rightarrow> signal \<times> (refusal + unit) result" where
  "apply_fsm_transition_pure env s t price timestamp expected =
     (if expected \<noteq> None \<and> expected \<noteq> Some (sg_version s) then (s, Inr (Inl VersionConflict))
      else if sg_state s = t then (s, Inr (Inr ()))
      else if t \<notin> set (fsm_transitions (sg_state s)) then (s, Inr (Inl IllegalTransition))
      else if t \<in> {ARMED, TRIGGERED, CONFIRMED} \<and> sg_fno_degraded s then (s, Inr (Inl FnoDegraded))
      else if t = CONFIRMED \<and> sg_state s \<noteq> TRIGGERED then (s, Inr (Inl IllegalTransition))
      else (case enter_state env (num_or timestamp (env_now env)) t price s of
              (x, None) \<Rightarrow> (x, Inr (Inr ())) | (x, Some e) \<Rightarrow> (x, Inl e)))"

subsection \<open>The manager\<close>

text \<open>A settlement intent is identified by signal, version and terminal state.\<close>

record settlement =
  se_signal :: string
  se_version :: int
  se_state :: fsm_state
  se_quantity :: int

record fsm_manager =
  fm_signals :: "(string, signal) dict"
  fm_audit :: "fsm_audit list"
  fm_intents :: "settlement list"

definition mk_audit :: "string \<Rightarrow> fsm_state \<Rightarrow> fsm_state \<Rightarrow> rat option \<Rightarrow> string \<Rightarrow> fsm_audit" where
  "mk_audit sid f t price reason =
     \<lparr>au_signal = sid, au_from = f, au_to = t, au_price = price, au_reason = reason\<rparr>"

definition record_audit :: "fsm_audit \<Rightarrow> signal \<Rightarrow> fsm_manager \<Rightarrow> fsm_manager" where
  "record_audit a s fm = fm\<lparr>fm_signals := AList.update (sg_id s) (s\<lparr>sg_history := sg_history s @ [a]\<rparr>) (fm_signals fm),
     fm_audit := fm_audit fm @ [a]\<rparr>"

text \<open>Breakeven trigger price at 0.8R from the entry reference.\<close>

definition be_price :: "bool \<Rightarrow> rat \<Rightarrow> rat \<Rightarrow> rat" where
  "be_price long entry risk =
     (let off = drnd (risk * (4/5)); alt = (if risk = 0 then 1 else drnd \<bar>drnd (risk * (4/5))\<bar>) in
      if long then (let p = drnd (entry + off) in if p \<le> entry then drnd (entry + alt) else p)
      else (let p = drnd (entry - off) in if entry \<le> p then drnd (entry - alt) else p))"

definition prepare :: "signal \<Rightarrow> signal" where
  "prepare s =
     (let entry = (if sg_trigger s \<noteq> 0 \<and> 0 < sg_trigger s then sg_trigger s else sg_spot s);
          risk = drnd \<bar>drnd (entry - sg_stop s)\<bar>; be = be_price (is_long s) entry risk
      in s\<lparr>sg_initial_stop := Some (or_else (sg_initial_stop s) (sg_stop s)),
           sg_current_stop := Some (or_else (sg_current_stop s) (sg_stop s)),
           sg_t1_price := Some (or_else (sg_t1_price s) (sg_target_1 s)),
           sg_t2_price := Some (or_else (sg_t2_price s) (sg_target_2 s)),
           sg_risk_r := Some risk, sg_be_trigger := Some be, sg_be_activation := Some be,
           sg_expires := (if 0 < sg_ttl_seconds s then sg_created s + sg_ttl_seconds s * 1000 else sg_expires s)\<rparr>)"

definition fsm_register :: "signal \<Rightarrow> fsm_manager \<Rightarrow> fsm_manager \<times> signal" where
  "fsm_register s0 fm = (case map_of (fm_signals fm) (sg_id s0) of
     Some x \<Rightarrow> (fm, x)
   | None \<Rightarrow> (let s = prepare s0;
                  a = mk_audit (sg_id s) DETECTED (sg_state s) (Some (sg_spot s)) ''SIGNAL_REGISTERED''
              in (record_audit a s fm, s\<lparr>sg_history := sg_history s @ [a]\<rparr>)))"

definition fsm_get :: "fsm_manager \<Rightarrow> string \<Rightarrow> signal option" where
  "fsm_get fm sid = map_of (fm_signals fm) sid"

definition fsm_delete :: "fsm_env \<Rightarrow> string \<Rightarrow> fsm_manager \<Rightarrow> fsm_manager \<times> bool" where
  "fsm_delete env sid fm = (case map_of (fm_signals fm) sid of
     None \<Rightarrow> (fm, False)
   | Some s \<Rightarrow>
       (let closes = sg_state s \<noteq> CLOSED \<and> (CLOSED \<in> set (fsm_transitions (sg_state s)) \<or> sg_state s \<in> set TERMINAL_STATES);
            x = (if closes then s\<lparr>sg_state := CLOSED, sg_updated := env_now env, sg_version := sg_version s + 1\<rparr> else s)
        in (record_audit (mk_audit sid (sg_state s) CLOSED (Some (sg_spot s)) ''USER_VOID'') x fm, True)))"

definition enqueue_settlement :: "signal \<Rightarrow> fsm_state \<Rightarrow> fsm_manager \<Rightarrow> fsm_manager" where
  "enqueue_settlement s t fm =
     (let i = \<lparr>se_signal = sg_id s, se_version = num_or (Some (sg_version s)) 1, se_state = t,
               se_quantity = rat_trunc (sg_remaining_qty s)\<rparr>
      in if t \<notin> set TERMINAL_STATES
            \<or> (\<exists>j \<in> set (fm_intents fm). se_signal j = se_signal i \<and> se_version j = se_version i \<and> se_state j = t)
         then fm else fm\<lparr>fm_intents := fm_intents fm @ [i]\<rparr>)"

definition fsm_transition ::
  "fsm_env \<Rightarrow> string \<Rightarrow> fsm_state \<Rightarrow> rat option \<Rightarrow> string \<Rightarrow> int option \<Rightarrow> fsm_manager
    \<Rightarrow> fsm_manager \<times> (refusal + unit) result" where
  "fsm_transition env sid t price reason expected fm = (case map_of (fm_signals fm) sid of
     None \<Rightarrow> (fm, Inr (Inl NotFound))
   | Some s \<Rightarrow> if sg_state s = t then (fm, Inr (Inr ()))
       else (case apply_fsm_transition_pure env s t price None expected of
          (x, Inl e) \<Rightarrow> (fm\<lparr>fm_signals := AList.update sid x (fm_signals fm)\<rparr>, Inl e)
        | (x, Inr (Inl r)) \<Rightarrow> (fm, Inr (Inl r))
        | (x, Inr (Inr u)) \<Rightarrow>
            (enqueue_settlement x t (record_audit (mk_audit sid (sg_state s) t price reason) x fm), Inr (Inr u))))"

text \<open>The breakeven ratchet: to the cost reference, short of the market by 0.05, never backwards.\<close>

definition ratchet_target :: "signal \<Rightarrow> rat \<Rightarrow> rat \<Rightarrow> rat" where
  "ratchet_target s price cost =
     (if is_long s then (if price \<le> cost then drnd (price - 5/100) else cost)
      else (if cost \<le> price then drnd (price + 5/100) else cost))"

definition goes_backward :: "signal \<Rightarrow> rat \<Rightarrow> bool" where
  "goes_backward s new_stop = (case sg_current_stop s of None \<Rightarrow> False
     | Some cur \<Rightarrow> if is_long s then new_stop \<le> cur else cur \<le> new_stop)"

definition ratchet_breakeven :: "string \<Rightarrow> rat \<Rightarrow> fsm_manager \<Rightarrow> fsm_manager \<times> bool" where
  "ratchet_breakeven sid price fm = (case map_of (fm_signals fm) sid of
     None \<Rightarrow> (fm, False)
   | Some s \<Rightarrow> if sg_be_activated s \<or> sg_state s \<notin> {CONFIRMED, TARGET_1_HIT} then (fm, False)
       else (case spot_be_reference s of
          None \<Rightarrow> (fm, False)
        | Some cost \<Rightarrow> (let new_stop = ratchet_target s price cost in
            if goes_backward s new_stop then (fm, False)
            else (record_audit (mk_audit sid (sg_state s) (sg_state s) (Some price) ''BREAKEVEN_RATCHET_ACTIVATED'')
                    (s\<lparr>sg_current_stop := Some new_stop, sg_be_activated := True\<rparr>) fm, True))))"

subsection \<open>Ticks\<close>

definition clock_past :: "int \<Rightarrow> int option \<Rightarrow> bool" where
  "clock_past now x = (case x of None \<Rightarrow> False | Some v \<Rightarrow> v \<noteq> 0 \<and> v < now)"

definition at_or_beyond :: "signal \<Rightarrow> rat \<Rightarrow> rat \<Rightarrow> bool" where
  "at_or_beyond s price level \<longleftrightarrow> is_long s \<and> level \<le> price \<or> is_short s \<and> price \<le> level"

definition stop_breached :: "signal \<Rightarrow> rat \<Rightarrow> bool" where
  "stop_breached s price \<longleftrightarrow> (let stop = num_or (sg_current_stop s) (sg_stop s) in
     is_long s \<and> price \<le> stop \<or> is_short s \<and> stop \<le> price)"

definition be_due :: "signal \<Rightarrow> rat \<Rightarrow> bool" where
  "be_due s price \<longleftrightarrow> (let trig = num_or (sg_be_trigger s) (or_else (sg_be_activation s) 0) in
     \<not> sg_be_activated s \<and> trig \<noteq> 0 \<and> at_or_beyond s price trig)"

definition evaluate_tick :: "fsm_env \<Rightarrow> signal \<Rightarrow> rat \<Rightarrow> int option \<Rightarrow> fsm_state option \<times> string" where
  "evaluate_tick env s price timestamp =
     (let ts = num_or timestamp (env_now env) in
      if price \<le> 0 then (None, ''INVALID_PRICE'')
      else if stop_breached s price then (Some STOP_LOSS_HIT, ''STOP_LOSS_BREACHED'')
      else if sg_state s = TARGET_1_HIT then
        (if at_or_beyond s price (num_or (sg_t2_price s) (sg_target_2 s)) then (Some TARGET_2_HIT, ''TARGET_2_ACHIEVED'')
         else if clock_past ts (sg_runner_stop_at s) then (Some RUNNER_TIME_STOP_HIT, ''RUNNER_TIME_STOP_EXCEEDED'')
         else if be_due s price then (None, ''BE_ACTIVATED'')
         else (None, ''HOLD_RUNNER''))
      else if sg_state s = CONFIRMED then
        (if at_or_beyond s price (num_or (sg_t1_price s) (sg_target_1 s)) then (Some TARGET_1_HIT, ''TARGET_1_ACHIEVED'')
         else if clock_past ts (sg_time_stop_at s) then (Some TIME_STOP_HIT, ''TIME_STOP_EXCEEDED'')
         else if be_due s price then (None, ''BE_ACTIVATED'')
         else (None, ''HOLD_ACTIVE''))
      else (None, ''NO_ACTION''))"

subsection \<open>The sweep\<close>

text \<open>Days of Indian Standard Time, UTC+5:30.\<close>

definition ist_day :: "int \<Rightarrow> int" where
  "ist_day ms = (ms + 19800000) div 86400000"

text \<open>What the sweep asks of one signal: the target state and the reason, if any.\<close>

definition sweep_target :: "bool \<Rightarrow> int \<Rightarrow> signal \<Rightarrow> (fsm_state \<times> string) option" where
  "sweep_target shut now s =
     (let prior = ist_day (sg_created s) < ist_day now in
      if sg_state s \<in> {DETECTED, VALIDATED, ARMED, TRIGGERED}
         \<or> sg_state s = CONFIRMED \<and> num_or (sg_fill_price s) 0 = 0 \<and> \<not> sg_paper_order s then
        (if prior \<or> shut then Some (EXPIRED, if shut then ''MARKET_CLOSED'' else ''PRIOR_DAY_EXPIRED'')
         else if is_expired s now then Some (EXPIRED, ''TTL_EXCEEDED'') else None)
      else if prior \<and> sg_state s \<in> {CONFIRMED, TARGET_1_HIT} then
        (if sg_paper_order s \<and> 0 < sg_remaining_qty s then None else Some (CLOSED, ''EOD_SESSION_SQUARE_OFF''))
      else if sg_state s = TARGET_1_HIT then
        (if shut then Some (RUNNER_TIME_STOP_HIT, ''MARKET_CLOSED_RUNNER_CLOSED'')
         else if clock_past now (sg_runner_stop_at s)
                 \<or> num_or (sg_t1_fill_at s) 0 \<noteq> 0 \<and> 1800000 < now - num_or (sg_t1_fill_at s) 0
         then Some (RUNNER_TIME_STOP_HIT, ''RUNNER_TTL_EXCEEDED'') else None)
      else if sg_state s = CONFIRMED \<and> clock_past now (sg_time_stop_at s)
        then Some (TIME_STOP_HIT, ''TIME_STOP_EXCEEDED'')
      else None)"

record sweep_count =
  sw_expired :: nat
  sw_runner_stopped :: nat
  sw_pruned :: nat

text \<open>An exception of one transition is swallowed, with what it had already written.\<close>

definition sweep_one :: "fsm_env \<Rightarrow> int \<Rightarrow> string \<Rightarrow> fsm_manager \<times> sweep_count \<Rightarrow> fsm_manager \<times> sweep_count" where
  "sweep_one env now sid st = (case st of (fm, n) \<Rightarrow> (case map_of (fm_signals fm) sid of
     None \<Rightarrow> (fm, n)
   | Some s \<Rightarrow> (case sweep_target (env_market_closed env) now s of
       None \<Rightarrow> (fm, n)
     | Some (t, reason) \<Rightarrow> (case fsm_transition env sid t None reason None fm of
         (fm', Inr (Inr u)) \<Rightarrow> (fm', if t = EXPIRED then n\<lparr>sw_expired := sw_expired n + 1\<rparr>
                                    else n\<lparr>sw_runner_stopped := sw_runner_stopped n + 1\<rparr>)
       | (fm', _) \<Rightarrow> (fm', n)))))"

definition FSM_MAX_SIGNALS_IN_MEMORY :: nat where "FSM_MAX_SIGNALS_IN_MEMORY = 200"
definition FSM_MAX_AUDIT_LOG_ENTRIES :: nat where "FSM_MAX_AUDIT_LOG_ENTRIES = 1000"

definition pruned_ids :: "fsm_manager \<Rightarrow> string list" where
  "pruned_ids fm =
     (let vals = map snd (fm_signals fm);
          terminal = sort_key sg_updated (filter (\<lambda>s. sg_state s \<in> set TERMINAL_STATES) vals)
      in map sg_id (take (length vals - FSM_MAX_SIGNALS_IN_MEMORY) terminal))"

definition prune_signals :: "fsm_manager \<Rightarrow> fsm_manager" where
  "prune_signals fm = fm\<lparr>fm_signals := fold AList.delete (pruned_ids fm) (fm_signals fm),
     fm_audit := last_n FSM_MAX_AUDIT_LOG_ENTRIES (fm_audit fm)\<rparr>"

definition sweep_expired :: "fsm_env \<Rightarrow> int option \<Rightarrow> fsm_manager \<Rightarrow> fsm_manager \<times> sweep_count" where
  "sweep_expired env now_arg fm =
     (let now = or_else now_arg (env_now env);
          (fm', n) = fold (sweep_one env now) (map fst (fm_signals fm))
                       (fm, \<lparr>sw_expired = 0, sw_runner_stopped = 0, sw_pruned = 0\<rparr>)
      in (prune_signals fm', n\<lparr>sw_pruned := length (pruned_ids fm')\<rparr>))"

definition state_order :: "fsm_state \<Rightarrow> int" where
  "state_order t = (case t of CONFIRMED \<Rightarrow> 0 | TARGET_1_HIT \<Rightarrow> 1 | TRIGGERED \<Rightarrow> 2 | ARMED \<Rightarrow> 3 | VALIDATED \<Rightarrow> 4
     | DETECTED \<Rightarrow> 5 | TARGET_2_HIT \<Rightarrow> 6 | STOP_LOSS_HIT \<Rightarrow> 7 | TIME_STOP_HIT \<Rightarrow> 8 | RUNNER_TIME_STOP_HIT \<Rightarrow> 9
     | EXPIRED \<Rightarrow> 10 | INVALIDATED \<Rightarrow> 11 | CLOSED \<Rightarrow> 12 | PRE_ARMED \<Rightarrow> 99)"

definition matches_filter :: "string option \<Rightarrow> string \<Rightarrow> bool" where
  "matches_filter flt field \<longleftrightarrow> or_else flt [] = [] \<or> field = map to_upper (or_else flt [])"

definition list_active ::
  "fsm_env \<Rightarrow> string option \<Rightarrow> string option \<Rightarrow> bool \<Rightarrow> fsm_manager \<Rightarrow> fsm_manager \<times> signal list" where
  "list_active env underlying strategy include_terminal fm =
     (let fm' = fst (sweep_expired env None fm) in
      (fm', sort_key (\<lambda>s. (state_order (sg_state s), - sg_created s))
         [s \<leftarrow> map snd (fm_signals fm'). (include_terminal \<or> sg_state s \<notin> set TERMINAL_STATES)
            \<and> matches_filter underlying (sg_underlying s) \<and> matches_filter strategy (sg_strategy s)]))"

subsection \<open>Runs of the manager\<close>

inductive fsm_step :: "fsm_manager \<Rightarrow> fsm_manager \<Rightarrow> bool" where
  step_register: "fsm_step fm (fst (fsm_register s fm))"
| step_delete: "fsm_step fm (fst (fsm_delete env sid fm))"
| step_transition: "fsm_step fm (fst (fsm_transition env sid t price reason expected fm))"
| step_ratchet: "fsm_step fm (fst (ratchet_breakeven sid p fm))"
| step_sweep: "fsm_step fm (fst (sweep_expired env now fm))"

definition fsm_init :: fsm_manager where
  "fsm_init = \<lparr>fm_signals = [], fm_audit = [], fm_intents = []\<rparr>"

definition fsm_wf :: "fsm_manager \<Rightarrow> bool" where
  "fsm_wf fm \<longleftrightarrow> (\<forall>k s. map_of (fm_signals fm) k = Some s \<longrightarrow> sg_id s = k) \<and> distinct (map fst (fm_signals fm))"

text \<open>What may happen to one signal: nothing, or one edge of the table with a new version; the stop
  moves only in its direction.\<close>

definition edge :: "fsm_state \<Rightarrow> fsm_state \<Rightarrow> bool" where
  "edge a b \<longleftrightarrow> b \<in> set (fsm_transitions a)"

definition stop_kept :: "signal \<Rightarrow> signal \<Rightarrow> bool" where
  "stop_kept s x \<longleftrightarrow> (\<forall>c. sg_current_stop s = Some c \<and> c \<noteq> 0 \<longrightarrow>
     (\<exists>d. sg_current_stop x = Some d \<and> (if is_long s then c \<le> d else d \<le> c)))"

definition signal_moves :: "signal \<Rightarrow> signal \<Rightarrow> bool" where
  "signal_moves s x \<longleftrightarrow> sg_id x = sg_id s \<and> sg_direction x = sg_direction s \<and> stop_kept s x
     \<and> (sg_state x = sg_state s \<and> sg_version x = sg_version s
        \<or> edge (sg_state s) (sg_state x) \<and> sg_version x = sg_version s + 1)"

lemma stop_kept_same: "sg_current_stop x = sg_current_stop s \<Longrightarrow> stop_kept s x"
  by (simp add: stop_kept_def)

lemma signal_moves_refl [simp]: "signal_moves s s"
  by (simp add: signal_moves_def stop_kept_def)

lemma signal_moves_history [simp]: "signal_moves s (x\<lparr>sg_history := h\<rparr>) = signal_moves s x"
  by (simp add: signal_moves_def stop_kept_def is_long_def)

lemma write_outcome_keeps:
  "sg_id (fst (write_outcome env t p s)) = sg_id s"
  "sg_direction (fst (write_outcome env t p s)) = sg_direction s"
  "sg_current_stop (fst (write_outcome env t p s)) = sg_current_stop s"
  "sg_state (fst (write_outcome env t p s)) = sg_state s"
  "sg_version (fst (write_outcome env t p s)) = sg_version s"
  by (auto simp: write_outcome_def label_def Let_def split: fsm_state.splits option.splits)

lemma enter_runner_keeps:
  "sg_id (enter_runner now s) = sg_id s" "sg_direction (enter_runner now s) = sg_direction s"
  "sg_state (enter_runner now s) = sg_state s" "sg_version (enter_runner now s) = sg_version s"
  by (simp_all add: enter_runner_def Let_def)

lemma enter_runner_stop: "stop_kept s (enter_runner now s)"
  by (auto simp: stop_kept_def enter_runner_def Let_def num_or_def is_long_def)

lemma stop_kept_cong: "sg_current_stop s = sg_current_stop s' \<Longrightarrow> sg_direction s = sg_direction s' \<Longrightarrow>
  stop_kept s x = stop_kept s' x"
  by (simp add: stop_kept_def is_long_def)

text \<open>The fields the life cycle of a signal is about, without the rest of the record.\<close>

definition core :: "signal \<Rightarrow> string \<times> string \<times> fsm_state \<times> int" where
  "core s = (sg_id s, sg_direction s, sg_state s, sg_version s)"

lemma enter_confirmed_core:
  "core (enter_confirmed now s) = core s" "sg_current_stop (enter_confirmed now s) = sg_current_stop s"
  by (simp_all add: core_def enter_confirmed_def Let_def)

lemma write_outcome_core: "write_outcome env t p s = (x, e) \<Longrightarrow> core x = core s \<and> sg_current_stop x = sg_current_stop s"
  using write_outcome_keeps [of env t p s] by (simp add: core_def)

lemma enter_runner_core: "core (enter_runner now s) = core s"
  by (simp add: core_def enter_runner_keeps)

lemma enter_state_cases:
  fixes env now t price s0
  defines "s \<equiv> s0\<lparr>sg_state := t, sg_updated := now, sg_version := sg_version s0 + 1\<rparr>"
  shows "core (fst (enter_state env now t price s0)) = core s \<and> stop_kept s (fst (enter_state env now t price s0))"
proof -
  consider "t = TRIGGERED" | "t = CONFIRMED"
    | "t \<in> {TARGET_1_HIT, TARGET_2_HIT, STOP_LOSS_HIT, TIME_STOP_HIT, RUNNER_TIME_STOP_HIT, EXPIRED, INVALIDATED}"
    | "t \<notin> {TRIGGERED, CONFIRMED, TARGET_1_HIT, TARGET_2_HIT, STOP_LOSS_HIT, TIME_STOP_HIT, RUNNER_TIME_STOP_HIT,
            EXPIRED, INVALIDATED}"
    by blast
  then show ?thesis
  proof cases
    case 1
    then show ?thesis by (simp add: enter_state_def s_def core_def stop_kept_same)
  next
    case 2
    then have "enter_state env now t price s0 = (enter_confirmed now s, None)"
      by (simp add: enter_state_def s_def)
    then show ?thesis by (simp add: enter_confirmed_core stop_kept_same)
  next
    case 3
    obtain x e where w: "write_outcome env t price s = (x, e)" by fastforce
    have "fst (enter_state env now t price s0) = (if e = None \<and> t = TARGET_1_HIT then enter_runner now x else x)"
      using 3 w unfolding enter_state_def s_def [symmetric] Let_def by (cases e) auto
    moreover have "stop_kept s (enter_runner now x)"
      using enter_runner_stop [of x now] write_outcome_core [OF w] by (simp add: stop_kept_def is_long_def core_def)
    ultimately show ?thesis
      using write_outcome_core [OF w] by (auto simp: enter_runner_core stop_kept_same)
  next
    case 4
    then have "enter_state env now t price s0 = (s, None)" by (simp add: enter_state_def s_def)
    then show ?thesis by (simp add: stop_kept_same)
  qed
qed

lemma enter_state_moves:
  assumes "enter_state env n t price s = (x, r)" "t \<in> set (fsm_transitions (sg_state s))"
  shows "signal_moves s x" and "sg_state x = t"
  using enter_state_cases [of env n t price s] assms
  by (simp_all add: signal_moves_def edge_def core_def stop_kept_def is_long_def)

lemma pure_moves: "apply_fsm_transition_pure env s t price ts v = (x, r) \<Longrightarrow> x \<noteq> s \<Longrightarrow> signal_moves s x \<and> sg_state x = t"
  by (auto simp: apply_fsm_transition_pure_def split: if_splits prod.splits option.splits dest: enter_state_moves)

lemma pure_refused: "apply_fsm_transition_pure env s t price ts v = (x, Inr (Inl r)) \<Longrightarrow> x = s"
  by (auto simp: apply_fsm_transition_pure_def split: if_splits prod.splits option.splits)

subsection \<open>One step moves each signal along one edge\<close>

definition manager_moves :: "fsm_manager \<Rightarrow> fsm_manager \<Rightarrow> bool" where
  "manager_moves fm fm' \<longleftrightarrow> (\<forall>sid s x. map_of (fm_signals fm) sid = Some s \<longrightarrow>
     map_of (fm_signals fm') sid = Some x \<longrightarrow> signal_moves s x)"

lemma manager_moves_refl [simp]: "manager_moves fm fm"
  by (simp add: manager_moves_def)

lemma record_audit_get: "map_of (fm_signals (record_audit a x fm)) sid
   = (if sid = sg_id x then Some (x\<lparr>sg_history := sg_history x @ [a]\<rparr>) else map_of (fm_signals fm) sid)"
  by (simp add: record_audit_def dict_simps)

lemma record_audit_moves:
  assumes "map_of (fm_signals fm) sid = Some s" "sg_id s = sid" "signal_moves s x"
  shows "manager_moves fm (record_audit a x fm)"
  using assms by (auto simp: manager_moves_def record_audit_get) (simp add: signal_moves_def)+

lemma update_moves:
  assumes "map_of (fm_signals fm) sid = Some s" "signal_moves s x"
    and "\<And>k. map_of (fm_signals fm') k = (if k = sid then Some x else map_of (fm_signals fm) k)"
  shows "manager_moves fm fm'"
proof -
  have "signal_moves y y" for y by simp
  with assms show ?thesis unfolding manager_moves_def by (metis option.inject)
qed

lemma enqueue_signals [simp]: "fm_signals (enqueue_settlement s t fm) = fm_signals fm"
  by (simp add: enqueue_settlement_def Let_def)

lemma fsm_wf_id: "fsm_wf fm \<Longrightarrow> map_of (fm_signals fm) k = Some s \<Longrightarrow> sg_id s = k"
  by (simp add: fsm_wf_def)

lemma fsm_wf_update:
  assumes "fsm_wf fm" "sg_id x = sid" "fm_signals fm' = AList.update sid x (fm_signals fm)"
  shows "fsm_wf fm'"
  using assms by (auto simp: fsm_wf_def dict_simps distinct_update split: if_splits)

lemma record_audit_wf: "fsm_wf fm \<Longrightarrow> fsm_wf (record_audit a x fm)"
  by (rule fsm_wf_update [where x = "x\<lparr>sg_history := sg_history x @ [a]\<rparr>"]) (auto simp: record_audit_def)

lemma enqueue_wf [simp]: "fsm_wf (enqueue_settlement s t fm) = fsm_wf fm"
  by (simp add: fsm_wf_def)

lemma delete_moves: "fsm_wf fm \<Longrightarrow> manager_moves fm (fst (fsm_delete env sid fm))"
  by (cases "map_of (fm_signals fm) sid")
     (auto simp: fsm_delete_def Let_def fsm_wf_id signal_moves_def stop_kept_def edge_def TERMINAL_STATES_def
        intro!: record_audit_moves)

lemma delete_wf: "fsm_wf fm \<Longrightarrow> fsm_wf (fst (fsm_delete env sid fm))"
  by (auto simp: fsm_delete_def Let_def record_audit_wf split: option.splits)

lemma register_moves: "manager_moves fm (fst (fsm_register s fm))"
proof (cases "map_of (fm_signals fm) (sg_id s)")
  case None
  then show ?thesis
    by (auto simp: fsm_register_def Let_def manager_moves_def record_audit_get prepare_def)
qed (simp add: fsm_register_def)

lemma register_wf: "fsm_wf fm \<Longrightarrow> fsm_wf (fst (fsm_register s fm))"
  by (auto simp: fsm_register_def Let_def record_audit_wf split: option.splits)

lemma transition_cases:
  obtains (same) r where "fsm_transition env sid t price reason expected fm = (fm, r)"
  | (raised) s x e where "map_of (fm_signals fm) sid = Some s" "signal_moves s x" "sg_state x = t"
      "fsm_transition env sid t price reason expected fm = (fm\<lparr>fm_signals := AList.update sid x (fm_signals fm)\<rparr>, Inl e)"
  | (moved) s x a where "map_of (fm_signals fm) sid = Some s" "signal_moves s x" "sg_state x = t" "sg_state s \<noteq> t"
      "fsm_transition env sid t price reason expected fm
         = (enqueue_settlement x t (record_audit a x fm), Inr (Inr ()))"
proof (cases "map_of (fm_signals fm) sid")
  case None
  then show thesis using same by (simp add: fsm_transition_def)
next
  case (Some s)
  show thesis
  proof (cases "sg_state s = t")
    case True
    then show thesis using same Some by (simp add: fsm_transition_def)
  next
    case False
    obtain x r where p: "apply_fsm_transition_pure env s t price None expected = (x, r)" by fastforce
    have u: "signal_moves s x \<and> sg_state x = t" if "\<And>q. r \<noteq> Inr (Inl q)"
      using p that False by (auto simp: apply_fsm_transition_pure_def split: if_splits prod.splits option.splits
          dest: enter_state_moves)
    show thesis
    proof (cases r)
      case (Inl e)
      then show thesis using u p Some False
        by (intro raised [of s x e]) (simp_all add: fsm_transition_def)
    next
      case (Inr q)
      show thesis
      proof (cases q)
        case q: (Inl f)
        then show thesis using same p Inr Some False by (simp add: fsm_transition_def)
      next
        case i: (Inr v)
        then show thesis using u p Inr Some False
          by (intro moved [of s x]) (simp_all add: fsm_transition_def)
      qed
    qed
  qed
qed

lemma transition_keeps:
  assumes "fsm_wf fm"
  shows "manager_moves fm (fst (fsm_transition env sid t price reason expected fm))"
    and "fsm_wf (fst (fsm_transition env sid t price reason expected fm))"
    and "sid' \<noteq> sid \<Longrightarrow> map_of (fm_signals (fst (fsm_transition env sid t price reason expected fm))) sid'
           = map_of (fm_signals fm) sid'"
proof -
  let ?f = "fst (fsm_transition env sid t price reason expected fm)"
  have "manager_moves fm ?f \<and> fsm_wf ?f \<and> (sid' \<noteq> sid \<longrightarrow> map_of (fm_signals ?f) sid' = map_of (fm_signals fm) sid')"
  proof (rule transition_cases [of env sid t price reason expected fm])
    fix s x e
    assume a: "map_of (fm_signals fm) sid = Some s" "signal_moves s x"
      "fsm_transition env sid t price reason expected fm = (fm\<lparr>fm_signals := AList.update sid x (fm_signals fm)\<rparr>, Inl e)"
    let ?g = "fm\<lparr>fm_signals := AList.update sid x (fm_signals fm)\<rparr>"
    have "sg_id x = sid" using a fsm_wf_id [OF assms] by (simp add: signal_moves_def)
    then have "fsm_wf ?g" by (rule fsm_wf_update [OF assms]) simp
    moreover have "manager_moves fm ?g" by (rule update_moves [OF a(1,2)]) (simp add: dict_simps)
    ultimately show ?thesis using a(3) by (simp add: dict_simps)
  next
    fix s x a
    assume a: "map_of (fm_signals fm) sid = Some s" "signal_moves s x"
      "fsm_transition env sid t price reason expected fm = (enqueue_settlement x t (record_audit a x fm), Inr (Inr ()))"
    then have "sg_id x = sid" using fsm_wf_id [OF assms] by (simp add: signal_moves_def)
    with a record_audit_moves [of fm sid s x a] show ?thesis
      using assms fsm_wf_id [OF assms a(1)] by (simp add: record_audit_wf manager_moves_def record_audit_get)
  qed (use assms in simp)
  then show "manager_moves fm ?f" and "fsm_wf ?f"
    and "sid' \<noteq> sid \<Longrightarrow> map_of (fm_signals ?f) sid' = map_of (fm_signals fm) sid'"
    by blast+
qed

lemma ratchet_keeps:
  assumes "fsm_wf fm"
  shows "manager_moves fm (fst (ratchet_breakeven sid p fm)) \<and> fsm_wf (fst (ratchet_breakeven sid p fm))"
proof (cases "snd (ratchet_breakeven sid p fm)")
  case True
  then obtain s cost where s: "map_of (fm_signals fm) sid = Some s" "spot_be_reference s = Some cost"
    and g: "\<not> goes_backward s (ratchet_target s p cost)"
    and r: "fst (ratchet_breakeven sid p fm)
      = record_audit (mk_audit sid (sg_state s) (sg_state s) (Some p) ''BREAKEVEN_RATCHET_ACTIVATED'')
          (s\<lparr>sg_current_stop := Some (ratchet_target s p cost), sg_be_activated := True\<rparr>) fm"
    by (auto simp: ratchet_breakeven_def Let_def split: option.splits if_splits)
  have "signal_moves s (s\<lparr>sg_current_stop := Some (ratchet_target s p cost), sg_be_activated := True\<rparr>)"
    using g by (auto simp: signal_moves_def stop_kept_def goes_backward_def)
  then show ?thesis
    unfolding r using record_audit_moves [OF s(1)] fsm_wf_id [OF assms s(1)] record_audit_wf [OF assms] by blast
next
  case False
  then show ?thesis using assms
    by (auto simp: ratchet_breakeven_def Let_def split: option.splits if_splits)
qed

subsection \<open>The sweep moves each signal along at most one edge\<close>

lemma sweep_one_cases:
  obtains (same) "fst (sweep_one env now sid (fm, n)) = fm"
  | (moved) s t reason where "map_of (fm_signals fm) sid = Some s"
      "sweep_target (env_market_closed env) now s = Some (t, reason)"
      "fst (sweep_one env now sid (fm, n)) = fst (fsm_transition env sid t None reason None fm)"
proof (cases "map_of (fm_signals fm) sid")
  case None
  then show thesis using same by (simp add: sweep_one_def)
next
  case (Some s)
  show thesis
  proof (cases "sweep_target (env_market_closed env) now s")
    case None
    then show thesis using same Some by (simp add: sweep_one_def)
  next
    case t: (Some tr)
    obtain t reason where tr: "tr = (t, reason)" by fastforce
    obtain fm' r where f: "fsm_transition env sid t None reason None fm = (fm', r)" by fastforce
    have "fst (sweep_one env now sid (fm, n)) = fst (fsm_transition env sid t None reason None fm)"
      using Some t tr f by (simp add: sweep_one_def split: sum.split)
    then show thesis using moved [of s t reason] Some t tr by simp
  qed
qed

lemma sweep_one_keeps:
  assumes "fsm_wf fm"
  shows "manager_moves fm (fst (sweep_one env now sid (fm, n)))" and "fsm_wf (fst (sweep_one env now sid (fm, n)))"
    and "sid' \<noteq> sid \<Longrightarrow> map_of (fm_signals (fst (sweep_one env now sid (fm, n)))) sid' = map_of (fm_signals fm) sid'"
  by (rule sweep_one_cases [of env now sid fm n]; use assms transition_keeps in simp)+

lemma manager_moves_trans_disjoint:
  assumes "manager_moves fm fm1" "manager_moves fm1 fm2"
    and "\<And>k. k \<noteq> sid \<Longrightarrow> map_of (fm_signals fm1) k = map_of (fm_signals fm) k"
    and "map_of (fm_signals fm2) sid = map_of (fm_signals fm1) sid"
  shows "manager_moves fm fm2"
  using assms unfolding manager_moves_def by metis

lemma sweep_fold_keeps:
  assumes "distinct ks" "fsm_wf fm"
  shows "manager_moves fm (fst (fold (sweep_one env now) ks (fm, n)))
    \<and> fsm_wf (fst (fold (sweep_one env now) ks (fm, n)))
    \<and> (\<forall>k. k \<notin> set ks \<longrightarrow> map_of (fm_signals (fst (fold (sweep_one env now) ks (fm, n)))) k = map_of (fm_signals fm) k)"
  using assms
proof (induction ks arbitrary: fm n)
  case (Cons k ks)
  obtain fm1 n1 where o: "sweep_one env now k (fm, n) = (fm1, n1)" by fastforce
  let ?fm2 = "fst (fold (sweep_one env now) ks (fm1, n1))"
  have one: "manager_moves fm fm1" "fsm_wf fm1" "x \<noteq> k \<Longrightarrow> map_of (fm_signals fm1) x = map_of (fm_signals fm) x" for x
    using sweep_one_keeps [OF Cons.prems(2), where env = env and now = now and sid = k and n = n] o by simp_all
  have IH: "manager_moves fm1 ?fm2" "fsm_wf ?fm2"
    "\<And>x. x \<notin> set ks \<Longrightarrow> map_of (fm_signals ?fm2) x = map_of (fm_signals fm1) x"
    using Cons.IH [of fm1 n1] Cons.prems one(2) by auto
  have "manager_moves fm ?fm2"
    by (rule manager_moves_trans_disjoint [OF one(1) IH(1) one(3)]) (use Cons.prems IH(3) in auto)
  then show ?case using IH one(3) o by simp
qed simp

lemma fold_delete_get: "map_of (fold AList.delete ids d) k = (if k \<in> set ids then None else map_of d k)"
  by (induction ids arbitrary: d) (auto simp: dict_simps)

lemma fold_delete_distinct: "distinct (map fst d) \<Longrightarrow> distinct (map fst (fold AList.delete ids d))"
  by (induction ids arbitrary: d) (auto simp: distinct_delete)

lemma prune_get: "map_of (fm_signals (prune_signals fm)) k = Some x \<Longrightarrow> map_of (fm_signals fm) k = Some x"
  by (auto simp: prune_signals_def fold_delete_get split: if_splits)

lemma prune_wf:
  assumes "fsm_wf fm" shows "fsm_wf (prune_signals fm)"
proof -
  have "distinct (map fst (fm_signals (prune_signals fm)))"
    using assms by (simp add: fsm_wf_def prune_signals_def fold_delete_distinct)
  moreover have "sg_id s = k" if "map_of (fm_signals (prune_signals fm)) k = Some s" for k s
    using fsm_wf_id [OF assms prune_get [OF that]] .
  ultimately show ?thesis by (simp add: fsm_wf_def)
qed

lemma sweep_expired_eq:
  "fst (sweep_expired env now_arg fm) = prune_signals (fst (fold (sweep_one env (or_else now_arg (env_now env)))
     (map fst (fm_signals fm)) (fm, \<lparr>sw_expired = 0, sw_runner_stopped = 0, sw_pruned = 0\<rparr>)))"
  by (simp add: sweep_expired_def Let_def case_prod_beta)

lemma sweep_keeps:
  assumes "fsm_wf fm"
  shows "manager_moves fm (fst (sweep_expired env now fm)) \<and> fsm_wf (fst (sweep_expired env now fm))"
proof -
  obtain fm1 where e: "fst (sweep_expired env now fm) = prune_signals fm1" and m: "manager_moves fm fm1" "fsm_wf fm1"
    using sweep_fold_keeps [of "map fst (fm_signals fm)", OF _ assms] assms
    by (auto simp: sweep_expired_eq fsm_wf_def [of fm])
  have "signal_moves s x" if "map_of (fm_signals fm) k = Some s" "map_of (fm_signals (prune_signals fm1)) k = Some x" for k s x
    using m(1) that(1) prune_get [OF that(2)] by (simp add: manager_moves_def)
  then show ?thesis using m(2) by (simp add: e prune_wf manager_moves_def)
qed

lemma fsm_step_keeps:
  assumes "fsm_step fm fm'" and w: "fsm_wf fm" shows "manager_moves fm fm' \<and> fsm_wf fm'"
  using assms(1)
proof cases
  case step_register then show ?thesis using register_moves register_wf [OF w] by blast
next
  case step_delete then show ?thesis using delete_moves [OF w] delete_wf [OF w] by blast
next
  case step_transition then show ?thesis using transition_keeps [OF w] by blast
next
  case step_ratchet then show ?thesis using ratchet_keeps [OF w] by blast
next
  case step_sweep then show ?thesis using sweep_keeps [OF w] by blast
qed

lemma fsm_init_wf: "fsm_wf fsm_init"
  by (simp add: fsm_wf_def fsm_init_def)

lemma fsm_reachable_wf: "fsm_step\<^sup>*\<^sup>* fsm_init fm \<Longrightarrow> fsm_wf fm"
proof (induction rule: rtranclp_induct)
  case (step fm fm')
  then show ?case using fsm_step_keeps by blast
qed (rule fsm_init_wf)

lemma fsm_step_moves:
  "fsm_step\<^sup>*\<^sup>* fsm_init fm \<Longrightarrow> fsm_step fm fm' \<Longrightarrow> fsm_get fm sid = Some s \<Longrightarrow> fsm_get fm' sid = Some x
    \<Longrightarrow> signal_moves s x"
  using fsm_step_keeps fsm_reachable_wf unfolding manager_moves_def fsm_get_def by blast

lemma only_triggered_confirms: "edge s CONFIRMED \<longleftrightarrow> s = TRIGGERED"
  by (cases s) (simp_all add: edge_def)

text \<open>A signal with both targets above its entry zone.\<close>

definition demo_signal :: signal where
  "demo_signal = \<lparr>sg_id = ''S'', sg_underlying = ''NIFTY'', sg_strategy = ''X'', sg_direction = ''LONG_CALL'',
     sg_spot = 100, sg_entry_min = 100, sg_entry_max = 101, sg_trigger = 100, sg_stop = 90,
     sg_target_1 = 110, sg_target_2 = 120, sg_fno_degraded = False, sg_option = Some (95, ''CE''), sg_is_scalp = False, sg_timeframe = ''5M'',
     sg_initial_stop = None, sg_current_stop = None, sg_risk_r = None, sg_be_activated = False,
     sg_be_trigger = None, sg_be_activation = None, sg_time_stop_seconds = None, sg_time_stop_at = None,
     sg_runner_stop_at = None, sg_runner_ttl = None, sg_t1_price = None, sg_t2_price = None, sg_t1_hit = False,
     sg_t1_fill_at = None, sg_t2_hit = False, sg_entry_price = None, sg_fill_price = None, sg_remaining_qty = 0,
     sg_paper_order = False, sg_state = CONFIRMED, sg_created = 0, sg_expires = 1000, sg_ttl_seconds = 0,
     sg_updated = 0, sg_triggered_at = None, sg_confirmed_at = None, sg_exit_price = None,
     sg_outcome_status = None, sg_terminal_outcome = None, sg_history = [], sg_version = 1\<rparr>"

definition demo_env :: fsm_env where
  "demo_env = \<lparr>env_now = 1000, env_market_closed = True, env_accepts_undeclared = False\<rparr>"

definition demo_manager :: fsm_manager where
  "demo_manager = fst (fsm_register demo_signal fsm_init)"

lemma demo_reachable: "fsm_step\<^sup>*\<^sup>* fsm_init demo_manager"
  unfolding demo_manager_def by (rule r_into_rtranclp) (rule step_register)

lemma demo_get: "\<exists>s. fsm_get demo_manager ''S'' = Some s \<and> sg_state s = CONFIRMED \<and> sg_version s = 1
    \<and> sg_current_stop s = Some 90 \<and> is_long s"
  by (simp add: demo_manager_def demo_signal_def fsm_register_def fsm_init_def fsm_get_def prepare_def Let_def
      record_audit_def is_long_def)

definition demo_next :: fsm_manager where
  "demo_next = fst (fsm_transition demo_env ''S'' TARGET_1_HIT (Some 110) ''T1'' None demo_manager)"

lemma demo_step: "fsm_step demo_manager demo_next"
  unfolding demo_next_def by (rule step_transition)

lemma demo_next_get: "\<exists>x. fsm_get demo_next ''S'' = Some x \<and> sg_state x = TARGET_1_HIT"
  by (simp add: demo_next_def demo_manager_def demo_signal_def demo_env_def fsm_register_def fsm_init_def fsm_get_def
      prepare_def Let_def record_audit_def fsm_transition_def apply_fsm_transition_pure_def enter_state_def
      write_outcome_def label_def enter_runner_def is_long_def TERMINAL_STATES_def enqueue_settlement_def)

text \<open>C10. Whatever the manager does to a signal it still holds (register, delete, transition, breakeven
  ratchet, sweep), the signal keeps its state and version, or takes one edge of the transition table
  and one new version; a signal becomes CONFIRMED only from TRIGGERED, and CLOSED is final.\<close>

theorem signal_follows_table:
  assumes "fsm_step\<^sup>*\<^sup>* fsm_init fm" "fsm_step fm fm'" "fsm_get fm sid = Some s" "fsm_get fm' sid = Some x"
  shows "(sg_state x, sg_version x) \<in> {(sg_state s, sg_version s)}
           \<union> {(t, sg_version s + 1) | t. t \<in> set (fsm_transitions (sg_state s))}
    \<and> (sg_state x = CONFIRMED \<longrightarrow> sg_state s \<in> {CONFIRMED, TRIGGERED})
    \<and> (sg_state s = CLOSED \<longrightarrow> sg_state x = CLOSED)"
proof -
  have "sg_state x = sg_state s \<and> sg_version x = sg_version s
      \<or> edge (sg_state s) (sg_state x) \<and> sg_version x = sg_version s + 1"
    using fsm_step_moves [OF assms] unfolding signal_moves_def by blast
  then show ?thesis
  proof
    assume "edge (sg_state s) (sg_state x) \<and> sg_version x = sg_version s + 1"
    then show ?thesis using only_triggered_confirms [of "sg_state s"]
      by (cases "sg_state s") (auto simp: edge_def)
  qed simp
qed

theorem signal_follows_table_witness:
  "\<exists>s x. fsm_get demo_manager ''S'' = Some s \<and> fsm_get demo_next ''S'' = Some x
     \<and> (sg_state s, sg_state x) = (CONFIRMED, TARGET_1_HIT) \<and> sg_version x = sg_version s + 1"
proof -
  obtain s where s: "fsm_get demo_manager ''S'' = Some s" "sg_state s = CONFIRMED" using demo_get by blast
  obtain x where x: "fsm_get demo_next ''S'' = Some x" "sg_state x = TARGET_1_HIT" using demo_next_get by blast
  show ?thesis
    using signal_follows_table [OF demo_reachable demo_step s(1) x(1)] s x by auto
qed

text \<open>The current stop of a signal is never loosened: under every operation of the manager it stays
  or moves up for a long call, and stays or moves down otherwise.\<close>

theorem stop_never_loosens:
  assumes "fsm_step\<^sup>*\<^sup>* fsm_init fm" "fsm_step fm fm'" "fsm_get fm sid = Some s" "fsm_get fm' sid = Some x"
    and "sg_current_stop s = Some c" "c \<noteq> 0"
  shows "\<exists>d. sg_current_stop x = Some d \<and> (if is_long s then c \<le> d else d \<le> c)"
  using fsm_step_moves [OF assms(1-4)] assms(5,6) by (simp add: signal_moves_def stop_kept_def)

theorem stop_never_loosens_witness:
  "\<exists>x d. fsm_get demo_next ''S'' = Some x \<and> sg_current_stop x = Some d \<and> 90 \<le> d"
proof -
  obtain s where s: "fsm_get demo_manager ''S'' = Some s" "sg_current_stop s = Some 90" "is_long s"
    using demo_get by blast
  obtain x where x: "fsm_get demo_next ''S'' = Some x" using demo_next_get by blast
  show ?thesis
    using stop_never_loosens [OF demo_reachable demo_step s(1) x s(2)] s x by auto
qed

text \<open>On a live position every action the tick evaluation asks for is an edge of the transition
  table, and it is the stop exactly when the stop is breached, whatever target or clock is also due.\<close>

theorem tick_actions_allowed:
  assumes "sg_state s \<in> {CONFIRMED, TARGET_1_HIT}" "0 < price"
  shows "(case fst (evaluate_tick env s price ts) of None \<Rightarrow> \<not> stop_breached s price
     | Some t \<Rightarrow> t \<in> set (fsm_transitions (sg_state s)) \<and> (t = STOP_LOSS_HIT) = stop_breached s price)"
  using assms by (auto simp: evaluate_tick_def Let_def)

theorem tick_actions_allowed_witness:
  "fst (evaluate_tick demo_env demo_signal 85 None) = Some STOP_LOSS_HIT"
  using tick_actions_allowed [of demo_signal 85 demo_env None]
  by (simp add: demo_signal_def stop_breached_def is_long_def is_short_def num_or_def split: option.splits)

subsection \<open>A sweep leaves nothing to sweep\<close>

lemma sweep_target_legal:
  assumes "sweep_target shut now s = Some (t, reason)"
  shows "t \<in> set (fsm_transitions (sg_state s)) \<and> t \<in> {EXPIRED, CLOSED, RUNNER_TIME_STOP_HIT, TIME_STOP_HIT}"
proof -
  define prior paper where "prior = (ist_day (sg_created s) < ist_day now)" and "paper = sg_paper_order s"
  show ?thesis
    using assms unfolding sweep_target_def prior_def [symmetric] paper_def [symmetric] Let_def
    by (cases "sg_state s"; cases prior; cases shut; simp split: if_split_asm)
qed

lemma swept_states:
  assumes "sg_state x \<in> {EXPIRED, CLOSED, RUNNER_TIME_STOP_HIT, TIME_STOP_HIT}"
  shows "sweep_target shut now x = None"
  using assms unfolding sweep_target_def Let_def by (cases "sg_state x") simp_all

lemma no_self_edge: "t \<notin> set (fsm_transitions t)"
  by (cases t) simp_all

lemma pure_reaches:
  assumes "t \<in> set (fsm_transitions (sg_state s))" "t \<notin> {ARMED, TRIGGERED, CONFIRMED}"
    and "apply_fsm_transition_pure env s t price ts None = (y, r)"
  shows "sg_state y = t" and "r \<noteq> Inr (Inl q)" and "signal_moves s y"
proof -
  obtain x e where e: "enter_state env (num_or ts (env_now env)) t price s = (x, e)" by fastforce
  have "sg_state s \<noteq> t" using assms(1) no_self_edge by auto
  then have "apply_fsm_transition_pure env s t price ts None = (x, case e of None \<Rightarrow> Inr (Inr ()) | Some e \<Rightarrow> Inl e)"
    using assms e by (cases e) (auto simp: apply_fsm_transition_pure_def)
  then have "y = x" "r = (case e of None \<Rightarrow> Inr (Inr ()) | Some e \<Rightarrow> Inl e)" using assms(3) by simp_all
  then show "sg_state y = t" and "r \<noteq> Inr (Inl q)" and "signal_moves s y"
    using enter_state_moves [OF e assms(1)] by (simp_all split: option.split)
qed

lemma legal_transition_lands:
  assumes "fsm_wf fm" "map_of (fm_signals fm) sid = Some s"
    and "t \<in> set (fsm_transitions (sg_state s))" "t \<notin> {ARMED, TRIGGERED, CONFIRMED}"
    and "map_of (fm_signals (fst (fsm_transition env sid t None reason None fm))) sid = Some x"
  shows "sg_state x = t"
proof -
  obtain y r where y: "apply_fsm_transition_pure env s t None None None = (y, r)" by fastforce
  note land = pure_reaches [OF assms(3,4) y]
  have id: "sg_id y = sid" using land(3) fsm_wf_id [OF assms(1,2)] by (simp add: signal_moves_def)
  have ne: "sg_state s \<noteq> t" using assms(3) no_self_edge by auto
  show ?thesis
  proof (cases r)
    case (Inl e)
    then show ?thesis using assms(2,5) y ne land(1) by (simp add: fsm_transition_def dict_simps)
  next
    case (Inr q)
    then obtain u where "q = Inr u" using land(2) by (cases q) auto
    then show ?thesis using Inr assms(2,5) y ne land(1) id by (auto simp: fsm_transition_def record_audit_get)
  qed
qed

lemma sweep_one_done:
  assumes w: "fsm_wf fm" and g: "map_of (fm_signals (fst (sweep_one env now sid (fm, n)))) sid = Some x"
  shows "sweep_target (env_market_closed env) now x = None"
proof (cases "map_of (fm_signals fm) sid")
  case None
  then show ?thesis using g by (simp add: sweep_one_def)
next
  case (Some s)
  show ?thesis
  proof (cases "sweep_target (env_market_closed env) now s")
    case None
    then show ?thesis using g Some by (simp add: sweep_one_def)
  next
    case t: (Some tr)
    obtain t reason where tr: "tr = (t, reason)" by fastforce
    have legal: "t \<in> set (fsm_transitions (sg_state s))" "t \<in> {EXPIRED, CLOSED, RUNNER_TIME_STOP_HIT, TIME_STOP_HIT}"
      using sweep_target_legal t tr by blast+
    have "fst (sweep_one env now sid (fm, n)) = fst (fsm_transition env sid t None reason None fm)"
      using Some t tr by (cases "fsm_transition env sid t None reason None fm") (simp add: sweep_one_def split: sum.split)
    then have "sg_state x = t"
      using legal_transition_lands [OF w Some legal(1)] legal(2) g by auto
    then show ?thesis using legal(2) swept_states by blast
  qed
qed

lemma sweep_fold_done:
  assumes "distinct ks" "fsm_wf fm" "sid \<in> set ks"
    and "map_of (fm_signals (fst (fold (sweep_one env now) ks (fm, n)))) sid = Some x"
  shows "sweep_target (env_market_closed env) now x = None"
  using assms
proof (induction ks arbitrary: fm n)
  case (Cons k ks)
  obtain fm1 n1 where o: "sweep_one env now k (fm, n) = (fm1, n1)" by fastforce
  have w: "fsm_wf fm1" using sweep_one_keeps(2) [OF Cons.prems(2), where env = env and now = now and sid = k and n = n] o by simp
  show ?case
  proof (cases "sid = k")
    case True
    then have "map_of (fm_signals fm1) sid = Some x"
      using sweep_fold_keeps [where ks = ks and fm = fm1 and env = env and now = now and n = n1] w Cons.prems o by auto
    then show ?thesis using sweep_one_done [OF Cons.prems(2), where env = env and now = now and sid = k and n = n] o True by simp
  next
    case False
    then show ?thesis using Cons.IH [OF _ w, of n1] Cons.prems(1,3,4) o by simp
  qed
qed simp

text \<open>A sweep is exhaustive: no signal the manager still holds has anything left to sweep at that
  time. With the market closed, no signal is left DETECTED, VALIDATED, ARMED or TRIGGERED, not even
  one whose expiry raised an exception.\<close>

theorem sweep_exhaustive:
  assumes "fsm_step\<^sup>*\<^sup>* fsm_init fm" "fsm_get (fst (sweep_expired env now fm)) sid = Some x"
  shows "sweep_target (env_market_closed env) (or_else now (env_now env)) x = None
    \<and> (env_market_closed env \<longrightarrow> sg_state x \<notin> {DETECTED, VALIDATED, ARMED, TRIGGERED})"
proof -
  let ?t = "or_else now (env_now env)" and ?n = "\<lparr>sw_expired = 0, sw_runner_stopped = 0, sw_pruned = 0\<rparr>"
  let ?fm1 = "fst (fold (sweep_one env ?t) (map fst (fm_signals fm)) (fm, ?n))"
  have w: "fsm_wf fm" using fsm_reachable_wf assms(1) .
  have g: "map_of (fm_signals ?fm1) sid = Some x"
    using assms(2) unfolding fsm_get_def sweep_expired_eq by (rule prune_get)
  have d: "distinct (map fst (fm_signals fm))" using w by (simp add: fsm_wf_def)
  have k: "sid \<in> set (map fst (fm_signals fm))"
  proof (rule ccontr)
    assume n: "sid \<notin> set (map fst (fm_signals fm))"
    then have "map_of (fm_signals fm) sid = None" by (simp add: map_of_None_notin)
    then show False
      using sweep_fold_keeps [OF d w, where env = env and now = ?t and n = ?n] n g by auto
  qed
  have s: "sweep_target (env_market_closed env) ?t x = None"
    using sweep_fold_done [OF d w k g] .
  moreover have "sg_state x \<notin> {DETECTED, VALIDATED, ARMED, TRIGGERED}" if c: "env_market_closed env"
    using s c by (auto simp: sweep_target_def Let_def)
  ultimately show ?thesis by blast
qed

lemma demo_sweep_get: "\<exists>x. fsm_get (fst (sweep_expired demo_env None demo_manager)) ''S'' = Some x \<and> sg_state x = EXPIRED"
  by (simp add: sweep_expired_eq prune_signals_def pruned_ids_def FSM_MAX_SIGNALS_IN_MEMORY_def sweep_one_def
      sweep_target_def demo_manager_def demo_signal_def demo_env_def fsm_register_def fsm_init_def fsm_get_def
      prepare_def Let_def record_audit_def fsm_transition_def apply_fsm_transition_pure_def enter_state_def num_or_def
      write_outcome_def label_def TERMINAL_STATES_def enqueue_settlement_def split: option.splits)

theorem sweep_exhaustive_witness:
  "\<exists>x. fsm_get (fst (sweep_expired demo_env None demo_manager)) ''S'' = Some x
     \<and> sweep_target True 1000 x = None \<and> sg_state x = EXPIRED"
proof -
  obtain x where x: "fsm_get (fst (sweep_expired demo_env None demo_manager)) ''S'' = Some x" "sg_state x = EXPIRED"
    using demo_sweep_get by blast
  then show ?thesis
    using sweep_exhaustive [OF demo_reachable x(1)] by (auto simp: demo_env_def)
qed

text \<open>An expiry of a signal with an option contract and a known intrinsic value, while the data
  model refuses undeclared attributes, raises: the signal is already EXPIRED, and neither the audit
  log nor the settlement ledger has an entry for it.\<close>

theorem expiry_of_option_raises:
  assumes "fsm_get fm sid = Some s" "EXPIRED \<in> set (fsm_transitions (sg_state s))"
    and "intrinsic_at_expiry s price = Some v" "\<not> env_accepts_undeclared env"
  shows "\<exists>fm'. fsm_transition env sid EXPIRED price reason None fm = (fm', Inl ValueError)
    \<and> map_option sg_state (fsm_get fm' sid) = Some EXPIRED
    \<and> fm_audit fm' = fm_audit fm \<and> fm_intents fm' = fm_intents fm"
proof -
  have ne: "sg_state s \<noteq> EXPIRED" using assms(2) no_self_edge by auto
  let ?s = "s\<lparr>sg_state := EXPIRED, sg_updated := env_now env, sg_version := sg_version s + 1\<rparr>"
  have "intrinsic_at_expiry (?s\<lparr>sg_exit_price := price\<rparr>) price = Some v"
    using assms(3) by (simp add: intrinsic_at_expiry_def cong: option.case_cong)
  then obtain x where "write_outcome env EXPIRED price ?s = (x, Some ValueError)"
    using assms(4) by (simp add: write_outcome_def Let_def)
  then have w: "enter_state env (env_now env) EXPIRED price s = (x, Some ValueError)"
    by (simp add: enter_state_def)
  then have p: "apply_fsm_transition_pure env s EXPIRED price None None = (x, Inl ValueError)"
    using ne assms(2) by (simp add: apply_fsm_transition_pure_def num_or_def)
  show ?thesis
    using assms(1) ne p enter_state_moves(2) [OF w assms(2)]
    by (simp add: fsm_transition_def fsm_get_def dict_simps)
qed

lemma demo_intrinsic: "intrinsic_at_expiry (demo_signal\<lparr>sg_state := ARMED\<rparr>) (Some 100) = Some 5"
  by (simp add: intrinsic_at_expiry_def demo_signal_def Let_def to_upper_def)

theorem expiry_of_option_raises_witness:
  "snd (fsm_transition demo_env ''S'' EXPIRED (Some 100) ''TTL'' None
     \<lparr>fm_signals = [(''S'', demo_signal\<lparr>sg_state := ARMED\<rparr>)], fm_audit = [], fm_intents = []\<rparr>) = Inl ValueError"
  using expiry_of_option_raises [OF _ _ demo_intrinsic, of "\<lparr>fm_signals = [(''S'', demo_signal\<lparr>sg_state := ARMED\<rparr>)],
      fm_audit = [], fm_intents = []\<rparr>" "''S''" demo_env "''TTL''"]
  by (auto simp: fsm_get_def demo_env_def)

end
