(* ===== verification/Droid_Intents.thy ===== *)
theory Droid_Intents
  imports Droid_Prelude
begin

text \<open>
  \<open>backend/app/signals/execution_intent.py\<close> and the file writes of
  \<open>backend/app/core/atomic_json.py\<close>: the idempotency key of an order, the life cycle of an
  execution intent, and the ledger that is to allow one broker order per key.

  SHA-256 is a parameter (a function on strings), and so are the two directions of the data model's
  JSON serialisation. The outcome of every attempt to write a file is an argument. Timestamps,
  logging and the best-effort database copy (never read back) are left out.
\<close>

subsection \<open>Atomic file writes\<close>

text \<open>What one attempt ends in: the temporary file replaces the target, permission is denied (at the
  dump or at the replacement), or anything else goes wrong.\<close>

datatype attempt = Replaced | Denied | Broken

text \<open>\<open>left\<close> retries are left; the attempts are numbered.\<close>

fun write_attempts :: "(nat \<Rightarrow> attempt) \<Rightarrow> nat \<Rightarrow> nat \<Rightarrow> 'v \<Rightarrow> 'v option \<Rightarrow> 'v option \<times> bool" where
  "write_attempts out i left payload file = (case out i of
     Replaced \<Rightarrow> (Some payload, True)
   | Broken \<Rightarrow> (file, False)
   | Denied \<Rightarrow> (case left of 0 \<Rightarrow> (file, False) | Suc n \<Rightarrow> write_attempts out (Suc i) n payload file))"

declare write_attempts.simps [simp del]

definition atomic_write_json :: "(nat \<Rightarrow> attempt) \<Rightarrow> nat \<Rightarrow> 'v \<Rightarrow> 'v option \<Rightarrow> 'v option \<times> bool" where
  "atomic_write_json out retries payload file = write_attempts out 0 retries payload file"

text \<open>A file that is missing or does not parse reads as the default.\<close>

definition read_json :: "('f \<Rightarrow> 'v option) \<Rightarrow> 'v option \<Rightarrow> 'f option \<Rightarrow> 'v option" where
  "read_json parse def file = (case file of None \<Rightarrow> def | Some f \<Rightarrow> (case parse f of None \<Rightarrow> def | Some v \<Rightarrow> Some v))"


subsection \<open>The idempotency key\<close>

text \<open>\<open>price_tick\<close> is in the signature only.\<close>

record intent_args =
  ia_signal :: string
  ia_version :: int
  ia_action :: string
  ia_position :: string
  ia_trigger :: int
  ia_side :: "string option"
  ia_symbol :: "string option"
  ia_price_tick :: "string option"
  ia_quantity :: "int option"

definition canonical_str :: "intent_args \<Rightarrow> string" where
  "canonical_str a = ia_signal a @ '':'' @ show_int (ia_version a) @ '':'' @ ia_action a @ '':'' @ ia_position a
     @ '':'' @ show_int (ia_trigger a) @ '':'' @ or_else (ia_side a) (ia_action a) @ '':''
     @ or_else (ia_symbol a) [] @ '':'' @ (case ia_quantity a of None \<Rightarrow> [] | Some q \<Rightarrow> show_int q)"

definition make_execution_intent_id :: "(string \<Rightarrow> string) \<Rightarrow> intent_args \<Rightarrow> string" where
  "make_execution_intent_id sha256 a = take 32 (sha256 (canonical_str a))"

definition make_fyers_order_tag :: "string \<Rightarrow> string" where
  "make_fyers_order_tag i = ''DRD_'' @ take 20 i"

text \<open>Reading a key from the front, and its last field from the back.\<close>

lemma split_front: "c \<notin> set a \<Longrightarrow> c \<notin> set b \<Longrightarrow> a @ c # r = b @ c # s \<longleftrightarrow> a = b \<and> r = s"
  by (induction a arbitrary: b; case_tac b) auto

lemma split_back: "c \<notin> set a \<Longrightarrow> c \<notin> set b \<Longrightarrow> r @ c # a = s @ c # b \<longleftrightarrow> r = s \<and> a = b"
  using split_front [of c "rev a" "rev b" "rev r" "rev s"] by (metis append.assoc append_Cons append_Nil rev.simps(2) rev_append rev_rev_ident set_rev)

definition plain_args :: "intent_args \<Rightarrow> bool" where
  "plain_args a \<longleftrightarrow> CHR '':'' \<notin> set (ia_signal a) \<union> set (ia_action a) \<union> set (ia_position a)
     \<union> set (or_else (ia_side a) [])"

definition order_fields :: "intent_args \<Rightarrow> string \<times> int \<times> string \<times> string \<times> int \<times> string \<times> string \<times> int option" where
  "order_fields a = (ia_signal a, ia_version a, ia_action a, ia_position a, ia_trigger a,
     or_else (ia_side a) (ia_action a), or_else (ia_symbol a) [], ia_quantity a)"

lemma show_quantity_inj:
  "(case q of None \<Rightarrow> [] | Some n \<Rightarrow> show_int n) = (case r of None \<Rightarrow> [] | Some n \<Rightarrow> show_int n) \<Longrightarrow> q = r"
  using show_int_inj show_nat_nonempty by (auto simp: show_int_def split: option.splits if_splits)

text \<open>The key of an order is a function of its logical fields, never of the price, and the string that
  is hashed determines those fields as long as only the symbol contains a colon.\<close>

theorem intent_key_identifies_order:
  assumes "plain_args a" "plain_args b"
  shows "(canonical_str a = canonical_str b) = (order_fields a = order_fields b)
    \<and> make_execution_intent_id sha256 (a\<lparr>ia_price_tick := p\<rparr>) = make_execution_intent_id sha256 a"
proof -
  have q: "CHR '':'' \<notin> set (case ia_quantity x of None \<Rightarrow> [] | Some q \<Rightarrow> show_int q)" for x
    using show_int_plain by (simp split: option.split)
  have s: "CHR '':'' \<notin> set (or_else (ia_side x) (ia_action x))" if "plain_args x" for x
    using that by (cases "ia_side x") (auto simp: plain_args_def)
  have pl: "CHR '':'' \<notin> set (ia_signal x)" "CHR '':'' \<notin> set (ia_action x)" "CHR '':'' \<notin> set (ia_position x)"
    if "plain_args x" for x using that by (auto simp: plain_args_def)
  note pls = pl [OF assms(1)] pl [OF assms(2)] s [OF assms(1)] s [OF assms(2)] q show_int_plain
  have "(canonical_str a = canonical_str b) = (order_fields a = order_fields b)"
    unfolding canonical_str_def order_fields_def append_Cons append_Nil
    using show_int_inj show_quantity_inj by (simp only: split_front split_back pls prod.inject not_False_eq_True) metis
  then show ?thesis by (simp add: make_execution_intent_id_def canonical_str_def)
qed

definition demo_args :: intent_args where
  "demo_args = \<lparr>ia_signal = ''S1'', ia_version = 3, ia_action = ''BUY_TO_OPEN'', ia_position = [], ia_trigger = 1,
     ia_side = None, ia_symbol = Some ''NSE:NIFTY'', ia_price_tick = None, ia_quantity = Some 75\<rparr>"

theorem intent_key_identifies_order_witness:
  "canonical_str demo_args \<noteq> canonical_str (demo_args\<lparr>ia_version := 4\<rparr>)"
  using intent_key_identifies_order [of demo_args "demo_args\<lparr>ia_version := 4\<rparr>" id None]
  by (simp add: plain_args_def demo_args_def order_fields_def)

subsection \<open>Intents and their life cycle\<close>

datatype intent_state =
    CREATED | GUARD_PASSED | SUBMITTED | FILLED | PARTIALLY_FILLED | REJECTED | EXPIRED | RECONCILIATION_REQUIRED

fun ALLOWED_INTENT_TRANSITIONS :: "intent_state \<Rightarrow> intent_state list" where
  "ALLOWED_INTENT_TRANSITIONS CREATED = [GUARD_PASSED, REJECTED, EXPIRED]"
| "ALLOWED_INTENT_TRANSITIONS GUARD_PASSED = [SUBMITTED, REJECTED, EXPIRED, RECONCILIATION_REQUIRED]"
| "ALLOWED_INTENT_TRANSITIONS SUBMITTED = [FILLED, PARTIALLY_FILLED, REJECTED, RECONCILIATION_REQUIRED, EXPIRED]"
| "ALLOWED_INTENT_TRANSITIONS PARTIALLY_FILLED = [FILLED, RECONCILIATION_REQUIRED]"
| "ALLOWED_INTENT_TRANSITIONS RECONCILIATION_REQUIRED = [FILLED, PARTIALLY_FILLED, REJECTED, EXPIRED]"
| "ALLOWED_INTENT_TRANSITIONS FILLED = []"
| "ALLOWED_INTENT_TRANSITIONS REJECTED = []"
| "ALLOWED_INTENT_TRANSITIONS EXPIRED = []"

interpretation intent_table: transition_table ALLOWED_INTENT_TRANSITIONS "\<lambda>s. s \<in> {FILLED, REJECTED, EXPIRED}"
  by unfold_locales auto

record intent =
  it_id :: string
  it_signal :: string
  it_version :: int
  it_action :: string
  it_state :: intent_state
  it_tag :: string
  it_symbol :: string
  it_side :: string
  it_quantity :: int
  it_details :: "(string, string) dict"

text \<open>\<open>ExecutionIntent.transition_to\<close>: the details, then the reason unless it is empty.\<close>

definition transition_to :: "intent_state \<Rightarrow> string \<Rightarrow> (string, string) dict \<Rightarrow> intent \<Rightarrow> intent \<times> bool" where
  "transition_to t reason details i =
     (if t \<notin> set (ALLOWED_INTENT_TRANSITIONS (it_state i)) then (i, False)
      else (let d = fold (\<lambda>(k, v). AList.update k v) details (it_details i) in
        (i\<lparr>it_state := t, it_details := (if reason = [] then d else AList.update ''last_transition_reason'' reason d)\<rparr>,
         True)))"

subsection \<open>The ledger\<close>

text \<open>The intents in memory and the content of the ledger file, a dictionary of dumped intents.\<close>

record 'v ledger =
  lg_intents :: "(string, intent) dict"
  lg_file :: "(string, 'v) dict option"

text \<open>An entry that does not load is skipped.\<close>

definition restore :: "('v \<Rightarrow> intent option) \<Rightarrow> (string, 'v) dict option \<Rightarrow> (string, intent) dict" where
  "restore load file = (case file of None \<Rightarrow> []
     | Some d \<Rightarrow> fold (\<lambda>(k, v) m. case load v of None \<Rightarrow> m | Some i \<Rightarrow> AList.update k i m) d [])"

definition ledger_init :: "('v \<Rightarrow> intent option) \<Rightarrow> (string, 'v) dict option \<Rightarrow> 'v ledger" where
  "ledger_init load file = \<lparr>lg_intents = restore load file, lg_file = file\<rparr>"

definition persist :: "(intent \<Rightarrow> 'v) \<Rightarrow> (nat \<Rightarrow> attempt) \<Rightarrow> 'v ledger \<Rightarrow> 'v ledger" where
  "persist dump out l = l\<lparr>lg_file :=
     fst (atomic_write_json out 2 (map (\<lambda>(k, i). (k, dump i)) (lg_intents l)) (lg_file l))\<rparr>"

definition ledger_register ::
  "(intent \<Rightarrow> 'v) \<Rightarrow> (nat \<Rightarrow> attempt) \<Rightarrow> intent \<Rightarrow> 'v ledger \<Rightarrow> 'v ledger \<times> intent \<times> bool" where
  "ledger_register dump out i l = (case map_of (lg_intents l) (it_id i) of
     Some x \<Rightarrow> (l, x, True)
   | None \<Rightarrow> (let i' = (if it_tag i = [] then i\<lparr>it_tag := make_fyers_order_tag (it_id i)\<rparr> else i)
              in (persist dump out (l\<lparr>lg_intents := AList.update (it_id i') i' (lg_intents l)\<rparr>), i', False)))"

definition ledger_get :: "'v ledger \<Rightarrow> string \<Rightarrow> intent option" where
  "ledger_get l k = map_of (lg_intents l) k"

definition ledger_get_by_signal :: "'v ledger \<Rightarrow> string \<Rightarrow> intent list" where
  "ledger_get_by_signal l sid = [i \<leftarrow> map snd (lg_intents l). it_signal i = sid]"

definition ledger_count :: "'v ledger \<Rightarrow> nat" where
  "ledger_count l = length (lg_intents l)"


text \<open>A transition of an intent of the ledger: the caller holds the registered object, so memory changes
  and the file does not.\<close>

definition ledger_transition :: "string \<Rightarrow> intent_state \<Rightarrow> string \<Rightarrow> (string, string) dict \<Rightarrow> 'v ledger \<Rightarrow> 'v ledger \<times> bool" where
  "ledger_transition k t reason details l = (case map_of (lg_intents l) k of
     None \<Rightarrow> (l, False)
   | Some i \<Rightarrow> (case transition_to t reason details i of
       (i', ok) \<Rightarrow> (l\<lparr>lg_intents := AList.update k i' (lg_intents l)\<rparr>, ok)))"

text \<open>\<open>str\<close> of a member of a string enumeration is its qualified name, its \<open>value\<close> the bare one.\<close>

fun state_value :: "intent_state \<Rightarrow> string" where
  "state_value CREATED = ''CREATED''"
| "state_value GUARD_PASSED = ''GUARD_PASSED''"
| "state_value SUBMITTED = ''SUBMITTED''"
| "state_value FILLED = ''FILLED''"
| "state_value PARTIALLY_FILLED = ''PARTIALLY_FILLED''"
| "state_value REJECTED = ''REJECTED''"
| "state_value EXPIRED = ''EXPIRED''"
| "state_value RECONCILIATION_REQUIRED = ''RECONCILIATION_REQUIRED''"

definition state_str :: "intent_state \<Rightarrow> string" where
  "state_str s = ''IntentState.'' @ state_value s"

definition is_duplicate_intent :: "'v ledger \<Rightarrow> string \<Rightarrow> bool" where
  "is_duplicate_intent l k = (case ledger_get l k of None \<Rightarrow> False
     | Some i \<Rightarrow> state_str (it_state i) \<in> {state_value SUBMITTED, state_value FILLED, state_value PARTIALLY_FILLED})"

subsection \<open>One intent per key\<close>

inductive ledger_step :: "(intent \<Rightarrow> 'v) \<Rightarrow> 'v ledger \<Rightarrow> 'v ledger \<Rightarrow> bool" for dump where
  step_register: "ledger_step dump l (fst (ledger_register dump out i l))"
| step_transition: "ledger_step dump l (fst (ledger_transition k t reason details l))"

definition order_of :: "intent \<Rightarrow> string \<times> string \<times> int \<times> string \<times> string \<times> string \<times> string \<times> int" where
  "order_of i = (it_id i, it_signal i, it_version i, it_action i, it_tag i, it_symbol i, it_side i, it_quantity i)"

abbreviation intent_path :: "intent_state \<Rightarrow> intent_state \<Rightarrow> bool" where
  "intent_path \<equiv> (\<lambda>a b. b \<in> set (ALLOWED_INTENT_TRANSITIONS a))\<^sup>*\<^sup>*"

definition intent_kept :: "'v ledger \<Rightarrow> 'v ledger \<Rightarrow> bool" where
  "intent_kept l l' \<longleftrightarrow> (\<forall>k i. ledger_get l k = Some i \<longrightarrow>
     (\<exists>i'. ledger_get l' k = Some i' \<and> order_of i' = order_of i \<and> intent_path (it_state i) (it_state i')))"

lemma transition_to_kept:
  "transition_to t reason details i = (i', ok) \<Longrightarrow> order_of i' = order_of i \<and> intent_path (it_state i) (it_state i')"
  by (auto simp: transition_to_def order_of_def Let_def split: if_splits)

lemma ledger_get_persist [simp]: "ledger_get (persist dump out l) k = ledger_get l k"
  by (simp add: ledger_get_def persist_def)

lemma ledger_get_update: "ledger_get (l\<lparr>lg_intents := AList.update k i (lg_intents l)\<rparr>) k'
   = (if k' = k then Some i else ledger_get l k')"
  by (simp add: ledger_get_def dict_simps)

lemma ledger_step_kept: "ledger_step dump l l' \<Longrightarrow> intent_kept l l'"
proof (induction rule: ledger_step.induct)
  case (step_register l out i)
  show ?case
  proof (cases "map_of (lg_intents l) (it_id i)")
    case None
    then show ?thesis
      by (auto simp: intent_kept_def ledger_register_def Let_def ledger_get_update) (simp_all add: ledger_get_def)
  qed (simp add: intent_kept_def ledger_register_def)
next
  case (step_transition l k t reason details)
  show ?case
  proof (cases "map_of (lg_intents l) k")
    case (Some i)
    obtain i' ok where t: "transition_to t reason details i = (i', ok)" by fastforce
    then show ?thesis
      using Some transition_to_kept [OF t] by (auto simp: intent_kept_def ledger_transition_def ledger_get_update) (simp_all add: ledger_get_def)
  qed (simp add: intent_kept_def ledger_transition_def)
qed

lemma intent_kept_trans: "intent_kept a b \<Longrightarrow> intent_kept b c \<Longrightarrow> intent_kept a c"
  unfolding intent_kept_def by (metis (no_types, lifting) rtranclp_trans)

lemma ledger_steps_kept: "(ledger_step dump)\<^sup>*\<^sup>* l l' \<Longrightarrow> intent_kept l l'"
proof (induction rule: rtranclp_induct)
  case (step y z)
  then show ?case using ledger_step_kept intent_kept_trans by blast
qed (auto simp: intent_kept_def)

text \<open>C28. One intent per key: once a key is registered, whatever is registered or transitioned later, the
  ledger keeps the same order under it, its state only follows the table, and it never leaves FILLED,
  REJECTED or EXPIRED.\<close>

theorem one_intent_per_key:
  assumes "(ledger_step dump)\<^sup>*\<^sup>* l l'" "ledger_get l k = Some i"
  shows "\<exists>i'. ledger_get l' k = Some i' \<and> order_of i' = order_of i \<and> intent_path (it_state i) (it_state i')
     \<and> (it_state i \<in> {FILLED, REJECTED, EXPIRED} \<longrightarrow> it_state i' = it_state i)"
  using ledger_steps_kept [OF assms(1)] assms(2) intent_table.path_from_final unfolding intent_kept_def by blast

definition demo_intent :: intent where
  "demo_intent = \<lparr>it_id = ''K'', it_signal = ''S'', it_version = 1, it_action = ''BUY_TO_OPEN'', it_state = GUARD_PASSED,
     it_tag = [], it_symbol = ''X'', it_side = ''BUY'', it_quantity = 75, it_details = []\<rparr>"

definition demo_ledger :: "intent ledger" where
  "demo_ledger = fst (ledger_register id (\<lambda>i. Replaced) demo_intent (ledger_init Some None))"

lemma demo_ledger_get: "\<exists>i. ledger_get demo_ledger ''K'' = Some i \<and> it_state i = GUARD_PASSED"
  by (simp add: demo_ledger_def ledger_register_def ledger_init_def restore_def Let_def)
     (simp add: ledger_get_def demo_intent_def)

theorem one_intent_per_key_witness:
  "\<exists>i'. ledger_get (fst (ledger_transition ''K'' SUBMITTED ''SENT'' [] demo_ledger)) ''K'' = Some i'
     \<and> intent_path GUARD_PASSED (it_state i')"
proof -
  obtain i where i: "ledger_get demo_ledger ''K'' = Some i" "it_state i = GUARD_PASSED" using demo_ledger_get by blast
  have "(ledger_step id)\<^sup>*\<^sup>* demo_ledger (fst (ledger_transition ''K'' SUBMITTED ''SENT'' [] demo_ledger))"
    by (rule r_into_rtranclp) (rule step_transition)
  from one_intent_per_key [OF this i(1)] show ?thesis using i(2) by auto
qed

subsection \<open>The duplicate lookup\<close>

lemma state_str_not_value: "state_str s \<noteq> state_value t"
  by (cases s; cases t) (simp_all add: state_str_def)

text \<open>The ledger lookup of the duplicate guard never finds a duplicate: it compares the text of an
  enumeration member, which carries the class name, with bare values.\<close>

theorem duplicate_lookup_blind: "\<not> is_duplicate_intent l k"
  using state_str_not_value [of _ SUBMITTED] state_str_not_value [of _ FILLED] state_str_not_value [of _ PARTIALLY_FILLED]
  unfolding is_duplicate_intent_def by (auto split: option.split)

subsection \<open>Persistence\<close>








end
