(* ===== verification/Droid_Feed.thy ===== *)
theory Droid_Feed
  imports Droid_Decimal
begin

text \<open>
  \<open>backend/app/signals/safety/sequence_validator.py\<close> and \<open>feed_circuit.py\<close>: the sequence check of every
  incoming tick and the per-instrument circuit breaker it trips.

  The two modules call each other (an anomaly trips the circuit, an accepted snapshot resets the
  validator), so they share one state: the validators, the circuit's states and the file of last
  sequences. The wall clock, the success of a file write and the caller's snapshot validation are
  arguments. Logging is left out.
\<close>

subsection \<open>Sequence check\<close>

datatype anomaly = NONE | DUPLICATE | MISSING | OUT_OF_ORDER | REGRESSION | UNEXPECTED_JUMP

record seq_result =
  sr_anomaly :: anomaly
  sr_expected :: "int option"
  sr_received :: "int option"
  sr_gap :: "int option"
  sr_is_anomaly :: bool
  sr_message :: string

definition UNEXPECTED_JUMP_THRESHOLD :: int where "UNEXPECTED_JUMP_THRESHOLD = 100"
definition LRU_CAP :: nat where "LRU_CAP = 5000"

text \<open>\<open>_seen\<close> is an ordered dictionary used as a bounded set, \<open>_recent\<close> a deque of 100.\<close>

record seq_validator =
  sv_instrument :: string
  sv_source :: string
  sv_last :: "int option"
  sv_seen :: "int list"
  sv_recent :: "int list"
  sv_internal :: int

type_synonym seq_file = "(string, int option) dict"

definition seq_key :: "string \<Rightarrow> string \<Rightarrow> string" where
  "seq_key inst src = inst @ '':'' @ src"

definition restore_last :: "seq_file \<Rightarrow> string \<Rightarrow> int option" where
  "restore_last file key = (case map_of file key of Some (Some v) \<Rightarrow> Some v | _ \<Rightarrow> None)"

definition validator_init :: "seq_file \<Rightarrow> string \<Rightarrow> string \<Rightarrow> seq_validator" where
  "validator_init file inst src =
     \<lparr>sv_instrument = map to_upper inst, sv_source = src, sv_last = restore_last file (seq_key (map to_upper inst) src),
      sv_seen = [], sv_recent = [], sv_internal = 0\<rparr>"

definition remember :: "int \<Rightarrow> seq_validator \<Rightarrow> seq_validator" where
  "remember n v = v\<lparr>sv_seen := last_n LRU_CAP (removeAll n (sv_seen v) @ [n]), sv_recent := last_n 100 (sv_recent v @ [n])\<rparr>"

definition persist_last :: "bool \<Rightarrow> seq_validator \<Rightarrow> seq_file \<Rightarrow> seq_file" where
  "persist_last written v file =
     (if written then AList.update (seq_key (sv_instrument v) (sv_source v)) (sv_last v) file else file)"

text \<open>An accepted sequence becomes the last one and is remembered.\<close>

definition advance_to :: "int \<Rightarrow> seq_validator \<Rightarrow> seq_validator" where
  "advance_to n v = remember n (v\<lparr>sv_last := Some n\<rparr>)"

definition anomalous :: "anomaly \<Rightarrow> int option \<Rightarrow> int \<Rightarrow> int option \<Rightarrow> string \<Rightarrow> seq_result" where
  "anomalous a expected n gap msg = \<lparr>sr_anomaly = a, sr_expected = expected, sr_received = Some n, sr_gap = gap,
     sr_is_anomaly = True, sr_message = msg\<rparr>"

definition regular :: "int option \<Rightarrow> int \<Rightarrow> string \<Rightarrow> seq_result" where
  "regular expected n msg = \<lparr>sr_anomaly = NONE, sr_expected = expected, sr_received = Some n, sr_gap = None,
     sr_is_anomaly = False, sr_message = msg\<rparr>"

text \<open>The check itself, without the file and the circuit; the flag says whether the last sequence is persisted.\<close>

definition check_number :: "int \<Rightarrow> seq_validator \<Rightarrow> seq_validator \<times> seq_result \<times> bool" where
  "check_number n v =
     (if n \<in> set (sv_seen v) then (v, anomalous DUPLICATE (sv_last v) n None (''duplicate sequence '' @ show_int n), False)
      else (case sv_last v of
        None \<Rightarrow> (advance_to n v, regular None n [], True)
      | Some prev \<Rightarrow> (let expected = prev + 1 in
          if n < prev then
            (if n \<in> set (last_n 20 (sv_recent v))
             then (v, anomalous OUT_OF_ORDER (Some expected) n None
                     (''out-of-order '' @ show_int n @ '' (expected '' @ show_int expected @ '')''), False)
             else (v, anomalous REGRESSION (Some expected) n None
                     (''regression '' @ show_int n @ '' < '' @ show_int prev), False))
          else if expected < n then
            (let gap = n - expected in
             if UNEXPECTED_JUMP_THRESHOLD \<le> gap
             then (advance_to n v, anomalous UNEXPECTED_JUMP (Some expected) n (Some gap)
                     (''unexpected jump gap '' @ show_int gap), True)
             else (advance_to n v, anomalous MISSING (Some expected) n (Some gap)
                     (''missing '' @ show_int gap @ '' sequence(s)''), True))
          else (advance_to n v, regular (Some expected) n [], True))))"

definition check_sequence :: "int option \<Rightarrow> int option \<Rightarrow> seq_validator \<Rightarrow> seq_validator \<times> seq_result \<times> bool" where
  "check_sequence source_id seq_id v =
     (case (if source_id \<noteq> None then source_id else seq_id) of
        None \<Rightarrow> (v\<lparr>sv_internal := sv_internal v + 1\<rparr>,
                 regular None (sv_internal v + 1) ''generated internal sequence'', False)
      | Some n \<Rightarrow> check_number n v)"

definition seq_reset :: "int option \<Rightarrow> seq_validator \<Rightarrow> seq_validator" where
  "seq_reset to_seq v = v\<lparr>sv_last := to_seq, sv_seen := [], sv_recent := [], sv_internal := or_else to_seq 0\<rparr>"

subsection \<open>The circuit\<close>

datatype feed_health = HEALTHY | FEED_DEGRADED | UNKNOWN | RECOVERING

text \<open>\<open>anomaly\<close> is a string in the code: operators trip the circuit with free text.\<close>

record feed_state =
  ft_health :: feed_health
  ft_reason :: "string option"
  ft_degraded_at :: "int option"
  ft_anomaly :: "string option"
  ft_suppress :: bool
  ft_resync :: bool
  ft_snapshot :: "int option"
  ft_count :: nat
  ft_escalated :: bool

definition feed_state_init :: feed_state where
  "feed_state_init = \<lparr>ft_health = HEALTHY, ft_reason = None, ft_degraded_at = None, ft_anomaly = None,
     ft_suppress = False, ft_resync = False, ft_snapshot = None, ft_count = 0, ft_escalated = False\<rparr>"

definition trip_state :: "int \<Rightarrow> string \<Rightarrow> string \<Rightarrow> feed_state \<Rightarrow> feed_state" where
  "trip_state now an reason s0 = (let s = s0\<lparr>ft_count := Suc (ft_count s0)\<rparr> in
     if ft_health s = FEED_DEGRADED then (if 5 \<le> ft_count s \<and> \<not> ft_escalated s then s\<lparr>ft_escalated := True\<rparr> else s)
     else s\<lparr>ft_health := FEED_DEGRADED, ft_reason := Some reason, ft_anomaly := Some an, ft_degraded_at := Some now,
            ft_suppress := True, ft_resync := True\<rparr>)"

definition resync_state :: "feed_state \<Rightarrow> feed_state" where
  "resync_state s = (if ft_health s \<noteq> FEED_DEGRADED then s else s\<lparr>ft_health := RECOVERING\<rparr>)"

text \<open>The validator used when the caller brings none.\<close>

definition default_validate :: "int \<Rightarrow> int \<Rightarrow> int \<Rightarrow> bool \<times> string" where
  "default_validate now ts seq =
     (if 2000 < ts - now then (False, ''snapshot timestamp in future'')
      else if seq < 0 then (False, ''negative sequence'') else (True, ''default-ok''))"

text \<open>The state after a snapshot, and whether it was accepted.\<close>

definition snapshot_state :: "bool \<times> string \<Rightarrow> int \<Rightarrow> feed_state \<Rightarrow> feed_state \<times> bool" where
  "snapshot_state verdict ts s =
     (if ft_health s \<notin> {FEED_DEGRADED, RECOVERING} then (s, False)
      else if \<not> fst verdict
        then (s\<lparr>ft_health := FEED_DEGRADED, ft_reason := Some (''snapshot validation failed: '' @ snd verdict)\<rparr>, False)
      else (s\<lparr>ft_health := HEALTHY, ft_reason := None, ft_anomaly := None, ft_suppress := False, ft_resync := False,
              ft_snapshot := Some ts\<rparr>, True))"

subsection \<open>The two together\<close>

record feed_system =
  fs_validators :: "(string, seq_validator) dict"
  fs_states :: "(string, feed_state) dict"
  fs_file :: seq_file

definition feed_system_init :: "seq_file \<Rightarrow> feed_system" where
  "feed_system_init file = \<lparr>fs_validators = [], fs_states = [], fs_file = file\<rparr>"

text \<open>\<open>_get\<close> creates the state of an instrument it has not seen, also when it is only asked for it.\<close>

definition feed_state_of :: "feed_system \<Rightarrow> string \<Rightarrow> feed_state" where
  "feed_state_of fs inst = or_else (map_of (fs_states fs) (map to_upper inst)) feed_state_init"

definition set_circuit :: "string \<Rightarrow> feed_state \<Rightarrow> feed_system \<Rightarrow> feed_system" where
  "set_circuit inst s fs = fs\<lparr>fs_states := AList.update (map to_upper inst) s (fs_states fs)\<rparr>"

definition feed_trip :: "int \<Rightarrow> string \<Rightarrow> string \<Rightarrow> string \<Rightarrow> feed_system \<Rightarrow> feed_system \<times> feed_state" where
  "feed_trip now inst an reason fs = (let s = trip_state now an reason (feed_state_of fs inst) in (set_circuit inst s fs, s))"

fun anomaly_name :: "anomaly \<Rightarrow> string" where
  "anomaly_name NONE = ''NONE''"
| "anomaly_name DUPLICATE = ''DUPLICATE''"
| "anomaly_name MISSING = ''MISSING''"
| "anomaly_name OUT_OF_ORDER = ''OUT_OF_ORDER''"
| "anomaly_name REGRESSION = ''REGRESSION''"
| "anomaly_name UNEXPECTED_JUMP = ''UNEXPECTED_JUMP''"

definition on_sequence_result :: "int \<Rightarrow> string \<Rightarrow> seq_result \<Rightarrow> feed_system \<Rightarrow> feed_system \<times> feed_state" where
  "on_sequence_result now inst r fs =
     (if sr_is_anomaly r then feed_trip now inst (anomaly_name (sr_anomaly r)) (sr_message r) fs
      else (set_circuit inst (feed_state_of fs inst) fs, feed_state_of fs inst))"

definition get_sequence_validator :: "string \<Rightarrow> string \<Rightarrow> feed_system \<Rightarrow> feed_system \<times> seq_validator" where
  "get_sequence_validator inst src fs = (let key = seq_key (map to_upper inst) src in
     case map_of (fs_validators fs) key of
       Some v \<Rightarrow> (fs, v)
     | None \<Rightarrow> (let v = validator_init (fs_file fs) inst src
               in (fs\<lparr>fs_validators := AList.update key v (fs_validators fs)\<rparr>, v)))"

definition put_validator :: "seq_validator \<Rightarrow> feed_system \<Rightarrow> feed_system" where
  "put_validator v fs = fs\<lparr>fs_validators := AList.update (seq_key (sv_instrument v) (sv_source v)) v (fs_validators fs)\<rparr>"

text \<open>A tick: the validator of the instrument and source, its check, the file, and the circuit on an anomaly.\<close>

definition feed_check :: "int \<Rightarrow> bool \<Rightarrow> string \<Rightarrow> string \<Rightarrow> int option \<Rightarrow> int option \<Rightarrow> feed_system \<Rightarrow> feed_system \<times> seq_result" where
  "feed_check now written inst src source_id seq_id fs0 =
     (let (fs, v) = get_sequence_validator inst src fs0; (v', r, p) = check_sequence source_id seq_id v;
          fs1 = put_validator v' fs;
          fs2 = (if p then fs1\<lparr>fs_file := persist_last written v' (fs_file fs1)\<rparr> else fs1)
      in (if sr_is_anomaly r then fst (on_sequence_result now (sv_instrument v') r fs2) else fs2, r))"

definition request_resync :: "string \<Rightarrow> feed_system \<Rightarrow> feed_system \<times> feed_state" where
  "request_resync inst fs = (let s = resync_state (feed_state_of fs inst) in (set_circuit inst s fs, s))"

definition on_authoritative_snapshot ::
  "int \<Rightarrow> bool \<Rightarrow> (int \<Rightarrow> int \<Rightarrow> bool \<times> string) option \<Rightarrow> string \<Rightarrow> int \<Rightarrow> int \<Rightarrow> feed_system \<Rightarrow> feed_system \<times> feed_state" where
  "on_authoritative_snapshot now written validate inst ts seq fs0 =
     (let verdict = or_else validate (default_validate now) ts seq;
          (s, accepted) = snapshot_state verdict ts (feed_state_of fs0 inst);
          fs1 = set_circuit inst s fs0
      in if \<not> accepted then (fs1, s)
         else (let (fs2, v) = get_sequence_validator inst ''broker_feed'' fs1; v' = seq_reset (Some seq) v
               in ((put_validator v' fs2)\<lparr>fs_file := persist_last written v' (fs_file fs2)\<rparr>, s)))"

definition is_healthy :: "string \<Rightarrow> feed_system \<Rightarrow> feed_system \<times> bool" where
  "is_healthy inst fs = (set_circuit inst (feed_state_of fs inst) fs, ft_health (feed_state_of fs inst) = HEALTHY)"

definition is_degraded :: "string \<Rightarrow> feed_system \<Rightarrow> feed_system \<times> bool" where
  "is_degraded inst fs =
     (set_circuit inst (feed_state_of fs inst) fs, ft_health (feed_state_of fs inst) \<in> {FEED_DEGRADED, RECOVERING})"

definition suppresses :: "string \<Rightarrow> feed_system \<Rightarrow> feed_system \<times> bool" where
  "suppresses inst fs = (set_circuit inst (feed_state_of fs inst) fs, ft_suppress (feed_state_of fs inst))"

text \<open>\<open>any(...)\<close> stops at the first degraded instrument.\<close>

fun cross_market_invalid :: "string list \<Rightarrow> feed_system \<Rightarrow> feed_system \<times> bool" where
  "cross_market_invalid [] fs = (fs, False)"
| "cross_market_invalid (i # is) fs =
     (case is_degraded i fs of (fs', True) \<Rightarrow> (fs', True) | (fs', False) \<Rightarrow> cross_market_invalid is fs')"

subsection \<open>The check\<close>

text \<open>What a validator's history looks like: the bounded set and the deque hold the same last sequences.\<close>

definition validator_ok :: "seq_validator \<Rightarrow> bool" where
  "validator_ok v \<longleftrightarrow> distinct (sv_seen v) \<and> length (sv_seen v) \<le> LRU_CAP \<and> sv_recent v = last_n 100 (sv_seen v)"

lemma remember_ok:
  assumes "validator_ok v" "n \<notin> set (sv_seen v)"
  shows "validator_ok (remember n v)"
proof -
  have "last_n 100 (last_n LRU_CAP (sv_seen v @ [n])) = last_n 100 (sv_seen v @ [n])"
    by (rule last_n_last_n) (simp add: LRU_CAP_def)
  then show ?thesis using assms
    by (simp add: validator_ok_def remember_def distinct_last_n last_n_append_last_n)
qed

lemma advance_to_ok: "validator_ok v \<Longrightarrow> n \<notin> set (sv_seen v) \<Longrightarrow> validator_ok (advance_to n v)"
  unfolding advance_to_def by (rule remember_ok) (simp_all add: validator_ok_def)

lemma advance_to_simps [simp]:
  "sv_last (advance_to n v) = Some n" "n \<in> set (sv_seen (advance_to n v))"
  "sv_instrument (advance_to n v) = sv_instrument v" "sv_source (advance_to n v) = sv_source v"
  by (simp_all add: advance_to_def remember_def last_n_def LRU_CAP_def)

lemma check_number_ok: "validator_ok v \<Longrightarrow> validator_ok (fst (check_number n v))"
  by (auto simp: check_number_def Let_def advance_to_ok split: option.splits)

lemma not_out_of_order:
  assumes "validator_ok v" shows "sr_anomaly (fst (snd (check_number n v))) \<noteq> OUT_OF_ORDER"
proof -
  have "set (last_n 20 (sv_recent v)) \<subseteq> set (sv_seen v)"
    using assms set_last_n_subset unfolding validator_ok_def by (metis order_trans)
  then show ?thesis by (auto simp: check_number_def Let_def anomalous_def regular_def split: option.splits)
qed

inductive validator_step :: "seq_validator \<Rightarrow> seq_validator \<Rightarrow> bool" where
  vstep_check: "validator_step v (fst (check_sequence source_id seq_id v))"
| vstep_reset: "validator_step v (seq_reset to_seq v)"

lemma validator_step_ok: "validator_step v v' \<Longrightarrow> validator_ok v \<Longrightarrow> validator_ok v'"
proof (induction rule: validator_step.induct)
  case (vstep_check v source_id seq_id)
  then show ?case
    by (auto simp: check_sequence_def check_number_ok split: option.split) (simp_all add: validator_ok_def)
qed (simp add: validator_ok_def seq_reset_def last_n_def)

lemma validator_reachable_ok: "validator_step\<^sup>*\<^sup>* (validator_init file inst src) v \<Longrightarrow> validator_ok v"
proof (induction rule: rtranclp_induct)
  case base
  show ?case by (simp add: validator_ok_def validator_init_def last_n_def)
next
  case (step y z)
  then show ?case by (rule_tac validator_step_ok)
qed

text \<open>The sequence check is exact: on a validator with last sequence \<open>p\<close>, a sequence is regular iff it
  was not seen and is \<open>p + 1\<close> (or \<open>p\<close> itself, after a restart or a reset forgot it); a gap, a jump of 100 or
  more, a regression and a duplicate are told apart; and the last sequence never decreases. The
  out-of-order case is never reported. History stays bounded.\<close>

theorem sequence_check_exact:
  assumes "validator_step\<^sup>*\<^sup>* (validator_init file inst src) v" "sv_last v = Some p"
  shows "sr_anomaly (fst (snd (check_number n v))) =
      (if n \<in> set (sv_seen v) then DUPLICATE else if n < p then REGRESSION else if n \<le> p + 1 then NONE
       else if n < p + 101 then MISSING else UNEXPECTED_JUMP)
    \<and> sv_last (fst (check_number n v)) = Some (if n \<in> set (sv_seen v) then p else max p n)
    \<and> length (sv_seen v) \<le> 5000 \<and> length (sv_recent v) \<le> 100"
proof -
  note ok = validator_reachable_ok [OF assms(1)]
  have o: "n \<notin> set (last_n 20 (sv_recent v))" if "n \<notin> set (sv_seen v)"
    using ok that set_last_n_subset unfolding validator_ok_def by (metis subsetD)
  show ?thesis
    using ok o assms(2)
    by (auto simp: check_number_def Let_def anomalous_def regular_def UNEXPECTED_JUMP_THRESHOLD_def validator_ok_def LRU_CAP_def)
qed

definition demo_validator :: seq_validator where
  "demo_validator = seq_reset (Some 7) (validator_init [] ''NIFTY'' ''broker_feed'')"

theorem sequence_check_exact_witness:
  "sr_anomaly (fst (snd (check_number 7 demo_validator))) = NONE
   \<and> sr_anomaly (fst (snd (check_number 9 demo_validator))) = MISSING"
proof -
  have r: "validator_step\<^sup>*\<^sup>* (validator_init [] ''NIFTY'' ''broker_feed'') demo_validator"
    unfolding demo_validator_def by (rule r_into_rtranclp) (rule vstep_reset)
  have l: "sv_last demo_validator = Some 7" "sv_seen demo_validator = []"
    by (simp_all add: demo_validator_def seq_reset_def)
  show ?thesis
    using sequence_check_exact [OF r l(1), of 7] sequence_check_exact [OF r l(1), of 9] l by simp
qed

subsection \<open>The circuit\<close>

lemma feed_state_of_set [simp]:
  "feed_state_of (set_circuit i s fs) j = (if map to_upper j = map to_upper i then s else feed_state_of fs j)"
  by (simp add: feed_state_of_def set_circuit_def dict_simps)

lemma feed_state_of_others [simp]:
  "feed_state_of (put_validator v fs) j = feed_state_of fs j"
  "feed_state_of (fs\<lparr>fs_file := f\<rparr>) j = feed_state_of fs j"
  "feed_state_of (fst (get_sequence_validator inst src fs)) j = feed_state_of fs j"
  by (simp_all add: feed_state_of_def put_validator_def get_sequence_validator_def Let_def split: option.split)

inductive feed_step :: "feed_system \<Rightarrow> feed_system \<Rightarrow> bool" where
  fstep_check: "feed_step fs (fst (feed_check now written inst src source_id seq_id fs))"
| fstep_trip: "feed_step fs (fst (feed_trip now inst an reason fs))"
| fstep_resync: "feed_step fs (fst (request_resync inst fs))"
| fstep_snapshot: "feed_step fs (fst (on_authoritative_snapshot now written validate inst ts seq fs))"
| fstep_query: "feed_step fs (fst (is_healthy inst fs))"

text \<open>Suppression, the need of a resync and a health other than HEALTHY go together.\<close>

definition feed_state_ok :: "feed_state \<Rightarrow> bool" where
  "feed_state_ok s \<longleftrightarrow> ft_suppress s = (ft_health s \<noteq> HEALTHY) \<and> ft_resync s = ft_suppress s \<and> ft_health s \<noteq> UNKNOWN"

lemma feed_state_steps_ok:
  "feed_state_ok feed_state_init"
  "feed_state_ok s \<Longrightarrow> feed_state_ok (trip_state now an reason s)"
  "feed_state_ok s \<Longrightarrow> feed_state_ok (resync_state s)"
  "feed_state_ok s \<Longrightarrow> feed_state_ok (fst (snapshot_state verdict ts s))"
  by (auto simp: feed_state_ok_def feed_state_init_def trip_state_def resync_state_def snapshot_state_def Let_def)

lemma feed_check_state:
  "feed_state_of (fst (feed_check now written inst src a b fs)) j \<in>
     {feed_state_of fs j} \<union> {trip_state now an reason (feed_state_of fs j) | an reason. True}"
proof -
  obtain fs1 v where g: "get_sequence_validator inst src fs = (fs1, v)" by fastforce
  obtain v' r p where c: "check_sequence a b v = (v', r, p)" by (metis prod_cases3)
  have s: "feed_state_of fs1 i = feed_state_of fs i" for i
    using feed_state_of_others(3) [of inst src fs i] g by simp
  have u: "feed_state_of fs (sv_instrument v') = feed_state_of fs j" if "map to_upper j = map to_upper (sv_instrument v')"
    using that by (simp add: feed_state_of_def)
  show ?thesis
  proof (cases "sr_is_anomaly r")
    case True
    then have "feed_state_of (fst (feed_check now written inst src a b fs)) j
      = (if map to_upper j = map to_upper (sv_instrument v')
         then trip_state now (anomaly_name (sr_anomaly r)) (sr_message r) (feed_state_of fs (sv_instrument v'))
         else feed_state_of fs j)"
      by (simp add: feed_check_def g c s Let_def on_sequence_result_def feed_trip_def)
    then show ?thesis using u by auto
  next
    case False
    then show ?thesis by (simp add: feed_check_def g c s Let_def)
  qed
qed

lemma snapshot_feed_state:
  "feed_state_of (fst (on_authoritative_snapshot now written validate inst ts seq fs)) j =
     (if map to_upper j = map to_upper inst
      then fst (snapshot_state (or_else validate (default_validate now) ts seq) ts (feed_state_of fs inst)) else feed_state_of fs j)"
proof -
  obtain s ok where o: "snapshot_state (or_else validate (default_validate now) ts seq) ts (feed_state_of fs inst) = (s, ok)"
    by fastforce
  obtain fs2 v where g: "get_sequence_validator inst ''broker_feed'' (set_circuit inst s fs) = (fs2, v)" by fastforce
  have "feed_state_of fs2 j = feed_state_of (set_circuit inst s fs) j"
    using feed_state_of_others(3) [of inst "''broker_feed''" "set_circuit inst s fs" j] g by simp
  moreover have "feed_state_of (fst (on_authoritative_snapshot now written validate inst ts seq fs)) j
      = (if ok then feed_state_of fs2 j else feed_state_of (set_circuit inst s fs) j)"
    by (cases ok) (simp_all add: on_authoritative_snapshot_def Let_def o g)
  ultimately show ?thesis using o by simp
qed

lemma feed_state_upper: "map to_upper i = map to_upper j \<Longrightarrow> feed_state_of fs i = feed_state_of fs j"
  by (simp add: feed_state_of_def)

text \<open>What a step does to the state of an instrument.\<close>

lemma feed_step_state:
  assumes "feed_step fs fs'"
  obtains (same) "feed_state_of fs' j = feed_state_of fs j"
  | (trip) now an reason where "feed_state_of fs' j = trip_state now an reason (feed_state_of fs j)"
  | (resync) "feed_state_of fs' j = resync_state (feed_state_of fs j)"
  | (snapshot) now written validate inst ts seq where
      "fs' = fst (on_authoritative_snapshot now written validate inst ts seq fs)" "map to_upper j = map to_upper inst"
      "feed_state_of fs' j = fst (snapshot_state (or_else validate (default_validate now) ts seq) ts (feed_state_of fs j))"
  using assms
proof cases
  case (fstep_check now written inst src a b)
  then show thesis using feed_check_state [of now written inst src a b fs j] same trip by auto
next
  case (fstep_trip now inst an reason)
  then show thesis using same trip feed_state_upper [of j inst fs]
    by (cases "map to_upper j = map to_upper inst") (auto simp: feed_trip_def Let_def)
next
  case (fstep_resync inst)
  then show thesis using same resync feed_state_upper [of j inst fs]
    by (cases "map to_upper j = map to_upper inst") (auto simp: request_resync_def Let_def)
next
  case (fstep_snapshot now written validate inst ts seq)
  then show thesis using same snapshot feed_state_upper [of j inst fs] snapshot_feed_state [of now written validate inst ts seq fs j]
    by (cases "map to_upper j = map to_upper inst") auto
next
  case (fstep_query inst)
  then show thesis using same feed_state_upper [of j inst fs]
    by (cases "map to_upper j = map to_upper inst") (auto simp: is_healthy_def)
qed

lemma feed_step_ok: "feed_step fs fs' \<Longrightarrow> feed_state_ok (feed_state_of fs j) \<Longrightarrow> feed_state_ok (feed_state_of fs' j)"
  by (erule feed_step_state [where j = j]) (simp_all add: feed_state_steps_ok)

lemma feed_reachable_ok: "feed_step\<^sup>*\<^sup>* (feed_system_init file) fs \<Longrightarrow> feed_state_ok (feed_state_of fs j)"
proof (induction rule: rtranclp_induct)
  case base
  show ?case by (simp add: feed_system_init_def feed_state_of_def feed_state_steps_ok)
next
  case (step y z)
  then show ?case using feed_step_ok by blast
qed

text \<open>C22. A degraded feed stays suppressed until it is proven: in every reachable state an instrument is
  suppressed exactly when it is not HEALTHY, and the only step that makes it HEALTHY again is a
  snapshot for that instrument which its validation accepted.\<close>

theorem degraded_until_snapshot:
  assumes "feed_step\<^sup>*\<^sup>* (feed_system_init file) fs" "feed_step fs fs'"
    and "ft_suppress (feed_state_of fs inst)" "\<not> ft_suppress (feed_state_of fs' inst)"
  shows "\<exists>now written validate i ts seq. fs' = fst (on_authoritative_snapshot now written validate i ts seq fs)
     \<and> map to_upper i = map to_upper inst \<and> fst (or_else validate (default_validate now) ts seq)
     \<and> ft_health (feed_state_of fs inst) \<in> {FEED_DEGRADED, RECOVERING} \<and> ft_health (feed_state_of fs' inst) = HEALTHY"
proof -
  have ok: "feed_state_ok (feed_state_of fs inst)" "feed_state_ok (feed_state_of fs' inst)"
    using feed_reachable_ok [OF assms(1)] feed_step_ok [OF assms(2)] by blast+
  show ?thesis
    using assms(2)
  proof (rule feed_step_state [where j = inst])
    fix now written validate i ts seq
    assume s: "fs' = fst (on_authoritative_snapshot now written validate i ts seq fs)" "map to_upper inst = map to_upper i"
      "feed_state_of fs' inst = fst (snapshot_state (or_else validate (default_validate now) ts seq) ts (feed_state_of fs inst))"
    have "fst (or_else validate (default_validate now) ts seq)"
      using s(3) assms(3,4) by (auto simp: snapshot_state_def split: if_splits)
    moreover have "ft_health (feed_state_of fs inst) \<in> {FEED_DEGRADED, RECOVERING}"
      using ok(1) assms(3) by (cases "ft_health (feed_state_of fs inst)") (auto simp: feed_state_ok_def)
    moreover have "ft_health (feed_state_of fs' inst) = HEALTHY" using ok(2) assms(4) by (auto simp: feed_state_ok_def)
    ultimately show ?thesis using s(1,2) by metis
  qed (use ok assms(3,4) in \<open>auto simp: trip_state_def resync_state_def Let_def split: if_splits\<close>)
qed

text \<open>An anomalous tick degrades its instrument at once: after the check the instrument of the
  validator is FEED_DEGRADED and brings no candidates, whatever its state was.\<close>

theorem anomaly_trips:
  assumes "feed_step\<^sup>*\<^sup>* (feed_system_init file) fs"
    and "sr_is_anomaly (snd (feed_check now written inst src a b fs))"
  shows "(\<lambda>s. ft_health s = FEED_DEGRADED \<and> ft_suppress s)
     (feed_state_of (fst (feed_check now written inst src a b fs)) (sv_instrument (snd (get_sequence_validator inst src fs))))"
proof -
  obtain fs1 v where g: "get_sequence_validator inst src fs = (fs1, v)" by fastforce
  obtain v' r p where c: "check_sequence a b v = (v', r, p)" by (metis prod_cases3)
  have i: "sv_instrument v' = sv_instrument v"
    using arg_cong [OF c, of "\<lambda>x. sv_instrument (fst x)"]
    by (auto simp: check_sequence_def check_number_def Let_def split: option.splits if_splits)
  have s: "feed_state_of fs1 k = feed_state_of fs k" for k
    using feed_state_of_others(3) [of inst src fs k] g by simp
  have "sr_is_anomaly r" using assms(2) by (auto simp: feed_check_def g c Let_def split: if_splits)
  then have "feed_state_of (fst (feed_check now written inst src a b fs)) (sv_instrument v)
      = trip_state now (anomaly_name (sr_anomaly r)) (sr_message r) (feed_state_of fs (sv_instrument v))"
    by (simp add: feed_check_def g c Let_def on_sequence_result_def feed_trip_def i s)
  then show ?thesis
    using feed_reachable_ok [OF assms(1), of "sv_instrument v"] g by (auto simp: trip_state_def Let_def feed_state_ok_def)
qed

definition demo_feed :: feed_system where
  "demo_feed = fst (feed_check 0 True ''NIFTY'' ''broker_feed'' (Some 5) None (feed_system_init []))"

lemma demo_feed_reach: "feed_step\<^sup>*\<^sup>* (feed_system_init []) demo_feed"
  unfolding demo_feed_def by (rule r_into_rtranclp) (rule fstep_check)

lemma to_upper_NIFTY: "map to_upper ''NIFTY'' = ''NIFTY''"
  by (simp add: to_upper_def)

lemmas feed_defs = feed_check_def get_sequence_validator_def feed_system_init_def validator_init_def restore_last_def
  check_sequence_def check_number_def put_validator_def persist_last_def seq_key_def advance_to_def remember_def
  anomalous_def regular_def last_n_def LRU_CAP_def UNEXPECTED_JUMP_THRESHOLD_def

theorem anomaly_trips_witness:
  "ft_health (feed_state_of (fst (feed_check 0 True ''NIFTY'' ''broker_feed'' (Some 9) None demo_feed)) ''NIFTY'') = FEED_DEGRADED"
proof -
  have "sr_is_anomaly (snd (feed_check 0 True ''NIFTY'' ''broker_feed'' (Some 9) None demo_feed))"
    "sv_instrument (snd (get_sequence_validator ''NIFTY'' ''broker_feed'' demo_feed)) = ''NIFTY''"
    by (simp_all add: demo_feed_def feed_defs to_upper_def Let_def)
  then show ?thesis using anomaly_trips [OF demo_feed_reach] by metis
qed

definition degraded_feed :: feed_system where
  "degraded_feed = fst (feed_trip 0 ''NIFTY'' ''MISSING'' ''gap'' (feed_system_init []))"

theorem degraded_until_snapshot_witness:
  "\<exists>now written validate i ts seq. fst (on_authoritative_snapshot 0 True None ''NIFTY'' 0 9 degraded_feed)
     = fst (on_authoritative_snapshot now written validate i ts seq degraded_feed)
     \<and> fst (or_else validate (default_validate now) ts seq)"
proof -
  have r: "feed_step\<^sup>*\<^sup>* (feed_system_init []) degraded_feed"
    unfolding degraded_feed_def by (rule r_into_rtranclp) (rule fstep_trip)
  have s: "ft_suppress (feed_state_of degraded_feed ''NIFTY'')"
    by (simp add: degraded_feed_def feed_trip_def Let_def trip_state_def feed_state_of_def feed_system_init_def feed_state_init_def set_circuit_def dict_simps)
  have h: "ft_health (feed_state_of degraded_feed ''NIFTY'') = FEED_DEGRADED"
    by (simp add: degraded_feed_def feed_trip_def Let_def trip_state_def feed_state_of_def feed_system_init_def feed_state_init_def set_circuit_def dict_simps)
  have n: "\<not> ft_suppress (feed_state_of (fst (on_authoritative_snapshot 0 True None ''NIFTY'' 0 9 degraded_feed)) ''NIFTY'')"
    by (simp add: snapshot_feed_state snapshot_state_def h default_validate_def)
  show ?thesis
    using degraded_until_snapshot [OF r fstep_snapshot s n] by blast
qed

end
