(* ===== verification/Droid_Guard.thy ===== *)
theory Droid_Guard
  imports Droid_SignalFSM Droid_Intents Droid_Feed Droid_Money
begin

text \<open>
  \<open>backend/app/signals/safety/execution_guard.py\<close>: the fourteen checks between a signal and an order.

  The guard reads the signal (\<open>Droid_SignalFSM\<close>), the contract, the caller's figures, the feed circuit
  (\<open>Droid_Feed\<close>) and the intent ledger (\<open>Droid_Intents\<close>). What the feed monitor and the event clock
  answer are inputs: \<open>Inl\<close> when asking them raises. The texts of the reasons are left out.
\<close>

subsection \<open>Inputs\<close>

text \<open>A contract specification with its defaults filled in: tick 0.05, minimum and step 1.\<close>

record contract_spec =
  cs_tick :: "int \<times> int"
  cs_min :: declike
  cs_step :: declike
  cs_lot :: "declike option"

record guard_input =
  gi_now :: int
  gi_signal :: signal
  gi_signal_intent :: "string option"
  gi_signal_contract :: "contract_spec option"
  gi_intent :: "string option"
  gi_price :: "declike option"
  gi_quantity :: "declike option"
  gi_latest :: "declike option"
  gi_feed_health :: "string option"
  gi_session :: "string option"
  gi_contract :: "contract_spec option"
  gi_max_slippage :: dval
  gi_risk_approved :: bool
  gi_risk_stale :: bool
  gi_duplicate :: bool
  gi_invalidated :: bool
  gi_drift :: "dval option"
  gi_max_drift :: dval
  gi_allow_closed :: bool
  gi_audit :: bool
  gi_db :: bool
  gi_monitor_open :: "bool result"
  gi_monitor_status :: "string result"
  gi_clock_drift :: "dval option result"

record guard_result =
  gr_passed :: bool
  gr_failed :: "string option"
  gr_level :: "nat option"
  gr_evaluated :: "string list"

subsection \<open>The checks\<close>

definition session_state :: "guard_input \<Rightarrow> string" where
  "session_state g = (case gi_session g of Some s \<Rightarrow> s
     | None \<Rightarrow> (case gi_monitor_open g of Inl e \<Rightarrow> ''CLOSED'' | Inr b \<Rightarrow> if b then ''OPEN'' else ''CLOSED''))"

definition resolved_spec :: "guard_input \<Rightarrow> contract_spec option" where
  "resolved_spec g = (case gi_contract g of Some c \<Rightarrow> Some c | None \<Rightarrow> gi_signal_contract g)"

definition price_of :: "declike \<Rightarrow> dval result" where
  "price_of v = (case v of StrV s \<Rightarrow> D_strict v | DecV d \<Rightarrow> D_strict v | IntV i \<Rightarrow> D_strict v | _ \<Rightarrow> D v)"

definition tick_aligned :: "contract_spec \<Rightarrow> declike option \<Rightarrow> bool" where
  "tick_aligned c price = (case price of None \<Rightarrow> True
     | Some p \<Rightarrow> ecatch (ebind (price_of p) (\<lambda>d. ebind (normalize_price_to_tick (DecV d) (cs_tick c) ROUND_HALF_UP)
                   (\<lambda>q. Inr (deq d q)))) (\<lambda>e. False))"

definition quantity_valid :: "contract_spec \<Rightarrow> declike option \<Rightarrow> bool" where
  "quantity_valid c quantity = (case quantity of None \<Rightarrow> True
     | Some q \<Rightarrow> ecatch (ebind (validate_quantity q (cs_min c) (cs_step c) (cs_lot c)) (\<lambda>r. Inr (fst r))) (\<lambda>e. False))"

definition slippage_ok :: "dval \<Rightarrow> declike option \<Rightarrow> declike option \<Rightarrow> bool" where
  "slippage_ok limit latest price = (case (latest, price) of
     (Some l, Some p) \<Rightarrow> ecatch (ebind (D l) (\<lambda>lp. ebind (D p) (\<lambda>op. ebind (dlt (DFin 0) op) (\<lambda>pos.
         if \<not> pos then Inr True
         else ebind (dsub lp op) (\<lambda>d. ebind (ddiv (dabs d) op) (\<lambda>r. ebind (dmul r (DFin 100)) (\<lambda>slip.
              ebind (D (FloatV limit)) (\<lambda>m. ebind (dlt m slip) (\<lambda>b. Inr (\<not> b)))))))))) (\<lambda>e. False)
   | _ \<Rightarrow> True)"

text \<open>The monitor's view of the feed; \<open>None\<close> leaves the question to the circuit.\<close>

definition monitor_feed :: "guard_input \<Rightarrow> string option" where
  "monitor_feed g = (case gi_feed_health g of Some h \<Rightarrow> Some h
     | None \<Rightarrow> (case gi_monitor_status g of
          Inl e \<Rightarrow> Some ''UNKNOWN''
        | Inr s \<Rightarrow> (let m = (if s = [] then ''UNKNOWN'' else s) in
            if m = ''LIVE'' then Some ''HEALTHY''
            else if m \<in> {''CLOSED'', ''AUTH_REQUIRED'', ''CHAIN_UNAVAILABLE'', ''SYNCING''} then None
            else Some m)))"

definition effective_feed :: "feed_system \<Rightarrow> guard_input \<Rightarrow> string" where
  "effective_feed fs g = (if snd (is_degraded (sg_underlying (gi_signal g)) fs) then ''FEED_DEGRADED''
     else or_else (monitor_feed g) ''HEALTHY'')"

definition feed_blocks :: "string \<Rightarrow> bool" where
  "feed_blocks h \<longleftrightarrow> h \<in> {''FEED_DEGRADED'', ''UNKNOWN'', ''STALE'', ''DOWN'', ''RECOVERING''}"

definition effective_drift :: "guard_input \<Rightarrow> dval" where
  "effective_drift g = (case gi_drift g of Some d \<Rightarrow> d
     | None \<Rightarrow> (case gi_clock_drift g of Inr (Some d) \<Rightarrow> d | _ \<Rightarrow> DFin 0))"

text \<open>\<open>abs\<close> and \<open>>\<close> of floats: a NaN compares false.\<close>

definition drift_exceeds :: "dval \<Rightarrow> dval \<Rightarrow> bool" where
  "drift_exceeds limit d = dless_val limit (case d of DFin a \<Rightarrow> DFin \<bar>a\<bar> | DInf s \<Rightarrow> DInf False | DNaN \<Rightarrow> DNaN)"

definition truthy :: "string option \<Rightarrow> bool" where
  "truthy s \<longleftrightarrow> or_else s [] \<noteq> []"

definition intent_mismatch :: "guard_input \<Rightarrow> bool" where
  "intent_mismatch g \<longleftrightarrow> truthy (gi_signal_intent g) \<and> truthy (gi_intent g) \<and> gi_signal_intent g \<noteq> gi_intent g"

definition duplicate_order :: "'v ledger \<Rightarrow> guard_input \<Rightarrow> bool" where
  "duplicate_order l g \<longleftrightarrow> gi_duplicate g \<or> truthy (gi_intent g) \<and> is_duplicate_intent l (or_else (gi_intent g) [])"

subsection \<open>The guard\<close>

text \<open>Name, level and verdict of every check, in the order of the code; a check after the sixth is only
  reached when there is a contract.\<close>

definition guard_checks :: "'v ledger \<Rightarrow> feed_system \<Rightarrow> guard_input \<Rightarrow> (string \<times> nat \<times> bool) list" where
  "guard_checks l fs g =
     [(''2_TTL_VALIDITY'', 1, \<not> is_expired (gi_signal g) (gi_now g)),
      (''3_MARKET_SESSION'', 1, gi_allow_closed g \<or> session_state g = ''OPEN''),
      (''4_SIGNAL_ACTIONABLE'', 1, sg_state (gi_signal g) \<in> {ARMED, TRIGGERED, CONFIRMED}),
      (''5_SETUP_VALIDITY'', 1, \<not> gi_invalidated g),
      (''6_CONTRACT_SPEC'', 2, resolved_spec g \<noteq> None),
      (''7_PRICE_TICK_ALIGNMENT'', 2, (case resolved_spec g of None \<Rightarrow> False | Some c \<Rightarrow> tick_aligned c (gi_price g))),
      (''8_QUANTITY_STEP_VALIDATION'', 2, (case resolved_spec g of None \<Rightarrow> False | Some c \<Rightarrow> quantity_valid c (gi_quantity g))),
      (''9_SLIPPAGE_POLICY'', 2, slippage_ok (gi_max_slippage g) (gi_latest g) (gi_price g)),
      (''10_FEED_HEALTH'', 3, \<not> feed_blocks (effective_feed fs g)),
      (''11_CLOCK_DRIFT'', 3, \<not> drift_exceeds (gi_max_drift g) (effective_drift g)),
      (''12_RISK_APPROVAL'', 3, gi_risk_approved g \<and> \<not> gi_risk_stale g),
      (''13_INTENT_OWNERSHIP'', 3, \<not> intent_mismatch g),
      (''14_DUPLICATE_ORDER_GUARD'', 3, \<not> duplicate_order l g),
      (''15_PERSISTENCE_DURABILITY'', 4, gi_audit g \<and> gi_db g)]"

fun run_checks :: "(string \<times> nat \<times> bool) list \<Rightarrow> string list \<Rightarrow> guard_result" where
  "run_checks [] evaluated = \<lparr>gr_passed = True, gr_failed = None, gr_level = None, gr_evaluated = evaluated\<rparr>"
| "run_checks ((name, level, ok) # cs) evaluated =
     (if ok then run_checks cs (evaluated @ [name])
      else \<lparr>gr_passed = False, gr_failed = Some name, gr_level = Some level, gr_evaluated = evaluated @ [name]\<rparr>)"

text \<open>The tenth check asks the circuit, which remembers the instrument it was asked for.\<close>

definition final_execution_guard :: "'v ledger \<Rightarrow> guard_input \<Rightarrow> feed_system \<Rightarrow> feed_system \<times> guard_result" where
  "final_execution_guard l g fs = (let r = run_checks (guard_checks l fs g) [] in
     (if ''10_FEED_HEALTH'' \<in> set (gr_evaluated r) then fst (is_degraded (sg_underlying (gi_signal g)) fs) else fs, r))"

subsection \<open>Properties\<close>

lemma run_checks_passed: "gr_passed (run_checks cs ev) \<longleftrightarrow> (\<forall>c \<in> set cs. snd (snd c))"
  by (induction cs ev rule: run_checks.induct) auto

lemma run_checks_failed:
  "\<not> gr_passed (run_checks cs ev) \<Longrightarrow> \<exists>xs n l ys. cs = xs @ (n, l, False) # ys \<and> (\<forall>c \<in> set xs. snd (snd c))
     \<and> run_checks cs ev = \<lparr>gr_passed = False, gr_failed = Some n, gr_level = Some l, gr_evaluated = ev @ map fst xs @ [n]\<rparr>"
proof (induction cs ev rule: run_checks.induct)
  case (2 name level ok cs ev)
  show ?case
  proof (cases ok)
    case True
    then obtain xs n l ys where "cs = xs @ (n, l, False) # ys" "\<forall>c \<in> set xs. snd (snd c)"
      "run_checks cs (ev @ [name]) = \<lparr>gr_passed = False, gr_failed = Some n, gr_level = Some l,
         gr_evaluated = (ev @ [name]) @ map fst xs @ [n]\<rparr>"
      using 2 by auto
    then show ?thesis using True by (intro exI [of _ "(name, level, ok) # xs"]) auto
  next
    case False
    then show ?thesis by (auto intro!: exI [of _ "[] :: (string \<times> nat \<times> bool) list"])
  qed
qed simp


subsection \<open>What a passed order satisfies\<close>












text \<open>A refusal is traceable: the failing check is the last one evaluated, every check before it in
  the order of the guard passed, and none after it was tried.\<close>

theorem guard_refusal_traced:
  assumes "snd (final_execution_guard l g fs) = r" "\<not> gr_passed r"
  shows "\<exists>xs n lev ys. guard_checks l fs g = xs @ (n, lev, False) # ys \<and> (\<forall>c \<in> set xs. snd (snd c))
     \<and> gr_failed r = Some n \<and> gr_level r = Some lev \<and> gr_evaluated r = map fst xs @ [n]"
proof -
  have "r = run_checks (guard_checks l fs g) []" using assms(1) by (simp add: final_execution_guard_def Let_def)
  with run_checks_failed [of "guard_checks l fs g" "[]"] assms(2) show ?thesis by fastforce
qed

definition demo_guard :: guard_input where
  "demo_guard = \<lparr>gi_now = 0, gi_signal = demo_signal, gi_signal_intent = None, gi_signal_contract = None,
     gi_intent = None, gi_price = None, gi_quantity = None, gi_latest = None, gi_feed_health = None,
     gi_session = Some ''OPEN'', gi_contract = None, gi_max_slippage = DFin (1/2), gi_risk_approved = True,
     gi_risk_stale = False, gi_duplicate = False, gi_invalidated = False, gi_drift = None, gi_max_drift = DFin 2000,
     gi_allow_closed = False, gi_audit = True, gi_db = True, gi_monitor_open = Inr True,
     gi_monitor_status = Inr ''LIVE'', gi_clock_drift = Inr None\<rparr>"

theorem guard_refusal_traced_witness:
  "gr_failed (snd (final_execution_guard demo_ledger demo_guard (feed_system_init []))) \<noteq> None"
proof -
  let ?r = "snd (final_execution_guard demo_ledger demo_guard (feed_system_init []))"
  have "(''6_CONTRACT_SPEC'', 2, False) \<in> set (guard_checks demo_ledger (feed_system_init []) demo_guard)"
    by (simp add: guard_checks_def resolved_spec_def demo_guard_def)
  then have "\<not> gr_passed ?r"
    unfolding final_execution_guard_def Let_def snd_conv run_checks_passed by (metis snd_conv)
  from guard_refusal_traced [OF refl this] show ?thesis by auto
qed




text \<open>No order on a degraded feed: in every reachable state of the feed system, the guard refuses
  every order on an instrument whose circuit suppresses it, whatever health the caller claims.\<close>

theorem degraded_feed_blocks_orders:
  assumes "feed_step\<^sup>*\<^sup>* (feed_system_init file) fs" "ft_suppress (feed_state_of fs (sg_underlying (gi_signal g)))"
  shows "\<not> gr_passed (snd (final_execution_guard l g fs))"
proof -
  have "feed_state_ok (feed_state_of fs (sg_underlying (gi_signal g)))" using feed_reachable_ok assms(1) by blast
  then have "snd (is_degraded (sg_underlying (gi_signal g)) fs)"
    using assms(2) by (cases "ft_health (feed_state_of fs (sg_underlying (gi_signal g)))")
      (auto simp: feed_state_ok_def is_degraded_def)
  then have "feed_blocks (effective_feed fs g)" by (simp add: effective_feed_def feed_blocks_def)
  then have "(''10_FEED_HEALTH'', 3, False) \<in> set (guard_checks l fs g)" by (simp add: guard_checks_def)
  then show ?thesis
    unfolding final_execution_guard_def Let_def snd_conv run_checks_passed by (metis snd_conv)
qed

theorem degraded_feed_blocks_orders_witness:
  "\<not> gr_passed (snd (final_execution_guard demo_ledger (demo_guard\<lparr>gi_feed_health := Some ''HEALTHY''\<rparr>) degraded_feed))"
proof -
  have r: "feed_step\<^sup>*\<^sup>* (feed_system_init []) degraded_feed"
    unfolding degraded_feed_def by (rule r_into_rtranclp) (rule fstep_trip)
  have "ft_suppress (feed_state_of degraded_feed (sg_underlying (gi_signal (demo_guard\<lparr>gi_feed_health := Some ''HEALTHY''\<rparr>))))"
    by (simp add: degraded_feed_def feed_trip_def Let_def trip_state_def feed_state_of_def feed_system_init_def
        feed_state_init_def set_circuit_def dict_simps demo_guard_def demo_signal_def)
  from degraded_feed_blocks_orders [OF r this] show ?thesis .
qed

end
