(* ===== verification/Droid_Trigger.thy ===== *)
theory Droid_Trigger
  imports Droid_Decimal
begin

text \<open>
  \<open>backend/app/signals/trigger_gate.py\<close>: the geometry a signal must have before it may wait for its trigger.

  Inputs are what callers pass (anything \<open>Decimal(str(v))\<close> may or may not accept); the messages and the
  metrics of the result are left out.
\<close>

definition TICK :: rat where "TICK = 5/100"
definition MIN_GAP_PCT :: rat where "MIN_GAP_PCT = 2/10000"
definition MIN_GAP_RISK_FRACTION :: rat where "MIN_GAP_RISK_FRACTION = 8/100"
definition ATR_GAP_FRACTION :: rat where "ATR_GAP_FRACTION = 12/100"
definition MIN_RISK_PCT :: rat where "MIN_RISK_PCT = 15/100000"
definition MIN_RR_T2 :: rat where "MIN_RR_T2 = 1"
definition MIN_RR_T2_SCALP :: rat where "MIN_RR_T2_SCALP = 1"
definition MAX_ENTRY_WIDTH_R :: rat where "MAX_ENTRY_WIDTH_R = 15/10"

text \<open>\<open>_dec\<close>: a finite decimal or nothing.\<close>

definition dec_opt :: "declike option \<Rightarrow> rat option" where
  "dec_opt v = (case v of None \<Rightarrow> None | Some x \<Rightarrow> (case D x of Inr (DFin r) \<Rightarrow> Some r | _ \<Rightarrow> None))"

text \<open>\<open>abs\<close> of a Decimal rounds to the context.\<close>

definition rabs :: "rat \<Rightarrow> rat" where
  "rabs x = drnd \<bar>x\<bar>"

definition friction :: "declike option list \<Rightarrow> rat" where
  "friction vs = foldl (\<lambda>extra v. case dec_opt v of Some d \<Rightarrow> if 0 < d then drnd (extra + rabs d) else extra
                                     | None \<Rightarrow> extra) 0 vs"

definition base_gap :: "rat \<Rightarrow> rat \<Rightarrow> bool \<Rightarrow> rat" where
  "base_gap spot risk scalp =
     (let pct = (if scalp then 1/10000 else MIN_GAP_PCT); frac = (if scalp then 5/100 else MIN_GAP_RISK_FRACTION)
      in max (max (drnd (rabs spot * pct)) (drnd (rabs risk * frac))) (drnd (TICK * 2)))"

definition min_trigger_gap_pts :: "rat \<Rightarrow> rat \<Rightarrow> bool \<Rightarrow> declike option \<Rightarrow> declike option \<Rightarrow> declike option \<Rightarrow> rat" where
  "min_trigger_gap_pts spot risk scalp atr spread slip =
     (let base = base_gap spot risk scalp;
          vol = (case dec_opt atr of Some a \<Rightarrow> if 0 < a then max base (drnd (rabs a * ATR_GAP_FRACTION)) else base
                 | None \<Rightarrow> base)
      in drnd (vol + friction [spread, slip]))"

record trigger_input =
  ti_direction :: string
  ti_spot :: "declike option"
  ti_entry_min :: "declike option"
  ti_entry_max :: "declike option"
  ti_trigger :: "declike option"
  ti_stop :: "declike option"
  ti_target_1 :: "declike option"
  ti_target_2 :: "declike option"
  ti_risk :: "declike option"
  ti_rr_t2 :: "dval option"
  ti_scalp :: bool
  ti_timeframe :: string
  ti_atr :: "declike option"
  ti_spread :: "declike option"
  ti_slip :: "declike option"

definition is_put :: "trigger_input \<Rightarrow> bool" where
  "is_put i \<longleftrightarrow> occurs_in ''PUT'' (map to_upper (ti_direction i)) \<or> occurs_in ''BEARISH'' (map to_upper (ti_direction i))"

definition scalp_effective :: "trigger_input \<Rightarrow> bool" where
  "scalp_effective i \<longleftrightarrow> ti_scalp i \<or> map to_upper (ti_timeframe i) \<in> {''1M'', ''3M'', ''SCALP''}"

text \<open>The risk in points, from the stop and the far edge of the entry zone when none is given.\<close>

definition trigger_risk :: "trigger_input \<Rightarrow> rat option" where
  "trigger_risk i =
     (let given = dec_opt (ti_risk i) in
      if given \<noteq> None \<and> 0 < or_else given 0 then given
      else (case (dec_opt (ti_stop i), dec_opt (ti_entry_min i), dec_opt (ti_entry_max i)) of
          (Some sl, Some emn, Some emx) \<Rightarrow> Some (rabs (drnd (sl - (if is_put i then emx else emn))))
        | _ \<Rightarrow> given))"

text \<open>\<open>not (rr2 >= minimum)\<close> in floats; a value that is no float counts as 0.\<close>

definition reward_too_low :: "trigger_input \<Rightarrow> rat \<Rightarrow> rat \<Rightarrow> bool" where
  "reward_too_low i trig risk =
     (let lo = (if scalp_effective i then MIN_RR_T2_SCALP else MIN_RR_T2) in
      case dec_opt (ti_target_2 i) of
        Some t2 \<Rightarrow> \<not> lo \<le> frnd (drnd (rabs (drnd (t2 - trig)) / risk))
      | None \<Rightarrow> (case or_else (ti_rr_t2 i) (DFin 0) of DFin r \<Rightarrow> \<not> lo \<le> r | DInf neg \<Rightarrow> neg | DNaN \<Rightarrow> True))"

text \<open>Stop and targets against the trigger.\<close>

definition stop_geometry :: "trigger_input \<Rightarrow> rat \<Rightarrow> string option" where
  "stop_geometry i trig = (case dec_opt (ti_stop i) of None \<Rightarrow> None
     | Some sl \<Rightarrow> if \<not> is_put i \<and> trig \<le> sl \<or> is_put i \<and> sl \<le> trig then Some ''SL_WRONG_SIDE'' else None)"

definition target_geometry :: "trigger_input \<Rightarrow> rat \<Rightarrow> string option" where
  "target_geometry i trig = (case (dec_opt (ti_target_1 i), dec_opt (ti_target_2 i)) of
     (Some t1, Some t2) \<Rightarrow>
       (if \<not> is_put i then (if t1 \<le> trig then Some ''TARGET_WRONG_SIDE'' else if t2 \<le> t1 then Some ''TARGETS_MISORDERED'' else None)
        else (if trig \<le> t1 then Some ''TARGET_WRONG_SIDE'' else if t1 \<le> t2 then Some ''TARGETS_MISORDERED'' else None))
   | _ \<Rightarrow> None)"

definition zone_too_wide :: "trigger_input \<Rightarrow> rat \<Rightarrow> bool" where
  "zone_too_wide i risk = (case (dec_opt (ti_entry_min i), dec_opt (ti_entry_max i)) of
     (Some emn, Some emx) \<Rightarrow> drnd (rabs risk * MAX_ENTRY_WIDTH_R) < rabs (drnd (emx - emn)) | _ \<Rightarrow> False)"

text \<open>The first reason to reject, or \<open>None\<close> for a signal that passes.\<close>

definition check_trigger_integrity :: "trigger_input \<Rightarrow> string option" where
  "check_trigger_integrity i = (case dec_opt (ti_trigger i) of
     None \<Rightarrow> Some ''NO_TRIGGER''
   | Some trig \<Rightarrow> if trig \<le> 0 then Some ''NO_TRIGGER'' else (case dec_opt (ti_spot i) of
       None \<Rightarrow> Some ''NO_SPOT''
     | Some spot \<Rightarrow>
         if spot \<le> 0 then Some ''NO_SPOT''
         else if \<not> is_put i \<and> trig \<le> spot \<or> is_put i \<and> spot \<le> trig then Some ''TRIGGER_WRONG_SIDE''
         else (case trigger_risk i of
           None \<Rightarrow> Some ''RISK_TOO_SMALL''
         | Some risk \<Rightarrow>
             if risk \<le> 0 then Some ''RISK_TOO_SMALL''
             else if rabs (drnd (trig - spot))
                     < min_trigger_gap_pts spot risk (scalp_effective i) (ti_atr i) (ti_spread i) (ti_slip i)
               then Some ''TRIGGER_TOO_CLOSE''
             else if risk < drnd (rabs spot * (if scalp_effective i then 4/100000 else MIN_RISK_PCT))
               then Some ''RISK_TOO_SMALL''
             else (case stop_geometry i trig of Some r \<Rightarrow> Some r
               | None \<Rightarrow> (case target_geometry i trig of Some r \<Rightarrow> Some r
                 | None \<Rightarrow> if reward_too_low i trig risk then Some ''RR_TOO_LOW''
                     else if zone_too_wide i risk then Some ''ENTRY_ZONE_TOO_WIDE'' else None)))))"

subsection \<open>What passes\<close>

lemma rabs_nonneg [simp]: "0 \<le> rabs x"
  by (simp add: rabs_def dec.rnd_nonneg)

lemma foldl_invariant: "P a \<Longrightarrow> (\<And>a v. P a \<Longrightarrow> P (f a v)) \<Longrightarrow> P (foldl f a vs)"
  by (induction vs arbitrary: a) auto

lemma friction_nonneg: "0 \<le> friction vs"
  unfolding friction_def
  by (rule foldl_invariant) (auto split: option.split intro: dec.rnd_nonneg)

lemma two_ticks: "drnd (1/10) = 1/10"
  by (rule drnd_exactI [of 1 _ "-1"]) simp_all

lemma base_gap_ge: "1/10 \<le> base_gap spot risk scalp"
  using two_ticks by (auto simp: base_gap_def Let_def TICK_def)

text \<open>The gap is never below two ticks, and volatility and friction only widen it.\<close>

lemma min_gap_ge: "1/10 \<le> min_trigger_gap_pts spot risk scalp atr spread slip"
proof -
  define vol where "vol = (case dec_opt atr of Some a \<Rightarrow> if 0 < a then max (base_gap spot risk scalp) (drnd (rabs a * ATR_GAP_FRACTION))
      else base_gap spot risk scalp | None \<Rightarrow> base_gap spot risk scalp)"
  have "1/10 \<le> vol"
    using base_gap_ge [of spot risk scalp] by (auto simp: vol_def le_max_iff_disj split: option.split)
  then have "1/10 \<le> drnd (vol + friction [spread, slip])"
    using friction_nonneg [of "[spread, slip]"] by (intro dec.rnd_ge_rep [OF two_ticks]) linarith
  then show ?thesis by (simp only: min_trigger_gap_pts_def Let_def vol_def)
qed

lemma reward_bound:
  assumes "1 \<le> frnd (drnd (x / risk))" "0 < risk"
  shows "(1 - 2 / 10 ^ 16) * risk < x"
proof -
  let ?q = "1 - 2 / 10 ^ 16 :: rat" and ?h = "1 - 1 / 2 ^ 53 :: rat"
  have h: "frnd ?h = ?h" by (rule frnd_exactI [of "2 ^ 53 - 1" _ "-53"]) (simp_all add: power_int_minus field_simps)
  have q: "drnd ?q = ?q"
    by (rule drnd_exactI [of "10 ^ 16 - 2" _ "-16"]) (simp_all add: power_int_minus field_simps)
  have "?h < drnd (x / risk)" by (rule flt.rnd_gt_rep_imp [OF h]) (use assms(1) in simp)
  then have "?q < drnd (x / risk)" by simp
  then have "?q < x / risk" by (rule dec.rnd_gt_rep_imp [OF q])
  then show ?thesis using assms(2) by (simp add: pos_less_divide_eq)
qed

text \<open>A signal that passes the trigger gate has a trigger beyond the spot on the breakout side, at
  least two ticks away; its stop lies on the other side of the trigger; its two targets, when both
  are given, lie beyond the trigger in order; and the second target pays the risk (up to one part in
  5 * 10^15).\<close>

theorem passed_trigger_geometry:
  assumes "check_trigger_integrity i = None"
  shows "\<exists>spot trig risk. dec_opt (ti_spot i) = Some spot \<and> dec_opt (ti_trigger i) = Some trig
    \<and> trigger_risk i = Some risk \<and> 0 < spot \<and> 0 < trig \<and> 0 < risk
    \<and> 1/10 \<le> rabs (drnd (trig - spot)) \<and> (if is_put i then trig < spot else spot < trig)
    \<and> (\<forall>sl. dec_opt (ti_stop i) = Some sl \<longrightarrow> (if is_put i then trig < sl else sl < trig))
    \<and> (\<forall>t1 t2. dec_opt (ti_target_1 i) = Some t1 \<and> dec_opt (ti_target_2 i) = Some t2 \<longrightarrow>
       (if is_put i then t2 < t1 \<and> t1 < trig else trig < t1 \<and> t1 < t2))
    \<and> (\<forall>t2. dec_opt (ti_target_2 i) = Some t2 \<longrightarrow> (1 - 2 / 10 ^ 16) * risk < rabs (drnd (t2 - trig)))"
proof -
  obtain trig where trig: "dec_opt (ti_trigger i) = Some trig" "0 < trig"
    using assms by (auto simp: check_trigger_integrity_def split: option.splits if_splits)
  obtain spot where spot: "dec_opt (ti_spot i) = Some spot" "0 < spot"
    using assms trig by (auto simp: check_trigger_integrity_def split: option.splits if_splits)
  have side: "if is_put i then trig < spot else spot < trig"
    using assms trig spot by (auto simp: check_trigger_integrity_def split: option.splits if_splits)
  obtain risk where risk: "trigger_risk i = Some risk" "0 < risk"
    using assms trig spot by (auto simp: check_trigger_integrity_def split: option.splits if_splits)
  let ?gap = "min_trigger_gap_pts spot risk (scalp_effective i) (ti_atr i) (ti_spread i) (ti_slip i)"
  have rest: "?gap \<le> rabs (drnd (trig - spot))" "stop_geometry i trig = None" "target_geometry i trig = None"
      "\<not> reward_too_low i trig risk"
    using assms trig spot risk by (auto simp: check_trigger_integrity_def split: option.splits if_splits)
  have "1/10 \<le> rabs (drnd (trig - spot))" using min_gap_ge rest(1) by (rule order_trans)
  moreover have "\<forall>sl. dec_opt (ti_stop i) = Some sl \<longrightarrow> (if is_put i then trig < sl else sl < trig)"
    using rest(2) by (auto simp: stop_geometry_def split: if_splits)
  moreover have "\<forall>t1 t2. dec_opt (ti_target_1 i) = Some t1 \<and> dec_opt (ti_target_2 i) = Some t2 \<longrightarrow>
       (if is_put i then t2 < t1 \<and> t1 < trig else trig < t1 \<and> t1 < t2)"
    using rest(3) by (auto simp: target_geometry_def split: if_splits)
  moreover have "\<forall>t2. dec_opt (ti_target_2 i) = Some t2 \<longrightarrow> (1 - 2 / 10 ^ 16) * risk < rabs (drnd (t2 - trig))"
    using rest(4) reward_bound [OF _ risk(2)] by (auto simp: reward_too_low_def Let_def MIN_RR_T2_def MIN_RR_T2_SCALP_def split: if_splits)
  ultimately show ?thesis using trig spot side risk by blast
qed

end
