(* ===== verification/Droid_Paper.thy ===== *)
theory Droid_Paper
  imports Droid_Decimal
begin

text \<open>
  \<open>backend/app/services/paper_service.py\<close>, with the margin rule of \<open>market_core/margin.py\<close> and the
  cost schedule of \<open>market_core/costs.py\<close>: the virtual matching engine every simulated order goes
  through.

  Money is binary floating point here: finite floats are rationals and every operation is rounded by
  \<open>frnd\<close>. A user's state is a shard; methods run under that user's lock, so a call is a function on
  shards. Live quotes, the calendar's answer and fresh order ids are inputs of a call. The database
  copy, timestamps and logging are left out.
\<close>

subsection \<open>Margin\<close>

datatype instrument_type = OPTION_BUY | OPTION_SELL | FUTURES

fun drop_50 :: "string \<Rightarrow> string" where
  "drop_50 (a # b # c # cs) = (if [a, b, c] = '' 50'' then drop_50 cs else a # drop_50 (b # c # cs))"
| "drop_50 s = s"

definition lot_of :: "string \<Rightarrow> int" where
  "lot_of u = (if occurs_in ''SENSEX'' u then 10 else if occurs_in ''BANK'' u then 25
     else if occurs_in ''FIN'' u then 65 else 75)"

definition base_per_lot :: "string \<Rightarrow> rat" where
  "base_per_lot u = (if occurs_in ''SENSEX'' u then 150000 else if occurs_in ''BANK'' u then 145000
     else if occurs_in ''FIN'' u then 115000 else 125000)"

definition calculate_required_margin :: "instrument_type \<Rightarrow> string \<Rightarrow> rat \<Rightarrow> int \<Rightarrow> bool \<Rightarrow> rat" where
  "calculate_required_margin inst underlying price quantity hedged =
     (let u = drop_50 (map to_upper underlying) in
      if inst = OPTION_BUY
      then round2 (frnd ((if price < 2000 then price else round2 (frnd (price * frnd (15/1000)))) * of_int quantity))
      else (let raw = frnd (base_per_lot u * of_int (max 1 (quantity div lot_of u))) in
        if inst = FUTURES then round2 raw else if hedged then round2 (frnd (raw * frnd (2/5))) else round2 raw))"

subsection \<open>Costs\<close>

record cost_breakdown =
  cb_stt :: rat
  cb_exchange :: rat
  cb_sebi :: rat
  cb_stamp :: rat
  cb_brokerage :: rat
  cb_gst :: rat
  cb_slippage :: rat
  cb_total :: rat
  cb_drag_bps :: rat

record cost_schedule =
  cs_stt_sell :: rat
  cs_exchange :: rat
  cs_sebi :: rat
  cs_stamp_buy :: rat
  cs_gst :: rat
  cs_flat_brokerage :: rat

definition calculate_trade_costs :: "rat \<Rightarrow> rat \<Rightarrow> int \<Rightarrow> cost_schedule \<Rightarrow> rat \<Rightarrow> rat \<Rightarrow> cost_breakdown" where
  "calculate_trade_costs buy sell orders s slippage_rate stress =
     (let total = frnd (buy + sell);
          stt = frnd (frnd (sell * cs_stt_sell s) * stress);
          exch = frnd (frnd (total * cs_exchange s) * stress);
          sebi = frnd (frnd (total * cs_sebi s) * stress);
          stamp = frnd (frnd (buy * cs_stamp_buy s) * stress);
          brok = frnd (frnd (of_int orders * cs_flat_brokerage s) * stress);
          gst = frnd (frnd (frnd (brok + exch) + sebi) * cs_gst s);
          slip = frnd (frnd (total * slippage_rate) * stress);
          cost = foldl (\<lambda>a x. frnd (a + x)) stt [exch, sebi, stamp, brok, gst, slip]
      in \<lparr>cb_stt = round2 stt, cb_exchange = round2 exch, cb_sebi = round2 sebi, cb_stamp = round2 stamp,
          cb_brokerage = round2 brok, cb_gst = round2 gst, cb_slippage = round2 slip, cb_total = round2 cost,
          cb_drag_bps = round2 (frnd (frnd (cost / max 1 total) * 10000))\<rparr>)"

definition option_schedule :: "rat \<Rightarrow> cost_schedule" where
  "option_schedule brokerage = \<lparr>cs_stt_sell = frnd (125/100000), cs_exchange = frnd (5/10000), cs_sebi = frnd (1/1000000),
     cs_stamp_buy = frnd (3/100000), cs_gst = frnd (18/100), cs_flat_brokerage = brokerage\<rparr>"

definition calculate_option_costs :: "rat \<Rightarrow> rat \<Rightarrow> int \<Rightarrow> cost_breakdown" where
  "calculate_option_costs buy sell orders =
     calculate_trade_costs buy sell orders (option_schedule 20) (frnd (1/1000)) 1"

subsection \<open>Orders, positions and shards\<close>

datatype order_side = BUY | SELL
datatype order_type = MARKET | LIMIT | SL_MARKET | SL_LIMIT
datatype product_type = INTRADAY | CARRYFORWARD
datatype paper_status = PENDING | FILLED | CANCELLED | REJECTED
datatype fill_source = FromLive | FromLimit | FromFallback

datatype reject_reason =
    MARKET_CLOSED | INVALID_QUANTITY | ORDER_TOO_LARGE | POSITION_LIMIT | SYMBOL_EXPOSURE_LIMIT | DAILY_LOSS_LIMIT
  | INVALID_PRICE | INVALID_TRIGGER | MARKET_QUOTE_UNAVAILABLE | FAT_FINGER | INSUFFICIENT_MARGIN

record payload =
  pl_symbol :: string
  pl_underlying :: string
  pl_side :: order_side
  pl_type :: order_type
  pl_product :: product_type
  pl_qty :: int
  pl_price :: rat
  pl_trigger :: "rat option"
  pl_cid :: "string option"

record vorder =
  vo_id :: string
  vo_symbol :: string
  vo_underlying :: string
  vo_side :: order_side
  vo_type :: order_type
  vo_product :: product_type
  vo_qty :: int
  vo_price :: rat
  vo_trigger :: "rat option"
  vo_status :: paper_status
  vo_fill :: "rat option"
  vo_reason :: "reject_reason option"
  vo_cid :: "string option"
  vo_source :: "fill_source option"
  vo_costs :: "rat option"

record vposition =
  vp_symbol :: string
  vp_underlying :: string
  vp_inst :: instrument_type
  vp_side :: order_side
  vp_product :: product_type
  vp_qty :: int
  vp_avg :: rat
  vp_ltp :: rat
  vp_unrealized :: rat
  vp_realized :: rat
  vp_margin :: rat
  vp_open :: bool

text \<open>The idempotency map names an order of the log; the code stores the same object in both.\<close>

record shard =
  sh_positions :: "(string, vposition) dict"
  sh_orders :: "vorder list"
  sh_capital :: rat
  sh_realized :: rat
  sh_idem :: "(string, string) dict"

definition shard_init :: shard where
  "shard_init = \<lparr>sh_positions = [], sh_orders = [], sh_capital = 1000000, sh_realized = 0, sh_idem = []\<rparr>"

record paper_env =
  pe_order_id :: string
  pe_can_trade :: bool
  pe_live :: "rat option"
  pe_live_again :: "rat option"
  pe_max_order_qty :: int
  pe_max_positions :: nat

definition MAX_POSITION_QTY_PER_SYMBOL :: int where "MAX_POSITION_QTY_PER_SYMBOL = 200000"
definition FAT_FINGER_BAND_PCT :: rat where "FAT_FINGER_BAND_PCT = frnd (1/5)"
definition DAILY_LOSS_BRAKE_PCT :: rat where "DAILY_LOSS_BRAKE_PCT = 1/4"

fun product_name :: "product_type \<Rightarrow> string" where
  "product_name INTRADAY = ''INTRADAY''"
| "product_name CARRYFORWARD = ''CARRYFORWARD''"

definition position_id :: "string \<Rightarrow> product_type \<Rightarrow> string" where
  "position_id symbol product = symbol @ ''_'' @ product_name product"

definition mult_of :: "order_side \<Rightarrow> int" where
  "mult_of s = (case s of BUY \<Rightarrow> 1 | SELL \<Rightarrow> -1)"

definition apply_friction :: "rat \<Rightarrow> order_side \<Rightarrow> rat" where
  "apply_friction price s = (let adj = frnd (price * frnd (15/10000)) in
     round2 (case s of BUY \<Rightarrow> frnd (price + adj) | SELL \<Rightarrow> frnd (price - adj)))"

definition is_option_symbol :: "string \<Rightarrow> bool" where
  "is_option_symbol symbol \<longleftrightarrow> occurs_in ''CE'' (map to_upper symbol) \<or> occurs_in ''PE'' (map to_upper symbol)"

definition instrument_of :: "string \<Rightarrow> order_side \<Rightarrow> instrument_type" where
  "instrument_of symbol s = (if is_option_symbol symbol then (if s = BUY then OPTION_BUY else OPTION_SELL) else FUTURES)"

definition is_indian :: "string \<Rightarrow> string \<Rightarrow> bool" where
  "is_indian underlying symbol \<longleftrightarrow> underlying \<in> {''NIFTY'', ''BANKNIFTY'', ''SENSEX'', ''FINNIFTY'', ''MIDCPNIFTY''}
     \<or> (\<exists>x \<in> {''CE'', ''PE'', ''FUT'', ''NIFTY'', ''BANKNIFTY'', ''SENSEX''}. occurs_in x symbol)"

definition estimate_costs :: "order_side \<Rightarrow> rat \<Rightarrow> int \<Rightarrow> rat" where
  "estimate_costs s fill qty = (let turnover = round2 (frnd (fill * of_int qty)) in
     round2 (cb_total (calculate_option_costs (if s = BUY then turnover else 0) (if s = SELL then turnover else 0) 1)))"

record portfolio_summary =
  ps_capital :: rat
  ps_available :: rat
  ps_used :: rat
  ps_utilization :: rat
  ps_realized :: rat
  ps_unrealized :: rat
  ps_total :: rat
  ps_open_count :: nat

definition summary_from_snapshot :: "rat \<Rightarrow> rat \<Rightarrow> vposition list \<Rightarrow> portfolio_summary" where
  "summary_from_snapshot capital realized positions =
     (let op = filter vp_open positions;
          unreal = round2 (py_sum (map vp_unrealized op));
          used = round2 (py_sum (map vp_margin op));
          total = round2 (frnd (realized + unreal));
          avail = round2 (max 0 (frnd (frnd (capital + total) - used)));
          util = (if 0 < capital then round2 (frnd (frnd (used / capital) * 100)) else 0)
      in \<lparr>ps_capital = capital, ps_available = avail, ps_used = used, ps_utilization = util,
          ps_realized = round2 realized, ps_unrealized = unreal, ps_total = total, ps_open_count = length op\<rparr>)"

subsection \<open>Fill resolution\<close>

text \<open>A price and its source, a rest, or no fill.\<close>

datatype fill_result = FillAt rat fill_source | Rest | NoFill

text \<open>Limit price against the market with friction.\<close>

definition limit_fill :: "order_side \<Rightarrow> rat \<Rightarrow> rat \<Rightarrow> fill_result" where
  "limit_fill s adj price = (case s of
     BUY \<Rightarrow> if adj \<le> price then FillAt (min adj price) FromLimit else Rest
   | SELL \<Rightarrow> if price \<le> adj then FillAt (max adj price) FromLimit else Rest)"

definition triggered :: "order_side \<Rightarrow> rat \<Rightarrow> rat \<Rightarrow> bool" where
  "triggered s live trig = (case s of BUY \<Rightarrow> trig \<le> live | SELL \<Rightarrow> live \<le> trig)"

definition positive_quote :: "rat option \<Rightarrow> rat option" where
  "positive_quote q = (case q of None \<Rightarrow> None | Some l \<Rightarrow> if l \<le> 0 then None else Some l)"

definition resolve_fill :: "paper_env \<Rightarrow> payload \<Rightarrow> (rat \<times> fill_source) option \<Rightarrow> fill_result" where
  "resolve_fill env p forced = (case forced of
     Some (px, src) \<Rightarrow> FillAt px src
   | None \<Rightarrow> (let live = positive_quote (pe_live env) in
       case pl_type p of
         MARKET \<Rightarrow> (case live of Some l \<Rightarrow> FillAt (apply_friction l (pl_side p)) FromLive | None \<Rightarrow> NoFill)
       | LIMIT \<Rightarrow> if pl_price p \<le> 0 then NoFill
           else (case live of None \<Rightarrow> Rest | Some l \<Rightarrow> limit_fill (pl_side p) (apply_friction l (pl_side p)) (pl_price p))
       | _ \<Rightarrow> if or_else (pl_trigger p) 0 \<le> 0 then NoFill
           else (case live of None \<Rightarrow> Rest
             | Some l \<Rightarrow> if \<not> triggered (pl_side p) l (or_else (pl_trigger p) 0) then Rest
                 else if pl_type p = SL_MARKET \<or> pl_price p \<le> 0 then FillAt (apply_friction l (pl_side p)) FromLive
                 else limit_fill (pl_side p) (apply_friction l (pl_side p)) (pl_price p))))"

subsection \<open>The risk gate\<close>

definition open_position :: "shard \<Rightarrow> string \<Rightarrow> vposition option" where
  "open_position sh pid = (case map_of (sh_positions sh) pid of
     Some p \<Rightarrow> if vp_open p then Some p else None | None \<Rightarrow> None)"

definition payload_pid :: "payload \<Rightarrow> string" where
  "payload_pid p = position_id (pl_symbol p) (pl_product p)"

definition open_count :: "shard \<Rightarrow> nat" where
  "open_count sh = length (filter vp_open (map snd (sh_positions sh)))"

definition risk_gate :: "paper_env \<Rightarrow> payload \<Rightarrow> bool \<Rightarrow> shard \<Rightarrow> reject_reason option" where
  "risk_gate env p allow_closed sh =
     (let held = open_position sh (payload_pid p) in
      if is_indian (pl_underlying p) (pl_symbol p) \<and> \<not> allow_closed \<and> \<not> pe_can_trade env then Some MARKET_CLOSED
      else if pl_qty p \<le> 0 then Some INVALID_QUANTITY
      else if pe_max_order_qty env < pl_qty p then Some ORDER_TOO_LARGE
      else if held = None \<and> pe_max_positions env \<le> open_count sh then Some POSITION_LIMIT
      else if (case held of Some e \<Rightarrow> vp_side e = pl_side p \<and> MAX_POSITION_QTY_PER_SYMBOL < vp_qty e + pl_qty p | None \<Rightarrow> False)
        then Some SYMBOL_EXPOSURE_LIMIT
      else if sh_realized sh < frnd (- DAILY_LOSS_BRAKE_PCT * sh_capital sh) \<and> pl_side p = BUY \<and> held = None
        then Some DAILY_LOSS_LIMIT
      else None)"

definition no_fill_reason :: "payload \<Rightarrow> reject_reason" where
  "no_fill_reason p =
     (if pl_type p \<in> {LIMIT, SL_MARKET, SL_LIMIT} \<and> pl_price p \<le> 0 then INVALID_PRICE
      else if pl_type p \<in> {SL_MARKET, SL_LIMIT} \<and> or_else (pl_trigger p) 0 \<le> 0 then INVALID_TRIGGER
      else MARKET_QUOTE_UNAVAILABLE)"

definition fat_finger :: "paper_env \<Rightarrow> payload \<Rightarrow> fill_source \<Rightarrow> bool" where
  "fat_finger env p src \<longleftrightarrow> pl_type p \<in> {LIMIT, SL_LIMIT} \<and> src = FromLimit \<and> 0 < pl_price p
     \<and> (case positive_quote (pe_live_again env) of None \<Rightarrow> False
        | Some l \<Rightarrow> FAT_FINGER_BAND_PCT < frnd (\<bar>frnd (pl_price p - l)\<bar> / l))"

definition required_margin :: "payload \<Rightarrow> rat \<Rightarrow> int \<Rightarrow> rat" where
  "required_margin p fill qty = calculate_required_margin (instrument_of (pl_symbol p) (pl_side p)) (pl_underlying p) fill qty False"

definition available_margin :: "shard \<Rightarrow> rat" where
  "available_margin sh = ps_available (summary_from_snapshot (sh_capital sh) (sh_realized sh) (map snd (sh_positions sh)))"

text \<open>Margin is only checked when no position of the other side is open.\<close>

definition needs_margin :: "payload \<Rightarrow> shard \<Rightarrow> bool" where
  "needs_margin p sh = (case open_position sh (payload_pid p) of None \<Rightarrow> True | Some e \<Rightarrow> vp_side e = pl_side p)"

subsection \<open>Positions\<close>

definition unrealized_of :: "rat \<Rightarrow> rat \<Rightarrow> int \<Rightarrow> order_side \<Rightarrow> rat" where
  "unrealized_of ltp avg qty s = round2 (frnd (frnd (frnd (ltp - avg) * of_int qty) * of_int (mult_of s)))"

definition new_position :: "payload \<Rightarrow> rat \<Rightarrow> int \<Rightarrow> rat \<Rightarrow> vposition" where
  "new_position p fill qty margin =
     \<lparr>vp_symbol = pl_symbol p, vp_underlying = pl_underlying p, vp_inst = instrument_of (pl_symbol p) (pl_side p),
      vp_side = pl_side p, vp_product = pl_product p, vp_qty = qty, vp_avg = fill, vp_ltp = fill, vp_unrealized = 0,
      vp_realized = 0, vp_margin = margin, vp_open = True\<rparr>"

definition add_to_position :: "payload \<Rightarrow> rat \<Rightarrow> rat \<Rightarrow> vposition \<Rightarrow> vposition" where
  "add_to_position p fill req e =
     (let tot = vp_qty e + pl_qty p;
          val = frnd (frnd (of_int (vp_qty e) * vp_avg e) + frnd (of_int (pl_qty p) * fill));
          avg = round2 (frnd (val / of_int tot))
      in e\<lparr>vp_avg := avg, vp_qty := tot, vp_ltp := fill, vp_margin := round2 (frnd (vp_margin e + req)),
           vp_unrealized := unrealized_of fill avg tot (vp_side e)\<rparr>)"

definition trade_realized :: "payload \<Rightarrow> rat \<Rightarrow> vposition \<Rightarrow> rat" where
  "trade_realized p fill e =
     frnd (frnd (frnd (fill - vp_avg e) * of_int (min (vp_qty e) (pl_qty p))) * of_int (mult_of (vp_side e)))"

text \<open>The opposite side: close, close and flip, or reduce.\<close>

definition reduce_position :: "payload \<Rightarrow> rat \<Rightarrow> vposition \<Rightarrow> vposition" where
  "reduce_position p fill e0 =
     (let e = e0\<lparr>vp_realized := round2 (frnd (vp_realized e0 + trade_realized p fill e0))\<rparr> in
      if vp_qty e \<le> pl_qty p then
        (let residual = pl_qty p - vp_qty e in
         if 0 < residual then new_position p fill residual (required_margin p fill residual)
         else e\<lparr>vp_open := False, vp_qty := 0, vp_margin := 0, vp_ltp := fill, vp_unrealized := 0\<rparr>)
      else
        (let frac = (if vp_qty e = 0 then 0 else frnd (of_int (pl_qty p) / of_int (vp_qty e))); q = vp_qty e - pl_qty p
         in e\<lparr>vp_qty := q, vp_margin := round2 (max 0 (frnd (vp_margin e * frnd (1 - frac)))), vp_ltp := fill,
              vp_unrealized := unrealized_of fill (vp_avg e) q (vp_side e)\<rparr>))"

definition book_fill :: "payload \<Rightarrow> rat \<Rightarrow> shard \<Rightarrow> shard" where
  "book_fill p fill sh = (let pid = payload_pid p; req = required_margin p fill (pl_qty p) in
     case open_position sh pid of
       None \<Rightarrow> sh\<lparr>sh_positions := AList.update pid (new_position p fill (pl_qty p) req) (sh_positions sh)\<rparr>
     | Some e \<Rightarrow> if vp_side e = pl_side p
         then sh\<lparr>sh_positions := AList.update pid (add_to_position p fill req e) (sh_positions sh)\<rparr>
         else sh\<lparr>sh_positions := AList.update pid (reduce_position p fill e) (sh_positions sh),
                 sh_realized := frnd (sh_realized sh + round2 (trade_realized p fill e))\<rparr>)"

subsection \<open>Placing an order\<close>

definition make_order :: "paper_env \<Rightarrow> payload \<Rightarrow> paper_status \<Rightarrow> vorder" where
  "make_order env p status =
     \<lparr>vo_id = pe_order_id env, vo_symbol = pl_symbol p, vo_underlying = pl_underlying p, vo_side = pl_side p,
      vo_type = pl_type p, vo_product = pl_product p, vo_qty = pl_qty p, vo_price = pl_price p, vo_trigger = pl_trigger p,
      vo_status = status, vo_fill = None, vo_reason = None, vo_cid = pl_cid p, vo_source = None, vo_costs = None\<rparr>"

definition log_order :: "vorder \<Rightarrow> shard \<Rightarrow> shard" where
  "log_order o' sh = sh\<lparr>sh_orders := o' # sh_orders sh\<rparr>"

definition cid_of :: "payload \<Rightarrow> string option" where
  "cid_of p = (case pl_cid p of None \<Rightarrow> None | Some c \<Rightarrow> if c = [] then None else Some c)"

definition remember_order :: "payload \<Rightarrow> vorder \<Rightarrow> shard \<Rightarrow> shard" where
  "remember_order p o' sh = (case cid_of p of None \<Rightarrow> sh | Some c \<Rightarrow> sh\<lparr>sh_idem := AList.update c (vo_id o') (sh_idem sh)\<rparr>)"

definition reject_order :: "paper_env \<Rightarrow> payload \<Rightarrow> reject_reason \<Rightarrow> shard \<Rightarrow> shard \<times> vorder" where
  "reject_order env p reason sh = (let o' = (make_order env p REJECTED)\<lparr>vo_reason := Some reason\<rparr> in (log_order o' sh, o'))"

definition find_order :: "shard \<Rightarrow> string \<Rightarrow> vorder option" where
  "find_order sh oid = find (\<lambda>o'. vo_id o' = oid) (sh_orders sh)"

definition replayed :: "payload \<Rightarrow> shard \<Rightarrow> vorder option" where
  "replayed p sh = (case cid_of p of None \<Rightarrow> None
     | Some c \<Rightarrow> (case map_of (sh_idem sh) c of None \<Rightarrow> None | Some oid \<Rightarrow> find_order sh oid))"

definition fill_order :: "paper_env \<Rightarrow> payload \<Rightarrow> rat \<Rightarrow> fill_source \<Rightarrow> shard \<Rightarrow> shard \<times> vorder" where
  "fill_order env p fill0 src sh = (let fill = round2 fill0 in
     if fat_finger env p src then reject_order env p FAT_FINGER sh
     else if needs_margin p sh \<and> available_margin sh < required_margin p fill (pl_qty p)
       then reject_order env p INSUFFICIENT_MARGIN sh
     else (let o' = (make_order env p FILLED)\<lparr>vo_fill := Some fill, vo_source := Some src,
                      vo_costs := Some (estimate_costs (pl_side p) fill (pl_qty p))\<rparr>
           in (remember_order p o' (log_order o' (book_fill p fill sh)), o')))"

definition place_order_locked :: "paper_env \<Rightarrow> payload \<Rightarrow> bool \<Rightarrow> (rat \<times> fill_source) option \<Rightarrow> shard \<Rightarrow> shard \<times> vorder" where
  "place_order_locked env p allow_closed forced sh = (case replayed p sh of
     Some o' \<Rightarrow> (sh, o')
   | None \<Rightarrow> (case risk_gate env p allow_closed sh of
       Some r \<Rightarrow> reject_order env p r sh
     | None \<Rightarrow> (case resolve_fill env p forced of
         Rest \<Rightarrow> (let o' = make_order env p PENDING in (remember_order p o' (log_order o' sh), o'))
       | NoFill \<Rightarrow> reject_order env p (no_fill_reason p) sh
       | FillAt px src \<Rightarrow> if px \<le> 0 then reject_order env p (no_fill_reason p) sh else fill_order env p px src sh)))"

definition place_order :: "paper_env \<Rightarrow> payload \<Rightarrow> bool \<Rightarrow> shard \<Rightarrow> shard \<times> vorder" where
  "place_order env p allow_closed sh = place_order_locked env p allow_closed None sh"

fun place_basket :: "(paper_env \<times> payload) list \<Rightarrow> bool \<Rightarrow> shard \<Rightarrow> shard \<times> vorder list" where
  "place_basket [] allow_closed sh = (sh, [])"
| "place_basket ((env, p) # ps) allow_closed sh =
     (case place_order env p allow_closed sh of (sh1, o') \<Rightarrow>
      case place_basket ps allow_closed sh1 of (sh2, os) \<Rightarrow> (sh2, o' # os))"

subsection \<open>The other operations\<close>

fun update_first :: "string \<Rightarrow> vorder \<Rightarrow> vorder list \<Rightarrow> vorder list" where
  "update_first oid y [] = []"
| "update_first oid y (x # xs) = (if vo_id x = oid then y # xs else x # update_first oid y xs)"

definition cancel_order :: "string \<Rightarrow> shard \<Rightarrow> shard \<times> vorder result" where
  "cancel_order oid sh = (case find_order sh oid of
     None \<Rightarrow> (sh, Inl ValueError)
   | Some o' \<Rightarrow> if vo_status o' \<noteq> PENDING then (sh, Inl ValueError)
       else (let c = o'\<lparr>vo_status := CANCELLED\<rparr> in
         (sh\<lparr>sh_orders := update_first oid c (sh_orders sh)\<rparr>, Inr c)))"

definition opposite :: "order_side \<Rightarrow> order_side" where
  "opposite s = (case s of BUY \<Rightarrow> SELL | SELL \<Rightarrow> BUY)"

definition mark :: "rat \<Rightarrow> vposition \<Rightarrow> vposition" where
  "mark live e = (let l = round2 live in e\<lparr>vp_ltp := l, vp_unrealized := unrealized_of l (vp_avg e) (vp_qty e) (vp_side e)\<rparr>)"

text \<open>The mark to the live quote is written before the session is checked.\<close>

definition square_off :: "paper_env \<Rightarrow> string \<Rightarrow> bool \<Rightarrow> shard \<Rightarrow> shard \<times> vposition result" where
  "square_off env pid allow_closed sh = (case open_position sh pid of
     None \<Rightarrow> (sh, Inl ValueError)
   | Some e0 \<Rightarrow> (let live = positive_quote (pe_live env);
         e = (case live of Some l \<Rightarrow> mark l e0 | None \<Rightarrow> e0);
         sh1 = sh\<lparr>sh_positions := AList.update pid e (sh_positions sh)\<rparr>;
         exit_side = opposite (vp_side e)
       in if live = None \<and> vp_ltp e \<le> 0 then (sh, Inl ValueError)
          else if is_indian (vp_underlying e) (vp_symbol e) \<and> \<not> allow_closed \<and> \<not> pe_can_trade env then (sh1, Inl ValueError)
          else if vp_qty e \<le> 0 then (sh1, Inl ValueError)
          else (let forced = (case live of Some l \<Rightarrow> (apply_friction l exit_side, FromLive) | None \<Rightarrow> (round2 (vp_ltp e), FromFallback));
                    p = \<lparr>pl_symbol = vp_symbol e, pl_underlying = vp_underlying e, pl_side = exit_side, pl_type = MARKET,
                         pl_product = vp_product e, pl_qty = vp_qty e, pl_price = 0, pl_trigger = None, pl_cid = None\<rparr>;
                    sh2 = fst (place_order_locked env p True (Some forced) sh1)
                in (sh2, case map_of (sh_positions sh2) pid of Some q \<Rightarrow> Inr q | None \<Rightarrow> Inl KeyError))))"

text \<open>One environment per position, in the order of the snapshot; a failure is skipped.\<close>

definition square_off_all :: "(string \<Rightarrow> paper_env) \<Rightarrow> bool \<Rightarrow> shard \<Rightarrow> shard \<times> vposition list" where
  "square_off_all env allow_closed sh =
     fold (\<lambda>pid (s, closed). case square_off (env pid) pid allow_closed s of
             (s', Inr q) \<Rightarrow> (s', closed @ [q]) | (s', Inl e) \<Rightarrow> (s', closed))
       (map fst (filter (\<lambda>(pid, q). vp_open q) (sh_positions sh))) (sh, [])"

definition set_initial_capital :: "rat \<Rightarrow> shard \<Rightarrow> shard result" where
  "set_initial_capital c sh = (if c \<le> 0 then Inl ValueError else Inr (sh\<lparr>sh_capital := c\<rparr>))"

definition reset_portfolio :: "rat option \<Rightarrow> shard \<Rightarrow> shard" where
  "reset_portfolio c sh = \<lparr>sh_positions = [], sh_orders = [],
     sh_capital = (if 0 < or_else c 0 then or_else c 0 else sh_capital sh), sh_realized = 0, sh_idem = []\<rparr>"

text \<open>The refresh of open positions to the quotes that came back.\<close>

definition refresh_mtm :: "(string \<times> rat option) list \<Rightarrow> shard \<Rightarrow> shard" where
  "refresh_mtm quotes sh = fold (\<lambda>(pid, q) s. case (positive_quote q, open_position s pid) of
       (Some l, Some e) \<Rightarrow> s\<lparr>sh_positions := AList.update pid (mark l e) (sh_positions s)\<rparr> | _ \<Rightarrow> s) quotes sh"

definition get_orders_page :: "int \<Rightarrow> int \<Rightarrow> shard \<Rightarrow> vorder list" where
  "get_orders_page limit offset sh = take (nat (max 1 (min limit 500))) (drop (nat (max 0 offset)) (sh_orders sh))"

text \<open>The fill price of a resting order at a tick, if the tick reaches it.\<close>

definition pending_fill :: "rat \<Rightarrow> vorder \<Rightarrow> rat option" where
  "pending_fill ltp o' = (let adj = apply_friction ltp (vo_side o'); s = vo_side o' in
     case vo_type o' of
       LIMIT \<Rightarrow> (case limit_fill s adj (vo_price o') of FillAt px src \<Rightarrow> Some px | _ \<Rightarrow> None)
     | SL_MARKET \<Rightarrow> if triggered s ltp (or_else (vo_trigger o') 0) then Some adj else None
     | SL_LIMIT \<Rightarrow> if triggered s ltp (or_else (vo_trigger o') 0)
         then Some (if s = BUY then min adj (vo_price o') else max adj (vo_price o')) else None
     | MARKET \<Rightarrow> None)"

text \<open>The order is marked filled, then its position leg goes through the normal path as a new market order
  whose own outcome is not looked at.\<close>

definition fill_pending :: "paper_env \<Rightarrow> rat \<Rightarrow> string \<Rightarrow> shard \<times> string list \<Rightarrow> shard \<times> string list" where
  "fill_pending env ltp oid st = (case st of (sh, done) \<Rightarrow> (case find_order sh oid of
     None \<Rightarrow> (sh, done)
   | Some o' \<Rightarrow> if vo_status o' \<noteq> PENDING then (sh, done) else (case pending_fill ltp o' of
       None \<Rightarrow> (sh, done)
     | Some px \<Rightarrow> (let fill = round2 px;
           f = o'\<lparr>vo_status := FILLED, vo_fill := Some fill, vo_source := Some FromLimit,
                  vo_costs := Some (estimate_costs (vo_side o') fill (vo_qty o'))\<rparr>;
           sh1 = sh\<lparr>sh_orders := update_first oid f (sh_orders sh)\<rparr>;
           p = \<lparr>pl_symbol = vo_symbol o', pl_underlying = vo_underlying o', pl_side = vo_side o', pl_type = MARKET,
                pl_product = vo_product o', pl_qty = vo_qty o', pl_price = fill, pl_trigger = None, pl_cid = None\<rparr>
         in (fst (place_order_locked env p True (Some (fill, FromLimit)) sh1), done @ [oid])))))"

definition evaluate_pending_orders :: "(string \<Rightarrow> paper_env) \<Rightarrow> string \<Rightarrow> rat \<Rightarrow> shard \<Rightarrow> shard \<times> string list" where
  "evaluate_pending_orders env symbol ltp sh =
     (if ltp \<le> 0 then (sh, [])
      else fold (\<lambda>oid. fill_pending (env oid) ltp oid)
             (map vo_id (filter (\<lambda>o'. vo_status o' = PENDING \<and> vo_symbol o' = symbol) (sh_orders sh))) (sh, []))"

subsection \<open>All users\<close>

type_synonym paper_book = "(string option, shard) dict"

definition shard_of :: "paper_book \<Rightarrow> string option \<Rightarrow> shard" where
  "shard_of b u = or_else (map_of b u) shard_init"

definition on_shard :: "string option \<Rightarrow> (shard \<Rightarrow> shard \<times> 'a) \<Rightarrow> paper_book \<Rightarrow> paper_book \<times> 'a" where
  "on_shard u f b = (case f (shard_of b u) of (s, x) \<Rightarrow> (AList.update u s b, x))"

subsection \<open>The book and the log agree\<close>

definition position_ok :: "string \<Rightarrow> vposition \<Rightarrow> bool" where
  "position_ok pid q \<longleftrightarrow> pid = position_id (vp_symbol q) (vp_product q) \<and> (if vp_open q then 0 < vp_qty q else vp_qty q = 0)"

definition shard_ok :: "shard \<Rightarrow> bool" where
  "shard_ok sh \<longleftrightarrow> (\<forall>pid q. map_of (sh_positions sh) pid = Some q \<longrightarrow> position_ok pid q)"

definition signed_qty :: "vposition \<Rightarrow> int" where
  "signed_qty q = mult_of (vp_side q) * vp_qty q"

definition net_position :: "shard \<Rightarrow> string \<Rightarrow> int" where
  "net_position sh pid = (case open_position sh pid of None \<Rightarrow> 0 | Some q \<Rightarrow> signed_qty q)"

definition filled_qty :: "shard \<Rightarrow> string \<Rightarrow> int" where
  "filled_qty sh pid = sum_list (map (\<lambda>x. if vo_status x = FILLED \<and> position_id (vo_symbol x) (vo_product x) = pid
     then mult_of (vo_side x) * vo_qty x else 0) (sh_orders sh))"

lemma open_position_update:
  "open_position (sh\<lparr>sh_positions := AList.update pid q (sh_positions sh)\<rparr>) pid' =
     (if pid' = pid then if vp_open q then Some q else None else open_position sh pid')"
  by (simp add: open_position_def dict_simps)

lemma open_position_cong: "sh_positions sh = sh_positions sh' \<Longrightarrow> open_position sh = open_position sh'"
  by (auto simp: open_position_def)

lemma open_position_fields [simp]:
  "open_position (sh\<lparr>sh_realized := r\<rparr>) = open_position sh" "open_position (sh\<lparr>sh_orders := os\<rparr>) = open_position sh"
  "open_position (sh\<lparr>sh_idem := m\<rparr>) = open_position sh" "open_position (sh\<lparr>sh_capital := c\<rparr>) = open_position sh"
  by (auto simp: open_position_def)

lemma open_position_SomeD: "open_position sh pid = Some q \<Longrightarrow> map_of (sh_positions sh) pid = Some q \<and> vp_open q"
  by (auto simp: open_position_def split: option.splits if_splits)

lemma shard_ok_open:
  assumes "shard_ok sh" "open_position sh pid = Some q"
  shows "pid = position_id (vp_symbol q) (vp_product q)" "0 < vp_qty q" "vp_open q"
  using assms open_position_SomeD [OF assms(2)] by (auto simp: shard_ok_def position_ok_def)

lemma shard_ok_update:
  "shard_ok sh \<Longrightarrow> position_ok pid q \<Longrightarrow> shard_ok (sh\<lparr>sh_positions := AList.update pid q (sh_positions sh)\<rparr>)"
  by (auto simp: shard_ok_def dict_simps)

lemma shard_ok_fields [simp]:
  "shard_ok (sh\<lparr>sh_realized := r\<rparr>) = shard_ok sh" "shard_ok (sh\<lparr>sh_orders := os\<rparr>) = shard_ok sh"
  "shard_ok (sh\<lparr>sh_idem := m\<rparr>) = shard_ok sh" "shard_ok (sh\<lparr>sh_capital := c\<rparr>) = shard_ok sh"
  by (simp_all add: shard_ok_def)

lemma new_position_facts:
  "vp_open (new_position p f q m)" "signed_qty (new_position p f q m) = mult_of (pl_side p) * q"
  "0 < q \<Longrightarrow> position_ok (payload_pid p) (new_position p f q m)"
  by (simp_all add: new_position_def signed_qty_def position_ok_def payload_pid_def)

lemma add_to_position_facts:
  "vp_open (add_to_position p f r e) = vp_open e" "vp_side (add_to_position p f r e) = vp_side e"
  "vp_qty (add_to_position p f r e) = vp_qty e + pl_qty p"
  "vp_symbol (add_to_position p f r e) = vp_symbol e" "vp_product (add_to_position p f r e) = vp_product e"
  by (simp_all add: add_to_position_def Let_def)

lemma other_side: "s \<noteq> t \<Longrightarrow> mult_of s = - mult_of t"
  by (cases s; cases t) (simp_all add: mult_of_def)

lemma reduce_position_facts:
  assumes "vp_open e" "0 < pl_qty p" "0 < vp_qty e" "vp_side e \<noteq> pl_side p"
    "payload_pid p = position_id (vp_symbol e) (vp_product e)"
  shows "(if vp_open (reduce_position p f e) then signed_qty (reduce_position p f e) else 0)
      = signed_qty e + mult_of (pl_side p) * pl_qty p"
    and "position_ok (payload_pid p) (reduce_position p f e)"
proof -
  consider "pl_qty p < vp_qty e" | "pl_qty p = vp_qty e" | "vp_qty e < pl_qty p" by linarith
  then have "(if vp_open (reduce_position p f e) then signed_qty (reduce_position p f e) else 0)
      = signed_qty e + mult_of (pl_side p) * pl_qty p \<and> position_ok (payload_pid p) (reduce_position p f e)"
  proof cases
    case 1
    then have r: "vp_open (reduce_position p f e)" "vp_qty (reduce_position p f e) = vp_qty e - pl_qty p"
      "vp_side (reduce_position p f e) = vp_side e" "vp_symbol (reduce_position p f e) = vp_symbol e"
      "vp_product (reduce_position p f e) = vp_product e"
      using assms(1) by (simp_all add: reduce_position_def Let_def)
    show ?thesis using 1 assms other_side [OF assms(4)] by (simp add: signed_qty_def position_ok_def r right_diff_distrib)
  next
    case 2
    then have r: "\<not> vp_open (reduce_position p f e)" "vp_qty (reduce_position p f e) = 0"
      "vp_symbol (reduce_position p f e) = vp_symbol e" "vp_product (reduce_position p f e) = vp_product e"
      by (simp_all add: reduce_position_def Let_def)
    then show ?thesis using 2 assms other_side [OF assms(4)] by (simp add: signed_qty_def position_ok_def)
  next
    case 3
    then have r: "reduce_position p f e = new_position p f (pl_qty p - vp_qty e) (required_margin p f (pl_qty p - vp_qty e))"
      by (simp add: reduce_position_def Let_def)
    show ?thesis using 3 other_side [OF assms(4)] new_position_facts
      by (simp add: r) (simp add: signed_qty_def algebra_simps)
  qed
  then show "(if vp_open (reduce_position p f e) then signed_qty (reduce_position p f e) else 0)
      = signed_qty e + mult_of (pl_side p) * pl_qty p"
    and "position_ok (payload_pid p) (reduce_position p f e)" by blast+
qed

lemma book_fill_facts:
  assumes "shard_ok sh" "0 < pl_qty p"
  shows "net_position (book_fill p f sh) pid = net_position sh pid + (if pid = payload_pid p then mult_of (pl_side p) * pl_qty p else 0)"
    and "shard_ok (book_fill p f sh)"
    and "sh_orders (book_fill p f sh) = sh_orders sh"
proof -
  let ?P = "net_position (book_fill p f sh) pid = net_position sh pid + (if pid = payload_pid p then mult_of (pl_side p) * pl_qty p else 0)
    \<and> shard_ok (book_fill p f sh) \<and> sh_orders (book_fill p f sh) = sh_orders sh"
  have ?P
  proof (cases "open_position sh (payload_pid p)")
    case None
    then show ?thesis
      using assms new_position_facts
      by (simp add: book_fill_def Let_def shard_ok_update net_position_def open_position_update)
  next
    case (Some e)
    note e = shard_ok_open [OF assms(1) Some]
    show ?thesis
    proof (cases "vp_side e = pl_side p")
      case True
      have "position_ok (payload_pid p) (add_to_position p f (required_margin p f (pl_qty p)) e)"
        using e assms(2) by (simp add: position_ok_def add_to_position_facts)
      then show ?thesis
        using Some True e assms(1)
        by (simp add: book_fill_def Let_def shard_ok_update net_position_def open_position_update add_to_position_facts
            signed_qty_def algebra_simps)
    next
      case False
      have r: "(if vp_open (reduce_position p f e) then signed_qty (reduce_position p f e) else 0)
          = signed_qty e + mult_of (pl_side p) * pl_qty p" "position_ok (payload_pid p) (reduce_position p f e)"
        using reduce_position_facts [of e p f] e assms(2) False by blast+
      have b: "book_fill p f sh = (sh\<lparr>sh_positions := AList.update (payload_pid p) (reduce_position p f e) (sh_positions sh)\<rparr>)
          \<lparr>sh_realized := frnd (sh_realized sh + round2 (trade_realized p f e))\<rparr>"
        using Some False by (simp add: book_fill_def Let_def)
      show ?thesis
        unfolding b using Some r assms(1)
        by (auto simp: shard_ok_update net_position_def open_position_update split: option.split)
    qed
  qed
  then show "net_position (book_fill p f sh) pid = net_position sh pid + (if pid = payload_pid p then mult_of (pl_side p) * pl_qty p else 0)"
    and "shard_ok (book_fill p f sh)" and "sh_orders (book_fill p f sh) = sh_orders sh" by blast+
qed

lemma net_position_fields [simp]:
  "net_position (sh\<lparr>sh_realized := r\<rparr>) = net_position sh" "net_position (sh\<lparr>sh_orders := os\<rparr>) = net_position sh"
  "net_position (sh\<lparr>sh_idem := m\<rparr>) = net_position sh" "net_position (sh\<lparr>sh_capital := c\<rparr>) = net_position sh"
  by (simp_all add: net_position_def fun_eq_iff)

lemma filled_qty_fields [simp]:
  "filled_qty (sh\<lparr>sh_realized := r\<rparr>) = filled_qty sh" "filled_qty (sh\<lparr>sh_positions := ps\<rparr>) = filled_qty sh"
  "filled_qty (sh\<lparr>sh_idem := m\<rparr>) = filled_qty sh" "filled_qty (sh\<lparr>sh_capital := c\<rparr>) = filled_qty sh"
  by (simp_all add: filled_qty_def fun_eq_iff)

text \<open>The order a call logs, if any, and what it means for the book.\<close>

definition order_effect :: "vorder \<Rightarrow> string \<Rightarrow> int" where
  "order_effect x pid = (if vo_status x = FILLED \<and> position_id (vo_symbol x) (vo_product x) = pid
     then mult_of (vo_side x) * vo_qty x else 0)"

lemma log_order_facts [simp]:
  "filled_qty (log_order x sh) pid = order_effect x pid + filled_qty sh pid"
  "net_position (log_order x sh) = net_position sh" "shard_ok (log_order x sh) = shard_ok sh"
  by (simp_all add: log_order_def filled_qty_def order_effect_def net_position_def fun_eq_iff)

lemma remember_order_facts [simp]:
  "filled_qty (remember_order p x sh) = filled_qty sh" "net_position (remember_order p x sh) = net_position sh"
  "shard_ok (remember_order p x sh) = shard_ok sh" "sh_orders (remember_order p x sh) = sh_orders sh"
  by (simp_all add: remember_order_def split: option.split)

definition marked_qty :: "vorder list \<Rightarrow> string \<Rightarrow> int" where
  "marked_qty ms pid = sum_list (map (\<lambda>x. if position_id (vo_symbol x) (vo_product x) = pid then mult_of (vo_side x) * vo_qty x else 0) ms)"

text \<open>The book and the log differ by the resting orders that ticks marked filled: such an order counts once in
  the log, and its market leg, when the gate lets it through, counts once more.\<close>

definition balanced :: "vorder list \<Rightarrow> shard \<Rightarrow> bool" where
  "balanced ms sh \<longleftrightarrow> shard_ok sh \<and> (\<forall>pid. net_position sh pid + marked_qty ms pid = filled_qty sh pid)"

lemma reject_order_balanced: "balanced ms sh \<Longrightarrow> balanced ms (fst (reject_order env p r sh))"
  by (simp add: balanced_def reject_order_def Let_def order_effect_def make_order_def)

lemma fill_order_balanced:
  assumes "balanced ms sh" "0 < pl_qty p" shows "balanced ms (fst (fill_order env p px src sh))"
proof -
  have "balanced ms (remember_order p o' (log_order o' (book_fill p f sh)))"
    if "vo_status o' = FILLED" "position_id (vo_symbol o') (vo_product o') = payload_pid p" "vo_side o' = pl_side p" "vo_qty o' = pl_qty p"
    for o' f
  proof -
    have "shard_ok sh" using assms(1) by (simp add: balanced_def)
    note b = book_fill_facts [OF this assms(2), of f]
    have "filled_qty (book_fill p f sh) = filled_qty sh" using b(3) by (simp add: filled_qty_def fun_eq_iff)
    then show ?thesis using assms that b by (auto simp: balanced_def order_effect_def)
  qed
  then show ?thesis
    by (simp add: fill_order_def Let_def reject_order_balanced assms(1) make_order_def payload_pid_def)
qed

lemma risk_gate_qty: "risk_gate env p a sh = None \<Longrightarrow> 0 < pl_qty p"
  by (auto simp: risk_gate_def Let_def split: if_splits)

lemma place_order_locked_balanced:
  assumes "balanced ms sh" shows "balanced ms (fst (place_order_locked env p a forced sh))"
proof -
  have "balanced ms (fst (fill_order env p px src sh))" if "risk_gate env p a sh = None" for px src
    using fill_order_balanced [OF assms risk_gate_qty [OF that]] .
  moreover have "balanced ms (remember_order p (make_order env p PENDING) (log_order (make_order env p PENDING) sh))"
    using assms by (simp add: balanced_def order_effect_def make_order_def)
  ultimately show ?thesis
    using assms reject_order_balanced [OF assms]
    by (simp add: place_order_locked_def Let_def split: option.split fill_result.split)
qed

lemma mark_balanced:
  assumes "balanced ms sh" "open_position sh pid = Some e"
  shows "balanced ms (sh\<lparr>sh_positions := AList.update pid (mark l e) (sh_positions sh)\<rparr>)"
proof -
  have m: "vp_open (mark l e) = vp_open e" "signed_qty (mark l e) = signed_qty e" "position_ok pid (mark l e) = position_ok pid e"
    by (simp_all add: mark_def Let_def signed_qty_def position_ok_def)
  have "shard_ok sh" using assms(1) by (simp add: balanced_def)
  note e = shard_ok_open [OF this assms(2)]
  have "net_position (sh\<lparr>sh_positions := AList.update pid (mark l e) (sh_positions sh)\<rparr>) = net_position sh"
    using assms(2) m e(3) by (auto simp: net_position_def open_position_update fun_eq_iff)
  moreover have "position_ok pid e" using e by (simp add: position_ok_def)
  ultimately show ?thesis using assms(1) m by (simp add: balanced_def shard_ok_update)
qed

lemma update_same: "map_of d k = Some v \<Longrightarrow> AList.update k v d = d"
  by (induction d) (auto split: if_splits)

lemma square_off_balanced:
  assumes "balanced ms sh" shows "balanced ms (fst (square_off env pid a sh))"
proof (cases "open_position sh pid")
  case None
  then show ?thesis using assms by (simp add: square_off_def)
next
  case (Some e0)
  define e where "e = (case positive_quote (pe_live env) of Some l \<Rightarrow> mark l e0 | None \<Rightarrow> e0)"
  define sh1 where "sh1 = sh\<lparr>sh_positions := AList.update pid e (sh_positions sh)\<rparr>"
  have "balanced ms sh1"
    using mark_balanced [OF assms Some] update_same [of "sh_positions sh" pid e0] open_position_SomeD [OF Some] assms
    by (auto simp: sh1_def e_def split: option.split)
  then show ?thesis
    using assms Some place_order_locked_balanced
    by (auto simp: square_off_def Let_def e_def [symmetric] sh1_def [symmetric])
qed

lemma cancel_balanced:
  assumes "balanced ms sh" shows "balanced ms (fst (cancel_order oid sh))"
proof -
  have "sum_list (map (\<lambda>x. order_effect x pid) (update_first oid c xs)) = sum_list (map (\<lambda>x. order_effect x pid) xs)"
    if "find (\<lambda>x. vo_id x = oid) xs = Some y" "vo_status y = PENDING" "vo_status c = CANCELLED" for xs y c pid
    using that by (induction xs) (auto simp: order_effect_def split: if_splits)
  then have "filled_qty (sh\<lparr>sh_orders := update_first oid (y\<lparr>vo_status := CANCELLED\<rparr>) (sh_orders sh)\<rparr>) pid = filled_qty sh pid"
    if "find_order sh oid = Some y" "vo_status y = PENDING" for y pid
    using that by (simp add: filled_qty_def find_order_def order_effect_def [symmetric])
  then show ?thesis
    using assms by (auto simp: cancel_order_def Let_def balanced_def split: option.split)
qed

lemma refresh_mtm_balanced: "balanced ms sh \<Longrightarrow> balanced ms (refresh_mtm quotes sh)"
proof (induction quotes arbitrary: sh)
  case (Cons x xs)
  then show ?case
    using mark_balanced [OF Cons.prems]
    by (cases x) (auto simp: refresh_mtm_def split: option.split)
qed (simp add: refresh_mtm_def)

lemma reset_balanced: "balanced [] (reset_portfolio c sh)"
  by (simp add: reset_portfolio_def balanced_def shard_ok_def net_position_def open_position_def filled_qty_def marked_qty_def)

lemma update_first_filled:
  assumes "find (\<lambda>x. vo_id x = oid) xs = Some y" "vo_status y = PENDING"
  shows "sum_list (map (\<lambda>x. order_effect x pid) (update_first oid c xs))
    = order_effect c pid + sum_list (map (\<lambda>x. order_effect x pid) xs)"
  using assms by (induction xs) (auto simp: order_effect_def split: if_splits)

text \<open>The resting order that one candidate of a tick marks filled, if any.\<close>

definition marked_order :: "rat \<Rightarrow> string \<Rightarrow> shard \<Rightarrow> vorder option" where
  "marked_order ltp oid sh = (case find_order sh oid of None \<Rightarrow> None
     | Some o' \<Rightarrow> if vo_status o' = PENDING \<and> pending_fill ltp o' \<noteq> None then Some o' else None)"

lemma mark_filled_balanced:
  assumes "balanced ms sh" "find_order sh oid = Some y" "vo_status y = PENDING" "vo_status f = FILLED"
    and "vo_symbol f = vo_symbol y" "vo_product f = vo_product y" "vo_side f = vo_side y" "vo_qty f = vo_qty y"
  shows "balanced (y # ms) (sh\<lparr>sh_orders := update_first oid f (sh_orders sh)\<rparr>)"
proof -
  have "filled_qty (sh\<lparr>sh_orders := update_first oid f (sh_orders sh)\<rparr>) pid = order_effect f pid + filled_qty sh pid" for pid
    using update_first_filled [of oid "sh_orders sh" y pid f] assms(2,3)
    by (simp add: find_order_def filled_qty_def order_effect_def [symmetric])
  then show ?thesis using assms by (auto simp: balanced_def marked_qty_def order_effect_def)
qed

lemma fill_pending_balanced:
  assumes "balanced ms sh"
  shows "balanced (case marked_order ltp oid sh of None \<Rightarrow> ms | Some x \<Rightarrow> x # ms) (fst (fill_pending env ltp oid (sh, acc)))"
proof (cases "marked_order ltp oid sh")
  case None
  then show ?thesis using assms by (auto simp: marked_order_def fill_pending_def split: option.splits if_splits)
next
  case (Some y)
  then obtain px where y: "find_order sh oid = Some y" "vo_status y = PENDING" "pending_fill ltp y = Some px"
    by (auto simp: marked_order_def split: option.splits if_splits)
  show ?thesis
    using y Some mark_filled_balanced [OF assms y(1,2)] place_order_locked_balanced
    by (simp add: fill_pending_def Let_def)
qed

text \<open>The operations on the book, with the resting orders that ticks marked filled since the last reset. A tick
  releases the lock between its candidates, so each candidate is a step of its own.\<close>

inductive paper_step :: "shard \<times> vorder list \<Rightarrow> shard \<times> vorder list \<Rightarrow> bool" where
  pstep_place: "paper_step (sh, ms) (fst (place_order env p a sh), ms)"
| pstep_cancel: "paper_step (sh, ms) (fst (cancel_order oid sh), ms)"
| pstep_square_off: "paper_step (sh, ms) (fst (square_off env pid a sh), ms)"
| pstep_tick: "paper_step (sh, ms) (fst (fill_pending env ltp oid (sh, acc)),
    case marked_order ltp oid sh of None \<Rightarrow> ms | Some x \<Rightarrow> x # ms)"
| pstep_refresh: "paper_step (sh, ms) (refresh_mtm quotes sh, ms)"
| pstep_capital: "set_initial_capital c sh = Inr sh' \<Longrightarrow> paper_step (sh, ms) (sh', ms)"
| pstep_reset: "paper_step (sh, ms) (reset_portfolio c sh, [])"

lemma paper_step_balanced: "paper_step st st' \<Longrightarrow> balanced (snd st) (fst st) \<Longrightarrow> balanced (snd st') (fst st')"
proof (induction rule: paper_step.induct)
  case (pstep_place sh ms env p a)
  then show ?case by (simp add: place_order_def place_order_locked_balanced)
next
  case (pstep_capital c sh sh' ms)
  then show ?case by (auto simp: set_initial_capital_def balanced_def split: if_splits)
qed (simp_all add: cancel_balanced square_off_balanced fill_pending_balanced refresh_mtm_balanced reset_balanced)

text \<open>A whole tick is a run of such steps, and reports one id for each order it marked.\<close>

lemma fill_pending_done:
  "fill_pending env ltp oid (sh, acc) = (fst (fill_pending env ltp oid (sh, acc)),
    case marked_order ltp oid sh of None \<Rightarrow> acc | Some x \<Rightarrow> acc @ [oid])"
  by (simp add: fill_pending_def marked_order_def Let_def split: option.split)

lemma marked_order_id: "marked_order ltp oid sh = Some x \<Longrightarrow> vo_id x = oid"
  by (auto simp: marked_order_def find_order_def find_Some_iff split: option.splits if_splits)

lemma fill_pending_run:
  "\<exists>ms'. paper_step\<^sup>*\<^sup>* (sh, ms) (fst (fold (\<lambda>oid. fill_pending (env oid) ltp oid) oids (sh, acc)), ms' @ ms)
     \<and> snd (fold (\<lambda>oid. fill_pending (env oid) ltp oid) oids (sh, acc)) = acc @ rev (map vo_id ms')"
proof (induction oids arbitrary: sh ms acc)
  case Nil
  show ?case by (intro exI [of _ "[]"]) simp
next
  case (Cons oid oids)
  define sh1 where "sh1 = fst (fill_pending (env oid) ltp oid (sh, acc))"
  define one where "one = (case marked_order ltp oid sh of None \<Rightarrow> [] | Some x \<Rightarrow> [x])"
  have st: "paper_step (sh, ms) (sh1, one @ ms)"
    using pstep_tick [of sh ms "env oid" ltp oid acc] by (simp add: sh1_def one_def split: option.splits)
  have f: "fill_pending (env oid) ltp oid (sh, acc) = (sh1, acc @ map vo_id one)"
    using fill_pending_done [of "env oid" ltp oid sh acc] marked_order_id [of ltp oid sh]
    by (auto simp: sh1_def one_def split: option.splits)
  obtain ms' where r: "paper_step\<^sup>*\<^sup>* (sh1, one @ ms) (fst (fold (\<lambda>oid. fill_pending (env oid) ltp oid) oids (sh1, acc @ map vo_id one)), ms' @ one @ ms)"
    "snd (fold (\<lambda>oid. fill_pending (env oid) ltp oid) oids (sh1, acc @ map vo_id one)) = (acc @ map vo_id one) @ rev (map vo_id ms')"
    using Cons.IH [of sh1 "one @ ms" "acc @ map vo_id one"] by blast
  have "rev (map vo_id one) = map vo_id one" by (simp add: one_def split: option.split)
  then show ?case
    using converse_rtranclp_into_rtranclp [OF st r(1)] r(2) f
    by (intro exI [of _ "ms' @ one"]) simp
qed

lemma tick_is_run:
  "\<exists>ms'. paper_step\<^sup>*\<^sup>* (sh, ms) (fst (evaluate_pending_orders env symbol ltp sh), ms' @ ms)
     \<and> snd (evaluate_pending_orders env symbol ltp sh) = rev (map vo_id ms')"
proof (cases "ltp \<le> 0")
  case True
  then show ?thesis by (intro exI [of _ "[]"]) (simp add: evaluate_pending_orders_def)
next
  case False
  then show ?thesis
    using fill_pending_run [of sh ms env ltp "map vo_id (filter (\<lambda>o'. vo_status o' = PENDING \<and> vo_symbol o' = symbol) (sh_orders sh))" "[]"]
    by (simp add: evaluate_pending_orders_def)
qed

lemma paper_run_balanced: "paper_step\<^sup>*\<^sup>* (shard_init, []) st \<Longrightarrow> balanced (snd st) (fst st)"
proof (induction rule: rtranclp_induct)
  case base
  show ?case
    by (simp add: shard_init_def balanced_def shard_ok_def net_position_def open_position_def filled_qty_def marked_qty_def)
next
  case (step y z)
  then show ?case using paper_step_balanced by blast
qed

text \<open>C2. The book is the log, but for the resting orders: whatever sequence of orders (also flips and partial
  closes), cancellations, square-offs, quote ticks over resting orders, refreshes, capital changes and
  resets runs over an empty book, in any interleaving, the signed open quantity of every position is the
  sum of the signed quantities of its filled orders, less the resting orders that ticks marked filled (a
  resting order is logged as filled twice, once itself and once as its market leg), and open positions
  have positive quantities. Loading a stored book from the database is not among the operations.\<close>

theorem book_matches_log:
  assumes "paper_step\<^sup>*\<^sup>* (shard_init, []) (sh, ms)"
  shows "net_position sh pid = filled_qty sh pid - marked_qty ms pid
    \<and> (case open_position sh pid of None \<Rightarrow> True | Some q \<Rightarrow> 0 < vp_qty q)"
proof -
  have "balanced ms sh" using paper_run_balanced [OF assms] by simp
  then show ?thesis using shard_ok_open(2) by (auto simp: balanced_def eq_diff_eq split: option.split)
qed

definition demo_paper_env :: paper_env where
  "demo_paper_env = \<lparr>pe_order_id = ''O1'', pe_can_trade = True, pe_live = Some 1000, pe_live_again = Some 1000,
     pe_max_order_qty = 100000, pe_max_positions = 100\<rparr>"

definition demo_payload :: payload where
  "demo_payload = \<lparr>pl_symbol = ''GOLD'', pl_underlying = ''GOLD'', pl_side = BUY, pl_type = MARKET, pl_product = INTRADAY,
     pl_qty = 75, pl_price = 0, pl_trigger = None, pl_cid = Some ''c1''\<rparr>"

lemma demo_friction: "apply_friction 1000 BUY = 2003 / 2"
  by code_simp

lemma demo_margin: "required_margin demo_payload f 75 = 125000"
proof -
  have u: "drop_50 (map to_upper ''GOLD'') = ''GOLD''" "\<not> is_option_symbol ''GOLD''"
    "lot_of ''GOLD'' = 75" "base_per_lot ''GOLD'' = 125000" "round2 125000 = 125000" by code_simp+
  then show ?thesis
    by (simp add: required_margin_def demo_payload_def calculate_required_margin_def instrument_of_def)
qed

lemma demo_available: "available_margin shard_init = 1000000"
proof -
  have "round2 1000000 = 1000000" "round2 0 = 0" by code_simp+
  then show ?thesis by (simp add: available_margin_def summary_from_snapshot_def shard_init_def Let_def)
qed

lemma demo_gate: "risk_gate demo_paper_env demo_payload True shard_init = None"
proof -
  have "frnd (- (1000000 / 4)) \<le> 0" by (rule flt.rnd_nonpos) simp
  then show ?thesis
    by (simp add: risk_gate_def demo_paper_env_def demo_payload_def shard_init_def open_position_def open_count_def
        DAILY_LOSS_BRAKE_PCT_def Let_def)
qed

definition demo_book :: shard where
  "demo_book = fst (place_order demo_paper_env demo_payload True shard_init)"

lemma demo_book_eq: "demo_book = remember_order demo_payload (snd (place_order demo_paper_env demo_payload True shard_init))
    (log_order (snd (place_order demo_paper_env demo_payload True shard_init)) (book_fill demo_payload (round2 (2003 / 2)) shard_init))
   \<and> vo_status (snd (place_order demo_paper_env demo_payload True shard_init)) = FILLED"
proof -
  have "resolve_fill demo_paper_env demo_payload None = FillAt (2003 / 2) FromLive"
    by (simp add: resolve_fill_def demo_paper_env_def demo_payload_def positive_quote_def demo_friction)
  moreover have "replayed demo_payload shard_init = None"
    by (simp add: replayed_def demo_payload_def cid_of_def shard_init_def)
  moreover have "\<not> fat_finger demo_paper_env demo_payload FromLive" by (simp add: fat_finger_def)
  moreover have "\<not> available_margin shard_init < required_margin demo_payload (round2 (2003 / 2)) (pl_qty demo_payload)"
    by (simp add: demo_available) (simp add: demo_margin [unfolded demo_payload_def] demo_payload_def)
  ultimately show ?thesis
    by (simp add: demo_book_def place_order_def place_order_locked_def demo_gate fill_order_def Let_def make_order_def)
qed

lemma demo_reach: "paper_step\<^sup>*\<^sup>* (shard_init, []) (demo_book, [])"
  unfolding demo_book_def by (rule r_into_rtranclp) (rule pstep_place)

lemma demo_open: "net_position demo_book (payload_pid demo_payload) = 75"
proof -
  have "shard_ok shard_init" "net_position shard_init pid = 0" for pid
    by (simp_all add: shard_ok_def shard_init_def net_position_def open_position_def)
  moreover have "pl_qty demo_payload = 75" "mult_of (pl_side demo_payload) = 1"
    by (simp_all add: demo_payload_def mult_of_def)
  moreover have "net_position demo_book = net_position (book_fill demo_payload (round2 (2003 / 2)) shard_init)"
    by (subst conjunct1 [OF demo_book_eq]) simp
  ultimately show ?thesis
    using book_fill_facts(1) [of shard_init demo_payload "round2 (2003 / 2)" "payload_pid demo_payload"] by simp
qed

theorem book_matches_log_witness:
  "filled_qty demo_book (payload_pid demo_payload) = 75"
  using book_matches_log [OF demo_reach, of "payload_pid demo_payload"] demo_open by (simp add: marked_qty_def)

subsection \<open>When an order fills\<close>

text \<open>An order that is not a replay fills exactly when the risk gate lets it through, the market gives a
  positive price, the limit is within the fat-finger band of the quote, and the margin it needs is
  available. Margin is asked for except when a position of the other side is open, so an order that
  closes a position and opens a larger one the other way is never checked against the capital.\<close>

theorem order_fills_iff:
  assumes "replayed p sh = None"
  shows "vo_status (snd (place_order env p allow sh)) = FILLED \<longleftrightarrow> risk_gate env p allow sh = None
    \<and> (\<exists>px src. resolve_fill env p None = FillAt px src \<and> 0 < px \<and> \<not> fat_finger env p src
         \<and> (needs_margin p sh \<longrightarrow> required_margin p (round2 px) (pl_qty p) \<le> available_margin sh))"
  using assms
  by (auto simp: place_order_def place_order_locked_def reject_order_def fill_order_def make_order_def Let_def not_less
      split: option.split fill_result.split)

theorem order_fills_iff_witness:
  "vo_status (snd (place_order demo_paper_env demo_payload True shard_init)) = FILLED"
proof -
  have "replayed demo_payload shard_init = None"
    by (simp add: replayed_def demo_payload_def cid_of_def shard_init_def)
  moreover have "resolve_fill demo_paper_env demo_payload None = FillAt (2003 / 2) FromLive"
    by (simp add: resolve_fill_def demo_paper_env_def demo_payload_def positive_quote_def demo_friction)
  moreover have "required_margin demo_payload (round2 (2003 / 2)) (pl_qty demo_payload) \<le> available_margin shard_init"
    by (simp add: demo_available) (simp add: demo_margin [unfolded demo_payload_def] demo_payload_def)
  ultimately show ?thesis
    using order_fills_iff [of demo_payload shard_init demo_paper_env True] demo_gate by (auto simp: fat_finger_def)
qed

text \<open>A client order id is answered once: after an order with that id was filled or rested, any later
  order with the same id, whatever it asks for, returns the first one and changes nothing.\<close>

theorem client_order_id_answered_once:
  assumes "place_order env p allow sh = (sh1, o1)" "vo_status o1 \<noteq> REJECTED"
    and "cid_of p = Some c" "cid_of p' = Some c"
  shows "place_order env' p' allow' sh1 = (sh1, o1)"
proof -
  have "replayed p' sh1 = Some o1"
  proof (cases "replayed p sh")
    case (Some o2)
    then show ?thesis using assms by (auto simp: place_order_def place_order_locked_def replayed_def split: option.splits)
  next
    case None
    have r: "replayed p' (remember_order p x (log_order x s)) = Some x" for x s
      using assms(3,4) by (simp add: replayed_def remember_order_def find_order_def log_order_def dict_simps)
    show ?thesis
      using assms(1,2) None r
      by (auto simp: place_order_def place_order_locked_def reject_order_def fill_order_def make_order_def Let_def
          split: option.splits fill_result.splits if_splits)
  qed
  then show ?thesis by (simp add: place_order_def place_order_locked_def)
qed

theorem client_order_id_answered_once_witness:
  "fst (place_order demo_paper_env (demo_payload\<lparr>pl_qty := 150\<rparr>) True demo_book) = demo_book"
proof -
  obtain o1 where o: "place_order demo_paper_env demo_payload True shard_init = (demo_book, o1)"
    by (metis demo_book_def prod.collapse)
  have "vo_status o1 \<noteq> REJECTED" using demo_book_eq o by simp
  moreover have "cid_of demo_payload = Some ''c1''" "cid_of (demo_payload\<lparr>pl_qty := 150\<rparr>) = Some ''c1''"
    by (simp_all add: cid_of_def demo_payload_def)
  ultimately show ?thesis using client_order_id_answered_once [OF o] by (metis fst_conv)
qed

subsection \<open>Square-off and resting orders\<close>

lemma resolve_forced: "resolve_fill env p (Some (px, src)) = FillAt px src"
  by (simp add: resolve_fill_def)

text \<open>Squaring off a position of a live market with a positive exit price closes it exactly when its
  quantity is within the single-order limit. A larger one, which the per-symbol limit allows, is
  returned to the caller still open.\<close>

theorem square_off_closes_iff:
  assumes "shard_ok sh" "open_position sh pid = Some e" "pe_live env = Some l" "0 < l"
    and "0 < apply_friction l (opposite (vp_side e))" "allow \<or> pe_can_trade env"
  shows "\<exists>q. snd (square_off env pid allow sh) = Inr q \<and> vp_open q = (pe_max_order_qty env < vp_qty e)"
proof -
  note ok = shard_ok_open [OF assms(1,2)]
  define m where "m = mark l e"
  define sh1 where "sh1 = sh\<lparr>sh_positions := AList.update pid m (sh_positions sh)\<rparr>"
  define p where "p = \<lparr>pl_symbol = vp_symbol m, pl_underlying = vp_underlying m, pl_side = opposite (vp_side m), pl_type = MARKET,
    pl_product = vp_product m, pl_qty = vp_qty m, pl_price = 0, pl_trigger = None, pl_cid = None\<rparr>"
  define px where "px = apply_friction l (opposite (vp_side m))"
  have m: "vp_symbol m = vp_symbol e" "vp_product m = vp_product e" "vp_qty m = vp_qty e" "vp_side m = vp_side e" "vp_open m"
    using ok(3) by (simp_all add: m_def mark_def Let_def)
  have o1: "open_position sh1 pid = Some m" using m by (simp add: sh1_def open_position_update)
  have pid: "payload_pid p = pid" using ok(1) m by (simp add: p_def payload_pid_def)
  have side: "vp_side m \<noteq> pl_side p" by (simp add: p_def opposite_def split: order_side.split)
  have rep: "replayed p sh1 = None" by (simp add: replayed_def p_def cid_of_def)
  have gate: "risk_gate env p True sh1 = (if pe_max_order_qty env < vp_qty e then Some ORDER_TOO_LARGE else None)"
    using o1 pid side ok(2) m by (simp add: risk_gate_def Let_def) (simp add: p_def)
  have s: "square_off env pid allow sh = (fst (place_order_locked env p True (Some (px, FromLive)) sh1),
      case map_of (sh_positions (fst (place_order_locked env p True (Some (px, FromLive)) sh1))) pid of Some q \<Rightarrow> Inr q | None \<Rightarrow> Inl KeyError)"
  proof -
    have "positive_quote (pe_live env) = Some l" using assms(3,4) by (simp add: positive_quote_def)
    moreover have "\<not> vp_qty m \<le> 0" using ok(2) m by simp
    moreover have "\<not> (is_indian (vp_underlying m) (vp_symbol m) \<and> \<not> allow \<and> \<not> pe_can_trade env)" using assms(6) by blast
    ultimately show ?thesis
      by (simp only: square_off_def assms(2) Let_def option.case m_def [symmetric] sh1_def [symmetric] p_def [symmetric]
          px_def [symmetric] option.distinct(2) simp_thms if_False fst_conv)
  qed
  show ?thesis
  proof (cases "pe_max_order_qty env < vp_qty e")
    case True
    then have "fst (place_order_locked env p True (Some (px, FromLive)) sh1) = log_order ((make_order env p REJECTED)\<lparr>vo_reason := Some ORDER_TOO_LARGE\<rparr>) sh1"
      by (simp add: place_order_locked_def rep gate reject_order_def Let_def)
    then show ?thesis using True m by (simp add: s log_order_def sh1_def dict_simps)
  next
    case False
    have "\<not> needs_margin p sh1" using o1 pid side by (simp add: needs_margin_def)
    moreover have "\<not> fat_finger env p FromLive" by (simp add: fat_finger_def)
    ultimately have "sh_positions (fst (place_order_locked env p True (Some (px, FromLive)) sh1))
        = sh_positions (book_fill p (round2 px) sh1)"
      using False assms(5) m
      by (simp add: place_order_locked_def rep gate resolve_forced fill_order_def Let_def px_def)
         (simp add: remember_order_def log_order_def p_def cid_of_def)
    moreover have "vp_qty m = pl_qty p" by (simp add: p_def)
    ultimately show ?thesis
      using False o1 pid side by (simp add: s book_fill_def Let_def dict_simps reduce_position_def)
  qed
qed

definition big_position :: vposition where
  "big_position = \<lparr>vp_symbol = ''GOLD'', vp_underlying = ''GOLD'', vp_inst = FUTURES, vp_side = BUY, vp_product = INTRADAY,
     vp_qty = 150000, vp_avg = 1000, vp_ltp = 1000, vp_unrealized = 0, vp_realized = 0, vp_margin = 0, vp_open = True\<rparr>"

theorem square_off_closes_iff_witness:
  "\<exists>q. snd (square_off demo_paper_env ''GOLD_INTRADAY'' True
     (shard_init\<lparr>sh_positions := [(''GOLD_INTRADAY'', big_position)]\<rparr>)) = Inr q \<and> vp_open q"
proof -
  let ?sh = "shard_init\<lparr>sh_positions := [(''GOLD_INTRADAY'', big_position)]\<rparr>"
  have "shard_ok ?sh" by (simp add: shard_ok_def position_ok_def position_id_def big_position_def)
  moreover have "open_position ?sh ''GOLD_INTRADAY'' = Some big_position" by (simp add: open_position_def big_position_def)
  moreover have "pe_live demo_paper_env = Some 1000" "pe_max_order_qty demo_paper_env = 100000"
    by (simp_all add: demo_paper_env_def)
  moreover have "0 < apply_friction 1000 (opposite (vp_side big_position))"
  proof -
    have "0 < apply_friction 1000 SELL" by code_simp
    then show ?thesis by (simp add: opposite_def big_position_def)
  qed
  moreover have "vp_qty big_position = 150000" by (simp add: big_position_def)
  ultimately show ?thesis using square_off_closes_iff [of ?sh "''GOLD_INTRADAY''" big_position demo_paper_env 1000 True] by auto
qed

lemma find_update_first:
  "find (\<lambda>x. vo_id x = oid) xs = Some y \<Longrightarrow> vo_id z = oid \<Longrightarrow> find (\<lambda>x. vo_id x = oid) (update_first oid z xs) = Some z"
  by (induction xs) auto

text \<open>A resting order the tick reaches is marked filled before its position leg is placed, and stays so
  when the leg is rejected: here an order above the single-order limit is reported filled and the
  positions are as before.\<close>

theorem pending_filled_without_position:
  assumes "find_order sh oid = Some o1" "vo_status o1 = PENDING" "pending_fill ltp o1 = Some px"
    and "pe_order_id env \<noteq> oid" "pe_max_order_qty env < vo_qty o1" "0 < vo_qty o1"
  shows "map_option vo_status (find_order (fst (fill_pending env ltp oid (sh, done))) oid) = Some FILLED
    \<and> oid \<in> set (snd (fill_pending env ltp oid (sh, done)))
    \<and> sh_positions (fst (fill_pending env ltp oid (sh, done))) = sh_positions sh"
proof -
  define f where "f = o1\<lparr>vo_status := FILLED, vo_fill := Some (round2 px), vo_source := Some FromLimit,
    vo_costs := Some (estimate_costs (vo_side o1) (round2 px) (vo_qty o1))\<rparr>"
  define sh1 where "sh1 = sh\<lparr>sh_orders := update_first oid f (sh_orders sh)\<rparr>"
  define p where "p = \<lparr>pl_symbol = vo_symbol o1, pl_underlying = vo_underlying o1, pl_side = vo_side o1, pl_type = MARKET,
    pl_product = vo_product o1, pl_qty = vo_qty o1, pl_price = round2 px, pl_trigger = None, pl_cid = None\<rparr>"
  have "vo_id o1 = oid" using assms(1) by (auto simp: find_order_def find_Some_iff)
  then have find: "find_order sh1 oid = Some f"
    using assms(1) find_update_first [of oid "sh_orders sh" o1 f] by (simp add: find_order_def sh1_def f_def)
  have gate: "risk_gate env p True sh1 = Some ORDER_TOO_LARGE"
    using assms(5,6) by (simp add: risk_gate_def Let_def p_def)
  have "replayed p sh1 = None" by (simp add: replayed_def p_def cid_of_def)
  then have "fst (place_order_locked env p True (Some (round2 px, FromLimit)) sh1)
      = log_order ((make_order env p REJECTED)\<lparr>vo_reason := Some ORDER_TOO_LARGE\<rparr>) sh1"
    by (simp add: place_order_locked_def gate reject_order_def Let_def)
  moreover have "fill_pending env ltp oid (sh, done) =
      (fst (place_order_locked env p True (Some (round2 px, FromLimit)) sh1), done @ [oid])"
    by (simp add: fill_pending_def assms(1-3) Let_def f_def [symmetric] sh1_def [symmetric] p_def [symmetric])
  ultimately show ?thesis
    using find assms(4) by (simp add: find_order_def log_order_def make_order_def) (simp add: sh1_def f_def)
qed

end
