(* ===== verification/Droid_Buffer.thy ===== *)
theory Droid_Buffer
  imports Droid_Decimal
begin

text \<open>
  \<open>backend/app/services/event_buffer.py\<close>: the market event buffer, three deques and shedding
  counters. Its contract is one queue ordered by priority and, within a priority, by arrival;
  \<open>queue_view\<close> is the abstraction, and the operations refine those of the queue.
\<close>

subsection \<open>Events\<close>

datatype event_priority = PRIO_HIGH | PRIO_MEDIUM | PRIO_LOW

record tick_event =
  te_timestamp :: rat
  te_symbol :: string
  te_token :: string
  te_ltp :: rat
  te_open :: "rat option"
  te_high :: "rat option"
  te_low :: "rat option"
  te_close :: "rat option"
  te_volume :: int
  te_open_interest :: "int option"
  te_bid :: "rat option"
  te_ask :: "rat option"
  te_bid_qty :: "int option"
  te_ask_qty :: "int option"
  te_sequence :: "int option"
  te_provider :: string
  te_priority :: event_priority

subsection \<open>The buffer\<close>

record event_buffer =
  eb_capacity :: int
  eb_high_mark :: int
  eb_critical_mark :: int
  eb_high :: "tick_event list"
  eb_medium :: "tick_event list"
  eb_low :: "tick_event list"
  eb_published :: nat
  eb_consumed :: nat
  eb_dropped_low :: nat
  eb_dropped_medium :: nat
  eb_dropped_high :: nat

text \<open>The watermarks are fractions of the capacity, multiplied as floats and truncated.\<close>

definition buffer_init :: "int \<Rightarrow> rat \<Rightarrow> rat \<Rightarrow> event_buffer" where
  "buffer_init cap hw cw =
     \<lparr>eb_capacity = cap, eb_high_mark = rat_trunc (frnd (of_int cap * hw)),
      eb_critical_mark = rat_trunc (frnd (of_int cap * cw)), eb_high = [], eb_medium = [], eb_low = [],
      eb_published = 0, eb_consumed = 0, eb_dropped_low = 0, eb_dropped_medium = 0, eb_dropped_high = 0\<rparr>"

definition depth :: "event_buffer \<Rightarrow> int" where
  "depth b = int (length (eb_high b) + length (eb_medium b) + length (eb_low b))"

definition is_overloaded :: "event_buffer \<Rightarrow> bool" where
  "is_overloaded b \<longleftrightarrow> eb_high_mark b \<le> depth b"

definition drop_low :: "event_buffer \<Rightarrow> event_buffer" where
  "drop_low b = b\<lparr>eb_dropped_low := eb_dropped_low b + 1\<rparr>"

definition drop_medium :: "event_buffer \<Rightarrow> event_buffer" where
  "drop_medium b = b\<lparr>eb_dropped_medium := eb_dropped_medium b + 1\<rparr>"

definition enqueue :: "tick_event \<Rightarrow> event_buffer \<Rightarrow> event_buffer" where
  "enqueue e b = (case te_priority e of
     PRIO_HIGH \<Rightarrow> b\<lparr>eb_high := eb_high b @ [e]\<rparr>
   | PRIO_MEDIUM \<Rightarrow> b\<lparr>eb_medium := eb_medium b @ [e]\<rparr>
   | PRIO_LOW \<Rightarrow> b\<lparr>eb_low := eb_low b @ [e]\<rparr>)"

text \<open>At capacity the oldest event of the lowest queue makes room; high events never do.\<close>

definition shed_one :: "event_buffer \<Rightarrow> event_buffer option" where
  "shed_one b = (case eb_low b of
     _ # xs \<Rightarrow> Some (drop_low (b\<lparr>eb_low := xs\<rparr>))
   | [] \<Rightarrow> (case eb_medium b of
       _ # xs \<Rightarrow> Some (drop_medium (b\<lparr>eb_medium := xs\<rparr>))
     | [] \<Rightarrow> None))"

definition publish_event :: "tick_event \<Rightarrow> event_buffer \<Rightarrow> event_buffer \<times> bool" where
  "publish_event e b0 =
     (let b = b0\<lparr>eb_published := eb_published b0 + 1\<rparr>; d = depth b in
      if eb_high_mark b \<le> d \<and> te_priority e = PRIO_LOW then (drop_low b, False)
      else if eb_critical_mark b \<le> d \<and> te_priority e = PRIO_MEDIUM then (drop_medium b, False)
      else if eb_capacity b \<le> d
        then (case shed_one b of Some b1 \<Rightarrow> (enqueue e b1, True)
              | None \<Rightarrow> (b\<lparr>eb_dropped_high := eb_dropped_high b + 1\<rparr>, False))
      else (enqueue e b, True))"

definition consume_event :: "event_buffer \<Rightarrow> event_buffer \<times> tick_event option" where
  "consume_event b = (case eb_high b of
     x # xs \<Rightarrow> (b\<lparr>eb_consumed := eb_consumed b + 1, eb_high := xs\<rparr>, Some x)
   | [] \<Rightarrow> (case eb_medium b of
       x # xs \<Rightarrow> (b\<lparr>eb_consumed := eb_consumed b + 1, eb_medium := xs\<rparr>, Some x)
     | [] \<Rightarrow> (case eb_low b of
         x # xs \<Rightarrow> (b\<lparr>eb_consumed := eb_consumed b + 1, eb_low := xs\<rparr>, Some x)
       | [] \<Rightarrow> (b, None))))"

fun consume_batch :: "nat \<Rightarrow> event_buffer \<Rightarrow> event_buffer \<times> tick_event list" where
  "consume_batch 0 b = (b, [])"
| "consume_batch (Suc n) b = (case consume_event b of
     (b1, None) \<Rightarrow> (b1, [])
   | (b1, Some x) \<Rightarrow> (case consume_batch n b1 of (b2, xs) \<Rightarrow> (b2, x # xs)))"

record buffer_health =
  bh_depth :: int
  bh_utilization :: rat
  bh_overloaded :: bool
  bh_dropped :: nat

definition dropped :: "event_buffer \<Rightarrow> nat" where
  "dropped b = eb_dropped_low b + eb_dropped_medium b + eb_dropped_high b"

text \<open>The utilisation divides by the capacity.\<close>

definition buffer_health :: "event_buffer \<Rightarrow> buffer_health result" where
  "buffer_health b = (if eb_capacity b = 0 then Inl DivisionByZero
     else Inr \<lparr>bh_depth = depth b,
       bh_utilization = frnd (of_int (round_half_even (frnd (frnd (of_int (depth b) / of_int (eb_capacity b)) * 100) * 10)) / 10),
       bh_overloaded = is_overloaded b, bh_dropped = dropped b\<rparr>)"

subsection \<open>The queue it implements\<close>

fun rank :: "event_priority \<Rightarrow> nat" where
  "rank PRIO_HIGH = 0" | "rank PRIO_MEDIUM = 1" | "rank PRIO_LOW = 2"

abbreviation erank :: "tick_event \<Rightarrow> nat" where "erank e \<equiv> rank (te_priority e)"

definition queue_view :: "event_buffer \<Rightarrow> tick_event list" where
  "queue_view b = eb_high b @ eb_medium b @ eb_low b"

text \<open>Insertion after everything at least as urgent.\<close>

fun pq_insert :: "tick_event \<Rightarrow> tick_event list \<Rightarrow> tick_event list" where
  "pq_insert e [] = [e]"
| "pq_insert e (x # xs) = (if erank x \<le> erank e then x # pq_insert e xs else e # x # xs)"

text \<open>The oldest of the least urgent events, if it is not a high one.\<close>

definition pq_victim :: "tick_event list \<Rightarrow> tick_event option" where
  "pq_victim q = (case find (\<lambda>x. erank x = 2) q of Some x \<Rightarrow> Some x | None \<Rightarrow> find (\<lambda>x. erank x = 1) q)"

text \<open>The shares of the capacity a priority may fill before it is refused.\<close>

definition pq_limit :: "event_buffer \<Rightarrow> event_priority \<Rightarrow> int option" where
  "pq_limit b p = (case p of PRIO_HIGH \<Rightarrow> None | PRIO_MEDIUM \<Rightarrow> Some (eb_critical_mark b) | PRIO_LOW \<Rightarrow> Some (eb_high_mark b))"

definition pq_publish :: "int option \<Rightarrow> int \<Rightarrow> tick_event \<Rightarrow> tick_event list \<Rightarrow> tick_event list \<times> bool" where
  "pq_publish limit cap e q =
     (if (case limit of None \<Rightarrow> False | Some l \<Rightarrow> l \<le> int (length q)) then (q, False)
      else if int (length q) < cap then (pq_insert e q, True)
      else (case pq_victim q of None \<Rightarrow> (q, False) | Some v \<Rightarrow> (pq_insert e (remove1 v q), True)))"

definition queues_ok :: "event_buffer \<Rightarrow> bool" where
  "queues_ok b \<longleftrightarrow> (\<forall>x \<in> set (eb_high b). te_priority x = PRIO_HIGH) \<and> (\<forall>x \<in> set (eb_medium b). te_priority x = PRIO_MEDIUM)
     \<and> (\<forall>x \<in> set (eb_low b). te_priority x = PRIO_LOW)"

definition buffer_ok :: "event_buffer \<Rightarrow> bool" where
  "buffer_ok b \<longleftrightarrow> queues_ok b \<and> eb_published b = eb_consumed b + dropped b + length (queue_view b)
     \<and> depth b \<le> max 0 (eb_capacity b)"

lemmas buffer_defs = drop_low_def drop_medium_def enqueue_def shed_one_def depth_def dropped_def

lemma pq_insert_block:
  "(\<And>x. x \<in> set xs \<Longrightarrow> erank x \<le> erank e) \<Longrightarrow> (\<And>x. x \<in> set ys \<Longrightarrow> erank e < erank x) \<Longrightarrow>
     pq_insert e (xs @ ys) = xs @ e # ys"
proof (induction xs)
  case Nil
  then show ?case
  proof (cases ys)
    case (Cons a zs)
    then show ?thesis using Nil.prems(2) [of a] by simp
  qed simp
qed auto

lemma find_None_all: "(\<And>x. x \<in> set xs \<Longrightarrow> \<not> P x) \<Longrightarrow> find P xs = None"
  by (simp add: find_None_iff)

lemma find_append: "find P (xs @ ys) = (case find P xs of Some x \<Rightarrow> Some x | None \<Rightarrow> find P ys)"
  by (induction xs) auto

lemma queues_ok_ranks:
  assumes "queues_ok b"
  shows "x \<in> set (eb_high b) \<Longrightarrow> erank x = 0" "x \<in> set (eb_medium b) \<Longrightarrow> erank x = 1" "x \<in> set (eb_low b) \<Longrightarrow> erank x = 2"
  using assms by (auto simp: queues_ok_def)

lemma enqueue_view:
  assumes "queues_ok b" shows "queue_view (enqueue e b) = pq_insert e (queue_view b)"
proof -
  note r = queues_ok_ranks [OF assms]
  show ?thesis
  proof (cases "te_priority e")
    case PRIO_HIGH
    then show ?thesis
      using pq_insert_block [of "eb_high b" e "eb_medium b @ eb_low b"] r by (fastforce simp: enqueue_def queue_view_def)
  next
    case PRIO_MEDIUM
    then show ?thesis
      using pq_insert_block [of "eb_high b @ eb_medium b" e "eb_low b"] r by (fastforce simp: enqueue_def queue_view_def)
  next
    case PRIO_LOW
    then show ?thesis
      using pq_insert_block [of "queue_view b" e "[]"] r by (fastforce simp: enqueue_def queue_view_def)
  qed
qed

lemma shed_view:
  assumes "queues_ok b"
  shows "map_option queue_view (shed_one b) = map_option (\<lambda>v. remove1 v (queue_view b)) (pq_victim (queue_view b))"
proof (cases "eb_low b")
  case (Cons y ys)
  have n: "erank x \<noteq> 2" if "x \<in> set (eb_high b @ eb_medium b)" for x using queues_ok_ranks [OF assms] that by fastforce
  have y: "erank y = 2" using queues_ok_ranks(3) [OF assms] Cons by simp
  have "find (\<lambda>x. erank x = 2) (eb_high b @ eb_medium b) = None" using n by (rule find_None_all)
  then have "pq_victim (queue_view b) = Some y"
    using y Cons by (simp add: pq_victim_def queue_view_def find_append split: option.splits)
  moreover have "y \<notin> set (eb_high b @ eb_medium b)" using n y by blast
  ultimately show ?thesis using Cons by (simp add: buffer_defs queue_view_def remove1_append)
next
  case Nil
  note low = Nil
  show ?thesis
  proof (cases "eb_medium b")
    case (Cons y ys)
    have n: "erank x \<noteq> 1" if "x \<in> set (eb_high b)" for x using queues_ok_ranks [OF assms] that by fastforce
    have y: "erank y = 1" using queues_ok_ranks(2) [OF assms] Cons by simp
    have "find (\<lambda>x. erank x = 2) (queue_view b) = None"
      using queues_ok_ranks [OF assms] low by (intro find_None_all) (fastforce simp: queue_view_def)
    moreover have "find (\<lambda>x. erank x = 1) (eb_high b) = None" using n by (rule find_None_all)
    ultimately have "pq_victim (queue_view b) = Some y"
      using y Cons low by (simp add: pq_victim_def queue_view_def find_append)
    moreover have "y \<notin> set (eb_high b)" using n y by blast
    ultimately show ?thesis using Cons low by (simp add: buffer_defs queue_view_def remove1_append)
  next
    case Nil
    have "pq_victim (queue_view b) = None"
      using queues_ok_ranks(1) [OF assms] low Nil by (simp add: pq_victim_def queue_view_def find_None_iff split: option.split)
    then show ?thesis using Nil low by (simp add: shed_one_def)
  qed
qed

text \<open>Counters and depth.\<close>

lemma depth_view: "depth b = int (length (queue_view b))"
  by (simp add: depth_def queue_view_def)

lemma depth_fields [simp]:
  "depth (b\<lparr>eb_published := n\<rparr>) = depth b" "depth (b\<lparr>eb_dropped_high := n\<rparr>) = depth b"
  "queue_view (b\<lparr>eb_published := n\<rparr>) = queue_view b" "queue_view (b\<lparr>eb_dropped_high := n\<rparr>) = queue_view b"
  "queue_view (drop_low b) = queue_view b" "queue_view (drop_medium b) = queue_view b"
  by (simp_all add: depth_def queue_view_def drop_low_def drop_medium_def)

lemma publish_view:
  assumes "queues_ok b"
  shows "(queue_view (fst (publish_event e b)), snd (publish_event e b))
    = pq_publish (pq_limit b (te_priority e)) (eb_capacity b) e (queue_view b)"
proof -
  define c where "c = b\<lparr>eb_published := eb_published b + 1\<rparr>"
  have c: "queues_ok c" "queue_view c = queue_view b" "depth c = int (length (queue_view b))"
    "eb_high_mark c = eb_high_mark b" "eb_critical_mark c = eb_critical_mark b" "eb_capacity c = eb_capacity b"
    using assms by (simp_all add: c_def queues_ok_def) (simp add: depth_view)
  have s: "map_option queue_view (shed_one c) = map_option (\<lambda>v. remove1 v (queue_view b)) (pq_victim (queue_view b))"
    using shed_view [OF c(1)] c(2) by simp
  have e: "queue_view (enqueue e d) = pq_insert e (queue_view d)" if "shed_one c = Some d" for d
    using c(1) that by (intro enqueue_view) (auto simp: queues_ok_def buffer_defs split: list.splits)
  show ?thesis
    using c(1) s enqueue_view [OF c(1)] e
    unfolding publish_event_def c_def [symmetric] Let_def
    by (cases "shed_one c"; cases "pq_victim (queue_view b)"; cases "te_priority e")
      (simp_all add: c pq_publish_def pq_limit_def)
qed

lemma consume_view:
  "consume_event b = (b1, r) \<Longrightarrow> queue_view b1 = tl (queue_view b)
     \<and> r = (case queue_view b of [] \<Rightarrow> None | x # _ \<Rightarrow> Some x)"
  by (auto simp: consume_event_def queue_view_def split: list.splits)

lemma queues_ok_publish: "queues_ok b \<Longrightarrow> queues_ok (fst (publish_event e b))"
  by (cases "te_priority e")
    (auto simp: publish_event_def Let_def queues_ok_def buffer_defs split: list.splits option.splits)

lemma queues_ok_consume: "queues_ok b \<Longrightarrow> queues_ok (fst (consume_event b))"
  by (auto simp: consume_event_def queues_ok_def split: list.splits)

lemma capacity_kept [simp]:
  "eb_capacity (fst (publish_event e b)) = eb_capacity b" "eb_capacity (fst (consume_event b)) = eb_capacity b"
  by (auto simp: publish_event_def consume_event_def Let_def buffer_defs split: list.splits option.splits event_priority.splits)

lemma publish_ok:
  assumes "buffer_ok b" shows "buffer_ok (fst (publish_event e b))"
proof -
  have "eb_published (fst (publish_event e b)) = eb_consumed (fst (publish_event e b))
      + dropped (fst (publish_event e b)) + length (queue_view (fst (publish_event e b)))"
    using assms by (cases "te_priority e")
      (auto simp: buffer_ok_def publish_event_def Let_def buffer_defs queue_view_def split: list.splits)
  moreover have "depth (fst (publish_event e b)) \<le> max 0 (eb_capacity b)"
    using assms by (cases "te_priority e")
      (auto simp: buffer_ok_def publish_event_def Let_def buffer_defs split: list.splits)
  ultimately show ?thesis using assms queues_ok_publish by (simp add: buffer_ok_def)
qed

lemma consume_ok:
  assumes "buffer_ok b" shows "buffer_ok (fst (consume_event b))"
proof -
  have "eb_published (fst (consume_event b)) = eb_consumed (fst (consume_event b))
      + dropped (fst (consume_event b)) + length (queue_view (fst (consume_event b)))"
    using assms by (auto simp: buffer_ok_def consume_event_def dropped_def queue_view_def split: list.splits)
  moreover have "depth (fst (consume_event b)) \<le> max 0 (eb_capacity b)"
    using assms by (auto simp: buffer_ok_def consume_event_def depth_def split: list.splits)
  ultimately show ?thesis using assms queues_ok_consume by (simp add: buffer_ok_def)
qed

inductive buffer_step :: "event_buffer \<Rightarrow> event_buffer \<Rightarrow> bool" where
  bstep_publish: "buffer_step b (fst (publish_event e b))"
| bstep_consume: "buffer_step b (fst (consume_event b))"
| bstep_batch: "buffer_step b (fst (consume_batch n b))"

lemma batch_ok: "buffer_ok b \<Longrightarrow> buffer_ok (fst (consume_batch n b))"
proof (induction n arbitrary: b)
  case (Suc n)
  obtain b1 r where c: "consume_event b = (b1, r)" by fastforce
  with consume_ok [OF Suc.prems] have "buffer_ok b1" by simp
  with Suc.IH [of b1] c show ?case by (cases r) (auto split: prod.split)
qed simp

lemma buffer_reachable_ok:
  assumes "buffer_step\<^sup>*\<^sup>* (buffer_init cap hw cw) b" shows "buffer_ok b"
  using assms
proof (induction rule: rtranclp_induct)
  case base
  show ?case by (simp add: buffer_init_def buffer_ok_def queues_ok_def dropped_def queue_view_def depth_def)
next
  case (step b c)
  from step.hyps(2) step.IH show ?case by cases (auto intro: publish_ok consume_ok batch_ok)
qed

text \<open>C6. The buffer refines a bounded priority queue: in every reachable state, publishing and consuming
  act on the abstract queue (most urgent first, oldest first within a priority) as insertion and
  removal of the head, with the refusals and the shedding of the queue, whichever deque they touch.\<close>

theorem buffer_refines_queue:
  assumes "buffer_step\<^sup>*\<^sup>* (buffer_init cap hw cw) b"
  shows "(queue_view (fst (publish_event e b)), snd (publish_event e b))
      = pq_publish (pq_limit b (te_priority e)) (eb_capacity b) e (queue_view b)
    \<and> (queue_view (fst (consume_event b)), snd (consume_event b))
      = (tl (queue_view b), case queue_view b of [] \<Rightarrow> None | x # _ \<Rightarrow> Some x)"
proof -
  have "queues_ok b" using buffer_reachable_ok [OF assms] by (simp add: buffer_ok_def)
  from publish_view [OF this] consume_view [of b] show ?thesis by (metis prod.collapse)
qed

lemma batch_view:
  "snd (consume_batch n b) = take n (queue_view b) \<and> queue_view (fst (consume_batch n b)) = drop n (queue_view b)"
proof (induction n arbitrary: b)
  case (Suc n)
  obtain b1 r where c: "consume_event b = (b1, r)" by fastforce
  from consume_view [OF c] Suc.IH [of b1] c show ?case
    by (cases "queue_view b") (auto split: prod.split)
qed simp

text \<open>Nothing is lost silently: in every reachable state every published event was consumed, counted
  as dropped, or is still queued; the queue never exceeds the capacity; and a batch is the front of
  the queue in order.\<close>

theorem events_conserved:
  assumes "buffer_step\<^sup>*\<^sup>* (buffer_init cap hw cw) b"
  shows "eb_published b = eb_consumed b + dropped b + length (queue_view b)
    \<and> depth b \<le> max 0 (eb_capacity b)
    \<and> snd (consume_batch n b) = take n (queue_view b)"
  using buffer_reachable_ok [OF assms] batch_view [of n b] by (simp add: buffer_ok_def)

definition demo_tick :: "event_priority \<Rightarrow> tick_event" where
  "demo_tick p = \<lparr>te_timestamp = 0, te_symbol = ''NIFTY'', te_token = [], te_ltp = 100, te_open = None, te_high = None,
     te_low = None, te_close = None, te_volume = 0, te_open_interest = None, te_bid = None, te_ask = None,
     te_bid_qty = None, te_ask_qty = None, te_sequence = None, te_provider = ''fyers'', te_priority = p\<rparr>"

definition demo_buffer :: event_buffer where
  "demo_buffer = fst (publish_event (demo_tick PRIO_HIGH) (fst (publish_event (demo_tick PRIO_LOW) (buffer_init 2 1 1))))"

lemma demo_buffer_reach: "buffer_step\<^sup>*\<^sup>* (buffer_init 2 1 1) demo_buffer"
  unfolding demo_buffer_def by (rule rtranclp.rtrancl_into_rtrancl [OF r_into_rtranclp]) (rule bstep_publish)+

lemma demo_buffer_state: "queue_view demo_buffer = [demo_tick PRIO_HIGH, demo_tick PRIO_LOW]" "eb_capacity demo_buffer = 2"
  by code_simp+

theorem buffer_refines_queue_witness:
  "queue_view (fst (publish_event (demo_tick PRIO_HIGH) demo_buffer)) = [demo_tick PRIO_HIGH, demo_tick PRIO_HIGH]"
  using buffer_refines_queue [OF demo_buffer_reach, of "demo_tick PRIO_HIGH"] demo_buffer_state
  by (simp add: pq_publish_def pq_limit_def pq_victim_def demo_tick_def)

theorem events_conserved_witness:
  "snd (consume_batch 1 demo_buffer) = [demo_tick PRIO_HIGH]"
  using events_conserved [OF demo_buffer_reach, of 1] demo_buffer_state by simp

end
