(* ===== verification/Droid_Greeks.thy ===== *)
theory Droid_Greeks
  imports Droid_Decimal
begin

text \<open>
  \<open>backend/app/signals/portfolio_greeks.py\<close>: the ledger of open option positions and the marginal
  check of a proposed trade against it. Greeks are floats; message texts are replaced by their codes.
\<close>

subsection \<open>The ledger\<close>

datatype option_kind = CE | PE

record greek_position =
  gp_id :: string
  gp_underlying :: string
  gp_horizon :: string
  gp_kind :: option_kind
  gp_strike :: rat
  gp_expiry :: string
  gp_quantity :: int
  gp_delta :: rat
  gp_gamma :: rat
  gp_theta :: rat
  gp_vega :: rat

definition total_delta :: "greek_position \<Rightarrow> rat" where
  "total_delta p = round_places 2 (frnd (gp_delta p * of_int (gp_quantity p)))"

definition total_gamma :: "greek_position \<Rightarrow> rat" where
  "total_gamma p = round_places 4 (frnd (gp_gamma p * of_int (gp_quantity p)))"

definition total_theta_day :: "greek_position \<Rightarrow> rat" where
  "total_theta_day p = round_places 2 (frnd (gp_theta p * of_int (gp_quantity p)))"

definition total_vega :: "greek_position \<Rightarrow> rat" where
  "total_vega p = round_places 2 (frnd (gp_vega p * of_int (gp_quantity p)))"

record risk_limits =
  rl_net_delta :: rat
  rl_theta :: rat
  rl_expiry_pct :: rat
  rl_horizons :: int
  rl_gross_delta :: rat
  rl_gross_gamma :: rat
  rl_gross_vega :: rat
  rl_capital :: "rat option"
  rl_per_lakh :: rat

definition default_limits :: risk_limits where
  "default_limits = \<lparr>rl_net_delta = 350, rl_theta = 15000, rl_expiry_pct = 70, rl_horizons = 2, rl_gross_delta = 700,
     rl_gross_gamma = 2, rl_gross_vega = 20000, rl_capital = None, rl_per_lakh = 35\<rparr>"

record greeks_ledger =
  gl_limits :: risk_limits
  gl_positions :: "(string, greek_position) dict"

definition greeks_ledger_init :: "risk_limits option \<Rightarrow> greeks_ledger" where
  "greeks_ledger_init l = \<lparr>gl_limits = or_else l default_limits, gl_positions = []\<rparr>"

definition gl_clear :: "greeks_ledger \<Rightarrow> greeks_ledger" where
  "gl_clear g = g\<lparr>gl_positions := []\<rparr>"

definition add_position :: "greek_position \<Rightarrow> greeks_ledger \<Rightarrow> greeks_ledger" where
  "add_position p g = g\<lparr>gl_positions := AList.update (gp_id p) p (gl_positions g)\<rparr>"

definition remove_position :: "string \<Rightarrow> greeks_ledger \<Rightarrow> greeks_ledger \<times> greek_position option" where
  "remove_position pid g = (g\<lparr>gl_positions := AList.delete pid (gl_positions g)\<rparr>, map_of (gl_positions g) pid)"

definition refresh_mark :: "string \<Rightarrow> rat option \<Rightarrow> rat option \<Rightarrow> rat option \<Rightarrow> rat option \<Rightarrow> greeks_ledger \<Rightarrow> greeks_ledger \<times> bool" where
  "refresh_mark pid d g t v gl = (case map_of (gl_positions gl) pid of
     None \<Rightarrow> (gl, False)
   | Some p \<Rightarrow> (gl\<lparr>gl_positions := AList.update pid
        (p\<lparr>gp_delta := or_else d (gp_delta p), gp_gamma := or_else g (gp_gamma p), gp_theta := or_else t (gp_theta p),
           gp_vega := or_else v (gp_vega p)\<rparr>) (gl_positions gl)\<rparr>, True))"

definition book :: "greeks_ledger \<Rightarrow> greek_position list" where
  "book g = map snd (gl_positions g)"

subsection \<open>Summary\<close>

record greeks_summary =
  gs_delta :: rat
  gs_gamma :: rat
  gs_theta :: rat
  gs_vega :: rat
  gs_gross_delta :: rat
  gs_gross_gamma :: rat
  gs_gross_theta :: rat
  gs_gross_vega :: rat
  gs_by_underlying :: "(string, rat) dict"
  gs_gross_by_underlying :: "(string, rat) dict"
  gs_by_horizon :: "(string, int) dict"
  gs_expiry_pct :: "(string, rat) dict"
  gs_open :: nat

text \<open>A running sum of floats, rounded at every step.\<close>

definition fsum :: "rat list \<Rightarrow> rat" where
  "fsum xs = foldl (\<lambda>a x. frnd (a + x)) 0 xs"

definition exposure_of :: "(greek_position \<Rightarrow> rat) \<Rightarrow> greek_position list \<Rightarrow> (string, rat) dict" where
  "exposure_of f ps = foldl (\<lambda>d p. AList.update (gp_underlying p)
     (round_places 2 (frnd (or_else (map_of d (gp_underlying p)) 0 + f p))) d) [] ps"

definition count_by :: "('a \<Rightarrow> string) \<Rightarrow> ('a \<Rightarrow> int) \<Rightarrow> 'a list \<Rightarrow> (string, int) dict" where
  "count_by k f ps = foldl (\<lambda>d p. AList.update (k p) (or_else (map_of d (k p)) 0 + f p) d) [] ps"

definition quantity_by_expiry :: "greek_position list \<Rightarrow> (string, int) dict" where
  "quantity_by_expiry ps = count_by gp_expiry gp_quantity ps"

definition percent :: "int \<Rightarrow> int \<Rightarrow> rat" where
  "percent a b = round_places 1 (frnd (frnd (of_int a / of_int b) * 100))"

definition get_summary :: "greeks_ledger \<Rightarrow> greeks_summary" where
  "get_summary g =
     (let ps = book g; qs = quantity_by_expiry ps; total = sum_list (map snd qs) in
      \<lparr>gs_delta = round_places 2 (fsum (map total_delta ps)), gs_gamma = round_places 4 (fsum (map total_gamma ps)),
       gs_theta = round_places 2 (fsum (map total_theta_day ps)), gs_vega = round_places 2 (fsum (map total_vega ps)),
       gs_gross_delta = round_places 2 (fsum (map (\<lambda>p. \<bar>total_delta p\<bar>) ps)),
       gs_gross_gamma = round_places 4 (fsum (map (\<lambda>p. \<bar>total_gamma p\<bar>) ps)),
       gs_gross_theta = round_places 2 (fsum (map (\<lambda>p. \<bar>total_theta_day p\<bar>) ps)),
       gs_gross_vega = round_places 2 (fsum (map (\<lambda>p. \<bar>total_vega p\<bar>) ps)),
       gs_by_underlying = exposure_of total_delta ps,
       gs_gross_by_underlying = exposure_of (\<lambda>p. \<bar>total_delta p\<bar>) ps,
       gs_by_horizon = count_by gp_horizon (\<lambda>_. 1) ps,
       gs_expiry_pct = (if 0 < total then map (\<lambda>(k, v). (k, percent v total)) qs else []),
       gs_open = length ps\<rparr>)"

subsection \<open>The marginal check\<close>

datatype veto =
    EXPIRY_CONCENTRATION_BREACH | CROSS_HORIZON_LIMIT_EXCEEDED | PORTFOLIO_DELTA_BREACH
  | PORTFOLIO_GROSS_DELTA_BREACH | PORTFOLIO_GROSS_GAMMA_BREACH | PORTFOLIO_GROSS_VEGA_BREACH | PORTFOLIO_THETA_BREACH

text \<open>A proposed trade, as the position it would open.\<close>

definition proj_delta :: "greek_position \<Rightarrow> greeks_ledger \<Rightarrow> rat" where
  "proj_delta t g = round_places 2 (frnd (gs_delta (get_summary g) + total_delta t))"

definition proj_theta :: "greek_position \<Rightarrow> greeks_ledger \<Rightarrow> rat" where
  "proj_theta t g = round_places 2 (frnd (gs_theta (get_summary g) + total_theta_day t))"

definition proj_gross_delta :: "greek_position \<Rightarrow> greeks_ledger \<Rightarrow> rat" where
  "proj_gross_delta t g = round_places 2 (frnd (gs_gross_delta (get_summary g) + \<bar>total_delta t\<bar>))"

definition proj_gross_gamma :: "greek_position \<Rightarrow> greeks_ledger \<Rightarrow> rat" where
  "proj_gross_gamma t g = round_places 4 (frnd (gs_gross_gamma (get_summary g) + \<bar>total_gamma t\<bar>))"

definition proj_gross_vega :: "greek_position \<Rightarrow> greeks_ledger \<Rightarrow> rat" where
  "proj_gross_vega t g = round_places 2 (frnd (gs_gross_vega (get_summary g) + \<bar>total_vega t\<bar>))"

definition existing_quantity :: "greeks_ledger \<Rightarrow> int" where
  "existing_quantity g = sum_list (map snd (quantity_by_expiry (book g)))"

definition proj_expiry_pct :: "greek_position \<Rightarrow> greeks_ledger \<Rightarrow> rat" where
  "proj_expiry_pct t g =
     (let total = existing_quantity g + gp_quantity t;
          inexp = or_else (map_of (quantity_by_expiry (book g)) (gp_expiry t)) 0 + gp_quantity t
      in if 0 < total then percent inexp total else 100)"

definition proj_underlying_delta :: "greek_position \<Rightarrow> greeks_ledger \<Rightarrow> rat" where
  "proj_underlying_delta t g =
     \<bar>frnd (or_else (map_of (gs_by_underlying (get_summary g)) (gp_underlying t)) 0 + total_delta t)\<bar>"

definition effective_delta_cap :: "risk_limits \<Rightarrow> rat" where
  "effective_delta_cap l = (case rl_capital l of
     None \<Rightarrow> rl_net_delta l
   | Some c \<Rightarrow> if 0 < c then min (rl_net_delta l) (max 1 (frnd (frnd (c / 100000) * rl_per_lakh l))) else rl_net_delta l)"

definition same_dir_horizons :: "greek_position \<Rightarrow> greeks_ledger \<Rightarrow> string list" where
  "same_dir_horizons t g =
     map gp_horizon (filter (\<lambda>p. gp_underlying p = gp_underlying t \<and> gp_kind p = gp_kind t) (book g))"

definition marginal_veto :: "greek_position \<Rightarrow> greeks_ledger \<Rightarrow> veto option" where
  "marginal_veto t g = (let l = gl_limits g; hs = same_dir_horizons t g in
     if 0 < existing_quantity g \<and> rl_expiry_pct l < proj_expiry_pct t g then Some EXPIRY_CONCENTRATION_BREACH
     else if hs \<noteq> [] \<and> rl_horizons l \<le> int (length (remdups hs)) then Some CROSS_HORIZON_LIMIT_EXCEEDED
     else if effective_delta_cap l < proj_underlying_delta t g then Some PORTFOLIO_DELTA_BREACH
     else if rl_gross_delta l < proj_gross_delta t g then Some PORTFOLIO_GROSS_DELTA_BREACH
     else if rl_gross_gamma l < proj_gross_gamma t g then Some PORTFOLIO_GROSS_GAMMA_BREACH
     else if rl_gross_vega l < proj_gross_vega t g then Some PORTFOLIO_GROSS_VEGA_BREACH
     else if rl_theta l < \<bar>proj_theta t g\<bar> then Some PORTFOLIO_THETA_BREACH
     else None)"

record marginal_result =
  mr_allowed :: bool
  mr_reason :: "veto option"
  mr_delta :: rat
  mr_gamma :: rat
  mr_theta :: rat
  mr_vega :: rat
  mr_proj_delta :: rat
  mr_proj_theta :: rat
  mr_proj_gross_delta :: rat
  mr_proj_gross_gamma :: rat
  mr_proj_gross_vega :: rat
  mr_proj_expiry_pct :: rat
  mr_overlap :: bool

text \<open>The overlap flag is set once the horizon check is reached.\<close>

definition evaluate_marginal_trade :: "greek_position \<Rightarrow> greeks_ledger \<Rightarrow> marginal_result" where
  "evaluate_marginal_trade t g = (let v = marginal_veto t g in
     \<lparr>mr_allowed = (v = None), mr_reason = v, mr_delta = total_delta t, mr_gamma = total_gamma t,
      mr_theta = total_theta_day t, mr_vega = total_vega t, mr_proj_delta = proj_delta t g, mr_proj_theta = proj_theta t g,
      mr_proj_gross_delta = proj_gross_delta t g, mr_proj_gross_gamma = proj_gross_gamma t g,
      mr_proj_gross_vega = proj_gross_vega t g, mr_proj_expiry_pct = proj_expiry_pct t g,
      mr_overlap = (v \<noteq> Some EXPIRY_CONCENTRATION_BREACH \<and> same_dir_horizons t g \<noteq> [])\<rparr>)"

subsection \<open>One expiry\<close>

lemma count_by_one_key:
  assumes "\<And>p. p \<in> set ps \<Longrightarrow> k p = e" "ps \<noteq> []"
  shows "count_by k f ps = [(e, sum_list (map f ps))]"
proof -
  have "foldl (\<lambda>d p. AList.update (k p) (or_else (map_of d (k p)) 0 + f p) d) [(e, n)] ps = [(e, n + sum_list (map f ps))]"
    if "\<And>p. p \<in> set ps \<Longrightarrow> k p = e" for n ps
    using that by (induction ps arbitrary: n) simp_all
  with assms show ?thesis by (cases ps) (simp_all add: count_by_def)
qed

lemma percent_all: "0 < n \<Longrightarrow> percent n n = 100"
  using rhe_int [of 1000] by (simp add: percent_def round_places_def)

lemma positive_sum: "ps \<noteq> [] \<Longrightarrow> (\<And>p. p \<in> set ps \<Longrightarrow> (0::int) < f p) \<Longrightarrow> 0 < sum_list (map f ps)"
  by (induction ps rule: list_nonempty_induct) (auto intro: add_pos_pos)

text \<open>The concentration ceiling closes a single-expiry book: once every open position expires on the same
  day, any further trade of that expiry is vetoed whatever its size, because its projected share is 100 percent.\<close>

theorem single_expiry_book_closed:
  assumes "book g \<noteq> []" "\<And>p. p \<in> set (book g) \<Longrightarrow> gp_expiry p = gp_expiry t \<and> 0 < gp_quantity p"
    and "0 < gp_quantity t" "rl_expiry_pct (gl_limits g) < 100"
  shows "mr_reason (evaluate_marginal_trade t g) = Some EXPIRY_CONCENTRATION_BREACH"
proof -
  let ?q = "sum_list (map gp_quantity (book g))"
  have q: "quantity_by_expiry (book g) = [(gp_expiry t, ?q)]"
    unfolding quantity_by_expiry_def using assms(1,2) by (intro count_by_one_key) auto
  have pos: "0 < ?q" using assms(1,2) by (intro positive_sum) auto
  then have "proj_expiry_pct t g = 100"
    using assms(3) by (simp add: proj_expiry_pct_def existing_quantity_def q percent_all Let_def)
  then show ?thesis
    using pos assms(4) by (simp add: evaluate_marginal_trade_def marginal_veto_def existing_quantity_def q Let_def)
qed

definition demo_greek :: greek_position where
  "demo_greek = \<lparr>gp_id = ''p1'', gp_underlying = ''NIFTY'', gp_horizon = ''SCALP'', gp_kind = CE, gp_strike = 24000,
     gp_expiry = ''2026-01-27'', gp_quantity = 75, gp_delta = 1/2, gp_gamma = 0, gp_theta = 0, gp_vega = 0\<rparr>"

theorem single_expiry_book_closed_witness:
  "mr_reason (evaluate_marginal_trade (demo_greek\<lparr>gp_id := ''p2'', gp_underlying := ''SENSEX''\<rparr>)
     (add_position demo_greek (greeks_ledger_init None))) = Some EXPIRY_CONCENTRATION_BREACH"
  by (rule single_expiry_book_closed)
    (simp_all add: book_def add_position_def greeks_ledger_init_def demo_greek_def default_limits_def)

end
