(* ===== verification/Droid_Arbiter.thy ===== *)
theory Droid_Arbiter
  imports Droid_Greeks "HOL-Library.Multiset"
begin

text \<open>
  \<open>backend/app/signals/risk/cross_desk_arbiter.py\<close>: permission of a candidate against the open trades
  of the scalp and the intraday desk, with the Greeks ledger's veto. Trades are read with \<open>getattr\<close>,
  so an attribute may be absent, a string or an enum member; message texts are left out.
\<close>

subsection \<open>Trades\<close>

datatype attr_value = Absent | Text string | Member string string

text \<open>\<open>str\<close> of an attribute; a member of a string enum prints as class and name.\<close>

fun attr_str :: "attr_value \<Rightarrow> string" where
  "attr_str Absent = []"
| "attr_str (Text s) = s"
| "attr_str (Member c n) = c @ ''.'' @ n"

fun attr_falsy :: "attr_value \<Rightarrow> bool" where
  "attr_falsy Absent \<longleftrightarrow> True"
| "attr_falsy (Text s) \<longleftrightarrow> s = []"
| "attr_falsy (Member c n) \<longleftrightarrow> n = []"

record desk_trade =
  dt_underlying :: string
  dt_direction :: string
  dt_fsm_state :: attr_value
  dt_position_state :: attr_value
  dt_r_values :: "rat option list"
  dt_is_scalp :: bool
  dt_timeframe :: string

definition ACTIVE_SIGNAL_STATES :: "string list" where
  "ACTIVE_SIGNAL_STATES = [''CONFIRMED'', ''TARGET_1_HIT'', ''ACTIVE'', ''PARTIALLY_FILLED'']"

definition ACTIVE_POSITION_STATES :: "string list" where
  "ACTIVE_POSITION_STATES = [''OPEN'', ''T1_PARTIAL_EXIT'', ''PARTIALLY_FILLED'', ''ASSIGNED'']"

definition INDEX_FAMILY :: "string list" where
  "INDEX_FAMILY = [''NIFTY'', ''BANKNIFTY'', ''SENSEX'']"

definition CROSS_INDEX_BETA_HAIRCUT :: rat where "CROSS_INDEX_BETA_HAIRCUT = frnd (7/10)"

text \<open>The second reading of the position state only happens when it printed as the empty string.\<close>

definition trade_state :: "desk_trade \<Rightarrow> string" where
  "trade_state t =
     (let st = map to_upper (if \<not> attr_falsy (dt_fsm_state t) then attr_str (dt_fsm_state t)
                             else if \<not> attr_falsy (dt_position_state t) then attr_str (dt_position_state t) else [])
      in if st \<noteq> [] then st
         else map to_upper (case dt_position_state t of Member c n \<Rightarrow> n | Text s \<Rightarrow> s | Absent \<Rightarrow> []))"

definition is_active_trade :: "desk_trade \<Rightarrow> bool" where
  "is_active_trade t \<longleftrightarrow> trade_state t \<in> set ACTIVE_SIGNAL_STATES \<or> trade_state t \<in> set ACTIVE_POSITION_STATES"

text \<open>The first multiple that is set, of \<open>r_multiple\<close>, \<open>unrealized_r\<close>, \<open>realized_rr\<close> and \<open>pnl_r\<close>.\<close>

definition trade_r_multiple :: "desk_trade \<Rightarrow> rat" where
  "trade_r_multiple t = (case find (\<lambda>v. v \<noteq> None) (dt_r_values t) of Some (Some r) \<Rightarrow> r | _ \<Rightarrow> 0)"

definition is_scalp_trade :: "desk_trade \<Rightarrow> bool" where
  "is_scalp_trade t \<longleftrightarrow> dt_is_scalp t \<or> dt_timeframe t \<in> {''1M'', ''3M''}"

subsection \<open>Decisions\<close>

datatype arb_action = ALLOW | SUPPRESS | HARVEST_WARNING | REDUCE_SIZE

record arb_decision =
  ad_action :: arb_action
  ad_passed :: bool
  ad_suggest :: "string option"
  ad_sizing :: rat

definition allow_decision :: "rat \<Rightarrow> arb_decision" where
  "allow_decision m = \<lparr>ad_action = ALLOW, ad_passed = True, ad_suggest = None, ad_sizing = m\<rparr>"

record arb_candidate =
  ac_is_scalp :: bool
  ac_underlying :: string
  ac_direction :: string
  ac_greeks :: "(string, rat option) dict"
  ac_quantity :: "int option"
  ac_expiry :: "string option"
  ac_horizon :: "string option"

text \<open>\<open>float(g.get(k, d) or d)\<close>.\<close>

definition greek_or :: "(string, rat option) dict \<Rightarrow> string \<Rightarrow> rat \<Rightarrow> rat" where
  "greek_or g k d = (case map_of g k of Some (Some v) \<Rightarrow> if v = 0 then d else v | _ \<Rightarrow> d)"

definition theta_of :: "(string, rat option) dict \<Rightarrow> rat" where
  "theta_of g = (if map_of g ''theta_day'' = None then greek_or g ''theta'' (-10) else greek_or g ''theta_day'' (-10))"

definition candidate_position :: "arb_candidate \<Rightarrow> int \<Rightarrow> greek_position" where
  "candidate_position c q = (let g = ac_greeks c in
     \<lparr>gp_id = [], gp_underlying = ac_underlying c,
      gp_horizon = (if or_else (ac_horizon c) [] \<noteq> [] then or_else (ac_horizon c) []
                    else if ac_is_scalp c then ''SCALP'' else ''INTRADAY''),
      gp_kind = (if occurs_in ''CALL'' (map to_upper (ac_direction c)) then CE else PE),
      gp_strike = greek_or g ''strike'' 0, gp_expiry = or_else (ac_expiry c) [], gp_quantity = q,
      gp_delta = greek_or g ''delta'' (1/2), gp_gamma = greek_or g ''gamma'' (frnd (5/10000)), gp_theta = theta_of g,
      gp_vega = greek_or g ''vega'' 10\<rparr>)"

definition ledger_veto :: "arb_candidate \<Rightarrow> greeks_ledger \<Rightarrow> bool" where
  "ledger_veto c gl = (ac_greeks c \<noteq> [] \<and> or_else (ac_quantity c) 0 \<noteq> 0
     \<and> \<not> mr_allowed (evaluate_marginal_trade (candidate_position c (or_else (ac_quantity c) 0)) gl))"

definition beta_multiplier :: "arb_candidate \<Rightarrow> desk_trade list \<Rightarrow> rat" where
  "beta_multiplier c ts =
     (if ac_underlying c \<in> set INDEX_FAMILY
         \<and> (\<exists>t \<in> set ts. dt_underlying t \<in> set INDEX_FAMILY \<and> dt_underlying t \<noteq> ac_underlying c \<and> is_active_trade t
                          \<and> dt_direction t \<noteq> ac_direction c)
      then CROSS_INDEX_BETA_HAIRCUT else 1)"

definition with_beta :: "rat \<Rightarrow> arb_decision \<Rightarrow> arb_decision" where
  "with_beta b d = (if b < 1 \<and> ad_passed d then
     (let m = round2 (frnd (ad_sizing d * b)) in
      d\<lparr>ad_sizing := m, ad_action := (if ad_action d = ALLOW \<and> m < 1 then REDUCE_SIZE else ad_action d)\<rparr>)
     else d)"

subsection \<open>Scalp against intraday\<close>

text \<open>What the loop over the intraday trades collects.\<close>

record conflicts =
  cf_suppress :: nat
  cf_harvest :: bool
  cf_sizing :: rat

definition see_trade :: "arb_candidate \<Rightarrow> desk_trade \<Rightarrow> conflicts \<Rightarrow> conflicts" where
  "see_trade c t cf =
     (let same = (dt_direction t = ac_direction c); r = trade_r_multiple t in
      if r < 0 then (if \<not> same then cf\<lparr>cf_suppress := cf_suppress cf + 1\<rparr>
                     else if r < -1/2 then cf\<lparr>cf_sizing := min (cf_sizing cf) (3/4)\<rparr> else cf)
      else if 1 \<le> r then (if same then cf else cf\<lparr>cf_harvest := True\<rparr>)
      else if same then cf else cf\<lparr>cf_suppress := cf_suppress cf + 1\<rparr>)"

definition scalp_conflicts :: "arb_candidate \<Rightarrow> desk_trade list \<Rightarrow> conflicts" where
  "scalp_conflicts c ts = fold (see_trade c) ts \<lparr>cf_suppress = 0, cf_harvest = False, cf_sizing = 1\<rparr>"

definition suppress_decision :: "rat \<Rightarrow> arb_decision" where
  "suppress_decision m = \<lparr>ad_action = SUPPRESS, ad_passed = False, ad_suggest = None, ad_sizing = m\<rparr>"

definition scalp_decision :: "conflicts \<Rightarrow> rat \<Rightarrow> arb_decision" where
  "scalp_decision cf b =
     (if 0 < cf_suppress cf then suppress_decision 1
      else if cf_harvest cf then with_beta b \<lparr>ad_action = HARVEST_WARNING, ad_passed = True,
        ad_suggest = Some ''TIGHTEN_STOP_TO_BE'', ad_sizing = 1/2\<rparr>
      else if cf_sizing cf < 1 then with_beta b (allow_decision (cf_sizing cf))
      else with_beta b (allow_decision 1))"

definition arbitrate :: "arb_candidate \<Rightarrow> desk_trade list \<Rightarrow> greeks_ledger \<Rightarrow> arb_decision" where
  "arbitrate c ts gl =
     (let mine = filter (\<lambda>t. dt_underlying t = ac_underlying c \<and> is_active_trade t) ts; b = beta_multiplier c ts in
      if ledger_veto c gl then suppress_decision 0
      else if mine = [] then
        (if b < 1 then \<lparr>ad_action = REDUCE_SIZE, ad_passed = True, ad_suggest = None, ad_sizing = b\<rparr> else allow_decision 1)
      else if ac_is_scalp c then
        (let intraday = filter (\<lambda>t. \<not> is_scalp_trade t) mine in
         if intraday = [] then with_beta b (allow_decision 1) else scalp_decision (scalp_conflicts c intraday) b)
      else if filter (\<lambda>t. is_scalp_trade t \<and> dt_direction t \<noteq> ac_direction c) mine \<noteq> []
        then with_beta b (allow_decision 1\<lparr>ad_suggest := Some ''MONITOR_SCALP_EXIT''\<rparr>)
      else with_beta b (allow_decision 1))"

subsection \<open>The order of the trades\<close>

lemma see_trade_commute: "see_trade c t \<circ> see_trade c u = see_trade c u \<circ> see_trade c t"
  by (rule ext) (simp add: see_trade_def Let_def min.commute)

lemma scalp_conflicts_perm: "mset ts = mset us \<Longrightarrow> scalp_conflicts c ts = scalp_conflicts c us"
  unfolding scalp_conflicts_def by (metis fold_multiset_equiv see_trade_commute)

text \<open>The worst conflict wins: the decision depends on which trades are open, never on the order they are
  listed in.\<close>

theorem arbitrate_order_independent:
  assumes "mset ts = mset us" shows "arbitrate c ts gl = arbitrate c us gl"
proof -
  have e: "filter P ts = [] \<longleftrightarrow> filter P us = []" for P
    using arg_cong [OF assms, of "filter_mset P"] by (metis mset_filter mset_zero_iff)
  have f: "mset (filter P ts) = mset (filter P us)" for P using assms by simp
  have b: "beta_multiplier c ts = beta_multiplier c us"
    using mset_eq_setD [OF assms] by (simp add: beta_multiplier_def)
  have s: "scalp_conflicts c (filter P ts) = scalp_conflicts c (filter P us)" for P
    by (rule scalp_conflicts_perm) (rule f)
  show ?thesis unfolding arbitrate_def Let_def filter_filter b s e ..
qed

lemma suppress_counts:
  "cf_suppress (fold (see_trade c) ts cf) = cf_suppress cf
     + length (filter (\<lambda>t. dt_direction t \<noteq> ac_direction c \<and> trade_r_multiple t < 1) ts)"
proof (induction ts arbitrary: cf)
  case (Cons t ts)
  have "cf_suppress (see_trade c t cf)
      = cf_suppress cf + (if dt_direction t \<noteq> ac_direction c \<and> trade_r_multiple t < 1 then 1 else 0)"
    by (auto simp: see_trade_def Let_def)
  with Cons.IH [of "see_trade c t cf"] show ?case by simp
qed simp

text \<open>A scalp never trades against a stressed intraday position: if any open intraday trade of the
  underlying faces the other way and is below one multiple of its risk, the candidate is refused,
  wherever that trade stands in the list and whatever the others would allow.\<close>

theorem opposing_scalp_refused:
  assumes "ac_is_scalp c" "t \<in> set ts" "dt_underlying t = ac_underlying c" "is_active_trade t" "\<not> is_scalp_trade t"
    and "dt_direction t \<noteq> ac_direction c" "trade_r_multiple t < 1"
  shows "\<not> ad_passed (arbitrate c ts gl)"
proof -
  let ?i = "filter (\<lambda>t. \<not> is_scalp_trade t) (filter (\<lambda>t. dt_underlying t = ac_underlying c \<and> is_active_trade t) ts)"
  have t: "t \<in> set ?i" using assms by simp
  then have "t \<in> set (filter (\<lambda>t. dt_direction t \<noteq> ac_direction c \<and> trade_r_multiple t < 1) ?i)" using assms(6,7) by simp
  then have "0 < cf_suppress (scalp_conflicts c ?i)"
    unfolding scalp_conflicts_def suppress_counts conflicts.simps add_0 by (rule length_pos_if_in_set)
  moreover have "?i \<noteq> []" "filter (\<lambda>t. dt_underlying t = ac_underlying c \<and> is_active_trade t) ts \<noteq> []"
    using t assms by (metis empty_iff empty_set) (use assms in \<open>auto simp: filter_empty_conv\<close>)
  ultimately show ?thesis
    using assms(1) by (simp add: arbitrate_def Let_def scalp_decision_def suppress_decision_def)
qed

text \<open>Portfolio positions are invisible to the arbiter: a trade described by a \<open>PositionState\<close> member (and no
  signal state) prints as \<open>PositionState.OPEN\<close> and is never active, so a book of such positions is
  judged as an empty one.\<close>

theorem positions_invisible:
  assumes "\<And>t. t \<in> set ts \<Longrightarrow> attr_falsy (dt_fsm_state t) \<and> (\<exists>n. dt_position_state t = Member ''PositionState'' n \<and> n \<noteq> [])"
  shows "arbitrate c ts gl = arbitrate c [] gl"
proof -
  have "\<not> is_active_trade t" if t: "t \<in> set ts" for t
  proof -
    obtain n where "dt_position_state t = Member ''PositionState'' n" "n \<noteq> []" "attr_falsy (dt_fsm_state t)"
      using assms t by blast
    moreover have "map to_upper (''PositionState.'' @ n) = ''POSITIONSTATE.'' @ map to_upper n"
      unfolding map_append by (rule arg_cong [of _ _ "\<lambda>x. x @ map to_upper n"]) code_simp
    ultimately have "trade_state t = ''POSITIONSTATE.'' @ map to_upper n"
      by (simp add: trade_state_def Let_def del: map_append)
    then show ?thesis by (simp add: is_active_trade_def ACTIVE_SIGNAL_STATES_def ACTIVE_POSITION_STATES_def)
  qed
  then have "filter (\<lambda>t. dt_underlying t = ac_underlying c \<and> is_active_trade t) ts = []" "beta_multiplier c ts = beta_multiplier c []"
    by (auto simp: filter_empty_conv beta_multiplier_def)
  then show ?thesis by (simp add: arbitrate_def)
qed

definition demo_trade :: desk_trade where
  "demo_trade = \<lparr>dt_underlying = ''NIFTY'', dt_direction = ''LONG_CALL'', dt_fsm_state = Text ''CONFIRMED'', dt_position_state = Absent,
     dt_r_values = [None, Some (- 1/5)], dt_is_scalp = False, dt_timeframe = ''5M''\<rparr>"

definition demo_candidate :: arb_candidate where
  "demo_candidate = \<lparr>ac_is_scalp = True, ac_underlying = ''NIFTY'', ac_direction = ''LONG_PUT'', ac_greeks = [], ac_quantity = None,
     ac_expiry = None, ac_horizon = None\<rparr>"

lemma demo_trade_facts:
  "dt_underlying demo_trade = ac_underlying demo_candidate" "is_active_trade demo_trade" "\<not> is_scalp_trade demo_trade"
  "dt_direction demo_trade \<noteq> ac_direction demo_candidate" "trade_r_multiple demo_trade < 1" "ac_is_scalp demo_candidate"
  by code_simp+

theorem opposing_scalp_refused_witness: "\<not> ad_passed (arbitrate demo_candidate [demo_trade] (greeks_ledger_init None))"
  by (rule opposing_scalp_refused [of _ demo_trade]) (simp_all add: demo_trade_facts)

theorem arbitrate_order_independent_witness:
  "arbitrate demo_candidate [demo_trade, demo_trade\<lparr>dt_r_values := [Some 2]\<rparr>] (greeks_ledger_init None)
     = arbitrate demo_candidate [demo_trade\<lparr>dt_r_values := [Some 2]\<rparr>, demo_trade] (greeks_ledger_init None)"
  by (rule arbitrate_order_independent) simp

theorem positions_invisible_witness:
  "ad_passed (arbitrate demo_candidate [demo_trade\<lparr>dt_fsm_state := Absent, dt_position_state := Member ''PositionState'' ''OPEN''\<rparr>]
     (greeks_ledger_init None))"
proof -
  have "arbitrate demo_candidate [demo_trade\<lparr>dt_fsm_state := Absent, dt_position_state := Member ''PositionState'' ''OPEN''\<rparr>]
      (greeks_ledger_init None) = arbitrate demo_candidate [] (greeks_ledger_init None)"
    by (rule positions_invisible) simp
  then show ?thesis
    by (simp add: arbitrate_def ledger_veto_def demo_candidate_def beta_multiplier_def allow_decision_def)
qed

end
