(* ===== verification/Droid_Calendar.thy ===== *)
theory Droid_Calendar
  imports Droid_Prelude
begin

text \<open>
  \<open>backend/app/services/calendar_service.py\<close>: trading days, sessions and the trading permission.

  A date is its proleptic Gregorian ordinal, a local (IST) date and time is the number of microseconds
  since ordinal 0. The limits of Python's \<open>date\<close> (years 1 to 9999) are left out. The search loops are
  partial functions: that they return is proved, with the bound on how far they look.
\<close>

subsection \<open>Dates\<close>

definition is_leap :: "int \<Rightarrow> bool" where
  "is_leap y \<longleftrightarrow> y mod 4 = 0 \<and> (y mod 100 \<noteq> 0 \<or> y mod 400 = 0)"

definition days_before_year :: "int \<Rightarrow> int" where
  "days_before_year y = (let p = y - 1 in p * 365 + p div 4 - p div 100 + p div 400)"

definition days_before_month :: "int \<Rightarrow> int \<Rightarrow> int" where
  "days_before_month y m = [0, 31, 59, 90, 120, 151, 181, 212, 243, 273, 304, 334] ! nat (m - 1)
     + (if 2 < m \<and> is_leap y then 1 else 0)"

definition date_ord :: "int \<Rightarrow> int \<Rightarrow> int \<Rightarrow> int" where
  "date_ord y m d = days_before_year y + days_before_month y m + d"

text \<open>Monday is 0.\<close>

definition weekday :: "int \<Rightarrow> int" where
  "weekday d = (d + 6) mod 7"

definition US_PER_DAY :: int where "US_PER_DAY = 86400000000"

text \<open>A time of day in microseconds.\<close>

definition time_of :: "int \<Rightarrow> int \<Rightarrow> int" where
  "time_of h m = (h * 60 + m) * 60000000"

definition combine :: "int \<Rightarrow> int \<Rightarrow> int" where
  "combine d t = d * US_PER_DAY + t"

definition date_of :: "int \<Rightarrow> int" where
  "date_of t = t div US_PER_DAY"

subsection \<open>The exchange tables\<close>

definition NSE_HOLIDAYS :: "(int, string) dict" where
  "NSE_HOLIDAYS = [
    (date_ord 2024 1 22, ''Special Holiday (Ayodhya Pran Pratishtha)''), (date_ord 2024 1 26, ''Republic Day''),
    (date_ord 2024 3 8, ''Maha Shivratri''), (date_ord 2024 3 25, ''Holi''), (date_ord 2024 3 29, ''Good Friday''),
    (date_ord 2024 4 11, ''Id-Ul-Fitr''), (date_ord 2024 4 17, ''Ram Navami''),
    (date_ord 2024 5 1, ''Maharashtra Day''), (date_ord 2024 5 20, ''General Elections''),
    (date_ord 2024 6 17, ''Bakri Id''), (date_ord 2024 7 17, ''Muharram''), (date_ord 2024 8 15, ''Independence Day''),
    (date_ord 2024 10 2, ''Mahatma Gandhi Jayanti''), (date_ord 2024 11 1, ''Diwali Laxmi Pujan''),
    (date_ord 2024 11 15, ''Gurunanak Jayanti''), (date_ord 2024 11 20, ''Maharashtra Assembly Elections''),
    (date_ord 2024 12 25, ''Christmas''), (date_ord 2025 2 26, ''Maha Shivratri''), (date_ord 2025 3 14, ''Holi''),
    (date_ord 2025 3 31, ''Id-Ul-Fitr''), (date_ord 2025 4 10, ''Mahavir Jayanti''),
    (date_ord 2025 4 14, ''Dr. Baba Saheb Ambedkar Jayanti''), (date_ord 2025 4 18, ''Good Friday''),
    (date_ord 2025 5 1, ''Maharashtra Day''), (date_ord 2025 8 15, ''Independence Day''),
    (date_ord 2025 8 27, ''Ganesh Chaturthi''), (date_ord 2025 10 2, ''Mahatma Gandhi Jayanti / Dussehra''),
    (date_ord 2025 10 21, ''Diwali Laxmi Pujan''), (date_ord 2025 10 22, ''Diwali Balipratipada''),
    (date_ord 2025 11 5, ''Gurunanak Jayanti''), (date_ord 2025 12 25, ''Christmas''),
    (date_ord 2026 1 26, ''Republic Day''), (date_ord 2026 3 3, ''Holi''), (date_ord 2026 3 20, ''Id-Ul-Fitr''),
    (date_ord 2026 4 3, ''Good Friday''), (date_ord 2026 4 14, ''Dr. Baba Saheb Ambedkar Jayanti''),
    (date_ord 2026 5 1, ''Maharashtra Day''), (date_ord 2026 8 15, ''Independence Day''),
    (date_ord 2026 10 2, ''Mahatma Gandhi Jayanti''), (date_ord 2026 10 20, ''Dussehra''),
    (date_ord 2026 11 8, ''Diwali Laxmi Pujan''), (date_ord 2026 11 24, ''Gurunanak Jayanti''),
    (date_ord 2026 12 25, ''Christmas''), (date_ord 2027 1 26, ''Republic Day''), (date_ord 2027 3 22, ''Holi''),
    (date_ord 2027 3 26, ''Good Friday''), (date_ord 2027 4 14, ''Dr. Ambedkar Jayanti''),
    (date_ord 2027 5 1, ''Maharashtra Day''), (date_ord 2027 8 15, ''Independence Day''),
    (date_ord 2027 10 2, ''Mahatma Gandhi Jayanti''), (date_ord 2027 12 25, ''Christmas'')]"

definition SPECIAL_SESSIONS :: "(int, int \<times> int \<times> string) dict" where
  "SPECIAL_SESSIONS = [
    (date_ord 2024 11 1, (time_of 18 0, time_of 19 0, ''Diwali Muhurat Trading'')),
    (date_ord 2025 10 21, (time_of 18 15, time_of 19 15, ''Diwali Muhurat Trading'')),
    (date_ord 2026 11 8, (time_of 18 15, time_of 19 15, ''Diwali Muhurat Trading''))]"

definition REGULAR_OPEN :: int where "REGULAR_OPEN = time_of 9 15"
definition REGULAR_CLOSE :: int where "REGULAR_CLOSE = time_of 15 30"

definition is_special :: "int \<Rightarrow> bool" where
  "is_special d \<longleftrightarrow> map_of SPECIAL_SESSIONS d \<noteq> None"

definition is_weekend :: "int \<Rightarrow> bool" where
  "is_weekend d \<longleftrightarrow> 5 \<le> weekday d"

definition get_holiday_name :: "int \<Rightarrow> string option" where
  "get_holiday_name d = map_of NSE_HOLIDAYS d"

definition is_holiday :: "int \<Rightarrow> bool" where
  "is_holiday d \<longleftrightarrow> \<not> is_special d \<and> map_of NSE_HOLIDAYS d \<noteq> None"

definition is_trading_day :: "int \<Rightarrow> bool" where
  "is_trading_day d \<longleftrightarrow> is_special d \<or> (\<not> is_weekend d \<and> \<not> is_holiday d)"

record session_info =
  si_trading :: bool
  si_holiday :: bool
  si_weekend :: bool
  si_name :: "string option"
  si_special :: bool
  si_open :: "int option"
  si_close :: "int option"

definition get_session_info :: "int \<Rightarrow> session_info" where
  "get_session_info d =
     (if \<not> is_trading_day d then \<lparr>si_trading = False, si_holiday = is_holiday d, si_weekend = is_weekend d,
         si_name = get_holiday_name d, si_special = False, si_open = None, si_close = None\<rparr>
      else case map_of SPECIAL_SESSIONS d of
        Some (o', c, n) \<Rightarrow> \<lparr>si_trading = True, si_holiday = False, si_weekend = is_weekend d, si_name = Some n,
          si_special = True, si_open = Some (combine d o'), si_close = Some (combine d c)\<rparr>
      | None \<Rightarrow> \<lparr>si_trading = True, si_holiday = False, si_weekend = is_weekend d, si_name = None, si_special = False,
          si_open = Some (combine d REGULAR_OPEN), si_close = Some (combine d REGULAR_CLOSE)\<rparr>)"

subsection \<open>Searches\<close>

partial_function (option) back_to_trading :: "int \<Rightarrow> int option" where
  "back_to_trading d = (if is_trading_day d then Some d else back_to_trading (d - 1))"

partial_function (option) on_to_trading :: "int \<Rightarrow> int option" where
  "on_to_trading d = (if is_trading_day d then Some d else on_to_trading (d + 1))"

definition previous_trading_day :: "int \<Rightarrow> int option" where
  "previous_trading_day d = back_to_trading (d - 1)"

definition next_trading_day :: "int \<Rightarrow> int option" where
  "next_trading_day d = on_to_trading (d + 1)"

definition adjust_expiry_if_holiday :: "int \<Rightarrow> int option" where
  "adjust_expiry_if_holiday d = back_to_trading d"

subsection \<open>Permission\<close>

datatype session_kind = SESSION_REGULAR | SESSION_SPECIAL | SESSION_CLOSED

record permission =
  mp_allowed :: bool
  mp_reason :: string
  mp_session :: session_kind
  mp_time :: int
  mp_open :: "int option"
  mp_close :: "int option"

datatype clock_time = Naive int | Aware int

text \<open>Naive times are taken as IST, aware ones (in UTC) are shifted by five and a half hours.\<close>

definition to_ist :: "clock_time \<Rightarrow> int" where
  "to_ist t = (case t of Naive n \<Rightarrow> n | Aware u \<Rightarrow> u + 19800000000)"

definition closed_permission :: "string \<Rightarrow> int \<Rightarrow> int option \<Rightarrow> int option \<Rightarrow> permission" where
  "closed_permission reason t o' c = \<lparr>mp_allowed = False, mp_reason = reason, mp_session = SESSION_CLOSED, mp_time = t,
     mp_open = o', mp_close = c\<rparr>"

definition can_trade_now :: "clock_time \<Rightarrow> permission" where
  "can_trade_now target =
     (let t = to_ist target; today = date_of t in
      if is_weekend today \<and> \<not> is_special today then closed_permission ''WEEKEND'' t None None
      else if is_holiday today
        then closed_permission (''HOLIDAY: '' @ (case get_holiday_name today of Some n \<Rightarrow> if n = [] then ''HOLIDAY'' else n
                                                                            | None \<Rightarrow> ''HOLIDAY'')) t None None
      else (let info = get_session_info today in
        case (si_trading info, si_open info, si_close info) of
          (True, Some o', Some c) \<Rightarrow>
            if t < o' then closed_permission ''PRE_OPEN'' t (Some o') (Some c)
            else if c \<le> t then closed_permission ''MARKET_CLOSED'' t (Some o') (Some c)
            else \<lparr>mp_allowed = True, mp_reason = ''MARKET_OPEN'',
                  mp_session = (if si_special info then SESSION_SPECIAL else SESSION_REGULAR), mp_time = t,
                  mp_open = Some o', mp_close = Some c\<rparr>
        | _ \<Rightarrow> closed_permission (or_else (si_name info) ''MARKET_CLOSED'') t None None))"

definition is_market_open_now :: "clock_time \<Rightarrow> bool" where
  "is_market_open_now t = mp_allowed (can_trade_now t)"

subsection \<open>The searches return\<close>

text \<open>Holidays on which the exchange is really shut are at least four days apart.\<close>

definition shut_days :: "int list" where
  "shut_days = filter (\<lambda>d. \<not> is_special d) (map fst NSE_HOLIDAYS)"

lemma shut_days_eval: "successively (\<lambda>a b. a + 4 \<le> b) shut_days"
  by code_simp

lemma holiday_shut: "is_holiday d \<longleftrightarrow> d \<in> set shut_days"
  by (auto simp: is_holiday_def shut_days_def map_of_eq_None_iff)

lemma shut_days_apart: "a \<in> set shut_days \<Longrightarrow> b \<in> set shut_days \<Longrightarrow> a < b \<Longrightarrow> a + 4 \<le> b"
proof -
  have t: "transp (\<lambda>a b::int. a + 4 \<le> b)" by (auto intro!: transpI)
  have "sorted_wrt (\<lambda>a b. a + 4 \<le> b) shut_days"
    using shut_days_eval successively_conv_sorted_wrt [OF t] by blast
  moreover have "a \<in> set xs \<Longrightarrow> b \<in> set xs \<Longrightarrow> a < b \<Longrightarrow> sorted_wrt (\<lambda>a b. a + 4 \<le> b) xs \<Longrightarrow> a + 4 \<le> b" for xs :: "int list"
    by (induction xs) auto
  ultimately show "a \<in> set shut_days \<Longrightarrow> b \<in> set shut_days \<Longrightarrow> a < b \<Longrightarrow> a + 4 \<le> b" by blast
qed

lemma not_trading: "\<not> is_trading_day d \<Longrightarrow> 5 \<le> (d + 6) mod 7 \<or> d \<in> set shut_days"
  by (auto simp: is_trading_day_def is_weekend_def weekday_def holiday_shut)

lemma weekend_window: "\<not> ((5 \<le> (d + 6) mod 7 \<and> 5 \<le> (d + 1 + 6) mod 7 \<and> 5 \<le> (d + 2 + 6) mod 7)
    \<or> (5 \<le> (d + 6) mod 7 \<and> 5 \<le> (d + 1 + 6) mod 7 \<and> 5 \<le> (d + 3 + 6) mod 7)
    \<or> (5 \<le> (d + 6) mod 7 \<and> 5 \<le> (d + 2 + 6) mod 7 \<and> 5 \<le> (d + 3 + 6) mod 7)
    \<or> (5 \<le> (d + 1 + 6) mod 7 \<and> 5 \<le> (d + 2 + 6) mod 7 \<and> 5 \<le> (d + 3 + 6) mod (7::int)))"
proof -
  define r where "r = (d + 6) mod 7"
  have m: "(d + 1 + 6) mod 7 = (r + 1) mod 7" "(d + 2 + 6) mod 7 = (r + 2) mod 7" "(d + 3 + 6) mod 7 = (r + 3) mod 7"
    unfolding r_def mod_add_left_eq by (simp_all add: algebra_simps)
  have "0 \<le> r" "r < 7" by (simp_all add: r_def)
  then consider "r = 0" | "r = 1" | "r = 2" | "r = 3" | "r = 4" | "r = 5" | "r = 6" by linarith
  then show ?thesis unfolding m r_def [symmetric] by cases simp_all
qed

lemma trading_within: "\<exists>k \<in> {0, 1, 2, 3}. is_trading_day (d + k)"
proof (rule ccontr)
  assume "\<not> ?thesis"
  then have n: "\<not> is_trading_day (d + k)" if "k \<in> {0, 1, 2, 3}" for k using that by blast
  note w = not_trading [OF n [of 0], simplified] not_trading [OF n [of 1], simplified]
    not_trading [OF n [of 2], simplified] not_trading [OF n [of 3], simplified]
  note a = shut_days_apart
  have "\<not> (d \<in> set shut_days \<and> d + 1 \<in> set shut_days)" "\<not> (d \<in> set shut_days \<and> d + 2 \<in> set shut_days)"
    "\<not> (d \<in> set shut_days \<and> d + 3 \<in> set shut_days)" "\<not> (d + 1 \<in> set shut_days \<and> d + 2 \<in> set shut_days)"
    "\<not> (d + 1 \<in> set shut_days \<and> d + 3 \<in> set shut_days)" "\<not> (d + 2 \<in> set shut_days \<and> d + 3 \<in> set shut_days)"
    using a [of d "d + 1"] a [of d "d + 2"] a [of d "d + 3"] a [of "d + 1" "d + 2"] a [of "d + 1" "d + 3"] a [of "d + 2" "d + 3"]
    by auto
  with w have "(5 \<le> (d + 6) mod 7 \<and> 5 \<le> (d + 1 + 6) mod 7 \<and> 5 \<le> (d + 2 + 6) mod 7)
    \<or> (5 \<le> (d + 6) mod 7 \<and> 5 \<le> (d + 1 + 6) mod 7 \<and> 5 \<le> (d + 3 + 6) mod 7)
    \<or> (5 \<le> (d + 6) mod 7 \<and> 5 \<le> (d + 2 + 6) mod 7 \<and> 5 \<le> (d + 3 + 6) mod 7)
    \<or> (5 \<le> (d + 1 + 6) mod 7 \<and> 5 \<le> (d + 2 + 6) mod 7 \<and> 5 \<le> (d + 3 + 6) mod 7)"
    by (simp add: add.commute) blast
  then show False using weekend_window by blast
qed

lemma back_run:
  "(\<And>j. j < k \<Longrightarrow> \<not> is_trading_day (d - int j)) \<Longrightarrow> is_trading_day (d - int k) \<Longrightarrow> back_to_trading d = Some (d - int k)"
proof (induction k arbitrary: d)
  case (Suc k)
  have "\<not> is_trading_day (d - 1 - int j)" if "j < k" for j using Suc.prems(1) [of "Suc j"] that by (simp add: algebra_simps)
  moreover have "is_trading_day (d - 1 - int k)" using Suc.prems(2) by (simp add: algebra_simps)
  ultimately have "back_to_trading (d - 1) = Some (d - 1 - int k)" by (rule Suc.IH)
  then show ?case using Suc.prems(1) [of 0] by (subst back_to_trading.simps) simp
qed (simp add: back_to_trading.simps)

lemma on_run:
  "(\<And>j. j < k \<Longrightarrow> \<not> is_trading_day (d + int j)) \<Longrightarrow> is_trading_day (d + int k) \<Longrightarrow> on_to_trading d = Some (d + int k)"
proof (induction k arbitrary: d)
  case (Suc k)
  have "\<not> is_trading_day (d + 1 + int j)" if "j < k" for j using Suc.prems(1) [of "Suc j"] that by (simp add: algebra_simps)
  moreover have "is_trading_day (d + 1 + int k)" using Suc.prems(2) by (simp add: algebra_simps)
  ultimately have "on_to_trading (d + 1) = Some (d + 1 + int k)" by (rule Suc.IH)
  then show ?case using Suc.prems(1) [of 0] by (subst on_to_trading.simps) simp
qed (simp add: on_to_trading.simps)

lemma first_hit:
  fixes P :: "nat \<Rightarrow> bool"
  assumes "\<exists>k \<le> 3. P k" obtains k where "k \<le> 3" "P k" "\<And>j. j < k \<Longrightarrow> \<not> P j"
  using assms LeastI_ex [of P] not_less_Least [of _ P] Least_le [of P] by (metis (full_types) le_trans)

lemma back_to_trading_found:
  obtains x where "back_to_trading d = Some x" "is_trading_day x" "d - 3 \<le> x" "x \<le> d" "{y. x < y \<and> y \<le> d \<and> is_trading_day y} = {}"
proof -
  have "\<exists>k \<le> 3. is_trading_day (d - int k)"
  proof -
    obtain k where k: "k \<in> {0, 1, 2, 3}" "is_trading_day (d - 3 + k)" using trading_within [of "d - 3"] by blast
    then have "is_trading_day (d - int (nat (3 - k)))" "nat (3 - k) \<le> 3" by auto
    then show ?thesis by blast
  qed
  then obtain k where k: "k \<le> 3" "is_trading_day (d - int k)" "\<And>j. j < k \<Longrightarrow> \<not> is_trading_day (d - int j)"
    using first_hit [of "\<lambda>k. is_trading_day (d - int k)"] by blast
  have "\<not> is_trading_day y" if "d - int k < y" "y \<le> d" for y using k(3) [of "nat (d - y)"] that by simp
  then show ?thesis using that [OF back_run [OF k(3,2)] k(2)] k(1) by auto
qed

lemma on_to_trading_found:
  obtains x where "on_to_trading d = Some x" "is_trading_day x" "d \<le> x" "x \<le> d + 3" "{y. d \<le> y \<and> y < x \<and> is_trading_day y} = {}"
proof -
  have "\<exists>k \<le> 3. is_trading_day (d + int k)"
  proof -
    obtain k where "k \<in> {0, 1, 2, 3}" "is_trading_day (d + k)" using trading_within [of d] by blast
    then have "is_trading_day (d + int (nat k))" "nat k \<le> 3" by auto
    then show ?thesis by blast
  qed
  then obtain k where k: "k \<le> 3" "is_trading_day (d + int k)" "\<And>j. j < k \<Longrightarrow> \<not> is_trading_day (d + int j)"
    using first_hit [of "\<lambda>k. is_trading_day (d + int k)"] by blast
  have "\<not> is_trading_day y" if "d \<le> y" "y < d + int k" for y using k(3) [of "nat (y - d)"] that by simp
  then show ?thesis using that [OF on_run [OF k(3,2)] k(2)] k(1) by auto
qed

text \<open>C35. The calendar searches end, within four days, at the nearest trading day: the previous and the next
  trading day and the expiry moved back from a holiday are trading days with no trading day between.\<close>

theorem trading_day_searches_return:
  "(\<exists>x. previous_trading_day d = Some x \<and> is_trading_day x \<and> d - 4 \<le> x \<and> x < d \<and> {y. x < y \<and> y < d \<and> is_trading_day y} = {})
   \<and> (\<exists>x. next_trading_day d = Some x \<and> is_trading_day x \<and> d < x \<and> x \<le> d + 4 \<and> {y. d < y \<and> y < x \<and> is_trading_day y} = {})
   \<and> (\<exists>x. adjust_expiry_if_holiday d = Some x \<and> is_trading_day x \<and> d - 3 \<le> x \<and> x \<le> d
        \<and> {y. x < y \<and> y \<le> d \<and> is_trading_day y} = {})"
proof -
  obtain x where "back_to_trading (d - 1) = Some x" "is_trading_day x" "d - 1 - 3 \<le> x" "x \<le> d - 1"
    "{y. x < y \<and> y \<le> d - 1 \<and> is_trading_day y} = {}" by (rule back_to_trading_found)
  moreover obtain z where "on_to_trading (d + 1) = Some z" "is_trading_day z" "d + 1 \<le> z" "z \<le> d + 1 + 3"
    "{y. d + 1 \<le> y \<and> y < z \<and> is_trading_day y} = {}" by (rule on_to_trading_found)
  moreover obtain e where "back_to_trading d = Some e" "is_trading_day e" "d - 3 \<le> e" "e \<le> d"
    "{y. e < y \<and> y \<le> d \<and> is_trading_day y} = {}" by (rule back_to_trading_found)
  ultimately show ?thesis
    by (simp add: previous_trading_day_def next_trading_day_def adjust_expiry_if_holiday_def)
qed

text \<open>The hours of a trading day.\<close>

definition session_hours :: "int \<Rightarrow> int \<times> int" where
  "session_hours d = (case map_of SPECIAL_SESSIONS d of Some (o', c, n) \<Rightarrow> (combine d o', combine d c)
     | None \<Rightarrow> (combine d REGULAR_OPEN, combine d REGULAR_CLOSE))"

text \<open>Trading is permitted exactly from the opening to before the closing of a trading day's session, which
  is the special session where there is one (also on a weekend) and the regular hours otherwise.\<close>

theorem can_trade_iff:
  "mp_allowed (can_trade_now t) \<longleftrightarrow> is_trading_day (date_of (to_ist t))
     \<and> fst (session_hours (date_of (to_ist t))) \<le> to_ist t \<and> to_ist t < snd (session_hours (date_of (to_ist t)))"
  by (auto simp: can_trade_now_def Let_def closed_permission_def get_session_info_def session_hours_def is_trading_day_def
      is_special_def is_holiday_def split: option.splits prod.splits)

end
