(* ===== verification/Droid_Staleness.thy ===== *)
theory Droid_Staleness
  imports Droid_Decimal
begin

text \<open>
  \<open>backend/app/services/staleness_guard.py\<close>: whether an AI answer may still be acted on. Prices are
  floats; times are microseconds since an epoch (naive times are read as UTC), and a difference becomes
  seconds as \<open>total_seconds\<close> computes it.
\<close>

record staleness_input =
  st_trigger_price :: rat
  st_trigger_atr :: rat
  st_trigger_time :: int
  st_trigger_version :: "int option"
  st_trigger_regime :: "string option"
  st_trigger_p50 :: "rat option"
  st_trigger_vwap :: "rat option"
  st_price :: "rat option"
  st_regime :: "string option"
  st_p50 :: "rat option"
  st_vwap :: "rat option"
  st_now :: int
  st_response_time :: "int option"
  st_max_drift :: rat
  st_max_age :: int
  st_version :: "int option"

datatype stale_reason = PRICE_DRIFT | RESPONSE_AGE | RESPONSE_TIMESTAMP_AGE | REGIME_CHANGED | P50_CHANGED | VWAP_CHANGED | VERSION_CHANGED

record staleness_result =
  sr_stale :: bool
  sr_reason :: "stale_reason option"
  sr_abort :: bool

definition DEFAULT_MAX_AI_PRICE_DRIFT_ATR :: rat where "DEFAULT_MAX_AI_PRICE_DRIFT_ATR = 1/2"
definition DEFAULT_MAX_RESPONSE_AGE_SECONDS :: int where "DEFAULT_MAX_RESPONSE_AGE_SECONDS = 30"

definition price_drifted :: "staleness_input \<Rightarrow> bool" where
  "price_drifted i = (case st_price i of None \<Rightarrow> False
     | Some p \<Rightarrow> 0 < st_trigger_atr i \<and> frnd (st_max_drift i * st_trigger_atr i) < \<bar>frnd (p - st_trigger_price i)\<bar>)"

definition too_old :: "staleness_input \<Rightarrow> int \<Rightarrow> bool" where
  "too_old i t \<longleftrightarrow> of_int (st_max_age i) < total_seconds (st_now i - t)"

definition regime_changed :: "staleness_input \<Rightarrow> bool" where
  "regime_changed i \<longleftrightarrow> or_else (st_trigger_regime i) [] \<noteq> [] \<and> or_else (st_regime i) [] \<noteq> []
     \<and> or_else (st_trigger_regime i) [] \<noteq> or_else (st_regime i) []"

definition direction_of :: "rat \<Rightarrow> rat \<Rightarrow> int" where
  "direction_of p50 price = (if price < p50 then 1 else if p50 < price then -1 else 0)"

text \<open>A missing or zero current price falls back to the trigger price.\<close>

definition p50_changed :: "staleness_input \<Rightarrow> bool" where
  "p50_changed i = (case (st_trigger_p50 i, st_p50 i) of
     (Some a, Some b) \<Rightarrow>
       (let cur = (case st_price i of Some p \<Rightarrow> if p = 0 then st_trigger_price i else p | None \<Rightarrow> st_trigger_price i);
            d = direction_of a (st_trigger_price i); e = direction_of b cur
        in d \<noteq> 0 \<and> e \<noteq> 0 \<and> d \<noteq> e)
   | _ \<Rightarrow> False)"

definition vwap_crossed :: "staleness_input \<Rightarrow> bool" where
  "vwap_crossed i = (case (st_trigger_vwap i, st_vwap i, st_price i) of
     (Some a, Some b, Some p) \<Rightarrow> (a < st_trigger_price i) \<noteq> (b < p) | _ \<Rightarrow> False)"

definition version_changed :: "staleness_input \<Rightarrow> bool" where
  "version_changed i = (case (st_version i, st_trigger_version i) of (Some a, Some b) \<Rightarrow> a \<noteq> b | _ \<Rightarrow> False)"

definition stale_result :: "stale_reason option \<Rightarrow> staleness_result" where
  "stale_result r = \<lparr>sr_stale = (r \<noteq> None), sr_reason = r, sr_abort = (r \<noteq> None)\<rparr>"

definition check_staleness :: "staleness_input \<Rightarrow> staleness_result" where
  "check_staleness i = stale_result
     (if price_drifted i then Some PRICE_DRIFT
      else if too_old i (st_trigger_time i) then Some RESPONSE_AGE
      else if too_old i (or_else (st_response_time i) (st_now i)) then Some RESPONSE_TIMESTAMP_AGE
      else if regime_changed i then Some REGIME_CHANGED
      else if p50_changed i then Some P50_CHANGED
      else if vwap_crossed i then Some VWAP_CHANGED
      else if version_changed i then Some VERSION_CHANGED
      else None)"

subsection \<open>An answer that passes is young and close\<close>

text \<open>An answer passes exactly when it and its trigger are within the maximal age to the microsecond, the price
  is within the drift bound, and neither the regime, the side of the median forecast, the side of the
  VWAP nor the state version changed; the abort flag is the stale flag.\<close>

theorem fresh_answer_iff:
  assumes "\<bar>st_max_age i\<bar> < 2 ^ 31"
  shows "\<not> sr_abort (check_staleness i) \<longleftrightarrow> \<not> price_drifted i
    \<and> st_now i - st_trigger_time i \<le> st_max_age i * 1000000
    \<and> st_now i - or_else (st_response_time i) (st_now i) \<le> st_max_age i * 1000000
    \<and> \<not> regime_changed i \<and> \<not> p50_changed i \<and> \<not> vwap_crossed i \<and> \<not> version_changed i"
proof -
  have "too_old i t \<longleftrightarrow> \<not> st_now i - t \<le> st_max_age i * 1000000" for t
    using total_seconds_le_iff [OF assms, of "st_now i - t"] by (metis too_old_def not_le)
  then show ?thesis by (auto simp: check_staleness_def stale_result_def)
qed

definition demo_answer :: staleness_input where
  "demo_answer = \<lparr>st_trigger_price = 24000, st_trigger_atr = 40, st_trigger_time = 0, st_trigger_version = Some 3,
     st_trigger_regime = Some ''TREND'', st_trigger_p50 = None, st_trigger_vwap = None, st_price = None, st_regime = None,
     st_p50 = None, st_vwap = None, st_now = 30000000, st_response_time = None, st_max_drift = 1/2, st_max_age = 30,
     st_version = Some 3\<rparr>"

theorem fresh_answer_iff_witness:
  "\<not> sr_abort (check_staleness demo_answer) \<and> sr_abort (check_staleness (demo_answer\<lparr>st_now := 30000001\<rparr>))"
  using fresh_answer_iff [of demo_answer] fresh_answer_iff [of "demo_answer\<lparr>st_now := 30000001\<rparr>"]
  by (simp add: demo_answer_def price_drifted_def regime_changed_def p50_changed_def vwap_crossed_def version_changed_def)

end
