(* ===== verification/Droid_Fills.thy ===== *)
theory Droid_Fills
  imports Droid_Paper
begin

text \<open>
  \<open>backend/app/signals/fill_reconciler.py\<close>: entry, staged and final exit fills of a signal's option
  position, with costs and realised profit.

  Prices are floats. The signal keeps decimals made from these floats by \<open>Decimal(str(x))\<close> and read back
  by \<open>float\<close>, which returns the same float; they are kept as the floats. Creation and update times, the
  intent and position links copied from the signal and message texts are left out, and so is the model
  price estimate, which the reconciler never calls.
\<close>

subsection \<open>Signals and records\<close>

record option_contract =
  oc_lot :: "int option"
  oc_symbol :: "string option"
  oc_type :: "string option"
  oc_strike :: "rat option"

text \<open>The fields of \<open>SignalInstance\<close> the reconciler reads or writes.\<close>

record fill_signal =
  fs_id :: string
  fs_underlying :: string
  fs_strategy :: string
  fs_direction :: string
  fs_contract :: "option_contract option"
  fs_trigger :: rat
  fs_fill_price :: "rat option"
  fs_entry_price :: "rat option"
  fs_intended :: rat
  fs_remaining :: rat
  fs_t1_qty :: "rat option"
  fs_risk_r :: "rat option"
  fs_paper_qty :: "int option"

text \<open>Stages are strings; an exit reason is used as the stage of the final fill.\<close>

type_synonym fill_stage = string

record stage_fill =
  sf_stage :: fill_stage
  sf_price :: rat
  sf_quantity :: int
  sf_time :: int
  sf_turnover :: rat
  sf_costs :: "cost_breakdown option"
  sf_realized :: rat

datatype recon_state = RECONCILED | PARTIAL | RECONCILIATION_REQUIRED

record fill_record =
  fr_id :: string
  fr_underlying :: string
  fr_strategy :: string
  fr_direction :: string
  fr_symbol :: "string option"
  fr_type :: "string option"
  fr_strike :: "rat option"
  fr_lot :: int
  fr_intended :: int
  fr_remaining :: int
  fr_t1_qty :: int
  fr_entry :: rat
  fr_t1_price :: "rat option"
  fr_final_price :: "rat option"
  fr_exit_reason :: "fill_stage option"
  fr_t1_realized :: rat
  fr_final_realized :: rat
  fr_gross :: rat
  fr_costs :: rat
  fr_net :: rat
  fr_rr :: rat
  fr_closed :: bool
  fr_fills :: "stage_fill list"
  fr_synthetic :: bool
  fr_status :: recon_state

type_synonym fill_store = "(string, fill_record) dict"

definition blank_record :: "fill_signal \<Rightarrow> int \<Rightarrow> int \<Rightarrow> rat \<Rightarrow> recon_state \<Rightarrow> fill_record" where
  "blank_record s lot qty entry status =
     \<lparr>fr_id = fs_id s, fr_underlying = fs_underlying s, fr_strategy = fs_strategy s, fr_direction = fs_direction s,
      fr_symbol = None, fr_type = None, fr_strike = None, fr_lot = lot, fr_intended = qty, fr_remaining = qty, fr_t1_qty = 0,
      fr_entry = entry, fr_t1_price = None, fr_final_price = None, fr_exit_reason = None, fr_t1_realized = 0,
      fr_final_realized = 0, fr_gross = 0, fr_costs = 0, fr_net = 0, fr_rr = 0, fr_closed = False, fr_fills = [],
      fr_synthetic = False, fr_status = status\<rparr>"

subsection \<open>Lots and domains\<close>

text \<open>The contract's lot, or the last-resort lot of the underlying, and whether that was used.\<close>

definition resolve_lot :: "fill_signal \<Rightarrow> int \<times> bool" where
  "resolve_lot s = (let c = (case fs_contract s of None \<Rightarrow> 0 | Some c \<Rightarrow> or_else (oc_lot c) 0); u = map to_upper (fs_underlying s) in
     if 0 < c then (c, False) else (if u = ''NIFTY'' then 75 else if u = ''BANKNIFTY'' then 30 else 10, True))"

definition resolve_signal_lot_size :: "fill_signal \<Rightarrow> int" where
  "resolve_signal_lot_size s = fst (resolve_lot s)"

definition is_option_signal :: "fill_signal \<Rightarrow> bool" where
  "is_option_signal s \<longleftrightarrow> fs_contract s \<noteq> None \<or> occurs_in ''CALL'' (fs_direction s) \<or> occurs_in ''PUT'' (fs_direction s)"

definition spot_scale :: "rat \<Rightarrow> bool" where "spot_scale p \<longleftrightarrow> 5000 < p"

definition t1_quantity :: "int \<Rightarrow> int \<Rightarrow> int" where
  "t1_quantity qty lot = (let lots = max 1 (qty div lot); t1_lots = (if 1 < lots then max 1 (lots div 2) else 1)
     in min qty (t1_lots * lot))"

subsection \<open>Entry\<close>

definition entry_record :: "int \<Rightarrow> fill_signal \<Rightarrow> rat \<Rightarrow> int \<Rightarrow> int \<Rightarrow> bool \<Rightarrow> fill_record" where
  "entry_record now s price qty lot fallback =
     (blank_record s lot qty price (if fallback then PARTIAL else RECONCILED))
       \<lparr>fr_symbol := (case fs_contract s of None \<Rightarrow> None | Some c \<Rightarrow> oc_symbol c),
        fr_type := Some (case fs_contract s of Some c \<Rightarrow> or_else (oc_type c) (if occurs_in ''CALL'' (fs_direction s) then ''CE'' else ''PE'')
                         | None \<Rightarrow> if occurs_in ''CALL'' (fs_direction s) then ''CE'' else ''PE''),
        fr_strike := (case fs_contract s of None \<Rightarrow> None | Some c \<Rightarrow> if or_else (oc_strike c) 0 = 0 then None else oc_strike c),
        fr_t1_qty := t1_quantity qty lot,
        fr_fills := [\<lparr>sf_stage = ''ENTRY'', sf_price = price, sf_quantity = qty, sf_time = now,
                      sf_turnover = round2 (frnd (price * of_int qty)), sf_costs = None, sf_realized = 0\<rparr>],
        fr_synthetic := fallback\<rparr>"

text \<open>A corrupted entry is stored in quarantine and answered with nothing.\<close>

definition reconcile_entry ::
  "int \<Rightarrow> fill_signal \<Rightarrow> rat option \<Rightarrow> int \<Rightarrow> int option \<Rightarrow> fill_store \<Rightarrow> fill_store \<times> fill_signal \<times> fill_record option" where
  "reconcile_entry now s price qty lot0 st =
     (case (if 0 < or_else lot0 0 then (or_else lot0 0, False) else resolve_lot s) of (lot, fallback) \<Rightarrow>
      let bad = (\<lambda>entry. (AList.update (fs_id s) (blank_record s lot qty entry RECONCILIATION_REQUIRED) st, s, None)) in
      case price of
        None \<Rightarrow> bad 0
      | Some p \<Rightarrow>
          if p \<le> 0 then bad 0
          else if is_option_signal s \<and> spot_scale p then bad p
          else (let r = entry_record now s p qty lot fallback in
            (AList.update (fs_id s) r st,
             s\<lparr>fs_fill_price := Some p, fs_entry_price := Some p, fs_intended := of_int qty, fs_remaining := of_int qty\<rparr>, Some r)))"

text \<open>The record of an exit whose entry was never registered; a fallback lot marks it as synthetic.\<close>

definition ensure_record :: "int \<Rightarrow> fill_signal \<Rightarrow> fill_store \<Rightarrow> fill_store \<times> fill_signal \<times> fill_record option" where
  "ensure_record now s st = (case map_of st (fs_id s) of
     Some r \<Rightarrow> (st, s, Some r)
   | None \<Rightarrow> (case resolve_lot s of (lot, fallback) \<Rightarrow>
       let qty = (if fs_intended s \<noteq> 0 then rat_trunc (fs_intended s) else or_else (fs_paper_qty s) lot);
           price = (case fs_fill_price s of Some p \<Rightarrow> if p = 0 then fs_trigger s else p | None \<Rightarrow> fs_trigger s)
       in (case reconcile_entry now s (Some price) qty (Some lot) st of
             (st1, s1, None) \<Rightarrow> (st1, s1, None)
           | (st1, s1, Some r) \<Rightarrow>
               let r1 = (if fallback then r\<lparr>fr_synthetic := True,
                                            fr_status := (if fr_status r = RECONCILED then PARTIAL else fr_status r)\<rparr> else r)
               in (AList.update (fs_id s) r1 st1, s1, Some r1))))"

subsection \<open>Exits\<close>

definition same_bucket :: "int \<Rightarrow> int \<Rightarrow> bool" where
  "same_bucket a b \<longleftrightarrow> \<bar>a div 1000 - b div 1000\<bar> < 2"

definition buy_turnover :: "fill_record \<Rightarrow> int \<Rightarrow> rat" where
  "buy_turnover r q = round2 (frnd (fr_entry r * of_int q))"

definition sell_turnover :: "rat \<Rightarrow> int \<Rightarrow> rat" where
  "sell_turnover price q = round2 (frnd (price * of_int q))"

definition stage_costs :: "fill_record \<Rightarrow> rat \<Rightarrow> int \<Rightarrow> cost_breakdown" where
  "stage_costs r price q = calculate_option_costs (buy_turnover r q) (sell_turnover price q) 2"

definition stage_gross :: "fill_record \<Rightarrow> rat \<Rightarrow> int \<Rightarrow> rat" where
  "stage_gross r price q = round2 (frnd (sell_turnover price q - buy_turnover r q))"

definition stage_net :: "fill_record \<Rightarrow> rat \<Rightarrow> int \<Rightarrow> rat" where
  "stage_net r price q = round2 (frnd (stage_gross r price q - cb_total (stage_costs r price q)))"

definition add2 :: "rat \<Rightarrow> rat \<Rightarrow> rat" where "add2 a x = round2 (frnd (a + x))"

text \<open>Book a stage: costs, gross, net and the fill.\<close>

definition book_stage :: "fill_stage \<Rightarrow> rat \<Rightarrow> int \<Rightarrow> int \<Rightarrow> fill_record \<Rightarrow> fill_record" where
  "book_stage stage price q now r =
     r\<lparr>fr_costs := add2 (fr_costs r) (cb_total (stage_costs r price q)),
       fr_gross := add2 (fr_gross r) (stage_gross r price q),
       fr_net := add2 (fr_net r) (stage_net r price q),
       fr_fills := fr_fills r @ [\<lparr>sf_stage = stage, sf_price = price, sf_quantity = q, sf_time = now,
         sf_turnover = sell_turnover price q, sf_costs = Some (stage_costs r price q), sf_realized = stage_net r price q\<rparr>]\<rparr>"

definition t1_close_qty :: "fill_record \<Rightarrow> int" where
  "t1_close_qty r = (if fr_t1_qty r \<le> 0 \<or> fr_remaining r < fr_t1_qty r then fr_remaining r else fr_t1_qty r)"

definition book_t1 :: "rat \<Rightarrow> int \<Rightarrow> fill_record \<Rightarrow> fill_record" where
  "book_t1 price now r = (let q = t1_close_qty r in
     (book_stage ''TARGET_1'' price q now r)\<lparr>fr_t1_price := Some price, fr_t1_realized := stage_net r price q,
        fr_remaining := max 0 (fr_remaining r - q)\<rparr>)"

definition stamp :: "int option \<Rightarrow> int \<Rightarrow> int" where
  "stamp t now = (case t of None \<Rightarrow> now | Some x \<Rightarrow> if x = 0 then now else x)"

definition t1_repeated :: "rat \<Rightarrow> int \<Rightarrow> fill_record \<Rightarrow> bool" where
  "t1_repeated price now r \<longleftrightarrow> fr_t1_price r = Some price \<and> (\<exists>f \<in> set (fr_fills r). sf_stage f = ''TARGET_1'' \<and> same_bucket (sf_time f) now)"

definition reconcile_t1_exit ::
  "int \<Rightarrow> fill_signal \<Rightarrow> rat \<Rightarrow> int option \<Rightarrow> fill_store \<Rightarrow> fill_store \<times> fill_signal \<times> fill_record option" where
  "reconcile_t1_exit clock s price t st =
     (let now = stamp t clock; existing = map_of st (fs_id s) in
      if (case existing of Some r \<Rightarrow> t1_repeated price now r | None \<Rightarrow> False) then (st, s, existing)
      else if is_option_signal s \<and> spot_scale price
        then (let r = (or_else existing (blank_record s 75 0 0 RECONCILIATION_REQUIRED))\<lparr>fr_status := RECONCILIATION_REQUIRED\<rparr>
              in (AList.update (fs_id s) r st, s, Some r))
      else (case ensure_record clock s st of
          (st1, s1, None) \<Rightarrow> (st1, s1, map_of st1 (fs_id s))
        | (st1, s1, Some r) \<Rightarrow> (let r1 = book_t1 price now r in
            (AList.update (fs_id s) r1 st1,
             s1\<lparr>fs_remaining := of_int (fr_remaining r1), fs_t1_qty := Some (of_int (t1_close_qty r))\<rparr>, Some r1))))"

definition domain_mismatch :: "fill_signal \<Rightarrow> fill_record \<Rightarrow> rat \<Rightarrow> bool" where
  "domain_mismatch s r price \<longleftrightarrow>
     (is_option_signal s \<or> or_else (fr_type r) [] \<noteq> [] \<or> or_else (fr_strike r) 0 \<noteq> 0)
     \<and> (spot_scale (fr_entry r) \<noteq> spot_scale price \<or> spot_scale (fr_entry r))"

definition close_record :: "fill_stage \<Rightarrow> fill_record \<Rightarrow> fill_record" where
  "close_record reason r = r\<lparr>fr_remaining := 0, fr_closed := True, fr_exit_reason := Some reason\<rparr>"

definition risk_inr :: "fill_signal \<Rightarrow> fill_record \<Rightarrow> rat" where
  "risk_inr s r = (let risk = frnd (or_else (fs_risk_r s) 0) in
     if 0 < risk then frnd (risk * frnd (of_int (fr_intended r)))
     else frnd (max 1 (frnd (fr_entry r * frnd (3/10))) * frnd (of_int (fr_intended r))))"

definition set_rr :: "fill_signal \<Rightarrow> rat \<Rightarrow> fill_record \<Rightarrow> fill_record" where
  "set_rr s price r = (if 0 < risk_inr s r \<and> \<not> (5000 < fr_entry r \<and> price < 5000)
     then r\<lparr>fr_rr := round2 (frnd (fr_net r / risk_inr s r))\<rparr> else r)"

definition final_repeated :: "fill_stage \<Rightarrow> rat \<Rightarrow> int \<Rightarrow> fill_record \<Rightarrow> bool" where
  "final_repeated reason price now r \<longleftrightarrow>
     (\<exists>f \<in> set (fr_fills r). sf_stage f = reason \<and> same_bucket (sf_time f) now \<and> sf_price f = price)"

definition book_final :: "fill_stage \<Rightarrow> rat \<Rightarrow> int \<Rightarrow> fill_record \<Rightarrow> fill_record" where
  "book_final reason price now r = (if 0 < fr_remaining r
     then (book_stage reason price (fr_remaining r) now r)\<lparr>fr_final_price := Some price, fr_final_realized := stage_net r price (fr_remaining r)\<rparr>
     else r)"

definition reconcile_final_exit ::
  "int \<Rightarrow> fill_signal \<Rightarrow> rat \<Rightarrow> fill_stage \<Rightarrow> int option \<Rightarrow> fill_store \<Rightarrow> fill_store \<times> fill_signal \<times> fill_record option" where
  "reconcile_final_exit clock s price reason t st =
     (let now = stamp t clock in case ensure_record clock s st of
        (st1, s1, None) \<Rightarrow> (st1, s1, map_of st1 (fs_id s))
      | (st1, s1, Some r) \<Rightarrow>
          if final_repeated reason price now r then (st1, s1, Some r)
          else (let r1 = (if 0 < fr_remaining r \<and> domain_mismatch s1 r price
                          then (close_record reason r)\<lparr>fr_status := RECONCILIATION_REQUIRED\<rparr>
                          else set_rr s1 price (close_record reason (book_final reason price now r)))
                in (AList.update (fs_id s) r1 st1, s1\<lparr>fs_remaining := 0\<rparr>, Some r1)))"

definition get_reconciliation :: "fill_store \<Rightarrow> string \<Rightarrow> fill_record option" where
  "get_reconciliation st sid = map_of st sid"

subsection \<open>What a record always satisfies\<close>

definition exited :: "stage_fill list \<Rightarrow> int" where
  "exited fs = sum_list (map (\<lambda>f. if sf_costs f = None then 0 else sf_quantity f) fs)"

text \<open>Net profit and costs are the running sums over the fills, and unless the record needs
  reconciliation its quantity is what remains plus what was exited.\<close>

definition record_ok :: "fill_record \<Rightarrow> bool" where
  "record_ok r \<longleftrightarrow> fr_net r = foldl add2 0 (map sf_realized (fr_fills r))
     \<and> fr_costs r = foldl add2 0 (map (\<lambda>f. case sf_costs f of None \<Rightarrow> 0 | Some c \<Rightarrow> cb_total c) (fr_fills r))
     \<and> (fr_status r \<noteq> RECONCILIATION_REQUIRED \<and> 0 \<le> fr_intended r \<longrightarrow>
          fr_intended r = fr_remaining r + exited (fr_fills r) \<and> 0 \<le> fr_remaining r)"

definition store_ok :: "fill_store \<Rightarrow> bool" where
  "store_ok st \<longleftrightarrow> (\<forall>k r. map_of st k = Some r \<longrightarrow> record_ok r)"

lemma store_ok_put: "store_ok st \<Longrightarrow> record_ok r \<Longrightarrow> store_ok (AList.update k r st)"
  by (auto simp: store_ok_def dict_simps split: if_splits)

lemma store_okD: "store_ok st \<Longrightarrow> map_of st k = Some r \<Longrightarrow> record_ok r"
  by (auto simp: store_ok_def)

lemma add2_zero [simp]: "add2 0 0 = 0"
  using rhe_int [of 0] by (simp add: add2_def round2_def)

lemma blank_ok: "fr_status r = RECONCILIATION_REQUIRED \<Longrightarrow> fr_net r = 0 \<Longrightarrow> fr_costs r = 0 \<Longrightarrow> fr_fills r = [] \<Longrightarrow> record_ok r"
  by (simp add: record_ok_def)

lemma entry_record_ok: "record_ok (entry_record now s p q lot fb)"
  by (simp add: record_ok_def entry_record_def blank_record_def exited_def)

lemma record_ok_fields [simp]:
  "record_ok (r\<lparr>fr_t1_price := a\<rparr>) = record_ok r" "record_ok (r\<lparr>fr_t1_realized := b\<rparr>) = record_ok r"
  "record_ok (r\<lparr>fr_final_price := a\<rparr>) = record_ok r" "record_ok (r\<lparr>fr_final_realized := b\<rparr>) = record_ok r"
  "record_ok (r\<lparr>fr_rr := b\<rparr>) = record_ok r" "record_ok (r\<lparr>fr_synthetic := c\<rparr>) = record_ok r"
  "record_ok (r\<lparr>fr_closed := c\<rparr>) = record_ok r" "record_ok (r\<lparr>fr_exit_reason := d\<rparr>) = record_ok r"
  by (simp_all add: record_ok_def)

lemma record_ok_required: "record_ok r \<Longrightarrow> record_ok (r\<lparr>fr_status := RECONCILIATION_REQUIRED\<rparr>)"
  by (simp add: record_ok_def)

lemma book_stage_ok:
  assumes "record_ok r" "0 \<le> fr_intended r \<and> fr_status r \<noteq> RECONCILIATION_REQUIRED \<Longrightarrow> m = fr_remaining r - q \<and> 0 \<le> m"
  shows "record_ok ((book_stage stage p q now r)\<lparr>fr_remaining := m\<rparr>)"
  using assms by (auto simp: record_ok_def book_stage_def exited_def)

lemma reconcile_entry_ok:
  assumes "store_ok st" shows "store_ok (fst (reconcile_entry now s price q lot st))"
  using assms
  by (auto simp: reconcile_entry_def Let_def blank_record_def split: prod.split option.split
      intro!: store_ok_put entry_record_ok intro: blank_ok)

lemma reconcile_entry_Some:
  "reconcile_entry now s price q lot st = (st1, s1, Some r) \<Longrightarrow> record_ok r \<and> fr_status r \<noteq> RECONCILIATION_REQUIRED"
  by (auto simp: reconcile_entry_def Let_def entry_record_ok split: prod.splits option.splits if_splits)
    (auto simp: entry_record_def blank_record_def split: if_splits)

lemma ensure_record_ok:
  assumes "store_ok st" "ensure_record now s st = (st1, s1, x)"
  shows "store_ok st1 \<and> (\<forall>r. x = Some r \<longrightarrow> record_ok r)"
proof (cases "map_of st (fs_id s)")
  case (Some r)
  then show ?thesis using assms by (auto simp: ensure_record_def intro: store_okD)
next
  case None
  obtain lot fb where l: "resolve_lot s = (lot, fb)" by fastforce
  define e where "e = reconcile_entry now s
    (Some (case fs_fill_price s of Some p \<Rightarrow> if p = 0 then fs_trigger s else p | None \<Rightarrow> fs_trigger s))
    (if fs_intended s \<noteq> 0 then rat_trunc (fs_intended s) else or_else (fs_paper_qty s) lot) (Some lot) st"
  obtain st2 s2 y where e2: "e = (st2, s2, y)" by (metis prod_cases3)
  have "store_ok (fst e)" unfolding e_def by (rule reconcile_entry_ok [OF assms(1)])
  then have ok: "store_ok st2" by (simp add: e2)
  show ?thesis
  proof (cases y)
    case None
    then show ?thesis using assms(2) ok e2 l \<open>map_of st (fs_id s) = None\<close>
      by (simp add: ensure_record_def Let_def e_def)
  next
    case (Some r)
    define r1 where "r1 = (if fb then r\<lparr>fr_synthetic := True,
        fr_status := (if fr_status r = RECONCILED then PARTIAL else fr_status r)\<rparr> else r)"
    have r: "record_ok r" "fr_status r \<noteq> RECONCILIATION_REQUIRED"
      using reconcile_entry_Some [OF e2 [unfolded e_def Some]] by simp_all
    then have r1: "record_ok r1" by (auto simp: r1_def record_ok_def)
    have "(st1, s1, x) = (AList.update (fs_id s) r1 st2, s2, Some r1)"
      using assms(2) e2 l Some None by (simp add: ensure_record_def Let_def e_def [symmetric] r1_def)
    then show ?thesis using store_ok_put [OF ok r1] r1 by simp
  qed
qed

lemma book_t1_ok:
  assumes "record_ok r" shows "record_ok (book_t1 price now r)"
proof -
  have "(fr_remaining r - t1_close_qty r = max 0 (fr_remaining r - t1_close_qty r)
      \<and> 0 \<le> max 0 (fr_remaining r - t1_close_qty r))" if "0 \<le> fr_remaining r"
    using that by (auto simp: t1_close_qty_def)
  with assms have "record_ok ((book_stage ''TARGET_1'' price (t1_close_qty r) now r)\<lparr>fr_remaining := max 0 (fr_remaining r - t1_close_qty r)\<rparr>)"
    by (intro book_stage_ok) (auto simp: record_ok_def)
  then show ?thesis by (simp add: book_t1_def Let_def record_ok_def)
qed

lemma close_book_final_ok:
  assumes "record_ok r" shows "record_ok (set_rr s p (close_record reason (book_final reason price now r)))"
proof -
  have "record_ok ((book_stage reason price (fr_remaining r) now r)\<lparr>fr_remaining := 0\<rparr>)"
    by (rule book_stage_ok [OF assms]) simp
  then show ?thesis using assms
    by (auto simp: set_rr_def close_record_def book_final_def record_ok_def)
qed

lemma reconcile_t1_ok:
  assumes "store_ok st" shows "store_ok (fst (reconcile_t1_exit clock s price t st))"
proof -
  obtain st1 s1 x where e: "ensure_record clock s st = (st1, s1, x)" by (metis prod_cases3)
  note ok = ensure_record_ok [OF assms e]
  have b: "record_ok (blank_record s 75 0 0 RECONCILIATION_REQUIRED)" by (rule blank_ok) (simp_all add: blank_record_def)
  have "record_ok (or_else (map_of st (fs_id s)) (blank_record s 75 0 0 RECONCILIATION_REQUIRED))"
    using b assms by (cases "map_of st (fs_id s)") (auto intro: store_okD)
  from store_ok_put [OF assms record_ok_required [OF this]] ok assms show ?thesis
    by (cases x) (auto simp: reconcile_t1_exit_def Let_def e intro!: store_ok_put book_t1_ok)
qed

lemma reconcile_final_ok:
  assumes "store_ok st" shows "store_ok (fst (reconcile_final_exit clock s price reason t st))"
proof -
  obtain st1 s1 x where e: "ensure_record clock s st = (st1, s1, x)" by (metis prod_cases3)
  note ok = ensure_record_ok [OF assms e]
  have "record_ok ((close_record reason r)\<lparr>fr_status := RECONCILIATION_REQUIRED\<rparr>)" if "record_ok r" for r
    using that by (simp add: record_ok_def close_record_def)
  with ok show ?thesis
    by (cases x) (auto simp: reconcile_final_exit_def Let_def e intro!: store_ok_put close_book_final_ok)
qed

inductive fill_step :: "fill_store \<Rightarrow> fill_store \<Rightarrow> bool" where
  fstep_entry: "fill_step st (fst (reconcile_entry now s price q lot st))"
| fstep_t1: "fill_step st (fst (reconcile_t1_exit now s p t st))"
| fstep_final: "fill_step st (fst (reconcile_final_exit now s p reason t st))"

lemma fill_reachable_ok:
  assumes "fill_step\<^sup>*\<^sup>* [] st" shows "store_ok st"
  using assms
proof (induction rule: rtranclp_induct)
  case base
  show ?case by (simp add: store_ok_def)
next
  case (step st st')
  from step.hyps(2) step.IH show ?case
    by cases (auto intro: reconcile_entry_ok reconcile_t1_ok reconcile_final_ok)
qed

text \<open>C27. The reconciler's books balance: in every reachable store a record's net profit and costs are the running
  two-place sums over its fills, each stage counted once. For a record that is not flagged
  \<open>RECONCILIATION_REQUIRED\<close> and whose entered quantity is not negative, that quantity is what remains plus what the
  stages exited, and what remains is not negative. A flagged record is excluded with reason: a final exit whose price
  is of the wrong domain flags the record and sets what remains to zero without a fill
  (\<open>domain_mismatch_loses_quantity\<close>).\<close>

theorem fills_balance:
  assumes "fill_step\<^sup>*\<^sup>* [] st" "map_of st sid = Some r"
  shows "fr_net r = foldl add2 0 (map sf_realized (fr_fills r))
    \<and> fr_costs r = foldl add2 0 (map (\<lambda>f. case sf_costs f of None \<Rightarrow> 0 | Some c \<Rightarrow> cb_total c) (fr_fills r))
    \<and> (fr_status r \<noteq> RECONCILIATION_REQUIRED \<and> 0 \<le> fr_intended r \<longrightarrow>
         fr_intended r = fr_remaining r + exited (fr_fills r) \<and> 0 \<le> fr_remaining r)"
  using store_okD [OF fill_reachable_ok [OF assms(1)] assms(2)] by (simp add: record_ok_def)

definition demo_fill_signal :: fill_signal where
  "demo_fill_signal = \<lparr>fs_id = ''s1'', fs_underlying = ''NIFTY'', fs_strategy = ''ORB'', fs_direction = ''LONG_CALL'',
     fs_contract = Some \<lparr>oc_lot = Some 75, oc_symbol = None, oc_type = None, oc_strike = None\<rparr>, fs_trigger = 23807,
     fs_fill_price = None, fs_entry_price = None, fs_intended = 0, fs_remaining = 0, fs_t1_qty = None, fs_risk_r = None,
     fs_paper_qty = None\<rparr>"

definition demo_fill_store :: fill_store where
  "demo_fill_store = fst (reconcile_entry 0 demo_fill_signal (Some 100) 150 None [])"

lemma demo_fill_state: "map_of demo_fill_store ''s1'' = Some (entry_record 0 demo_fill_signal 100 150 75 False)"
  by (simp add: demo_fill_store_def reconcile_entry_def Let_def resolve_lot_def demo_fill_signal_def is_option_signal_def
      spot_scale_def dict_simps)

theorem fills_balance_witness:
  "fr_intended (entry_record 0 demo_fill_signal 100 150 75 False)
     = fr_remaining (entry_record 0 demo_fill_signal 100 150 75 False) + exited (fr_fills (entry_record 0 demo_fill_signal 100 150 75 False))"
proof -
  have "fill_step\<^sup>*\<^sup>* [] demo_fill_store" unfolding demo_fill_store_def by (rule r_into_rtranclp) (rule fstep_entry)
  from fills_balance [OF this demo_fill_state] show ?thesis by (simp add: entry_record_def blank_record_def)
qed

text \<open>A final exit at a price of the spot domain closes an option record with nothing exited.\<close>

lemma domain_mismatch_loses_quantity:
  "(case map_of (fst (reconcile_final_exit 1 demo_fill_signal 23800 ''STOP'' None demo_fill_store)) ''s1'' of
      None \<Rightarrow> None
    | Some r \<Rightarrow> Some (fr_intended r, fr_remaining r, exited (fr_fills r), fr_closed r, fr_status r))
    = Some (150, 0, 0, True, RECONCILIATION_REQUIRED)"
proof -
  define e where "e = entry_record 0 demo_fill_signal 100 150 75 False"
  have d: "reconcile_final_exit 1 demo_fill_signal 23800 ''STOP'' None demo_fill_store
    = (AList.update ''s1'' ((close_record ''STOP'' e)\<lparr>fr_status := RECONCILIATION_REQUIRED\<rparr>) demo_fill_store,
       demo_fill_signal\<lparr>fs_remaining := 0\<rparr>, Some ((close_record ''STOP'' e)\<lparr>fr_status := RECONCILIATION_REQUIRED\<rparr>))"
  proof -
    have "fs_id demo_fill_signal = ''s1''" "is_option_signal demo_fill_signal" by (simp_all add: demo_fill_signal_def is_option_signal_def)
    moreover from this have "ensure_record 1 demo_fill_signal demo_fill_store = (demo_fill_store, demo_fill_signal, Some e)"
      using demo_fill_state by (simp add: ensure_record_def e_def)
    moreover have "\<not> final_repeated ''STOP'' 23800 (stamp None 1) e" "fr_remaining e = 150" "fr_entry e = 100"
      by (simp_all add: final_repeated_def e_def entry_record_def blank_record_def)
    moreover from this calculation(2) have "domain_mismatch demo_fill_signal e 23800" by (simp add: domain_mismatch_def spot_scale_def)
    ultimately show ?thesis by (simp add: reconcile_final_exit_def Let_def)
  qed
  show ?thesis unfolding d by (simp add: dict_simps close_record_def e_def entry_record_def blank_record_def exited_def)
qed

subsection \<open>Fabricated economics\<close>

lemma frnd_round2 [simp]: "frnd (round2 x) = round2 x"
  by (simp add: round2_def flt.rnd_idem)

lemma buy_turnover_zero: "fr_entry r = 0 \<Longrightarrow> buy_turnover r q = 0"
  using rhe_int [of 0] by (simp add: buy_turnover_def round2_def)

text \<open>A quarantined entry fabricates profit: after an option entry without a fill price, which is stored with entry
  price zero and flagged, the final exit books the whole sale as profit against a cost basis of zero.\<close>

theorem quarantined_entry_books_sale:
  assumes "0 < q" "\<not> spot_scale p" "reconcile_entry now s None q lot [] = (st, s1, None)"
  shows "\<exists>r f. snd (snd (reconcile_final_exit clock s p reason t st)) = Some r \<and> fr_closed r \<and> fr_entry r = 0
    \<and> fr_status r = RECONCILIATION_REQUIRED \<and> fr_fills r = [f] \<and> sf_quantity f = q
    \<and> fr_gross r = add2 0 (round2 (sell_turnover p q))"
proof -
  obtain l fb where "(if 0 < or_else lot 0 then (or_else lot 0, False) else resolve_lot s) = (l, fb)" by fastforce
  then have st: "st = [(fs_id s, blank_record s l q 0 RECONCILIATION_REQUIRED)]"
    using assms(3) by (auto simp: reconcile_entry_def Let_def)
  let ?b = "blank_record s l q 0 RECONCILIATION_REQUIRED"
  have e: "ensure_record clock s st = (st, s, Some ?b)" by (simp add: ensure_record_def st)
  have n: "\<not> final_repeated reason p (stamp t clock) ?b" by (simp add: final_repeated_def blank_record_def)
  have m: "\<not> domain_mismatch s ?b p" using assms(2) by (simp add: domain_mismatch_def blank_record_def spot_scale_def)
  have "snd (snd (reconcile_final_exit clock s p reason t st))
      = Some (set_rr s p (close_record reason (book_final reason p (stamp t clock) ?b)))"
    by (simp add: reconcile_final_exit_def e n m Let_def)
  moreover have "fr_remaining ?b = q" "fr_entry ?b = 0" by (simp_all add: blank_record_def)
  moreover have "stage_gross ?b p q = round2 (sell_turnover p q)"
    using buy_turnover_zero [of ?b] by (simp add: stage_gross_def blank_record_def sell_turnover_def)
  ultimately show ?thesis using assms(1)
    by (simp add: book_final_def set_rr_def close_record_def book_stage_def) (simp add: blank_record_def)
qed

text \<open>A first target reported after the position was closed exits nothing and is still charged two orders.\<close>

lemma empty_stage_costs: "cb_total (calculate_option_costs 0 0 2) = frnd (236 / 5)"
  by (simp add: calculate_option_costs_def calculate_trade_costs_def option_schedule_def Let_def) code_simp

theorem closed_record_charged_again:
  assumes "map_of st (fs_id s) = Some r" "fr_remaining r = 0" "\<not> t1_repeated p (stamp t clock) r"
    and "\<not> (is_option_signal s \<and> spot_scale p)"
  shows "\<exists>r1. snd (snd (reconcile_t1_exit clock s p t st)) = Some r1
    \<and> length (fr_fills r1) = length (fr_fills r) + 1 \<and> fr_costs r1 = add2 (fr_costs r) (frnd (236 / 5))"
proof -
  have q: "t1_close_qty r = 0" using assms(2) by (auto simp: t1_close_qty_def)
  have z: "buy_turnover r 0 = 0" "sell_turnover p 0 = 0"
    using rhe_int [of 0] by (simp_all add: buy_turnover_def sell_turnover_def round2_def)
  show ?thesis using assms
    by (simp add: reconcile_t1_exit_def ensure_record_def Let_def book_t1_def q book_stage_def stage_costs_def z empty_stage_costs)
qed

text \<open>Registering an entry again forgets the exits: the new record does not depend on the old one.\<close>

theorem second_entry_forgets_exits:
  "map_of (fst (reconcile_entry now s price q lot st)) (fs_id s) = map_of (fst (reconcile_entry now s price q lot [])) (fs_id s)"
  by (auto simp: reconcile_entry_def Let_def dict_simps split: prod.split option.split)

end
