(* ===== verification/Droid_Vortex.thy ===== *)
theory Droid_Vortex
  imports Droid_Rounding
begin

text \<open>
  The VORTEX-SNAP decision core, \<open>backend/app/signals/strategies/vortex_snap\<close>: the event classifier
  (\<open>signals/event_classifier.py\<close>), the confirmation engine (\<open>signals/confirmation.py\<close>) and the candidate
  life cycle (\<open>signals/state_machine.py\<close>). The feature engines that fill a snapshot compute with numpy and
  are not modelled: a snapshot is the input, with the fields the decision code reads.
  Floats are rationals rounded by \<open>frnd\<close> after every operation; comparisons are exact.
\<close>

subsection \<open>Types\<close>

datatype compression_zone = UNCOMPRESSED | WATCH | ZONE_ARMED | EXTREME

datatype translation_state = DIRECTIONAL_ACCEPTANCE | ABSORPTION_CANDIDATE | REJECTION_CONFLICT | TRANSLATION_NEUTRAL

datatype level_type = PDH | PDL | PDC | CDO | SESSION_HIGH | SESSION_LOW | ORH | ORL | VWAP
  | SWING_HIGH_5M | SWING_LOW_5M | VOLUME_NODE

datatype event_type = CONTINUATION_EVENT | ABSORPTION_EVENT | VACUUM_TRAP

datatype vortex_state = V_IDLE | V_COMPRESSION | V_ARMED | V_IGNITION | V_CLASSIFICATION | V_CONTINUATION
  | V_ABSORPTION | V_TRAP | V_CONFIRMATION | V_PRE_TRADE_VALIDATION | V_EXECUTABLE | V_ACTIVE | V_EXIT | V_COOLDOWN

datatype market_regime = TREND | TRENDING_VOLATILITY | RANGE | EXPANSION | EXHAUSTION | CHAOTIC | REGIME_UNKNOWN

datatype session_phase = PRE_OPEN | MARKET_OPEN | OPENING_RANGE | NORMAL_INTRADAY | LATE_SESSION
  | SQUARE_OFF_PHASE | PHASE_CLOSED

datatype reason_code = COMPRESSION_EXTREME | COMPRESSION_ARMED | PRESSURE_POSITIVE | PRESSURE_NEGATIVE
  | TRANSLATION_HIGH | TRANSLATION_RECOVERY | VACUUM_CONFIRMED | SNAP_ENERGY_HIGH | SNAP_ENERGY_EXPLOSIVE
  | RESISTANCE_BROKEN | SUPPORT_BROKEN | LEVEL_RETEST_HELD | LEVEL_ABSORPTION_CONFIRMED | TRAP_RECLAIM_CONFIRMED
  | REGIME_TREND_ALIGNED | REGIME_RANGE_ALIGNED | FOLLOW_THROUGH_CONFIRMED | ML_VALIDATION_PASS
  | COMPRESSION_INSUFFICIENT | TRANSLATION_WEAK | PRESSURE_CONFLICT | BREAKOUT_FAILED | REGIME_CHAOTIC
  | REGIME_CONFLICT | NO_TRADE_WINDOW | FORCED_SQUARE_OFF | COOLDOWN_ACTIVE | DAILY_LOSS_LIMIT_REACHED
  | CONSECUTIVE_LOSS_LIMIT | DATA_QUALITY_FAIL | DATA_STALE | SLIPPAGE_TOO_HIGH | CORRELATED_EXPOSURE_ACTIVE
  | ML_PROBABILITY_LOW | CONFIRMATION_TIMEOUT | INVALIDATED_BY_STRUCTURE | PRESSURE_COLLAPSED

record candle =
  cd_timestamp :: int
  cd_open :: rat
  cd_high :: rat
  cd_low :: rat
  cd_close :: rat
  cd_volume :: rat

record structural_level =
  lv_type :: level_type
  lv_price :: rat
  lv_relevance :: rat

record level_map =
  lm_levels :: "structural_level list"
  lm_support_distance :: "rat option"
  lm_resistance_distance :: "rat option"

record vortex_session =
  ss_phase :: session_phase
  ss_from_open :: rat
  ss_to_close :: rat
  ss_weekday :: int
  ss_timestamp :: int
  ss_allowed :: bool
  ss_no_trade :: bool
  ss_square_off :: bool

record vortex_snapshot =
  vx_instrument :: string
  vx_timestamp :: int
  vx_session :: vortex_session
  vx_levels :: level_map
  vx_zone :: compression_zone
  vx_compression :: rat
  vx_pressure :: rat
  vx_pressure_dir :: int
  vx_translation :: translation_state
  vx_translation_score :: rat
  vx_aligned :: bool
  vx_absorption :: rat
  vx_absorption_suspected :: bool
  vx_absorption_level :: "structural_level option"
  vx_vacuum :: rat
  vx_vacuum_detected :: bool
  vx_range_expansion :: rat
  vx_prior_compression :: bool
  vx_energy :: rat
  vx_regime :: market_regime
  vx_regime_confidence :: rat

record classified_event =
  ce_type :: event_type
  ce_direction :: int
  ce_confidence :: rat
  ce_level :: structural_level
  ce_reasons :: "reason_code list"

subsection \<open>First extremal elements\<close>

text \<open>\<open>min(xs, key=f)\<close> and \<open>max(xs, key=f)\<close> answer the first extremal element.\<close>

fun min_by :: "('a \<Rightarrow> rat) \<Rightarrow> 'a list \<Rightarrow> 'a option" where
  "min_by f [] = None"
| "min_by f (x # xs) = (case min_by f xs of None \<Rightarrow> Some x | Some y \<Rightarrow> Some (if f x \<le> f y then x else y))"

definition max_by :: "('a \<Rightarrow> rat) \<Rightarrow> 'a list \<Rightarrow> 'a option" where
  "max_by f = min_by (\<lambda>x. - f x)"

definition high_of :: "candle list \<Rightarrow> rat" where "high_of cs = Max (set (map cd_high cs))"
definition low_of :: "candle list \<Rightarrow> rat" where "low_of cs = Min (set (map cd_low cs))"

lemma min_by_in: "min_by f xs = Some x \<Longrightarrow> x \<in> set xs"
  by (induction xs arbitrary: x) (auto split: option.splits if_splits)

lemma min_by_None [simp]: "min_by f xs = None \<longleftrightarrow> xs = []"
  by (cases xs) (auto split: option.splits)

lemma min_by_least: "min_by f xs = Some x \<Longrightarrow> y \<in> set xs \<Longrightarrow> f x \<le> f y"
proof (induction xs arbitrary: x)
  case (Cons z zs)
  show ?case
  proof (cases "min_by f zs")
    case None
    then show ?thesis using Cons.prems by simp
  next
    case (Some w)
    then show ?thesis using Cons.prems Cons.IH [OF Some] by (auto split: if_splits)
  qed
qed simp

subsection \<open>Event classification\<close>

definition resistance_types :: "level_type list" where
  "resistance_types = [PDH, ORH, SESSION_HIGH, SWING_HIGH_5M]"

definition support_types :: "level_type list" where
  "support_types = [PDL, ORL, SESSION_LOW, SWING_LOW_5M]"

text \<open>A trap: the last three bars went through the level, the last one closed back, and the pressure faded.\<close>

definition short_trap :: "vortex_snapshot \<Rightarrow> candle list \<Rightarrow> structural_level \<Rightarrow> bool" where
  "short_trap s cs l \<longleftrightarrow> lv_type l \<in> set resistance_types \<and> lv_price l < high_of (last_n 3 cs)
     \<and> cd_close (last cs) < lv_price l \<and> vx_pressure s \<le> frnd (10 / 100)"

definition long_trap :: "vortex_snapshot \<Rightarrow> candle list \<Rightarrow> structural_level \<Rightarrow> bool" where
  "long_trap s cs l \<longleftrightarrow> lv_type l \<in> set support_types \<and> low_of (last_n 3 cs) < lv_price l
     \<and> lv_price l < cd_close (last cs) \<and> frnd (- 10 / 100) \<le> vx_pressure s"

definition trap_confidence :: "bool \<Rightarrow> rat" where
  "trap_confidence agrees = round_places 4
     (min (frnd (frnd (70 / 100) + (if agrees then frnd (15 / 100) else 0))) (frnd (95 / 100)))"

definition short_trap_event :: "vortex_snapshot \<Rightarrow> structural_level \<Rightarrow> classified_event" where
  "short_trap_event s l = \<lparr>ce_type = VACUUM_TRAP, ce_direction = - 1,
     ce_confidence = trap_confidence (vx_pressure_dir s < 0), ce_level = l,
     ce_reasons = [BREAKOUT_FAILED, TRAP_RECLAIM_CONFIRMED] @ (if vx_vacuum_detected s then [VACUUM_CONFIRMED] else [])
       @ (if vx_pressure_dir s < 0 then [PRESSURE_NEGATIVE] else [])\<rparr>"

definition long_trap_event :: "vortex_snapshot \<Rightarrow> structural_level \<Rightarrow> classified_event" where
  "long_trap_event s l = \<lparr>ce_type = VACUUM_TRAP, ce_direction = 1,
     ce_confidence = trap_confidence (0 < vx_pressure_dir s), ce_level = l,
     ce_reasons = [BREAKOUT_FAILED, TRAP_RECLAIM_CONFIRMED] @ (if vx_vacuum_detected s then [VACUUM_CONFIRMED] else [])
       @ (if 0 < vx_pressure_dir s then [PRESSURE_POSITIVE] else [])\<rparr>"

definition absorbing_level :: "vortex_snapshot \<Rightarrow> rat \<Rightarrow> structural_level option" where
  "absorbing_level s price = (case vx_absorption_level s of Some l \<Rightarrow> Some l
     | None \<Rightarrow> min_by (\<lambda>l. \<bar>frnd (price - lv_price l)\<bar>) (lm_levels (vx_levels s)))"

definition absorption_event :: "vortex_snapshot \<Rightarrow> candle list \<Rightarrow> classified_event option" where
  "absorption_event s cs = (if vx_absorption_suspected s \<or> frnd (65 / 100) \<le> vx_absorption s then
     (let price = cd_close (last cs) in case absorbing_level s price of
        None \<Rightarrow> None
      | Some l \<Rightarrow>
          if 0 < vx_pressure_dir s \<and> price \<le> frnd (lv_price l * frnd (1002 / 1000)) then
            Some \<lparr>ce_type = ABSORPTION_EVENT, ce_direction = - 1, ce_confidence = round_places 4 (vx_absorption s),
              ce_level = l, ce_reasons = [LEVEL_ABSORPTION_CONFIRMED, TRANSLATION_WEAK]
                @ (if frnd (5 / 10) < vx_pressure s then [PRESSURE_POSITIVE] else [])\<rparr>
          else if vx_pressure_dir s < 0 \<and> frnd (lv_price l * frnd (998 / 1000)) \<le> price then
            Some \<lparr>ce_type = ABSORPTION_EVENT, ce_direction = 1, ce_confidence = round_places 4 (vx_absorption s),
              ce_level = l, ce_reasons = [LEVEL_ABSORPTION_CONFIRMED, TRANSLATION_WEAK]
                @ (if vx_pressure s < frnd (- 5 / 10) then [PRESSURE_NEGATIVE] else [])\<rparr>
          else None)
     else None)"

definition snap_ready :: "vortex_snapshot \<Rightarrow> bool" where
  "snap_ready s \<longleftrightarrow> (vx_zone s \<in> {WATCH, ZONE_ARMED, EXTREME} \<or> vx_prior_compression s)
     \<and> (vx_vacuum_detected s \<or> frnd (50 / 100) \<le> vx_vacuum s)
     \<and> (vx_translation s = DIRECTIONAL_ACCEPTANCE \<or> vx_aligned s \<and> frnd (45 / 100) \<le> vx_translation_score s)"

definition continuation_confidence :: "vortex_snapshot \<Rightarrow> rat" where
  "continuation_confidence s = round_places 4 (min
     (frnd (frnd (frnd (frnd (frnd (30 / 100) * vx_compression s) + frnd (frnd (25 / 100) * vx_translation_score s))
       + frnd (frnd (25 / 100) * vx_vacuum s)) + frnd (frnd (20 / 100) * vx_energy s)))
     (frnd (95 / 100)))"

definition broken_resistance :: "vortex_snapshot \<Rightarrow> candle list \<Rightarrow> structural_level option" where
  "broken_resistance s cs = max_by lv_price (filter (\<lambda>l. lv_price l < cd_close (last cs)
     \<and> (lv_type l \<in> set resistance_types \<or> low_of (last_n 5 cs) \<le> lv_price l)) (lm_levels (vx_levels s)))"

definition broken_support :: "vortex_snapshot \<Rightarrow> candle list \<Rightarrow> structural_level option" where
  "broken_support s cs = min_by lv_price (filter (\<lambda>l. cd_close (last cs) < lv_price l
     \<and> (lv_type l \<in> set support_types \<or> lv_price l \<le> high_of (last_n 5 cs))) (lm_levels (vx_levels s)))"

definition energy_reason :: "vortex_snapshot \<Rightarrow> reason_code list" where
  "energy_reason s = (if frnd (65 / 100) \<le> vx_energy s then [SNAP_ENERGY_HIGH] else [])"

definition long_continuation :: "vortex_snapshot \<Rightarrow> structural_level \<Rightarrow> classified_event" where
  "long_continuation s l = \<lparr>ce_type = CONTINUATION_EVENT, ce_direction = 1,
     ce_confidence = continuation_confidence s, ce_level = l,
     ce_reasons = [RESISTANCE_BROKEN, PRESSURE_POSITIVE, TRANSLATION_HIGH, VACUUM_CONFIRMED]
       @ (if vx_zone s = EXTREME then [COMPRESSION_EXTREME] else if vx_zone s = ZONE_ARMED then [COMPRESSION_ARMED] else [])
       @ energy_reason s\<rparr>"

definition short_continuation :: "vortex_snapshot \<Rightarrow> structural_level \<Rightarrow> classified_event" where
  "short_continuation s l = \<lparr>ce_type = CONTINUATION_EVENT, ce_direction = - 1,
     ce_confidence = continuation_confidence s, ce_level = l,
     ce_reasons = [SUPPORT_BROKEN, PRESSURE_NEGATIVE, TRANSLATION_HIGH, VACUUM_CONFIRMED]
       @ (if vx_zone s \<in> {EXTREME, ZONE_ARMED} then [COMPRESSION_ARMED] else []) @ energy_reason s\<rparr>"

definition continuation_event :: "vortex_snapshot \<Rightarrow> candle list \<Rightarrow> classified_event option" where
  "continuation_event s cs = (if \<not> snap_ready s then None
     else if 0 < vx_pressure_dir s then map_option (long_continuation s) (broken_resistance s cs)
     else if vx_pressure_dir s < 0 then map_option (short_continuation s) (broken_support s cs)
     else None)"

definition classify :: "vortex_snapshot \<Rightarrow> candle list \<Rightarrow> classified_event option" where
  "classify s cs = (if length cs < 3 then None else
     case find (short_trap s cs) (lm_levels (vx_levels s)) of Some l \<Rightarrow> Some (short_trap_event s l) | None \<Rightarrow>
     (case find (long_trap s cs) (lm_levels (vx_levels s)) of Some l \<Rightarrow> Some (long_trap_event s l) | None \<Rightarrow>
     (case absorption_event s cs of Some e \<Rightarrow> Some e | None \<Rightarrow> continuation_event s cs)))"

subsection \<open>Confirmation\<close>

record confirmation =
  cn_confirmed :: bool
  cn_mechanism :: "string option"
  cn_reason :: "reason_code option"
  cn_boost :: rat

definition confirmed_by :: "string \<Rightarrow> reason_code \<Rightarrow> rat \<Rightarrow> confirmation" where
  "confirmed_by m r b = \<lparr>cn_confirmed = True, cn_mechanism = Some m, cn_reason = Some r, cn_boost = b\<rparr>"

definition not_confirmed :: confirmation where
  "not_confirmed = \<lparr>cn_confirmed = False, cn_mechanism = None, cn_reason = Some CONFIRMATION_TIMEOUT, cn_boost = 0\<rparr>"

definition follow_through :: confirmation where
  "follow_through = confirmed_by ''FOLLOW_THROUGH_CANDLE'' FOLLOW_THROUGH_CONFIRMED (frnd (8 / 100))"

definition retest_held :: confirmation where
  "retest_held = confirmed_by ''RETEST_AND_HOLD'' LEVEL_RETEST_HELD (frnd (10 / 100))"

definition rejection_confirmed :: confirmation where
  "rejection_confirmed = confirmed_by ''REJECTION_CONFIRMATION'' LEVEL_ABSORPTION_CONFIRMED (frnd (12 / 100))"

definition trap_confirmed :: confirmation where
  "trap_confirmed = confirmed_by ''MICRO_SWING_BREAK'' TRAP_RECLAIM_CONFIRMED (frnd (15 / 100))"

definition confirm_continuation :: "classified_event \<Rightarrow> candle \<Rightarrow> candle \<Rightarrow> vortex_snapshot \<Rightarrow> confirmation" where
  "confirm_continuation e t c s = (let p = lv_price (ce_level e) in
     if 0 < ce_direction e then
       (if (cd_close t < cd_close c \<or> cd_high t < cd_high c) \<and> 0 \<le> vx_pressure_dir s then follow_through
        else if cd_low c \<le> p \<and> p \<le> cd_close c then retest_held else not_confirmed)
     else if ce_direction e < 0 then
       (if (cd_close c < cd_close t \<or> cd_low c < cd_low t) \<and> vx_pressure_dir s \<le> 0 then follow_through
        else if p \<le> cd_high c \<and> cd_close c \<le> p then retest_held else not_confirmed)
     else not_confirmed)"

definition confirm_absorption :: "classified_event \<Rightarrow> candle \<Rightarrow> candle \<Rightarrow> confirmation" where
  "confirm_absorption e t c = (
     if 0 < ce_direction e then
       (if cd_close t < cd_close c \<and> cd_open c < cd_close c then rejection_confirmed else not_confirmed)
     else if ce_direction e < 0 then
       (if cd_close c < cd_close t \<and> cd_close c < cd_open c then rejection_confirmed else not_confirmed)
     else not_confirmed)"

definition confirm_trap :: "classified_event \<Rightarrow> candle \<Rightarrow> candle \<Rightarrow> confirmation" where
  "confirm_trap e t c = (let p = lv_price (ce_level e) in
     if ce_direction e < 0 then
       (if cd_close c < p \<and> cd_close c \<le> cd_close t then trap_confirmed else not_confirmed)
     else if 0 < ce_direction e then
       (if p < cd_close c \<and> cd_close t \<le> cd_close c then trap_confirmed else not_confirmed)
     else not_confirmed)"

definition confirm_event :: "classified_event \<Rightarrow> candle \<Rightarrow> candle \<Rightarrow> vortex_snapshot \<Rightarrow> confirmation" where
  "confirm_event e t c s = (case ce_type e of
     CONTINUATION_EVENT \<Rightarrow> confirm_continuation e t c s
   | ABSORPTION_EVENT \<Rightarrow> confirm_absorption e t c
   | VACUUM_TRAP \<Rightarrow> confirm_trap e t c)"

subsection \<open>The life cycle\<close>

record fsm_log =
  tl_from :: vortex_state
  tl_to :: vortex_state
  tl_timestamp :: int
  tl_reason :: string

record vortex_fsm =
  vf_state :: vortex_state
  vf_armed_timeout :: int
  vf_confirm_timeout :: int
  vf_active_timeout :: int
  vf_event :: "classified_event option"
  vf_trigger :: "candle option"
  vf_entry :: "rat option"
  vf_bars :: int
  vf_history :: "fsm_log list"

definition vortex_fsm_init :: "int \<Rightarrow> int \<Rightarrow> int \<Rightarrow> vortex_fsm" where
  "vortex_fsm_init a c n = \<lparr>vf_state = V_IDLE, vf_armed_timeout = a, vf_confirm_timeout = c, vf_active_timeout = n,
     vf_event = None, vf_trigger = None, vf_entry = None, vf_bars = 0, vf_history = []\<rparr>"

definition default_fsm :: vortex_fsm where "default_fsm = vortex_fsm_init 15 3 10"

definition vortex_move :: "vortex_state \<Rightarrow> int \<Rightarrow> string \<Rightarrow> vortex_fsm \<Rightarrow> vortex_fsm" where
  "vortex_move st ts why f = f\<lparr>vf_history := vf_history f @
      [\<lparr>tl_from = vf_state f, tl_to = st, tl_timestamp = ts, tl_reason = why\<rparr>], vf_state := st, vf_bars := 0\<rparr>"

definition from_idle :: "vortex_snapshot \<Rightarrow> vortex_fsm \<Rightarrow> vortex_fsm" where
  "from_idle s f = (if vx_zone s = WATCH then
       vortex_move V_COMPRESSION (vx_timestamp s) ''Compression score entered WATCH zone'' f
     else if vx_zone s \<in> {ZONE_ARMED, EXTREME} then
       vortex_move V_ARMED (vx_timestamp s) ''Compression score entered ARMED/EXTREME zone'' f
     else f)"

definition from_compression :: "vortex_snapshot \<Rightarrow> vortex_fsm \<Rightarrow> vortex_fsm" where
  "from_compression s f = (if vx_zone s \<in> {ZONE_ARMED, EXTREME} then
       vortex_move V_ARMED (vx_timestamp s) ''Compression upgraded to ARMED'' f
     else if vx_zone s = UNCOMPRESSED then
       vortex_move V_IDLE (vx_timestamp s) ''Compression dissolved without arming'' f
     else f)"

definition from_armed :: "vortex_snapshot \<Rightarrow> vortex_fsm \<Rightarrow> vortex_fsm" where
  "from_armed s f = (if vx_vacuum_detected s \<or> frnd (15 / 10) \<le> vx_range_expansion s then
       vortex_move V_IGNITION (vx_timestamp s) ''Liquidity vacuum ignition detected'' f
     else if vx_zone s = UNCOMPRESSED then
       vortex_move V_IDLE (vx_timestamp s) ''Armed state lost compression'' f
     else if vf_armed_timeout f < vf_bars f then
       vortex_move V_IDLE (vx_timestamp s) ''Armed state timed out'' f
     else f)"

definition from_ignition :: "vortex_snapshot \<Rightarrow> candle list \<Rightarrow> vortex_fsm \<Rightarrow> vortex_fsm" where
  "from_ignition s cs f = (case classify s cs of
     Some e \<Rightarrow> (let g = f\<lparr>vf_event := Some e, vf_trigger := Some (last cs)\<rparr> in case ce_type e of
         CONTINUATION_EVENT \<Rightarrow> vortex_move V_CONTINUATION (vx_timestamp s) ''Classified as CONTINUATION snap'' g
       | ABSORPTION_EVENT \<Rightarrow> vortex_move V_ABSORPTION (vx_timestamp s) ''Classified as ABSORPTION snap'' g
       | VACUUM_TRAP \<Rightarrow> vortex_move V_TRAP (vx_timestamp s) ''Classified as VACUUM_TRAP snap'' g)
   | None \<Rightarrow> vortex_move V_IDLE (vx_timestamp s) ''Ignition without valid event classification'' f)"

definition from_confirmation :: "vortex_snapshot \<Rightarrow> candle list \<Rightarrow> vortex_fsm \<Rightarrow> vortex_fsm" where
  "from_confirmation s cs f = (case (vf_event f, vf_trigger f) of
     (Some e, Some t) \<Rightarrow> (let r = confirm_event e t (last cs) s in
        if cn_confirmed r then vortex_move V_PRE_TRADE_VALIDATION (vx_timestamp s)
            (''Confirmed via '' @ or_else (cn_mechanism r) ''None'') f
        else if vf_confirm_timeout f \<le> vf_bars f then
          vortex_move V_COOLDOWN (vx_timestamp s) ''Confirmation timed out'' f
        else f)
   | _ \<Rightarrow> vortex_move V_IDLE (vx_timestamp s) ''Missing trigger context in confirmation'' f)"

definition from_cooldown :: "vortex_snapshot \<Rightarrow> vortex_fsm \<Rightarrow> vortex_fsm" where
  "from_cooldown s f = (if 2 \<le> vf_bars f then
       vortex_move V_IDLE (vx_timestamp s) ''Cooldown completed'' (f\<lparr>vf_event := None, vf_trigger := None, vf_entry := None\<rparr>)
     else f)"

definition vortex_advance :: "vortex_snapshot \<Rightarrow> candle list \<Rightarrow> vortex_fsm \<Rightarrow> vortex_fsm" where
  "vortex_advance s cs f = (case vf_state f of
     V_IDLE \<Rightarrow> from_idle s f
   | V_COMPRESSION \<Rightarrow> from_compression s f
   | V_ARMED \<Rightarrow> from_armed s f
   | V_IGNITION \<Rightarrow> from_ignition s cs f
   | V_CLASSIFICATION \<Rightarrow> f
   | V_CONTINUATION \<Rightarrow> vortex_move V_CONFIRMATION (vx_timestamp s) ''Awaiting event confirmation'' f
   | V_ABSORPTION \<Rightarrow> vortex_move V_CONFIRMATION (vx_timestamp s) ''Awaiting event confirmation'' f
   | V_TRAP \<Rightarrow> vortex_move V_CONFIRMATION (vx_timestamp s) ''Awaiting event confirmation'' f
   | V_CONFIRMATION \<Rightarrow> from_confirmation s cs f
   | V_PRE_TRADE_VALIDATION \<Rightarrow>
       vortex_move V_EXECUTABLE (vx_timestamp s) ''Pre-trade risk and data gates passed'' f
   | V_EXECUTABLE \<Rightarrow> vortex_move V_ACTIVE (vx_timestamp s) ''Order placed / filled''
       (f\<lparr>vf_entry := Some (cd_close (last cs))\<rparr>)
   | V_ACTIVE \<Rightarrow> (if vf_active_timeout f \<le> vf_bars f then
       vortex_move V_EXIT (vx_timestamp s) ''Trade reached maximum holding horizon'' f else f)
   | V_EXIT \<Rightarrow> vortex_move V_COOLDOWN (vx_timestamp s) ''Position closed, entering cooldown'' f
   | V_COOLDOWN \<Rightarrow> from_cooldown s f)"

text \<open>The bar is counted before the last candle is read: an empty history raises after the count moved.\<close>

definition vortex_step :: "vortex_snapshot \<Rightarrow> candle list \<Rightarrow> vortex_fsm \<Rightarrow> vortex_fsm \<times> vortex_state result" where
  "vortex_step s cs f = (let g = f\<lparr>vf_bars := vf_bars f + 1\<rparr> in
     if cs = [] then (g, Inl IndexError)
     else (let h = vortex_advance s cs g in (h, Inr (vf_state h))))"

subsection \<open>Classified events are well formed\<close>

definition unit_range :: "rat \<Rightarrow> bool" where "unit_range x \<longleftrightarrow> 0 \<le> x \<and> x \<le> 1"

text \<open>The field constraints of the feature models.\<close>

definition snapshot_ok :: "vortex_snapshot \<Rightarrow> bool" where
  "snapshot_ok s \<longleftrightarrow> unit_range (vx_compression s) \<and> unit_range (vx_translation_score s) \<and> unit_range (vx_absorption s)
     \<and> unit_range (vx_vacuum s) \<and> unit_range (vx_energy s)"

lemma round_places_mono: "x \<le> y \<Longrightarrow> round_places n x \<le> round_places n y"
  unfolding round_places_def by (intro flt.rnd_mono divide_right_mono) (simp_all add: rhe_mono mult_right_mono)

lemma round_places_unit:
  assumes "unit_range x" shows "unit_range (round_places n x)"
proof -
  have z: "round_places n 0 = 0" using rhe_int [of 0] by (simp add: round_places_def)
  have "round_half_even (10 ^ n) = 10 ^ n" using rhe_int [of "10 ^ n"] by simp
  then have o: "round_places n 1 = 1" by (simp add: round_places_def)
  show ?thesis
    using assms round_places_mono [of 0 x n] round_places_mono [of x 1 n] z o by (simp add: unit_range_def)
qed

lemma frnd_unit: "unit_range x \<Longrightarrow> unit_range (frnd x)"
  using flt.rnd_mono [of 0 x] flt.rnd_mono [of x 1] by (simp add: unit_range_def)

lemma frnd_unit_const: "0 \<le> x \<Longrightarrow> x \<le> 1 \<Longrightarrow> 0 \<le> frnd x \<and> frnd x \<le> 1"
  using frnd_unit [of x] by (simp add: unit_range_def)

lemma trap_confidence_unit: "unit_range (trap_confidence b)"
proof -
  have "0 \<le> frnd (frnd (70 / 100) + (if b then frnd (15 / 100) else 0))"
    by (intro flt.rnd_nonneg) (simp add: flt.rnd_nonneg)
  then have "unit_range (min (frnd (frnd (70 / 100) + (if b then frnd (15 / 100) else 0))) (frnd (95 / 100)))"
    using frnd_unit_const [of "95 / 100"] by (simp add: unit_range_def min_le_iff_disj)
  then show ?thesis unfolding trap_confidence_def by (rule round_places_unit)
qed

lemma continuation_confidence_unit:
  assumes "snapshot_ok s" shows "unit_range (continuation_confidence s)"
proof -
  have p: "0 \<le> frnd (frnd (k / 100) * x)" if "0 \<le> k" "unit_range x" for k x
    using that flt.rnd_nonneg by (simp add: unit_range_def)
  have "unit_range (min (frnd (frnd (frnd (frnd (frnd (30 / 100) * vx_compression s) + frnd (frnd (25 / 100) * vx_translation_score s))
       + frnd (frnd (25 / 100) * vx_vacuum s)) + frnd (frnd (20 / 100) * vx_energy s))) (frnd (95 / 100)))"
    using p assms frnd_unit_const [of "95 / 100"] unfolding snapshot_ok_def unit_range_def
    by (simp add: min_le_iff_disj flt.rnd_nonneg)
  then show ?thesis unfolding continuation_confidence_def by (rule round_places_unit)
qed

lemma find_holds: "find P xs = Some x \<Longrightarrow> x \<in> set xs \<and> P x"
  by (auto simp: find_Some_iff)

lemma broken_level_in:
  "broken_resistance s cs = Some l \<Longrightarrow> l \<in> set (lm_levels (vx_levels s))"
  "broken_support s cs = Some l \<Longrightarrow> l \<in> set (lm_levels (vx_levels s))"
  by (auto simp: broken_resistance_def broken_support_def max_by_def dest: min_by_in)

definition event_ok :: "vortex_snapshot \<Rightarrow> classified_event \<Rightarrow> bool" where
  "event_ok s e \<longleftrightarrow> ce_direction e \<in> {1, - 1} \<and> unit_range (ce_confidence e)
     \<and> (ce_level e \<in> set (lm_levels (vx_levels s)) \<or> vx_absorption_level s = Some (ce_level e))"

lemma absorption_event_ok:
  "snapshot_ok s \<Longrightarrow> absorption_event s cs = Some e \<Longrightarrow> event_ok s e"
  by (auto simp: absorption_event_def absorbing_level_def event_ok_def snapshot_ok_def round_places_unit Let_def
      split: if_splits option.splits dest: min_by_in)

lemma continuation_event_ok:
  "snapshot_ok s \<Longrightarrow> continuation_event s cs = Some e \<Longrightarrow> event_ok s e"
  by (auto simp: continuation_event_def event_ok_def long_continuation_def short_continuation_def
      continuation_confidence_unit split: if_splits dest: broken_level_in)

lemma trap_event_ok:
  "l \<in> set (lm_levels (vx_levels s)) \<Longrightarrow> event_ok s (short_trap_event s l) \<and> event_ok s (long_trap_event s l)"
  by (simp add: event_ok_def short_trap_event_def long_trap_event_def trap_confidence_unit)

text \<open>C36. A classified event satisfies the constraints of its model: on a snapshot whose scores are in the unit
  range the direction is one of the two signs, the confidence is in the unit range after its rounding,
  and the level is one the snapshot holds, so building the event never fails.\<close>

theorem classified_event_valid:
  assumes "snapshot_ok s" "classify s cs = Some e"
  shows "ce_direction e \<in> {1, - 1} \<and> 0 \<le> ce_confidence e \<and> ce_confidence e \<le> 1
    \<and> (ce_level e \<in> set (lm_levels (vx_levels s)) \<or> vx_absorption_level s = Some (ce_level e))"
proof -
  have "event_ok s e"
    using assms by (auto simp: classify_def split: if_splits option.splits
        intro: absorption_event_ok continuation_event_ok dest!: find_holds trap_event_ok)
  then show ?thesis by (simp add: event_ok_def unit_range_def)
qed

text \<open>A failed breakout outranks everything: whenever some level of the map was pierced by the last three bars and
  reclaimed by the close while the pressure faded, the event is a trap, never an absorption or a
  continuation, and its trade direction points back through the level.\<close>

theorem trap_has_priority:
  assumes "3 \<le> length cs" "l \<in> set (lm_levels (vx_levels s))" "short_trap s cs l \<or> long_trap s cs l"
  shows "\<exists>e. classify s cs = Some e \<and> ce_type e = VACUUM_TRAP
    \<and> (ce_direction e = - 1 \<longrightarrow> cd_close (last cs) < lv_price (ce_level e) \<and> lv_price (ce_level e) < high_of (last_n 3 cs))
    \<and> (ce_direction e = 1 \<longrightarrow> lv_price (ce_level e) < cd_close (last cs) \<and> low_of (last_n 3 cs) < lv_price (ce_level e))"
proof (cases "find (short_trap s cs) (lm_levels (vx_levels s))")
  case (Some k)
  then show ?thesis
    using assms(1) find_holds [OF Some] by (simp add: classify_def short_trap_event_def short_trap_def)
next
  case none: None
  then have "long_trap s cs l" using assms(2,3) by (auto simp: find_None_iff)
  then obtain k where k: "find (long_trap s cs) (lm_levels (vx_levels s)) = Some k"
    using assms(2) by (cases "find (long_trap s cs) (lm_levels (vx_levels s))") (auto simp: find_None_iff)
  then show ?thesis
    using assms(1) none find_holds [OF k] by (simp add: classify_def long_trap_event_def long_trap_def)
qed

subsection \<open>Confirmation is symmetric\<close>

text \<open>Reflecting the prices exchanges highs and lows, longs and shorts.\<close>

definition mirror_candle :: "(rat \<Rightarrow> rat) \<Rightarrow> candle \<Rightarrow> candle" where
  "mirror_candle g c = c\<lparr>cd_open := g (cd_open c), cd_high := g (cd_low c), cd_low := g (cd_high c), cd_close := g (cd_close c)\<rparr>"

definition mirror_event :: "(rat \<Rightarrow> rat) \<Rightarrow> classified_event \<Rightarrow> classified_event" where
  "mirror_event g e = e\<lparr>ce_direction := - ce_direction e, ce_level := (ce_level e)\<lparr>lv_price := g (lv_price (ce_level e))\<rparr>\<rparr>"

definition mirror_pressure :: "vortex_snapshot \<Rightarrow> vortex_snapshot" where
  "mirror_pressure s = s\<lparr>vx_pressure_dir := - vx_pressure_dir s\<rparr>"

text \<open>Long and short are confirmed by the same rules: reflecting every price with an order-reversing map, and
  the sign of the direction and of the pressure, leaves the answer of the confirmation engine unchanged.\<close>

theorem confirmation_symmetric:
  assumes "\<And>x y. g x < g y \<longleftrightarrow> y < x"
  shows "confirm_event (mirror_event g e) (mirror_candle g t) (mirror_candle g c) (mirror_pressure s) = confirm_event e t c s"
proof -
  have le: "g x \<le> g y \<longleftrightarrow> y \<le> x" for x y using assms by (metis not_le)
  show ?thesis
    by (simp add: confirm_event_def confirm_continuation_def confirm_absorption_def confirm_trap_def mirror_event_def
        mirror_candle_def mirror_pressure_def Let_def assms le split: event_type.split)
qed

definition demo_session :: vortex_session where
  "demo_session = \<lparr>ss_phase = NORMAL_INTRADAY, ss_from_open = 60, ss_to_close = 315, ss_weekday = 0, ss_timestamp = 0,
     ss_allowed = True, ss_no_trade = False, ss_square_off = False\<rparr>"

definition demo_level :: structural_level where
  "demo_level = \<lparr>lv_type = PDH, lv_price = 100, lv_relevance = 1 / 2\<rparr>"

definition demo_snapshot :: "compression_zone \<Rightarrow> vortex_snapshot" where
  "demo_snapshot z = \<lparr>vx_instrument = ''NIFTY'', vx_timestamp = 0, vx_session = demo_session,
     vx_levels = \<lparr>lm_levels = [demo_level], lm_support_distance = None, lm_resistance_distance = None\<rparr>,
     vx_zone = z, vx_compression = 1 / 2, vx_pressure = 0, vx_pressure_dir = 0,
     vx_translation = TRANSLATION_NEUTRAL, vx_translation_score = 0, vx_aligned = False, vx_absorption = 0,
     vx_absorption_suspected = False, vx_absorption_level = None, vx_vacuum = 1 / 2, vx_vacuum_detected = True,
     vx_range_expansion = 2, vx_prior_compression = True, vx_energy = 1 / 2, vx_regime = RANGE,
     vx_regime_confidence = 1 / 2\<rparr>"

definition demo_candle :: "rat \<Rightarrow> rat \<Rightarrow> rat \<Rightarrow> candle" where
  "demo_candle h l c = \<lparr>cd_timestamp = 0, cd_open = h, cd_high = h, cd_low = l, cd_close = c, cd_volume = 1\<rparr>"

definition demo_bars :: "candle list" where
  "demo_bars = [demo_candle 99 97 98, demo_candle 102 98 101, demo_candle 101 98 99]"

lemma demo_classified: "classify (demo_snapshot ZONE_ARMED) demo_bars = Some (short_trap_event (demo_snapshot ZONE_ARMED) demo_level)"
  by (simp add: classify_def demo_bars_def demo_snapshot_def demo_level_def demo_candle_def short_trap_def resistance_types_def
      last_n_def high_of_def flt.rnd_nonneg)

lemma classified_event_valid_witness:
  "0 \<le> ce_confidence (short_trap_event (demo_snapshot ZONE_ARMED) demo_level)"
  using classified_event_valid [OF _ demo_classified] by (simp add: snapshot_ok_def unit_range_def demo_snapshot_def)

lemma trap_has_priority_witness:
  "\<exists>e. classify (demo_snapshot ZONE_ARMED) demo_bars = Some e \<and> ce_type e = VACUUM_TRAP"
proof -
  have "short_trap (demo_snapshot ZONE_ARMED) demo_bars demo_level"
    by (simp add: demo_bars_def demo_snapshot_def demo_level_def demo_candle_def short_trap_def resistance_types_def
      last_n_def high_of_def flt.rnd_nonneg)
  then show ?thesis
    using trap_has_priority [of demo_bars demo_level "demo_snapshot ZONE_ARMED"] by (auto simp: demo_bars_def demo_snapshot_def)
qed

lemma confirmation_symmetric_witness:
  "confirm_event (mirror_event (\<lambda>x. 1000 - x) (short_trap_event (demo_snapshot ZONE_ARMED) demo_level))
     (mirror_candle (\<lambda>x. 1000 - x) (demo_candle 101 98 99)) (mirror_candle (\<lambda>x. 1000 - x) (demo_candle 99 96 97))
     (mirror_pressure (demo_snapshot ZONE_ARMED)) = trap_confirmed"
  by (subst confirmation_symmetric) (simp_all add: confirm_event_def confirm_trap_def short_trap_event_def demo_level_def demo_candle_def)

subsection \<open>Runs of the life cycle\<close>

text \<open>The documented graph. The classification state is declared but never entered.\<close>

fun vortex_edges :: "vortex_state \<Rightarrow> vortex_state list" where
  "vortex_edges V_IDLE = [V_COMPRESSION, V_ARMED]"
| "vortex_edges V_COMPRESSION = [V_ARMED, V_IDLE]"
| "vortex_edges V_ARMED = [V_IGNITION, V_IDLE]"
| "vortex_edges V_IGNITION = [V_CONTINUATION, V_ABSORPTION, V_TRAP, V_IDLE]"
| "vortex_edges V_CLASSIFICATION = []"
| "vortex_edges V_CONTINUATION = [V_CONFIRMATION]"
| "vortex_edges V_ABSORPTION = [V_CONFIRMATION]"
| "vortex_edges V_TRAP = [V_CONFIRMATION]"
| "vortex_edges V_CONFIRMATION = [V_PRE_TRADE_VALIDATION, V_COOLDOWN]"
| "vortex_edges V_PRE_TRADE_VALIDATION = [V_EXECUTABLE]"
| "vortex_edges V_EXECUTABLE = [V_ACTIVE]"
| "vortex_edges V_ACTIVE = [V_EXIT]"
| "vortex_edges V_EXIT = [V_COOLDOWN]"
| "vortex_edges V_COOLDOWN = [V_IDLE]"

fun log_links :: "vortex_state \<Rightarrow> fsm_log list \<Rightarrow> vortex_state \<Rightarrow> bool" where
  "log_links a [] b \<longleftrightarrow> a = b"
| "log_links a (l # ls) b \<longleftrightarrow> tl_from l = a \<and> tl_to l \<in> set (vortex_edges a) \<and> log_links (tl_to l) ls b"

definition vortex_run :: "(vortex_snapshot \<times> candle list) list \<Rightarrow> vortex_fsm \<Rightarrow> vortex_fsm" where
  "vortex_run bars f = fold (\<lambda>(s, cs) g. fst (vortex_step s cs g)) bars f"

lemma log_links_append:
  "log_links a (xs @ [l]) b \<longleftrightarrow> log_links a xs (tl_from l) \<and> tl_to l \<in> set (vortex_edges (tl_from l)) \<and> b = tl_to l"
  by (induction xs arbitrary: a) auto

lemma vortex_run_simps [simp]:
  "vortex_run [] f = f"
  "vortex_run (b # bars) f = vortex_run bars (fst (vortex_step (fst b) (snd b) f))"
  by (simp_all add: vortex_run_def split_beta)

lemma vortex_move_sel [simp]:
  "vf_state (vortex_move st ts why f) = st" "vf_bars (vortex_move st ts why f) = 0"
  "vf_event (vortex_move st ts why f) = vf_event f" "vf_trigger (vortex_move st ts why f) = vf_trigger f"
  "vf_entry (vortex_move st ts why f) = vf_entry f"
  "vf_armed_timeout (vortex_move st ts why f) = vf_armed_timeout f"
  "vf_confirm_timeout (vortex_move st ts why f) = vf_confirm_timeout f"
  "vf_active_timeout (vortex_move st ts why f) = vf_active_timeout f"
  "vf_history (vortex_move st ts why f) = vf_history f @
     [\<lparr>tl_from = vf_state f, tl_to = st, tl_timestamp = ts, tl_reason = why\<rparr>]"
  unfolding vortex_move_def by simp_all

lemmas vortex_moves = from_idle_def from_compression_def from_armed_def from_ignition_def from_confirmation_def from_cooldown_def

text \<open>The invariant: the log leads to the present state, and past the ignition the event and its trigger are known.\<close>

definition fsm_ok :: "vortex_fsm \<Rightarrow> bool" where
  "fsm_ok f \<longleftrightarrow> log_links V_IDLE (vf_history f) (vf_state f)
     \<and> vf_state f \<noteq> V_CLASSIFICATION
     \<and> (vf_state f \<in> {V_CONTINUATION, V_ABSORPTION, V_TRAP, V_CONFIRMATION, V_PRE_TRADE_VALIDATION, V_EXECUTABLE, V_ACTIVE, V_EXIT, V_COOLDOWN}
        \<longrightarrow> vf_event f \<noteq> None \<and> vf_trigger f \<noteq> None)
     \<and> (vf_state f = V_ACTIVE \<longrightarrow> vf_entry f \<noteq> None)"

lemma fsm_init_ok: "fsm_ok (vortex_fsm_init a c n)"
  by (simp add: fsm_ok_def vortex_fsm_init_def)

lemma fsm_ok_bars: "fsm_ok (f\<lparr>vf_bars := b\<rparr>) = fsm_ok f"
  by (simp add: fsm_ok_def)

lemma vortex_advance_ok:
  assumes "fsm_ok f" shows "fsm_ok (vortex_advance s cs f)"
proof (cases "vf_state f")
  case V_IGNITION
  then show ?thesis using assms
    by (simp add: vortex_advance_def fsm_ok_def from_ignition_def Let_def log_links_append split: option.split event_type.split)
next
  case V_CONFIRMATION
  then show ?thesis using assms
    by (auto simp: vortex_advance_def fsm_ok_def from_confirmation_def Let_def log_links_append split: if_splits)
qed (use assms in \<open>auto simp: vortex_advance_def fsm_ok_def vortex_moves Let_def log_links_append split: if_splits\<close>)

lemma vortex_step_ok: "fsm_ok f \<Longrightarrow> fsm_ok (fst (vortex_step s cs f))"
  by (simp add: vortex_step_def Let_def fsm_ok_bars vortex_advance_ok)

lemma vortex_run_ok: "fsm_ok f \<Longrightarrow> fsm_ok (vortex_run bars f)"
  by (induction bars arbitrary: f) (simp_all add: vortex_step_ok)

text \<open>The transition log is a path of the documented graph from idle to the present state, whatever bars arrive
  (also with an empty candle history): the classification state is never entered, the confirmation never
  finds its event or trigger missing, and an active trade has its entry price.\<close>

theorem vortex_log_is_path:
  "let f = vortex_run bars (vortex_fsm_init a c n) in
     log_links V_IDLE (vf_history f) (vf_state f) \<and> vf_state f \<noteq> V_CLASSIFICATION
     \<and> (vf_state f \<noteq> V_CONFIRMATION \<or> vf_event f \<noteq> None \<and> vf_trigger f \<noteq> None)
     \<and> (vf_state f \<noteq> V_ACTIVE \<or> vf_entry f \<noteq> None)"
  using vortex_run_ok [OF fsm_init_ok, of bars a c n] by (auto simp: fsm_ok_def Let_def)

lemma vortex_log_is_path_witness:
  "log_links V_IDLE (vf_history (vortex_run [(demo_snapshot ZONE_ARMED, demo_bars)] (vortex_fsm_init 15 3 10)))
     (vf_state (vortex_run [(demo_snapshot ZONE_ARMED, demo_bars)] (vortex_fsm_init 15 3 10)))"
  using vortex_log_is_path [of "[(demo_snapshot ZONE_ARMED, demo_bars)]" 15 3 10] by (simp only: Let_def)

subsection \<open>Every candidate ends\<close>

text \<open>The bars a candidate can still last.\<close>

definition waits :: "int \<Rightarrow> nat" where "waits k = max 1 (nat k)"

definition bars_left :: "vortex_fsm \<Rightarrow> nat" where
  "bars_left f = (let b = vf_bars f; act = waits (vf_active_timeout f); conf = waits (vf_confirm_timeout f) in
     case vf_state f of
       V_COOLDOWN \<Rightarrow> waits (2 - b)
     | V_EXIT \<Rightarrow> 3
     | V_ACTIVE \<Rightarrow> waits (vf_active_timeout f - b) + 3
     | V_EXECUTABLE \<Rightarrow> act + 4
     | V_PRE_TRADE_VALIDATION \<Rightarrow> act + 5
     | V_CONFIRMATION \<Rightarrow> waits (vf_confirm_timeout f - b) + act + 5
     | V_CONTINUATION \<Rightarrow> conf + act + 6
     | V_ABSORPTION \<Rightarrow> conf + act + 6
     | V_TRAP \<Rightarrow> conf + act + 6
     | V_IGNITION \<Rightarrow> conf + act + 7
     | V_ARMED \<Rightarrow> waits (vf_armed_timeout f + 1 - b) + conf + act + 7
     | _ \<Rightarrow> 0)"

definition pending :: "vortex_fsm \<Rightarrow> bool" where
  "pending f \<longleftrightarrow> vf_state f \<notin> {V_IDLE, V_COMPRESSION, V_CLASSIFICATION}"

lemma waits_pos [simp]: "0 < waits k" "waits k \<noteq> 0" by (simp_all add: waits_def)

lemma waits_dec: "k > 1 \<Longrightarrow> waits (k - 1) < waits k" by (simp add: waits_def)

lemma vortex_advance_shrinks:
  assumes "pending f" "0 \<le> vf_bars f" "cs \<noteq> []" and h_def: "h = fst (vortex_step s cs f)"
  shows "0 \<le> vf_bars h \<and> (vf_state h = V_IDLE \<or> pending h \<and> bars_left h < bars_left f)"
proof (cases "vf_state f")
  case V_IGNITION
  then show ?thesis using assms
    by (auto simp: h_def vortex_step_def vortex_advance_def from_ignition_def Let_def pending_def bars_left_def
        split: option.split event_type.split)
next
  case V_CONFIRMATION
  then show ?thesis using assms
    by (auto simp: h_def vortex_step_def vortex_advance_def from_confirmation_def Let_def pending_def bars_left_def waits_def
        split: option.split if_splits)
qed (use assms in \<open>auto simp: h_def vortex_step_def vortex_advance_def vortex_moves Let_def pending_def bars_left_def waits_def split: if_splits\<close>)

lemma pending_ends:
  assumes "pending f" "0 \<le> vf_bars f" "\<And>b. b \<in> set bars \<Longrightarrow> snd b \<noteq> []" "bars_left f \<le> length bars"
  shows "\<exists>k \<le> bars_left f. vf_state (vortex_run (take k bars) f) = V_IDLE"
  using assms
proof (induction bars arbitrary: f)
  case Nil
  then show ?case by (auto simp: pending_def bars_left_def Let_def split: vortex_state.splits)
next
  case (Cons b bars)
  let ?h = "fst (vortex_step (fst b) (snd b) f)"
  have h: "0 \<le> vf_bars ?h" "vf_state ?h = V_IDLE \<or> pending ?h \<and> bars_left ?h < bars_left f"
    using vortex_advance_shrinks [OF Cons.prems(1,2) _ refl, of "snd b" "fst b"] Cons.prems(3) by auto
  have pos: "0 < bars_left f"
    using Cons.prems(1) by (auto simp: pending_def bars_left_def Let_def split: vortex_state.splits)
  show ?case
  proof (cases "vf_state ?h = V_IDLE")
    case True
    then show ?thesis using pos by (intro exI [of _ 1]) auto
  next
    case False
    then obtain k where "k \<le> bars_left ?h" "vf_state (vortex_run (take k bars) ?h) = V_IDLE"
      using Cons.IH [of ?h] Cons.prems(3,4) h by auto
    then show ?thesis using h(2) False by (intro exI [of _ "Suc k"]) auto
  qed
qed

lemma bars_left_bound:
  "0 \<le> vf_bars f \<Longrightarrow>
     bars_left f \<le> waits (vf_armed_timeout f + 1) + waits (vf_confirm_timeout f) + waits (vf_active_timeout f) + 7"
  by (auto simp: bars_left_def Let_def waits_def split: vortex_state.splits)

lemma vortex_advance_frame:
  "vf_armed_timeout (vortex_advance s cs f) = vf_armed_timeout f"
  "vf_confirm_timeout (vortex_advance s cs f) = vf_confirm_timeout f"
  "vf_active_timeout (vortex_advance s cs f) = vf_active_timeout f"
  "0 \<le> vf_bars f \<Longrightarrow> 0 \<le> vf_bars (vortex_advance s cs f)"
  by (auto simp: vortex_advance_def vortex_moves Let_def split: vortex_state.splits option.splits event_type.splits)

lemma vortex_run_frame:
  "vf_armed_timeout (vortex_run bars f) = vf_armed_timeout f
   \<and> vf_confirm_timeout (vortex_run bars f) = vf_confirm_timeout f
   \<and> vf_active_timeout (vortex_run bars f) = vf_active_timeout f
   \<and> (0 \<le> vf_bars f \<longrightarrow> 0 \<le> vf_bars (vortex_run bars f))"
  by (induction bars arbitrary: f) (auto simp: vortex_step_def Let_def vortex_advance_frame)

text \<open>C26. No candidate is stuck: from every reachable state past compression, whatever the following bars show, the
  machine is idle again within the armed, confirmation and active timeouts plus eight bars (36 bars with
  the defaults 15, 3 and 10).\<close>

theorem candidate_always_ends:
  assumes "f = vortex_run before (vortex_fsm_init a c n)" "vf_state f \<notin> {V_IDLE, V_COMPRESSION}"
    and "\<And>b. b \<in> set bars \<Longrightarrow> snd b \<noteq> []" "0 \<le> a" "1 \<le> c" "1 \<le> n" "nat (a + c + n) + 8 \<le> length bars"
  shows "\<exists>k \<le> nat (a + c + n) + 8. vf_state (vortex_run (take k bars) f) = V_IDLE"
proof -
  note frame = vortex_run_frame [of before "vortex_fsm_init a c n"]
  have i: "vf_armed_timeout f = a" "vf_confirm_timeout f = c" "vf_active_timeout f = n" "0 \<le> vf_bars f"
    using frame by (simp_all add: assms(1) vortex_fsm_init_def)
  have p: "pending f" using assms(2) vortex_run_ok [OF fsm_init_ok, of before a c n] by (simp add: pending_def fsm_ok_def assms(1))
  have "waits (a + 1) + waits c + waits n + 7 = nat (a + c + n) + 8"
    using assms(4-6) by (simp add: waits_def nat_add_distrib)
  then have l: "bars_left f \<le> nat (a + c + n) + 8" using bars_left_bound [OF i(4)] i by simp
  then obtain k where "k \<le> bars_left f" "vf_state (vortex_run (take k bars) f) = V_IDLE"
    using pending_ends [OF p i(4) assms(3), of bars] assms(7) by fastforce
  then show ?thesis using l by (intro exI [of _ k]) linarith
qed

lemma candidate_always_ends_witness:
  "\<exists>k \<le> 36. vf_state (vortex_run (take k (replicate 36 (demo_snapshot ZONE_ARMED, demo_bars)))
      (vortex_run [(demo_snapshot ZONE_ARMED, demo_bars)] (vortex_fsm_init 15 3 10))) = V_IDLE"
  using candidate_always_ends [OF refl, of "[(demo_snapshot ZONE_ARMED, demo_bars)]" 15 3 10 "replicate 36 (demo_snapshot ZONE_ARMED, demo_bars)"]
  by (simp add: vortex_step_def vortex_advance_def from_idle_def vortex_fsm_init_def demo_snapshot_def demo_bars_def vortex_move_def)

end
