(* ===== verification/Droid_VortexGates.thy ===== *)
theory Droid_VortexGates
  imports Droid_Vortex Droid_Decimal
begin

text \<open>
  The gates around the VORTEX-SNAP decision core, \<open>backend/app/signals/strategies/vortex_snap\<close>: the market
  session (\<open>session.py\<close>), the no-trade gate, the cooldown and the deduplicator (\<open>signals/no_trade.py\<close>,
  \<open>signals/cooldown.py\<close>), the daily risk gate, the data-quality gate and the correlation controller
  (\<open>risk/daily_gates.py\<close>, \<open>risk/data_quality.py\<close>, \<open>risk/correlation.py\<close>), the trade envelope and the
  early exits (\<open>signals/exit_engine.py\<close>) and the score (\<open>signals/signal_score.py\<close>).
  Messages for people (\<open>details\<close>, \<open>explanation\<close>) and identifiers drawn at random are left out.
\<close>

subsection \<open>The market session\<close>

text \<open>Times of day are milliseconds; the time zone is India's fixed offset. The configured strings are taken as parsed.\<close>

record session_config =
  sc_open :: int
  sc_or_end :: int
  sc_intra_end :: int
  sc_square_off :: int
  sc_close :: int
  sc_windows :: "(int \<times> int) list"

definition clock_ms :: "int \<Rightarrow> int \<Rightarrow> int" where
  "clock_ms h m = (h * 60 + m) * 60000"

definition default_session :: session_config where
  "default_session = \<lparr>sc_open = clock_ms 9 15, sc_or_end = clock_ms 9 45, sc_intra_end = clock_ms 14 45,
     sc_square_off = clock_ms 15 15, sc_close = clock_ms 15 30,
     sc_windows = [(clock_ms 9 15, clock_ms 9 20), (clock_ms 15 15, clock_ms 15 30)]\<rparr>"

definition local_ms :: "int \<Rightarrow> int" where "local_ms ts = ts + 19800000"
definition time_of_day :: "int \<Rightarrow> int" where "time_of_day ts = local_ms ts mod 86400000"
definition day_of_week :: "int \<Rightarrow> int" where "day_of_week ts = (local_ms ts div 86400000 + 3) mod 7"

text \<open>\<open>max(total_seconds() / 60.0, 0.0)\<close>, rounded to two places.\<close>

definition minutes_between :: "int \<Rightarrow> int \<Rightarrow> rat" where
  "minutes_between a b = round2 (max (frnd (frnd (of_int (b - a) / 1000) / 60)) 0)"

definition phase_at :: "session_config \<Rightarrow> bool \<Rightarrow> int \<Rightarrow> session_phase \<times> bool" where
  "phase_at c in_no_trade t = (
     if t < clock_ms 9 0 then (PHASE_CLOSED, False)
     else if t < sc_open c then (PRE_OPEN, False)
     else if t < clock_ms 9 20 then (MARKET_OPEN, \<not> in_no_trade)
     else if t < sc_or_end c then (OPENING_RANGE, \<not> in_no_trade)
     else if t < sc_intra_end c then (NORMAL_INTRADAY, \<not> in_no_trade)
     else if t < sc_square_off c then (LATE_SESSION, \<not> in_no_trade)
     else if t < sc_close c then (SQUARE_OFF_PHASE, False)
     else (PHASE_CLOSED, False))"

definition session_at :: "session_config \<Rightarrow> int \<Rightarrow> vortex_session" where
  "session_at c ts = (let t = time_of_day ts; wd = day_of_week ts in
     if 5 \<le> wd then \<lparr>ss_phase = PHASE_CLOSED, ss_from_open = 0, ss_to_close = 0, ss_weekday = wd, ss_timestamp = ts,
       ss_allowed = False, ss_no_trade = True, ss_square_off = False\<rparr>
     else
       (let in_no_trade = list_ex (\<lambda>(a, b). a \<le> t \<and> t < b) (sc_windows c);
            square_off = (sc_square_off c \<le> t \<and> t < sc_close c);
            (phase, allowed) = phase_at c in_no_trade t in
        \<lparr>ss_phase = phase, ss_from_open = minutes_between (sc_open c) t, ss_to_close = minutes_between t (sc_close c),
          ss_weekday = wd, ss_timestamp = ts, ss_allowed = (allowed \<and> \<not> square_off),
          ss_no_trade = (in_no_trade \<or> \<not> allowed), ss_square_off = square_off\<rparr>))"

text \<open>With the exchange hours of the configuration, new trades are allowed exactly on weekdays from 09:20 to before
  15:15, and the forced square-off covers exactly the weekdays' last quarter of an hour, in which no new trade is allowed.\<close>

theorem session_allows_iff:
  "ss_allowed (session_at default_session ts)
     \<longleftrightarrow> day_of_week ts < 5 \<and> clock_ms 9 20 \<le> time_of_day ts \<and> time_of_day ts < clock_ms 15 15"
  by (auto simp: session_at_def default_session_def phase_at_def clock_ms_def Let_def)

lemma square_off_iff:
  "ss_square_off (session_at default_session ts)
     \<longleftrightarrow> day_of_week ts < 5 \<and> clock_ms 15 15 \<le> time_of_day ts \<and> time_of_day ts < clock_ms 15 30"
  by (auto simp: session_at_def default_session_def phase_at_def clock_ms_def Let_def)

subsection \<open>The no-trade gate\<close>

record no_trade_input =
  ni_cooldown :: bool
  ni_daily_breached :: bool
  ni_losses :: int
  ni_max_losses :: int
  ni_slippage :: rat
  ni_max_slippage :: rat
  ni_correlated :: bool

definition no_trade_defaults :: no_trade_input where
  "no_trade_defaults = \<lparr>ni_cooldown = False, ni_daily_breached = False, ni_losses = 0, ni_max_losses = 3, ni_slippage = 0,
     ni_max_slippage = 15, ni_correlated = False\<rparr>"

definition no_trade_reasons :: "vortex_snapshot \<Rightarrow> no_trade_input \<Rightarrow> reason_code list" where
  "no_trade_reasons s i =
     (if \<not> ss_allowed (vx_session s) then [if ss_square_off (vx_session s) then FORCED_SQUARE_OFF else NO_TRADE_WINDOW] else [])
   @ (if vx_regime s = CHAOTIC then [REGIME_CHAOTIC] else [])
   @ (if ni_cooldown i then [COOLDOWN_ACTIVE] else [])
   @ (if ni_daily_breached i then [DAILY_LOSS_LIMIT_REACHED] else [])
   @ (if ni_max_losses i \<le> ni_losses i then [CONSECUTIVE_LOSS_LIMIT] else [])
   @ (if ni_max_slippage i < ni_slippage i then [SLIPPAGE_TOO_HIGH] else [])
   @ (if ni_correlated i then [CORRELATED_EXPOSURE_ACTIVE] else [])"

definition is_no_trade :: "vortex_snapshot \<Rightarrow> no_trade_input \<Rightarrow> bool" where
  "is_no_trade s i \<longleftrightarrow> no_trade_reasons s i \<noteq> []"

subsection \<open>Cooldown\<close>

record cooldown_manager =
  cm_target :: int
  cm_stop :: int
  cm_invalidation :: int
  cm_until :: "(string, int) dict"

definition cooldown_init :: cooldown_manager where
  "cooldown_init = \<lparr>cm_target = 120, cm_stop = 300, cm_invalidation = 180, cm_until = []\<rparr>"

definition trigger_cooldown :: "string \<Rightarrow> string \<Rightarrow> int \<Rightarrow> cooldown_manager \<Rightarrow> cooldown_manager" where
  "trigger_cooldown inst why ts m = m\<lparr>cm_until := AList.update inst (ts + 1000 *
     (if why \<in> {''TARGET'', ''TARGET_1'', ''TARGET_2''} then cm_target m
      else if why \<in> {''STOP'', ''STOP_LOSS'', ''TRAP_FAIL''} then cm_stop m
      else cm_invalidation m)) (cm_until m)\<rparr>"

definition is_in_cooldown :: "string \<Rightarrow> int \<Rightarrow> cooldown_manager \<Rightarrow> bool" where
  "is_in_cooldown inst ts m \<longleftrightarrow> ts < or_else (map_of (cm_until m) inst) 0"

definition cooldown_reset :: "string option \<Rightarrow> cooldown_manager \<Rightarrow> cooldown_manager" where
  "cooldown_reset inst m = m\<lparr>cm_until := (if or_else inst [] \<noteq> [] then AList.delete (or_else inst []) (cm_until m) else [])\<rparr>"

subsection \<open>Deduplication\<close>

text \<open>An event is known by its instrument, its level to one place and its direction; the underscore-joined text of the
  three is read back uniquely from the right, so the key is the triple.\<close>

type_synonym event_key = "string \<times> rat \<times> int"

record deduplicator =
  dd_ttl :: int
  dd_events :: "(event_key, int) dict"

definition dedup_init :: deduplicator where
  "dedup_init = \<lparr>dd_ttl = 600 * 1000, dd_events = []\<rparr>"

definition event_key :: "string \<Rightarrow> rat \<Rightarrow> int \<Rightarrow> event_key" where
  "event_key inst price dir = (inst, round_places 1 price, dir)"

definition live_events :: "int \<Rightarrow> deduplicator \<Rightarrow> (event_key, int) dict" where
  "live_events ts d = filter (\<lambda>(k, t). \<not> dd_ttl d < ts - t) (dd_events d)"

definition is_duplicate :: "string \<Rightarrow> rat \<Rightarrow> int \<Rightarrow> int \<Rightarrow> deduplicator \<Rightarrow> deduplicator \<times> bool" where
  "is_duplicate inst price dir ts d = (let k = event_key inst price dir; live = live_events ts d in
     if map_of live k \<noteq> None then (d\<lparr>dd_events := live\<rparr>, True)
     else (d\<lparr>dd_events := AList.update k ts live\<rparr>, False))"

definition dedup_reset :: "deduplicator \<Rightarrow> deduplicator" where
  "dedup_reset d = d\<lparr>dd_events := []\<rparr>"

subsection \<open>The daily risk gate\<close>

record daily_limits =
  dl_max_loss :: rat
  dl_max_consecutive :: int
  dl_max_positions :: int
  dl_max_trades :: int
  dl_max_signals_per_hour :: int

definition default_daily_limits :: daily_limits where
  "default_daily_limits = \<lparr>dl_max_loss = 120, dl_max_consecutive = 3, dl_max_positions = 2, dl_max_trades = 8,
     dl_max_signals_per_hour = 4\<rparr>"

record daily_gate =
  dg_limits :: daily_limits
  dg_pnl :: rat
  dg_losses :: int
  dg_trades :: int
  dg_active :: int

definition daily_gate_init :: "daily_limits option \<Rightarrow> daily_gate" where
  "daily_gate_init l = \<lparr>dg_limits = or_else l default_daily_limits, dg_pnl = 0, dg_losses = 0, dg_trades = 0, dg_active = 0\<rparr>"

definition record_trade_outcome :: "rat \<Rightarrow> daily_gate \<Rightarrow> daily_gate" where
  "record_trade_outcome net g = g\<lparr>dg_pnl := frnd (dg_pnl g + net), dg_trades := dg_trades g + 1,
     dg_losses := (if net < 0 then dg_losses g + 1 else 0)\<rparr>"

text \<open>The refusal, or none.\<close>

definition can_open_position :: "daily_gate \<Rightarrow> reason_code option" where
  "can_open_position g = (if dg_pnl g \<le> - dl_max_loss (dg_limits g) then Some DAILY_LOSS_LIMIT_REACHED
     else if dl_max_consecutive (dg_limits g) \<le> dg_losses g then Some CONSECUTIVE_LOSS_LIMIT
     else if dl_max_positions (dg_limits g) \<le> dg_active g then Some CORRELATED_EXPOSURE_ACTIVE
     else None)"

definition daily_gate_reset :: "daily_gate \<Rightarrow> daily_gate" where
  "daily_gate_reset g = g\<lparr>dg_pnl := 0, dg_losses := 0, dg_trades := 0, dg_active := 0\<rparr>"

subsection \<open>Data quality\<close>

record quality_result =
  qr_valid :: bool
  qr_reason :: "reason_code option"
  qr_latency :: int

definition bad_quality :: quality_result where
  "bad_quality = \<lparr>qr_valid = False, qr_reason = Some DATA_QUALITY_FAIL, qr_latency = 0\<rparr>"

definition validate_candles :: "int \<Rightarrow> candle list \<Rightarrow> int \<Rightarrow> quality_result" where
  "validate_candles max_staleness cs now = (if cs = [] then bad_quality
     else (let c = last cs; staleness = \<bar>now - cd_timestamp c\<bar> in
       if cd_close c \<le> 0 \<or> cd_high c \<le> 0 \<or> cd_low c \<le> 0 \<or> cd_open c \<le> 0 then bad_quality
       else if cd_high c < cd_low c \<or> cd_high c < max (cd_open c) (cd_close c) \<or> min (cd_open c) (cd_close c) < cd_low c
         then bad_quality
       else if cd_volume c < 0 then bad_quality
       else if max_staleness < staleness then \<lparr>qr_valid = False, qr_reason = Some DATA_STALE, qr_latency = staleness\<rparr>
       else \<lparr>qr_valid = True, qr_reason = None, qr_latency = staleness\<rparr>))"

subsection \<open>Correlated signals\<close>

record signal_cluster =
  sl_instruments :: "string list"
  sl_direction :: int
  sl_score :: rat
  sl_created :: int

record correlation_controller =
  cc_window :: int
  cc_recent :: "(string, int \<times> int) dict"

definition correlation_init :: "int \<Rightarrow> correlation_controller" where
  "correlation_init w = \<lparr>cc_window = w * 1000, cc_recent = []\<rparr>"

definition register_and_evaluate ::
  "string \<Rightarrow> int \<Rightarrow> int \<Rightarrow> correlation_controller \<Rightarrow> correlation_controller \<times> signal_cluster option" where
  "register_and_evaluate inst dir ts c = (let
      live = filter (\<lambda>(i, d, t). ts - t \<le> cc_window c) (cc_recent c);
      aligned = map fst (filter (\<lambda>(i, d, t). d = dir \<and> i \<noteq> inst) live) in
     (c\<lparr>cc_recent := AList.update inst (dir, ts) live\<rparr>,
      if aligned = [] then None
      else Some \<lparr>sl_instruments = aligned @ [inst], sl_direction = dir,
        sl_score = (if length (aligned @ [inst]) = 2 then frnd (85 / 100) else frnd (95 / 100)), sl_created = ts\<rparr>))"

definition correlation_reset :: "correlation_controller \<Rightarrow> correlation_controller" where
  "correlation_reset c = c\<lparr>cc_recent := []\<rparr>"

subsection \<open>The trade envelope\<close>

record instrument_profile =
  ip_min_risk :: rat
  ip_max_risk :: rat
  ip_atr :: rat
  ip_t1_ceil :: rat
  ip_t2_ceil :: rat

text \<open>\<open>x or d\<close>: a missing or zero distance is falsy.\<close>

definition distance_or :: "rat option \<Rightarrow> rat \<Rightarrow> rat" where
  "distance_or x d = (if or_else x 0 = 0 then d else or_else x 0)"

definition profile_for :: "vortex_snapshot \<Rightarrow> instrument_profile" where
  "profile_for s = (let inst = map to_upper (vx_instrument s); r = lm_resistance_distance (vx_levels s) in
     if occurs_in ''SENSEX'' inst then \<lparr>ip_min_risk = 35, ip_max_risk = 70, ip_atr = max (distance_or r 45) 35,
       ip_t1_ceil = 100, ip_t2_ceil = 160\<rparr>
     else if occurs_in ''BANK'' inst then \<lparr>ip_min_risk = 25, ip_max_risk = 50, ip_atr = max (distance_or r 30) 25,
       ip_t1_ceil = 75, ip_t2_ceil = 120\<rparr>
     else \<lparr>ip_min_risk = 8, ip_max_risk = 18, ip_atr = max (distance_or r 15) 10, ip_t1_ceil = 30, ip_t2_ceil = 45\<rparr>)"

record exit_targets =
  et_entry :: rat
  et_stop :: rat
  et_target_1 :: rat
  et_target_2 :: rat
  et_expected_move :: rat
  et_holding :: rat
  et_risk :: rat
  et_reward_risk :: rat

definition bounded_move :: "rat \<Rightarrow> rat option \<Rightarrow> rat \<Rightarrow> rat" where
  "bounded_move raw d min_risk = (if or_else d 0 = 0 then raw
     else min raw (max (frnd (or_else d 0 * frnd (90 / 100))) (frnd (min_risk * frnd (15 / 10)))))"

definition expected_move :: "int \<Rightarrow> vortex_snapshot \<Rightarrow> instrument_profile \<Rightarrow> rat \<Rightarrow> rat" where
  "expected_move dir s p min_risk = (let
      boost = frnd (1 + frnd (frnd (5 / 10) * vx_energy s));
      raw = frnd (frnd (frnd (18 / 10) * ip_atr p) * boost);
      d = (if 0 < dir then lm_resistance_distance (vx_levels s) else lm_support_distance (vx_levels s)) in
     min (bounded_move raw d min_risk) (ip_t2_ceil p))"

definition structural_risk :: "int \<Rightarrow> rat \<Rightarrow> structural_level option \<Rightarrow> rat \<Rightarrow> rat" where
  "structural_risk dir entry lvl atr = (let
      buffer = max (frnd (frnd (20 / 100) * atr)) 3;
      away = frnd (frnd (85 / 100) * atr) in
     if 0 < dir then frnd (entry - (case lvl of
         Some l \<Rightarrow> if lv_price l < entry then frnd (lv_price l - buffer) else frnd (entry - away)
       | None \<Rightarrow> frnd (entry - away)))
     else frnd ((case lvl of
         Some l \<Rightarrow> if entry < lv_price l then frnd (lv_price l + buffer) else frnd (entry + away)
       | None \<Rightarrow> frnd (entry + away)) - entry))"

definition trade_envelope ::
  "int \<Rightarrow> rat \<Rightarrow> vortex_snapshot \<Rightarrow> structural_level option \<Rightarrow> rat option \<Rightarrow> rat option \<Rightarrow> exit_targets" where
  "trade_envelope dir entry s lvl min_points max_points = (let
      p = profile_for s;
      lo = or_else min_points (ip_min_risk p);
      hi = or_else max_points (ip_max_risk p);
      em = expected_move dir s p lo;
      risk = max lo (min (structural_risk dir entry lvl (ip_atr p)) hi);
      step1 = min (frnd (frnd (80 / 100) * em)) (ip_t1_ceil p);
      stop = (if 0 < dir then frnd (entry - risk) else frnd (entry + risk));
      t1 = (if 0 < dir then frnd (entry + step1) else frnd (entry - step1));
      t2 = (if 0 < dir then frnd (entry + em) else frnd (entry - em));
      rr = round2 (frnd (\<bar>frnd (t1 - entry)\<bar> / max risk (frnd (1 / 1000000))));
      hold = round_places 1 (max 2 (min (frnd (55 / 10)) (frnd (3 * frnd (em / max (ip_atr p) 1))))) in
     \<lparr>et_entry = round2 entry, et_stop = round2 stop, et_target_1 = round2 t1, et_target_2 = round2 t2,
       et_expected_move = round2 em, et_holding = hold, et_risk = round2 risk, et_reward_risk = rr\<rparr>)"

definition check_dynamic_exits :: "int \<Rightarrow> rat \<Rightarrow> candle \<Rightarrow> vortex_snapshot \<Rightarrow> rat \<Rightarrow> rat \<Rightarrow> bool \<times> string option" where
  "check_dynamic_exits dir entry c s age horizon = (
     if horizon \<le> age then (True, Some ''TIME_DECAY_EXHAUSTION'')
     else if 0 < dir \<and> vx_pressure s \<le> frnd (- 40 / 100) \<and> cd_close c < entry then (True, Some ''PRESSURE_COLLAPSE_BEARISH'')
     else if dir < 0 \<and> frnd (40 / 100) \<le> vx_pressure s \<and> entry < cd_close c then (True, Some ''PRESSURE_COLLAPSE_BULLISH'')
     else (False, None))"

subsection \<open>The score\<close>

record scoring_weights =
  sw_structural :: rat
  sw_momentum :: rat
  sw_pressure :: rat
  sw_translation :: rat
  sw_liquidity :: rat
  sw_regime :: rat
  sw_ml :: rat

definition default_weights :: scoring_weights where
  "default_weights = \<lparr>sw_structural = frnd (20 / 100), sw_momentum = frnd (15 / 100), sw_pressure = frnd (15 / 100),
     sw_translation = frnd (15 / 100), sw_liquidity = frnd (15 / 100), sw_regime = frnd (10 / 100), sw_ml = frnd (10 / 100)\<rparr>"

definition compute_score :: "scoring_weights \<Rightarrow> vortex_snapshot \<Rightarrow> structural_level option \<Rightarrow> rat option \<Rightarrow> rat" where
  "compute_score w s lvl ml = (let
      structural = (case lvl of Some l \<Rightarrow> lv_relevance l | None \<Rightarrow> frnd (50 / 100));
      momentum = frnd (frnd (vx_energy s + min (frnd (vx_range_expansion s / 2)) 1) / 2);
      parts = [(sw_momentum w, momentum), (sw_pressure w, \<bar>vx_pressure s\<bar>), (sw_translation w, vx_translation_score s),
        (sw_liquidity w, vx_vacuum s), (sw_regime w, vx_regime_confidence s), (sw_ml w, or_else ml (frnd (50 / 100)))];
      raw = foldl (\<lambda>acc (k, x). frnd (acc + frnd (k * x))) (frnd (sw_structural w * structural)) parts in
     round_places 4 (max 0 (min 1 raw)))"

subsection \<open>What the gates guarantee\<close>

text \<open>A trade is vetoed exactly when one of the documented conditions holds, and the veto lists each of them once.\<close>

lemma no_trade_clear:
  "\<not> is_no_trade s i \<longleftrightarrow> ss_allowed (vx_session s) \<and> vx_regime s \<noteq> CHAOTIC \<and> \<not> ni_cooldown i \<and> \<not> ni_daily_breached i
     \<and> ni_losses i < ni_max_losses i \<and> ni_slippage i \<le> ni_max_slippage i \<and> \<not> ni_correlated i"
  by (auto simp: is_no_trade_def no_trade_reasons_def)

subsection \<open>One signal per event and window\<close>

text \<open>A call is an event key with its time; the answers list the calls that were accepted.\<close>

type_synonym dedup_call = "string \<times> rat \<times> int \<times> int"

definition call_key :: "dedup_call \<Rightarrow> event_key" where
  "call_key c = (case c of (i, p, d, t) \<Rightarrow> event_key i p d)"

definition call_time :: "dedup_call \<Rightarrow> int" where
  "call_time c = (case c of (i, p, d, t) \<Rightarrow> t)"

fun accepted_calls :: "deduplicator \<Rightarrow> dedup_call list \<Rightarrow> (event_key \<times> int) list" where
  "accepted_calls d [] = []"
| "accepted_calls d ((i, p, dir, t) # cs) = (let r = is_duplicate i p dir t d in
     (if snd r then [] else [(event_key i p dir, t)]) @ accepted_calls (fst r) cs)"

lemma map_of_live:
  "map_of (live_events ts d) k = Some t \<Longrightarrow> distinct (map fst (dd_events d)) \<Longrightarrow> map_of (dd_events d) k = Some t \<and> ts - t \<le> dd_ttl d"
  by (auto simp: live_events_def map_of_eq_Some_iff distinct_map_filter dest!: map_of_SomeD)

lemma map_of_live_intro:
  "map_of (dd_events d) k = Some t \<Longrightarrow> ts - t \<le> dd_ttl d \<Longrightarrow> distinct (map fst (dd_events d)) \<Longrightarrow> map_of (live_events ts d) k = Some t"
  by (simp add: live_events_def map_of_eq_Some_iff distinct_map_filter)

lemma duplicate_distinct:
  "distinct (map fst (dd_events d)) \<Longrightarrow> distinct (map fst (dd_events (fst (is_duplicate i p dir t d))))"
  by (simp add: is_duplicate_def Let_def live_events_def distinct_map_filter distinct_update)

lemma duplicate_ttl: "dd_ttl (fst (is_duplicate i p dir t d)) = dd_ttl d"
  by (simp add: is_duplicate_def Let_def)

text \<open>A remembered key answers every call within its window as a duplicate and stays remembered.\<close>

lemma duplicate_within:
  assumes "distinct (map fst (dd_events d))" "map_of (dd_events d) k = Some t0" "t - t0 \<le> dd_ttl d"
  shows "map_of (dd_events (fst (is_duplicate i p dir t d))) k = Some t0
    \<and> (event_key i p dir = k \<longrightarrow> snd (is_duplicate i p dir t d))"
proof -
  have "map_of (live_events t d) k = Some t0" using assms by (intro map_of_live_intro) auto
  then show ?thesis by (auto simp: is_duplicate_def Let_def dict_simps)
qed

lemma remembered_blocks:
  assumes "distinct (map fst (dd_events d))" "map_of (dd_events d) k = Some t0" "sorted (map call_time cs)" "(k, t) \<in> set (accepted_calls d cs)"
  shows "dd_ttl d < t - t0"
  using assms
proof (induction cs arbitrary: d)
  case (Cons c cs)
  obtain i p dir s where c: "c = (i, p, dir, s)" by (cases c)
  let ?d = "fst (is_duplicate i p dir s d)"
  have later: "s \<le> u" if "(k', u) \<in> set (accepted_calls e cs)" for k' u e
  proof -
    have "u \<in> call_time ` set cs" using that
    proof (induction cs arbitrary: e)
      case (Cons b cs)
      then show ?case by (cases b) (auto simp: call_time_def Let_def split: if_splits)
    qed simp
    then show ?thesis using Cons.prems(3) by (auto simp: c call_time_def)
  qed
  show ?case
  proof (cases "s - t0 \<le> dd_ttl d")
    case True
    from duplicate_within [OF Cons.prems(1,2) True, of i p dir]
    have "map_of (dd_events ?d) k = Some t0" "event_key i p dir = k \<longrightarrow> snd (is_duplicate i p dir s d)" by blast+
    moreover from this have "(k, t) \<in> set (accepted_calls ?d cs)"
      using Cons.prems(4) by (auto simp: c Let_def split: if_splits)
    ultimately show ?thesis
      using Cons.IH [of ?d] Cons.prems(1,3) by (simp add: duplicate_distinct duplicate_ttl c)
  next
    case False
    have "t = s \<or> (\<exists>e. (k, t) \<in> set (accepted_calls e cs))"
      using Cons.prems(4) by (auto simp: c Let_def split: if_splits)
    then have "s \<le> t" by (elim disjE exE) (simp, rule later)
    then show ?thesis using False by simp
  qed
qed simp

text \<open>One signal per event and window: of the calls that come in the order of time, two accepted for the same
  instrument, level and direction are always more than the time to live apart, however many events come between.\<close>

theorem one_signal_per_window:
  assumes "sorted (map call_time cs)" "accepted_calls (d\<lparr>dd_events := []\<rparr>) cs = xs @ (k, t) # ys" "(k, u) \<in> set ys"
  shows "dd_ttl d < u - t"
proof -
  have "dd_ttl d < u - t" if "distinct (map fst (dd_events e))" "dd_ttl e = dd_ttl d" "sorted (map call_time cs)" "accepted_calls e cs = xs @ (k, t) # ys" for e
    using that
  proof (induction cs arbitrary: e xs)
    case (Cons c cs)
    obtain i p dir s where c: "c = (i, p, dir, s)" by (cases c)
    let ?d = "fst (is_duplicate i p dir s e)"
    have d: "distinct (map fst (dd_events ?d))" "dd_ttl ?d = dd_ttl d" using Cons.prems by (simp_all add: duplicate_distinct duplicate_ttl)
    show ?case
    proof (cases "xs = [] \<and> \<not> snd (is_duplicate i p dir s e)")
      case True
      then have a: "k = event_key i p dir" "t = s" "ys = accepted_calls ?d cs"
        using Cons.prems(4) by (auto simp: c Let_def)
      have "map_of (dd_events ?d) k = Some t"
        using True by (auto simp: is_duplicate_def Let_def dict_simps a)
      then show ?thesis
        using remembered_blocks [OF d(1), of k t cs u] Cons.prems(3) assms(3) d(2) by (simp add: a(3) c)
    next
      case False
      then have "\<exists>zs. accepted_calls ?d cs = zs @ (k, t) # ys"
        using Cons.prems(4) by (auto simp: c Let_def Cons_eq_append_conv split: if_splits)
      then show ?thesis using Cons.IH [OF d] Cons.prems(3) by (auto simp: c)
    qed
  qed simp
  from this [of "d\<lparr>dd_events := []\<rparr>"] assms(1,2) show ?thesis by simp
qed

lemma one_signal_per_window_witness:
  "dd_ttl dedup_init < (700000::int) - 0"
proof -
  let ?c = "\<lambda>t. (''NIFTY'', 100, 1, t) :: dedup_call"
  have "accepted_calls (dedup_init\<lparr>dd_events := []\<rparr>) [?c 0, ?c 5, ?c 700000]
      = [] @ (event_key ''NIFTY'' 100 1, 0) # [(event_key ''NIFTY'' 100 1, 700000)]"
    by (simp add: is_duplicate_def Let_def live_events_def dedup_init_def)
  from one_signal_per_window [OF _ this] show ?thesis by (simp add: call_time_def)
qed

subsection \<open>The daily counters\<close>

text \<open>After any outcomes since the start of the day the gate holds their number, their running sum and the length
  of the present losing streak, so it refuses once the streak or the loss reaches its limit.\<close>

theorem daily_gate_counts:
  "let g = foldl (\<lambda>g x. record_trade_outcome x g) (daily_gate_init (Some l)) xs in
     dg_trades g = int (length xs) \<and> dg_pnl g = foldl (\<lambda>p x. frnd (p + x)) 0 xs
     \<and> dg_losses g = int (length (takeWhile (\<lambda>x. x < 0) (rev xs)))
     \<and> (can_open_position g = None \<longleftrightarrow> - dl_max_loss l < dg_pnl g \<and> dg_losses g < dl_max_consecutive l \<and> 0 < dl_max_positions l)"
proof -
  have "let g = foldl (\<lambda>g x. record_trade_outcome x g) (daily_gate_init (Some l)) xs in
     dg_limits g = l \<and> dg_active g = 0 \<and>
     dg_trades g = int (length xs) \<and> dg_pnl g = foldl (\<lambda>p x. frnd (p + x)) 0 xs
     \<and> dg_losses g = int (length (takeWhile (\<lambda>x. x < 0) (rev xs)))"
    by (induction xs rule: rev_induct) (simp_all add: daily_gate_init_def record_trade_outcome_def Let_def)
  then show ?thesis by (auto simp: Let_def can_open_position_def)
qed

text \<open>The number of trades never matters, although a maximum is configured.\<close>

lemma trade_count_unchecked: "can_open_position (g\<lparr>dg_trades := n\<rparr>) = can_open_position g"
  by (simp add: can_open_position_def)

subsection \<open>The envelope\<close>

lemma round2_mono: "x \<le> y \<Longrightarrow> round2 x \<le> round2 y"
  unfolding round2_def by (intro flt.rnd_mono divide_right_mono) (simp_all add: rhe_mono mult_right_mono)

lemma frnd_add_ge: "0 \<le> y \<Longrightarrow> frnd x = x \<Longrightarrow> x \<le> frnd (x + y)"
  using flt.rnd_ge_rep [of x "x + y"] by simp

lemma frnd_sub_le: "0 \<le> y \<Longrightarrow> frnd x = x \<Longrightarrow> frnd (x - y) \<le> x"
  using flt.rnd_le_rep [of x "x - y"] by simp

lemma eight_tenths_le: "0 \<le> x \<Longrightarrow> frnd x = x \<Longrightarrow> frnd (frnd (80 / 100) * x) \<le> x"
proof -
  assume x: "0 \<le> x" "frnd x = x"
  have "frnd (80 / 100) \<le> 1" using flt.rnd_mono [of "80/100" 1] by simp
  then have "frnd (80 / 100) * x \<le> 1 * x" using x(1) by (intro mult_right_mono) auto
  then show ?thesis using flt.rnd_le_rep [OF x(2)] by simp
qed

lemma profile_pos: "0 < ip_min_risk (profile_for s) \<and> 10 \<le> ip_atr (profile_for s) \<and> ip_min_risk (profile_for s) \<le> ip_max_risk (profile_for s)
   \<and> 0 < ip_t1_ceil (profile_for s) \<and> 0 < ip_t2_ceil (profile_for s) \<and> frnd (ip_t2_ceil (profile_for s)) = ip_t2_ceil (profile_for s)"
  by (auto simp: profile_for_def Let_def le_max_iff_disj)

lemma frnd_min_max:
  "frnd a = a \<Longrightarrow> frnd b = b \<Longrightarrow> frnd (min a b) = min a b"
  "frnd a = a \<Longrightarrow> frnd b = b \<Longrightarrow> frnd (max a b) = max a b"
  by (simp_all add: min_def max_def)

text \<open>The expected move is a non-negative float.\<close>

lemma expected_move_float:
  assumes "0 \<le> vx_energy s" "0 < lo"
  shows "0 \<le> expected_move dir s (profile_for s) lo
    \<and> frnd (expected_move dir s (profile_for s) lo) = expected_move dir s (profile_for s) lo"
proof -
  let ?raw = "frnd (frnd (frnd (18 / 10) * ip_atr (profile_for s)) * frnd (1 + frnd (frnd (5 / 10) * vx_energy s)))"
  have r: "0 \<le> ?raw"
    using profile_pos [of s] assms by (intro flt.rnd_nonneg mult_nonneg_nonneg) (auto intro!: add_nonneg_nonneg flt.rnd_nonneg mult_nonneg_nonneg)
  have m: "0 \<le> frnd (lo * frnd (15 / 10))"
    using assms(2) by (intro flt.rnd_nonneg mult_nonneg_nonneg) (simp_all add: flt.rnd_nonneg)
  have b: "0 \<le> bounded_move ?raw d lo \<and> frnd (bounded_move ?raw d lo) = bounded_move ?raw d lo" for d
    using r m by (auto simp: bounded_move_def frnd_min_max flt.rnd_idem le_max_iff_disj)
  show ?thesis using b [of "if 0 < dir then lm_resistance_distance (vx_levels s) else lm_support_distance (vx_levels s)"] profile_pos [of s]
    by (auto simp: expected_move_def Let_def min_def)
qed

text \<open>The envelope of a trade is oriented: the stop lies on the losing side of the entry and the targets on the winning
  side in order, for longs and shorts, and the risk stays within the instrument's bounds, all after rounding.\<close>

lemma envelope_sides:
  assumes "0 \<le> vx_energy s" "frnd entry = entry"
  shows "let e = trade_envelope dir entry s lvl None None in
    (0 < dir \<longrightarrow> et_stop e \<le> et_entry e \<and> et_entry e \<le> et_target_1 e \<and> et_target_1 e \<le> et_target_2 e)
    \<and> (dir \<le> 0 \<longrightarrow> et_entry e \<le> et_stop e \<and> et_target_1 e \<le> et_entry e \<and> et_target_2 e \<le> et_target_1 e)
    \<and> round2 (ip_min_risk (profile_for s)) \<le> et_risk e \<and> et_risk e \<le> round2 (ip_max_risk (profile_for s))"
proof -
  let ?p = "profile_for s"
  let ?em = "expected_move dir s ?p (ip_min_risk ?p)"
  let ?r = "max (ip_min_risk ?p) (min (structural_risk dir entry lvl (ip_atr ?p)) (ip_max_risk ?p))"
  let ?st = "min (frnd (frnd (80 / 100) * ?em)) (ip_t1_ceil ?p)"
  note p = profile_pos [of s]
  have em: "0 \<le> ?em" "frnd ?em = ?em" using expected_move_float [OF assms(1), of "ip_min_risk ?p" dir] p by auto
  have st: "0 \<le> ?st" "?st \<le> ?em"
    using em p eight_tenths_le [OF em] by (auto simp: min_le_iff_disj intro!: flt.rnd_nonneg mult_nonneg_nonneg)
  have r: "0 \<le> ?r" using p by (simp add: le_max_iff_disj)
  have rb: "ip_min_risk ?p \<le> ?r" "?r \<le> ip_max_risk ?p" using p by auto
  show ?thesis
    using frnd_add_ge [OF st(1) assms(2)] frnd_sub_le [OF st(1) assms(2)] frnd_add_ge [OF r assms(2)] frnd_sub_le [OF r assms(2)]
      flt.rnd_mono [of "entry + ?st" "entry + ?em"] flt.rnd_mono [of "entry - ?em" "entry - ?st"] st(2) rb
    by (auto simp: trade_envelope_def Let_def intro: round2_mono)
qed

end
