(* ===== verification/Droid_VortexStrategy.thy ===== *)
theory Droid_VortexStrategy
  imports Droid_VortexGates
begin

text \<open>
  The VORTEX-SNAP strategy, \<open>backend/app/signals/strategies/vortex_snap/strategy.py\<close>: \<open>detect\<close> runs the gates, the
  life cycle, the classifier, the deduplicator, the confirmation and the validator in this order. The two
  snapshots of the feature engine and the answer of the machine-learning validator are inputs (\<open>None\<close> is a
  feature computation that raises); the option contract and the text of the candidate are left out.
\<close>

subsection \<open>State, input and result\<close>

record vortex_strategy =
  vs_min_candles :: int
  vs_max_staleness :: int
  vs_weights :: scoring_weights
  vs_cooldown :: cooldown_manager
  vs_dedup :: deduplicator
  vs_daily :: daily_gate
  vs_fsm :: vortex_fsm

definition vortex_strategy_init :: "int \<Rightarrow> vortex_strategy" where
  "vortex_strategy_init n = \<lparr>vs_min_candles = n, vs_max_staleness = 15000, vs_weights = default_weights, vs_cooldown = cooldown_init,
     vs_dedup = dedup_init, vs_daily = daily_gate_init None, vs_fsm = default_fsm\<rparr>"

definition vortex_strategy_reset :: "vortex_strategy \<Rightarrow> vortex_strategy" where
  "vortex_strategy_reset v = v\<lparr>vs_cooldown := cooldown_reset None (vs_cooldown v), vs_dedup := dedup_reset (vs_dedup v),
     vs_daily := daily_gate_reset (vs_daily v), vs_fsm := default_fsm\<rparr>"

record detect_input =
  di_underlying :: string
  di_timestamp :: int
  di_spot :: rat
  di_candles :: "candle list"
  di_snapshot :: "vortex_snapshot option"
  di_prior_snapshot :: "vortex_snapshot option"
  di_ml_accepted :: bool
  di_ml_probability :: rat
  di_ml_boost :: rat

record vortex_signal =
  vg_event :: classified_event
  vg_confirmation :: confirmation
  vg_targets :: exit_targets
  vg_confidence :: rat
  vg_direction :: string
  vg_option_type :: string

text \<open>The field constraints of a candle; building one that breaks them raises.\<close>

definition candle_fields_ok :: "candle \<Rightarrow> bool" where
  "candle_fields_ok c \<longleftrightarrow> 0 < cd_open c \<and> 0 < cd_high c \<and> 0 < cd_low c \<and> 0 < cd_close c \<and> 0 \<le> cd_volume c"

definition input_ok :: "detect_input \<Rightarrow> vortex_strategy \<Rightarrow> bool" where
  "input_ok i v \<longleftrightarrow> di_candles i \<noteq> [] \<and> vs_min_candles v \<le> int (length (di_candles i)) \<and> 0 < di_spot i
     \<and> list_all candle_fields_ok (di_candles i)
     \<and> qr_valid (validate_candles (vs_max_staleness v) (di_candles i) (di_timestamp i))"

definition step_fsm :: "vortex_snapshot \<Rightarrow> detect_input \<Rightarrow> vortex_strategy \<Rightarrow> vortex_strategy" where
  "step_fsm s i v = v\<lparr>vs_fsm := fst (vortex_step s (di_candles i) (vs_fsm v))\<rparr>"

definition risk_clear :: "vortex_snapshot \<Rightarrow> detect_input \<Rightarrow> vortex_strategy \<Rightarrow> bool" where
  "risk_clear s i v \<longleftrightarrow> can_open_position (vs_daily v) = None
     \<and> \<not> is_no_trade s (no_trade_defaults\<lparr>ni_cooldown := is_in_cooldown (di_underlying i) (di_timestamp i) (vs_cooldown v),
           ni_daily_breached := can_open_position (vs_daily v) \<noteq> None\<rparr>)"

text \<open>The event of this bar, or of the previous one.\<close>

definition current_event :: "vortex_snapshot \<Rightarrow> detect_input \<Rightarrow> classified_event option result" where
  "current_event s i = (case classify s (di_candles i) of
     Some e \<Rightarrow> Inr (Some e)
   | None \<Rightarrow> if length (di_candles i) < 2 then Inr None
       else (case di_prior_snapshot i of
           None \<Rightarrow> Inl ValueError
         | Some p \<Rightarrow> Inr (classify p (butlast (di_candles i)))))"

definition trigger_bar :: "detect_input \<Rightarrow> candle" where
  "trigger_bar i = (if 2 \<le> length (di_candles i) then last (butlast (di_candles i)) else last (di_candles i))"

text \<open>\<open>ctx.spot_price\<close> is a decimal; \<open>float\<close> rounds it.\<close>

definition spot_float :: "detect_input \<Rightarrow> rat" where
  "spot_float i = frnd (di_spot i)"

definition final_confidence :: "vortex_snapshot \<Rightarrow> classified_event \<Rightarrow> confirmation \<Rightarrow> detect_input \<Rightarrow> vortex_strategy \<Rightarrow> rat" where
  "final_confidence s e c i v = min (round_places 1 (frnd (frnd (
      compute_score (vs_weights v) s (Some (ce_level e)) (Some (di_ml_probability i))
      + frnd (cn_boost c + di_ml_boost i)) * 100))) 95"

definition emit_signal :: "vortex_snapshot \<Rightarrow> classified_event \<Rightarrow> detect_input \<Rightarrow> vortex_strategy \<Rightarrow> vortex_signal option" where
  "emit_signal s e i v = (let c = confirm_event e (trigger_bar i) (last (di_candles i)) s in
     if \<not> cn_confirmed c then None
     else if \<not> di_ml_accepted i then None
     else Some \<lparr>vg_event = e, vg_confirmation = c,
       vg_targets = trade_envelope (ce_direction e) (spot_float i) s (Some (ce_level e)) None None,
       vg_confidence = final_confidence s e c i v,
       vg_direction = (if 0 < ce_direction e then ''LONG_CALL'' else ''LONG_PUT''),
       vg_option_type = (if 0 < ce_direction e then ''CE'' else ''PE'')\<rparr>)"

definition detect_event :: "vortex_snapshot \<Rightarrow> detect_input \<Rightarrow> vortex_strategy \<Rightarrow> vortex_strategy \<times> vortex_signal option result" where
  "detect_event s i v = (if \<not> risk_clear s i v then (v, Inr None)
     else (case current_event s i of
         Inl x \<Rightarrow> (v, Inl x)
       | Inr None \<Rightarrow> (v, Inr None)
       | Inr (Some e) \<Rightarrow>
           (let r = is_duplicate (di_underlying i) (lv_price (ce_level e)) (ce_direction e) (di_timestamp i) (vs_dedup v);
                v' = v\<lparr>vs_dedup := fst r\<rparr> in
            (v', Inr (if snd r then None else emit_signal s e i v')))))"

definition vortex_detect :: "detect_input \<Rightarrow> vortex_strategy \<Rightarrow> vortex_strategy \<times> vortex_signal option result" where
  "vortex_detect i v = (if \<not> input_ok i v then (v, Inr None)
     else (case di_snapshot i of None \<Rightarrow> (v, Inr None) | Some s \<Rightarrow> detect_event s i (step_fsm s i v)))"

subsection \<open>A signal passed every gate\<close>

lemma risk_clear_step: "risk_clear s i (step_fsm s' i' v) = risk_clear s i v"
  unfolding risk_clear_def step_fsm_def by simp

definition event_source :: "vortex_snapshot \<Rightarrow> detect_input \<Rightarrow> classified_event \<Rightarrow> bool" where
  "event_source s i e \<longleftrightarrow> classify s (di_candles i) = Some e
     \<or> (\<exists>p. di_prior_snapshot i = Some p \<and> classify p (butlast (di_candles i)) = Some e)"

lemma current_event_source: "current_event s i = Inr (Some e) \<Longrightarrow> event_source s i e"
  by (auto simp: current_event_def event_source_def split: option.splits if_splits)

lemma emit_signal_Some:
  "emit_signal s e i v = Some g \<longleftrightarrow> cn_confirmed (confirm_event e (trigger_bar i) (last (di_candles i)) s) \<and> di_ml_accepted i
     \<and> g = \<lparr>vg_event = e, vg_confirmation = confirm_event e (trigger_bar i) (last (di_candles i)) s,
       vg_targets = trade_envelope (ce_direction e) (spot_float i) s (Some (ce_level e)) None None,
       vg_confidence = final_confidence s e (confirm_event e (trigger_bar i) (last (di_candles i)) s) i v,
       vg_direction = (if 0 < ce_direction e then ''LONG_CALL'' else ''LONG_PUT''),
       vg_option_type = (if 0 < ce_direction e then ''CE'' else ''PE'')\<rparr>"
  by (auto simp: emit_signal_def Let_def)

lemma detect_signal:
  assumes "snd (vortex_detect i v) = Inr (Some g)"
  obtains s e where "di_snapshot i = Some s" "input_ok i v" "risk_clear s i v" "current_event s i = Inr (Some e)"
    "emit_signal s e i (fst (vortex_detect i v)) = Some g"
    "\<not> snd (is_duplicate (di_underlying i) (lv_price (ce_level e)) (ce_direction e) (di_timestamp i) (vs_dedup v))"
  using assms that
  by (auto simp: vortex_detect_def detect_event_def Let_def step_fsm_def risk_clear_def split: if_splits option.splits sum.splits)

text \<open>C25. A signal has passed every gate: the candles are well formed, consistent and fresh, the session allows trading, the
  regime is not chaotic, neither the daily limits nor a cooldown hold, its event comes from the classifier on this
  or the previous bar, is new, confirmed and accepted by the validator, the confidence is at most 95,
  and stop and targets lie on their sides of the entry.\<close>

theorem signal_passed_every_gate:
  assumes "snd (vortex_detect i v) = Inr (Some g)" "\<And>s. di_snapshot i = Some s \<Longrightarrow> 0 \<le> vx_energy s"
  shows "\<exists>s. di_snapshot i = Some s
    \<and> (let c = last (di_candles i) in 0 < cd_low c \<and> cd_low c \<le> min (cd_open c) (cd_close c) \<and> max (cd_open c) (cd_close c) \<le> cd_high c
         \<and> \<bar>di_timestamp i - cd_timestamp c\<bar> \<le> vs_max_staleness v)
    \<and> ss_allowed (vx_session s) \<and> vx_regime s \<noteq> CHAOTIC
    \<and> can_open_position (vs_daily v) = None \<and> \<not> is_in_cooldown (di_underlying i) (di_timestamp i) (vs_cooldown v)
    \<and> event_source s i (vg_event g) \<and> cn_confirmed (vg_confirmation g) \<and> di_ml_accepted i \<and> vg_confidence g \<le> 95
    \<and> (let e = vg_targets g in if 0 < ce_direction (vg_event g) then et_stop e \<le> et_entry e \<and> et_entry e \<le> et_target_1 e \<and> et_target_1 e \<le> et_target_2 e
         else et_entry e \<le> et_stop e \<and> et_target_1 e \<le> et_entry e \<and> et_target_2 e \<le> et_target_1 e)"
proof -
  from assms(1) obtain s e where d: "di_snapshot i = Some s" "input_ok i v" "risk_clear s i v" "current_event s i = Inr (Some e)"
    "emit_signal s e i (fst (vortex_detect i v)) = Some g" by (rule detect_signal)
  note g = d(5) [unfolded emit_signal_Some]
  have f: "frnd (spot_float i) = spot_float i" by (simp add: spot_float_def flt.rnd_idem)
  have q: "let c = last (di_candles i) in 0 < cd_low c \<and> cd_low c \<le> min (cd_open c) (cd_close c) \<and> max (cd_open c) (cd_close c) \<le> cd_high c
         \<and> \<bar>di_timestamp i - cd_timestamp c\<bar> \<le> vs_max_staleness v"
    using d(2) by (auto simp: input_ok_def validate_candles_def bad_quality_def Let_def split: if_splits)
  show ?thesis
    using d(1,3) q g current_event_source [OF d(4)] envelope_sides [OF assms(2) [OF d(1)] f, of "ce_direction e" "Some (ce_level e)"]
    by (auto simp: risk_clear_def no_trade_clear no_trade_defaults_def final_confidence_def Let_def)
qed

definition demo_input :: "detect_input" where
  "demo_input = \<lparr>di_underlying = ''NIFTY'', di_timestamp = 0, di_spot = 99, di_candles = demo_bars,
     di_snapshot = Some (demo_snapshot ZONE_ARMED), di_prior_snapshot = None, di_ml_accepted = True, di_ml_probability = 1 / 2,
     di_ml_boost = 0\<rparr>"

lemma demo_signal:
  "\<exists>g. snd (vortex_detect demo_input (vortex_strategy_init 3)) = Inr (Some g)"
proof -
  have ok: "input_ok demo_input (vortex_strategy_init 3)"
    by (simp add: input_ok_def demo_input_def vortex_strategy_init_def demo_bars_def demo_candle_def candle_fields_ok_def
        validate_candles_def Let_def)
  have e: "current_event (demo_snapshot ZONE_ARMED) demo_input = Inr (Some (short_trap_event (demo_snapshot ZONE_ARMED) demo_level))"
    by (simp add: current_event_def demo_input_def demo_classified)
  have r: "risk_clear (demo_snapshot ZONE_ARMED) demo_input (step_fsm (demo_snapshot ZONE_ARMED) demo_input (vortex_strategy_init 3))"
    by (simp add: risk_clear_def step_fsm_def vortex_strategy_init_def demo_input_def no_trade_clear demo_snapshot_def demo_session_def
        no_trade_defaults_def can_open_position_def daily_gate_init_def default_daily_limits_def is_in_cooldown_def cooldown_init_def)
  have c: "cn_confirmed (confirm_event (short_trap_event (demo_snapshot ZONE_ARMED) demo_level) (trigger_bar demo_input)
      (last (di_candles demo_input)) (demo_snapshot ZONE_ARMED))"
    by (simp add: confirm_event_def confirm_trap_def short_trap_event_def demo_level_def trigger_bar_def demo_input_def demo_bars_def
        demo_candle_def trap_confirmed_def confirmed_by_def)
  have n: "\<not> snd (is_duplicate a p d ts (vs_dedup (step_fsm (demo_snapshot ZONE_ARMED) demo_input (vortex_strategy_init 3))))" for a p d ts
    by (simp add: is_duplicate_def Let_def live_events_def step_fsm_def vortex_strategy_init_def dedup_init_def)
  show ?thesis
    using ok e r c n by (simp add: vortex_detect_def detect_event_def Let_def emit_signal_Some demo_input_def)
qed

lemma signal_passed_every_gate_witness:
  "\<exists>g. snd (vortex_detect demo_input (vortex_strategy_init 3)) = Inr (Some g) \<and> vg_confidence g \<le> 95"
proof -
  obtain g where g: "snd (vortex_detect demo_input (vortex_strategy_init 3)) = Inr (Some g)" using demo_signal by blast
  have "0 \<le> vx_energy s" if "di_snapshot demo_input = Some s" for s using that by (auto simp: demo_input_def demo_snapshot_def)
  from signal_passed_every_gate [OF g this] have "vg_confidence g \<le> 95" by blast
  then show ?thesis using g by blast
qed

subsection \<open>An unconfirmed event is spent\<close>

text \<open>An event has one chance: the first call that classifies it registers it with the deduplicator before it is
  confirmed, so while the window lasts no later call signals the same level and direction, even if the
  first one was not confirmed and the later bar would confirm it.\<close>

theorem unconfirmed_event_spent:
  assumes "input_ok i v" "di_snapshot i = Some s" "risk_clear s i v" "current_event s i = Inr (Some e)"
    and "distinct (map fst (dd_events (vs_dedup v)))"
    and "\<not> snd (is_duplicate (di_underlying i) (lv_price (ce_level e)) (ce_direction e) (di_timestamp i) (vs_dedup v))"
    and "di_snapshot j = Some s'" "current_event s' j = Inr (Some e')"
    and "event_key (di_underlying j) (lv_price (ce_level e')) (ce_direction e') = event_key (di_underlying i) (lv_price (ce_level e)) (ce_direction e)"
    and "di_timestamp j - di_timestamp i \<le> dd_ttl (vs_dedup v)"
  shows "\<not> (\<exists>g. snd (vortex_detect j (fst (vortex_detect i v))) = Inr (Some g))"
proof
  let ?d = "fst (is_duplicate (di_underlying i) (lv_price (ce_level e)) (ce_direction e) (di_timestamp i) (vs_dedup v))"
  have r: "risk_clear s i (step_fsm s i v)" using assms(3) by (simp add: risk_clear_step)
  have v: "vs_dedup (fst (vortex_detect i v)) = ?d"
    using assms(1,2,4) r by (simp add: vortex_detect_def detect_event_def Let_def step_fsm_def)
  have k: "map_of (dd_events ?d) (event_key (di_underlying i) (lv_price (ce_level e)) (ce_direction e)) = Some (di_timestamp i)"
    using assms(6) by (auto simp: is_duplicate_def Let_def dict_simps)
  have dup: "snd (is_duplicate (di_underlying j) (lv_price (ce_level e')) (ce_direction e') (di_timestamp j) ?d)"
    using duplicate_within [OF duplicate_distinct [OF assms(5)] k] assms(9,10) by (simp add: duplicate_ttl)
  assume "\<exists>g. snd (vortex_detect j (fst (vortex_detect i v))) = Inr (Some g)"
  then obtain g where "snd (vortex_detect j (fst (vortex_detect i v))) = Inr (Some g)" ..
  from detect_signal [OF this] show False using assms(7,8) dup v by (metis option.inject sum.inject(2))
qed

lemma unconfirmed_event_spent_witness:
  "\<not> (\<exists>g. snd (vortex_detect demo_input (fst (vortex_detect demo_input (vortex_strategy_init 3)))) = Inr (Some g))"
proof -
  obtain g where "snd (vortex_detect demo_input (vortex_strategy_init 3)) = Inr (Some g)" using demo_signal by blast
  then obtain s e where d: "di_snapshot demo_input = Some s" "input_ok demo_input (vortex_strategy_init 3)"
    "risk_clear s demo_input (vortex_strategy_init 3)" "current_event s demo_input = Inr (Some e)"
    "\<not> snd (is_duplicate (di_underlying demo_input) (lv_price (ce_level e)) (ce_direction e) (di_timestamp demo_input)
        (vs_dedup (vortex_strategy_init 3)))"
    by (rule detect_signal)
  show ?thesis
    by (rule unconfirmed_event_spent [OF d(2,1,3,4) _ d(5) d(1,4)]) (simp_all add: vortex_strategy_init_def dedup_init_def)
qed

text \<open>No call of \<open>detect\<close> ever feeds the daily gate or the cooldown: both stay as built and never refuse.\<close>

lemma detect_keeps_gates:
  "vs_daily (fst (vortex_detect i v)) = vs_daily v \<and> vs_cooldown (fst (vortex_detect i v)) = vs_cooldown v"
  by (simp add: vortex_detect_def detect_event_def step_fsm_def Let_def split: option.split sum.split)

lemma risk_gates_inert:
  "let v = foldl (\<lambda>v i. fst (vortex_detect i v)) (vortex_strategy_init n) is in
     can_open_position (vs_daily v) = None \<and> (\<forall>inst. \<forall>ts \<ge> 0. \<not> is_in_cooldown inst ts (vs_cooldown v))"
proof -
  have "let v = foldl (\<lambda>v i. fst (vortex_detect i v)) (vortex_strategy_init n) is in
     vs_daily v = daily_gate_init None \<and> vs_cooldown v = cooldown_init"
    by (induction "is" rule: rev_induct) (simp_all add: detect_keeps_gates vortex_strategy_init_def Let_def)
  then show ?thesis
    by (simp add: Let_def can_open_position_def daily_gate_init_def default_daily_limits_def is_in_cooldown_def cooldown_init_def)
qed

end
