(* ===== verification/Droid_Health.thy ===== *)
theory Droid_Health
  imports Droid_Decimal
begin

text \<open>
  Observability and the entry gate of the algo package: the clock authority (\<open>backend/app/algo/clock.py\<close>), the data
  health monitor (\<open>algo/data_health.py\<close>), the live entry gate and the critical states (\<open>algo/account.py\<close>), the
  audit trail and the alert deduplicator (\<open>algo/audit.py\<close>) and the broker limits (\<open>algo/broker_capabilities.py\<close>).
  A time is a number of microseconds; the clock reading of a call is an argument. Logging is left out.
\<close>

subsection \<open>The clock authority\<close>

record clock_metrics =
  ck_exchange_gateway :: "rat option"
  ck_gateway_server :: "rat option"
  ck_drift :: "rat option"
  ck_last_exchange :: "int option"
  ck_last_gateway :: "int option"
  ck_last_server :: "int option"

definition clock_init :: clock_metrics where
  "clock_init = \<lparr>ck_exchange_gateway = None, ck_gateway_server = None, ck_drift = None, ck_last_exchange = None,
     ck_last_gateway = None, ck_last_server = None\<rparr>"

definition delay_ms :: "int \<Rightarrow> int \<Rightarrow> rat" where
  "delay_ms late early = frnd (total_seconds (late - early) * 1000)"

text \<open>The gateway time falls back to the server's, the server's to the clock reading, so both are always present.\<close>

definition clock_ingest :: "int \<Rightarrow> int option \<Rightarrow> int option \<Rightarrow> int option \<Rightarrow> clock_metrics \<Rightarrow> clock_metrics \<times> int" where
  "clock_ingest now ex gw sv m = (let server = or_else sv now; gateway = or_else gw server in
     (m\<lparr>ck_exchange_gateway := (case ex of Some e \<Rightarrow> Some (delay_ms gateway e) | None \<Rightarrow> ck_exchange_gateway m),
        ck_gateway_server := Some (delay_ms server gateway),
        ck_drift := (case ex of Some e \<Rightarrow> Some \<bar>delay_ms server e\<bar> | None \<Rightarrow> ck_drift m),
        ck_last_exchange := ex, ck_last_gateway := Some gateway, ck_last_server := Some server\<rparr>,
      or_else ex gateway))"

datatype data_health = HEALTHY | DEGRADED | STALE

definition clock_health :: "clock_metrics \<Rightarrow> data_health" where
  "clock_health m = (case ck_drift m of None \<Rightarrow> HEALTHY
     | Some d \<Rightarrow> if 2000 \<le> d then STALE else if 500 \<le> d then DEGRADED else HEALTHY)"

subsection \<open>Data health\<close>

datatype data_source = PRIMARY | FALLBACK | STALE_SOURCE

datatype health_reason = NO_REASON | CLOCK_DRIFT_CRITICAL | CLOCK_DRIFT_DEGRADED | DISCONNECTED
  | DATA_STALE rat | DATA_DEGRADED rat | FALLBACK_SOURCE

record health_monitor =
  hm_tick :: "int option"
  hm_heartbeat :: "int option"
  hm_source :: data_source
  hm_connected :: bool
  hm_clock :: data_health
  hm_fallback :: bool

definition monitor_init :: health_monitor where
  "monitor_init = \<lparr>hm_tick = None, hm_heartbeat = None, hm_source = PRIMARY, hm_connected = True, hm_clock = HEALTHY,
     hm_fallback = False\<rparr>"

definition monitor_tick :: "int \<Rightarrow> int \<Rightarrow> data_source \<Rightarrow> health_monitor \<Rightarrow> health_monitor" where
  "monitor_tick now t src m = m\<lparr>hm_tick := Some t, hm_source := src, hm_heartbeat := Some now\<rparr>"

definition monitor_heartbeat :: "int \<Rightarrow> health_monitor \<Rightarrow> health_monitor" where
  "monitor_heartbeat now m = m\<lparr>hm_heartbeat := Some now\<rparr>"

definition set_connection :: "bool \<Rightarrow> data_source option \<Rightarrow> health_monitor \<Rightarrow> health_monitor" where
  "set_connection up src m = (let n = m\<lparr>hm_connected := up\<rparr> in
     case src of None \<Rightarrow> n | Some s \<Rightarrow> n\<lparr>hm_source := s, hm_fallback := (s = FALLBACK)\<rparr>)"

definition set_clock_health :: "data_health \<Rightarrow> health_monitor \<Rightarrow> health_monitor" where
  "set_clock_health h m = m\<lparr>hm_clock := h\<rparr>"

definition set_fallback :: "bool \<Rightarrow> health_monitor \<Rightarrow> health_monitor" where
  "set_fallback a m = m\<lparr>hm_fallback := a, hm_source := (if a then FALLBACK else PRIMARY)\<rparr>"

record health_snapshot =
  hs_state :: data_health
  hs_source :: data_source
  hs_tick :: "int option"
  hs_age :: "rat option"
  hs_stale :: bool
  hs_reason :: health_reason

type_synonym assessment = "data_health \<times> health_reason \<times> bool"

definition assess_clock :: "health_monitor \<Rightarrow> assessment" where
  "assess_clock m = (case hm_clock m of STALE \<Rightarrow> (STALE, CLOCK_DRIFT_CRITICAL, True)
     | DEGRADED \<Rightarrow> (DEGRADED, CLOCK_DRIFT_DEGRADED, False) | HEALTHY \<Rightarrow> (HEALTHY, NO_REASON, False))"

definition assess_connection :: "health_monitor \<Rightarrow> assessment \<Rightarrow> assessment" where
  "assess_connection m a = (if hm_connected m then a else (STALE, DISCONNECTED, True))"

definition assess_age :: "rat option \<Rightarrow> assessment \<Rightarrow> assessment" where
  "assess_age age a = (case age of None \<Rightarrow> a
     | Some x \<Rightarrow> if 5 < x then (STALE, DATA_STALE x, True)
         else if 2 < x \<and> fst a = HEALTHY then (DEGRADED, DATA_DEGRADED x, snd (snd a)) else a)"

definition assess_fallback :: "health_monitor \<Rightarrow> assessment \<Rightarrow> assessment" where
  "assess_fallback m a = (if hm_fallback m \<and> fst a = HEALTHY then (DEGRADED, FALLBACK_SOURCE, snd (snd a)) else a)"

definition health_at :: "int \<Rightarrow> health_monitor \<Rightarrow> health_snapshot" where
  "health_at now m = (let age = map_option (\<lambda>t. total_seconds (now - t)) (hm_tick m);
       (st, why, stale) = assess_fallback m (assess_age age (assess_connection m (assess_clock m))) in
     \<lparr>hs_state = st, hs_source = (if stale then STALE_SOURCE else hm_source m), hs_tick = hm_tick m, hs_age = age,
       hs_stale = stale, hs_reason = why\<rparr>)"

definition data_is_healthy :: "int \<Rightarrow> health_monitor \<Rightarrow> bool" where
  "data_is_healthy now m \<longleftrightarrow> hs_state (health_at now m) = HEALTHY"

definition blocks_new_entries :: "int \<Rightarrow> health_monitor \<Rightarrow> bool" where
  "blocks_new_entries now m \<longleftrightarrow> hs_state (health_at now m) = STALE"

subsection \<open>The live entry gate\<close>

text \<open>What a check may hold: nothing, a boolean, a text, or any other value (given by its truth).\<close>

datatype check_value = NoCheck | Flag bool | Word string | Other bool

definition required_checks :: "(string \<times> string) list" where
  "required_checks = [
    (''data_healthy'', ''DATA_UNHEALTHY''), (''clock_healthy'', ''CLOCK_DRIFT''), (''broker_healthy'', ''BROKER_UNHEALTHY''),
    (''reconciliation_healthy'', ''RECONCILIATION_BLOCKED''), (''instrument_valid'', ''INSTRUMENT_INVALID''),
    (''instrument_tradable'', ''INSTRUMENT_NOT_TRADABLE''), (''no_circuit'', ''CIRCUIT_ACTIVE''),
    (''signal_valid'', ''SIGNAL_INVALID''), (''technical_valid'', ''TECHNICAL_INVALID''), (''fno_valid'', ''FNO_INVALID''),
    (''ai_valid'', ''AI_INVALID''), (''position_sizing_valid'', ''POSITION_SIZING_INVALID''),
    (''algo_capital_available'', ''INSUFFICIENT_CAPITAL''), (''trade_risk_pass'', ''TRADE_RISK_REJECTED''),
    (''portfolio_risk_pass'', ''PORTFOLIO_RISK_REJECTED''), (''margin_available'', ''INSUFFICIENT_MARGIN''),
    (''liquidity_ok'', ''ILLIQUID''), (''spread_ok'', ''SPREAD_TOO_WIDE''), (''slippage_ok'', ''SLIPPAGE_EXCEEDED''),
    (''no_duplicate_signal'', ''DUPLICATE_SIGNAL''), (''no_duplicate_order'', ''DUPLICATE_ORDER''),
    (''conflict_resolved'', ''STRATEGY_CONFLICT_UNRESOLVED''), (''execution_safety_pass'', ''EXECUTION_SAFETY_FAILED'')]"

definition mandatory_checks :: "string list" where
  "mandatory_checks = [''data_healthy'', ''clock_healthy'', ''broker_healthy'', ''reconciliation_healthy'', ''trade_risk_pass'',
     ''portfolio_risk_pass'', ''execution_safety_pass'']"

definition check_of :: "(string, check_value) dict \<Rightarrow> string \<Rightarrow> check_value" where
  "check_of cs k = or_else (map_of cs k) NoCheck"

definition check_fails :: "check_value \<Rightarrow> bool" where
  "check_fails v \<longleftrightarrow> v \<in> {Flag False, Word ''FAIL'', Word ''REJECTED''}"

definition check_truthy :: "check_value \<Rightarrow> bool" where
  "check_truthy v = (case v of NoCheck \<Rightarrow> False | Flag b \<Rightarrow> b | Word s \<Rightarrow> s \<noteq> [] | Other b \<Rightarrow> b)"

fun first_block :: "(string, check_value) dict \<Rightarrow> (string \<times> string) list \<Rightarrow> string option" where
  "first_block cs [] = None"
| "first_block cs ((k, why) # ks) = (
     if check_of cs k = NoCheck then (if k \<in> set mandatory_checks then Some (''MISSING_CHECK_'' @ k) else first_block cs ks)
     else if check_fails (check_of cs k) then Some why
     else first_block cs ks)"

definition live_entry_gate :: "(string, check_value) dict \<Rightarrow> bool \<times> string option" where
  "live_entry_gate cs = (case first_block cs required_checks of
     Some why \<Rightarrow> (False, Some why)
   | None \<Rightarrow> if check_of cs ''data_health_state'' = Word ''STALE'' then (False, Some ''DATA_HEALTH_STALE'')
       else if check_truthy (check_of cs ''is_orphaned_alert'') then (False, Some ''ORPHANED_ALERT_ACTIVE'')
       else (True, None))"

definition CRITICAL_STATES :: "string list" where
  "CRITICAL_STATES = [''ORPHANED_ALERT'', ''CRITICAL_RECONCILIATION_FAILURE'', ''CRITICAL_DATA_FAILURE'', ''CRITICAL_BROKER_FAILURE'']"

record critical_snapshot =
  cs_critical :: bool
  cs_entries_blocked :: bool
  cs_canary_zero :: bool
  cs_triggers_blocked :: bool
  cs_always_active :: "string list"

definition critical_state_snapshot :: "string \<Rightarrow> bool \<Rightarrow> critical_snapshot" where
  "critical_state_snapshot st orphaned = (let c = (st \<in> set CRITICAL_STATES \<or> orphaned) in
     \<lparr>cs_critical = c, cs_entries_blocked = c, cs_canary_zero = c, cs_triggers_blocked = c,
       cs_always_active = [''portfolio_risk_active'', ''position_monitoring_active'', ''emergency_exit_active'',
         ''reconciliation_active'', ''alerting_active'']\<rparr>)"

definition should_restore :: "check_value \<Rightarrow> bool" where
  "should_restore done \<longleftrightarrow> done = Flag True"

subsection \<open>The audit trail\<close>

text \<open>The fields the trail reads back; identifiers are their texts.\<close>

record audit_record =
  ar_account :: string
  ar_time :: int
  ar_event :: string
  ar_signal :: "string option"
  ar_trade_risk :: "string option"
  ar_portfolio_risk :: "string option"
  ar_risk_checks :: "(string, string) dict"
  ar_exit_trigger :: "string option"
  ar_portfolio :: "(string, string) dict"
  ar_model :: "string option"
  ar_model_version :: "string option"

record audit_trail =
  at_buffer :: "audit_record list"
  at_max :: nat

definition audit_init :: "nat \<Rightarrow> audit_trail" where
  "audit_init n = \<lparr>at_buffer = [], at_max = n\<rparr>"

text \<open>\<open>buffer[-0:]\<close> is the whole buffer.\<close>

definition audit_append :: "audit_record \<Rightarrow> audit_trail \<Rightarrow> audit_trail" where
  "audit_append r a = (let b = at_buffer a @ [r] in
     a\<lparr>at_buffer := (if at_max a < length b \<and> at_max a \<noteq> 0 then last_n (at_max a) b else b)\<rparr>)"

text \<open>\<open>xs[:n]\<close>; a negative bound counts from the end.\<close>

definition py_prefix :: "int \<Rightarrow> 'a list \<Rightarrow> 'a list" where
  "py_prefix n xs = (if 0 \<le> n then take (nat n) xs else take (length xs - nat (- n)) xs)"

text \<open>\<open>sort(reverse=True)\<close> keeps the order of equal keys.\<close>

definition audit_query :: "string \<Rightarrow> int \<Rightarrow> string option \<Rightarrow> audit_trail \<Rightarrow> audit_record list" where
  "audit_query acc limit ev a = py_prefix limit (sort_key (\<lambda>r. - ar_time r)
     (filter (\<lambda>r. ar_account r = acc \<and> (or_else ev [] \<noteq> [] \<longrightarrow> ar_event r = or_else ev [])) (at_buffer a)))"

definition signal_text :: "string option \<Rightarrow> string" where
  "signal_text s = or_else s ''None''"

record trade_explanation =
  te_events :: "audit_record list"
  te_entered :: bool
  te_rejected :: "(string, string) dict option"
  te_exit :: "string option"
  te_exposure :: "(string, string) dict option"
  te_model :: "(string \<times> string option) option"

definition str_set :: "string option \<Rightarrow> bool" where
  "str_set s \<longleftrightarrow> or_else s [] \<noteq> []"

definition risk_rejected :: "audit_record \<Rightarrow> bool" where
  "risk_rejected r \<longleftrightarrow> ar_trade_risk r = Some ''REJECTED'' \<or> ar_portfolio_risk r = Some ''REJECTED''"

definition risk_approved :: "audit_record \<Rightarrow> bool" where
  "risk_approved r \<longleftrightarrow> ar_trade_risk r = Some ''APPROVED'' \<and> ar_portfolio_risk r = Some ''APPROVED''"

definition explain_trade :: "string option \<Rightarrow> audit_trail \<Rightarrow> trade_explanation" where
  "explain_trade sid a = (let rel = sort_key ar_time (filter (\<lambda>r. signal_text (ar_signal r) = signal_text sid) (at_buffer a)) in
     \<lparr>te_events = rel, te_entered = list_ex risk_approved rel,
       te_rejected = map_option ar_risk_checks (find risk_rejected rel),
       te_exit = (case find (\<lambda>r. str_set (ar_exit_trigger r)) rel of None \<Rightarrow> None | Some r \<Rightarrow> ar_exit_trigger r),
       te_exposure = map_option ar_portfolio (find (\<lambda>r. ar_portfolio r \<noteq> []) rel),
       te_model = map_option (\<lambda>r. (or_else (ar_model r) [], ar_model_version r)) (find (\<lambda>r. str_set (ar_model r)) rel)\<rparr>)"

subsection \<open>Alerts\<close>

datatype incident = ACTIVE | RECOVERED

datatype alert_verdict = RECOVERY_ALERT | ALERT | CRITICAL_ESCALATION | SUPPRESSED_CRITICAL | UPDATE | SUPPRESSED

record alert_deduper =
  ad_sent :: "(string, int) dict"
  ad_incident :: "(string, incident) dict"
  ad_cooldown :: int
  ad_critical :: int

definition deduper_init :: "int \<Rightarrow> int \<Rightarrow> alert_deduper" where
  "deduper_init d c = \<lparr>ad_sent = [], ad_incident = [], ad_cooldown = d, ad_critical = c\<rparr>"

text \<open>The text that is hashed into the fingerprint; \<open>hash\<close> is SHA-256 cut to twelve digits.\<close>

definition alert_fingerprint :: "(string \<Rightarrow> string) \<Rightarrow> string \<Rightarrow> string option \<Rightarrow> string option \<Rightarrow> string" where
  "alert_fingerprint hash title metric acc =
     hash (signal_text acc @ '':'' @ signal_text metric @ '':'' @ title)"

definition note_sent :: "string \<Rightarrow> int \<Rightarrow> alert_deduper \<Rightarrow> alert_deduper" where
  "note_sent fp now d = d\<lparr>ad_sent := AList.update fp now (ad_sent d)\<rparr>"

definition note_incident :: "string \<Rightarrow> incident \<Rightarrow> alert_deduper \<Rightarrow> alert_deduper" where
  "note_incident fp i d = d\<lparr>ad_incident := AList.update fp i (ad_incident d)\<rparr>"

definition alert_cooldown :: "string \<Rightarrow> alert_deduper \<Rightarrow> int" where
  "alert_cooldown sev d = (if sev = ''CRITICAL'' then ad_critical d else ad_cooldown d)"

definition should_send :: "int \<Rightarrow> string \<Rightarrow> string \<Rightarrow> bool \<Rightarrow> alert_deduper \<Rightarrow> alert_deduper \<times> bool \<times> alert_verdict" where
  "should_send now fp sev recovery d = (
     if recovery then (note_sent fp now (note_incident fp RECOVERED d), True, RECOVERY_ALERT)
     else (case map_of (ad_sent d) fp of
         None \<Rightarrow> (note_sent fp now (note_incident fp ACTIVE d), True, ALERT)
       | Some prev \<Rightarrow>
           if map_of (ad_incident d) fp = Some RECOVERED then (note_sent fp now (note_incident fp ACTIVE d), True, ALERT)
           else if of_int (alert_cooldown sev d) \<le> total_seconds (now - prev)
             then (note_sent fp now d, True, if sev = ''CRITICAL'' then CRITICAL_ESCALATION else UPDATE)
           else (d, False, if sev = ''CRITICAL'' then SUPPRESSED_CRITICAL else SUPPRESSED)))"

definition mark_recovery :: "string \<Rightarrow> alert_deduper \<Rightarrow> alert_deduper" where
  "mark_recovery fp d = note_incident fp RECOVERED d"

subsection \<open>Broker limits\<close>

record broker_capabilities =
  bc_name :: string
  bc_environment :: string
  bc_version :: string
  bc_orders_per_second :: int
  bc_requests_per_second :: int
  bc_requests_per_minute :: int
  bc_requests_per_day :: int
  bc_symbol_limit :: int
  bc_connection_limit :: int
  bc_order_types :: "string list"
  bc_static_ip :: bool
  bc_totp :: bool
  bc_token_hours :: rat
  bc_start :: string
  bc_end :: string
  bc_safe_ratio :: rat

definition internal_rate :: "rat \<Rightarrow> int \<Rightarrow> broker_capabilities \<Rightarrow> rat" where
  "internal_rate least n b = max least (frnd (of_int n * bc_safe_ratio b))"

definition internal_orders_per_second :: "broker_capabilities \<Rightarrow> rat" where
  "internal_orders_per_second b = internal_rate 1 (bc_orders_per_second b) b"

definition internal_requests_per_second :: "broker_capabilities \<Rightarrow> rat" where
  "internal_requests_per_second b = internal_rate 1 (bc_requests_per_second b) b"

definition internal_requests_per_minute :: "broker_capabilities \<Rightarrow> rat" where
  "internal_requests_per_minute b = internal_rate 10 (bc_requests_per_minute b) b"

definition fyers_capabilities :: broker_capabilities where
  "fyers_capabilities = \<lparr>bc_name = ''fyers'', bc_environment = ''production'', bc_version = ''v3'', bc_orders_per_second = 10,
     bc_requests_per_second = 20, bc_requests_per_minute = 200, bc_requests_per_day = 100000, bc_symbol_limit = 500,
     bc_connection_limit = 1, bc_order_types = [''MARKET'', ''LIMIT'', ''STOP'', ''STOP_LIMIT''], bc_static_ip = False, bc_totp = True,
     bc_token_hours = 24, bc_start = ''09:15'', bc_end = ''15:30'', bc_safe_ratio = 3 / 4\<rparr>"

definition paper_capabilities :: broker_capabilities where
  "paper_capabilities = \<lparr>bc_name = ''paper'', bc_environment = ''simulation'', bc_version = ''v1'', bc_orders_per_second = 1000,
     bc_requests_per_second = 2000, bc_requests_per_minute = 50000, bc_requests_per_day = 10000000, bc_symbol_limit = 10000,
     bc_connection_limit = 10, bc_order_types = [''MARKET'', ''LIMIT'', ''MARKETABLE_LIMIT'', ''STOP'', ''STOP_LIMIT'', ''IOC''],
     bc_static_ip = False, bc_totp = False, bc_token_hours = 99999, bc_start = ''00:00'', bc_end = ''23:59'', bc_safe_ratio = 3 / 4\<rparr>"

definition default_capabilities :: "string \<Rightarrow> broker_capabilities" where
  "default_capabilities key = \<lparr>bc_name = key, bc_environment = ''unknown'', bc_version = ''v1'', bc_orders_per_second = 5,
     bc_requests_per_second = 10, bc_requests_per_minute = 100, bc_requests_per_day = 50000, bc_symbol_limit = 100,
     bc_connection_limit = 1, bc_order_types = [''MARKET'', ''LIMIT''], bc_static_ip = False, bc_totp = True,
     bc_token_hours = 24, bc_start = ''09:15'', bc_end = ''15:30'', bc_safe_ratio = 3 / 4\<rparr>"

definition broker_table :: "(string, broker_capabilities) dict" where
  "broker_table = [(''fyers'', fyers_capabilities), (''paper'', paper_capabilities)]"

definition capabilities_of :: "string \<Rightarrow> broker_capabilities" where
  "capabilities_of name = (let key = strip (map to_lower name) in or_else (map_of broker_table key) (default_capabilities key))"

subsection \<open>Properties\<close>

lemma total_seconds_neg: "total_seconds (- us) = - total_seconds us"
  using flt.rnd_neg [of "of_int us / 1000000"] by (simp add: total_seconds_def)

lemma total_seconds_ge_iff:
  assumes "\<bar>n\<bar> < 2 ^ 31" shows "of_int n \<le> total_seconds us \<longleftrightarrow> n * 1000000 \<le> us"
  using total_seconds_le_iff [of "- n" "- us"] assms by (simp add: total_seconds_neg)

lemma total_seconds_gt_numeral: "numeral w < (2 ^ 31 :: int) \<Longrightarrow> numeral w < total_seconds us \<longleftrightarrow> numeral w * 1000000 < us"
  using total_seconds_le_iff [of "numeral w" us] by (simp add: not_le [symmetric])

text \<open>New entries are blocked exactly when the clock is stale, the feed is disconnected, or the last tick is more than
  five seconds old to the microsecond; a fallback source or a younger delay only degrades.\<close>

theorem entries_blocked_iff:
  "blocks_new_entries now m \<longleftrightarrow> hm_clock m = STALE \<or> \<not> hm_connected m \<or> (\<exists>t. hm_tick m = Some t \<and> 5000000 < now - t)"
proof -
  have "5 < total_seconds us \<longleftrightarrow> 5000000 < us" for us using total_seconds_gt_numeral [of "num.Bit1 (num.Bit0 num.One)" us] by simp
  then show ?thesis
    by (auto simp: blocks_new_entries_def health_at_def assess_clock_def assess_connection_def assess_age_def assess_fallback_def
        Let_def split: option.splits data_health.splits prod.splits if_splits)
qed

text \<open>A monitor that never saw a tick reports healthy data, and the heartbeat is never consulted.\<close>

lemma silent_feed_healthy: "data_is_healthy now monitor_init"
  by (simp add: data_is_healthy_def health_at_def monitor_init_def assess_clock_def assess_connection_def assess_age_def assess_fallback_def)

lemma heartbeat_ignored: "hs_state (health_at now (m\<lparr>hm_heartbeat := h\<rparr>)) = hs_state (health_at now m)"
  by (simp add: health_at_def assess_connection_def assess_fallback_def assess_clock_def Let_def split_beta)

lemma first_block_None:
  "first_block cs ks = None \<longleftrightarrow> (\<forall>(k, why) \<in> set ks. \<not> check_fails (check_of cs k) \<and> (k \<in> set mandatory_checks \<longrightarrow> check_of cs k \<noteq> NoCheck))"
  by (induction ks) (auto simp: check_fails_def split: if_splits)

text \<open>The gate opens exactly when no required check is negative, the seven mandatory ones are present, the data is not
  stale and no orphan alert is active; of the other sixteen checks a missing one counts as passed.\<close>

theorem entry_gate_opens_iff:
  "fst (live_entry_gate cs) \<longleftrightarrow> (\<forall>k \<in> set (map fst required_checks). \<not> check_fails (check_of cs k))
     \<and> (\<forall>k \<in> set mandatory_checks. check_of cs k \<noteq> NoCheck)
     \<and> check_of cs ''data_health_state'' \<noteq> Word ''STALE'' \<and> \<not> check_truthy (check_of cs ''is_orphaned_alert'')"
proof -
  have "set mandatory_checks \<subseteq> set (map fst required_checks)"
    by (simp add: mandatory_checks_def required_checks_def)
  then have "first_block cs required_checks = None \<longleftrightarrow> (\<forall>k \<in> set (map fst required_checks). \<not> check_fails (check_of cs k))
     \<and> (\<forall>k \<in> set mandatory_checks. check_of cs k \<noteq> NoCheck)"
    unfolding first_block_None by fastforce
  then show ?thesis by (cases "first_block cs required_checks") (auto simp: live_entry_gate_def)
qed

definition all_checks_pass :: "(string, check_value) dict" where
  "all_checks_pass = map (\<lambda>k. (k, Flag True)) mandatory_checks"

theorem entry_gate_opens_iff_witness: "fst (live_entry_gate all_checks_pass)"
  by (subst entry_gate_opens_iff) code_simp

interpretation audit_log: bounded_log at_buffer audit_append at_max
  by unfold_locales (auto simp: audit_append_def Let_def)

text \<open>The trail is the end of the history: after any appends it holds exactly the last records up to its bound, in their
  order, and a query for an account returns those of the account, newest first.\<close>

theorem audit_keeps_last:
  assumes "0 < n"
  shows "at_buffer (fold audit_append rs (audit_init n)) = last_n n rs
    \<and> set (audit_query acc (int (length rs)) None (fold audit_append rs (audit_init n))) = {r \<in> set (last_n n rs). ar_account r = acc}
    \<and> sorted (map (\<lambda>r. - ar_time r) (audit_query acc k ev (fold audit_append rs (audit_init n))))"
proof -
  have b: "at_buffer (fold audit_append rs (audit_init n)) = last_n n rs"
    using audit_log.entries_fold [of "audit_init n" rs] assms by (simp add: audit_init_def)
  have "sorted (map f (py_prefix k xs))" if "sorted (map f xs)" for f :: "audit_record \<Rightarrow> int" and k xs
    using that by (simp add: py_prefix_def take_map [symmetric] sorted_wrt_take)
  moreover have "set (take (length rs) (sort_key f (filter P (last_n n rs)))) = set (filter P (last_n n rs))" for f :: "audit_record \<Rightarrow> int" and P
    using length_filter_le [of P "last_n n rs"] by simp
  ultimately show ?thesis using b by (auto simp: audit_query_def py_prefix_def)
qed

theorem audit_keeps_last_witness:
  "at_buffer (fold audit_append [] (audit_init 3)) = []"
  using audit_keeps_last [of 3 "[]" "[]" 0 None] by simp

subsection \<open>Quiet periods\<close>

datatype alert_op = Send int string string bool | Recover string

fun alert_step :: "alert_op \<Rightarrow> alert_deduper \<Rightarrow> alert_deduper" where
  "alert_step (Send now fp sev rec) d = fst (should_send now fp sev rec d)"
| "alert_step (Recover fp) d = mark_recovery fp d"

fun recovers :: "string \<Rightarrow> alert_op \<Rightarrow> bool" where
  "recovers fp (Send now fp' sev rec) = (rec \<and> fp' = fp)"
| "recovers fp (Recover fp') = (fp' = fp)"

fun op_time_from :: "int \<Rightarrow> alert_op \<Rightarrow> bool" where
  "op_time_from t (Send now fp sev rec) = (t \<le> now)"
| "op_time_from t (Recover fp) = True"

text \<open>An open incident: sent no earlier than a time, and not recovered since.\<close>

definition incident_open :: "string \<Rightarrow> int \<Rightarrow> alert_deduper \<Rightarrow> bool" where
  "incident_open fp t d \<longleftrightarrow> (\<exists>s. map_of (ad_sent d) fp = Some s \<and> t \<le> s) \<and> map_of (ad_incident d) fp \<noteq> Some RECOVERED"

lemma incident_stays_open:
  "incident_open fp t d \<Longrightarrow> \<not> recovers fp x \<Longrightarrow> op_time_from t x \<Longrightarrow> incident_open fp t (alert_step x d)"
  by (cases x) (auto simp: incident_open_def should_send_def note_sent_def note_incident_def mark_recovery_def dict_simps
      split: option.split)

lemma alert_step_frame:
  "ad_cooldown (alert_step x d) = ad_cooldown d" "ad_critical (alert_step x d) = ad_critical d"
  by (cases x; simp add: should_send_def note_sent_def note_incident_def mark_recovery_def split: option.split)+

lemma incident_open_fold:
  assumes "incident_open fp t d" "\<And>x. x \<in> set ops \<Longrightarrow> \<not> recovers fp x \<and> op_time_from t x"
  shows "incident_open fp t (fold alert_step ops d) \<and> ad_cooldown (fold alert_step ops d) = ad_cooldown d
    \<and> ad_critical (fold alert_step ops d) = ad_critical d"
  using assms by (induction ops arbitrary: d) (simp_all add: incident_stays_open alert_step_frame)

text \<open>An alert that was sent is not sent again before its cooldown is over, whatever other alerts are handled in
  between, as long as no recovery of it comes; then the gap is at least the cooldown of the severity asked for.\<close>

theorem alert_quiet_period:
  assumes "fst (snd (should_send t0 fp sev0 False d))"
    and "\<And>x. x \<in> set ops \<Longrightarrow> \<not> recovers fp x \<and> op_time_from t0 x"
    and "fst (snd (should_send now fp sev False (fold alert_step ops (fst (should_send t0 fp sev0 False d)))))"
    and "\<bar>alert_cooldown sev d\<bar> < 2 ^ 31"
  shows "alert_cooldown sev d * 1000000 \<le> now - t0"
proof -
  let ?d = "fst (should_send t0 fp sev0 False d)"
  let ?e = "fold alert_step ops ?d"
  have "incident_open fp t0 ?d"
    using assms(1) by (auto simp: should_send_def incident_open_def note_sent_def note_incident_def dict_simps split: option.splits if_splits)
  then have e: "incident_open fp t0 ?e" "ad_cooldown ?e = ad_cooldown d" "ad_critical ?e = ad_critical d"
    using incident_open_fold [of fp t0 ?d ops] assms(2) alert_step_frame [of "Send t0 fp sev0 False" d] by auto
  then obtain s where s: "map_of (ad_sent ?e) fp = Some s" "t0 \<le> s" "map_of (ad_incident ?e) fp \<noteq> Some RECOVERED"
    by (auto simp: incident_open_def)
  then have "of_int (alert_cooldown sev d) \<le> total_seconds (now - s)"
    using assms(3) e(2,3) by (auto simp: should_send_def alert_cooldown_def split: if_splits)
  then have "alert_cooldown sev d * 1000000 \<le> now - s" using total_seconds_ge_iff [OF assms(4)] by blast
  then show ?thesis using s(2) by linarith
qed

theorem alert_quiet_period_witness:
  "alert_cooldown ''WARNING'' (deduper_init 300 60) * 1000000 \<le> (300000000 :: int) - 0"
proof (rule alert_quiet_period [where ops = "[]" and fp = "''f''" and ?sev0.0 = "''WARNING''"])
  have "300 \<le> total_seconds 300000000" using total_seconds_ge_iff [of 300 300000000] by simp
  then show "fst (snd (should_send 300000000 ''f'' ''WARNING'' False (fold alert_step [] (fst (should_send 0 ''f'' ''WARNING'' False (deduper_init 300 60))))))"
    by (simp add: should_send_def deduper_init_def note_sent_def note_incident_def alert_cooldown_def)
qed (simp_all add: should_send_def deduper_init_def note_sent_def note_incident_def alert_cooldown_def)

end
