(* ===== verification/Droid_Governance.thy ===== *)
theory Droid_Governance
  imports Droid_Decimal
begin

text \<open>
  \<open>backend/app/algo/ai_governance.py\<close>: the life cycle of the AI models (current, canary, shadow, rolled back), the
  decision log, the drift detection over it, and the failure policy. The random draw of the canary routing is an
  argument; a decision keeps the fields the detection reads; detection windows are positive. The names of the
  biases are visited in the order of their first appearance (the code visits a set).
\<close>

subsection \<open>Models\<close>

datatype model_status = CURRENT | CANDIDATE | CANARY | RETIRED | ROLLED_BACK | SHADOW

record ai_model =
  am_provider :: string
  am_id :: string
  am_version :: string
  am_prompt :: string
  am_config :: "string option"
  am_status :: model_status
  am_known_good :: bool
  am_canary_pct :: rat

text \<open>A decision: its bias (if the output has one), its confidence and latency and whether its schema was valid.\<close>

record ai_decision =
  dc_bias :: "string option"
  dc_confidence :: "rat option"
  dc_latency :: "int option"
  dc_schema_valid :: bool

record governance =
  gv_models :: "(string, ai_model) dict"
  gv_decisions :: "ai_decision list"
  gv_known_good :: "string option"

definition governance_init :: governance where
  "governance_init = \<lparr>gv_models = [], gv_decisions = [], gv_known_good = None\<rparr>"

definition model_key :: "ai_model \<Rightarrow> string" where
  "model_key m = am_provider m @ '':'' @ am_id m @ '':'' @ am_version m"

definition register_model :: "ai_model \<Rightarrow> governance \<Rightarrow> governance" where
  "register_model m g = (let k = model_key m; h = g\<lparr>gv_models := AList.update k m (gv_models g)\<rparr> in
     if am_known_good m then h\<lparr>gv_known_good := Some k\<rparr> else h)"

definition first_with_status :: "model_status \<Rightarrow> governance \<Rightarrow> (string \<times> ai_model) option" where
  "first_with_status st g = find (\<lambda>(k, m). am_status m = st) (gv_models g)"

definition get_current :: "governance \<Rightarrow> (string \<times> ai_model) option" where
  "get_current g = first_with_status CURRENT g"

definition get_canary :: "governance \<Rightarrow> (string \<times> ai_model) option" where
  "get_canary g = first_with_status CANARY g"

text \<open>The known good model: by its key, else the first flagged one, else the current one.\<close>

definition get_last_known_good :: "governance \<Rightarrow> (string \<times> ai_model) option" where
  "get_last_known_good g = (let k = or_else (gv_known_good g) [] in
     if k \<noteq> [] \<and> map_of (gv_models g) k \<noteq> None then Some (k, the (map_of (gv_models g) k))
     else (case find (\<lambda>(k, m). am_known_good m) (gv_models g) of Some x \<Rightarrow> Some x | None \<Rightarrow> get_current g))"

definition change_model :: "string \<Rightarrow> (ai_model \<Rightarrow> ai_model) \<Rightarrow> governance \<Rightarrow> governance" where
  "change_model k f g = (case map_of (gv_models g) k of None \<Rightarrow> g
     | Some m \<Rightarrow> g\<lparr>gv_models := AList.update k (f m) (gv_models g)\<rparr>)"

definition retire_current :: "governance \<Rightarrow> governance" where
  "retire_current g = g\<lparr>gv_models := map (\<lambda>(k, m). (k, if am_status m = CURRENT then m\<lparr>am_status := RETIRED\<rparr> else m)) (gv_models g)\<rparr>"

definition promote_to_current :: "string \<Rightarrow> governance \<Rightarrow> governance" where
  "promote_to_current k g = (let h = retire_current g in
     if map_of (gv_models h) k = None then h
     else (change_model k (\<lambda>m. m\<lparr>am_status := CURRENT, am_known_good := True\<rparr>) h)\<lparr>gv_known_good := Some k\<rparr>)"

definition start_shadow :: "string \<Rightarrow> governance \<Rightarrow> governance" where
  "start_shadow k g = change_model k (\<lambda>m. m\<lparr>am_status := SHADOW\<rparr>) g"

definition start_canary :: "string \<Rightarrow> rat \<Rightarrow> governance \<Rightarrow> governance" where
  "start_canary k pct g = change_model k (\<lambda>m. m\<lparr>am_status := CANARY, am_canary_pct := pct\<rparr>) g"

definition should_use_canary :: "rat \<Rightarrow> governance \<Rightarrow> bool" where
  "should_use_canary draw g = (case get_canary g of None \<Rightarrow> False | Some (k, m) \<Rightarrow> frnd (draw * 100) < frnd (am_canary_pct m))"

definition rollback :: "string \<Rightarrow> governance \<Rightarrow> governance \<times> (string \<times> ai_model) option" where
  "rollback k g = (let h = change_model k (\<lambda>m. m\<lparr>am_status := ROLLED_BACK\<rparr>) g in
     case get_last_known_good h of
       None \<Rightarrow> (h, None)
     | Some (l, m) \<Rightarrow>
         if list_ex (\<lambda>(k, m). am_status m = CURRENT) (gv_models h) then (h, Some (l, m))
         else (change_model l (\<lambda>m. m\<lparr>am_status := CURRENT\<rparr>) h, Some (l, m\<lparr>am_status := CURRENT\<rparr>)))"

subsection \<open>Decisions and drift\<close>

definition MAX_DECISIONS :: nat where "MAX_DECISIONS = 5000"

definition record_decision :: "ai_decision \<Rightarrow> governance \<Rightarrow> governance" where
  "record_decision d g = (let ds = gv_decisions g @ [d] in
     g\<lparr>gv_decisions := (if MAX_DECISIONS < length ds then last_n MAX_DECISIONS ds else ds)\<rparr>)"

definition bias_of :: "ai_decision \<Rightarrow> string" where
  "bias_of d = or_else (dc_bias d) ''NO_TRADE''"

definition bias_share :: "ai_decision list \<Rightarrow> string \<Rightarrow> rat" where
  "bias_share ds b = frnd (of_nat (length (filter (\<lambda>d. bias_of d = b) ds)) / of_nat (length ds))"

definition bias_shift :: "ai_decision list \<Rightarrow> ai_decision list \<Rightarrow> string \<Rightarrow> rat" where
  "bias_shift recent base b = \<bar>frnd (bias_share recent b - bias_share base b)\<bar>"

text \<open>\<open>statistics.mean\<close> is exact before its conversion to float.\<close>

definition py_mean :: "rat list \<Rightarrow> rat" where
  "py_mean xs = frnd (sum_list xs / of_nat (length xs))"

definition confidences :: "ai_decision list \<Rightarrow> rat list" where
  "confidences ds = map frnd (List.map_filter dc_confidence ds)"

definition latencies :: "ai_decision list \<Rightarrow> rat list" where
  "latencies ds = map of_int (filter (\<lambda>l. l \<noteq> 0) (List.map_filter dc_latency ds))"

definition confidence_shift :: "ai_decision list \<Rightarrow> ai_decision list \<Rightarrow> rat option" where
  "confidence_shift recent base = (if confidences recent \<noteq> [] \<and> confidences base \<noteq> []
     then Some \<bar>frnd (py_mean (confidences recent) - py_mean (confidences base))\<bar> else None)"

definition schema_failure_rate :: "ai_decision list \<Rightarrow> rat" where
  "schema_failure_rate ds = frnd (of_nat (length (filter (\<lambda>d. \<not> dc_schema_valid d) ds)) / of_nat (length ds))"

definition latency_degraded :: "ai_decision list \<Rightarrow> ai_decision list \<Rightarrow> bool" where
  "latency_degraded recent base \<longleftrightarrow> latencies recent \<noteq> [] \<and> latencies base \<noteq> []
     \<and> frnd (py_mean (latencies base) * (3 / 2)) < py_mean (latencies recent)"

datatype drift_flag = CONFIDENCE_SHIFT | BIAS_SHIFT string | NO_TRADE_SHIFT | SCHEMA_FAILURE_INCREASE | LATENCY_DEGRADATION

definition drift_flags :: "ai_decision list \<Rightarrow> ai_decision list \<Rightarrow> drift_flag list" where
  "drift_flags recent base =
     (case confidence_shift recent base of Some s \<Rightarrow> if frnd (15 / 100) < s then [CONFIDENCE_SHIFT] else [] | None \<Rightarrow> [])
     @ map BIAS_SHIFT (filter (\<lambda>b. frnd (15 / 100) < bias_shift recent base b) (remdups (map bias_of (recent @ base))))
     @ (if frnd (15 / 100) < bias_shift recent base ''NO_TRADE'' then [NO_TRADE_SHIFT] else [])
     @ (if frnd (5 / 100) < schema_failure_rate recent then [SCHEMA_FAILURE_INCREASE] else [])
     @ (if latency_degraded recent base then [LATENCY_DEGRADATION] else [])"

datatype drift_state = DRIFT_NORMAL | DRIFT_WARNING | DRIFT_CRITICAL | ROLLBACK_REQUIRED

definition drift_verdict :: "drift_flag list \<Rightarrow> rat \<Rightarrow> drift_state" where
  "drift_verdict flags failures = (
     if 3 \<le> length flags \<or> CONFIDENCE_SHIFT \<in> set flags \<and> frnd (5 / 100) < failures then ROLLBACK_REQUIRED
     else if 2 \<le> length flags then DRIFT_CRITICAL
     else if 1 \<le> length flags then DRIFT_WARNING
     else DRIFT_NORMAL)"

definition recent_window :: "nat \<Rightarrow> governance \<Rightarrow> ai_decision list" where
  "recent_window w g = last_n w (gv_decisions g)"

definition baseline_window :: "nat \<Rightarrow> governance \<Rightarrow> ai_decision list" where
  "baseline_window w g = take w (last_n (2 * w) (gv_decisions g))"

definition detect_drift :: "nat \<Rightarrow> governance \<Rightarrow> drift_state \<times> drift_flag list" where
  "detect_drift w g = (if length (gv_decisions g) < 2 * w then (DRIFT_NORMAL, [])
     else (let fl = drift_flags (recent_window w g) (baseline_window w g) in
       (drift_verdict fl (schema_failure_rate (recent_window w g)), fl)))"

subsection \<open>Failure policy\<close>

datatype ai_mode = AI_REQUIRED | AI_OPTIONAL | AI_DISABLED

datatype failure_action = NO_NEW_ENTRY | FALLBACK_ALLOWED

definition handle_failure :: "ai_mode \<Rightarrow> failure_action" where
  "handle_failure m = (case m of AI_REQUIRED \<Rightarrow> NO_NEW_ENTRY | AI_DISABLED \<Rightarrow> FALLBACK_ALLOWED | AI_OPTIONAL \<Rightarrow> NO_NEW_ENTRY)"

definition canary_blocked_states :: "string list" where
  "canary_blocked_states = [''ORPHANED_ALERT'', ''CRITICAL_RECONCILIATION_FAILURE'', ''CRITICAL_DATA_FAILURE'', ''CRITICAL_BROKER_FAILURE'']"

definition canary_allowed :: "string \<Rightarrow> bool" where
  "canary_allowed st \<longleftrightarrow> st \<notin> set canary_blocked_states"

subsection \<open>One current model\<close>

definition current_keys :: "governance \<Rightarrow> string set" where
  "current_keys g = {k. \<exists>m. map_of (gv_models g) k = Some m \<and> am_status m = CURRENT}"

datatype governance_op = Register ai_model | Promote string | Shadow string | Canary string rat | Rollback string | Decide ai_decision

fun governance_step :: "governance_op \<Rightarrow> governance \<Rightarrow> governance" where
  "governance_step (Register m) g = register_model m g"
| "governance_step (Promote k) g = promote_to_current k g"
| "governance_step (Shadow k) g = start_shadow k g"
| "governance_step (Canary k p) g = start_canary k p g"
| "governance_step (Rollback k) g = fst (rollback k g)"
| "governance_step (Decide d) g = record_decision d g"

fun registers_current :: "governance_op \<Rightarrow> bool" where
  "registers_current (Register m) = (am_status m = CURRENT)"
| "registers_current _ = False"

definition one_current :: "governance \<Rightarrow> bool" where
  "one_current g \<longleftrightarrow> distinct (map fst (gv_models g)) \<and> (\<forall>k \<in> current_keys g. current_keys g = {k})"

lemma map_of_map_snd: "map_of (map (\<lambda>(k, m). (k, f m)) xs) k = map_option f (map_of xs k)"
  by (induction xs) auto

lemma map_of_retire:
  "map_of (gv_models (retire_current g)) k =
     map_option (\<lambda>m. if am_status m = CURRENT then m\<lparr>am_status := RETIRED\<rparr> else m) (map_of (gv_models g) k)"
  by (simp add: retire_current_def map_of_map_snd)

lemma retire_keys: "map fst (gv_models (retire_current g)) = map fst (gv_models g)"
  by (simp add: retire_current_def split_def comp_def)

lemma current_retired [simp]: "current_keys (retire_current g) = {}"
  by (auto simp: current_keys_def map_of_retire split: if_splits)

lemma map_of_change:
  "map_of (gv_models (change_model k f g)) l = (if l = k then map_option f (map_of (gv_models g) k) else map_of (gv_models g) l)"
  by (simp add: change_model_def dict_simps split: option.split)

lemma change_keys: "map fst (gv_models (change_model k f g)) = map fst (gv_models g)"
  by (auto simp: change_model_def split: option.split intro: update_hit_keys dest: map_of_SomeD) (metis fst_conv image_eqI map_of_SomeD update_hit_keys)

lemma current_change:
  "current_keys (change_model k f g) = (current_keys g - {k}) \<union> (case map_of (gv_models g) k of
     Some m \<Rightarrow> if am_status (f m) = CURRENT then {k} else {} | None \<Rightarrow> {})"
  by (auto simp: current_keys_def map_of_change split: option.splits)

lemma current_register:
  "am_status m \<noteq> CURRENT \<Longrightarrow> current_keys (register_model m g) = current_keys g - {model_key m}"
  by (auto simp: register_model_def Let_def current_keys_def dict_simps split: if_splits)

lemma register_keys: "distinct (map fst (gv_models g)) \<Longrightarrow> distinct (map fst (gv_models (register_model m g)))"
  by (simp add: register_model_def Let_def distinct_update)

lemma promote_keys: "map fst (gv_models (promote_to_current k g)) = map fst (gv_models g)"
  by (simp add: promote_to_current_def Let_def retire_keys change_keys)

lemma current_promote:
  "current_keys (promote_to_current k g) = (if map_of (gv_models g) k = None then {} else {k})"
proof (cases "map_of (gv_models g) k")
  case None
  then show ?thesis by (simp add: promote_to_current_def Let_def map_of_retire)
next
  case (Some m)
  let ?h = "change_model k (\<lambda>m. m\<lparr>am_status := CURRENT, am_known_good := True\<rparr>) (retire_current g)"
  have "current_keys (promote_to_current k g) = current_keys ?h"
    using Some by (simp add: promote_to_current_def Let_def map_of_retire current_keys_def)
  then show ?thesis using Some by (simp add: current_change map_of_retire)
qed

lemma known_good_registered:
  assumes "distinct (map fst (gv_models g))" "get_last_known_good g = Some (l, m)"
  shows "map_of (gv_models g) l = Some m"
  using assms
  by (auto simp: get_last_known_good_def get_current_def first_with_status_def Let_def find_Some_iff map_of_eq_Some_iff
      split: if_splits option.splits) (metis nth_mem)+

lemma has_current_iff:
  "distinct (map fst (gv_models g)) \<Longrightarrow> list_ex (\<lambda>(k, m). am_status m = CURRENT) (gv_models g) \<longleftrightarrow> current_keys g \<noteq> {}"
  by (auto simp: list_ex_iff current_keys_def map_of_eq_Some_iff)

lemma rollback_current:
  assumes "distinct (map fst (gv_models g))"
  shows "current_keys (fst (rollback k g)) = current_keys g - {k}
    \<or> (\<exists>l. current_keys g \<subseteq> {k} \<and> current_keys (fst (rollback k g)) = {l})"
proof -
  let ?h = "change_model k (\<lambda>m. m\<lparr>am_status := ROLLED_BACK\<rparr>) g"
  have c: "current_keys ?h = current_keys g - {k}" by (auto simp: current_change split: option.split)
  have d: "distinct (map fst (gv_models ?h))" using assms by (simp add: change_keys)
  show ?thesis
  proof (cases "get_last_known_good ?h")
    case None
    then show ?thesis using c by (simp add: rollback_def Let_def)
  next
    case (Some x)
    obtain l m where x: "x = (l, m)" by (cases x)
    have "map_of (gv_models ?h) l = Some m" using known_good_registered [OF d] Some x by blast
    then have "current_keys (change_model l (\<lambda>m. m\<lparr>am_status := CURRENT\<rparr>) ?h) = current_keys ?h - {l} \<union> {l}"
      by (simp add: current_change)
    then show ?thesis
      using Some x c has_current_iff [OF d] by (auto simp: rollback_def Let_def)
  qed
qed

lemma rollback_keys: "map fst (gv_models (fst (rollback k g))) = map fst (gv_models g)"
  by (auto simp: rollback_def Let_def change_keys split: option.split)

lemma one_current_cong: "gv_models g' = gv_models g \<Longrightarrow> one_current g' = one_current g"
  by (simp only: one_current_def current_keys_def)

lemma one_current_subset: "one_current g \<Longrightarrow> current_keys g' \<subseteq> current_keys g \<Longrightarrow> distinct (map fst (gv_models g')) \<Longrightarrow> one_current g'"
  unfolding one_current_def by blast

lemma one_current_step: "\<not> registers_current x \<Longrightarrow> one_current g \<Longrightarrow> one_current (governance_step x g)"
proof (cases x)
  case (Register m)
  assume "\<not> registers_current x" "one_current g"
  then show ?thesis using Register
    by (auto intro: one_current_subset simp: current_register register_keys one_current_def)
next
  case (Promote k)
  assume "one_current g"
  then show ?thesis using Promote by (simp add: one_current_def current_promote promote_keys)
next
  case (Rollback k)
  assume g: "one_current g"
  then have d: "distinct (map fst (gv_models g))" by (simp add: one_current_def)
  from rollback_current [OF d, of k] show ?thesis
  proof
    assume "current_keys (fst (rollback k g)) = current_keys g - {k}"
    then show ?thesis using g Rollback by (auto intro: one_current_subset simp: rollback_keys d)
  next
    assume "\<exists>l. current_keys g \<subseteq> {k} \<and> current_keys (fst (rollback k g)) = {l}"
    then show ?thesis using Rollback d by (auto simp: one_current_def rollback_keys)
  qed
next
  case (Decide e)
  assume g: "one_current g"
  have "gv_models (record_decision e g) = gv_models g" by (simp add: record_decision_def Let_def)
  then show ?thesis using g one_current_cong unfolding Decide governance_step.simps by blast
qed (auto intro!: one_current_subset simp: start_shadow_def start_canary_def change_keys current_change one_current_def split: option.splits)

interpretation governance: guarded_invariant governance_step one_current "\<lambda>x. \<not> registers_current x"
  by unfold_locales (rule one_current_step)

text \<open>
  There is never more than one current model: from an empty registry, after any registrations of models that are
  not already marked current, promotions, shadow and canary starts, rollbacks and decisions, at most one model is
  current, and promoting a registered model then makes it the only one.
\<close>

theorem one_current_model:
  assumes "list_all (\<lambda>x. \<not> registers_current x) ops"
  shows "card (current_keys (fold governance_step ops governance_init)) \<le> 1
   \<and> current_keys (promote_to_current k (fold governance_step ops governance_init))
      = (if map_of (gv_models (fold governance_step ops governance_init)) k = None then {} else {k})"
proof -
  let ?g = "fold governance_step ops governance_init"
  have "one_current governance_init" by (simp add: one_current_def governance_init_def current_keys_def)
  from governance.guarded_run [OF assms this] have "\<forall>k \<in> current_keys ?g. current_keys ?g = {k}" unfolding one_current_def by blast
  then have "card (current_keys ?g) \<le> 1"
    by (cases "current_keys ?g = {}") (simp, metis One_nat_def card.empty card.insert empty_iff ex_in_conv finite.emptyI le_refl)
  then show ?thesis by (simp add: current_promote)
qed

definition demo_model :: ai_model where
  "demo_model = \<lparr>am_provider = ''p'', am_id = ''m'', am_version = ''1'', am_prompt = ''v1'', am_config = None, am_status = CANDIDATE,
     am_known_good = False, am_canary_pct = 0\<rparr>"

theorem one_current_model_witness:
  "current_keys (promote_to_current ''p:m:1'' (fold governance_step [Register demo_model] governance_init)) = {''p:m:1''}"
  using one_current_model [of "[Register demo_model]" "''p:m:1''"]
  by (simp add: register_model_def Let_def demo_model_def model_key_def governance_init_def)

text \<open>A rollback of the model that was last promoted does nothing: promotion makes it the known good model, so the
  rollback restores the very model it rolls back.\<close>

theorem rollback_restores_candidate:
  assumes "distinct (map fst (gv_models g))" "map_of (gv_models g) k \<noteq> None" "k \<noteq> []"
  shows "current_keys (fst (rollback k (promote_to_current k g))) = {k}"
proof -
  let ?p = "promote_to_current k g"
  let ?h = "change_model k (\<lambda>m. m\<lparr>am_status := ROLLED_BACK\<rparr>) ?p"
  have c: "current_keys ?h = {}" using assms(2) by (auto simp: current_change current_promote split: option.split)
  have p: "gv_known_good ?p = Some k" using assms(2) by (auto simp: promote_to_current_def Let_def map_of_retire)
  have h: "gv_known_good ?h = Some k" using p by (simp add: change_model_def split: option.split)
  have kp: "map_of (gv_models ?p) k \<noteq> None" using assms(2) promote_keys [of k g] by (metis (no_types) map_of_eq_None_iff set_map)
  then obtain m where m: "map_of (gv_models ?h) k = Some m" by (auto simp: map_of_change)
  have lkg: "get_last_known_good ?h = Some (k, m)" using h m assms(3) by (simp add: get_last_known_good_def Let_def)
  have "distinct (map fst (gv_models ?h))" using assms(1) by (simp add: change_keys promote_keys)
  then have "\<not> list_ex (\<lambda>(k, m). am_status m = CURRENT) (gv_models ?h)" using has_current_iff c by blast
  then have "fst (rollback k ?p) = change_model k (\<lambda>m. m\<lparr>am_status := CURRENT\<rparr>) ?h"
    using lkg by (simp add: rollback_def Let_def)
  then show ?thesis using c m by (simp add: current_change)
qed

theorem rollback_restores_candidate_witness:
  "current_keys (fst (rollback ''p:m:1'' (promote_to_current ''p:m:1'' (register_model demo_model governance_init)))) = {''p:m:1''}"
  by (rule rollback_restores_candidate) (simp_all add: register_model_def Let_def demo_model_def model_key_def governance_init_def)

text \<open>Promoting a key that is not registered retires the current model and leaves none.\<close>

lemma promote_unknown_retires: "map_of (gv_models g) k = None \<Longrightarrow> current_keys (promote_to_current k g) = {}"
  by (simp add: current_promote)

subsection \<open>Drift\<close>

interpretation decision_log: bounded_log gv_decisions record_decision "\<lambda>_. MAX_DECISIONS"
  by unfold_locales (simp_all add: record_decision_def Let_def)

text \<open>A shift of the no-trade rate alone is already critical: it raises its own flag and the flag of its bias, so the
  verdict is never a mere warning; and a short history never drifts.\<close>

theorem no_trade_shift_critical:
  assumes "0 < w" "2 * w \<le> length (gv_decisions g)"
    and "frnd (15 / 100) < bias_shift (recent_window w g) (baseline_window w g) ''NO_TRADE''"
  shows "fst (detect_drift w g) \<in> {DRIFT_CRITICAL, ROLLBACK_REQUIRED}"
proof -
  let ?r = "recent_window w g" let ?b = "baseline_window w g"
  have pos: "0 < bias_shift ?r ?b ''NO_TRADE''" using assms(3) flt.rnd_nonneg [of "15/100"] by (simp add: less_le_trans)
  have "''NO_TRADE'' \<in> set (map bias_of (?r @ ?b))"
  proof (rule ccontr)
    assume "\<not> ?thesis"
    then have "filter (\<lambda>d. bias_of d = ''NO_TRADE'') ?r = []" "filter (\<lambda>d. bias_of d = ''NO_TRADE'') ?b = []"
      by (simp_all add: filter_empty_conv) (metis imageI)+
    then show False using pos by (simp add: bias_shift_def bias_share_def)
  qed
  then have s: "BIAS_SHIFT ''NO_TRADE'' \<in> set (drift_flags ?r ?b)" "NO_TRADE_SHIFT \<in> set (drift_flags ?r ?b)"
    using assms(3) by (auto simp: drift_flags_def)
  have "2 \<le> card (set (drift_flags ?r ?b))"
    using card_mono [of "set (drift_flags ?r ?b)" "{BIAS_SHIFT ''NO_TRADE'', NO_TRADE_SHIFT}"] s by simp
  then have "2 \<le> length (drift_flags ?r ?b)" using card_length le_trans by blast
  then show ?thesis using assms(2) by (simp add: detect_drift_def drift_verdict_def Let_def)
qed

end
