(* ===== verification/Droid_Instruments.thy ===== *)
theory Droid_Instruments
  imports Droid_Decimal
begin

text \<open>
  \<open>backend/app/algo/instruments.py\<close>: the versioned instrument master, the corporate-action freeze and the order
  parameter check. The master's two indices hold the same objects: the broker index is a reference (the internal
  id and the position in its list), so that closing an earlier version is seen through both. Times are numbers.
\<close>

subsection \<open>State\<close>

record instrument_spec =
  is_internal :: string
  is_symbol :: string
  is_broker_id :: "string option"
  is_exchange :: string
  is_type :: string
  is_underlying :: "string option"
  is_expiry :: "int option"
  is_strike :: "rat option"
  is_option :: "string option"
  is_lot :: int
  is_tick :: rat
  is_multiplier :: rat
  is_version :: int
  is_from :: int
  is_to :: "int option"
  is_active :: bool
  is_tradable :: bool

datatype action_type = SPLIT | BONUS | SYMBOL_CHANGE | LOT_SIZE_CHANGE | STRIKE_GRID_CHANGE | CONTRACT_SPEC_CHANGE
  | EXPIRY_CHANGE | UNDERLYING_CHANGE | TICK_SIZE_CHANGE | INSTRUMENT_CODE_CHANGE

datatype action_status = ACTION_PENDING | ACTION_APPLIED | ACTION_FAILED

record corporate_action =
  ca_id :: string
  ca_instrument :: string
  ca_type :: action_type
  ca_effective :: int
  ca_status :: action_status

record instrument_master =
  im_specs :: "(string, instrument_spec list) dict"
  im_broker :: "(string, string \<times> nat) dict"
  im_actions :: "corporate_action list"
  im_frozen :: "string set"

definition master_init :: instrument_master where
  "master_init = \<lparr>im_specs = [], im_broker = [], im_actions = [], im_frozen = {}\<rparr>"

definition versions_of :: "string \<Rightarrow> instrument_master \<Rightarrow> instrument_spec list" where
  "versions_of k m = or_else (map_of (im_specs m) k) []"

subsection \<open>Versions\<close>

definition material_change :: "instrument_spec \<Rightarrow> instrument_spec \<Rightarrow> bool" where
  "material_change a b \<longleftrightarrow> is_lot a \<noteq> is_lot b \<or> is_tick a \<noteq> is_tick b \<or> is_strike a \<noteq> is_strike b \<or> is_expiry a \<noteq> is_expiry b"

definition add_version :: "int \<Rightarrow> instrument_spec \<Rightarrow> instrument_spec list \<Rightarrow> instrument_spec list" where
  "add_version now s vs = (if vs \<noteq> [] \<and> is_version (last vs) = is_version s \<and> material_change (last vs) s
     then butlast vs @ [(last vs)\<lparr>is_to := Some now\<rparr>, s\<lparr>is_version := is_version (last vs) + 1, is_from := now\<rparr>]
     else vs @ [s])"

definition upsert :: "int \<Rightarrow> instrument_spec \<Rightarrow> instrument_master \<Rightarrow> instrument_master" where
  "upsert now s m = (let vs = versions_of (is_internal s) m in
     m\<lparr>im_specs := AList.update (is_internal s) (add_version now s vs) (im_specs m),
       im_broker := AList.update (is_symbol s) (is_internal s, length vs) (im_broker m)\<rparr>)"

definition valid_at :: "int \<Rightarrow> instrument_spec \<Rightarrow> bool" where
  "valid_at t s \<longleftrightarrow> is_from s \<le> t \<and> (case is_to s of None \<Rightarrow> True | Some u \<Rightarrow> t < u)"

definition get_by_internal :: "string \<Rightarrow> int option \<Rightarrow> instrument_master \<Rightarrow> instrument_spec option" where
  "get_by_internal k as_of m = (let vs = versions_of k m in
     if vs = [] then None
     else (case as_of of None \<Rightarrow> Some (last vs)
       | Some t \<Rightarrow> (case find (valid_at t) (rev vs) of Some s \<Rightarrow> Some s | None \<Rightarrow> Some (last vs))))"

definition get_by_broker_symbol :: "string \<Rightarrow> instrument_master \<Rightarrow> instrument_spec option" where
  "get_by_broker_symbol nm m = (case map_of (im_broker m) nm of None \<Rightarrow> None
     | Some (k, i) \<Rightarrow> if i < length (versions_of k m) then Some (versions_of k m ! i) else None)"

subsection \<open>Corporate actions\<close>

definition register_action :: "corporate_action \<Rightarrow> instrument_master \<Rightarrow> instrument_master" where
  "register_action a m = m\<lparr>im_actions := im_actions m @ [a], im_frozen := insert (ca_instrument a) (im_frozen m)\<rparr>"

fun apply_first :: "string \<Rightarrow> corporate_action list \<Rightarrow> corporate_action list \<times> corporate_action option" where
  "apply_first i [] = ([], None)"
| "apply_first i (a # as) = (if ca_id a = i then (a\<lparr>ca_status := ACTION_APPLIED\<rparr> # as, Some (a\<lparr>ca_status := ACTION_APPLIED\<rparr>))
     else (case apply_first i as of (bs, r) \<Rightarrow> (a # bs, r)))"

definition apply_action :: "string \<Rightarrow> instrument_master \<Rightarrow> instrument_master \<times> corporate_action option" where
  "apply_action i m = (case apply_first i (im_actions m) of
     (bs, None) \<Rightarrow> (m, None)
   | (bs, Some a) \<Rightarrow> (m\<lparr>im_actions := bs, im_frozen := im_frozen m - {ca_instrument a}\<rparr>, Some a))"

definition freeze_check :: "string \<Rightarrow> instrument_master \<Rightarrow> bool \<times> string option" where
  "freeze_check k m = (if k \<in> im_frozen m then (True, Some (''CORPORATE_ACTION_PENDING:'' @ k))
     else (case get_by_internal k None m of
         None \<Rightarrow> (False, None)
       | Some s \<Rightarrow> if \<not> is_tradable s then (True, Some ''INSTRUMENT_NOT_TRADABLE'')
           else if \<not> is_active s then (True, Some ''INSTRUMENT_NOT_ACTIVE'') else (False, None)))"

subsection \<open>Order parameters\<close>

datatype param_refusal = PRICE_NOT_MULTIPLE_OF_TICK | QUANTITY_NOT_MULTIPLE_OF_LOT | QUANTITY_MUST_BE_POSITIVE

text \<open>The tick test: an inexact ratio is compared with half a tick. A zero lot size divides by zero.\<close>

definition off_tick :: "dval \<Rightarrow> dval \<Rightarrow> bool result" where
  "off_tick px tick = ebind (ddiv px tick) (\<lambda>ratio.
     if ratio = to_integral_value ROUND_HALF_EVEN ratio then Inr False
     else ebind (dmul (to_integral_value ROUND_HALF_UP ratio) tick) (\<lambda>q.
       ebind (dsub q px) (\<lambda>d. ebind (ddiv tick (DFin 2)) (\<lambda>h. dlt h (dabs d)))))"

definition validate_order_params :: "instrument_spec \<Rightarrow> declike \<Rightarrow> int \<Rightarrow> param_refusal option result" where
  "validate_order_params s price qty = ebind (D price) (\<lambda>px. ebind (off_tick px (DFin (is_tick s))) (\<lambda>off.
     if off then Inr (Some PRICE_NOT_MULTIPLE_OF_TICK)
     else if is_lot s = 0 then Inl DivisionByZero
     else if qty mod is_lot s \<noteq> 0 then Inr (Some QUANTITY_NOT_MULTIPLE_OF_LOT)
     else if qty \<le> 0 then Inr (Some QUANTITY_MUST_BE_POSITIVE)
     else Inr None))"

subsection \<open>The indices agree\<close>

text \<open>Every broker reference points to a version of its instrument that carries the symbol.\<close>

definition master_ok :: "instrument_master \<Rightarrow> bool" where
  "master_ok m \<longleftrightarrow> (\<forall>nm k i. map_of (im_broker m) nm = Some (k, i) \<longrightarrow>
     i < length (versions_of k m) \<and> is_symbol (versions_of k m ! i) = nm \<and> is_internal (versions_of k m ! i) = k)"

datatype master_op = Upsert int instrument_spec | RegisterAction corporate_action | ApplyAction string

fun master_step :: "master_op \<Rightarrow> instrument_master \<Rightarrow> instrument_master" where
  "master_step (Upsert now s) m = upsert now s m"
| "master_step (RegisterAction a) m = register_action a m"
| "master_step (ApplyAction i) m = fst (apply_action i m)"

lemma length_add_version: "length (add_version now s vs) = Suc (length vs)"
  by (auto simp: add_version_def)

lemma nth_add_version:
  "i < length vs \<Longrightarrow> is_symbol (add_version now s vs ! i) = is_symbol (vs ! i) \<and> is_internal (add_version now s vs ! i) = is_internal (vs ! i)"
  by (cases vs rule: rev_cases) (auto simp: add_version_def nth_append less_Suc_eq)

lemma last_add_version:
  "is_symbol (add_version now s vs ! length vs) = is_symbol s \<and> is_internal (add_version now s vs ! length vs) = is_internal s"
  by (cases vs rule: rev_cases) (auto simp: add_version_def nth_append)

lemma versions_of_upsert:
  "versions_of k (upsert now s m) = (if k = is_internal s then add_version now s (versions_of k m) else versions_of k m)"
  by (auto simp: versions_of_def upsert_def Let_def dict_simps)

lemma im_broker_upsert:
  "im_broker (upsert now s m) = AList.update (is_symbol s) (is_internal s, length (versions_of (is_internal s) m)) (im_broker m)"
  by (simp add: upsert_def Let_def)

lemma upsert_ok: "master_ok m \<Longrightarrow> master_ok (upsert now s m)"
  unfolding master_ok_def
  by (auto simp: versions_of_upsert length_add_version nth_add_version last_add_version im_broker_upsert dict_simps
      intro: less_SucI split: if_splits)

lemma action_frame: "versions_of k (fst (apply_action i m)) = versions_of k m" "im_broker (fst (apply_action i m)) = im_broker m"
  by (auto simp: apply_action_def versions_of_def split: prod.split option.split)

lemma master_step_ok: "master_ok m \<Longrightarrow> master_ok (master_step x m)"
  by (cases x) (simp_all add: upsert_ok, auto simp: master_ok_def register_action_def versions_of_def action_frame [unfolded versions_of_def])

interpretation master: op_invariant master_step master_ok
  by unfold_locales (rule master_step_ok)

text \<open>The two indices of the master never disagree: after any operations a broker symbol that was ever inserted resolves
  to a version with that symbol, which the list of its instrument also holds.\<close>

theorem symbols_resolve:
  assumes "map_of (im_broker (fold master_step ops master_init)) nm = Some (k, i)"
  shows "\<exists>s. get_by_broker_symbol nm (fold master_step ops master_init) = Some s
    \<and> is_symbol s = nm \<and> is_internal s = k \<and> s \<in> set (versions_of k (fold master_step ops master_init))"
proof -
  have "master_ok master_init" by (simp add: master_ok_def master_init_def)
  then have "master_ok (fold master_step ops master_init)" by (rule master.run_inv)
  then show ?thesis using assms by (auto simp: master_ok_def get_by_broker_symbol_def)
qed

definition demo_spec :: instrument_spec where
  "demo_spec = \<lparr>is_internal = ''i'', is_symbol = ''NIFTY'', is_broker_id = None, is_exchange = ''NSE'', is_type = ''OPT'', is_underlying = None,
     is_expiry = None, is_strike = None, is_option = None, is_lot = 75, is_tick = 1 / 20, is_multiplier = 1, is_version = 1, is_from = 0,
     is_to = None, is_active = True, is_tradable = True\<rparr>"

theorem symbols_resolve_witness:
  "\<exists>s. get_by_broker_symbol ''NIFTY'' (fold master_step [Upsert 0 demo_spec] master_init) = Some s \<and> is_symbol s = ''NIFTY''"
  using symbols_resolve [of "[Upsert 0 demo_spec]" "''NIFTY''" "''i''" 0]
  by (fastforce simp: upsert_def master_init_def versions_of_def demo_spec_def Let_def)

text \<open>Versions do not overlap: when a material change of the present version arrives, a lookup as of an earlier time still
  answers the old version, now closed, and from that time on the new one with the next number.\<close>

theorem version_switch:
  assumes "versions_of (is_internal s) m = vs @ [old]" "is_version old = is_version s" "material_change old s" "is_to old = None" "is_from old \<le> t"
    and "is_to s = None"
  shows "get_by_internal (is_internal s) (Some t) (upsert now s m)
    = Some (if t < now then old\<lparr>is_to := Some now\<rparr> else s\<lparr>is_version := is_version old + 1, is_from := now\<rparr>)"
proof -
  have "versions_of (is_internal s) (upsert now s m) = vs @ [old\<lparr>is_to := Some now\<rparr>, s\<lparr>is_version := is_version old + 1, is_from := now\<rparr>]"
    using assms(1-3) by (simp add: versions_of_upsert add_version_def)
  then show ?thesis using assms(4-6) by (simp add: get_by_internal_def Let_def valid_at_def)
qed

theorem version_switch_witness:
  "get_by_internal ''i'' (Some 7) (upsert 10 (demo_spec\<lparr>is_lot := 50\<rparr>) (upsert 0 demo_spec master_init)) = Some (demo_spec\<lparr>is_to := Some 10\<rparr>)"
proof -
  have "versions_of (is_internal (demo_spec\<lparr>is_lot := 50\<rparr>)) (upsert 0 demo_spec master_init) = [] @ [demo_spec]"
    by (simp add: versions_of_upsert add_version_def) (simp add: versions_of_def master_init_def demo_spec_def)
  from version_switch [OF this, of 7 10] show ?thesis by (simp add: demo_spec_def material_change_def)
qed

subsection \<open>Two gaps\<close>

text \<open>Applying one of two pending actions lifts the freeze although the other is still pending.\<close>

lemma second_action_unfrozen:
  assumes "ca_instrument a = k" "ca_instrument b = k" "ca_id a \<noteq> ca_id b" "ca_status b = ACTION_PENDING" "im_actions m = []"
  shows "let n = fst (apply_action (ca_id a) (register_action b (register_action a m))) in
     k \<notin> im_frozen n \<and> b \<in> set (im_actions n)"
  using assms by (simp add: apply_action_def register_action_def Let_def)

text \<open>The tick test never refuses: rounding the ratio cannot move the price by more than half a tick. Here for the
  exchange's tick of five paise and prices in paise.\<close>

lemma off_tick_fin:
  "t \<noteq> 0 \<Longrightarrow> off_tick (DFin x) (DFin t) = (let r = drnd (x / t) in if r = of_int (round_half_even r) then Inr False
     else Inr (drnd (t / 2) < drnd \<bar>drnd (drnd (of_int (round_half_up r) * t) - x)\<bar>))"
  by (simp add: off_tick_def ddiv_def dmul_def dsub_def dadd_def dabs_def dlt_def dless_val_def to_integral_value_def round_int_def Let_def)

lemma tick_never_refuses:
  assumes "\<bar>c\<bar> \<le> 10 ^ 20"
  shows "off_tick (DFin (of_int c / 100)) (DFin (1 / 20)) = Inr False"
proof -
  have e1: "drnd (of_int c / 100 / (1 / 20)) = of_int c / 5"
    using assms by (intro trans [OF drnd_exactI [where c = "2 * c" and k = "-1"]]) auto
  let ?n = "round_half_up (of_int c / 5)"
  have near: "\<bar>of_int ?n - of_int c / 5\<bar> \<le> (1/2 :: rat)" by (rule round_half_up_near)
  have "\<bar>of_int ?n :: rat\<bar> \<le> \<bar>of_int c / 5\<bar> + 1/2" using near by linarith
  also have "\<dots> \<le> 10 ^ 20" using assms by (simp add: abs_mult flip: of_int_abs)
  finally have n: "\<bar>?n\<bar> \<le> 10 ^ 20" by (simp flip: of_int_abs)
  have e2: "drnd (of_int ?n * (1 / 20)) = of_int ?n / 20"
    using n by (intro trans [OF drnd_exactI [where c = "5 * ?n" and k = "-2"]]) auto
  have e3: "drnd (of_int ?n / 20 - of_int c / 100) = of_int ?n / 20 - of_int c / 100"
    using n assms by (intro drnd_exactI [where c = "5 * ?n - c" and k = "-2"]) (auto simp: field_simps)
  have "\<bar>of_int ?n / 20 - of_int c / 100\<bar> \<le> (1 / 40 :: rat)" using near by linarith
  moreover have "drnd \<bar>of_int ?n / 20 - of_int c / 100\<bar> = \<bar>of_int ?n / 20 - of_int c / 100\<bar>" using e3 dec.rnd_abs by metis
  moreover have "drnd (1 / 20 / 2) = 1 / 40" by (rule trans [OF drnd_exactI [where c = 25 and k = "-3"]]) auto
  ultimately show ?thesis by (subst off_tick_fin) (simp_all only: Let_def e1 e2 e3, simp_all)
qed

end
