(* ===== verification/Droid_Marks.thy ===== *)
theory Droid_Marks
  imports Droid_Decimal
begin

text \<open>
  The prices of option contracts: the cache of the broker's option chain (\<open>signals/live_contract_cache.py\<close>) and
  the registry of marks with their provenance (\<open>signals/option_marks.py\<close>). The clock is an argument in
  milliseconds, days are counted in Indian time, the answers of the chain and quote services and the model premium
  are arguments. The file copy of the cache and the texts of the notes are left out: of a note the model keeps the
  two facts that \<open>is_stale_iv\<close> reads back from it.
\<close>

subsection \<open>Rows of the option chain\<close>

definition CHAIN_ROW_MAX_AGE_MS :: int where "CHAIN_ROW_MAX_AGE_MS = 300000"
definition REFRESH_INTERVAL_MS :: int where "REFRESH_INTERVAL_MS = 60000"

record strike_info =
  si_symbol :: string
  si_underlying :: string
  si_expiry :: int
  si_strike :: int
  si_type :: string
  si_bid :: rat
  si_ask :: rat
  si_ltp :: rat
  si_fetched :: int

definition spread_healthy :: "strike_info \<Rightarrow> bool" where
  "spread_healthy i \<longleftrightarrow> 0 < si_bid i \<and> 0 < si_ask i \<and> si_bid i \<le> si_ask i"

definition row_mid :: "strike_info \<Rightarrow> rat" where
  "row_mid i = (if spread_healthy i then round2 (frnd (si_bid i + si_ask i) / 2) else round2 (si_ltp i))"

definition quote_mid :: "bool \<Rightarrow> strike_info \<Rightarrow> rat" where
  "quote_mid allow_stale i = (if spread_healthy i then round2 (frnd (si_bid i + si_ask i) / 2)
     else if allow_stale then round2 (si_ltp i) else 0)"

definition row_age :: "int \<Rightarrow> strike_info \<Rightarrow> int" where
  "row_age now i = max 0 (now - si_fetched i)"

text \<open>The day in Indian time, counted from the epoch.\<close>

definition ist_date :: "int \<Rightarrow> int" where
  "ist_date ms = (ms + 19800000) div 86400000"

subsection \<open>The chain cache\<close>

text \<open>The key of a row: the code joins the four parts with bars, which none of them contains.\<close>

type_synonym row_key = "string \<times> int \<times> int \<times> string"

definition contract_key :: "string \<Rightarrow> int \<Rightarrow> int \<Rightarrow> string \<Rightarrow> row_key" where
  "contract_key u e k t = (map to_upper u, e, k, map to_upper t)"

record chain_cache =
  cc_map :: "(row_key, strike_info) dict"
  cc_last :: int

definition chain_cache_init :: chain_cache where
  "chain_cache_init = \<lparr>cc_map = [], cc_last = 0\<rparr>"

definition ends_with :: "string \<Rightarrow> string \<Rightarrow> bool" where
  "ends_with p s \<longleftrightarrow> length p \<le> length s \<and> drop (length s - length p) s = p"

definition crossed :: "strike_info \<Rightarrow> bool" where
  "crossed i \<longleftrightarrow> si_bid i \<noteq> 0 \<and> si_ask i \<noteq> 0 \<and> si_ask i < si_bid i"

definition chain_lookup :: "int \<Rightarrow> string \<Rightarrow> int \<Rightarrow> int \<Rightarrow> string \<Rightarrow> int \<Rightarrow> bool \<Rightarrow> chain_cache \<Rightarrow> strike_info option" where
  "chain_lookup now u e k t max_age allow_stale c = (case map_of (cc_map c) (contract_key u e k t) of
     None \<Rightarrow> None
   | Some i \<Rightarrow> if ist_date (si_fetched i) \<noteq> ist_date now then None
       else if \<not> allow_stale \<and> max_age < row_age now i then None
       else if si_symbol i = [] \<or> ends_with ''_OPT'' (si_symbol i) then None
       else if \<not> allow_stale \<and> crossed i then None
       else if \<not> allow_stale \<and> \<not> spread_healthy i \<and> \<not> 0 < si_ltp i then None
       else Some i)"

definition find_by_symbol :: "int \<Rightarrow> string \<Rightarrow> int \<Rightarrow> bool \<Rightarrow> chain_cache \<Rightarrow> strike_info option" where
  "find_by_symbol now s max_age allow_stale c = (if strip s = [] then None
     else (case find (\<lambda>i. si_symbol i = strip s) (map snd (cc_map c)) of
         None \<Rightarrow> None
       | Some i \<Rightarrow> if ist_date (si_fetched i) \<noteq> ist_date now then None
           else if \<not> allow_stale \<and> max_age < row_age now i then None
           else if \<not> allow_stale \<and> crossed i then None
           else Some i))"

definition chain_snapshot :: "int \<Rightarrow> chain_cache \<Rightarrow> (row_key, strike_info) dict" where
  "chain_snapshot now c = filter (\<lambda>(k, i). ist_date (si_fetched i) = ist_date now \<and> ist_date now \<le> si_expiry i) (cc_map c)"

definition dead_row :: "int \<Rightarrow> strike_info \<Rightarrow> bool" where
  "dead_row now i \<longleftrightarrow> (let old = REFRESH_INTERVAL_MS < now - si_fetched i; other = ist_date (si_fetched i) \<noteq> ist_date now in
     si_expiry i < ist_date now \<and> (other \<or> old) \<or> other \<and> old)"

definition purge_expired :: "int \<Rightarrow> chain_cache \<Rightarrow> chain_cache \<times> nat" where
  "purge_expired now c = (c\<lparr>cc_map := filter (\<lambda>(k, i). \<not> dead_row now i) (cc_map c)\<rparr>,
     length (filter (\<lambda>(k, i). dead_row now i) (cc_map c)))"

definition put_row :: "strike_info \<Rightarrow> chain_cache \<Rightarrow> chain_cache" where
  "put_row i c = c\<lparr>cc_map := AList.update (contract_key (si_underlying i) (si_expiry i) (si_strike i) (si_type i)) i (cc_map c)\<rparr>"

definition chain_age :: "int \<Rightarrow> chain_cache \<Rightarrow> int" where
  "chain_age now c = (if cc_last c = 0 then - 1 else now - cc_last c)"

definition refresh_due :: "int \<Rightarrow> chain_cache \<Rightarrow> bool" where
  "refresh_due now c \<longleftrightarrow> REFRESH_INTERVAL_MS \<le> now - cc_last c"

definition schedule_refresh :: "int \<Rightarrow> bool \<Rightarrow> chain_cache \<Rightarrow> chain_cache \<times> bool" where
  "schedule_refresh now in_flight c = (if refresh_due now c \<and> \<not> in_flight then (c\<lparr>cc_last := now\<rparr>, True) else (c, False))"

subsection \<open>Marks\<close>

datatype mark_source = CHAIN_BIDASK | CHAIN_LTP | MODEL_BLACK76 | UNAVAILABLE | OTHER_SOURCE

fun source_rank :: "mark_source \<Rightarrow> nat" where
  "source_rank CHAIN_BIDASK = 3"
| "source_rank CHAIN_LTP = 2"
| "source_rank MODEL_BLACK76 = 1"
| "source_rank _ = 0"

definition DEFAULT_TTL_MS :: int where "DEFAULT_TTL_MS = 5000"
definition CHAIN_TTL_MS :: int where "CHAIN_TTL_MS = 90000"
definition MAX_SPREAD_PCT :: rat where "MAX_SPREAD_PCT = 5 / 2"
definition SCALP_MAX_AGE_MS :: int where "SCALP_MAX_AGE_MS = 15000"
definition INTRADAY_MAX_AGE_MS :: int where "INTRADAY_MAX_AGE_MS = 60000"
definition MIN_OI_CONTRACTS :: rat where "MIN_OI_CONTRACTS = 1000"
definition STALE_IV_DTE_DAYS :: rat where "STALE_IV_DTE_DAYS = 1"
definition MAX_SYMBOLS_PER_FETCH :: nat where "MAX_SYMBOLS_PER_FETCH = 50"

record option_mark =
  om_symbol :: string
  om_underlying :: string
  om_strike :: rat
  om_type :: string
  om_expiry :: "int option"
  om_bid :: "rat option"
  om_ask :: "rat option"
  om_ltp :: "rat option"
  om_oi :: "rat option"
  om_volume :: "rat option"
  om_iv :: "rat option"
  om_source :: mark_source
  om_as_of :: int
  om_stale_flag :: bool
  om_dte :: "rat option"

definition is_chain :: "option_mark \<Rightarrow> bool" where
  "is_chain m \<longleftrightarrow> om_source m \<in> {CHAIN_BIDASK, CHAIN_LTP}"

definition is_model :: "option_mark \<Rightarrow> bool" where
  "is_model m \<longleftrightarrow> om_source m = MODEL_BLACK76"

text \<open>Both sides of the book, when they are real and not crossed.\<close>

definition real_book :: "option_mark \<Rightarrow> (rat \<times> rat) option" where
  "real_book m = (case (om_bid m, om_ask m) of
     (Some b, Some a) \<Rightarrow> if 0 < b \<and> 0 < a \<and> b \<le> a then Some (b, a) else None
   | _ \<Rightarrow> None)"

definition mark_mid :: "option_mark \<Rightarrow> rat option" where
  "mark_mid m = map_option (\<lambda>(b, a). round2 (frnd (b + a) / 2)) (real_book m)"

definition mark_price :: "option_mark \<Rightarrow> rat option" where
  "mark_price m = (case mark_mid m of
     Some p \<Rightarrow> if 0 < p then Some p else (case om_ltp m of Some l \<Rightarrow> if 0 < l then Some (round2 l) else None | None \<Rightarrow> None)
   | None \<Rightarrow> (case om_ltp m of Some l \<Rightarrow> if 0 < l then Some (round2 l) else None | None \<Rightarrow> None))"

definition spread_pts :: "option_mark \<Rightarrow> rat option" where
  "spread_pts m = map_option (\<lambda>(b, a). round2 (frnd (a - b))) (real_book m)"

definition mark_spread_pct :: "option_mark \<Rightarrow> rat option" where
  "mark_spread_pct m = (case (spread_pts m, mark_price m) of
     (Some s, Some p) \<Rightarrow> if p \<le> 0 then None else Some (round2 (frnd (frnd (s / p) * 100)))
   | _ \<Rightarrow> None)"

definition executable_buy :: "rat \<Rightarrow> option_mark \<Rightarrow> rat option" where
  "executable_buy slip m = (case om_ask m of None \<Rightarrow> None
     | Some a \<Rightarrow> if 0 < a then Some (round2 (frnd (a + max 0 slip))) else None)"

definition executable_sell :: "rat \<Rightarrow> option_mark \<Rightarrow> rat option" where
  "executable_sell slip m = (case om_bid m of None \<Rightarrow> None
     | Some b \<Rightarrow> if 0 < b then Some (round2 (frnd (b - max 0 slip))) else None)"

definition is_stale_iv :: "option_mark \<Rightarrow> bool" where
  "is_stale_iv m \<longleftrightarrow> is_model m \<and> (om_stale_flag m \<or> (case om_dte m of Some d \<Rightarrow> d \<le> STALE_IV_DTE_DAYS | None \<Rightarrow> False))"

datatype usability = WIDE_SPREAD | LOW_OI | BAD_VOLUME | STALE_IV

definition usability_veto :: "option_mark \<Rightarrow> usability option" where
  "usability_veto m = (
     if (case mark_spread_pct m of Some s \<Rightarrow> MAX_SPREAD_PCT < s | None \<Rightarrow> False) then Some WIDE_SPREAD
     else if (case om_oi m of Some n \<Rightarrow> n < MIN_OI_CONTRACTS | None \<Rightarrow> False) then Some LOW_OI
     else if (case om_volume m of Some v \<Rightarrow> v < 0 | None \<Rightarrow> False) then Some BAD_VOLUME
     else if is_stale_iv m then Some STALE_IV else None)"

definition is_usable :: "option_mark \<Rightarrow> bool" where
  "is_usable m \<longleftrightarrow> om_source m \<noteq> UNAVAILABLE \<and> mark_price m \<noteq> None"

definition mark_age :: "int \<Rightarrow> option_mark \<Rightarrow> int" where
  "mark_age now m = max 0 (now - om_as_of m)"

definition mark_ttl :: "option_mark \<Rightarrow> int" where
  "mark_ttl m = (if is_chain m then CHAIN_TTL_MS else DEFAULT_TTL_MS)"

subsection \<open>The registry of marks\<close>

record mark_registry =
  mk_marks :: "(string, option_mark) dict"
  mk_writes :: nat

definition marks_init :: mark_registry where
  "marks_init = \<lparr>mk_marks = [], mk_writes = 0\<rparr>"

text \<open>An offered mark replaces the stored one unless its source is worse, or equal and it is older.\<close>

definition outranked :: "option_mark \<Rightarrow> option_mark \<Rightarrow> bool" where
  "outranked m cur \<longleftrightarrow> source_rank (om_source m) < source_rank (om_source cur)
     \<or> source_rank (om_source m) = source_rank (om_source cur) \<and> om_as_of m < om_as_of cur"

definition put_mark :: "option_mark \<Rightarrow> mark_registry \<Rightarrow> mark_registry \<times> bool" where
  "put_mark m r = (if om_symbol m = [] then (r, False)
     else (let s = strip (om_symbol m); n = m\<lparr>om_symbol := s\<rparr> in
       if (case map_of (mk_marks r) s of Some cur \<Rightarrow> outranked n cur | None \<Rightarrow> False) then (r, False)
       else (r\<lparr>mk_marks := AList.update s n (mk_marks r), mk_writes := mk_writes r + 1\<rparr>, True)))"

definition put_marks :: "option_mark list \<Rightarrow> mark_registry \<Rightarrow> mark_registry" where
  "put_marks ms r = foldl (\<lambda>r m. fst (put_mark m r)) r ms"

definition get_mark :: "string \<Rightarrow> mark_registry \<Rightarrow> option_mark option" where
  "get_mark s r = (if s = [] then None else map_of (mk_marks r) (strip s))"

record mark_query =
  mq_ttl :: "int option"
  mq_allow_model :: bool
  mq_desk :: string
  mq_max_spread :: "rat option"
  mq_min_oi :: "rat option"
  mq_min_volume :: "rat option"

definition default_query :: mark_query where
  "default_query = \<lparr>mq_ttl = None, mq_allow_model = True, mq_desk = [], mq_max_spread = Some MAX_SPREAD_PCT, mq_min_oi = None,
     mq_min_volume = None\<rparr>"

definition effective_ttl :: "mark_query \<Rightarrow> option_mark \<Rightarrow> int" where
  "effective_ttl q m = (let t = or_else (mq_ttl q) (mark_ttl m); d = map to_upper (mq_desk q) in
     if d = ''SCALP'' then min t (or_else (mq_ttl q) SCALP_MAX_AGE_MS)
     else if d \<in> {''INTRADAY'', ''SWING'', ''POSITIONAL''} then min t (or_else (mq_ttl q) INTRADAY_MAX_AGE_MS)
     else t)"

definition above_limit :: "rat option \<Rightarrow> rat option \<Rightarrow> bool" where
  "above_limit limit v \<longleftrightarrow> (case (limit, v) of (Some l, Some x) \<Rightarrow> l < x | _ \<Rightarrow> False)"

definition below_limit :: "rat option \<Rightarrow> rat option \<Rightarrow> bool" where
  "below_limit limit v \<longleftrightarrow> (case (limit, v) of (Some l, Some x) \<Rightarrow> x < l | _ \<Rightarrow> False)"

definition get_usable :: "int \<Rightarrow> mark_query \<Rightarrow> string \<Rightarrow> mark_registry \<Rightarrow> option_mark option" where
  "get_usable now q s r = (case get_mark s r of None \<Rightarrow> None
     | Some m \<Rightarrow> if \<not> is_usable m then None
         else if \<not> mq_allow_model q \<and> is_model m then None
         else if effective_ttl q m < mark_age now m then None
         else if above_limit (mq_max_spread q) (mark_spread_pct m) then None
         else if below_limit (mq_min_oi q) (om_oi m) \<or> below_limit (mq_min_volume q) (om_volume m) then None
         else if is_stale_iv m then None
         else if usability_veto m \<in> {Some WIDE_SPREAD, Some STALE_IV} then None
         else Some m)"

definition mark_count :: "mark_source \<Rightarrow> mark_registry \<Rightarrow> nat" where
  "mark_count src r = length (filter (\<lambda>m. om_source m = src) (map snd (mk_marks r)))"

subsection \<open>The service\<close>

text \<open>\<open>x or None\<close> of a number.\<close>

definition nonzero :: "rat \<Rightarrow> rat option" where
  "nonzero x = (if x = 0 then None else Some x)"

text \<open>A chain row as a mark; the rows of the cache carry no open interest, volume or implied volatility.\<close>

definition mark_of_row :: "int \<Rightarrow> strike_info \<Rightarrow> option_mark" where
  "mark_of_row now i = \<lparr>om_symbol = strip (si_symbol i), om_underlying = si_underlying i, om_strike = of_int (si_strike i),
     om_type = si_type i, om_expiry = Some (si_expiry i), om_bid = nonzero (si_bid i), om_ask = nonzero (si_ask i),
     om_ltp = nonzero (si_ltp i), om_oi = None, om_volume = None, om_iv = None,
     om_source = (if si_bid i \<noteq> 0 \<and> si_ask i \<noteq> 0 then CHAIN_BIDASK else CHAIN_LTP),
     om_as_of = (if si_fetched i = 0 then now else si_fetched i), om_stale_flag = False, om_dte = None\<rparr>"

definition register_chain_strike :: "int \<Rightarrow> strike_info \<Rightarrow> mark_registry \<Rightarrow> mark_registry \<times> option_mark option" where
  "register_chain_strike now i r = (let m = mark_of_row now i in
     if om_symbol m = [] \<or> mark_price m = None then (r, None) else (fst (put_mark m r), Some m))"

text \<open>A quote of the quote service, and the batches it is asked in; a batch that fails is skipped.\<close>

record option_quote =
  oq_ltp :: "rat option"
  oq_oi :: "rat option"
  oq_volume :: "rat option"

definition upgrade_with_chain :: "int \<Rightarrow> chain_cache \<Rightarrow> option_mark \<Rightarrow> option_mark" where
  "upgrade_with_chain now c m = (case find_by_symbol now (om_symbol m) CHAIN_ROW_MAX_AGE_MS False c of None \<Rightarrow> m
     | Some i \<Rightarrow> (let n = m\<lparr>om_bid := nonzero (si_bid i), om_ask := nonzero (si_ask i),
           om_underlying := (if om_underlying m = [] then si_underlying i else om_underlying m),
           om_strike := (if om_strike m = 0 then of_int (si_strike i) else om_strike m),
           om_type := (if om_type m = [] then si_type i else om_type m),
           om_expiry := (case om_expiry m of None \<Rightarrow> Some (si_expiry i) | e \<Rightarrow> e)\<rparr> in
         (if mark_mid n \<noteq> None then n\<lparr>om_source := CHAIN_BIDASK\<rparr> else n)
           \<lparr>om_ltp := (if om_ltp n = None \<and> 0 < si_ltp i then Some (round2 (si_ltp i)) else om_ltp n)\<rparr>))"

definition quote_mark :: "int \<Rightarrow> chain_cache \<Rightarrow> string \<times> option_quote \<Rightarrow> option_mark option" where
  "quote_mark now c = (\<lambda>(s, q). case oq_ltp q of None \<Rightarrow> None
     | Some l \<Rightarrow> if l \<le> 0 then None
         else Some (upgrade_with_chain now c \<lparr>om_symbol = s, om_underlying = [], om_strike = 0, om_type = [], om_expiry = None,
           om_bid = None, om_ask = None, om_ltp = Some (round2 l), om_oi = oq_oi q, om_volume = oq_volume q, om_iv = None,
           om_source = CHAIN_LTP, om_as_of = now, om_stale_flag = False, om_dte = None\<rparr>))"

fun batches :: "nat \<Rightarrow> 'a list \<Rightarrow> 'a list list" where
  "batches n [] = []"
| "batches n (x # xs) = take (Suc (n - 1)) (x # xs) # batches n (drop (n - 1) xs)"

type_synonym quote_service = "string list \<Rightarrow> (string \<times> option_quote) list option"

definition fetch_chain_marks :: "int \<Rightarrow> quote_service \<Rightarrow> chain_cache \<Rightarrow> string list \<Rightarrow> (string, option_mark) dict" where
  "fetch_chain_marks now fetch c syms = foldl (\<lambda>d (s, m). AList.update s m d) []
     (concat (map (\<lambda>b. List.map_filter (\<lambda>(s, q). map_option (Pair s) (quote_mark now c (s, q))) (or_else (fetch b) []))
       (batches MAX_SYMBOLS_PER_FETCH (filter (\<lambda>s. s \<noteq> []) (map strip syms)))))"

definition refresh_and_register :: "int \<Rightarrow> quote_service \<Rightarrow> chain_cache \<Rightarrow> string list \<Rightarrow> mark_registry \<Rightarrow> mark_registry" where
  "refresh_and_register now fetch c syms r = put_marks (map snd (fetch_chain_marks now fetch c syms)) r"

text \<open>The model mark; the premium is the answer of the model, \<open>None\<close> when it fails.\<close>

definition unavailable_mark :: "int \<Rightarrow> string \<Rightarrow> option_mark" where
  "unavailable_mark now s = \<lparr>om_symbol = s, om_underlying = [], om_strike = 0, om_type = [], om_expiry = None, om_bid = None,
     om_ask = None, om_ltp = None, om_oi = None, om_volume = None, om_iv = None, om_source = UNAVAILABLE, om_as_of = now,
     om_stale_flag = False, om_dte = None\<rparr>"

definition model_mark ::
  "int \<Rightarrow> rat option \<Rightarrow> rat \<Rightarrow> string \<Rightarrow> rat \<Rightarrow> string \<Rightarrow> string \<Rightarrow> int option \<Rightarrow> bool \<Rightarrow> mark_registry \<Rightarrow> mark_registry \<times> option_mark" where
  "model_mark now premium dte s k t u e register r = (case premium of
     None \<Rightarrow> (r, unavailable_mark now s)
   | Some p \<Rightarrow> (let m = \<lparr>om_symbol = s, om_underlying = u, om_strike = k, om_type = t, om_expiry = e, om_bid = None, om_ask = None,
         om_ltp = (if 0 < p then Some (round2 p) else None), om_oi = None, om_volume = None, om_iv = None, om_source = MODEL_BLACK76,
         om_as_of = now, om_stale_flag = (dte \<le> STALE_IV_DTE_DAYS), om_dte = (if 0 \<le> dte then Some dte else None)\<rparr> in
       if register \<and> is_usable m then (fst (put_mark m r), m) else (r, m)))"

text \<open>The contract terms of an audit record.\<close>

record audit_ref =
  ar_symbol :: string
  ar_underlying :: string
  ar_strike :: rat
  ar_type :: string
  ar_expiry :: "int option"
  ar_spot :: rat

definition resolve_symbol :: "int \<Rightarrow> chain_cache \<Rightarrow> audit_ref \<Rightarrow> string" where
  "resolve_symbol now c a = (let s = strip (ar_symbol a); k = rat_trunc (ar_strike a); t = map to_upper (ar_type a) in
     if s \<noteq> [] then s
     else (case ar_expiry a of None \<Rightarrow> []
       | Some e \<Rightarrow> if 0 < k \<and> t \<in> {''CE'', ''PE''}
           then (case chain_lookup now (ar_underlying a) e k t CHAIN_ROW_MAX_AGE_MS False c of Some i \<Rightarrow> si_symbol i | None \<Rightarrow> []) else []))"

definition chain_or_model :: "int \<Rightarrow> (rat \<Rightarrow> rat option) \<Rightarrow> rat \<Rightarrow> bool \<Rightarrow> bool \<Rightarrow> audit_ref \<Rightarrow> string \<Rightarrow> mark_registry \<Rightarrow> mark_registry \<times> option_mark" where
  "chain_or_model now premium spot allow_model register a s r = (let ref = (if spot = 0 then ar_spot a else spot) in
     if \<not> allow_model then (r, unavailable_mark now s)
     else if ar_strike a \<le> 0 \<or> ar_type a = [] \<or> ref \<le> 0 then (r, unavailable_mark now s)
     else model_mark now (premium ref) 3 s (ar_strike a) (ar_type a) (ar_underlying a) (ar_expiry a) register r)"

definition mark_for_record ::
  "int \<Rightarrow> (rat \<Rightarrow> rat option) \<Rightarrow> rat \<Rightarrow> bool \<Rightarrow> bool \<Rightarrow> audit_ref \<Rightarrow> chain_cache \<Rightarrow> mark_registry \<Rightarrow> mark_registry \<times> option_mark" where
  "mark_for_record now premium spot allow_model register a c r = (let s = resolve_symbol now c a in
     if s = [] then (r, unavailable_mark now [])
     else (case get_usable now (default_query\<lparr>mq_allow_model := False\<rparr>) s r of
         Some m \<Rightarrow> (r, m)
       | None \<Rightarrow> (case find_by_symbol now s CHAIN_ROW_MAX_AGE_MS False c of
             None \<Rightarrow> chain_or_model now premium spot allow_model register a s r
           | Some i \<Rightarrow> (case register_chain_strike now i r of
                 (r', Some m) \<Rightarrow> if is_usable m then (r', m) else chain_or_model now premium spot allow_model register a s r'
               | (r', None) \<Rightarrow> chain_or_model now premium spot allow_model register a s r'))))"

subsection \<open>Refreshing the chain\<close>

record chain_row =
  cr_symbol :: string
  cr_expiry :: "int option"
  cr_strike :: rat
  cr_type :: string
  cr_bid :: rat
  cr_ask :: rat
  cr_ltp :: rat

definition row_of_chain :: "int \<Rightarrow> string \<Rightarrow> chain_row \<Rightarrow> strike_info option" where
  "row_of_chain now u q = (let s = strip (cr_symbol q); k = rat_trunc (cr_strike q); t = map to_upper (cr_type q) in
     if s = [] \<or> CHR '':'' \<notin> set s \<or> ends_with ''_OPT'' s then None
     else (case cr_expiry q of None \<Rightarrow> None
       | Some e \<Rightarrow> if k \<le> 0 \<or> t \<notin> {''CE'', ''PE''} then None
           else Some \<lparr>si_symbol = s, si_underlying = u, si_expiry = e, si_strike = k, si_type = t, si_bid = cr_bid q, si_ask = cr_ask q,
             si_ltp = cr_ltp q, si_fetched = now\<rparr>))"

type_synonym price_desk = "chain_cache \<times> mark_registry"

definition take_row :: "int \<Rightarrow> strike_info \<Rightarrow> price_desk \<Rightarrow> price_desk" where
  "take_row now i = (\<lambda>(c, r). (put_row i c, fst (register_chain_strike now i r)))"

definition take_chain :: "string \<times> int \<times> chain_row list option \<Rightarrow> price_desk \<Rightarrow> price_desk" where
  "take_chain = (\<lambda>(u, now, rows) d. foldl (\<lambda>d i. take_row now i d) d (List.map_filter (row_of_chain now u) (or_else rows [])))"

definition refresh_chain :: "(string \<times> int \<times> chain_row list option) list \<Rightarrow> int \<Rightarrow> price_desk \<Rightarrow> price_desk" where
  "refresh_chain answers now d = (case foldl (\<lambda>d a. take_chain a d) d answers of
     (c, r) \<Rightarrow> (fst (purge_expired now (c\<lparr>cc_last := now\<rparr>)), r))"

definition register_mark_info :: "int \<Rightarrow> string \<Rightarrow> int \<Rightarrow> int \<Rightarrow> string \<Rightarrow> rat \<Rightarrow> rat \<Rightarrow> rat \<Rightarrow> string \<Rightarrow> price_desk \<Rightarrow> price_desk" where
  "register_mark_info now u e k t bid ask ltp s d = (let t' = map to_upper t in
     if strip s = [] \<or> k \<le> 0 \<or> t' \<notin> {''CE'', ''PE''} then d
     else take_row now \<lparr>si_symbol = strip s, si_underlying = map to_upper u, si_expiry = e, si_strike = k, si_type = t', si_bid = bid,
       si_ask = ask, si_ltp = ltp, si_fetched = now\<rparr> d)"

subsection \<open>The best mark is kept\<close>

definition offered :: "string \<Rightarrow> option_mark \<Rightarrow> bool" where
  "offered k m \<longleftrightarrow> om_symbol m \<noteq> [] \<and> strip (om_symbol m) = k"

definition best_of :: "string \<Rightarrow> option_mark list \<Rightarrow> option_mark option \<Rightarrow> bool" where
  "best_of k ms b \<longleftrightarrow> (case b of
     None \<Rightarrow> \<forall>n \<in> set ms. \<not> offered k n
   | Some m \<Rightarrow> (\<exists>n \<in> set ms. offered k n \<and> m = n\<lparr>om_symbol := k\<rparr>) \<and> (\<forall>n \<in> set ms. offered k n \<longrightarrow> \<not> outranked m n))"

lemma outranked_trans: "\<not> outranked a b \<Longrightarrow> \<not> outranked b c \<Longrightarrow> \<not> outranked a c"
  unfolding outranked_def by linarith

lemma outranked_symbol [simp]: "outranked (m\<lparr>om_symbol := k\<rparr>) n = outranked m n" "outranked n (m\<lparr>om_symbol := k\<rparr>) = outranked n m"
  by (simp_all add: outranked_def)

lemma outranked_linear: "outranked m n \<Longrightarrow> \<not> outranked n m" "\<not> outranked m m"
  unfolding outranked_def by linarith+

lemma best_of_snoc:
  assumes "best_of k ms b"
  shows "best_of k (ms @ [m]) (if offered k m \<and> (case b of Some cur \<Rightarrow> \<not> outranked m cur | None \<Rightarrow> True) then Some (m\<lparr>om_symbol := k\<rparr>) else b)"
proof (cases b)
  case None
  then show ?thesis using assms by (auto simp: best_of_def outranked_linear)
next
  case (Some cur)
  show ?thesis
  proof (cases "offered k m \<and> \<not> outranked m cur")
    case True
    then have "\<not> outranked m n" if "n \<in> set ms" "offered k n" for n
      using that assms outranked_trans [of m cur n] by (auto simp: best_of_def Some)
    then show ?thesis using True by (auto simp: best_of_def Some outranked_linear)
  next
    case False
    then show ?thesis using assms outranked_linear(1) [of m cur] by (auto simp: best_of_def Some)
  qed
qed

lemma put_mark_get:
  "map_of (mk_marks (fst (put_mark m r))) k =
    (if offered k m \<and> (case map_of (mk_marks r) k of Some cur \<Rightarrow> \<not> outranked m cur | None \<Rightarrow> True)
     then Some (m\<lparr>om_symbol := k\<rparr>) else map_of (mk_marks r) k)"
  by (auto simp: put_mark_def Let_def offered_def dict_simps split: option.splits)

lemma registry_best: "best_of k ms (map_of (mk_marks (put_marks ms marks_init)) k)"
proof (induction ms rule: rev_induct)
  case Nil
  show ?case by (simp add: best_of_def put_marks_def marks_init_def)
next
  case (snoc m ms)
  have "put_marks (ms @ [m]) marks_init = fst (put_mark m (put_marks ms marks_init))" by (simp add: put_marks_def)
  with best_of_snoc [OF snoc, of m] show ?case by (simp add: put_mark_get)
qed

text \<open>
  C38. Whatever marks are offered to the registry in whatever order, it answers for a contract with one of the marks
  offered for it, and none of the others has a better source, or the same source and a later time; it has no answer
  only when none was offered. So a model price never replaces a price of the chain.
\<close>

theorem best_mark_kept:
  assumes "s \<noteq> []"
  shows "case get_mark s (put_marks ms marks_init) of
      None \<Rightarrow> \<forall>n \<in> set ms. \<not> offered (strip s) n
    | Some m \<Rightarrow> (\<exists>n \<in> set ms. offered (strip s) n \<and> m = n\<lparr>om_symbol := strip s\<rparr>)
        \<and> (\<forall>n \<in> set ms. offered (strip s) n \<longrightarrow> source_rank (om_source n) < source_rank (om_source m)
             \<or> source_rank (om_source n) = source_rank (om_source m) \<and> om_as_of n \<le> om_as_of m)"
  using registry_best [of "strip s" ms] assms
  by (auto simp: best_of_def get_mark_def outranked_def not_less split: option.splits dest: order_antisym)

definition demo_mark :: "mark_source \<Rightarrow> int \<Rightarrow> option_mark" where
  "demo_mark src t = (unavailable_mark t ''NSE:X'')\<lparr>om_source := src, om_ltp := Some 100, om_bid := Some 99, om_ask := Some 101\<rparr>"

theorem best_mark_kept_witness:
  "get_mark ''NSE:X'' (put_marks [demo_mark CHAIN_BIDASK 5, demo_mark MODEL_BLACK76 9] marks_init) = Some (demo_mark CHAIN_BIDASK 5)"
proof -
  have s: "strip ''NSE:X'' = ''NSE:X''" by code_simp
  have f: "offered ''NSE:X'' (demo_mark src t)" "om_source (demo_mark src t) = src" "(demo_mark src t)\<lparr>om_symbol := ''NSE:X''\<rparr> = demo_mark src t" for src t
    by (simp_all add: offered_def demo_mark_def unavailable_mark_def s)
  let ?ms = "[demo_mark CHAIN_BIDASK 5, demo_mark MODEL_BLACK76 9]"
  have n: "''NSE:X'' \<noteq> []" by simp
  show ?thesis
  proof (cases "get_mark ''NSE:X'' (put_marks ?ms marks_init)")
    case None
    have "\<forall>n \<in> set ?ms. \<not> offered ''NSE:X'' n" using best_mark_kept [OF n, of ?ms, unfolded None s option.case] .
    then show ?thesis using f(1) by simp
  next
    case (Some m)
    have m: "(\<exists>n \<in> set ?ms. offered ''NSE:X'' n \<and> m = n\<lparr>om_symbol := ''NSE:X''\<rparr>)
        \<and> (\<forall>n \<in> set ?ms. offered ''NSE:X'' n \<longrightarrow> source_rank (om_source n) < source_rank (om_source m)
             \<or> source_rank (om_source n) = source_rank (om_source m) \<and> om_as_of n \<le> om_as_of m)"
      using best_mark_kept [OF n, of ?ms, unfolded Some s option.case] .
    from conjunct1 [OF m] have "m = demo_mark CHAIN_BIDASK 5 \<or> m = demo_mark MODEL_BLACK76 9" by (simp add: f)
    moreover have "3 \<le> source_rank (om_source m)" using bspec [OF conjunct2 [OF m], of "demo_mark CHAIN_BIDASK 5"] f(1,2) by fastforce
    ultimately show ?thesis using Some f(2) by auto
  qed
qed

subsection \<open>What a usable mark promises\<close>

text \<open>
  A mark that the registry hands out as usable has a price, a source other than unavailable, an age within the
  limit of its source (90 seconds for the chain, 5 for anything else) and of the desk, a spread of at most two and a
  half per cent when the book is known, no stale model volatility, and it is never a model mark when the caller
  disallows them.
\<close>

theorem usable_mark_sound:
  assumes "get_usable now q s r = Some m" "mq_ttl q = None"
  shows "mark_price m \<noteq> None \<and> om_source m \<noteq> UNAVAILABLE
    \<and> now - om_as_of m \<le> (if is_chain m then 90000 else 5000)
    \<and> (map to_upper (mq_desk q) = ''SCALP'' \<longrightarrow> now - om_as_of m \<le> 15000)
    \<and> (map to_upper (mq_desk q) \<in> {''INTRADAY'', ''SWING'', ''POSITIONAL''} \<longrightarrow> now - om_as_of m \<le> 60000)
    \<and> (\<forall>p. mark_spread_pct m = Some p \<longrightarrow> p \<le> 5 / 2) \<and> \<not> is_stale_iv m
    \<and> (\<not> mq_allow_model q \<longrightarrow> \<not> is_model m)"
proof -
  have u: "is_usable m" "mq_allow_model q \<or> \<not> is_model m" "mark_age now m \<le> effective_ttl q m" "\<not> is_stale_iv m"
      "usability_veto m \<noteq> Some WIDE_SPREAD"
    using assms(1) by (auto simp: get_usable_def split: option.splits if_splits)
  have t: "now - om_as_of m \<le> effective_ttl q m" using u(3) by (simp add: mark_age_def)
  have "effective_ttl q m \<le> (if is_chain m then 90000 else 5000)"
    by (simp add: effective_ttl_def assms(2) mark_ttl_def CHAIN_TTL_MS_def DEFAULT_TTL_MS_def Let_def)
  moreover have "map to_upper (mq_desk q) = ''SCALP'' \<Longrightarrow> effective_ttl q m \<le> 15000"
    by (simp add: effective_ttl_def assms(2) SCALP_MAX_AGE_MS_def)
  moreover have "map to_upper (mq_desk q) \<in> {''INTRADAY'', ''SWING'', ''POSITIONAL''} \<Longrightarrow> effective_ttl q m \<le> 60000"
    by (auto simp: effective_ttl_def assms(2) INTRADAY_MAX_AGE_MS_def)
  moreover have "\<forall>p. mark_spread_pct m = Some p \<longrightarrow> p \<le> 5 / 2"
    using u(5) by (auto simp: usability_veto_def MAX_SPREAD_PCT_def not_less split: option.splits if_splits)
  ultimately show ?thesis using t u unfolding is_usable_def by auto
qed

lemma demo_mark_facts:
  "mark_price (demo_mark CHAIN_BIDASK 5) = Some 100" "mark_spread_pct (demo_mark CHAIN_BIDASK 5) = Some 2"
  "om_source (demo_mark CHAIN_BIDASK 5) = CHAIN_BIDASK" "om_as_of (demo_mark CHAIN_BIDASK 5) = 5"
proof -
  let ?m = "demo_mark CHAIN_BIDASK 5"
  have n: "round2 (frnd (99 + 101) / 2) = 100" "round2 (frnd (101 - 99)) = 2" "round2 (frnd (frnd (2 / 100) * 100)) = 2" by code_simp+
  have b: "real_book ?m = Some (99, 101)" by (simp add: real_book_def demo_mark_def unavailable_mark_def)
  show "mark_price ?m = Some 100" "mark_spread_pct ?m = Some 2"
    using n by (simp_all add: mark_price_def mark_mid_def mark_spread_pct_def spread_pts_def b)
  show "om_source ?m = CHAIN_BIDASK" "om_as_of ?m = 5" by (simp_all add: demo_mark_def unavailable_mark_def)
qed

lemma demo_mark_stored: "get_mark ''NSE:X'' (put_marks [demo_mark CHAIN_BIDASK 5] marks_init) = Some (demo_mark CHAIN_BIDASK 5)"
proof -
  have "strip ''NSE:X'' = ''NSE:X''" by code_simp
  then show ?thesis
    by (simp add: get_mark_def put_marks_def put_mark_def marks_init_def demo_mark_def unavailable_mark_def Let_def)
qed

lemma demo_mark_usable:
  assumes "mark_age now (demo_mark CHAIN_BIDASK 5) \<le> effective_ttl q (demo_mark CHAIN_BIDASK 5)" "mq_max_spread q = Some (5 / 2)"
  shows "get_usable now q ''NSE:X'' (put_marks [demo_mark CHAIN_BIDASK 5] marks_init) = Some (demo_mark CHAIN_BIDASK 5)"
proof -
  let ?m = "demo_mark CHAIN_BIDASK 5"
  have i: "\<not> is_stale_iv ?m" "\<not> is_model ?m" "usability_veto ?m \<notin> {Some WIDE_SPREAD, Some STALE_IV}" "is_usable ?m"
    by (simp_all add: is_stale_iv_def is_model_def usability_veto_def demo_mark_facts MAX_SPREAD_PCT_def is_usable_def)
  have "om_oi ?m = None" "om_volume ?m = None" by (simp_all add: demo_mark_def unavailable_mark_def)
  then have "\<not> above_limit (mq_max_spread q) (mark_spread_pct ?m)" "\<not> below_limit (mq_min_oi q) (om_oi ?m)" "\<not> below_limit (mq_min_volume q) (om_volume ?m)"
    by (simp_all add: above_limit_def below_limit_def assms(2) demo_mark_facts split: option.splits)
  then show ?thesis unfolding get_usable_def demo_mark_stored option.case using i assms(1) by simp
qed

lemma usable_mark_sound_witness:
  "mark_price (demo_mark CHAIN_BIDASK 5) \<noteq> None \<and> get_usable 15000 default_query ''NSE:X'' (put_marks [demo_mark CHAIN_BIDASK 5] marks_init) \<noteq> None"
proof -
  have "get_usable 15000 default_query ''NSE:X'' (put_marks [demo_mark CHAIN_BIDASK 5] marks_init) = Some (demo_mark CHAIN_BIDASK 5)"
    by (rule demo_mark_usable) (simp_all add: effective_ttl_def default_query_def mark_ttl_def is_chain_def CHAIN_TTL_MS_def
        mark_age_def demo_mark_facts MAX_SPREAD_PCT_def)
  from this usable_mark_sound [OF this] show ?thesis by (simp add: default_query_def)
qed

subsection \<open>What the chain cache serves\<close>

text \<open>
  A row that the cache serves as live was fetched on the same day in Indian time and within the given age, its
  book is not crossed, and it has a healthy book or a traded price; a symbol of an earlier session is never served.
\<close>

theorem served_row_live:
  assumes "chain_lookup now u e k t max_age False c = Some i"
  shows "ist_date (si_fetched i) = ist_date now \<and> now - si_fetched i \<le> max_age \<and> \<not> crossed i
    \<and> (spread_healthy i \<or> 0 < si_ltp i) \<and> map_of (cc_map c) (contract_key u e k t) = Some i"
  using assms by (auto simp: chain_lookup_def row_age_def split: option.splits if_splits)

text \<open>A refresh in which every chain failed keeps the rows it had and still reports the chain as just refreshed.\<close>

lemma failed_refresh_looks_fresh:
  assumes "\<forall>a \<in> set answers. snd (snd a) = None" "now \<noteq> 0"
  shows "cc_map (fst (refresh_chain answers now (c, r))) = cc_map (fst (purge_expired now c))
    \<and> chain_age now (fst (refresh_chain answers now (c, r))) = 0"
proof -
  have "foldl (\<lambda>d a. take_chain a d) d answers = d" for d
    using assms(1) by (induction answers arbitrary: d) (auto simp: take_chain_def)
  then show ?thesis using assms(2) by (simp add: refresh_chain_def purge_expired_def chain_age_def)
qed

text \<open>
  A book that went stale blocks its contract: the newer traded price of the quote service is refused, because its
  source ranks lower, and the stale book is too old to be used.
\<close>

lemma stale_book_blocks_prices:
  assumes "get_mark s r = Some cur" "om_source cur = CHAIN_BIDASK" "om_as_of cur + 90000 < now" "mq_ttl q = None"
    and "om_source m = CHAIN_LTP" "strip (om_symbol m) = strip s"
  shows "get_usable now q s (fst (put_mark m r)) = None"
proof -
  have s: "s \<noteq> []" "map_of (mk_marks r) (strip s) = Some cur" using assms(1) by (auto simp: get_mark_def split: if_splits)
  have "outranked m cur" using assms(2,5) by (simp add: outranked_def)
  then have "fst (put_mark m r) = r" using s(2) assms(6) by (simp add: put_mark_def Let_def)
  moreover have "effective_ttl q cur < mark_age now cur"
    using assms(2-4) by (auto simp: effective_ttl_def mark_ttl_def is_chain_def CHAIN_TTL_MS_def mark_age_def Let_def)
  ultimately show ?thesis using assms(1) by (auto simp: get_usable_def)
qed

text \<open>A chain refresh does replace a newer traded price by an older book.\<close>

lemma older_book_replaces:
  assumes "map_of (mk_marks r) (strip (om_symbol m)) = Some cur" "om_source cur = CHAIN_LTP" "om_source m = CHAIN_BIDASK" "om_symbol m \<noteq> []"
  shows "snd (put_mark m r)"
  using assms by (simp add: put_mark_def Let_def outranked_def)

text \<open>A crossed book is labelled as the best source, although there is no middle price to take from it.\<close>

lemma crossed_book_ranks_best:
  assumes "crossed i" "0 < si_ask i"
  shows "om_source (mark_of_row now i) = CHAIN_BIDASK \<and> mark_mid (mark_of_row now i) = None"
  using assms by (auto simp: crossed_def mark_of_row_def mark_mid_def real_book_def nonzero_def)

end
