(* ===== verification/Droid_Costs.thy ===== *)
theory Droid_Costs
  imports Droid_Rounding
begin

text \<open>
  The cost schedule of an option trade: the rates of \<open>signals/transaction_costs.py\<close>, the round-trip costs of
  \<open>options_intelligence/path_simulator.py\<close> and the friction of an assignment at expiry. Amounts are floats.
\<close>

definition STT_SELL_RATE :: rat where "STT_SELL_RATE = frnd (1 / 1000)"
definition EXCHANGE_TXN_RATE :: rat where "EXCHANGE_TXN_RATE = frnd (5 / 10000)"
definition GST_RATE :: rat where "GST_RATE = frnd (18 / 100)"
definition SEBI_RATE :: rat where "SEBI_RATE = frnd (1 / 1000000)"
definition STAMP_BUY_RATE :: rat where "STAMP_BUY_RATE = frnd (3 / 100000)"
definition STT_EXERCISE_RATE :: rat where "STT_EXERCISE_RATE = frnd (125 / 100000)"

text \<open>The statutory part, the market part and the total of a round trip, for a spread and a slippage in points.\<close>

record option_costs =
  cb_statutory :: rat
  cb_market :: rat
  cb_total :: rat

definition calculate_total_costs :: "rat \<Rightarrow> rat \<Rightarrow> rat \<Rightarrow> rat \<Rightarrow> int \<Rightarrow> option_costs" where
  "calculate_total_costs spread slip entry exit_px qty = (
     if qty \<le> 0 \<or> entry \<le> 0 then \<lparr>cb_statutory = 0, cb_market = 0, cb_total = 0\<rparr> else
     (let buy = frnd (entry * of_int qty); sell = frnd (max 0 exit_px * of_int qty); total = frnd (buy + sell);
          stt = frnd (sell * STT_SELL_RATE); exch = frnd (total * EXCHANGE_TXN_RATE);
          gst = frnd (frnd (40 + exch) * GST_RATE); sebi = frnd (total * SEBI_RATE); stamp = frnd (buy * STAMP_BUY_RATE);
          statutory = round2 (frnd (frnd (frnd (frnd (frnd (40 + stt) + exch) + gst) + sebi) + stamp));
          market = round2 (frnd (frnd (spread + frnd (slip * 2)) * of_int qty))
      in \<lparr>cb_statutory = statutory, cb_market = market, cb_total = round2 (frnd (statutory + market))\<rparr>))"

text \<open>The defaults of the schedule: a spread of one point and a slippage of half a point.\<close>

definition default_costs :: "rat \<Rightarrow> rat \<Rightarrow> int \<Rightarrow> option_costs" where
  "default_costs entry exit_px qty = calculate_total_costs 1 (1 / 2) entry exit_px qty"

definition assignment_friction :: "rat \<Rightarrow> int \<Rightarrow> int \<Rightarrow> rat" where
  "assignment_friction intrinsic lots lot = (let
      turnover = frnd (max 0 intrinsic * of_int (max 1 lots * max 1 lot));
      stt = frnd (STT_EXERCISE_RATE * turnover); txn = frnd (EXCHANGE_TXN_RATE * turnover); sebi = frnd (SEBI_RATE * turnover);
      gst = frnd (GST_RATE * txn) in
     round2 (frnd (frnd (frnd (stt + txn) + sebi) + gst)))"

end
