(* ===== verification/Droid_LivePosition.thy ===== *)
theory Droid_LivePosition
  imports Droid_Greeks Droid_Marks Droid_Costs
begin

text \<open>
  \<open>backend/app/signals/position.py\<close>: the position of a signal, its life cycle with the costs of
  \<open>options_intelligence/path_simulator.py\<close> and \<open>transaction_costs.py\<close>, and the registry that mirrors open positions
  into the ledger of \<open>portfolio_greeks.py\<close>. The entry price comes from the registry of marks. Prices are decimals of
  at most 15 digits, so that the text of their float reads back as the same number; an amount rounded to two
  places is then the decimal of the same two places. The clock reading of a call is an argument.
\<close>

subsection \<open>States\<close>

datatype live_state = LIVE_OPEN | LIVE_PARTIALLY_FILLED | LIVE_T1_EXIT | LIVE_T2_EXIT | LIVE_STOP_LOSS | LIVE_TIME_STOP
  | LIVE_ASSIGNED | LIVE_EXPIRED | LIVE_CLOSED

fun live_transitions :: "live_state \<Rightarrow> live_state list" where
  "live_transitions LIVE_OPEN = [LIVE_PARTIALLY_FILLED, LIVE_T1_EXIT, LIVE_T2_EXIT, LIVE_STOP_LOSS, LIVE_TIME_STOP, LIVE_ASSIGNED, LIVE_EXPIRED, LIVE_CLOSED]"
| "live_transitions LIVE_PARTIALLY_FILLED = [LIVE_OPEN, LIVE_T1_EXIT, LIVE_T2_EXIT, LIVE_STOP_LOSS, LIVE_TIME_STOP, LIVE_ASSIGNED, LIVE_EXPIRED, LIVE_CLOSED]"
| "live_transitions LIVE_T1_EXIT = [LIVE_T2_EXIT, LIVE_STOP_LOSS, LIVE_TIME_STOP, LIVE_ASSIGNED, LIVE_EXPIRED, LIVE_CLOSED]"
| "live_transitions LIVE_T2_EXIT = [LIVE_CLOSED]"
| "live_transitions LIVE_STOP_LOSS = [LIVE_CLOSED]"
| "live_transitions LIVE_TIME_STOP = [LIVE_CLOSED]"
| "live_transitions LIVE_ASSIGNED = [LIVE_CLOSED]"
| "live_transitions LIVE_EXPIRED = [LIVE_CLOSED]"
| "live_transitions LIVE_CLOSED = []"

interpretation live_table: transition_table live_transitions "\<lambda>s. s = LIVE_CLOSED"
  by unfold_locales simp

record live_history =
  lh_from :: live_state
  lh_to :: live_state
  lh_reason :: string
  lh_fill :: "rat option"
  lh_pnl :: "(rat \<times> rat \<times> rat) option"
  lh_time :: int

record live_position =
  lp_id :: string
  lp_signal :: string
  lp_intent :: string
  lp_broker_order :: "string option"
  lp_underlying :: string
  lp_symbol :: string
  lp_side :: string
  lp_lot :: int
  lp_broker_symbol :: string
  lp_strike :: "rat option"
  lp_expiry :: "string option"
  lp_option :: "string option"
  lp_entry :: rat
  lp_entry_qty :: int
  lp_remaining :: int
  lp_filled :: int
  lp_requested :: int
  lp_slip :: rat
  lp_t1_fill :: "rat option"
  lp_exit :: "rat option"
  lp_exit_reason :: "string option"
  lp_gross :: rat
  lp_costs :: rat
  lp_net :: rat
  lp_state :: live_state
  lp_opened :: int
  lp_closed :: "int option"
  lp_history :: "live_history list"

subsection \<open>Quantities\<close>

datatype qty_error = QTY_NON_POSITIVE | QTY_NOT_LOT_STEP | QTY_NEGATIVE | QTY_EXCEEDS_ENTRY

definition lot_error :: "int \<Rightarrow> int \<Rightarrow> qty_error option" where
  "lot_error q lot = (if q \<le> 0 then Some QTY_NON_POSITIVE
     else if 0 < lot \<and> q mod lot \<noteq> 0 then Some QTY_NOT_LOT_STEP else None)"

definition validate_quantities :: "live_position \<Rightarrow> qty_error option" where
  "validate_quantities p = (case lot_error (lp_entry_qty p) (lp_lot p) of
     Some e \<Rightarrow> Some e
   | None \<Rightarrow> if lp_remaining p < 0 then Some QTY_NEGATIVE
       else if lp_entry_qty p < lp_remaining p then Some QTY_EXCEEDS_ENTRY else None)"

subsection \<open>Costs\<close>

definition statutory_for_fill :: "rat \<Rightarrow> rat option \<Rightarrow> int \<Rightarrow> rat" where
  "statutory_for_fill entry exit_px qty = (case exit_px of
     Some x \<Rightarrow> if 0 < x then cb_total (default_costs entry x (max 1 qty))
       else round2 (frnd (cb_statutory (default_costs entry entry (max 1 qty)) / 2))
   | None \<Rightarrow> round2 (frnd (cb_statutory (default_costs entry entry (max 1 qty)) / 2)))"

subsection \<open>Transitions\<close>

text \<open>\<open>Decimal(str(round(x, 2)))\<close>.\<close>

definition dec2 :: "rat \<Rightarrow> rat" where
  "dec2 x = of_int (round_half_even (x * 100)) / 100"

definition starts_with :: "string \<Rightarrow> string \<Rightarrow> bool" where
  "starts_with p s \<longleftrightarrow> take (length p) s = p"

definition side_sign :: "string \<Rightarrow> rat" where
  "side_sign side = (if starts_with ''BUY'' (map to_upper side) then 1 else - 1)"

definition int_or :: "int \<Rightarrow> int \<Rightarrow> int" where
  "int_or a b = (if a = 0 then b else a)"

definition reason_or :: "string \<Rightarrow> string \<Rightarrow> string" where
  "reason_or a b = (if a = [] then b else a)"

fun live_state_name :: "live_state \<Rightarrow> string" where
  "live_state_name LIVE_OPEN = ''OPEN''"
| "live_state_name LIVE_PARTIALLY_FILLED = ''PARTIALLY_FILLED''"
| "live_state_name LIVE_T1_EXIT = ''T1_PARTIAL_EXIT''"
| "live_state_name LIVE_T2_EXIT = ''T2_EXIT''"
| "live_state_name LIVE_STOP_LOSS = ''STOP_LOSS''"
| "live_state_name LIVE_TIME_STOP = ''TIME_STOP''"
| "live_state_name LIVE_ASSIGNED = ''ASSIGNED''"
| "live_state_name LIVE_EXPIRED = ''EXPIRED''"
| "live_state_name LIVE_CLOSED = ''CLOSED''"

definition book_exit :: "live_state \<Rightarrow> string \<Rightarrow> rat \<Rightarrow> live_position \<Rightarrow> live_position" where
  "book_exit st why price p = (let
      x = frnd price; e = frnd (lp_entry p); q = int_or (lp_remaining p) (lp_entry_qty p);
      total = statutory_for_fill e (Some x) q;
      gross = frnd (frnd (frnd (x - e) * of_int q) * side_sign (lp_side p));
      n = p\<lparr>lp_gross := dec2 gross, lp_costs := dec2 total, lp_net := dec2 (frnd (gross - total)),
            lp_exit := Some price, lp_exit_reason := Some (reason_or why (live_state_name st))\<rparr> in
     if st = LIVE_T1_EXIT then n\<lparr>lp_t1_fill := Some price\<rparr> else n)"

definition expiry_intrinsic :: "live_position \<Rightarrow> rat option \<Rightarrow> rat" where
  "expiry_intrinsic p fill = (let sp = frnd (or_else (lp_strike p) 0); ep = frnd (or_else fill (lp_entry p)) in
     if 0 < sp then (if map to_upper (or_else (lp_option p) []) = ''PE'' then max 0 (frnd (sp - ep)) else max 0 (frnd (ep - sp)))
     else 0)"

definition book_expiry :: "live_state \<Rightarrow> string \<Rightarrow> rat option \<Rightarrow> live_position \<Rightarrow> live_position" where
  "book_expiry st why fill p = (let
      intr = expiry_intrinsic p fill; q = lp_entry_qty p;
      total = assignment_friction intr 1 (max 1 q);
      gross = frnd (frnd (intr - frnd (lp_entry p)) * of_int q) in
     p\<lparr>lp_gross := dec2 gross, lp_costs := dec2 total, lp_net := dec2 (frnd (gross - total)), lp_exit := Some (dec2 intr),
       lp_exit_reason := Some (reason_or why (live_state_name st))\<rparr>)"

definition book_economics :: "live_state \<Rightarrow> string \<Rightarrow> rat option \<Rightarrow> live_position \<Rightarrow> live_position" where
  "book_economics st why fill p = (
     if st \<in> {LIVE_T1_EXIT, LIVE_T2_EXIT, LIVE_STOP_LOSS, LIVE_TIME_STOP} \<and> fill \<noteq> None then book_exit st why (the fill) p
     else if st \<in> {LIVE_ASSIGNED, LIVE_EXPIRED} then book_expiry st why fill p
     else p)"

definition closing_states :: "live_state list" where
  "closing_states = [LIVE_T2_EXIT, LIVE_STOP_LOSS, LIVE_TIME_STOP, LIVE_ASSIGNED, LIVE_EXPIRED, LIVE_CLOSED]"

definition log_move :: "live_state \<Rightarrow> string \<Rightarrow> rat option \<Rightarrow> int \<Rightarrow> live_position \<Rightarrow> live_position" where
  "log_move st why fill now p = p\<lparr>lp_state := st, lp_history := lp_history p @
     [\<lparr>lh_from = lp_state p, lh_to = st, lh_reason = why, lh_fill = (if fill = Some 0 then None else fill),
       lh_pnl = Some (lp_gross p, lp_costs p, lp_net p), lh_time = now\<rparr>]\<rparr>"

definition finalise_close :: "int \<Rightarrow> live_position \<Rightarrow> live_position" where
  "finalise_close now p = (if lp_state p = LIVE_CLOSED then p
     else p\<lparr>lp_state := LIVE_CLOSED, lp_history := lp_history p @
       [\<lparr>lh_from = lp_state p, lh_to = LIVE_CLOSED, lh_reason = ''TERMINAL_STATE_FINALIZED'', lh_fill = None, lh_pnl = None,
         lh_time = now\<rparr>]\<rparr>)"

definition live_transition ::
  "live_state \<Rightarrow> string \<Rightarrow> rat option \<Rightarrow> int \<Rightarrow> live_position \<Rightarrow> greeks_ledger \<Rightarrow> live_position \<times> greeks_ledger \<times> bool" where
  "live_transition st why fill now p gl = (
     if st \<notin> set (live_transitions (lp_state p)) then (p, gl, False)
     else if st = LIVE_PARTIALLY_FILLED \<and> fill = None then (p, gl, False)
     else if validate_quantities p \<noteq> None then (p, gl, False)
     else (let q = log_move st why fill now (book_economics st why fill p) in
       if st \<notin> set closing_states then (q, gl, True)
       else (finalise_close now (q\<lparr>lp_closed := Some now\<rparr>), fst (remove_position (lp_id p) gl), True)))"

subsection \<open>Opening\<close>

datatype fill_error = FILL_MARK_UNAVAILABLE | FILL_MARK_STALE | FILL_MARK_NO_QUOTABLE_SIDE

definition require_fill_mark :: "int \<Rightarrow> mark_registry \<Rightarrow> string \<Rightarrow> string \<Rightarrow> string \<Rightarrow> rat \<Rightarrow> fill_error + rat" where
  "require_fill_mark now reg desk s side slip = (case get_usable now (default_query\<lparr>mq_allow_model := False, mq_desk := desk\<rparr>) s reg of
     None \<Rightarrow> Inl (if get_mark s reg = None then FILL_MARK_UNAVAILABLE else FILL_MARK_STALE)
   | Some m \<Rightarrow>
       (case (if starts_with ''BUY'' (map to_upper side) then executable_buy slip m else executable_sell slip m) of
          None \<Rightarrow> Inl FILL_MARK_NO_QUOTABLE_SIDE
        | Some px \<Rightarrow> if px \<le> 0 then Inl FILL_MARK_NO_QUOTABLE_SIDE else Inr px))"

record open_request =
  or_id :: string
  or_signal :: string
  or_intent :: string
  or_underlying :: string
  or_symbol :: string
  or_side :: string
  or_quantity :: int
  or_lot :: int
  or_slip :: rat
  or_broker_symbol :: string
  or_strike :: "rat option"
  or_expiry :: "string option"
  or_option :: "string option"
  or_broker_order :: "string option"
  or_desk :: string

definition nonempty :: "string option \<Rightarrow> string option" where
  "nonempty s = (if or_else s [] = [] then None else s)"

definition open_from_fill :: "int \<Rightarrow> mark_registry \<Rightarrow> open_request \<Rightarrow> live_position result" where
  "open_from_fill now reg r = (let s = reason_or (or_broker_symbol r) (or_symbol r) in
     if lot_error (or_quantity r) (or_lot r) \<noteq> None then Inl ValueError
     else (case require_fill_mark now reg (or_desk r) s (or_side r) (or_slip r) of
         Inl e \<Rightarrow> Inl ValueError
       | Inr px \<Rightarrow> Inr \<lparr>lp_id = or_id r, lp_signal = or_signal r, lp_intent = or_intent r, lp_broker_order = or_broker_order r,
           lp_underlying = or_underlying r, lp_symbol = or_symbol r, lp_side = or_side r, lp_lot = or_lot r,
           lp_broker_symbol = s, lp_strike = or_strike r, lp_expiry = nonempty (or_expiry r),
           lp_option = nonempty (or_option r), lp_entry = dec2 px, lp_entry_qty = or_quantity r, lp_remaining = or_quantity r,
           lp_filled = or_quantity r, lp_requested = or_quantity r, lp_slip = or_slip r, lp_t1_fill = None, lp_exit = None,
           lp_exit_reason = None, lp_gross = 0, lp_costs = 0, lp_net = 0, lp_state = LIVE_OPEN, lp_opened = now, lp_closed = None,
           lp_history = []\<rparr>))"

subsection \<open>The registry\<close>

record desk =
  dk_positions :: "(string, live_position) dict"
  dk_ledger :: greeks_ledger

definition option_text :: "live_position \<Rightarrow> string" where
  "option_text p = (if or_else (lp_option p) [] \<noteq> [] then or_else (lp_option p) []
     else if occurs_in ''CE'' (map to_upper (lp_symbol p)) then ''CE''
     else if occurs_in ''PE'' (map to_upper (lp_symbol p)) then ''PE'' else ''CE'')"

definition option_kind_of :: "live_position \<Rightarrow> option_kind option" where
  "option_kind_of p = (if option_text p = ''CE'' then Some CE else if option_text p = ''PE'' then Some PE else None)"

text \<open>The mirror; an option type the ledger's model rejects skips it.\<close>

definition greek_of :: "live_position \<Rightarrow> greek_position option" where
  "greek_of p = map_option (\<lambda>k. \<lparr>gp_id = lp_id p, gp_underlying = map to_upper (lp_underlying p), gp_horizon = ''INTRADAY'',
     gp_kind = k, gp_strike = frnd (or_else (lp_strike p) 0), gp_expiry = or_else (lp_expiry p) [], gp_quantity = lp_entry_qty p,
     gp_delta = side_sign (lp_side p) / 2, gp_gamma = frnd (5 / 10000), gp_theta = - 10, gp_vega = 10\<rparr>) (option_kind_of p)"

definition mirror_position :: "live_position \<Rightarrow> greeks_ledger \<Rightarrow> greeks_ledger" where
  "mirror_position p gl = (case greek_of p of None \<Rightarrow> gl | Some g \<Rightarrow> add_position g gl)"

definition register_position :: "live_position \<Rightarrow> desk \<Rightarrow> desk \<times> live_position result" where
  "register_position p d = (if validate_quantities p \<noteq> None then (d, Inl ValueError)
     else (let q = p\<lparr>lp_broker_symbol := reason_or (lp_broker_symbol p) (lp_symbol p)\<rparr> in
       (d\<lparr>dk_positions := AList.update (lp_id q) q (dk_positions d), dk_ledger := mirror_position q (dk_ledger d)\<rparr>, Inr q)))"

definition position_by_signal :: "string \<Rightarrow> desk \<Rightarrow> live_position option" where
  "position_by_signal sid d = find (\<lambda>p. lp_signal p = sid) (map snd (dk_positions d))"

definition open_positions :: "desk \<Rightarrow> live_position list" where
  "open_positions d = filter (\<lambda>p. lp_state p \<noteq> LIVE_CLOSED) (map snd (dk_positions d))"

text \<open>A transition of a registered position: the registry holds the object that moves.\<close>

definition move_registered :: "string \<Rightarrow> live_state \<Rightarrow> string \<Rightarrow> rat option \<Rightarrow> int \<Rightarrow> desk \<Rightarrow> desk \<times> bool" where
  "move_registered pid st why fill now d = (case map_of (dk_positions d) pid of None \<Rightarrow> (d, False)
     | Some p \<Rightarrow> (case live_transition st why fill now p (dk_ledger d) of
         (q, gl, ok) \<Rightarrow> (d\<lparr>dk_positions := AList.update pid q (dk_positions d), dk_ledger := gl\<rparr>, ok)))"

definition close_registered :: "string \<Rightarrow> string \<Rightarrow> int \<Rightarrow> desk \<Rightarrow> desk \<times> bool" where
  "close_registered pid why now d = (case map_of (dk_positions d) pid of None \<Rightarrow> (d, False)
     | Some p \<Rightarrow> (case move_registered pid LIVE_CLOSED why None now d of
         (e, ok) \<Rightarrow> (e\<lparr>dk_ledger := fst (remove_position pid (dk_ledger e))\<rparr>, ok)))"

definition clear_registry :: "desk \<Rightarrow> desk" where
  "clear_registry d = d\<lparr>dk_ledger := foldl (\<lambda>gl pid. fst (remove_position pid gl)) (dk_ledger d) (map fst (dk_positions d)), dk_positions := []\<rparr>"

subsection \<open>Frames\<close>

named_theorems live_defs

lemmas live_bookings [live_defs] = log_move_def finalise_close_def book_economics_def book_exit_def book_expiry_def

text \<open>What no transition touches.\<close>

definition contract_of where
  "contract_of p = (lp_id p, lp_underlying p, lp_symbol p, lp_side p, lp_strike p, lp_expiry p, lp_option p, lp_entry_qty p)"

lemma greek_of_contract: "contract_of p = contract_of q \<Longrightarrow> greek_of p = greek_of q"
  by (simp add: contract_of_def greek_of_def option_kind_of_def option_text_def)

lemma contract_transition: "contract_of (fst (live_transition st why fill now p gl)) = contract_of p"
  by (simp add: live_transition_def live_defs contract_of_def Let_def)

lemma transition_quantity:
  "lp_remaining (fst (live_transition st why fill now p gl)) = lp_remaining p"
  "lp_entry_qty (fst (live_transition st why fill now p gl)) = lp_entry_qty p"
  "validate_quantities (fst (live_transition st why fill now p gl)) = validate_quantities p"
  by (simp_all add: live_transition_def live_defs Let_def validate_quantities_def)

lemma live_transition_cases:
  "live_transition st why fill now p gl = (p, gl, False) \<or>
   st \<in> set (live_transitions (lp_state p)) \<and> snd (snd (live_transition st why fill now p gl)) \<and>
   (if st \<in> set closing_states
    then lp_state (fst (live_transition st why fill now p gl)) = LIVE_CLOSED \<and>
         fst (snd (live_transition st why fill now p gl)) = fst (remove_position (lp_id p) gl)
    else lp_state (fst (live_transition st why fill now p gl)) = st \<and> fst (snd (live_transition st why fill now p gl)) = gl)"
  by (auto simp: live_transition_def live_defs Let_def)

lemma closing_closed: "LIVE_CLOSED \<in> set closing_states"
  by (simp add: closing_states_def)

subsection \<open>The ledger mirrors the desk\<close>

datatype desk_op = Register live_position | Move string live_state string "rat option" int | Close string string int | Clear

fun desk_step :: "desk_op \<Rightarrow> desk \<Rightarrow> desk" where
  "desk_step (Register p) d = fst (register_position p d)"
| "desk_step (Move pid st why fill now) d = fst (move_registered pid st why fill now d)"
| "desk_step (Close pid why now) d = fst (close_registered pid why now d)"
| "desk_step Clear d = clear_registry d"

definition exposure_at :: "desk \<Rightarrow> string \<Rightarrow> greek_position option" where
  "exposure_at d k = (case map_of (dk_positions d) k of None \<Rightarrow> None
     | Some p \<Rightarrow> if lp_state p = LIVE_CLOSED then None else greek_of p)"

definition mirrored :: "desk \<Rightarrow> bool" where
  "mirrored d \<longleftrightarrow> (\<forall>k. map_of (gl_positions (dk_ledger d)) k = exposure_at d k) \<and>
     (\<forall>k p. map_of (dk_positions d) k = Some p \<longrightarrow> lp_id p = k \<and> validate_quantities p = None)"

fun admissible :: "desk_op \<Rightarrow> bool" where
  "admissible (Register p) \<longleftrightarrow> lp_state p \<noteq> LIVE_CLOSED \<and> option_kind_of p \<noteq> None"
| "admissible _ \<longleftrightarrow> True"

lemma remove_positions: "map_of (gl_positions (fst (remove_position k gl))) j = (if j = k then None else map_of (gl_positions gl) j)"
  by (simp add: remove_position_def dict_simps)

lemma validate_symbol: "validate_quantities (p\<lparr>lp_broker_symbol := x\<rparr>) = validate_quantities p"
  by (simp add: validate_quantities_def)

lemma mirrored_register: "admissible (Register p) \<Longrightarrow> mirrored d \<Longrightarrow> mirrored (fst (register_position p d))"
  by (auto simp: mirrored_def register_position_def Let_def mirror_position_def greek_of_def add_position_def exposure_at_def
      dict_simps option_kind_of_def option_text_def validate_symbol)

lemma transition_effect:
  assumes "lp_state p = LIVE_CLOSED \<Longrightarrow> map_of (gl_positions gl) (lp_id p) = None"
    and "live_transition st why fill now p gl = (q, gl', ok)"
  shows "map_of (gl_positions gl') j = (if j = lp_id p \<and> lp_state q = LIVE_CLOSED then None else map_of (gl_positions gl) j)"
    and "lp_state p = LIVE_CLOSED \<Longrightarrow> lp_state q = LIVE_CLOSED"
proof -
  from live_transition_cases [of st why fill now p gl] assms(2)
  consider "q = p" "gl' = gl" | "st \<in> set (live_transitions (lp_state p))" "lp_state q = LIVE_CLOSED" "gl' = fst (remove_position (lp_id p) gl)"
    | "st \<in> set (live_transitions (lp_state p))" "st \<notin> set closing_states" "lp_state q = st" "gl' = gl"
    by (auto split: if_splits)
  note c = this
  show "map_of (gl_positions gl') j = (if j = lp_id p \<and> lp_state q = LIVE_CLOSED then None else map_of (gl_positions gl) j)"
    using c
  proof cases
    case 1
    then show ?thesis using assms(1) by auto
  next
    case 2
    then show ?thesis by (auto simp: remove_positions)
  next
    case 3
    then show ?thesis using closing_closed by auto
  qed
  show "lp_state p = LIVE_CLOSED \<Longrightarrow> lp_state q = LIVE_CLOSED"
    using c by cases simp_all
qed

lemma mirrored_update:
  assumes "mirrored d" "map_of (dk_positions d) pid = Some p" "lp_id q = pid" "greek_of q = greek_of p" "validate_quantities q = None"
    and "\<And>j. map_of (gl_positions gl) j = (if j = pid \<and> lp_state q = LIVE_CLOSED then None else map_of (gl_positions (dk_ledger d)) j)"
    and "lp_state p = LIVE_CLOSED \<Longrightarrow> lp_state q = LIVE_CLOSED"
  shows "mirrored (d\<lparr>dk_positions := AList.update pid q (dk_positions d), dk_ledger := gl\<rparr>)"
proof -
  have "exposure_at (d\<lparr>dk_positions := AList.update pid q (dk_positions d), dk_ledger := gl\<rparr>) k =
      (if k = pid \<and> lp_state q = LIVE_CLOSED then None else exposure_at d k)" for k
    using assms by (auto simp: exposure_at_def dict_simps)
  then show ?thesis using assms by (simp add: mirrored_def dict_simps)
qed

lemma mirrored_move: "mirrored d \<Longrightarrow> mirrored (fst (move_registered pid st why fill now d))"
proof (cases "map_of (dk_positions d) pid")
  case (Some p)
  assume m: "mirrored d"
  obtain q gl ok where r: "live_transition st why fill now p (dk_ledger d) = (q, gl, ok)" by (metis prod_cases3)
  have id: "lp_id p = pid" using m Some by (simp add: mirrored_def)
  have c: "contract_of q = contract_of p" using contract_transition [of st why fill now p "dk_ledger d"] by (simp add: r)
  have none: "lp_state p = LIVE_CLOSED \<Longrightarrow> map_of (gl_positions (dk_ledger d)) (lp_id p) = None"
    using m Some id by (simp add: mirrored_def exposure_at_def)
  have "mirrored (d\<lparr>dk_positions := AList.update pid q (dk_positions d), dk_ledger := gl\<rparr>)"
  proof (rule mirrored_update [OF m Some])
    show "lp_id q = pid" using c id by (simp add: contract_of_def)
    show "greek_of q = greek_of p" by (rule greek_of_contract [OF c])
    show "validate_quantities q = None"
      using transition_quantity(3) [of st why fill now p "dk_ledger d"] m Some by (simp add: r mirrored_def)
  qed (use transition_effect [OF none r] id in auto)
  then show ?thesis by (simp add: move_registered_def Some r)
qed (simp add: move_registered_def)

lemma close_succeeds:
  assumes "mirrored d" "map_of (dk_positions d) pid = Some p"
  shows "map_of (gl_positions (dk_ledger (fst (move_registered pid LIVE_CLOSED why fill now d)))) pid = None"
proof -
  obtain q gl ok where r: "live_transition LIVE_CLOSED why fill now p (dk_ledger d) = (q, gl, ok)" by (metis prod_cases3)
  have "mirrored (fst (move_registered pid LIVE_CLOSED why fill now d))" by (rule mirrored_move [OF assms(1)])
  moreover have "lp_state q = LIVE_CLOSED"
  proof (cases "lp_state p = LIVE_CLOSED")
    case True
    then show ?thesis using r by (simp add: live_transition_def)
  next
    case False
    then have "LIVE_CLOSED \<in> set (live_transitions (lp_state p))" by (cases "lp_state p") simp_all
    moreover have "validate_quantities p = None" using assms by (simp add: mirrored_def)
    ultimately show ?thesis using r by (auto simp: live_transition_def closing_states_def finalise_close_def log_move_def)
  qed
  ultimately show ?thesis by (simp add: move_registered_def assms(2) r mirrored_def exposure_at_def dict_simps)
qed

lemma mirrored_close: "mirrored d \<Longrightarrow> mirrored (fst (close_registered pid why now d))"
proof (cases "map_of (dk_positions d) pid")
  case (Some p)
  assume m: "mirrored d"
  let ?e = "fst (move_registered pid LIVE_CLOSED why None now d)"
  have "map_of (gl_positions (fst (remove_position pid (dk_ledger ?e)))) = map_of (gl_positions (dk_ledger ?e))"
    using close_succeeds [OF m Some] by (auto simp: remove_positions)
  then show ?thesis using mirrored_move [OF m, of pid LIVE_CLOSED why None now]
    by (auto simp: close_registered_def Some mirrored_def exposure_at_def split: prod.splits)
qed (simp add: close_registered_def)

lemma removes_all: "map_of (gl_positions (foldl (\<lambda>gl pid. fst (remove_position pid gl)) gl ks)) j =
    (if j \<in> set ks then None else map_of (gl_positions gl) j)"
  by (induction ks arbitrary: gl) (auto simp: remove_positions)

lemma mirrored_clear: "mirrored d \<Longrightarrow> mirrored (clear_registry d)"
  by (auto simp: mirrored_def clear_registry_def exposure_at_def removes_all map_of_None_notin [symmetric] split: option.splits)

interpretation desk: guarded_invariant desk_step mirrored admissible
proof
  show "admissible x \<Longrightarrow> mirrored s \<Longrightarrow> mirrored (desk_step x s)" for x s
    by (cases x) (auto intro: mirrored_register mirrored_move mirrored_close mirrored_clear)
qed

text \<open>
  C19. Whatever sequence of registrations, transitions, closes and resets runs over an empty desk, the Greeks ledger
  holds exactly one entry for every registered position that is not \<open>CLOSED\<close>, with the contract and the
  quantity of that position, and nothing else, as long as every position registered is not \<open>CLOSED\<close> and has an
  option type \<open>CE\<close>, \<open>PE\<close> or none. The paper engine, the only caller of \<open>register\<close>, meets this: it registers
  new positions, which are \<open>OPEN\<close> and carry no option type. \<open>register\<close> itself does not check it
  (\<open>closed_registration_is_ghost\<close>, \<open>odd_option_type_not_mirrored\<close>).
\<close>

theorem no_ghost_exposure:
  assumes "list_all admissible ops"
  shows "map_of (gl_positions (dk_ledger (fold desk_step ops \<lparr>dk_positions = [], dk_ledger = greeks_ledger_init l\<rparr>))) k =
    exposure_at (fold desk_step ops \<lparr>dk_positions = [], dk_ledger = greeks_ledger_init l\<rparr>) k"
proof -
  have "mirrored \<lparr>dk_positions = [], dk_ledger = greeks_ledger_init l\<rparr>"
    by (simp add: mirrored_def exposure_at_def greeks_ledger_init_def)
  from desk.guarded_run [OF assms this] show ?thesis unfolding mirrored_def by blast
qed

definition sample_live :: live_position where
  "sample_live = \<lparr>lp_id = ''p1'', lp_signal = ''s1'', lp_intent = ''i1'', lp_broker_order = None, lp_underlying = ''NIFTY'',
     lp_symbol = ''NIFTY24500PE'', lp_side = ''SELL'', lp_lot = 75, lp_broker_symbol = ''NIFTY24500PE'', lp_strike = Some 24500,
     lp_expiry = Some ''2025-01-30'', lp_option = Some ''PE'', lp_entry = 100, lp_entry_qty = 75, lp_remaining = 75, lp_filled = 75,
     lp_requested = 75, lp_slip = 1, lp_t1_fill = None, lp_exit = None, lp_exit_reason = None, lp_gross = 0, lp_costs = 0, lp_net = 0,
     lp_state = LIVE_OPEN, lp_opened = 5, lp_closed = None, lp_history = []\<rparr>"

theorem no_ghost_exposure_witness:
  "map_of (gl_positions (dk_ledger (fold desk_step [Register sample_live, Move ''p1'' LIVE_T1_EXIT [] None 6, Close ''p1'' [] 7]
     \<lparr>dk_positions = [], dk_ledger = greeks_ledger_init None\<rparr>))) ''p1'' = None"
  by (subst no_ghost_exposure) code_simp+

text \<open>Outside that: a \<open>CLOSED\<close> position that is registered stays in the ledger as exposure, and an open position of another
  option type is left out of it.\<close>

lemma closed_registration_is_ghost:
  "(let d = desk_step (Register (sample_live\<lparr>lp_state := LIVE_CLOSED\<rparr>)) \<lparr>dk_positions = [], dk_ledger = greeks_ledger_init None\<rparr>
    in (open_positions d, map_of (gl_positions (dk_ledger d)) ''p1'' \<noteq> None)) = ([], True)"
  by code_simp

lemma odd_option_type_not_mirrored:
  "(let d = desk_step (Register (sample_live\<lparr>lp_option := Some ''CALL''\<rparr>)) \<lparr>dk_positions = [], dk_ledger = greeks_ledger_init None\<rparr>
    in (length (open_positions d), map_of (gl_positions (dk_ledger d)) ''p1'' = None)) = (1, True)"
  by code_simp

subsection \<open>What a partial exit and an expiry book\<close>

text \<open>
  The exit of the rest overwrites what the partial exit booked and covers the whole quantity: the position ends with
  the profit and the costs it would have had without the partial exit, whatever that one sold and at what price.
\<close>

lemma t1_exit_forgotten:
  assumes "lp_state p = LIVE_OPEN" "validate_quantities p = None"
    and "live_transition LIVE_T1_EXIT why1 (Some a) t1 p gl = (q1, gl1, ok1)"
    and "live_transition LIVE_T2_EXIT why2 (Some b) t2 q1 gl1 = (q2, gl2, ok2)"
    and "live_transition LIVE_T2_EXIT why2 (Some b) t2 p gl = (r, gl3, ok3)"
  shows "ok1 \<and> ok2 \<and> ok3 \<and> lp_gross q2 = lp_gross r \<and> lp_costs q2 = lp_costs r \<and> lp_net q2 = lp_net r"
proof -
  have v: "validate_quantities q1 = None" using transition_quantity(3) [of LIVE_T1_EXIT why1 "Some a" t1 p gl] assms by simp
  have q1: "q1 = log_move LIVE_T1_EXIT why1 (Some a) t1 (book_exit LIVE_T1_EXIT why1 a p)" "ok1"
    using assms(1-3) by (auto simp: live_transition_def closing_states_def book_economics_def)
  then have "lp_state q1 = LIVE_T1_EXIT" by (simp add: log_move_def)
  then have q2: "q2 = finalise_close t2 (log_move LIVE_T2_EXIT why2 (Some b) t2 (book_exit LIVE_T2_EXIT why2 b q1)\<lparr>lp_closed := Some t2\<rparr>)" "ok2"
    using assms(4) v by (auto simp: live_transition_def closing_states_def book_economics_def)
  have r: "r = finalise_close t2 (log_move LIVE_T2_EXIT why2 (Some b) t2 (book_exit LIVE_T2_EXIT why2 b p)\<lparr>lp_closed := Some t2\<rparr>)" "ok3"
    using assms(1,2,5) by (auto simp: live_transition_def closing_states_def book_economics_def)
  show ?thesis using q1(2) q2(2) r(2)
    by (simp add: q2(1) r(1)) (simp add: q1(1) log_move_def finalise_close_def book_exit_def Let_def)
qed

text \<open>The booking of an expiry does not look at the side: a sold option that expires worthless books its premium as a loss.\<close>

lemma expiry_ignores_side:
  "lp_net (book_expiry st why fill (p\<lparr>lp_side := s\<rparr>)) = lp_net (book_expiry st why fill p)"
  by (simp add: book_expiry_def expiry_intrinsic_def Let_def)

lemma sold_worthless_loses:
  "lp_gross (fst (live_transition LIVE_EXPIRED [] (Some 25000) 9 sample_live (greeks_ledger_init None))) = - 7500"
  by code_simp

subsection \<open>Where an entry price comes from\<close>

text \<open>
  \<open>open_from_fill\<close>, the constructor that fails closed, opens a position only with a positive whole number of lots and only
  at the executable side of a usable mark: a buy at the ask plus the slippage, anything else at the bid less the
  slippage, of a mark that is not a model price, is at most 90 seconds old (15 for a scalp) and shows no spread above two
  and a half per cent. Nothing in the repository calls it: the paper engine builds its positions directly.
\<close>

theorem entry_fill_live:
  assumes "open_from_fill now reg r = Inr p"
  shows "0 < lp_entry_qty p \<and> (0 < or_lot r \<longrightarrow> or_lot r dvd lp_entry_qty p) \<and>
    (\<exists>m px. get_mark (lp_broker_symbol p) reg = Some m \<and> lp_entry p = dec2 px \<and> 0 < px
      \<and> (if starts_with ''BUY'' (map to_upper (or_side r)) then executable_buy (or_slip r) m = Some px else executable_sell (or_slip r) m = Some px)
      \<and> \<not> is_model m \<and> now - om_as_of m \<le> 90000 \<and> (map to_upper (or_desk r) = ''SCALP'' \<longrightarrow> now - om_as_of m \<le> 15000)
      \<and> (\<forall>w. mark_spread_pct m = Some w \<longrightarrow> w \<le> 5 / 2))"
proof -
  let ?s = "reason_or (or_broker_symbol r) (or_symbol r)"
  let ?q = "default_query\<lparr>mq_allow_model := False, mq_desk := or_desk r\<rparr>"
  have lot: "lot_error (or_quantity r) (or_lot r) = None" using assms by (auto simp: open_from_fill_def Let_def split: if_splits)
  obtain px where px: "require_fill_mark now reg (or_desk r) ?s (or_side r) (or_slip r) = Inr px" "lp_entry p = dec2 px"
      "lp_entry_qty p = or_quantity r" "lp_broker_symbol p = ?s"
    using assms by (auto simp: open_from_fill_def Let_def split: if_splits sum.splits)
  obtain m where m: "get_usable now ?q ?s reg = Some m" using px(1) by (auto simp: require_fill_mark_def split: option.splits)
  have get: "get_mark ?s reg = Some m" using m by (auto simp: get_usable_def split: option.splits if_splits)
  have side: "if starts_with ''BUY'' (map to_upper (or_side r)) then executable_buy (or_slip r) m = Some px else executable_sell (or_slip r) m = Some px"
      "0 < px"
    using px(1) by (auto simp: require_fill_mark_def m split: option.splits if_splits)
  have q: "mq_ttl ?q = None" "mq_desk ?q = or_desk r" "\<not> mq_allow_model ?q" by (simp_all add: default_query_def)
  have sound: "now - om_as_of m \<le> (if is_chain m then 90000 else 5000)"
      "map to_upper (or_desk r) = ''SCALP'' \<longrightarrow> now - om_as_of m \<le> 15000"
      "\<forall>w. mark_spread_pct m = Some w \<longrightarrow> w \<le> 5 / 2" "\<not> is_model m"
    using usable_mark_sound [OF m q(1)] q(2,3) by auto
  have qty: "0 < or_quantity r \<and> (0 < or_lot r \<longrightarrow> or_lot r dvd or_quantity r)"
    using lot by (auto simp: lot_error_def dvd_eq_mod_eq_0 split: if_splits)
  have "now - om_as_of m \<le> 90000" using sound(1) by (simp split: if_splits)
  then show ?thesis using get side sound px(2-4) qty by auto
qed

definition sample_open :: open_request where
  "sample_open = \<lparr>or_id = ''p1'', or_signal = ''s1'', or_intent = ''i1'', or_underlying = ''NIFTY'', or_symbol = ''NSE:X'',
     or_side = ''SELL'', or_quantity = 75, or_lot = 75, or_slip = 1, or_broker_symbol = [], or_strike = Some 24500,
     or_expiry = Some ''2025-01-30'', or_option = Some ''PE'', or_broker_order = None, or_desk = []\<rparr>"

theorem entry_fill_live_witness:
  "\<exists>p. open_from_fill 6 (put_marks [demo_mark CHAIN_BIDASK 5] marks_init) sample_open = Inr p \<and> 0 < lp_entry_qty p"
proof -
  let ?reg = "put_marks [demo_mark CHAIN_BIDASK 5] marks_init"
  have u: "get_usable 6 (default_query\<lparr>mq_allow_model := False, mq_desk := []\<rparr>) ''NSE:X'' ?reg = Some (demo_mark CHAIN_BIDASK 5)"
    by (rule demo_mark_usable) (simp_all add: effective_ttl_def default_query_def mark_ttl_def is_chain_def CHAIN_TTL_MS_def
        mark_age_def demo_mark_facts MAX_SPREAD_PCT_def)
  have b: "starts_with ''BUY'' (map to_upper ''SELL'') = False" "executable_sell 1 (demo_mark CHAIN_BIDASK 5) = Some 98" by code_simp+
  have "require_fill_mark 6 ?reg [] ''NSE:X'' ''SELL'' 1 = Inr 98" unfolding require_fill_mark_def u option.case b by simp
  then obtain p where "open_from_fill 6 ?reg sample_open = Inr p"
    by (auto simp: open_from_fill_def sample_open_def reason_or_def lot_error_def Let_def)
  from this entry_fill_live [OF this] show ?thesis by auto
qed

end
