(* ===== verification/Droid_Friction.thy ===== *)
theory Droid_Friction
  imports Droid_Marks Droid_Costs
begin

text \<open>
  \<open>backend/app/signals/risk/friction_gate.py\<close>: the net edge of a candidate after spread, slippage, statutory
  charges and time decay, rejected when an input is not live. The greeks of the option model are an argument, \<open>None\<close>
  where it fails; greeks and projections carry numbers. Message texts are replaced by codes.
\<close>

subsection \<open>The candidate\<close>

record contract_ref =
  ct_symbol :: string
  ct_strike :: "rat option"
  ct_premium :: "rat option"

record selector_greeks =
  sg_delta :: "rat option"
  sg_theta_hour :: "rat option"
  sg_theta :: "rat option"
  sg_iv :: "rat option"

record edge_candidate =
  ec_underlying :: string
  ec_call :: bool
  ec_spot :: rat
  ec_trigger :: rat
  ec_target :: rat
  ec_risk :: rat
  ec_contract :: "contract_ref option"
  ec_greeks :: "selector_greeks option"
  ec_time_stop :: "int option"

text \<open>Delta and hourly theta of the option model at a spot, a strike, a volatility and a side.\<close>

type_synonym option_model = "rat \<Rightarrow> rat \<Rightarrow> rat \<Rightarrow> bool \<Rightarrow> (rat \<times> rat) option"

record edge_inputs =
  ei_premium :: "rat option"
  ei_estimate :: "rat option"
  ei_spread :: "rat option"
  ei_fallback_spread :: "rat option"
  ei_iv :: "rat option"
  ei_slip :: "rat option"
  ei_slip_pct :: rat
  ei_hours :: "rat option"
  ei_holding :: "int option"

text \<open>The lot size of an underlying, \<open>resolve_lot_size_for_underlying\<close>.\<close>

definition lot_size_of :: "string \<Rightarrow> int" where
  "lot_size_of u = (if map to_upper u = ''BANKNIFTY'' then 30 else if map to_upper u = ''SENSEX'' then 10 else 75)"

subsection \<open>The inputs\<close>

definition positive :: "rat option \<Rightarrow> rat option" where
  "positive x = (case x of Some v \<Rightarrow> if 0 < v then Some v else None | None \<Rightarrow> None)"

fun first_some :: "'a option list \<Rightarrow> 'a option" where
  "first_some [] = None"
| "first_some (Some x # xs) = Some x"
| "first_some (None # xs) = first_some xs"

definition contract_symbol :: "edge_candidate \<Rightarrow> string" where
  "contract_symbol c = (case ec_contract c of Some k \<Rightarrow> ct_symbol k | None \<Rightarrow> [])"

definition resolve_live_premium :: "int \<Rightarrow> mark_registry \<Rightarrow> edge_inputs \<Rightarrow> edge_candidate \<Rightarrow> rat option" where
  "resolve_live_premium now reg i c = first_some [positive (ei_premium i), positive (ei_estimate i),
     (case ec_contract c of Some k \<Rightarrow> positive (ct_premium k) | None \<Rightarrow> None),
     (case get_usable now (default_query\<lparr>mq_allow_model := False\<rparr>) (contract_symbol c) reg of
        Some m \<Rightarrow> (case mark_price m of Some p \<Rightarrow> positive (Some p) | None \<Rightarrow> None) | None \<Rightarrow> None)]"

definition row_spread :: "strike_info \<Rightarrow> rat option" where
  "row_spread r = (if 0 < si_bid r \<and> si_bid r < si_ask r then Some (round2 (frnd (si_ask r - si_bid r))) else None)"

definition resolve_live_spread :: "int \<Rightarrow> chain_cache \<Rightarrow> mark_registry \<Rightarrow> edge_inputs \<Rightarrow> edge_candidate \<Rightarrow> rat option" where
  "resolve_live_spread now cc reg i c = first_some [positive (case ei_spread i of None \<Rightarrow> ei_fallback_spread i | s \<Rightarrow> s),
     (case get_mark (contract_symbol c) reg of Some m \<Rightarrow> positive (spread_pts m) | None \<Rightarrow> None),
     (if contract_symbol c = [] then None
      else case find_by_symbol now (contract_symbol c) CHAIN_ROW_MAX_AGE_MS False cc of Some r \<Rightarrow> row_spread r | None \<Rightarrow> None)]"

definition resolve_iv :: "edge_inputs \<Rightarrow> edge_candidate \<Rightarrow> rat option" where
  "resolve_iv i c = first_some [positive (ei_iv i), (case ec_greeks c of Some g \<Rightarrow> positive (sg_iv g) | None \<Rightarrow> None)]"

definition model_greeks :: "option_model \<Rightarrow> rat \<Rightarrow> edge_candidate \<Rightarrow> (rat \<times> rat) option" where
  "model_greeks bs iv c = (case ec_contract c of None \<Rightarrow> None
     | Some k \<Rightarrow> (case ct_strike k of None \<Rightarrow> None
         | Some s \<Rightarrow> if s \<noteq> 0 \<and> 0 < ec_spot c then bs (frnd (ec_spot c)) (frnd s) iv (ec_call c) else None))"

definition resolve_delta :: "option_model \<Rightarrow> rat \<Rightarrow> edge_candidate \<Rightarrow> rat option" where
  "resolve_delta bs iv c = first_some [
     (case ec_greeks c of Some g \<Rightarrow> positive (map_option abs (sg_delta g)) | None \<Rightarrow> None),
     map_option (\<lambda>(d, t). \<bar>d\<bar>) (model_greeks bs iv c)]"

definition hours_to_seconds :: "rat \<Rightarrow> int" where
  "hours_to_seconds h = rat_trunc (frnd (h * 3600))"

definition resolve_holding_seconds :: "edge_inputs \<Rightarrow> edge_candidate \<Rightarrow> int" where
  "resolve_holding_seconds i c = (
     if (case ei_hours i of Some h \<Rightarrow> 0 < hours_to_seconds h | None \<Rightarrow> False) then hours_to_seconds (the (ei_hours i))
     else if (case ei_holding i of Some s \<Rightarrow> 0 < s | None \<Rightarrow> False) then the (ei_holding i)
     else if (case ec_time_stop c of Some s \<Rightarrow> 0 < s | None \<Rightarrow> False) then the (ec_time_stop c) else 0)"

definition theta_drag :: "option_model \<Rightarrow> rat \<Rightarrow> int \<Rightarrow> edge_candidate \<Rightarrow> rat" where
  "theta_drag bs iv secs c = (let hours = frnd (of_int secs / 3600);
      th = (case ec_greeks c of Some g \<Rightarrow> (case sg_theta_hour g of None \<Rightarrow> sg_theta g | t \<Rightarrow> t) | None \<Rightarrow> None) in
     case th of Some t \<Rightarrow> frnd (\<bar>t\<bar> * hours)
     | None \<Rightarrow> (case model_greeks bs iv c of Some (d, t) \<Rightarrow> frnd (\<bar>t\<bar> * hours) | None \<Rightarrow> 0))"

subsection \<open>The gate\<close>

datatype edge_reject = NO_LIVE_PREMIUM | NO_LIVE_SPREAD | NO_LIVE_IV | NO_DELTA | NO_HOLDING_CLOCK | NO_THETA_CLOCK | NET_EDGE
  | FRICTION | POOR_NET_RR

record edge_result =
  er_reject :: "edge_reject option"
  er_gross :: rat
  er_friction :: rat
  er_net :: rat
  er_cost_pct :: rat
  er_net_rr :: rat
  er_holding :: int

definition closed_edge :: "edge_reject \<Rightarrow> rat \<Rightarrow> int \<Rightarrow> edge_result" where
  "closed_edge why gross secs = \<lparr>er_reject = Some why, er_gross = gross, er_friction = 0, er_net = 0, er_cost_pct = 100, er_net_rr = 0,
     er_holding = secs\<rparr>"

record friction_limits =
  fl_min_net_rr :: rat
  fl_max_cost :: rat

definition default_friction_limits :: friction_limits where
  "default_friction_limits = \<lparr>fl_min_net_rr = frnd (7 / 10), fl_max_cost = frnd (45 / 100)\<rparr>"

definition edge_slippage :: "rat \<Rightarrow> edge_inputs \<Rightarrow> rat" where
  "edge_slippage premium i = (case ei_slip i of Some s \<Rightarrow> if 0 \<le> s then s else round2 (frnd (premium * ei_slip_pct i))
     | None \<Rightarrow> round2 (frnd (premium * ei_slip_pct i)))"

definition spot_target :: "edge_candidate \<Rightarrow> rat" where
  "spot_target c = max (frnd (1 / 10)) (frnd (drnd (if ec_call c then ec_target c - ec_trigger c else ec_trigger c - ec_target c)))"

definition price_edge :: "friction_limits \<Rightarrow> rat \<Rightarrow> rat \<Rightarrow> rat \<Rightarrow> int \<Rightarrow> rat \<Rightarrow> rat \<Rightarrow> edge_candidate \<Rightarrow> edge_result" where
  "price_edge fl premium spread delta secs theta slip c = (let
      gross = frnd (spot_target c * delta); risk = frnd (frnd (ec_risk c) * delta); lot = lot_size_of (ec_underlying c);
      costs = calculate_total_costs spread slip premium (frnd (premium + gross)) lot;
      total = frnd (frnd (cb_total costs / of_int lot) + theta);
      net = frnd (gross - total); cost_ratio = (if 0 < gross then frnd (total / gross) else 1);
      rr = (if 0 < frnd (risk + total) then frnd (net / frnd (risk + total)) else 0) in
     \<lparr>er_reject = (if net \<le> 0 then Some NET_EDGE else if fl_max_cost fl < cost_ratio then Some FRICTION
         else if rr < fl_min_net_rr fl then Some POOR_NET_RR else None),
      er_gross = round2 gross, er_friction = round2 total, er_net = round2 net, er_cost_pct = round_places 1 (frnd (cost_ratio * 100)),
      er_net_rr = round2 rr, er_holding = secs\<rparr>)"

definition evaluate_edge :: "friction_limits \<Rightarrow> option_model \<Rightarrow> int \<Rightarrow> chain_cache \<Rightarrow> mark_registry \<Rightarrow> edge_inputs \<Rightarrow> edge_candidate \<Rightarrow> edge_result" where
  "evaluate_edge fl bs now cc reg i c = (case resolve_live_premium now reg i c of
     None \<Rightarrow> closed_edge NO_LIVE_PREMIUM 0 0
   | Some premium \<Rightarrow> (case resolve_live_spread now cc reg i c of
       None \<Rightarrow> closed_edge NO_LIVE_SPREAD 0 0
     | Some spread \<Rightarrow> (case resolve_iv i c of
         None \<Rightarrow> closed_edge NO_LIVE_IV 0 0
       | Some iv \<Rightarrow> (case resolve_delta bs iv c of
           None \<Rightarrow> closed_edge NO_DELTA 0 0
         | Some delta \<Rightarrow> (let secs = resolve_holding_seconds i c; theta = theta_drag bs iv secs c in
             if secs \<le> 0 then closed_edge NO_HOLDING_CLOCK 0 0
             else if theta \<le> 0 then closed_edge NO_THETA_CLOCK (round2 (frnd (spot_target c * delta))) secs
             else price_edge fl premium spread delta secs theta (edge_slippage premium i) c)))))"

subsection \<open>What passes\<close>

lemma first_some_positive: "first_some xs = Some v \<Longrightarrow> (\<And>x. x \<in> set xs \<Longrightarrow> x = Some v \<Longrightarrow> 0 < v) \<Longrightarrow> (0::rat) < v"
  by (induction xs rule: first_some.induct) auto

lemma positive_iff: "positive x = Some v \<longleftrightarrow> x = Some v \<and> 0 < v" "Some v = positive x \<longleftrightarrow> x = Some v \<and> 0 < v"
  by (auto simp: positive_def split: option.splits if_splits)

lemma row_spread_nonneg: "row_spread r = Some v \<Longrightarrow> 0 \<le> v"
proof -
  assume "row_spread r = Some v"
  then have v: "v = round2 (frnd (si_ask r - si_bid r))" "0 \<le> si_ask r - si_bid r" by (auto simp: row_spread_def split: if_splits)
  have "0 \<le> frnd (si_ask r - si_bid r)" by (rule flt.rnd_nonneg [OF v(2)])
  then have "round_half_even 0 \<le> round_half_even (frnd (si_ask r - si_bid r) * 100)" by (intro rhe_mono) simp
  then have "0 \<le> round_half_even (frnd (si_ask r - si_bid r) * 100)" using rhe_int [of 0] by simp
  then show ?thesis unfolding v(1) round2_def by (intro flt.rnd_nonneg) simp
qed

text \<open>
  A trade passes the net-edge gate only with a positive live premium, a live spread, a positive volatility, a known
  delta, a positive holding time and a positive time decay, and when its net edge is positive, its costs take at most
  the configured share of the target and its net reward to risk is at least the configured minimum.
\<close>

theorem edge_passes_iff:
  "er_reject (evaluate_edge fl bs now cc reg i c) = None \<longleftrightarrow>
    (\<exists>premium spread iv delta. resolve_live_premium now reg i c = Some premium \<and> resolve_live_spread now cc reg i c = Some spread
      \<and> resolve_iv i c = Some iv \<and> resolve_delta bs iv c = Some delta
      \<and> 0 < resolve_holding_seconds i c \<and> 0 < theta_drag bs iv (resolve_holding_seconds i c) c
      \<and> (let gross = frnd (spot_target c * delta); risk = frnd (frnd (ec_risk c) * delta); lot = lot_size_of (ec_underlying c);
            costs = calculate_total_costs spread (edge_slippage premium i) premium (frnd (premium + gross)) lot;
            total = frnd (frnd (cb_total costs / of_int lot) + theta_drag bs iv (resolve_holding_seconds i c) c);
            net = frnd (gross - total) in
          0 < net \<and> (if 0 < gross then frnd (total / gross) else 1) \<le> fl_max_cost fl
          \<and> fl_min_net_rr fl \<le> (if 0 < frnd (risk + total) then frnd (net / frnd (risk + total)) else 0)))"
proof (cases "resolve_live_premium now reg i c" ; cases "resolve_live_spread now cc reg i c" ; cases "resolve_iv i c")
  fix premium spread iv
  assume r: "resolve_live_premium now reg i c = Some premium" "resolve_live_spread now cc reg i c = Some spread" "resolve_iv i c = Some iv"
  show ?thesis
  proof (cases "resolve_delta bs iv c")
    case (Some delta)
    show ?thesis
      by (simp add: evaluate_edge_def closed_edge_def r Some price_edge_def Let_def not_less not_le)
  qed (simp add: evaluate_edge_def closed_edge_def r)
qed (simp_all add: evaluate_edge_def closed_edge_def)

lemma live_premium_positive: "resolve_live_premium now reg i c = Some v \<Longrightarrow> 0 < v"
  unfolding resolve_live_premium_def by (erule first_some_positive) (auto simp: positive_iff split: option.splits)

lemma live_iv_positive: "resolve_iv i c = Some v \<Longrightarrow> 0 < v"
  unfolding resolve_iv_def by (erule first_some_positive) (auto simp: positive_iff split: option.splits)

text \<open>A spread that comes from the registry carries no age limit: the mark may be of any age.\<close>

lemma spread_of_any_age:
  assumes "get_mark (contract_symbol c) reg = Some m" "spread_pts m = Some w" "0 < w" "ei_spread i = None" "ei_fallback_spread i = None"
  shows "resolve_live_spread now cc reg i c = Some w"
  using assms by (simp add: resolve_live_spread_def positive_def)

end
