(* ===== verification/Droid_Overlay.thy ===== *)
theory Droid_Overlay
  imports Droid_Decimal
begin

text \<open>
  \<open>backend/app/event_engine/risk_overlay.py\<close>: the reduction of risk around events of high importance. Times are
  microseconds in UTC, minutes are floats.
\<close>

record risk_event =
  re_id :: string
  re_title :: string
  re_importance :: "rat option"
  re_targets :: "string list"
  re_sector :: string
  re_type :: string
  re_time :: int

datatype proximity = NORMAL | APPROACHING_WINDOW | BLACKOUT_WINDOW | REACTION_WINDOW

record event_overlay =
  eo_underlying :: string
  eo_proximity :: proximity
  eo_can_enter :: bool
  eo_multiplier :: rat
  eo_dampener :: rat
  eo_no_naked :: bool
  eo_event :: "string option"
  eo_minutes :: "rat option"

record overlay_config =
  oc_pre :: rat
  oc_post :: rat
  oc_approach :: rat
  oc_reaction :: rat
  oc_threshold :: rat

definition default_overlay :: overlay_config where
  "default_overlay = \<lparr>oc_pre = 5, oc_post = 5, oc_approach = 30, oc_reaction = 15, oc_threshold = 70\<rparr>"

definition clean_symbol :: "string \<Rightarrow> string" where
  "clean_symbol s = filter (\<lambda>c. c \<noteq> CHR '' '') (map to_upper s)"

definition affects :: "string \<Rightarrow> risk_event \<Rightarrow> bool" where
  "affects s e \<longleftrightarrow> list_ex (\<lambda>t. occurs_in s (clean_symbol t)) (re_targets e)
     \<or> (if re_sector e = ''BANKING'' \<and> occurs_in ''BANKNIFTY'' s then True
         else re_type e \<in> {''CENTRAL_BANK'', ''MACRO''} \<and> s \<in> {''NIFTY'', ''BANKNIFTY''})"

definition minutes_to :: "int \<Rightarrow> risk_event \<Rightarrow> rat" where
  "minutes_to now e = frnd (total_seconds (re_time e - now) / 60)"

definition relevant_events :: "overlay_config \<Rightarrow> string \<Rightarrow> int \<Rightarrow> risk_event list \<Rightarrow> (risk_event \<times> rat) list" where
  "relevant_events oc u now es = map (\<lambda>e. (e, minutes_to now e))
     (filter (\<lambda>e. oc_threshold oc \<le> or_else (re_importance e) 75 \<and> affects (clean_symbol u) e) es)"

definition overlay_of :: "overlay_config \<Rightarrow> string \<Rightarrow> risk_event \<times> rat \<Rightarrow> event_overlay" where
  "overlay_of oc u = (\<lambda>(e, d).
     if - oc_post oc \<le> d \<and> d \<le> oc_pre oc then \<lparr>eo_underlying = u, eo_proximity = BLACKOUT_WINDOW, eo_can_enter = False, eo_multiplier = 0,
       eo_dampener = 0, eo_no_naked = True, eo_event = Some (re_id e), eo_minutes = Some (round_places 1 d)\<rparr>
     else if oc_pre oc < d \<and> d \<le> oc_approach oc then \<lparr>eo_underlying = u, eo_proximity = APPROACHING_WINDOW, eo_can_enter = True,
       eo_multiplier = 1 / 2, eo_dampener = 1 / 2, eo_no_naked = True, eo_event = Some (re_id e), eo_minutes = Some (round_places 1 d)\<rparr>
     else if - oc_reaction oc \<le> d \<and> d < - oc_post oc then \<lparr>eo_underlying = u, eo_proximity = REACTION_WINDOW, eo_can_enter = True,
       eo_multiplier = 3 / 4, eo_dampener = 3 / 4, eo_no_naked = True, eo_event = Some (re_id e), eo_minutes = Some (round_places 1 d)\<rparr>
     else \<lparr>eo_underlying = u, eo_proximity = NORMAL, eo_can_enter = True, eo_multiplier = 1, eo_dampener = 1, eo_no_naked = False,
       eo_event = Some (re_id e), eo_minutes = Some (round_places 1 d)\<rparr>)"

definition evaluate_overlay :: "overlay_config \<Rightarrow> string \<Rightarrow> int \<Rightarrow> risk_event list \<Rightarrow> event_overlay" where
  "evaluate_overlay oc u now es = (case sort_key (\<lambda>x. \<bar>snd x\<bar>) (relevant_events oc u now es) of
     [] \<Rightarrow> \<lparr>eo_underlying = u, eo_proximity = NORMAL, eo_can_enter = True, eo_multiplier = 1, eo_dampener = 1, eo_no_naked = False,
       eo_event = None, eo_minutes = None\<rparr>
   | x # xs \<Rightarrow> overlay_of oc u x)"

subsection \<open>What the overlay does\<close>

lemma closest_first:
  assumes "sort_key f xs = y # ys"
  shows "y \<in> set xs" "x \<in> set xs \<Longrightarrow> f y \<le> (f x :: 'b :: linorder)"
proof -
  have s: "set xs = set (y # ys)" and o: "sorted (map f (y # ys))" using assms by (metis set_sort, metis sorted_sort_key)
  show "y \<in> set xs" using s by simp
  show "x \<in> set xs \<Longrightarrow> f y \<le> f x" using s o by auto
qed

text \<open>
  The overlay never raises the risk, and with the default windows it forbids entries exactly when some important
  event that affects the instrument is at most five minutes away on either side.
\<close>

theorem blackout_iff:
  "(\<not> eo_can_enter (evaluate_overlay default_overlay u now es)) =
     (\<exists>x \<in> set (relevant_events default_overlay u now es). \<bar>snd x\<bar> \<le> 5)
   \<and> eo_multiplier (evaluate_overlay default_overlay u now es) \<le> 1"
proof (cases "sort_key (\<lambda>x. \<bar>snd x\<bar>) (relevant_events default_overlay u now es)")
  case Nil
  then have "relevant_events default_overlay u now es = []" by (metis set_sort set_empty)
  then show ?thesis by (simp add: evaluate_overlay_def)
next
  case (Cons y ys)
  obtain e d where y: "y = (e, d)" by fastforce
  have "(\<not> eo_can_enter (overlay_of default_overlay u y)) = (\<bar>snd y\<bar> \<le> 5) \<and> eo_multiplier (overlay_of default_overlay u y) \<le> 1"
    by (auto simp: y overlay_of_def default_overlay_def abs_le_iff)
  moreover have "(\<bar>snd y\<bar> \<le> 5) = (\<exists>x \<in> set (relevant_events default_overlay u now es). \<bar>snd x\<bar> \<le> 5)"
    using closest_first [OF Cons] order_trans by blast
  ultimately show ?thesis by (simp add: evaluate_overlay_def Cons)
qed

text \<open>
  Outside the blackout only the closest event counts: an event sixteen minutes ago hides one that is twenty minutes
  ahead, and the size is not reduced.
\<close>

definition past_event :: risk_event where
  "past_event = \<lparr>re_id = ''a'', re_title = ''a'', re_importance = Some 90, re_targets = [''NIFTY''], re_sector = ''MACRO'', re_type = ''MACRO'',
     re_time = - 960000000\<rparr>"

definition coming_event :: risk_event where
  "coming_event = past_event\<lparr>re_id := ''b'', re_time := 1200000000\<rparr>"

lemma past_event_hides_coming:
  "eo_multiplier (evaluate_overlay default_overlay ''NIFTY'' 0 [coming_event]) = 1 / 2"
  "eo_multiplier (evaluate_overlay default_overlay ''NIFTY'' 0 [past_event, coming_event]) = 1"
  by code_simp+

end
