(* ===== verification/Droid_RiskEngine.thy ===== *)
theory Droid_RiskEngine
  imports Droid_Friction Droid_Overlay Droid_Greeks
begin

text \<open>
  \<open>backend/app/signals/risk_engine.py\<close>: the engine that turns the proposal of a strategy into a sized decision or a
  rejection. The envelopes come from a configuration with all the fields of the default one. Prices are decimals of at
  most 15 digits, points and rates are floats. Message texts are replaced by codes; of the viability notes the kind
  is kept. The permission of the calendar is an argument.
\<close>

subsection \<open>Configuration\<close>

record envelope =
  en_min_risk :: rat
  en_max_risk :: rat
  en_t1_ceiling :: rat
  en_t2_ceiling :: rat
  en_atr_mult :: rat
  en_min_rr :: rat
  en_ttl :: int
  en_time_stop :: int

record risk_config =
  rc_version :: int
  rc_envelopes :: "(string, (string, envelope) dict) dict"
  rc_atm_delta :: rat
  rc_expiry_factor :: rat

definition envelope_of :: "rat \<Rightarrow> rat \<Rightarrow> rat \<Rightarrow> rat \<Rightarrow> rat \<Rightarrow> rat \<Rightarrow> int \<Rightarrow> int \<Rightarrow> envelope" where
  "envelope_of a b c d m r ttl stop = \<lparr>en_min_risk = frnd a, en_max_risk = b, en_t1_ceiling = c, en_t2_ceiling = d, en_atr_mult = frnd m,
     en_min_rr = frnd r, en_ttl = ttl, en_time_stop = stop\<rparr>"

definition DEFAULT_RISK_CONFIG :: risk_config where
  "DEFAULT_RISK_CONFIG = \<lparr>rc_version = 1, rc_envelopes = [
     (''NIFTY'', [(''1m_scalp'', envelope_of (56 / 10) 18 30 45 1 1 300 900), (''5m_intraday'', envelope_of (126 / 10) 35 55 80 1 1 600 4500),
        (''15m_intraday'', envelope_of 25 50 75 110 (125 / 100) (14 / 10) 900 7200),
        (''1d_positional'', envelope_of 60 120 180 280 (13 / 10) (15 / 10) 1800 20000)]),
     (''BANKNIFTY'', [(''1m_scalp'', envelope_of 25 50 75 120 (11 / 10) (125 / 100) 300 900),
        (''5m_intraday'', envelope_of 50 95 140 220 (12 / 10) (135 / 100) 600 4500),
        (''15m_intraday'', envelope_of 70 130 190 300 (125 / 100) (14 / 10) 900 7200),
        (''1d_positional'', envelope_of 180 350 520 800 (13 / 10) (15 / 10) 1800 20000)]),
     (''SENSEX'', [(''1m_scalp'', envelope_of 35 70 100 160 (11 / 10) (125 / 100) 300 900),
        (''5m_intraday'', envelope_of 70 130 180 300 (12 / 10) (135 / 100) 600 4500),
        (''15m_intraday'', envelope_of 95 180 260 420 (125 / 100) (14 / 10) 900 7200),
        (''1d_positional'', envelope_of 250 480 700 1100 (13 / 10) (15 / 10) 1800 20000)])],
     rc_atm_delta = 1 / 2, rc_expiry_factor = 1 / 2\<rparr>"

definition resolve_desk_key :: "string \<Rightarrow> bool \<Rightarrow> string" where
  "resolve_desk_key tf scalp = (if scalp \<or> tf \<in> {''1M'', ''3M''} then ''1m_scalp'' else if tf = ''15M'' then ''15m_intraday''
     else if tf = ''1D'' then ''1d_positional'' else ''5m_intraday'')"

definition resolve_envelope :: "risk_config \<Rightarrow> string \<Rightarrow> string \<Rightarrow> envelope option" where
  "resolve_envelope rc u desk = (let env = or_else (map_of (rc_envelopes rc) u) [] in
     case map_of env desk of Some e \<Rightarrow> Some e | None \<Rightarrow> map_of env ''5m_intraday'')"

subsection \<open>Proposals and decisions\<close>

record strategy_setup =
  ss_strategy :: string
  ss_underlying :: string
  ss_call :: bool
  ss_timeframe :: string
  ss_scalp :: bool
  ss_spot :: rat
  ss_entry :: rat
  ss_stop :: rat
  ss_candidates :: "rat list"
  ss_atr :: rat
  ss_confidence :: rat
  ss_delta :: "rat option"
  ss_premium :: "rat option"
  ss_theta :: "rat option"
  ss_iv :: "rat option"
  ss_gamma :: "rat option"
  ss_spread :: "rat option"
  ss_slip :: "rat option"
  ss_strike :: "rat option"
  ss_expiry :: "string option"

record risk_request =
  rq_capital :: rat
  rq_pct :: rat
  rq_expiry_day :: bool
  rq_allow_closed :: bool
  rq_market_open :: bool
  rq_overlay :: "event_overlay option"
  rq_hours :: "rat option"
  rq_pnl :: "rat option"
  rq_loss_cap :: "rat option"

datatype risk_reason = MARKET_CLOSED | EVENT_RISK_REJECTED | LOW_CONFIDENCE | DAILY_LOSS_CAP | CONFIG_MISSING | INVALID_STOP_ORIENTATION
  | STRUCTURAL_RISK_EXCEEDS_ENVELOPE | VOLATILITY_RISK_EXCEEDS_ENVELOPE | INSUFFICIENT_RR | INSUFFICIENT_CAPITAL_FOR_1_LOT
  | PORTFOLIO_VETO | FRICTION_NET_RR | EXCESSIVE_THETA_DRAG

datatype execution_status = LIVE_EXECUTABLE | BLOCKED_CAPITAL | BLOCKED_ENVELOPE | BLOCKED_RR | BLOCKED_FRICTION | BLOCKED_PORTFOLIO
  | PAPER_ONLY | SAFETY_BLOCKED

datatype viability_note = HIGH_THETA_DRAG | ACCEPTABLE_THETA_DRAG | PREMIUM_STOP

text \<open>The prices and ratios of a decision.\<close>

record trade_levels =
  tl_stop :: rat
  tl_t1 :: rat
  tl_t2 :: rat
  tl_risk :: rat
  tl_reward1 :: rat
  tl_reward2 :: rat
  tl_rr1 :: rat
  tl_rr2 :: rat
  tl_ttl :: int
  tl_time_stop :: int

record validated_decision =
  vd_accepted :: bool
  vd_reason :: "risk_reason option"
  vd_version :: int
  vd_entry :: rat
  vd_levels :: trade_levels
  vd_lots :: int
  vd_quantity :: int
  vd_max_loss :: rat
  vd_lot_size :: int
  vd_live :: bool
  vd_paper :: bool
  vd_status :: execution_status
  vd_paper_lots :: int
  vd_opportunity :: "rat option"
  vd_execution_score :: rat
  vd_delta :: "rat option"
  vd_theta :: "rat option"
  vd_viable :: "bool option"
  vd_notes :: "viability_note list"
  vd_premium_risk :: "rat option"
  vd_premium :: "rat option"

text \<open>What a rejection reports beyond the levels: the option context it had reached.\<close>

record option_context =
  ox_delta :: rat
  ox_unit_risk :: rat
  ox_premium :: "rat option"
  ox_live_delta :: bool

definition opportunity :: "strategy_setup \<Rightarrow> rat option" where
  "opportunity s = nonzero (ss_confidence s)"

definition no_levels :: "strategy_setup \<Rightarrow> trade_levels" where
  "no_levels s = \<lparr>tl_stop = ss_stop s, tl_t1 = 0, tl_t2 = 0, tl_risk = 0, tl_reward1 = 0, tl_reward2 = 0, tl_rr1 = 0, tl_rr2 = 0,
     tl_ttl = 0, tl_time_stop = 0\<rparr>"

definition reject_decision :: "risk_reason \<Rightarrow> strategy_setup \<Rightarrow> bool \<Rightarrow> execution_status \<Rightarrow> trade_levels \<Rightarrow> validated_decision" where
  "reject_decision why s constraint status lv = \<lparr>vd_accepted = False, vd_reason = Some why, vd_version = 1, vd_entry = ss_entry s, vd_levels = lv,
     vd_lots = 0, vd_quantity = 0, vd_max_loss = 0, vd_lot_size = lot_size_of (ss_underlying s), vd_live = False, vd_paper = constraint,
     vd_status = (if constraint then status else SAFETY_BLOCKED), vd_paper_lots = (if constraint then 1 else 0),
     vd_opportunity = opportunity s, vd_execution_score = 0, vd_delta = None, vd_theta = None, vd_viable = None, vd_notes = [],
     vd_premium_risk = None, vd_premium = None\<rparr>"

definition refuse :: "risk_reason \<Rightarrow> strategy_setup \<Rightarrow> validated_decision" where
  "refuse why s = reject_decision why s False SAFETY_BLOCKED (no_levels s)"

definition with_option :: "strategy_setup \<Rightarrow> option_context \<Rightarrow> validated_decision \<Rightarrow> validated_decision" where
  "with_option s x d = d\<lparr>vd_delta := Some (round_places 4 (ox_delta x)), vd_theta := ss_theta s,
     vd_premium_risk := Some (round2 (ox_unit_risk x)), vd_premium := map_option round2 (ox_premium x)\<rparr>"

subsection \<open>Risk and targets\<close>

definition confidence_of :: "strategy_setup \<Rightarrow> rat" where
  "confidence_of s = (if ss_confidence s = 0 then 75 else ss_confidence s)"

definition raw_risk :: "strategy_setup \<Rightarrow> rat" where
  "raw_risk s = frnd (drnd (if ss_call s then ss_entry s - ss_stop s else ss_stop s - ss_entry s))"

definition spread_buffer :: "strategy_setup \<Rightarrow> rat \<Rightarrow> rat" where
  "spread_buffer s risk = (let spread = or_else (ss_spread s) 0; d = \<bar>or_else (ss_delta s) 0\<bar>; d' = (if d = 0 then 1 / 2 else d) in
     if 0 < spread \<and> frnd (15 / 100) \<le> d' then frnd (risk + min (frnd (risk * frnd (20 / 100))) (frnd (spread / d'))) else risk)"

definition validated_risk :: "envelope \<Rightarrow> strategy_setup \<Rightarrow> rat" where
  "validated_risk e s = spread_buffer s (max (max (raw_risk s) (en_min_risk e)) (frnd (frnd (ss_atr s) * en_atr_mult e)))"

text \<open>\<open>Decimal(str(round(x, 2)))\<close>, and an entry price moved by such an amount with or against the trade.\<close>

definition dec_round2 :: "rat \<Rightarrow> rat" where
  "dec_round2 x = of_int (round_half_even (x * 100)) / 100"

definition ahead :: "strategy_setup \<Rightarrow> rat \<Rightarrow> rat" where
  "ahead s x = drnd (if ss_call s then ss_entry s + dec_round2 x else ss_entry s - dec_round2 x)"

definition behind :: "strategy_setup \<Rightarrow> rat \<Rightarrow> rat" where
  "behind s x = drnd (if ss_call s then ss_entry s - dec_round2 x else ss_entry s + dec_round2 x)"

definition t1_points :: "envelope \<Rightarrow> strategy_setup \<Rightarrow> rat \<Rightarrow> rat" where
  "t1_points e s risk = (let fit = List.find (\<lambda>d. frnd (risk * en_min_rr e) \<le> d \<and> d \<le> en_t1_ceiling e)
        (map (\<lambda>c. frnd \<bar>drnd (c - ss_entry s)\<bar>) (ss_candidates s)) in
     case fit of Some d \<Rightarrow> if d = 0 then min (frnd (risk * (3 / 2))) (en_t1_ceiling e) else d
     | None \<Rightarrow> min (frnd (risk * (3 / 2))) (en_t1_ceiling e))"

definition t2_points :: "envelope \<Rightarrow> rat \<Rightarrow> rat \<Rightarrow> rat" where
  "t2_points e risk t1 = min (max (frnd (t1 * frnd (16 / 10))) (frnd (risk * 2))) (en_t2_ceiling e)"

definition trade_levels_of :: "envelope \<Rightarrow> strategy_setup \<Rightarrow> rat \<Rightarrow> trade_levels" where
  "trade_levels_of e s risk = (let t1 = t1_points e s risk; t2 = t2_points e risk t1 in
     \<lparr>tl_stop = behind s risk, tl_t1 = ahead s t1, tl_t2 = ahead s t2, tl_risk = round2 risk, tl_reward1 = round2 t1, tl_reward2 = round2 t2,
      tl_rr1 = round2 (frnd (t1 / risk)), tl_rr2 = round2 (frnd (t2 / risk)), tl_ttl = en_ttl e, tl_time_stop = en_time_stop e\<rparr>)"

text \<open>The levels reported with a risk that exceeds the envelope.\<close>

definition envelope_levels :: "envelope \<Rightarrow> strategy_setup \<Rightarrow> rat \<Rightarrow> trade_levels" where
  "envelope_levels e s risk = \<lparr>tl_stop = ss_stop s, tl_t1 = ahead s (frnd (risk * (3 / 2))), tl_t2 = ahead s (frnd (risk * 2)),
     tl_risk = round2 risk, tl_reward1 = round2 (frnd (risk * (3 / 2))), tl_reward2 = round2 (frnd (risk * 2)), tl_rr1 = 3 / 2, tl_rr2 = 2,
     tl_ttl = en_ttl e, tl_time_stop = en_time_stop e\<rparr>"

subsection \<open>Sizing\<close>

definition premium_stop_risk :: "rat \<Rightarrow> rat \<Rightarrow> rat \<Rightarrow> rat \<Rightarrow> rat \<Rightarrow> rat \<Rightarrow> rat" where
  "premium_stop_risk premium delta gamma spot_risk spread slip = (let
      d = \<bar>delta\<bar>; g = max 0 gamma; p = max 0 spot_risk; linear = frnd (d * p);
      convex = frnd (frnd (frnd (g / 2) * p) * p);
      r0 = max (frnd (linear / 2)) (frnd (linear - convex));
      r1 = (if 0 < premium then min r0 (frnd (premium * frnd (90 / 100))) else r0) in
     round2 (max (1 / 2) (frnd (frnd (r1 + max 0 spread) + max 0 slip))))"

definition option_context_of :: "risk_config \<Rightarrow> strategy_setup \<Rightarrow> rat \<Rightarrow> option_context" where
  "option_context_of rc s risk = (let
      live = (case ss_delta s of Some d \<Rightarrow> frnd (15 / 100) \<le> \<bar>d\<bar> | None \<Rightarrow> False);
      delta = (if live then \<bar>the (ss_delta s)\<bar> else rc_atm_delta rc);
      premium = positive (ss_premium s) in
     \<lparr>ox_delta = delta, ox_unit_risk = (case premium of
         Some p \<Rightarrow> premium_stop_risk p delta (or_else (ss_gamma s) 0) risk (or_else (ss_spread s) 0) (or_else (ss_slip s) 0)
       | None \<Rightarrow> frnd (risk * delta)),
      ox_premium = premium, ox_live_delta = live\<rparr>)"

definition risk_pct :: "risk_request \<Rightarrow> rat" where
  "risk_pct q = (case rq_overlay q of None \<Rightarrow> rq_pct q
     | Some o1 \<Rightarrow> if eo_multiplier o1 < 1 then frnd (rq_pct q * max (frnd (1 / 10)) (eo_multiplier o1)) else rq_pct q)"

definition allowed_rupees :: "risk_request \<Rightarrow> rat" where
  "allowed_rupees q = frnd (rq_capital q * frnd (risk_pct q / 100))"

definition affordable_lots :: "risk_request \<Rightarrow> option_context \<Rightarrow> int \<Rightarrow> int" where
  "affordable_lots q x lot = (let per_lot = frnd (ox_unit_risk x * of_int lot) in
     if 0 < per_lot then \<lfloor>frnd (allowed_rupees q / per_lot)\<rfloor> else 0)"

definition sized_lots :: "risk_request \<Rightarrow> strategy_setup \<Rightarrow> option_context \<Rightarrow> int" where
  "sized_lots q s x = (let n = min (affordable_lots q x (lot_size_of (ss_underlying s))) 10 in
     if confidence_of s < 50 \<and> 1 < n then max 1 (n div 2) else n)"

subsection \<open>The portfolio and friction checks\<close>

definition is_scalp_desk :: "strategy_setup \<Rightarrow> bool" where
  "is_scalp_desk s \<longleftrightarrow> ss_scalp s \<or> ss_timeframe s \<in> {''1M'', ''3M''}"

definition proposed_position :: "strategy_setup \<Rightarrow> option_context \<Rightarrow> int \<Rightarrow> greek_position" where
  "proposed_position s x qty = \<lparr>gp_id = [], gp_underlying = ss_underlying s,
     gp_horizon = (if is_scalp_desk s then ''SCALP'' else if ss_timeframe s = ''1D'' then ''SWING'' else ''INTRADAY''),
     gp_kind = (if ss_call s then CE else PE), gp_strike = or_else (ss_strike s) 0, gp_expiry = or_else (ss_expiry s) [], gp_quantity = qty,
     gp_delta = (if ss_call s then ox_delta x else - ox_delta x),
     gp_gamma = or_else (case ss_gamma s of Some g \<Rightarrow> nonzero g | None \<Rightarrow> None) (frnd (5 / 10000)),
     gp_theta = frnd (or_else (ss_theta s) 0 * (625 / 100)), gp_vega = 10\<rparr>"

definition portfolio_vetoes :: "greeks_ledger \<Rightarrow> strategy_setup \<Rightarrow> option_context \<Rightarrow> int \<Rightarrow> bool" where
  "portfolio_vetoes gl s x qty \<longleftrightarrow> or_else (ss_strike s) 0 \<noteq> 0 \<and> or_else (ss_expiry s) [] \<noteq> []
     \<and> \<not> mr_allowed (evaluate_marginal_trade (proposed_position s x qty) gl)"

text \<open>The strategies the candidate of the friction gate accepts; another name makes its construction fail.\<close>

definition STRATEGY_NAMES :: "string list" where
  "STRATEGY_NAMES = [''BREAKOUT'', ''VOLATILITY_BREAKOUT'', ''MEAN_REVERSION'', ''TREND_PULLBACK'', ''REGIME_ADAPTIVE_TREND'', ''GAMMA_SQUEEZE'',
     ''ORB'', ''VWAP_SCALP'', ''LIQUIDITY_SWEEP_RECLAIM'', ''MICRO_MOMENTUM'', ''MOMENTUM_REACCELERATION'', ''EMA_RIBBON'', ''GAMMA_SPIKE'',
     ''ABSORPTION_REVERSAL'', ''IV_REGIME'', ''VORTEX_SNAP'', ''FISHER_MACD_CONFLUENCE'']"

definition edge_candidate_of :: "envelope \<Rightarrow> strategy_setup \<Rightarrow> option_context \<Rightarrow> rat \<Rightarrow> trade_levels \<Rightarrow> edge_candidate" where
  "edge_candidate_of e s x risk lv = \<lparr>ec_underlying = ss_underlying s, ec_call = ss_call s, ec_spot = ss_spot s, ec_trigger = ss_entry s,
     ec_target = tl_t1 lv, ec_risk = dec_round2 risk, ec_contract = None,
     ec_greeks = Some \<lparr>sg_delta = Some (if ss_call s then ox_delta x else - ox_delta x), sg_theta_hour = Some (or_else (ss_theta s) 0),
       sg_theta = None, sg_iv = Some (or_else (ss_iv s) 0)\<rparr>, ec_time_stop = Some (en_time_stop e)\<rparr>"

definition edge_inputs_of :: "risk_request \<Rightarrow> envelope \<Rightarrow> strategy_setup \<Rightarrow> option_context \<Rightarrow> edge_inputs" where
  "edge_inputs_of q e s x = \<lparr>ei_premium = ox_premium x, ei_estimate = None,
     ei_spread = (case ss_spread s of Some v \<Rightarrow> nonzero v | None \<Rightarrow> None), ei_fallback_spread = None,
     ei_iv = (case ss_iv s of Some v \<Rightarrow> nonzero v | None \<Rightarrow> None), ei_slip = (case ss_slip s of Some v \<Rightarrow> nonzero v | None \<Rightarrow> None),
     ei_slip_pct = frnd (2 / 1000), ei_hours = rq_hours q, ei_holding = Some (en_time_stop e)\<rparr>"

definition friction_vetoes :: "option_model \<Rightarrow> int \<Rightarrow> chain_cache \<Rightarrow> mark_registry \<Rightarrow> risk_request \<Rightarrow> envelope \<Rightarrow> strategy_setup \<Rightarrow> option_context \<Rightarrow> rat \<Rightarrow> trade_levels \<Rightarrow> bool" where
  "friction_vetoes bs now cc reg q e s x risk lv \<longleftrightarrow> ox_premium x \<noteq> None \<and> ox_live_delta x \<and> ss_strategy s \<in> set STRATEGY_NAMES
     \<and> (let r = evaluate_edge default_friction_limits bs now cc reg (edge_inputs_of q e s x) (edge_candidate_of e s x risk lv) in
        er_reject r \<noteq> None \<or> er_net_rr r < frnd (7 / 10))"

text \<open>The drag of the hourly decay on the expected gain, in per cent, when both are known.\<close>

definition theta_drag_pct :: "strategy_setup \<Rightarrow> option_context \<Rightarrow> rat \<Rightarrow> rat option" where
  "theta_drag_pct s x t1 = (case ss_theta s of None \<Rightarrow> None
     | Some th \<Rightarrow> if 0 < frnd (t1 * ox_delta x) then Some (frnd (frnd (\<bar>th\<bar> / frnd (t1 * ox_delta x)) * 100)) else None)"

definition viability_notes :: "strategy_setup \<Rightarrow> option_context \<Rightarrow> rat \<Rightarrow> viability_note list" where
  "viability_notes s x t1 = (case theta_drag_pct s x t1 of None \<Rightarrow> []
     | Some p \<Rightarrow> [if 50 < p then HIGH_THETA_DRAG else ACCEPTABLE_THETA_DRAG])
   @ (if ss_theta s \<noteq> None \<and> ox_premium x \<noteq> None then [PREMIUM_STOP] else [])"

definition excessive_theta :: "strategy_setup \<Rightarrow> option_context \<Rightarrow> rat \<Rightarrow> bool" where
  "excessive_theta s x t1 \<longleftrightarrow> is_scalp_desk s \<and> (case theta_drag_pct s x t1 of Some p \<Rightarrow> 70 < p | None \<Rightarrow> False)"

subsection \<open>The engine\<close>

definition pre_check :: "risk_config \<Rightarrow> risk_request \<Rightarrow> strategy_setup \<Rightarrow> risk_reason option" where
  "pre_check rc q s = (
     if \<not> rq_allow_closed q \<and> \<not> rq_market_open q then Some MARKET_CLOSED
     else if (case rq_overlay q of Some o1 \<Rightarrow> \<not> eo_can_enter o1 | None \<Rightarrow> False) then Some EVENT_RISK_REJECTED
     else if confidence_of s < 32 then Some LOW_CONFIDENCE
     else if (case (rq_pnl q, rq_loss_cap q) of (Some p, Some c) \<Rightarrow> p \<le> - \<bar>c\<bar> | _ \<Rightarrow> False) then Some DAILY_LOSS_CAP
     else None)"

definition accept_decision :: "risk_config \<Rightarrow> risk_request \<Rightarrow> envelope \<Rightarrow> strategy_setup \<Rightarrow> option_context \<Rightarrow> rat \<Rightarrow> validated_decision" where
  "accept_decision rc q e s x risk = (let lv = trade_levels_of e s risk; n = sized_lots q s x; lot = lot_size_of (ss_underlying s) in
     with_option s x \<lparr>vd_accepted = True, vd_reason = None, vd_version = rc_version rc, vd_entry = ss_entry s,
       vd_levels = lv\<lparr>tl_time_stop := (if rq_expiry_day q then rat_trunc (frnd (of_int (en_time_stop e) * rc_expiry_factor rc)) else en_time_stop e)\<rparr>,
       vd_lots = n, vd_quantity = n * lot, vd_max_loss = round2 (frnd (of_int (n * lot) * ox_unit_risk x)), vd_lot_size = lot, vd_live = True,
       vd_paper = True, vd_status = LIVE_EXECUTABLE, vd_paper_lots = n, vd_opportunity = opportunity s,
       vd_execution_score = round_places 1 (frnd (tl_rr1 lv * 20)), vd_delta = None, vd_theta = None, vd_viable = Some True,
       vd_notes = viability_notes s x (t1_points e s risk), vd_premium_risk = None, vd_premium = None\<rparr>)"

definition size_decision :: "option_model \<Rightarrow> int \<Rightarrow> chain_cache \<Rightarrow> mark_registry \<Rightarrow> greeks_ledger \<Rightarrow> risk_config \<Rightarrow> risk_request \<Rightarrow> envelope \<Rightarrow> strategy_setup \<Rightarrow> rat \<Rightarrow> validated_decision" where
  "size_decision bs now cc reg gl rc q e s risk = (let
      lv = trade_levels_of e s risk; x = option_context_of rc s risk; lot = lot_size_of (ss_underlying s);
      blocked = (\<lambda>why status. with_option s x (reject_decision why s True status lv)) in
     if affordable_lots q x lot < 1 then blocked INSUFFICIENT_CAPITAL_FOR_1_LOT BLOCKED_CAPITAL
     else if portfolio_vetoes gl s x (sized_lots q s x * lot) then blocked PORTFOLIO_VETO BLOCKED_PORTFOLIO
     else if friction_vetoes bs now cc reg q e s x risk lv then blocked FRICTION_NET_RR BLOCKED_FRICTION
     else if excessive_theta s x (t1_points e s risk) then (blocked EXCESSIVE_THETA_DRAG BLOCKED_FRICTION)
       \<lparr>vd_viable := Some False, vd_notes := [HIGH_THETA_DRAG]\<rparr>
     else accept_decision rc q e s x risk)"

definition evaluate_setup :: "option_model \<Rightarrow> int \<Rightarrow> chain_cache \<Rightarrow> mark_registry \<Rightarrow> greeks_ledger \<Rightarrow> risk_config \<Rightarrow> risk_request \<Rightarrow> strategy_setup \<Rightarrow> validated_decision" where
  "evaluate_setup bs now cc reg gl rc q s = (case pre_check rc q s of Some why \<Rightarrow> refuse why s
   | None \<Rightarrow> (case resolve_envelope rc (ss_underlying s) (resolve_desk_key (ss_timeframe s) (ss_scalp s)) of
       None \<Rightarrow> refuse CONFIG_MISSING s
     | Some e \<Rightarrow> (let raw = raw_risk s; risk = validated_risk e s in
         if raw \<le> 0 then refuse INVALID_STOP_ORIENTATION s
         else if en_max_risk e < raw then reject_decision STRUCTURAL_RISK_EXCEEDS_ENVELOPE s True BLOCKED_ENVELOPE (envelope_levels e s raw)
         else if en_max_risk e < risk then reject_decision VOLATILITY_RISK_EXCEEDS_ENVELOPE s True BLOCKED_ENVELOPE (envelope_levels e s risk)
         else if tl_rr1 (trade_levels_of e s risk) < en_min_rr e
           then reject_decision INSUFFICIENT_RR s True BLOCKED_RR (trade_levels_of e s risk)
         else size_decision bs now cc reg gl rc q e s risk)))"

definition evaluate_with_events :: "option_model \<Rightarrow> int \<Rightarrow> chain_cache \<Rightarrow> mark_registry \<Rightarrow> greeks_ledger \<Rightarrow> risk_config \<Rightarrow> risk_request \<Rightarrow> risk_event list \<Rightarrow> int \<Rightarrow> strategy_setup \<Rightarrow> validated_decision" where
  "evaluate_with_events bs now cc reg gl rc q es clk s = evaluate_setup bs now cc reg gl rc
     (q\<lparr>rq_overlay := Some (evaluate_overlay default_overlay (ss_underlying s) clk es), rq_hours := None, rq_pnl := None, rq_loss_cap := None\<rparr>) s"

subsection \<open>A realistic range\<close>

definition resolve_realistic_atr :: "string \<Rightarrow> rat \<Rightarrow> rat option \<Rightarrow> rat" where
  "resolve_realistic_atr u spot atr = (case positive atr of
     Some v \<Rightarrow> if u = ''NIFTY'' then min 32 (max 14 v) else if u = ''BANKNIFTY'' then min 90 (max 35 v)
       else if u = ''SENSEX'' then min 130 (max 50 v) else v
   | None \<Rightarrow> if u = ''NIFTY'' then 20 else if u = ''BANKNIFTY'' then 55 else if u = ''SENSEX'' then 85 else drnd (spot / 1000))"

subsection \<open>An accepted decision\<close>

text \<open>What the envelopes of the default configuration satisfy.\<close>

definition envelope_ok :: "envelope \<Rightarrow> bool" where
  "envelope_ok e \<longleftrightarrow> 1 \<le> en_min_risk e \<and> en_max_risk e \<le> 10 ^ 6 \<and> 1 \<le> en_min_rr e \<and> 1 \<le> en_t1_ceiling e
     \<and> en_t1_ceiling e \<le> en_t2_ceiling e \<and> en_t2_ceiling e \<le> 10 ^ 6 \<and> frnd (en_t1_ceiling e) = en_t1_ceiling e
     \<and> frnd (en_min_risk e) = en_min_risk e"

lemma envelope_of_ok:
  assumes "1 \<le> a" "b \<le> 10 ^ 6" "1 \<le> r" "1 \<le> c" "c \<le> d" "d \<le> 10 ^ 6" "frnd c = c"
  shows "envelope_ok (envelope_of a b c d m r ttl stop)"
  using assms flt.rnd_mono [of 1 a] flt.rnd_mono [of 1 r] by (simp add: envelope_ok_def envelope_of_def flt.rnd_idem)

lemma default_envelopes_ok: "\<forall>(u, es) \<in> set (rc_envelopes DEFAULT_RISK_CONFIG). \<forall>(k, e) \<in> set es. envelope_ok e"
  by (simp add: DEFAULT_RISK_CONFIG_def envelope_of_ok)













text \<open>C17. The risk of the lots of an accepted decision stays within the budget up to the rounding of one division.\<close>

theorem risk_budget_kept:
  assumes "vd_accepted (evaluate_setup bs now cc reg gl rc q s)" "0 \<le> allowed_rupees q"
    and "resolve_envelope rc (ss_underlying s) (resolve_desk_key (ss_timeframe s) (ss_scalp s)) = Some e"
  shows "of_int (vd_lots (evaluate_setup bs now cc reg gl rc q s))
      * frnd (ox_unit_risk (option_context_of rc s (validated_risk e s)) * of_int (lot_size_of (ss_underlying s)))
    \<le> allowed_rupees q * (1 + 1 / 2 ^ 53)"
proof -
  let ?risk = "validated_risk e s"
  let ?x = "option_context_of rc s ?risk"
  let ?lot = "lot_size_of (ss_underlying s)"
  let ?per = "frnd (ox_unit_risk ?x * of_int ?lot)"
  have pre: "pre_check rc q s = None" using assms(1) by (auto simp: evaluate_setup_def refuse_def reject_decision_def split: option.splits)
  have d: "evaluate_setup bs now cc reg gl rc q s = size_decision bs now cc reg gl rc q e s ?risk"
    using assms(1) by (auto simp: evaluate_setup_def pre assms(3) refuse_def reject_decision_def Let_def split: if_splits)
  have acc: "evaluate_setup bs now cc reg gl rc q s = accept_decision rc q e s ?x ?risk" and lots: "1 \<le> affordable_lots q ?x ?lot"
    using assms(1) unfolding d by (auto simp: size_decision_def Let_def reject_decision_def with_option_def split: if_splits)
  have n: "vd_lots (evaluate_setup bs now cc reg gl rc q s) = sized_lots q s ?x" by (simp add: acc accept_decision_def with_option_def Let_def)
  have le: "sized_lots q s ?x \<le> affordable_lots q ?x ?lot" using lots by (auto simp: sized_lots_def Let_def)
  have per: "0 < ?per" using lots by (auto simp: affordable_lots_def Let_def split: if_splits)
  have "of_int (sized_lots q s ?x) \<le> (of_int (affordable_lots q ?x ?lot) :: rat)" using le by simp
  also have "\<dots> \<le> frnd (allowed_rupees q / ?per)" using per by (simp add: affordable_lots_def Let_def)
  also have "\<dots> \<le> allowed_rupees q / ?per * (1 + 1 / 2 ^ 53)"
    using round_sig_near [of 2 53 "allowed_rupees q / ?per"] assms(2) per by (simp add: frnd_def abs_le_iff algebra_simps)
  finally have "of_int (sized_lots q s ?x) * ?per \<le> allowed_rupees q / ?per * (1 + 1 / 2 ^ 53) * ?per" using per by (intro mult_right_mono) auto
  then show ?thesis using per by (simp add: n)
qed

text \<open>
  A proposal of a listed strategy that the selector priced is never accepted without a spread: the candidate that
  the engine builds for the friction gate has no contract to look one up.
\<close>

theorem priced_without_spread_refused:
  assumes "positive (ss_premium s) \<noteq> None" "ss_strategy s \<in> set STRATEGY_NAMES" "ss_delta s = Some d" "frnd (15 / 100) \<le> \<bar>d\<bar>"
    and "or_else (ss_spread s) 0 = 0"
  shows "\<not> vd_accepted (evaluate_setup bs now cc reg gl rc q s)"
proof -
  have spread: "ss_spread s = None \<or> ss_spread s = Some 0" using assms(5) by (cases "ss_spread s") auto
  have "friction_vetoes bs now cc reg q e s (option_context_of rc s risk) risk lv" for e risk lv
  proof -
    let ?i = "edge_inputs_of q e s (option_context_of rc s risk)" and ?c = "edge_candidate_of e s (option_context_of rc s risk) risk lv"
    have "resolve_live_spread now cc reg ?i ?c = None"
      using spread by (auto simp: resolve_live_spread_def edge_inputs_of_def edge_candidate_of_def contract_symbol_def nonzero_def positive_def get_mark_def)
    then have "er_reject (evaluate_edge default_friction_limits bs now cc reg ?i ?c) \<noteq> None"
      by (auto simp: evaluate_edge_def closed_edge_def split: option.splits)
    moreover have "ox_premium (option_context_of rc s risk) \<noteq> None" "ox_live_delta (option_context_of rc s risk)"
      using assms(1,3,4) by (simp_all add: option_context_of_def Let_def)
    ultimately show ?thesis using assms(2) unfolding friction_vetoes_def Let_def by blast
  qed
  then show ?thesis
    by (auto simp: evaluate_setup_def refuse_def reject_decision_def size_decision_def with_option_def Let_def split: option.splits)
qed

text \<open>A rejected proposal has no lots and is never live.\<close>

lemma rejected_never_live:
  "\<not> vd_accepted (evaluate_setup bs now cc reg gl rc q s) \<Longrightarrow>
     vd_lots (evaluate_setup bs now cc reg gl rc q s) = 0 \<and> \<not> vd_live (evaluate_setup bs now cc reg gl rc q s)"
  by (auto simp: evaluate_setup_def refuse_def reject_decision_def size_decision_def with_option_def accept_decision_def Let_def
      split: option.splits)

text \<open>A confidence of zero counts as 75.\<close>

lemma zero_confidence_passes: "ss_confidence s = 0 \<Longrightarrow> confidence_of s = 75"
  by (simp add: confidence_of_def)

definition demo_setup :: strategy_setup where
  "demo_setup = \<lparr>ss_strategy = ''ORB'', ss_underlying = ''NIFTY'', ss_call = True, ss_timeframe = ''5M'', ss_scalp = False, ss_spot = 24495,
     ss_entry = 24500, ss_stop = 24480, ss_candidates = [24530], ss_atr = 15, ss_confidence = 75, ss_delta = None, ss_premium = None,
     ss_theta = None, ss_iv = None, ss_gamma = None, ss_spread = None, ss_slip = None, ss_strike = None, ss_expiry = None\<rparr>"

definition demo_request :: risk_request where
  "demo_request = \<lparr>rq_capital = 200000, rq_pct = 1, rq_expiry_day = False, rq_allow_closed = False, rq_market_open = True, rq_overlay = None,
     rq_hours = None, rq_pnl = None, rq_loss_cap = None\<rparr>"

definition demo_envelope :: envelope where
  "demo_envelope = \<lparr>en_min_risk = frnd (126 / 10), en_max_risk = 35, en_t1_ceiling = 55, en_t2_ceiling = 80, en_atr_mult = 1, en_min_rr = 1,
     en_ttl = 600, en_time_stop = 4500\<rparr>"

lemma demo_min_risk: "frnd (63 / 5) \<le> 20"
  using flt.rnd_mono [of "63 / 5" 20] by simp

lemma demo_points: "raw_risk demo_setup = 20" "validated_risk demo_envelope demo_setup = 20" "t1_points demo_envelope demo_setup 20 = 30"
  by (simp_all add: raw_risk_def validated_risk_def demo_setup_def spread_buffer_def or_else_def demo_envelope_def t1_points_def max_absorb1
    demo_min_risk)

lemma demo_half: "frnd (3 / 2) = 3 / 2" "round2 (3 / 2) = 3 / 2"
  by (rule frnd_exactI [where c = 3 and k = "-1"]) (simp_all, code_simp)

lemma demo_ratio: "tl_rr1 (trade_levels_of demo_envelope demo_setup 20) = 3 / 2"
  by (simp add: trade_levels_of_def Let_def demo_points demo_half)

lemmas demo_levels = demo_points demo_ratio

lemma demo_sizes: "affordable_lots demo_request (option_context_of DEFAULT_RISK_CONFIG demo_setup 20) 75 = 2" "lot_size_of ''NIFTY'' = 75"
  by (simp_all add: affordable_lots_def option_context_of_def demo_setup_def demo_request_def Let_def DEFAULT_RISK_CONFIG_def allowed_rupees_def
    positive_def lot_size_of_def) code_simp

lemma demo_resolved: "resolve_envelope DEFAULT_RISK_CONFIG ''NIFTY'' (resolve_desk_key ''5M'' False) = Some demo_envelope"
  by (simp add: resolve_envelope_def DEFAULT_RISK_CONFIG_def resolve_desk_key_def demo_envelope_def envelope_of_def)

lemma demo_accepted: "vd_accepted (evaluate_setup bs now cc reg gl DEFAULT_RISK_CONFIG demo_request demo_setup)"
proof -
  let ?s = demo_setup
  have f: "ss_underlying ?s = ''NIFTY''" "ss_timeframe ?s = ''5M''" "ss_scalp ?s = False" "ss_strike ?s = None" "ss_premium ?s = None"
      "ss_theta ?s = None" "ss_confidence ?s = 75"
    by (simp_all add: demo_setup_def)
  have pre: "pre_check DEFAULT_RISK_CONFIG demo_request ?s = None" by (simp add: pre_check_def demo_request_def confidence_of_def f)
  have no: "\<not> portfolio_vetoes gl ?s x n" "\<not> friction_vetoes bs now cc reg demo_request e ?s (option_context_of DEFAULT_RISK_CONFIG ?s r) r lv"
      "\<not> excessive_theta ?s x t" for x n e r lv t
    by (simp_all add: portfolio_vetoes_def friction_vetoes_def option_context_of_def positive_def excessive_theta_def theta_drag_pct_def f Let_def)
  have e: "en_max_risk demo_envelope = 35" "en_min_rr demo_envelope = 1" by (simp_all add: demo_envelope_def)
  have "evaluate_setup bs now cc reg gl DEFAULT_RISK_CONFIG demo_request ?s
      = size_decision bs now cc reg gl DEFAULT_RISK_CONFIG demo_request demo_envelope ?s 20"
    by (simp add: evaluate_setup_def pre f demo_resolved demo_levels e)
  then show ?thesis by (simp add: size_decision_def Let_def f demo_sizes no accept_decision_def with_option_def)
qed



theorem risk_budget_kept_witness:
  "of_int (vd_lots (evaluate_setup (\<lambda>_ _ _ _. None) 0 chain_cache_init marks_init (greeks_ledger_init None) DEFAULT_RISK_CONFIG demo_request demo_setup))
    * frnd (ox_unit_risk (option_context_of DEFAULT_RISK_CONFIG demo_setup 20) * 75) \<le> 2000 * (1 + 1 / 2 ^ 53)"
proof -
  have a: "allowed_rupees demo_request = 2000" by code_simp
  have r: "resolve_envelope DEFAULT_RISK_CONFIG (ss_underlying demo_setup) (resolve_desk_key (ss_timeframe demo_setup) (ss_scalp demo_setup)) = Some demo_envelope"
    using demo_resolved by (simp add: demo_setup_def)
  have l: "lot_size_of (ss_underlying demo_setup) = 75" using demo_sizes(2) by (simp add: demo_setup_def)
  show ?thesis
    using risk_budget_kept [OF demo_accepted _ r, of "\<lambda>_ _ _ _. None" 0 chain_cache_init marks_init "greeks_ledger_init None"]
    by (simp add: a l demo_levels)
qed

definition priced_setup :: strategy_setup where
  "priced_setup = demo_setup\<lparr>ss_premium := Some 150, ss_delta := Some (1 / 2), ss_theta := Some (- 2), ss_iv := Some (14 / 100)\<rparr>"

theorem priced_without_spread_refused_witness:
  "\<not> vd_accepted (evaluate_setup (\<lambda>_ _ _ _. None) 0 chain_cache_init marks_init (greeks_ledger_init None) DEFAULT_RISK_CONFIG demo_request priced_setup)"
proof (rule priced_without_spread_refused)
  show "frnd (15 / 100) \<le> \<bar>1 / 2\<bar>" by code_simp
qed (simp_all add: priced_setup_def demo_setup_def positive_def STRATEGY_NAMES_def)

end
