(* ===== verification/Droid_FeedMonitor.thy ===== *)
theory Droid_FeedMonitor
  imports Droid_Marks
begin

text \<open>
  \<open>backend/app/signals/safety/feed_health_monitor.py\<close>: the composite status of the market-data pipeline over the
  chain cache and the mark registry, with the one-second cache and the hysteresis. The answers of the calendar, the
  broker configuration and the central feed are arguments; labels and messages are left out.
\<close>

subsection \<open>The status\<close>

datatype feed_status = FEED_LIVE | FEED_SYNCING | FEED_STALE | FEED_CHAIN_UNAVAILABLE | FEED_DOWN | FEED_CLOSED | FEED_AUTH_REQUIRED

datatype chain_status = CHAIN_FRESH | CHAIN_STALE | CHAIN_ABSENT

datatype mark_status = MARKS_LIVE | MARKS_MODEL_ONLY | MARKS_NONE

record pipeline =
  pl_market_open :: bool
  pl_token_usable :: bool
  pl_running :: bool
  pl_tick_age :: "rat option"

definition chain_status_of :: "int \<Rightarrow> chain_cache \<Rightarrow> chain_status" where
  "chain_status_of now c = (if cc_map c = [] then CHAIN_ABSENT
     else if 0 \<le> chain_age now c \<and> chain_age now c \<le> 180000 then CHAIN_FRESH else CHAIN_STALE)"

definition mark_status_of :: "mark_registry \<Rightarrow> mark_status" where
  "mark_status_of r = (if 0 < mark_count CHAIN_BIDASK r + mark_count CHAIN_LTP r then MARKS_LIVE
     else if 0 < mark_count MODEL_BLACK76 r then MARKS_MODEL_ONLY else MARKS_NONE)"

definition derive_status :: "pipeline \<Rightarrow> chain_status \<Rightarrow> mark_status \<Rightarrow> feed_status" where
  "derive_status p ch mk = (
     if \<not> pl_market_open p then FEED_CLOSED
     else if \<not> pl_token_usable p then FEED_AUTH_REQUIRED
     else if \<not> pl_running p then FEED_DOWN
     else (case pl_tick_age p of None \<Rightarrow> FEED_DOWN
       | Some a \<Rightarrow> if 60 < a then FEED_DOWN
           else if 15 < a then FEED_STALE
           else if ch = CHAIN_ABSENT then FEED_CHAIN_UNAVAILABLE
           else if ch = CHAIN_STALE then FEED_STALE
           else if mk = MARKS_MODEL_ONLY then FEED_STALE
           else FEED_LIVE))"

definition compute_status :: "int \<Rightarrow> pipeline \<Rightarrow> chain_cache \<times> mark_registry \<Rightarrow> feed_status" where
  "compute_status now p d = derive_status p (chain_status_of now (fst d)) (mark_status_of (snd d))"

subsection \<open>Cache and hysteresis\<close>

definition TELEMETRY_TTL_NS :: int where "TELEMETRY_TTL_NS = 1000000000"
definition HYSTERESIS_N :: nat where "HYSTERESIS_N = 3"

record telemetry =
  tm_status :: feed_status
  tm_healthy :: bool
  tm_pending :: "feed_status option"

record feed_monitor =
  fm_last_raw :: "feed_status option"
  fm_stable :: "feed_status option"
  fm_count :: nat
  fm_cache :: "(int \<times> telemetry) option"

definition feed_monitor_init :: feed_monitor where
  "feed_monitor_init = \<lparr>fm_last_raw = None, fm_stable = None, fm_count = 0, fm_cache = None\<rparr>"

definition plain_telemetry :: "feed_status \<Rightarrow> telemetry" where
  "plain_telemetry s = \<lparr>tm_status = s, tm_healthy = (s = FEED_LIVE), tm_pending = None\<rparr>"

definition settle_status :: "feed_status \<Rightarrow> feed_monitor \<Rightarrow> feed_monitor \<times> telemetry" where
  "settle_status raw m = (case fm_stable m of
     None \<Rightarrow> (m\<lparr>fm_stable := Some raw, fm_count := 1, fm_last_raw := Some raw\<rparr>, plain_telemetry raw)
   | Some st \<Rightarrow>
       if fm_last_raw m = Some raw then
         (m\<lparr>fm_count := fm_count m + 1, fm_stable := (if HYSTERESIS_N \<le> fm_count m + 1 then Some raw else Some st)\<rparr>, plain_telemetry raw)
       else (m\<lparr>fm_last_raw := Some raw, fm_count := 1\<rparr>, \<lparr>tm_status = st, tm_healthy = (st = FEED_LIVE), tm_pending = Some raw\<rparr>))"

definition get_telemetry :: "int \<Rightarrow> bool \<Rightarrow> feed_status \<Rightarrow> feed_monitor \<Rightarrow> feed_monitor \<times> telemetry" where
  "get_telemetry now_ns use_cache raw m = (
     case (if use_cache then fm_cache m else None) of
       Some (t, p) \<Rightarrow> if now_ns - t < TELEMETRY_TTL_NS then (m, p)
         else (case settle_status raw m of (m', p') \<Rightarrow> (m'\<lparr>fm_cache := Some (now_ns, p')\<rparr>, p'))
     | None \<Rightarrow> (case settle_status raw m of (m', p') \<Rightarrow> (m'\<lparr>fm_cache := Some (now_ns, p')\<rparr>, p')))"

subsection \<open>What is shown as live\<close>

text \<open>
  The pipeline is live exactly when the market is open, the token usable, the feed running with a tick at most 15
  seconds old, the chain not empty and refreshed at most three minutes ago, and not every mark is a model price; an
  empty registry of marks counts as live.
\<close>

theorem feed_live_iff:
  "compute_status now p d = FEED_LIVE \<longleftrightarrow> pl_market_open p \<and> pl_token_usable p \<and> pl_running p \<and> (\<exists>a. pl_tick_age p = Some a \<and> a \<le> 15)
     \<and> cc_map (fst d) \<noteq> [] \<and> 0 \<le> chain_age now (fst d) \<and> chain_age now (fst d) \<le> 180000
     \<and> (0 < mark_count CHAIN_BIDASK (snd d) + mark_count CHAIN_LTP (snd d) \<or> mark_count MODEL_BLACK76 (snd d) = 0)"
  by (auto simp: compute_status_def derive_status_def chain_status_of_def mark_status_of_def split: option.splits if_splits)

text \<open>A change of status is published on the second agreeing poll, not the third.\<close>

lemma second_poll_publishes:
  assumes "fm_stable m = Some st" "fm_last_raw m \<noteq> Some raw"
  shows "tm_status (snd (settle_status raw m)) = st \<and> tm_status (snd (settle_status raw (fst (settle_status raw m)))) = raw
    \<and> fm_stable (fst (settle_status raw (fst (settle_status raw m)))) = Some st"
  using assms by (simp add: settle_status_def plain_telemetry_def HYSTERESIS_N_def)

text \<open>With every chain request failing the chain is still fresh, so the feed stays live on rows of any age of the day.\<close>

lemma failed_refresh_stays_live:
  assumes "\<forall>a \<in> set answers. snd (snd a) = None" "now \<noteq> 0" "cc_map (fst (purge_expired now c)) \<noteq> []"
  shows "chain_status_of now (fst (refresh_chain answers now (c, r))) = CHAIN_FRESH"
  using failed_refresh_looks_fresh [OF assms(1,2)] assms(3) by (simp add: chain_status_of_def)

text \<open>Between two changes of the raw status the published one is the raw one from the second poll on.\<close>

lemma steady_status_published:
  assumes "fm_stable m \<noteq> None" "1 < n"
  shows "tm_status (snd (settle_status raw (((\<lambda>m. fst (settle_status raw m)) ^^ (n - 1)) m))) = raw"
proof -
  have step: "fm_last_raw (fst (settle_status raw k)) = Some raw \<and> fm_stable (fst (settle_status raw k)) \<noteq> None" for k
    by (auto simp: settle_status_def split: option.splits)
  have last: "fm_last_raw (((\<lambda>m. fst (settle_status raw m)) ^^ Suc j) m) = Some raw
      \<and> fm_stable (((\<lambda>m. fst (settle_status raw m)) ^^ Suc j) m) \<noteq> None" for j
    using step by simp
  obtain j where j: "n - 1 = Suc j" using assms(2) by (cases "n - 1") auto
  have "tm_status (snd (settle_status raw k)) = raw" if "fm_last_raw k = Some raw" "fm_stable k \<noteq> None" for k
    using that by (auto simp: settle_status_def plain_telemetry_def)
  then show ?thesis using last [of j] unfolding j by blast
qed

end
