(* ===== verification/Droid_Gates.thy ===== *)
theory Droid_Gates
  imports Droid_SignalFSM Droid_Arbiter Droid_Feed Droid_Trigger
begin

text \<open>
  \<open>backend/app/signals/pipeline/gates.py\<close>: the chain of gates a candidate passes before the risk engine, over the
  feed circuit, the signal state machine, the arbiter and the trigger gate. Indicator values are numbers; the chain
  mark of the contract is an argument, and so are the multiples the arbiter reads from a signal.
\<close>

subsection \<open>Candidates and results\<close>

record gate_candidate =
  gc_underlying :: string
  gc_strategy :: string
  gc_direction :: string
  gc_timeframe :: string
  gc_scalp :: bool
  gc_spot :: rat
  gc_entry_min :: rat
  gc_entry_max :: rat
  gc_trigger :: rat
  gc_stop :: rat
  gc_t1 :: rat
  gc_t2 :: rat
  gc_risk :: rat
  gc_rr2 :: rat
  gc_rsi :: "rat option"
  gc_atr :: "rat option"
  gc_resistance :: "rat list"
  gc_support :: "rat list"
  gc_viable :: "bool option"
  gc_chain_mark :: "bool option"

datatype gate_name = FeedCircuitGate | FNOIntegrityGate | DeskConcurrencyGate | PortfolioConcurrencyGate | CrossDeskArbiterGate
  | RSIGate | MarketStructureGate | TriggerIntegrityGate | OptionViabilityGate | ChainMarkGate

datatype gate_reason = FEED_DEGRADED_CIRCUIT_BREAKER | UNDERLYING_HAS_ACTIVE_TRADE string | STACKING_BLOCKED_EXISTING string
  | CROSS_DESK_STACKING_BLOCKED string | PORTFOLIO_CONCURRENCY_LIMIT_REACHED | ARBITER_REFUSED | RSI_REJECTION | BLOCKED_BY_RESISTANCE
  | BLOCKED_BY_SUPPORT | TRIGGER_REFUSED string | OPTION_NOT_ECONOMICALLY_VIABLE | CHAIN_MARK_UNAVAILABLE | CHAIN_FORMULA_FALLBACK

record gate_outcome =
  go_passed :: bool
  go_gate :: gate_name
  go_reason :: "gate_reason option"

definition gate_verdict :: "gate_name \<Rightarrow> gate_reason option \<Rightarrow> gate_outcome" where
  "gate_verdict g why = \<lparr>go_passed = (why = None), go_gate = g, go_reason = why\<rparr>"

text \<open>What the gates read and move: the feed system and the manager of the signals.\<close>

type_synonym gate_world = "feed_system \<times> fsm_manager"

subsection \<open>The gates\<close>

definition feed_circuit_gate :: "gate_candidate \<Rightarrow> gate_world \<Rightarrow> gate_world \<times> gate_outcome" where
  "feed_circuit_gate c w = (case is_degraded (gc_underlying c) (fst w) of
     (fs, bad) \<Rightarrow> ((fs, snd w), gate_verdict FeedCircuitGate (if bad then Some FEED_DEGRADED_CIRCUIT_BREAKER else None)))"

definition fno_gate :: gate_outcome where
  "fno_gate = gate_verdict FNOIntegrityGate None"

definition scalp_desk :: "bool \<Rightarrow> string \<Rightarrow> bool" where
  "scalp_desk scalp tf \<longleftrightarrow> scalp \<or> tf \<in> {''1M'', ''3M''}"

definition signal_desk :: "signal \<Rightarrow> bool" where
  "signal_desk s = scalp_desk (sg_is_scalp s) (sg_timeframe s)"

definition candidate_desk :: "gate_candidate \<Rightarrow> bool" where
  "candidate_desk c = scalp_desk (gc_scalp c) (gc_timeframe c)"

definition in_flight_states :: "fsm_state list" where
  "in_flight_states = [DETECTED, VALIDATED, ARMED, TRIGGERED, CONFIRMED, TARGET_1_HIT]"

definition open_states :: "fsm_state list" where
  "open_states = [CONFIRMED, TARGET_1_HIT]"

definition stacked_states :: "fsm_state list" where
  "stacked_states = [ARMED, TRIGGERED, CONFIRMED, TARGET_1_HIT]"

definition in_flight :: "int \<Rightarrow> gate_candidate \<Rightarrow> signal list \<Rightarrow> signal list \<Rightarrow> signal list" where
  "in_flight now c registered active =
     filter (\<lambda>s. sg_state s \<in> set in_flight_states \<and> \<not> is_expired s now) active
     @ filter (\<lambda>s. sg_underlying s = gc_underlying c) registered"

definition desk_reason :: "gate_candidate \<Rightarrow> signal list \<Rightarrow> gate_reason option" where
  "desk_reason c ss = (let same = filter (\<lambda>s. signal_desk s = candidate_desk c) ss in
     case filter (\<lambda>s. sg_state s \<in> set open_states) same of
       s # _ \<Rightarrow> Some (UNDERLYING_HAS_ACTIVE_TRADE (sg_strategy s))
     | [] \<Rightarrow> (case filter (\<lambda>s. sg_direction s = gc_direction c \<and> sg_state s \<in> set stacked_states) same of
         s # _ \<Rightarrow> Some (STACKING_BLOCKED_EXISTING (sg_strategy s))
       | [] \<Rightarrow> (case filter (\<lambda>s. sg_direction s = gc_direction c \<and> sg_strategy s = gc_strategy c \<and> sg_state s \<in> set stacked_states) ss of
           s # _ \<Rightarrow> Some (CROSS_DESK_STACKING_BLOCKED (sg_strategy s))
         | [] \<Rightarrow> None)))"

definition desk_gate :: "fsm_env \<Rightarrow> signal list \<Rightarrow> gate_candidate \<Rightarrow> gate_world \<Rightarrow> gate_world \<times> gate_outcome" where
  "desk_gate env registered c w = (case list_active env (Some (gc_underlying c)) None False (snd w) of
     (fm, active) \<Rightarrow> ((fst w, fm), gate_verdict DeskConcurrencyGate (desk_reason c (in_flight (env_now env) c registered active))))"

definition MAX_OPEN_TRADES :: nat where "MAX_OPEN_TRADES = 4"

definition portfolio_gate :: "fsm_env \<Rightarrow> gate_world \<Rightarrow> gate_world \<times> gate_outcome" where
  "portfolio_gate env w = (case list_active env None None False (snd w) of
     (fm, active) \<Rightarrow> ((fst w, fm), gate_verdict PortfolioConcurrencyGate
       (if MAX_OPEN_TRADES \<le> length (filter (\<lambda>s. sg_state s \<in> set open_states \<and> \<not> is_expired s (env_now env)) active)
        then Some PORTFOLIO_CONCURRENCY_LIMIT_REACHED else None)))"

fun fsm_state_name :: "fsm_state \<Rightarrow> string" where
  "fsm_state_name DETECTED = ''DETECTED''"
| "fsm_state_name VALIDATED = ''VALIDATED''"
| "fsm_state_name PRE_ARMED = ''PRE_ARMED''"
| "fsm_state_name ARMED = ''ARMED''"
| "fsm_state_name TRIGGERED = ''TRIGGERED''"
| "fsm_state_name CONFIRMED = ''CONFIRMED''"
| "fsm_state_name TARGET_1_HIT = ''TARGET_1_HIT''"
| "fsm_state_name TARGET_2_HIT = ''TARGET_2_HIT''"
| "fsm_state_name STOP_LOSS_HIT = ''STOP_LOSS_HIT''"
| "fsm_state_name TIME_STOP_HIT = ''TIME_STOP_HIT''"
| "fsm_state_name RUNNER_TIME_STOP_HIT = ''RUNNER_TIME_STOP_HIT''"
| "fsm_state_name EXPIRED = ''EXPIRED''"
| "fsm_state_name INVALIDATED = ''INVALIDATED''"
| "fsm_state_name CLOSED = ''CLOSED''"

definition trade_of_signal :: "(signal \<Rightarrow> rat option list) \<Rightarrow> signal \<Rightarrow> desk_trade" where
  "trade_of_signal rvals s = \<lparr>dt_underlying = sg_underlying s, dt_direction = sg_direction s, dt_fsm_state = Text (fsm_state_name (sg_state s)),
     dt_position_state = Absent, dt_r_values = rvals s, dt_is_scalp = sg_is_scalp s, dt_timeframe = sg_timeframe s\<rparr>"

definition arb_candidate_of :: "gate_candidate \<Rightarrow> arb_candidate" where
  "arb_candidate_of c = \<lparr>ac_is_scalp = candidate_desk c, ac_underlying = gc_underlying c, ac_direction = gc_direction c, ac_greeks = [],
     ac_quantity = None, ac_expiry = None, ac_horizon = None\<rparr>"

definition arbiter_gate :: "fsm_env \<Rightarrow> (signal \<Rightarrow> rat option list) \<Rightarrow> greeks_ledger \<Rightarrow> gate_candidate \<Rightarrow> gate_world \<Rightarrow> gate_world \<times> gate_outcome" where
  "arbiter_gate env rvals gl c w = (case list_active env None None False (snd w) of
     (fm, active) \<Rightarrow> ((fst w, fm), gate_verdict CrossDeskArbiterGate
       (if ad_passed (arbitrate (arb_candidate_of c) (map (trade_of_signal rvals) active) gl) then None else Some ARBITER_REFUSED)))"

definition is_call :: "gate_candidate \<Rightarrow> bool" where
  "is_call c = occurs_in ''CALL'' (gc_direction c)"

text \<open>The band of the relative strength index for calls and for puts.\<close>

definition rsi_band :: "string \<Rightarrow> bool \<Rightarrow> rat \<Rightarrow> bool" where
  "rsi_band strat call v = (
     if strat = ''MEAN_REVERSION'' then (if call then v \<le> 48 else 52 \<le> v)
     else if strat \<in> {''BREAKOUT'', ''MICRO_MOMENTUM'', ''GAMMA_SQUEEZE'', ''GAMMA_SPIKE''} then
       (if call then 40 \<le> v \<and> v \<le> 90 else 10 \<le> v \<and> v \<le> 60)
     else if strat \<in> {''TREND_PULLBACK'', ''EMA_RIBBON'', ''ORB'', ''VWAP_SCALP''} then
       (if call then 30 \<le> v \<and> v \<le> 82 else 18 \<le> v \<and> v \<le> 70)
     else (if call then 28 \<le> v \<and> v \<le> 85 else 15 \<le> v \<and> v \<le> 72))"

definition rsi_gate :: "gate_candidate \<Rightarrow> gate_outcome" where
  "rsi_gate c = gate_verdict RSIGate (case gc_rsi c of None \<Rightarrow> None
     | Some v \<Rightarrow> if rsi_band (map to_upper (gc_strategy c)) (is_call c) v then None else Some RSI_REJECTION)"

definition structure_range :: "gate_candidate \<Rightarrow> rat" where
  "structure_range c = (case gc_atr c of Some a \<Rightarrow> if a \<noteq> 0 then a else if gc_risk c = 0 then 20 else gc_risk c
     | None \<Rightarrow> if gc_risk c = 0 then 20 else gc_risk c)"

definition too_near :: "gate_candidate \<Rightarrow> rat list \<Rightarrow> bool" where
  "too_near c ds \<longleftrightarrow> ds \<noteq> [] \<and> Min (set (map drnd ds)) < drnd (structure_range c * (1 / 10))"

definition structure_gate :: "gate_candidate \<Rightarrow> gate_outcome" where
  "structure_gate c = gate_verdict MarketStructureGate (
     if is_call c then
       (if too_near c (map (\<lambda>l. l - gc_spot c) (filter (\<lambda>l. gc_spot c < l) (gc_resistance c))) then Some BLOCKED_BY_RESISTANCE else None)
     else (if too_near c (map (\<lambda>l. gc_spot c - l) (filter (\<lambda>l. l < gc_spot c) (gc_support c))) then Some BLOCKED_BY_SUPPORT else None))"

definition dec_price :: "rat \<Rightarrow> declike option" where
  "dec_price x = Some (DecV (DFin x))"

definition trigger_of :: "gate_candidate \<Rightarrow> trigger_input" where
  "trigger_of c = \<lparr>ti_direction = gc_direction c, ti_spot = dec_price (gc_spot c), ti_entry_min = dec_price (gc_entry_min c),
     ti_entry_max = dec_price (gc_entry_max c), ti_trigger = dec_price (gc_trigger c), ti_stop = dec_price (gc_stop c),
     ti_target_1 = dec_price (gc_t1 c), ti_target_2 = dec_price (gc_t2 c), ti_risk = dec_price (gc_risk c), ti_rr_t2 = Some (DFin (gc_rr2 c)),
     ti_scalp = gc_scalp c, ti_timeframe = gc_timeframe c, ti_atr = None, ti_spread = None, ti_slip = None\<rparr>"

definition trigger_integrity_gate :: "gate_candidate \<Rightarrow> gate_outcome" where
  "trigger_integrity_gate c = gate_verdict TriggerIntegrityGate (map_option TRIGGER_REFUSED (check_trigger_integrity (trigger_of c)))"

definition viability_gate :: "gate_candidate \<Rightarrow> gate_outcome" where
  "viability_gate c = gate_verdict OptionViabilityGate (if gc_viable c = Some False then Some OPTION_NOT_ECONOMICALLY_VIABLE else None)"

definition chain_mark_gate :: "gate_candidate \<Rightarrow> gate_outcome" where
  "chain_mark_gate c = (case gc_chain_mark c of
     None \<Rightarrow> gate_verdict ChainMarkGate (Some CHAIN_MARK_UNAVAILABLE)
   | Some True \<Rightarrow> gate_verdict ChainMarkGate None
   | Some False \<Rightarrow> \<lparr>go_passed = True, go_gate = ChainMarkGate, go_reason = Some CHAIN_FORMULA_FALLBACK\<rparr>)"

subsection \<open>The chain\<close>

definition evaluate_gates ::
  "fsm_env \<Rightarrow> (signal \<Rightarrow> rat option list) \<Rightarrow> greeks_ledger \<Rightarrow> signal list \<Rightarrow> gate_candidate \<Rightarrow> gate_world \<Rightarrow> gate_world \<times> bool \<times> gate_outcome list" where
  "evaluate_gates env rvals gl registered c w0 = (
     case feed_circuit_gate c w0 of (w1, r1) \<Rightarrow>
     case desk_gate env registered c w1 of (w2, r3) \<Rightarrow>
     case portfolio_gate env w2 of (w3, r4) \<Rightarrow>
     case arbiter_gate env rvals gl c w3 of (w4, r5) \<Rightarrow>
       let rs = [r1, fno_gate, r3, r4, r5, rsi_gate c, structure_gate c, trigger_integrity_gate c, viability_gate c, chain_mark_gate c] in
       (w4, list_all go_passed rs, rs))"

subsection \<open>An admitted candidate\<close>

text \<open>The signals of the manager after the sweep that every listing starts with.\<close>

definition swept_signals :: "fsm_env \<Rightarrow> fsm_manager \<Rightarrow> signal list" where
  "swept_signals env fm = map snd (fm_signals (fst (sweep_expired env None fm)))"

lemma listed:
  "set (snd (list_active env u st False fm)) = {s \<in> set (swept_signals env fm). sg_state s \<notin> set TERMINAL_STATES
     \<and> matches_filter u (sg_underlying s) \<and> matches_filter st (sg_strategy s)}"
  "fst (list_active env u st False fm) = fst (sweep_expired env None fm)"
  by (auto simp: list_active_def swept_signals_def Let_def)

lemma listed_count:
  "length (filter P (snd (list_active env None None False fm))) = length (filter P (filter (\<lambda>s. sg_state s \<notin> set TERMINAL_STATES) (swept_signals env fm)))"
proof -
  have "mset (filter P (snd (list_active env None None False fm))) = mset (filter P (filter (\<lambda>s. sg_state s \<notin> set TERMINAL_STATES) (swept_signals env fm)))"
    by (simp add: list_active_def swept_signals_def Let_def matches_filter_def filter_filter_mset conj_commute)
  then show ?thesis by (metis size_mset)
qed

lemma open_not_terminal: "sg_state s \<in> set open_states \<Longrightarrow> sg_state s \<notin> set TERMINAL_STATES \<and> sg_state s \<in> set in_flight_states
    \<and> sg_state s \<in> set stacked_states \<and> \<not> is_expired s now"
  by (auto simp: open_states_def TERMINAL_STATES_def in_flight_states_def stacked_states_def is_expired_def)

lemma verdict_simps [simp]: "go_passed (gate_verdict g why) = (why = None)" "go_reason (gate_verdict g why) = why"
  by (simp_all add: gate_verdict_def)

lemma gates_run:
  "fst (snd (evaluate_gates env rvals gl registered c w)) \<longleftrightarrow>
     go_passed (snd (feed_circuit_gate c w)) \<and> go_passed (snd (desk_gate env registered c (fst (feed_circuit_gate c w))))
     \<and> go_passed (snd (portfolio_gate env (fst (desk_gate env registered c (fst (feed_circuit_gate c w))))))
     \<and> go_passed (snd (arbiter_gate env rvals gl c (fst (portfolio_gate env (fst (desk_gate env registered c (fst (feed_circuit_gate c w))))))))
     \<and> go_passed (rsi_gate c) \<and> go_passed (structure_gate c) \<and> go_passed (trigger_integrity_gate c) \<and> go_passed (viability_gate c)
     \<and> go_passed (chain_mark_gate c)"
  by (simp add: evaluate_gates_def Let_def case_prod_beta fno_gate_def)

lemma gate_results:
  "go_passed (snd (feed_circuit_gate c w)) \<longleftrightarrow> \<not> snd (is_degraded (gc_underlying c) (fst w))"
  "snd (fst (feed_circuit_gate c w)) = snd w"
  "go_passed (snd (desk_gate env registered c w)) \<longleftrightarrow>
     desk_reason c (in_flight (env_now env) c registered (snd (list_active env (Some (gc_underlying c)) None False (snd w)))) = None"
  "snd (fst (desk_gate env registered c w)) = fst (sweep_expired env None (snd w))"
  "go_passed (snd (portfolio_gate env w)) \<longleftrightarrow> length (filter (\<lambda>s. sg_state s \<in> set open_states \<and> \<not> is_expired s (env_now env))
       (snd (list_active env None None False (snd w)))) < MAX_OPEN_TRADES"
  "snd (fst (portfolio_gate env w)) = fst (sweep_expired env None (snd w))"
  "go_passed (trigger_integrity_gate c) \<longleftrightarrow> check_trigger_integrity (trigger_of c) = None"
  "go_passed (viability_gate c) \<longleftrightarrow> gc_viable c \<noteq> Some False"
  by (simp_all add: feed_circuit_gate_def desk_gate_def portfolio_gate_def trigger_integrity_gate_def viability_gate_def case_prod_beta listed(2) not_le)

lemma chain_mark_passed: "go_passed (chain_mark_gate c) \<longleftrightarrow> gc_chain_mark c \<noteq> None"
  by (simp add: chain_mark_gate_def split: option.split bool.split)

lemma gates_passed:
  assumes "fst (snd (evaluate_gates env rvals gl registered c (fs, fm)))"
  shows "\<not> snd (is_degraded (gc_underlying c) fs)"
    and "desk_reason c (in_flight (env_now env) c registered (snd (list_active env (Some (gc_underlying c)) None False fm))) = None"
    and "length (filter (\<lambda>s. sg_state s \<in> set open_states \<and> \<not> is_expired s (env_now env))
       (snd (list_active env None None False (fst (sweep_expired env None fm))))) < MAX_OPEN_TRADES"
    and "go_passed (rsi_gate c)" "go_passed (structure_gate c)" "check_trigger_integrity (trigger_of c) = None" "gc_viable c \<noteq> Some False"
      "gc_chain_mark c \<noteq> None"
  using assms unfolding gates_run gate_results chain_mark_passed by simp_all

lemma desk_clear:
  assumes "desk_reason c ss = None" "s \<in> set ss" "signal_desk s = candidate_desk c"
  shows "sg_state s \<notin> set open_states" "sg_direction s = gc_direction c \<Longrightarrow> sg_state s \<notin> set stacked_states"
  using assms by (auto simp: desk_reason_def Let_def filter_empty_conv split: list.splits)

lemma in_flight_mem:
  assumes "s \<in> set (swept_signals env fm)" "sg_underlying s = gc_underlying c" "map to_upper (gc_underlying c) = gc_underlying c"
    "sg_state s \<in> {CONFIRMED, TARGET_1_HIT, TRIGGERED}"
  shows "s \<in> set (in_flight now c registered (snd (list_active env (Some (gc_underlying c)) None False fm)))"
proof -
  have "sg_state s \<notin> set TERMINAL_STATES" "sg_state s \<in> set in_flight_states" "\<not> is_expired s now"
    using assms(4) by (auto simp: TERMINAL_STATES_def in_flight_states_def is_expired_def)
  then show ?thesis using assms(1-3) by (simp add: in_flight_def listed(1) matches_filter_def)
qed

lemma open_filter:
  "filter (\<lambda>s. sg_state s \<in> set open_states \<and> \<not> is_expired s now) (filter (\<lambda>s. sg_state s \<notin> set TERMINAL_STATES) xs)
     = filter (\<lambda>s. sg_state s \<in> {CONFIRMED, TARGET_1_HIT}) xs"
  unfolding filter_filter by (rule filter_cong) (auto simp: open_states_def TERMINAL_STATES_def is_expired_def)

text \<open>
  C21. A candidate that passes every gate meets no trade of its own desk in its underlying: no signal of that desk is
  confirmed or past its first target, none in the same direction is triggered, and over all underlyings fewer than
  four trades are open; and its feed is not degraded, its trigger geometry is sound and its contract is resolved.
\<close>

theorem admitted_candidate_alone:
  assumes "fst (snd (evaluate_gates env rvals gl registered c (fs, fm)))" "map to_upper (gc_underlying c) = gc_underlying c"
  shows "(\<forall>s \<in> set (swept_signals env fm). sg_underlying s = gc_underlying c \<longrightarrow> signal_desk s = candidate_desk c \<longrightarrow>
        sg_state s \<notin> {CONFIRMED, TARGET_1_HIT} \<and> (sg_direction s = gc_direction c \<longrightarrow> sg_state s \<noteq> TRIGGERED))
    \<and> length (filter (\<lambda>s. sg_state s \<in> {CONFIRMED, TARGET_1_HIT}) (swept_signals env (fst (sweep_expired env None fm)))) < 4
    \<and> \<not> snd (is_degraded (gc_underlying c) fs) \<and> check_trigger_integrity (trigger_of c) = None \<and> gc_chain_mark c \<noteq> None"
proof -
  note g = gates_passed [OF assms(1)]
  have own: "sg_state s \<notin> {CONFIRMED, TARGET_1_HIT} \<and> (sg_direction s = gc_direction c \<longrightarrow> sg_state s \<noteq> TRIGGERED)"
    if "s \<in> set (swept_signals env fm)" "sg_underlying s = gc_underlying c" "signal_desk s = candidate_desk c" for s
    using desk_clear [OF g(2) in_flight_mem [OF that(1,2) assms(2)] that(3)] by (auto simp: open_states_def stacked_states_def)
  have few: "length (filter (\<lambda>s. sg_state s \<in> {CONFIRMED, TARGET_1_HIT}) (swept_signals env (fst (sweep_expired env None fm)))) < 4"
    using g(3) by (simp only: listed_count open_filter MAX_OPEN_TRADES_def)
  show ?thesis using own few g(1,6,8) by simp
qed

definition gate_demo :: gate_candidate where
  "gate_demo = \<lparr>gc_underlying = ''NIFTY'', gc_strategy = ''VORTEX_SNAP'', gc_direction = ''LONG_CALL'', gc_timeframe = ''5M'', gc_scalp = False,
     gc_spot = 100, gc_entry_min = 104, gc_entry_max = 105, gc_trigger = 104, gc_stop = 96, gc_t1 = 112, gc_t2 = 120, gc_risk = 8, gc_rr2 = 2,
     gc_rsi = Some 50, gc_atr = Some 4, gc_resistance = [110], gc_support = [], gc_viable = None, gc_chain_mark = Some True\<rparr>"

lemma demo_trigger_sound: "go_passed (trigger_integrity_gate gate_demo)"
  by code_simp

lemma demo_structure_sound: "go_passed (structure_gate gate_demo)"
  by code_simp

lemma demo_sweep: "fst (sweep_expired demo_env None fsm_init) = fsm_init"
  by code_simp

lemma demo_listing: "snd (list_active demo_env u None False fsm_init) = []"
  by (simp add: list_active_def Let_def demo_sweep) (simp add: fsm_init_def)

lemma demo_feed_open: "\<not> snd (is_degraded u (feed_system_init []))"
  by (simp add: is_degraded_def feed_state_of_def feed_system_init_def feed_state_init_def dict_simps)

lemma demo_small_gates: "go_passed (rsi_gate gate_demo)" "go_passed (viability_gate gate_demo)" "go_passed (chain_mark_gate gate_demo)"
  by code_simp+

lemma demo_arbiter: "ad_passed (arbitrate (arb_candidate_of gate_demo) [] (greeks_ledger_init None))"
  by code_simp

lemma gate_demo_passes:
  "fst (snd (evaluate_gates demo_env (\<lambda>_. []) (greeks_ledger_init None) [] gate_demo (feed_system_init [], fsm_init)))"
  using demo_trigger_sound demo_structure_sound demo_small_gates demo_feed_open demo_arbiter
  by (simp add: gates_run gate_results demo_listing demo_sweep in_flight_def desk_reason_def MAX_OPEN_TRADES_def arbiter_gate_def case_prod_beta)

theorem admitted_candidate_alone_witness:
  "\<not> snd (is_degraded ''NIFTY'' (feed_system_init [])) \<and> check_trigger_integrity (trigger_of gate_demo) = None"
  using admitted_candidate_alone [OF gate_demo_passes] by (simp add: gate_demo_def to_upper_def)

end
