(* ===== verification/Droid_Candles.thy ===== *)
theory Droid_Candles
  imports Droid_Buffer Droid_Vortex
begin

text \<open>
  \<open>backend/app/services/live_candles.py\<close>: one-minute candles folded from live ticks. A tick of a later minute closes the
  bucket of its symbol; a tick of an earlier minute is ignored. The reference groups the ticks of a symbol by minute.
\<close>

subsection \<open>Symbols\<close>

definition SYMBOL_ALIASES :: "(string, string) dict" where
  "SYMBOL_ALIASES = [(''NIFTY'', ''NIFTY 50''), (''NIFTY50'', ''NIFTY 50''), (''NIFTY 50'', ''NIFTY 50''), (''BANKNIFTY'', ''BANKNIFTY''),
     (''BANK NIFTY'', ''BANKNIFTY''), (''SENSEX'', ''SENSEX''), (''BSE:SENSEX'', ''SENSEX''), (''FINNIFTY'', ''FINNIFTY''),
     (''INDIA VIX'', ''INDIA VIX'')]"

definition canonical_symbol :: "string \<Rightarrow> string" where
  "canonical_symbol s = (let k = map to_upper (strip s) in or_else (map_of SYMBOL_ALIASES k) k)"

subsection \<open>The aggregator\<close>

record minute_bucket =
  mb_minute :: int
  mb_open :: rat
  mb_high :: rat
  mb_low :: rat
  mb_close :: rat
  mb_volume :: rat
  mb_ticks :: nat
  mb_cum :: "int option"

record candle_feed =
  cf_max :: nat
  cf_bars :: "(string, candle list) dict"
  cf_partial :: "(string, minute_bucket) dict"
  cf_seen :: "(string, rat) dict"
  cf_ticks :: nat
  cf_closed :: nat

definition MAX_BARS :: nat where "MAX_BARS = 600"
definition LIVE_AGE_S :: rat where "LIVE_AGE_S = 15"
definition STALE_AGE_S :: rat where "STALE_AGE_S = 120"

definition candle_feed_init :: "nat \<Rightarrow> candle_feed" where
  "candle_feed_init n = \<lparr>cf_max = n, cf_bars = [], cf_partial = [], cf_seen = [], cf_ticks = 0, cf_closed = 0\<rparr>"

text \<open>Minutes are counted from the epoch.\<close>

definition tick_minute :: "tick_event \<Rightarrow> int" where
  "tick_minute t = \<lfloor>te_timestamp t / 60\<rfloor>"

text \<open>The step of the broker's cumulative counter; a counter that went down was reset.\<close>

definition volume_step :: "int \<Rightarrow> int \<Rightarrow> int" where
  "volume_step prev cum = (if prev \<le> cum then cum - prev else cum)"

definition add_volume :: "int \<Rightarrow> minute_bucket \<Rightarrow> minute_bucket" where
  "add_volume cum b = (if cum \<le> 0 then b
     else b\<lparr>mb_volume := frnd (mb_volume b + frnd (of_int (max 0 (case mb_cum b of None \<Rightarrow> 0 | Some p \<Rightarrow> volume_step p cum)))),
            mb_cum := Some cum\<rparr>)"

definition new_bucket :: "tick_event \<Rightarrow> minute_bucket" where
  "new_bucket t = add_volume (te_volume t) \<lparr>mb_minute = tick_minute t, mb_open = te_ltp t, mb_high = te_ltp t, mb_low = te_ltp t,
     mb_close = te_ltp t, mb_volume = 0, mb_ticks = 1, mb_cum = None\<rparr>"

definition extend_bucket :: "tick_event \<Rightarrow> minute_bucket \<Rightarrow> minute_bucket" where
  "extend_bucket t b = add_volume (te_volume t) (b\<lparr>mb_high := (if mb_high b < te_ltp t then te_ltp t else mb_high b),
     mb_low := (if te_ltp t < mb_low b then te_ltp t else mb_low b), mb_close := te_ltp t, mb_ticks := mb_ticks b + 1\<rparr>)"

definition candle_of_bucket :: "minute_bucket \<Rightarrow> candle" where
  "candle_of_bucket b = \<lparr>cd_timestamp = mb_minute b * 60000, cd_open = round_places 4 (mb_open b), cd_high = round_places 4 (mb_high b),
     cd_low = round_places 4 (mb_low b), cd_close = round_places 4 (mb_close b), cd_volume = round_places 2 (mb_volume b)\<rparr>"

definition bars_of :: "string \<Rightarrow> candle_feed \<Rightarrow> candle list" where
  "bars_of k cf = or_else (map_of (cf_bars cf) k) []"

text \<open>The field constraints of \<open>Candle\<close> (\<open>vortex_snap/types.py\<close>): a bucket whose rounded prices are not positive raises
  when it is closed (\<open>None\<close>).\<close>

definition candle_valid :: "candle \<Rightarrow> bool" where
  "candle_valid c \<longleftrightarrow> 0 < cd_open c \<and> 0 < cd_high c \<and> 0 < cd_low c \<and> 0 < cd_close c \<and> 0 \<le> cd_volume c"

definition close_bucket :: "string \<Rightarrow> minute_bucket \<Rightarrow> candle_feed \<Rightarrow> candle_feed option" where
  "close_bucket k b cf = (if candle_valid (candle_of_bucket b)
     then Some (cf\<lparr>cf_bars := AList.update k (last_n (cf_max cf) (bars_of k cf @ [candle_of_bucket b])) (cf_bars cf),
       cf_closed := cf_closed cf + 1\<rparr>)
     else None)"

definition set_partial :: "string \<Rightarrow> minute_bucket \<Rightarrow> candle_feed \<Rightarrow> candle_feed" where
  "set_partial k b cf = cf\<lparr>cf_partial := AList.update k b (cf_partial cf)\<rparr>"

definition see_tick :: "string \<Rightarrow> rat \<Rightarrow> candle_feed \<Rightarrow> candle_feed" where
  "see_tick k ts cf = cf\<lparr>cf_seen := (case map_of (cf_seen cf) k of
       None \<Rightarrow> AList.update k ts (cf_seen cf)
     | Some p \<Rightarrow> if p < ts then AList.update k ts (cf_seen cf) else cf_seen cf), cf_ticks := cf_ticks cf + 1\<rparr>"

text \<open>An exception while closing is swallowed: the tick has been counted and the bucket stays as it was.\<close>

definition on_tick :: "tick_event \<Rightarrow> candle_feed \<Rightarrow> candle_feed \<times> bool" where
  "on_tick t cf = (if te_ltp t \<le> 0 then (cf, False)
     else (let k = canonical_symbol (te_symbol t); cf' = see_tick k (te_timestamp t) cf in
       case map_of (cf_partial cf') k of
         None \<Rightarrow> (set_partial k (new_bucket t) cf', False)
       | Some b \<Rightarrow> if mb_minute b < tick_minute t then
             (case close_bucket k b cf' of None \<Rightarrow> (cf', False) | Some cf2 \<Rightarrow> (set_partial k (new_bucket t) cf2, True))
           else if tick_minute t < mb_minute b then (cf', False)
           else (set_partial k (extend_bucket t b) cf', False)))"

definition on_ticks :: "tick_event list \<Rightarrow> candle_feed \<Rightarrow> candle_feed" where
  "on_ticks ts cf = fold (\<lambda>t cf. fst (on_tick t cf)) ts cf"

text \<open>A count of zero answers nothing; a negative count slices from the start and answers every bar.\<close>

definition get_candles :: "string \<Rightarrow> int \<Rightarrow> candle_feed \<Rightarrow> candle list" where
  "get_candles s n cf = (if n = 0 then [] else if n < 0 then bars_of (canonical_symbol s) cf else last_n (nat n) (bars_of (canonical_symbol s) cf))"

datatype hud_status = HUD_NO_DATA | HUD_LIVE | HUD_STALE | HUD_DOWN

record hud_view =
  hv_symbol :: string
  hv_status :: hud_status
  hv_age :: "rat option"
  hv_bars :: nat
  hv_last :: "(int \<times> rat) option"
  hv_partial :: "(int \<times> nat \<times> rat) option"
  hv_volume :: bool

definition hud_status_of :: "rat option \<Rightarrow> hud_status" where
  "hud_status_of age = (case age of None \<Rightarrow> HUD_NO_DATA
     | Some a \<Rightarrow> if a \<le> LIVE_AGE_S then HUD_LIVE else if a \<le> STALE_AGE_S then HUD_STALE else HUD_DOWN)"

definition candle_status :: "rat \<Rightarrow> string \<Rightarrow> candle_feed \<Rightarrow> hud_view" where
  "candle_status now s cf = (let k = canonical_symbol s; age = map_option (\<lambda>t. frnd (now - t)) (map_of (cf_seen cf) k); bs = bars_of k cf in
     \<lparr>hv_symbol = k, hv_status = hud_status_of age, hv_age = map_option round2 age, hv_bars = length bs,
      hv_last = (if bs = [] then None else Some (cd_timestamp (List.last bs), cd_close (List.last bs))),
      hv_partial = map_option (\<lambda>b. (mb_minute b * 60000, mb_ticks b, round_places 4 (mb_close b))) (map_of (cf_partial cf) k),
      hv_volume = list_ex (\<lambda>b. 0 < cd_volume b) (last_n 30 bs)\<rparr>)"

definition reset_candles :: "candle_feed \<Rightarrow> candle_feed" where
  "reset_candles cf = cf\<lparr>cf_bars := [], cf_partial := [], cf_seen := []\<rparr>"

subsection \<open>The reference\<close>

text \<open>Runs of elements with the same key.\<close>

fun group_runs :: "('a \<Rightarrow> 'k) \<Rightarrow> 'a list \<Rightarrow> 'a list list" where
  "group_runs f [] = []"
| "group_runs f (x # xs) = (case group_runs f xs of [] \<Rightarrow> [[x]]
     | g # gs \<Rightarrow> if f x = f (hd g) then (x # g) # gs else [x] # g # gs)"

text \<open>A price that is not zero after rounding to four places.\<close>

definition sound_price :: "tick_event \<Rightarrow> bool" where
  "sound_price t \<longleftrightarrow> 0 < round_places 4 (te_ltp t)"

text \<open>The ticks that are not of an earlier minute than one before them, up to the minute of the first price that rounds
  to zero: that minute is never closed, and only its own ticks still count.\<close>

fun in_order :: "tick_event list \<Rightarrow> tick_event list \<Rightarrow> tick_event list" where
  "in_order acc [] = acc"
| "in_order acc (t # ts) = in_order (if acc = [] \<or> tick_minute (List.last acc) = tick_minute t
     \<or> tick_minute (List.last acc) < tick_minute t \<and> list_all sound_price acc then acc @ [t] else acc) ts"

definition run_volume :: "tick_event list \<Rightarrow> rat" where
  "run_volume ts = (let vs = filter (\<lambda>v. 0 < v) (map te_volume ts) in
     foldl (\<lambda>v d. frnd (v + frnd (of_int d))) 0 (map (\<lambda>(a, b). volume_step a b) (zip vs (tl vs))))"

definition candle_of_run :: "tick_event list \<Rightarrow> candle" where
  "candle_of_run ts = \<lparr>cd_timestamp = tick_minute (hd ts) * 60000, cd_open = round_places 4 (te_ltp (hd ts)),
     cd_high = round_places 4 (Max (te_ltp ` set ts)), cd_low = round_places 4 (Min (te_ltp ` set ts)),
     cd_close = round_places 4 (te_ltp (List.last ts)), cd_volume = round_places 2 (run_volume ts)\<rparr>"

definition minute_runs :: "string \<Rightarrow> tick_event list \<Rightarrow> tick_event list list" where
  "minute_runs k ts = group_runs tick_minute (in_order [] (filter (\<lambda>t. canonical_symbol (te_symbol t) = k \<and> 0 < te_ltp t) ts))"


subsection \<open>Grouping\<close>

lemma group_runs_nonempty: "rs \<in> set (group_runs f xs) \<Longrightarrow> rs \<noteq> []"
  by (induction f xs arbitrary: rs rule: group_runs.induct) (auto split: list.splits if_splits)

lemma group_runs_Nil_iff [simp]: "group_runs f xs = [] \<longleftrightarrow> xs = []"
  by (cases xs) (auto split: list.splits)

lemma concat_group_runs: "concat (group_runs f xs) = xs"
proof (induction f xs rule: group_runs.induct)
  case (2 f x xs)
  show ?case
  proof (cases "group_runs f xs")
    case Nil
    then show ?thesis using 2 by simp
  next
    case (Cons g gs)
    then show ?thesis using 2 by auto
  qed
qed simp

lemma run_subset: "r \<in> set (group_runs f xs) \<Longrightarrow> set r \<subseteq> set xs"
  by (subst concat_group_runs [of f xs, symmetric]) (auto simp only: set_concat)

lemma hd_group_runs: "xs \<noteq> [] \<Longrightarrow> hd (hd (group_runs f xs)) = hd xs"
  by (cases xs) (auto split: list.splits)

lemma last_group_runs: "xs \<noteq> [] \<Longrightarrow> List.last (List.last (group_runs f xs)) = List.last xs"
proof -
  assume a: "xs \<noteq> []"
  then have n: "group_runs f xs \<noteq> []" by simp
  then have "List.last (group_runs f xs) \<noteq> []" using group_runs_nonempty [of "List.last (group_runs f xs)" f xs] by simp
  then have "List.last (concat (group_runs f xs)) = List.last (List.last (group_runs f xs))"
    using n by (metis append_butlast_last_id concat.simps(1) concat_append last_append concat.simps(2) append_Nil2)
  then show ?thesis by (simp add: concat_group_runs)
qed

lemma group_runs_const: "rs \<in> set (group_runs f xs) \<Longrightarrow> x \<in> set rs \<Longrightarrow> f x = f (hd rs)"
proof (induction f xs arbitrary: rs x rule: group_runs.induct)
  case (2 f y ys)
  then show ?case by (auto split: list.splits if_splits)
qed simp

lemma group_runs_snoc:
  "group_runs f (xs @ [x]) = (if xs = [] then [[x]]
     else if f (List.last xs) = f x then butlast (group_runs f xs) @ [List.last (group_runs f xs) @ [x]]
     else group_runs f xs @ [[x]])"
proof (induction xs)
  case (Cons y ys)
  show ?case
  proof (cases "ys = []")
    case False
    then obtain g gs where g: "group_runs f ys = g # gs" by (metis group_runs_Nil_iff neq_Nil_conv)
    then have "g \<noteq> []" using group_runs_nonempty [of g f ys] by simp
    then show ?thesis using Cons False g by (auto simp: neq_Nil_conv)
  qed auto
qed simp

lemma in_order_snoc: "in_order acc (ts @ [t]) = (let ys = in_order acc ts in
    if ys = [] \<or> tick_minute (List.last ys) = tick_minute t \<or> tick_minute (List.last ys) < tick_minute t \<and> list_all sound_price ys
    then ys @ [t] else ys)"
  by (induction acc ts rule: in_order.induct) (auto simp: Let_def)

lemma sorted_le_last: "sorted (map f xs) \<Longrightarrow> x \<in> set xs \<Longrightarrow> f x \<le> (f (List.last xs) :: int)"
  by (induction xs) auto

text \<open>In a sorted list, what is not before the last element belongs to the last run.\<close>

lemma in_last_run:
  assumes "sorted (map f xs)" "x \<in> set xs" "\<not> f x < (f (List.last xs) :: int)"
  shows "x \<in> set (List.last (group_runs f xs))"
  using assms
proof (induction xs rule: rev_induct)
  case (snoc y ys)
  show ?case
  proof (cases "ys = []")
    case False
    have s: "sorted (map f ys)" using snoc.prems(1) by (simp add: sorted_append)
    show ?thesis
    proof (cases "x = y")
      case True
      then show ?thesis using False by (simp add: group_runs_snoc)
    next
      case ne: False
      then have x: "x \<in> set ys" using snoc.prems(2) by simp
      have "f x \<le> f (List.last ys)" "f (List.last ys) \<le> f y" using sorted_le_last [OF s x] snoc.prems(1) False by (auto simp: sorted_append)
      then have "f (List.last ys) = f y" "\<not> f x < f (List.last ys)" using snoc.prems(3) by auto
      then show ?thesis using snoc.IH [OF s x] False by (simp add: group_runs_snoc)
    qed
  qed (use snoc.prems in simp)
qed simp

lemma in_order_sorted: "sorted (map tick_minute acc) \<Longrightarrow> sorted (map tick_minute (in_order acc ts))"
proof (induction acc ts rule: in_order.induct)
  case (2 acc t ts)
  then show ?case using sorted_le_last [of tick_minute acc] by (fastforce simp: sorted_append)
qed simp

subsection \<open>The aggregator computes the runs\<close>

fun bucket_of_run :: "tick_event list \<Rightarrow> minute_bucket" where
  "bucket_of_run [] = undefined"
| "bucket_of_run (t # ts) = foldl (\<lambda>b t. extend_bucket t b) (new_bucket t) ts"

lemma bucket_of_run_snoc: "ts \<noteq> [] \<Longrightarrow> bucket_of_run (ts @ [t]) = extend_bucket t (bucket_of_run ts)"
  by (cases ts) auto

lemma add_volume_fields [simp]:
  "mb_minute (add_volume c b) = mb_minute b" "mb_open (add_volume c b) = mb_open b" "mb_high (add_volume c b) = mb_high b"
  "mb_low (add_volume c b) = mb_low b" "mb_close (add_volume c b) = mb_close b" "mb_ticks (add_volume c b) = mb_ticks b"
  by (simp_all add: add_volume_def)

lemma extend_fields [simp]:
  "mb_minute (extend_bucket t b) = mb_minute b" "mb_open (extend_bucket t b) = mb_open b" "mb_close (extend_bucket t b) = te_ltp t"
  "mb_high (extend_bucket t b) = max (te_ltp t) (mb_high b)" "mb_low (extend_bucket t b) = min (te_ltp t) (mb_low b)"
  "mb_ticks (extend_bucket t b) = Suc (mb_ticks b)"
  by (auto simp: extend_bucket_def)

lemma run_prices:
  "ts \<noteq> [] \<Longrightarrow> mb_minute (bucket_of_run ts) = tick_minute (hd ts) \<and> mb_open (bucket_of_run ts) = te_ltp (hd ts)
     \<and> mb_high (bucket_of_run ts) = Max (te_ltp ` set ts) \<and> mb_low (bucket_of_run ts) = Min (te_ltp ` set ts)
     \<and> mb_close (bucket_of_run ts) = te_ltp (List.last ts) \<and> mb_ticks (bucket_of_run ts) = length ts"
proof (induction ts rule: rev_nonempty_induct)
  case (snoc t ts)
  have "Max (te_ltp ` set (ts @ [t])) = max (te_ltp t) (Max (te_ltp ` set ts))" "Min (te_ltp ` set (ts @ [t])) = min (te_ltp t) (Min (te_ltp ` set ts))"
    using snoc.hyps by simp_all
  then show ?case using snoc by (simp add: bucket_of_run_snoc del: set_append)
qed (simp add: new_bucket_def)

definition counters :: "tick_event list \<Rightarrow> int list" where
  "counters ts = filter (\<lambda>v. 0 < v) (map te_volume ts)"

lemma counters_snoc: "counters (ts @ [t]) = (if 0 < te_volume t then counters ts @ [te_volume t] else counters ts)"
  by (simp add: counters_def)

lemma zip_tl_snoc: "vs \<noteq> [] \<Longrightarrow> zip (vs @ [v]) (tl vs @ [v]) = zip vs (tl vs) @ [(List.last vs, v)]"
proof (induction vs)
  case (Cons x xs)
  then show ?case by (cases xs) auto
qed simp

lemma run_volume_alt: "run_volume ts = foldl (\<lambda>v d. frnd (v + frnd (of_int d))) 0 (map (\<lambda>(a, b). volume_step a b) (zip (counters ts) (tl (counters ts))))"
  by (simp add: run_volume_def counters_def Let_def)

lemma volume_step_pos: "0 < a \<Longrightarrow> 0 < b \<Longrightarrow> 0 \<le> volume_step a b"
  by (simp add: volume_step_def)

lemma counters_pos: "v \<in> set (counters ts) \<Longrightarrow> 0 < v"
  by (auto simp: counters_def)

lemma run_volumes:
  "ts \<noteq> [] \<Longrightarrow> mb_volume (bucket_of_run ts) = run_volume ts
     \<and> mb_cum (bucket_of_run ts) = (if counters ts = [] then None else Some (List.last (counters ts)))"
proof (induction ts rule: rev_nonempty_induct)
  case (single t)
  then show ?case by (simp add: new_bucket_def add_volume_def run_volume_alt counters_def)
next
  case (snoc t ts)
  show ?case
  proof (cases "0 < te_volume t \<and> counters ts \<noteq> []")
    case True
    then have "0 \<le> volume_step (List.last (counters ts)) (te_volume t)" using counters_pos [of "List.last (counters ts)" ts] by (simp add: volume_step_pos)
    then show ?thesis using snoc True
      by (simp add: bucket_of_run_snoc extend_bucket_def add_volume_def run_volume_alt counters_snoc zip_tl_snoc max_def)
  next
    case False
    then show ?thesis using snoc
      by (auto simp: bucket_of_run_snoc extend_bucket_def add_volume_def run_volume_alt counters_snoc)
  qed
qed

lemma candle_of_bucket_of_run: "ts \<noteq> [] \<Longrightarrow> candle_of_bucket (bucket_of_run ts) = candle_of_run ts"
  by (simp add: candle_of_bucket_def candle_of_run_def run_prices run_volumes)

lemma round_places_nonneg: "0 \<le> x \<Longrightarrow> 0 \<le> round_places n x"
  using round_places_mono [of 0 x n] by (simp add: round_places_def round_half_even_def)

lemma foldl_frnd_nonneg: "0 \<le> v \<Longrightarrow> list_all (\<lambda>d. 0 \<le> d) ds \<Longrightarrow> 0 \<le> foldl (\<lambda>v d. frnd (v + frnd (of_int d))) v ds"
proof (induction ds arbitrary: v)
  case (Cons d ds)
  have "0 \<le> frnd (v + frnd (of_int d))" using Cons.prems by (intro flt.rnd_nonneg add_nonneg_nonneg) auto
  then show ?case using Cons by simp
qed simp

lemma run_volume_nonneg: "0 \<le> run_volume ts"
proof -
  have "0 \<le> volume_step a b" if "(a, b) \<in> set (zip (counters ts) (tl (counters ts)))" for a b
  proof -
    have "a \<in> set (counters ts)" "b \<in> set (tl (counters ts))" using that by (auto dest: set_zip_leftD set_zip_rightD)
    then have "0 < a" "0 < b" using counters_pos by (blast, metis counters_pos list.sel(2) list.set_sel(2))
    then show ?thesis by (rule volume_step_pos)
  qed
  then show ?thesis unfolding run_volume_alt by (intro foldl_frnd_nonneg) (auto simp: list_all_iff)
qed

text \<open>A run closes exactly when all its prices are sound.\<close>

lemma run_valid_iff:
  assumes "ts \<noteq> []"
  shows "candle_valid (candle_of_run ts) \<longleftrightarrow> list_all sound_price ts"
proof
  assume "list_all sound_price ts"
  then have ok: "sound_price t" if "t \<in> set ts" for t using that by (simp add: list_all_iff)
  have "Max (te_ltp ` set ts) \<in> te_ltp ` set ts" "Min (te_ltp ` set ts) \<in> te_ltp ` set ts" using assms by simp_all
  then have "0 < round_places 4 (Max (te_ltp ` set ts))" "0 < round_places 4 (Min (te_ltp ` set ts))"
    using ok by (auto simp: sound_price_def)
  then show "candle_valid (candle_of_run ts)" using ok assms run_volume_nonneg [of ts]
    by (simp add: candle_valid_def candle_of_run_def sound_price_def round_places_nonneg)
next
  assume v: "candle_valid (candle_of_run ts)"
  have "0 < round_places 4 (te_ltp t)" if "t \<in> set ts" for t
  proof -
    have "round_places 4 (Min (te_ltp ` set ts)) \<le> round_places 4 (te_ltp t)" using that by (intro round_places_mono) simp
    then show ?thesis using v by (simp add: candle_valid_def candle_of_run_def)
  qed
  then show "list_all sound_price ts" by (simp add: list_all_iff sound_price_def)
qed

lemma in_order_sound_before:
  assumes "list_all sound_price (filter (\<lambda>x. tick_minute x < tick_minute (List.last acc)) acc)" "sorted (map tick_minute acc)"
  shows "list_all sound_price (filter (\<lambda>x. tick_minute x < tick_minute (List.last (in_order acc ts))) (in_order acc ts))"
  using assms
proof (induction acc ts rule: in_order.induct)
  case (2 acc t ts)
  show ?case
  proof (cases "acc = [] \<or> tick_minute (List.last acc) = tick_minute t \<or> tick_minute (List.last acc) < tick_minute t \<and> list_all sound_price acc")
    case True
    have s: "sorted (map tick_minute (acc @ [t]))" using True 2(3) sorted_le_last [of tick_minute acc] by (fastforce simp: sorted_append)
    have "list_all sound_price (filter (\<lambda>x. tick_minute x < tick_minute (List.last (acc @ [t]))) (acc @ [t]))"
      using True 2(2) by (auto simp: list_all_iff)
    from 2(1) [unfolded if_P [OF True], OF this s] show ?thesis using True by simp
  next
    case False
    from 2(1) [unfolded if_not_P [OF False], OF 2(2,3)] show ?thesis unfolding in_order.simps if_not_P [OF False] .
  qed
qed simp

definition feed_is :: "nat \<Rightarrow> tick_event list \<Rightarrow> string \<Rightarrow> candle_feed \<Rightarrow> bool" where
  "feed_is n ts k cf \<longleftrightarrow> cf_max cf = n \<and> bars_of k cf = last_n n (map candle_of_run (butlast (minute_runs k ts)))
     \<and> map_of (cf_partial cf) k = (if minute_runs k ts = [] then None else Some (bucket_of_run (List.last (minute_runs k ts))))"

lemma minute_runs_nonempty: "r \<in> set (minute_runs k ts) \<Longrightarrow> r \<noteq> []"
  by (simp only: minute_runs_def group_runs_nonempty not_False_eq_True)

lemma minute_runs_other: "te_ltp t \<le> 0 \<or> canonical_symbol (te_symbol t) \<noteq> k \<Longrightarrow> minute_runs k (ts @ [t]) = minute_runs k ts"
  by (auto simp: minute_runs_def)

lemma minute_runs_snoc:
  assumes "0 < te_ltp t" "canonical_symbol (te_symbol t) = k"
  shows "minute_runs k (ts @ [t]) = (let rs = minute_runs k ts in
     if rs = [] then [[t]]
     else if tick_minute t < tick_minute (hd (List.last rs)) then rs
     else if tick_minute (hd (List.last rs)) = tick_minute t then butlast rs @ [List.last rs @ [t]]
     else if list_all sound_price (List.last rs) then rs @ [[t]] else rs)"
proof (cases "minute_runs k ts = []")
  case False
  let ?xs = "in_order [] (filter (\<lambda>t. canonical_symbol (te_symbol t) = k \<and> 0 < te_ltp t) ts)"
  have n: "?xs \<noteq> []" using False by (simp add: minute_runs_def)
  let ?l = "List.last (group_runs tick_minute ?xs)"
  have l: "?l \<in> set (group_runs tick_minute ?xs)" using n by simp
  then have "tick_minute (List.last ?l) = tick_minute (hd ?l)"
    using group_runs_const [of ?l tick_minute ?xs "List.last ?l"] group_runs_nonempty [of ?l tick_minute ?xs] by simp
  then have m: "tick_minute (hd ?l) = tick_minute (List.last ?xs)" using n by (simp add: last_group_runs)
  have "list_all sound_price ?xs \<longleftrightarrow> list_all sound_price ?l"
  proof
    assume "list_all sound_price ?xs"
    moreover have "set ?l \<subseteq> set ?xs" by (rule run_subset [OF l])
    ultimately show "list_all sound_price ?l" by (auto simp: list_all_iff)
  next
    assume ok: "list_all sound_price ?l"
    have before: "list_all sound_price (filter (\<lambda>x. tick_minute x < tick_minute (List.last ?xs)) ?xs)"
      by (rule in_order_sound_before) simp_all
    have "sound_price x" if x: "x \<in> set ?xs" for x
    proof (cases "tick_minute x < tick_minute (List.last ?xs)")
      case True
      then show ?thesis using before x by (auto simp: list_all_iff)
    next
      case ge: False
      have "x \<in> set ?l" by (rule in_last_run) (use in_order_sorted [of "[]"] x ge in auto)
      then show ?thesis using ok by (auto simp: list_all_iff)
    qed
    then show "list_all sound_price ?xs" by (simp add: list_all_iff)
  qed
  moreover have "minute_runs k ts = group_runs tick_minute ?xs" by (simp add: minute_runs_def)
  moreover have "minute_runs k (ts @ [t]) = group_runs tick_minute (if tick_minute (List.last ?xs) = tick_minute t
      \<or> tick_minute (List.last ?xs) < tick_minute t \<and> list_all sound_price ?xs then ?xs @ [t] else ?xs)"
    using n assms by (simp add: minute_runs_def in_order_snoc Let_def)
  ultimately show ?thesis
    using n m by (cases "tick_minute t" "tick_minute (List.last ?xs)" rule: linorder_cases) (simp_all add: group_runs_snoc Let_def)
qed (use assms in \<open>auto simp: minute_runs_def in_order_snoc Let_def\<close>)

lemma on_tick_other:
  "te_ltp t \<le> 0 \<or> canonical_symbol (te_symbol t) \<noteq> k \<Longrightarrow>
     cf_max (fst (on_tick t cf)) = cf_max cf \<and> bars_of k (fst (on_tick t cf)) = bars_of k cf
     \<and> map_of (cf_partial (fst (on_tick t cf))) k = map_of (cf_partial cf) k"
  by (auto simp: on_tick_def see_tick_def set_partial_def close_bucket_def bars_of_def Let_def dict_simps split: option.splits if_splits)

lemma feed_is_step:
  assumes f: "feed_is n ts k cf"
  shows "feed_is n (ts @ [t]) k (fst (on_tick t cf))"
proof (cases "0 < te_ltp t \<and> canonical_symbol (te_symbol t) = k")
  case False
  then show ?thesis using f on_tick_other [of t k cf] minute_runs_other [of t k ts] by (auto simp: feed_is_def)
next
  case True
  let ?rs = "minute_runs k ts"
  have snoc: "minute_runs k (ts @ [t]) = (let rs = ?rs in if rs = [] then [[t]]
      else if tick_minute t < tick_minute (hd (List.last rs)) then rs
      else if tick_minute (hd (List.last rs)) = tick_minute t then butlast rs @ [List.last rs @ [t]]
      else if list_all sound_price (List.last rs) then rs @ [[t]] else rs)"
    using True by (intro minute_runs_snoc) auto
  have see: "cf_max (see_tick k x cf) = cf_max cf" "bars_of k (see_tick k x cf) = bars_of k cf" "cf_partial (see_tick k x cf) = cf_partial cf"
    "cf_bars (see_tick k x cf) = cf_bars cf" for x
    by (simp_all add: see_tick_def bars_of_def)
  show ?thesis
  proof (cases "?rs = []")
    case Nil: True
    then show ?thesis using f True snoc
      by (auto simp: feed_is_def on_tick_def set_partial_def Let_def see bars_of_def dict_simps)
  next
    case ne: False
    then have l: "List.last ?rs \<noteq> []" by (intro minute_runs_nonempty [of _ k ts] last_in_set)
    then have m: "mb_minute (bucket_of_run (List.last ?rs)) = tick_minute (hd (List.last ?rs))" by (simp add: run_prices)
    have w: "map candle_of_run ?rs = map candle_of_run (butlast ?rs) @ [candle_of_run (List.last ?rs)]"
      using arg_cong [OF append_butlast_last_id [OF ne, symmetric], of "map candle_of_run"] by simp
    show ?thesis using f True ne m l snoc
      by (cases "tick_minute t" "tick_minute (hd (List.last ?rs))" rule: linorder_cases)
        (auto simp: feed_is_def on_tick_def Let_def see set_partial_def close_bucket_def bars_of_def dict_simps bucket_of_run_snoc
          candle_of_bucket_of_run run_valid_iff last_n_absorb w)
  qed
qed

lemma on_ticks_feed: "feed_is n ts k (on_ticks ts (candle_feed_init n))"
proof (induction ts rule: rev_induct)
  case Nil
  show ?case by (simp add: feed_is_def on_ticks_def candle_feed_init_def bars_of_def minute_runs_def)
next
  case (snoc t ts)
  show ?case using feed_is_step [OF snoc, of t] by (simp add: on_ticks_def)
qed

subsection \<open>What the bars show\<close>

lemma group_runs_increasing: "sorted (map f xs) \<Longrightarrow> sorted_wrt (<) (map (\<lambda>g. f (hd g) :: int) (group_runs f xs))"
proof (induction f xs rule: group_runs.induct)
  case (2 f x xs)
  show ?case
  proof (cases "group_runs f xs")
    case (Cons g gs)
    have "xs \<noteq> []" using Cons by auto
    then have "hd g = hd xs" using hd_group_runs [of xs f] Cons by simp
    then have le: "f x \<le> f (hd g)" using 2(2) \<open>xs \<noteq> []\<close> by (cases xs) auto
    have ih: "sorted_wrt (<) (map (\<lambda>g. f (hd g)) (g # gs))" using 2 Cons by simp
    then have "f x < f (hd h)" if "h \<in> set gs" for h using le that by force
    then show ?thesis using ih le Cons by auto
  qed simp
qed simp

lemma minute_runs_increasing: "sorted_wrt (<) (map (\<lambda>r. tick_minute (hd r)) (minute_runs k ts))"
  unfolding minute_runs_def by (intro group_runs_increasing in_order_sorted) simp

definition candle_sound :: "candle \<Rightarrow> bool" where
  "candle_sound c \<longleftrightarrow> cd_low c \<le> cd_open c \<and> cd_low c \<le> cd_close c \<and> cd_open c \<le> cd_high c \<and> cd_close c \<le> cd_high c \<and> 0 \<le> cd_volume c"

lemma candle_of_run_sound:
  assumes "ts \<noteq> []"
  shows "candle_sound (candle_of_run ts)"
proof -
  have "Min (te_ltp ` set ts) \<le> te_ltp t \<and> te_ltp t \<le> Max (te_ltp ` set ts)" if "t \<in> set ts" for t using that by simp
  then show ?thesis using assms run_volume_nonneg [of ts]
    by (simp add: candle_sound_def candle_of_run_def round_places_mono round_places_nonneg)
qed

text \<open>
  C12. However the ticks of all symbols arrive, the closed candles of a symbol are the last ones of the reference: the
  ticks of the symbol with a positive price that do not belong to an earlier minute than one before them, grouped by
  minute, every group but the last one as a candle of its first, highest, lowest and last price and the increase of the
  volume counter within the minute; the last group is the open bucket. The reference ends with the minute of the first
  price that rounds to zero at four places: such a minute is refused as a candle, and its bucket stays open for good.
\<close>

theorem candles_match_reference:
  "let cf = on_ticks ts (candle_feed_init n); rs = minute_runs k ts in
     bars_of k cf = last_n n (map candle_of_run (butlast rs))
   \<and> map_option (\<lambda>b. (candle_of_bucket b, mb_ticks b)) (map_of (cf_partial cf) k)
       = (if rs = [] then None else Some (candle_of_run (List.last rs), length (List.last rs)))"
  using on_ticks_feed [of n ts k] minute_runs_nonempty [of "List.last (minute_runs k ts)" k ts]
  by (simp add: Let_def feed_is_def candle_of_bucket_of_run run_prices)

text \<open>
  The closed candles of a symbol have strictly increasing minutes, and in each the low is below and the high above the
  open and the close, with a volume that is not negative.
\<close>

theorem bars_increase_and_are_sound:
  "sorted_wrt (<) (map cd_timestamp (bars_of k (on_ticks ts (candle_feed_init n))))
   \<and> list_all candle_sound (bars_of k (on_ticks ts (candle_feed_init n)))"
proof -
  let ?rs = "minute_runs k ts"
  have "sorted_wrt (<) (map (\<lambda>r. tick_minute (hd r)) (butlast ?rs))"
    using minute_runs_increasing [of k ts] by (cases "?rs = []") (auto simp: sorted_wrt_append dest!: arg_cong [where f = "map (\<lambda>r. tick_minute (hd r))"] append_butlast_last_id [symmetric])
  then have "sorted_wrt (<) (map cd_timestamp (map candle_of_run (butlast ?rs)))"
    by (simp add: sorted_wrt_map candle_of_run_def)
  moreover have "list_all candle_sound (map candle_of_run (butlast ?rs))"
    using candle_of_run_sound minute_runs_nonempty by (auto simp: list_all_iff dest: in_set_butlastD)
  ultimately show ?thesis using on_ticks_feed [of n ts k]
    by (auto simp: feed_is_def last_n_def sorted_wrt_drop list_all_iff simp flip: drop_map dest!: in_set_dropD)
qed

text \<open>The volume traded between the last tick of a minute and the first tick of the next is in no candle.\<close>

definition counter_tick :: "rat \<Rightarrow> int \<Rightarrow> tick_event" where
  "counter_tick s v = (demo_tick PRIO_HIGH)\<lparr>te_timestamp := s, te_volume := v\<rparr>"

lemma minute_start_volume_lost:
  "map cd_volume (bars_of ''NIFTY 50'' (on_ticks [counter_tick 0 100, counter_tick 30 150, counter_tick 61 400, counter_tick 90 410,
     counter_tick 121 500] (candle_feed_init 10))) = [50, 10]"
  by code_simp

text \<open>One price below 0.00005 ends the candles of its symbol: the minute cannot be closed, and every later tick is ignored.\<close>

lemma low_price_sticks:
  "(let cf = on_ticks [counter_tick 0 0, (counter_tick 30 0)\<lparr>te_ltp := 1 / 100000\<rparr>, counter_tick 61 0, counter_tick 121 0, counter_tick 181 0]
      (candle_feed_init 10)
    in (bars_of ''NIFTY 50'' cf, map_option mb_ticks (map_of (cf_partial cf) ''NIFTY 50''), cf_ticks cf)) = ([], Some 2, 5)"
  by code_simp

end
