(* ===== verification/Droid_Series.thy ===== *)
theory Droid_Series
  imports Droid_Candles
begin

text \<open>
  The way of a tick into storage: \<open>backend/app/services/data_quality.py\<close>, \<open>write_pipeline.py\<close> and \<open>timeseries_store.py\<close>.
  Times are seconds since the epoch in UTC; the clock of the deduplicator is an argument. A flush is one step: it is not
  cancelled between the draining of a queue and the insertions.
\<close>

subsection \<open>Quality\<close>

datatype tick_fault = BAD_PRICE | NEGATIVE_OI | INVERTED_BOOK | NEGATIVE_VOLUME | OUT_OF_ORDER_SEQUENCE | OUT_OF_ORDER_TIME

record tick_verdict =
  qr_valid :: bool
  qr_quarantine :: bool
  qr_reason :: "tick_fault option"
  qr_gap :: bool

record quality_engine =
  qe_sequences :: "(string, int) dict"
  qe_times :: "(string, rat) dict"
  qe_quarantined :: nat
  qe_dropped :: nat
  qe_gaps :: nat

definition quality_init :: quality_engine where
  "quality_init = \<lparr>qe_sequences = [], qe_times = [], qe_quarantined = 0, qe_dropped = 0, qe_gaps = 0\<rparr>"

definition value_fault :: "tick_event \<Rightarrow> tick_fault option" where
  "value_fault t = (if te_ltp t \<le> 0 then Some BAD_PRICE
     else if (case te_open_interest t of Some oi \<Rightarrow> oi < 0 | None \<Rightarrow> False) then Some NEGATIVE_OI
     else if (case (te_bid t, te_ask t) of (Some b, Some a) \<Rightarrow> 0 < b \<and> 0 < a \<and> a < b | _ \<Rightarrow> False) then Some INVERTED_BOOK
     else if te_volume t < 0 then Some NEGATIVE_VOLUME else None)"

definition refuse_tick :: "bool \<Rightarrow> tick_fault \<Rightarrow> tick_verdict" where
  "refuse_tick quarantine why = \<lparr>qr_valid = False, qr_quarantine = quarantine, qr_reason = Some why, qr_gap = False\<rparr>"

text \<open>The time check comes after the sequence number was stored.\<close>

definition check_time :: "bool \<Rightarrow> tick_event \<Rightarrow> quality_engine \<Rightarrow> quality_engine \<times> tick_verdict" where
  "check_time gap t q = (
     if (case map_of (qe_times q) (te_symbol t) of Some l \<Rightarrow> te_timestamp t < l | None \<Rightarrow> False)
     then (q\<lparr>qe_dropped := qe_dropped q + 1\<rparr>, refuse_tick False OUT_OF_ORDER_TIME)
     else (q\<lparr>qe_times := AList.update (te_symbol t) (te_timestamp t) (qe_times q)\<rparr>,
           \<lparr>qr_valid = True, qr_quarantine = False, qr_reason = None, qr_gap = gap\<rparr>))"

definition store_sequence :: "tick_event \<Rightarrow> int \<Rightarrow> quality_engine \<Rightarrow> quality_engine" where
  "store_sequence t n q = q\<lparr>qe_sequences := AList.update (te_symbol t) n (qe_sequences q)\<rparr>"

definition validate_tick :: "tick_event \<Rightarrow> quality_engine \<Rightarrow> quality_engine \<times> tick_verdict" where
  "validate_tick t q = (case value_fault t of
     Some why \<Rightarrow> (q\<lparr>qe_quarantined := qe_quarantined q + 1\<rparr>, refuse_tick True why)
   | None \<Rightarrow> (case te_sequence t of
       None \<Rightarrow> check_time False t q
     | Some n \<Rightarrow> (case map_of (qe_sequences q) (te_symbol t) of
           None \<Rightarrow> check_time False t (store_sequence t n q)
         | Some l \<Rightarrow> if l + 1 < n then check_time True t (store_sequence t n (q\<lparr>qe_gaps := qe_gaps q + 1\<rparr>))
             else if n < l then (q\<lparr>qe_dropped := qe_dropped q + 1\<rparr>, refuse_tick False OUT_OF_ORDER_SEQUENCE)
             else check_time False t (store_sequence t n q))))"

datatype candle_fault = HIGH_BELOW_BODY | LOW_ABOVE_BODY | NEGATIVE_CANDLE_VOLUME

definition validate_candle :: "rat \<Rightarrow> rat \<Rightarrow> rat \<Rightarrow> rat \<Rightarrow> rat \<Rightarrow> candle_fault option" where
  "validate_candle op hi lo cl vol = (if hi < max op cl then Some HIGH_BELOW_BODY else if min op cl < lo then Some LOW_ABOVE_BODY
     else if vol < 0 then Some NEGATIVE_CANDLE_VOLUME else None)"

subsection \<open>The store\<close>

record candle_record =
  ca_time :: rat
  ca_symbol :: string
  ca_timeframe :: string
  ca_open :: rat
  ca_high :: rat
  ca_low :: rat
  ca_close :: rat
  ca_volume :: int
  ca_vwap :: "rat option"
  ca_oi :: "int option"

record series_store =
  sr_candles :: "(string \<times> string, candle_record list) dict"
  sr_ticks :: "(string, tick_event list) dict"
  sr_candle_count :: nat
  sr_tick_count :: nat

definition series_init :: series_store where
  "series_init = \<lparr>sr_candles = [], sr_ticks = [], sr_candle_count = 0, sr_tick_count = 0\<rparr>"

definition KEPT_TICKS :: nat where "KEPT_TICKS = 5000"

definition candles_at :: "string \<times> string \<Rightarrow> series_store \<Rightarrow> candle_record list" where
  "candles_at k s = or_else (map_of (sr_candles s) k) []"

definition ticks_at :: "string \<Rightarrow> series_store \<Rightarrow> tick_event list" where
  "ticks_at k s = or_else (map_of (sr_ticks s) k) []"

definition insert_candle :: "candle_record \<Rightarrow> series_store \<Rightarrow> series_store" where
  "insert_candle c s = s\<lparr>sr_candles := AList.update (ca_symbol c, ca_timeframe c) (candles_at (ca_symbol c, ca_timeframe c) s @ [c]) (sr_candles s),
     sr_candle_count := sr_candle_count s + 1\<rparr>"

definition insert_candles_batch :: "candle_record list \<Rightarrow> series_store \<Rightarrow> series_store" where
  "insert_candles_batch cs s = fold insert_candle cs s"

definition insert_tick :: "tick_event \<Rightarrow> series_store \<Rightarrow> series_store" where
  "insert_tick t s = s\<lparr>sr_ticks := AList.update (te_symbol t) (last_n KEPT_TICKS (ticks_at (te_symbol t) s @ [t])) (sr_ticks s),
     sr_tick_count := sr_tick_count s + 1\<rparr>"

text \<open>The start of the bucket of a candle, as a minute; frames of an hour and more only clear the minute.\<close>

definition bucket_start :: "int \<Rightarrow> candle_record \<Rightarrow> int" where
  "bucket_start m c = (let t = \<lfloor>ca_time c / 60\<rfloor>; mm = t mod 60 in t - mm + (if m < 60 then mm div m * m else 0))"

definition tf_minutes :: "string \<Rightarrow> int" where
  "tf_minutes tf = (if tf = ''15m'' then 15 else if tf = ''1h'' then 60 else if tf = ''1D'' then 1440 else 5)"

definition typical_volume :: "candle_record \<Rightarrow> rat" where
  "typical_volume c = frnd (frnd (frnd (frnd (ca_high c + ca_low c) + ca_close c) / 3) * frnd (of_int (ca_volume c)))"

definition aggregate_bucket :: "string \<Rightarrow> int \<Rightarrow> candle_record list \<Rightarrow> candle_record" where
  "aggregate_bucket tf start cs = (let v = sum_list (map ca_volume cs) in
     \<lparr>ca_time = of_int start * 60, ca_symbol = ca_symbol (hd cs), ca_timeframe = tf, ca_open = ca_open (hd cs),
      ca_high = Max (ca_high ` set cs), ca_low = Min (ca_low ` set cs), ca_close = ca_close (List.last cs), ca_volume = v,
      ca_vwap = (if 0 < v then Some (round2 (frnd (py_sum (map typical_volume cs) / frnd (of_int v)))) else None),
      ca_oi = ca_oi (List.last cs)\<rparr>)"

text \<open>The loop of the resampling: the open bucket with its start, flushed when a candle of another bucket comes.\<close>

fun resample_loop :: "string \<Rightarrow> int \<Rightarrow> candle_record list \<Rightarrow> int \<Rightarrow> candle_record list \<Rightarrow> candle_record list" where
  "resample_loop tf m bucket start [] = (if bucket = [] then [] else [aggregate_bucket tf start bucket])"
| "resample_loop tf m bucket start (c # cs) = (
     if bucket_start m c = start then resample_loop tf m (bucket @ [c]) start cs
     else (if bucket = [] then [] else [aggregate_bucket tf start bucket]) @ resample_loop tf m [c] (bucket_start m c) cs)"

definition resample_candles :: "string \<Rightarrow> candle_record list \<Rightarrow> candle_record list" where
  "resample_candles tf cs = (case cs of [] \<Rightarrow> [] | c # _ \<Rightarrow> resample_loop tf (tf_minutes tf) [] (bucket_start (tf_minutes tf) c) cs)"

text \<open>\<open>xs[-n:]\<close>\<close>

definition slice_last :: "int \<Rightarrow> 'a list \<Rightarrow> 'a list" where
  "slice_last n xs = (if 0 < n then last_n (nat n) xs else drop (nat (- n)) xs)"

definition query_candles :: "string \<Rightarrow> string \<Rightarrow> rat option \<Rightarrow> rat option \<Rightarrow> int \<Rightarrow> series_store \<Rightarrow> candle_record list" where
  "query_candles u tf from_t to_t limit s = (let own = candles_at (u, tf) s; base = candles_at (u, ''1m'') s;
      cs = (if own = [] \<and> tf \<noteq> ''1m'' then resample_candles tf base else own) in
     slice_last limit (filter (\<lambda>c. (case from_t of None \<Rightarrow> True | Some a \<Rightarrow> a \<le> ca_time c) \<and> (case to_t of None \<Rightarrow> True | Some b \<Rightarrow> ca_time c \<le> b)) cs))"

subsection \<open>The write pipeline\<close>

type_synonym dedup_key = "string \<times> int \<times> rat \<times> int \<times> int option"

definition dedup_key_of :: "tick_event \<Rightarrow> dedup_key" where
  "dedup_key_of t = (te_symbol t, rat_trunc (te_timestamp t), te_ltp t, te_volume t, te_sequence t)"

record tick_deduplicator =
  dd_max :: nat
  dd_window :: rat
  dd_seen :: "(dedup_key, rat) dict"
  dd_dropped :: nat
  dd_passed :: nat

definition tick_dedup_init :: "nat \<Rightarrow> rat \<Rightarrow> tick_deduplicator" where
  "tick_dedup_init n w = \<lparr>dd_max = n, dd_window = w, dd_seen = [], dd_dropped = 0, dd_passed = 0\<rparr>"

definition remember_tick :: "rat \<Rightarrow> dedup_key \<Rightarrow> tick_deduplicator \<Rightarrow> tick_deduplicator" where
  "remember_tick now k d = d\<lparr>dd_seen := AList.update k now (if dd_max d \<le> length (dd_seen d) then tl (dd_seen d) else dd_seen d),
     dd_passed := dd_passed d + 1\<rparr>"

definition tick_is_duplicate :: "rat \<Rightarrow> tick_event \<Rightarrow> tick_deduplicator \<Rightarrow> tick_deduplicator \<times> bool" where
  "tick_is_duplicate now t d = (let k = dedup_key_of t in
     case map_of (dd_seen d) k of
       None \<Rightarrow> (remember_tick now k d, False)
     | Some s \<Rightarrow> if frnd (now - s) \<le> dd_window d then (d\<lparr>dd_dropped := dd_dropped d + 1\<rparr>, True)
         else (remember_tick now k (d\<lparr>dd_seen := AList.delete k (dd_seen d)\<rparr>), False))"

record write_pipe =
  wp_batch :: nat
  wp_dedup :: tick_deduplicator
  wp_ticks :: "tick_event list"
  wp_candles :: "candle_record list"
  wp_running :: bool
  wp_enqueued :: nat
  wp_flushed :: nat
  wp_batches :: nat

definition pipe_init :: "nat \<Rightarrow> write_pipe" where
  "pipe_init n = \<lparr>wp_batch = n, wp_dedup = tick_dedup_init 20000 10, wp_ticks = [], wp_candles = [], wp_running = False, wp_enqueued = 0,
     wp_flushed = 0, wp_batches = 0\<rparr>"

definition start_pipe :: "write_pipe \<Rightarrow> write_pipe" where
  "start_pipe w = w\<lparr>wp_running := True\<rparr>"

definition enqueue_tick :: "rat \<Rightarrow> tick_event \<Rightarrow> write_pipe \<Rightarrow> write_pipe \<times> bool" where
  "enqueue_tick now t w = (case tick_is_duplicate now t (wp_dedup w) of
     (d, True) \<Rightarrow> (w\<lparr>wp_dedup := d\<rparr>, False)
   | (d, False) \<Rightarrow> (w\<lparr>wp_dedup := d, wp_ticks := wp_ticks w @ [t], wp_enqueued := wp_enqueued w + 1\<rparr>, True))"

definition enqueue_candle :: "candle_record \<Rightarrow> write_pipe \<Rightarrow> write_pipe" where
  "enqueue_candle c w = w\<lparr>wp_candles := wp_candles w @ [c], wp_enqueued := wp_enqueued w + 1\<rparr>"

definition flush_ticks :: "write_pipe \<times> series_store \<Rightarrow> write_pipe \<times> series_store" where
  "flush_ticks = (\<lambda>(w, s). let b = take (wp_batch w) (wp_ticks w) in if b = [] then (w, s) else
     (w\<lparr>wp_ticks := drop (wp_batch w) (wp_ticks w), wp_flushed := wp_flushed w + length b, wp_batches := wp_batches w + 1\<rparr>, fold insert_tick b s))"

definition flush_candles :: "write_pipe \<times> series_store \<Rightarrow> write_pipe \<times> series_store" where
  "flush_candles = (\<lambda>(w, s). let b = take (wp_batch w) (wp_candles w) in if b = [] then (w, s) else
     (w\<lparr>wp_candles := drop (wp_batch w) (wp_candles w), wp_flushed := wp_flushed w + length b, wp_batches := wp_batches w + 1\<rparr>, insert_candles_batch b s))"

definition flush_all_pending :: "write_pipe \<times> series_store \<Rightarrow> write_pipe \<times> series_store" where
  "flush_all_pending ws = flush_candles (flush_ticks ws)"

definition stop_pipe :: "write_pipe \<times> series_store \<Rightarrow> write_pipe \<times> series_store" where
  "stop_pipe = (\<lambda>(w, s). flush_all_pending (w\<lparr>wp_running := False\<rparr>, s))"

definition queue_depth :: "write_pipe \<Rightarrow> nat" where
  "queue_depth w = length (wp_ticks w) + length (wp_candles w)"

subsection \<open>Resampling is grouping\<close>

lemma group_runs_one: "bs \<noteq> [] \<Longrightarrow> \<forall>b \<in> set bs. f b = a \<Longrightarrow> group_runs f bs = [bs]"
  by (induction bs rule: rev_nonempty_induct) (auto simp: group_runs_snoc)

lemma group_runs_split: "bs \<noteq> [] \<Longrightarrow> \<forall>b \<in> set bs. f b = a \<Longrightarrow> f c \<noteq> a \<Longrightarrow> group_runs f (bs @ c # cs) = bs # group_runs f (c # cs)"
proof (induction bs)
  case (Cons b bs)
  have h: "hd (hd (group_runs f (c # cs))) = c" using hd_group_runs [of "c # cs" f] by simp
  obtain g gs where g: "group_runs f (c # cs) = g # gs" using group_runs_Nil_iff [of f "c # cs"] by (cases "group_runs f (c # cs)") auto
  show ?case
  proof (cases "bs = []")
    case True
    then show ?thesis using Cons.prems g h by (auto simp del: group_runs.simps(2) simp: group_runs.simps(2) [of f b "c # cs"])
  next
    case False
    then have "group_runs f (bs @ c # cs) = bs # group_runs f (c # cs)" using Cons by simp
    then show ?thesis using Cons.prems False by (auto simp del: group_runs.simps(2) simp: group_runs.simps(2) [of f b "bs @ c # cs"] neq_Nil_conv)
  qed
qed simp

lemma resample_loop_groups:
  assumes "bucket \<noteq> []" "\<forall>b \<in> set bucket. bucket_start m b = start"
  shows "resample_loop tf m bucket start cs
    = map (\<lambda>g. aggregate_bucket tf (bucket_start m (hd g)) g) (group_runs (bucket_start m) (bucket @ cs))"
  using assms
proof (induction tf m bucket start cs rule: resample_loop.induct)
  case (1 tf m bucket start)
  then show ?case using group_runs_one [OF 1] by simp
next
  case (2 tf m bucket start c cs)
  show ?case
  proof (cases "bucket_start m c = start")
    case True
    then show ?thesis using 2(1) 2(3,4) by simp
  next
    case False
    then have "resample_loop tf m [c] (bucket_start m c) cs
        = map (\<lambda>g. aggregate_bucket tf (bucket_start m (hd g)) g) (group_runs (bucket_start m) (c # cs))"
      using 2(2) [OF False] by (simp only: append_Cons append_Nil list.set list.distinct simp_thms ball_simps)
    moreover have "bucket_start m (hd bucket) = start" using 2(3,4) by simp
    ultimately show ?thesis using 2(3) False by (simp only: group_runs_split [OF 2(3,4) False] resample_loop.simps(2) if_False list.map append_Cons append_Nil)
  qed
qed

lemma sum_volume_groups: "sum_list (map (\<lambda>g. sum_list (map ca_volume g)) gs) = sum_list (map ca_volume (concat gs))"
  by (induction gs) simp_all

text \<open>
  Resampling groups the candles into the runs that share a bucket, makes one candle of each and loses no volume.
\<close>

theorem resample_groups:
  "resample_candles tf cs = map (\<lambda>g. aggregate_bucket tf (bucket_start (tf_minutes tf) (hd g)) g) (group_runs (bucket_start (tf_minutes tf)) cs)
   \<and> concat (group_runs (bucket_start (tf_minutes tf)) cs) = cs
   \<and> sum_list (map ca_volume (resample_candles tf cs)) = sum_list (map ca_volume cs)"
proof -
  have g: "resample_candles tf cs = map (\<lambda>g. aggregate_bucket tf (bucket_start (tf_minutes tf) (hd g)) g) (group_runs (bucket_start (tf_minutes tf)) cs)"
    by (cases cs) (simp_all add: resample_candles_def resample_loop_groups del: group_runs.simps(2))
  have "sum_list (map ca_volume (resample_candles tf cs)) = sum_list (map ca_volume (concat (group_runs (bucket_start (tf_minutes tf)) cs)))"
    unfolding g sum_volume_groups [symmetric] by (simp add: aggregate_bucket_def Let_def comp_def)
  then show ?thesis using g by (simp add: concat_group_runs)
qed

text \<open>A daily candle is asked for and an hourly one is built: only the minute of the time is cleared.\<close>

definition hour_candle :: "int \<Rightarrow> candle_record" where
  "hour_candle h = \<lparr>ca_time = of_int h * 3600, ca_symbol = ''NIFTY'', ca_timeframe = ''1m'', ca_open = 1, ca_high = 2, ca_low = 1, ca_close = 2,
     ca_volume = 0, ca_vwap = None, ca_oi = None\<rparr>"

lemma daily_resample_is_hourly: "map ca_time (resample_candles ''1D'' [hour_candle 4, hour_candle 5]) = [14400, 18000]"
  by code_simp

subsection \<open>The pipeline is a queue into the store\<close>

datatype pipe_op = EnqueueTick rat tick_event | EnqueueCandle candle_record | Flush | Stop

record pipe_run =
  pr_pipe :: write_pipe
  pr_store :: series_store
  pr_ticks :: "tick_event list"
  pr_candles :: "candle_record list"

text \<open>A step of the pipeline, with the accepted ticks and candles as a history.\<close>

fun pipe_step :: "pipe_op \<Rightarrow> pipe_run \<Rightarrow> pipe_run" where
  "pipe_step (EnqueueTick now t) r = (case enqueue_tick now t (pr_pipe r) of
     (w, True) \<Rightarrow> r\<lparr>pr_pipe := w, pr_ticks := pr_ticks r @ [t]\<rparr> | (w, False) \<Rightarrow> r\<lparr>pr_pipe := w\<rparr>)"
| "pipe_step (EnqueueCandle c) r = r\<lparr>pr_pipe := enqueue_candle c (pr_pipe r), pr_candles := pr_candles r @ [c]\<rparr>"
| "pipe_step Flush r = (case flush_all_pending (pr_pipe r, pr_store r) of (w, s) \<Rightarrow> r\<lparr>pr_pipe := w, pr_store := s\<rparr>)"
| "pipe_step Stop r = (case stop_pipe (pr_pipe r, pr_store r) of (w, s) \<Rightarrow> r\<lparr>pr_pipe := w, pr_store := s\<rparr>)"

definition pipe_run_init :: "nat \<Rightarrow> pipe_run" where
  "pipe_run_init n = \<lparr>pr_pipe = pipe_init n, pr_store = series_init, pr_ticks = [], pr_candles = []\<rparr>"

text \<open>What the store holds after ticks and candles were inserted in this order.\<close>

definition stored :: "tick_event list \<Rightarrow> candle_record list \<Rightarrow> series_store \<Rightarrow> bool" where
  "stored ts cs s \<longleftrightarrow> (\<forall>k. ticks_at k s = last_n KEPT_TICKS (filter (\<lambda>t. te_symbol t = k) ts))
     \<and> (\<forall>k. candles_at k s = filter (\<lambda>c. (ca_symbol c, ca_timeframe c) = k) cs) \<and> sr_tick_count s = length ts \<and> sr_candle_count s = length cs"

lemma stored_tick: "stored ts cs s \<Longrightarrow> stored (ts @ [t]) cs (insert_tick t s)"
  by (auto simp: stored_def insert_tick_def ticks_at_def candles_at_def dict_simps last_n_absorb)

lemma stored_candle: "stored ts cs s \<Longrightarrow> stored ts (cs @ [c]) (insert_candle c s)"
  by (auto simp: stored_def insert_candle_def ticks_at_def candles_at_def dict_simps)

lemma stored_ticks: "stored ts cs s \<Longrightarrow> stored (ts @ b) cs (fold insert_tick b s)"
proof (induction b arbitrary: ts s)
  case (Cons t b)
  then show ?case using Cons.IH [OF stored_tick [OF Cons.prems, of t]] by simp
qed simp

lemma stored_candles: "stored ts cs s \<Longrightarrow> stored ts (cs @ b) (insert_candles_batch b s)"
  unfolding insert_candles_batch_def
proof (induction b arbitrary: cs s)
  case (Cons c b)
  then show ?case using Cons.IH [OF stored_candle [OF Cons.prems, of c]] by simp
qed simp

definition pipe_ok :: "pipe_run \<Rightarrow> bool" where
  "pipe_ok r \<longleftrightarrow> (\<exists>ts cs. pr_ticks r = ts @ wp_ticks (pr_pipe r) \<and> pr_candles r = cs @ wp_candles (pr_pipe r) \<and> stored ts cs (pr_store r)
     \<and> wp_flushed (pr_pipe r) = length ts + length cs \<and> wp_enqueued (pr_pipe r) = wp_flushed (pr_pipe r) + queue_depth (pr_pipe r)
     \<and> dd_passed (wp_dedup (pr_pipe r)) = length (pr_ticks r))"

lemma flush_ticks_ok:
  assumes "xs = ts @ wp_ticks w" "stored ts cs s" "flush_ticks (w, s) = (w', s')"
  shows "\<exists>ts'. xs = ts' @ wp_ticks w' \<and> stored ts' cs s' \<and> wp_candles w' = wp_candles w \<and> wp_dedup w' = wp_dedup w
    \<and> wp_flushed w' + length ts = wp_flushed w + length ts' \<and> wp_enqueued w' = wp_enqueued w
    \<and> length ts' + length (wp_ticks w') = length ts + length (wp_ticks w)"
  using assms
  by (intro exI [of _ "ts @ take (wp_batch w) (wp_ticks w)"])
    (auto simp: flush_ticks_def Let_def stored_ticks split: if_splits)

lemma flush_candles_ok:
  assumes "xs = cs @ wp_candles w" "stored ts cs s" "flush_candles (w, s) = (w', s')"
  shows "\<exists>cs'. xs = cs' @ wp_candles w' \<and> stored ts cs' s' \<and> wp_ticks w' = wp_ticks w \<and> wp_dedup w' = wp_dedup w
    \<and> wp_flushed w' + length cs = wp_flushed w + length cs' \<and> wp_enqueued w' = wp_enqueued w
    \<and> length cs' + length (wp_candles w') = length cs + length (wp_candles w)"
  using assms
  by (intro exI [of _ "cs @ take (wp_batch w) (wp_candles w)"])
    (auto simp: flush_candles_def Let_def stored_candles split: if_splits)

lemma flush_all_ok:
  assumes "pipe_ok r" "flush_all_pending (pr_pipe r\<lparr>wp_running := b\<rparr>, pr_store r) = (w, s)"
  shows "pipe_ok (r\<lparr>pr_pipe := w, pr_store := s\<rparr>)"
proof -
  obtain w1 s1 where 1: "flush_ticks (pr_pipe r\<lparr>wp_running := b\<rparr>, pr_store r) = (w1, s1)" by fastforce
  with assms(2) have 2: "flush_candles (w1, s1) = (w, s)" by (simp add: flush_all_pending_def)
  obtain ts cs where p: "pr_ticks r = ts @ wp_ticks (pr_pipe r)" "pr_candles r = cs @ wp_candles (pr_pipe r)" "stored ts cs (pr_store r)"
     "wp_flushed (pr_pipe r) = length ts + length cs" "wp_enqueued (pr_pipe r) = wp_flushed (pr_pipe r) + queue_depth (pr_pipe r)"
     "dd_passed (wp_dedup (pr_pipe r)) = length (pr_ticks r)" using assms(1) by (auto simp: pipe_ok_def)
  obtain ts' where t: "pr_ticks r = ts' @ wp_ticks w1" "stored ts' cs s1" "wp_candles w1 = wp_candles (pr_pipe r)" "wp_dedup w1 = wp_dedup (pr_pipe r)"
     "wp_flushed w1 + length ts = wp_flushed (pr_pipe r) + length ts'" "wp_enqueued w1 = wp_enqueued (pr_pipe r)"
     "length ts' + length (wp_ticks w1) = length ts + length (wp_ticks (pr_pipe r))"
    using flush_ticks_ok [OF _ p(3) 1, of "pr_ticks r"] p(1) by auto
  obtain cs' where c: "pr_candles r = cs' @ wp_candles w" "stored ts' cs' s" "wp_ticks w = wp_ticks w1" "wp_dedup w = wp_dedup w1"
     "wp_flushed w + length cs = wp_flushed w1 + length cs'" "wp_enqueued w = wp_enqueued w1"
     "length cs' + length (wp_candles w) = length cs + length (wp_candles w1)"
    using flush_candles_ok [OF _ t(2) 2, of "pr_candles r"] p(2) t(3) by auto
  show ?thesis unfolding pipe_ok_def
    by (rule exI [of _ ts'], rule exI [of _ cs']) (use p t c in \<open>simp add: queue_depth_def\<close>)
qed

lemma enqueue_tick_ok:
  assumes "pipe_ok r" "enqueue_tick now t (pr_pipe r) = (w, b)"
  shows "pipe_ok (if b then r\<lparr>pr_pipe := w, pr_ticks := pr_ticks r @ [t]\<rparr> else r\<lparr>pr_pipe := w\<rparr>)"
  using assms by (auto simp: pipe_ok_def enqueue_tick_def tick_is_duplicate_def remember_tick_def queue_depth_def Let_def split: prod.splits bool.splits option.splits if_splits)

lemma pipe_step_ok: "pipe_ok r \<Longrightarrow> pipe_ok (pipe_step x r)"
proof (cases x)
  case (EnqueueTick now t)
  assume "pipe_ok r"
  then show ?thesis using enqueue_tick_ok [of r now t] EnqueueTick
    by (cases "enqueue_tick now t (pr_pipe r)") (auto split: bool.splits)
next
  case (EnqueueCandle c)
  assume "pipe_ok r"
  then show ?thesis using EnqueueCandle by (auto simp: pipe_ok_def enqueue_candle_def queue_depth_def)
next
  case Flush
  assume "pipe_ok r"
  then show ?thesis using Flush flush_all_ok [of r "wp_running (pr_pipe r)"] by (auto split: prod.splits)
next
  case Stop
  assume "pipe_ok r"
  then show ?thesis using Stop flush_all_ok [of r False] by (auto simp: stop_pipe_def split: prod.splits)
qed

interpretation pipeline: op_invariant pipe_step pipe_ok
  by unfold_locales (rule pipe_step_ok)

lemma pipe_run_init_ok: "pipe_ok (pipe_run_init n)"
  by (simp add: pipe_ok_def pipe_run_init_def pipe_init_def tick_dedup_init_def series_init_def stored_def ticks_at_def candles_at_def queue_depth_def)

text \<open>
  C34. The write pipeline and the store are one queue: after any run, the ticks that were accepted are, in order, those that
  reached the store and those that still wait, the store holds for every symbol the last five thousand of its ticks and
  every candle, and the counters are the lengths.
\<close>

theorem pipeline_is_fifo:
  "let r = fold pipe_step ops (pipe_run_init n); w = pr_pipe r; s = pr_store r in
   \<exists>ts cs. pr_ticks r = ts @ wp_ticks w \<and> pr_candles r = cs @ wp_candles w
     \<and> (\<forall>k. ticks_at k s = last_n KEPT_TICKS (filter (\<lambda>t. te_symbol t = k) ts))
     \<and> (\<forall>k. candles_at k s = filter (\<lambda>c. (ca_symbol c, ca_timeframe c) = k) cs)
     \<and> wp_flushed w = length ts + length cs \<and> wp_enqueued w = wp_flushed w + queue_depth w"
  using pipeline.run_inv [OF pipe_run_init_ok, of ops n] by (auto simp: Let_def pipe_ok_def stored_def)

text \<open>Stopping flushes one batch only: what is beyond it stays in the queue and is never written.\<close>

definition numbered_tick :: "nat \<Rightarrow> tick_event" where
  "numbered_tick i = counter_tick (of_nat i) 0"

lemma stop_leaves_ticks:
  "length (wp_ticks (pr_pipe (fold pipe_step [EnqueueTick 0 (numbered_tick 0), EnqueueTick 0 (numbered_tick 1), EnqueueTick 0 (numbered_tick 2), Stop]
     (pipe_run_init 2)))) = 1"
  by (simp add: pipe_run_init_def pipe_init_def tick_dedup_init_def enqueue_tick_def tick_is_duplicate_def dedup_key_of_def remember_tick_def stop_pipe_def
      flush_all_pending_def flush_ticks_def flush_candles_def numbered_tick_def counter_tick_def demo_tick_def rat_trunc_def Let_def)

subsection \<open>What the quality check lets through\<close>

text \<open>The valid ticks of a run, with the engine after it.\<close>

fun validate_ticks :: "tick_event list \<Rightarrow> quality_engine \<Rightarrow> quality_engine \<times> tick_event list" where
  "validate_ticks [] q = (q, [])"
| "validate_ticks (t # ts) q = (case validate_tick t q of (q', r) \<Rightarrow>
     (case validate_ticks ts q' of (q'', vs) \<Rightarrow> (q'', if qr_valid r then t # vs else vs)))"

definition seq_floor :: "string \<Rightarrow> quality_engine \<Rightarrow> tick_event \<Rightarrow> bool" where
  "seq_floor k q t \<longleftrightarrow> te_symbol t = k \<longrightarrow> value_fault t = None
     \<and> (\<forall>l. map_of (qe_times q) k = Some l \<longrightarrow> l \<le> te_timestamp t)
     \<and> (\<forall>n l. te_sequence t = Some n \<longrightarrow> map_of (qe_sequences q) k = Some l \<longrightarrow> l \<le> n)"

lemma validate_tick_step:
  assumes "validate_tick t q = (q', r)"
  shows "(\<forall>l. map_of (qe_times q) k = Some l \<longrightarrow> (\<exists>l'. map_of (qe_times q') k = Some l' \<and> l \<le> l'))"
    and "(\<forall>l. map_of (qe_sequences q) k = Some l \<longrightarrow> (\<exists>l'. map_of (qe_sequences q') k = Some l' \<and> l \<le> l'))"
    and "qr_valid r \<Longrightarrow> seq_floor k q t"
    and "qr_valid r \<Longrightarrow> map_of (qe_times q') (te_symbol t) = Some (te_timestamp t)"
    and "qr_valid r \<Longrightarrow> te_sequence t = Some n \<Longrightarrow> map_of (qe_sequences q') (te_symbol t) = Some n"
  using assms
  by (auto simp: validate_tick_def check_time_def refuse_tick_def store_sequence_def seq_floor_def dict_simps not_less split: option.splits if_splits)

lemma seq_floor_mono:
  assumes "\<forall>l. map_of (qe_times q) k = Some l \<longrightarrow> (\<exists>l'. map_of (qe_times q') k = Some l' \<and> l \<le> l')"
    "\<forall>l. map_of (qe_sequences q) k = Some l \<longrightarrow> (\<exists>l'. map_of (qe_sequences q') k = Some l' \<and> l \<le> l')"
    "seq_floor k q' t"
  shows "seq_floor k q t"
  using assms unfolding seq_floor_def by (force intro: order_trans)

lemma set_map_filter: "y \<in> set (List.map_filter f xs) \<longleftrightarrow> (\<exists>x \<in> set xs. f x = Some y)"
  by (induction xs) (auto split: option.splits)

definition in_floor :: "tick_event list \<Rightarrow> quality_engine \<Rightarrow> string \<Rightarrow> bool" where
  "in_floor vs q k \<longleftrightarrow> (\<forall>v \<in> set vs. seq_floor k q v) \<and> sorted (map te_timestamp (filter (\<lambda>t. te_symbol t = k) vs))
     \<and> sorted (List.map_filter te_sequence (filter (\<lambda>t. te_symbol t = k) vs))"

lemma valid_ticks_floor: "in_floor (snd (validate_ticks ts q)) q k"
proof (induction ts arbitrary: k q)
  case Nil
  show ?case by (simp add: in_floor_def)
next
  case (Cons t ts)
  obtain q' r where v: "validate_tick t q = (q', r)" by fastforce
  note m = validate_tick_step [OF v]
  let ?vs = "snd (validate_ticks ts q')"
  have fl: "\<forall>v \<in> set ?vs. seq_floor k q v"
    using Cons [of q' k] seq_floor_mono [OF m(1) m(2)] by (auto simp: in_floor_def)
  have all: "snd (validate_ticks (t # ts) q) = (if qr_valid r then t # ?vs else ?vs)"
    by (simp add: v split: prod.split)
  have above: "te_timestamp t \<le> te_timestamp x" if "qr_valid r" "x \<in> set ?vs" "te_symbol x = te_symbol t" for x
    using Cons [of q' "te_symbol t"] m(4) that by (auto simp: in_floor_def seq_floor_def)
  have seqs: "n \<le> n'" if "qr_valid r" "te_sequence t = Some n" "x \<in> set ?vs" "te_symbol x = te_symbol t" "te_sequence x = Some n'" for x n n'
    using Cons [of q' "te_symbol t"] m(5) [of n] that by (auto simp: in_floor_def seq_floor_def)
  show ?case using Cons [of q' k] fl m(3) [of k] above seqs unfolding all in_floor_def
    by (auto simp: set_map_filter split: option.splits)
qed

text \<open>
  C39. Whatever arrives, the ticks of a symbol that pass the quality check come in the order of their times and of their
  sequence numbers, and each has a positive price, no negative volume or open interest, and an ask that is not below the
  bid when both are quoted and positive.
\<close>

theorem valid_ticks_in_order:
  "sorted (map te_timestamp (filter (\<lambda>t. te_symbol t = k) (snd (validate_ticks ts quality_init))))
   \<and> sorted (List.map_filter te_sequence (filter (\<lambda>t. te_symbol t = k) (snd (validate_ticks ts quality_init))))
   \<and> list_all (\<lambda>t. 0 < te_ltp t \<and> 0 \<le> te_volume t \<and> (case te_open_interest t of None \<Rightarrow> True | Some oi \<Rightarrow> 0 \<le> oi)
       \<and> (case (te_bid t, te_ask t) of (Some b, Some a) \<Rightarrow> b \<le> 0 \<or> a \<le> 0 \<or> b \<le> a | _ \<Rightarrow> True)) (snd (validate_ticks ts quality_init))"
proof -
  have "value_fault t = None" if "t \<in> set (snd (validate_ticks ts quality_init))" for t
    using valid_ticks_floor [of ts quality_init "te_symbol t"] that by (auto simp: in_floor_def seq_floor_def)
  then have "list_all (\<lambda>t. 0 < te_ltp t \<and> 0 \<le> te_volume t \<and> (case te_open_interest t of None \<Rightarrow> True | Some oi \<Rightarrow> 0 \<le> oi)
       \<and> (case (te_bid t, te_ask t) of (Some b, Some a) \<Rightarrow> b \<le> 0 \<or> a \<le> 0 \<or> b \<le> a | _ \<Rightarrow> True)) (snd (validate_ticks ts quality_init))"
    by (force simp: list_all_iff value_fault_def split: if_splits option.splits)
  then show ?thesis using valid_ticks_floor [of ts quality_init k] by (auto simp: in_floor_def list_all_iff)
qed

text \<open>A tick refused for its time has moved the sequence number, so the next one of a smaller number is refused too.\<close>

lemma refused_tick_moves_sequence:
  "map qr_valid [snd (validate_tick (counter_tick 5 0) quality_init),
     snd (validate_tick (counter_tick 4 0\<lparr>te_sequence := Some 9\<rparr>) (fst (validate_tick (counter_tick 5 0) quality_init))),
     snd (validate_tick (counter_tick 6 0\<lparr>te_sequence := Some 2\<rparr>) (fst (validate_tick (counter_tick 4 0\<lparr>te_sequence := Some 9\<rparr>)
       (fst (validate_tick (counter_tick 5 0) quality_init)))))] = [True, False, False]"
  by code_simp

subsection \<open>Duplicates\<close>

text \<open>
  Every remembered key was let through at its time, so a tick is only called a duplicate within the window of a tick of
  the same symbol, second, price, volume and number; and the memory stays within its capacity.
\<close>

lemma set_delete_subset: "set (AList.delete k xs) \<subseteq> set xs"
  unfolding AList.delete_eq by (rule filter_is_subset)

definition dedup_ok :: "(dedup_key \<times> rat) list \<Rightarrow> tick_deduplicator \<Rightarrow> bool" where
  "dedup_ok passed d \<longleftrightarrow> set (dd_seen d) \<subseteq> set passed \<and> (0 < dd_max d \<longrightarrow> length (dd_seen d) \<le> dd_max d) \<and> distinct (map fst (dd_seen d))"

lemma length_update: "length (AList.update k v xs) \<le> Suc (length xs)"
  by (induction xs) auto

lemma set_update: "set (AList.update k v xs) \<subseteq> insert (k, v) (set xs)"
  by (induction xs) auto

lemma remember_tick_ok:
  assumes "dedup_ok passed d"
  shows "dedup_ok ((k, now) # passed) (remember_tick now k d)"
proof -
  let ?xs = "if dd_max d \<le> length (dd_seen d) then tl (dd_seen d) else dd_seen d"
  have "set ?xs \<subseteq> set passed" using assms by (cases "dd_seen d") (auto simp: dedup_ok_def)
  moreover have "0 < dd_max d \<longrightarrow> Suc (length ?xs) \<le> dd_max d" using assms by (auto simp: dedup_ok_def)
  moreover have "distinct (map fst ?xs)" using assms by (cases "dd_seen d") (auto simp: dedup_ok_def)
  ultimately show ?thesis using length_update [of k now ?xs] set_update [of k now ?xs]
    by (fastforce simp: dedup_ok_def remember_tick_def distinct_update)
qed

lemma tick_is_duplicate_ok:
  assumes "dedup_ok passed d" "tick_is_duplicate now t d = (d', dup)"
  shows "dedup_ok (if dup then passed else (dedup_key_of t, now) # passed) d'"
    and "dup \<Longrightarrow> \<exists>s. (dedup_key_of t, s) \<in> set passed \<and> frnd (now - s) \<le> dd_window d"
proof -
  have del: "dedup_ok passed (d\<lparr>dd_seen := AList.delete k (dd_seen d)\<rparr>)" for k
  proof -
    have "set (AList.delete k (dd_seen d)) \<subseteq> set passed" using assms(1) by (intro order_trans [OF set_delete_subset]) (simp add: dedup_ok_def)
    moreover have "distinct (map fst (AList.delete k (dd_seen d)))" using assms(1) by (intro AList.distinct_delete) (simp add: dedup_ok_def)
    moreover have "length (AList.delete k (dd_seen d)) \<le> length (dd_seen d)" by (rule AList.length_delete_le)
    ultimately show ?thesis using assms(1) unfolding dedup_ok_def by (simp del: AList.delete_simps) linarith
  qed
  have cnt: "dedup_ok passed (d\<lparr>dd_dropped := n\<rparr>)" for n using assms(1) by (simp add: dedup_ok_def)
  define key where "key = dedup_key_of t"
  note rem = remember_tick_ok [OF assms(1), of key now] remember_tick_ok [OF del [of key], of key now] cnt [of "dd_dropped d + 1"]
  show "dedup_ok (if dup then passed else (dedup_key_of t, now) # passed) d'"
  proof (cases "map_of (dd_seen d) key")
    case None
    then show ?thesis using assms(2) rem(1) unfolding key_def tick_is_duplicate_def Let_def by simp
  next
    case (Some s)
    then show ?thesis using assms(2) rem(2,3) unfolding key_def tick_is_duplicate_def Let_def by (simp split: if_splits)
  qed
  show "\<exists>s. (dedup_key_of t, s) \<in> set passed \<and> frnd (now - s) \<le> dd_window d" if dup
    using assms that by (auto simp: tick_is_duplicate_def dedup_ok_def Let_def split: option.splits if_splits dest!: map_of_SomeD)
qed

end
