(* ===== verification/Droid_CentralFeed.thy ===== *)
theory Droid_CentralFeed
  imports Droid_Series
begin

text \<open>
  \<open>backend/app/services/central_feed.py\<close>: one feed for all clients. A tick passes the quality check, is cached, folded into
  the live candles, handed to the write pipeline and published to the event buffer; a worker takes batches from the buffer
  and appends them to the bounded queue of every client. Sockets are numbers and never fail; a message is the batch or a
  control text.
\<close>

subsection \<open>The hub\<close>

datatype feed_message = MarketTicks "tick_event list" | ControlMessage string

record market_hub =
  hb_clients :: "(nat, feed_message list) dict"
  hb_drops :: "(nat, nat \<times> nat) dict"
  hb_subscriptions :: "string list"
  hb_running :: bool
  hb_evicted :: nat
  hb_dropped :: nat
  hb_latest :: "(string, tick_event) dict"
  hb_broadcasts :: nat
  hb_last_tick :: "rat option"
  hb_last_broadcast :: "rat option"
  hb_ingested :: nat
  hb_quality :: quality_engine
  hb_candles :: candle_feed
  hb_pipe :: write_pipe
  hb_buffer :: event_buffer

definition CLIENT_QUEUE_MAXSIZE :: nat where "CLIENT_QUEUE_MAXSIZE = 50"
definition MAX_CONSECUTIVE_DROPS :: nat where "MAX_CONSECUTIVE_DROPS = 50"
definition MAX_TOTAL_DROPS :: nat where "MAX_TOTAL_DROPS = 500"
definition BROADCAST_BATCH :: nat where "BROADCAST_BATCH = 50"

definition hub_init :: "nat \<Rightarrow> nat \<Rightarrow> event_buffer \<Rightarrow> market_hub" where
  "hub_init bars batch buf = \<lparr>hb_clients = [], hb_drops = [], hb_subscriptions = [''NIFTY 50'', ''BANKNIFTY'', ''FINNIFTY'', ''SENSEX'', ''INDIA VIX''],
     hb_running = False, hb_evicted = 0, hb_dropped = 0, hb_latest = [], hb_broadcasts = 0, hb_last_tick = None, hb_last_broadcast = None,
     hb_ingested = 0, hb_quality = quality_init, hb_candles = candle_feed_init bars, hb_pipe = pipe_init batch, hb_buffer = buf\<rparr>"

definition start_hub :: "market_hub \<Rightarrow> market_hub" where
  "start_hub h = h\<lparr>hb_running := True\<rparr>"

definition stop_hub :: "market_hub \<Rightarrow> market_hub" where
  "stop_hub h = h\<lparr>hb_running := False\<rparr>"

definition register_client :: "nat \<Rightarrow> market_hub \<Rightarrow> market_hub" where
  "register_client ws h = h\<lparr>hb_clients := AList.update ws [] (hb_clients h), hb_drops := AList.delete ws (hb_drops h)\<rparr>"

definition unregister_client :: "nat \<Rightarrow> market_hub \<Rightarrow> market_hub" where
  "unregister_client ws h = h\<lparr>hb_clients := AList.delete ws (hb_clients h), hb_drops := AList.delete ws (hb_drops h)\<rparr>"

definition add_subscription :: "string \<Rightarrow> market_hub \<Rightarrow> market_hub" where
  "add_subscription s h = h\<lparr>hb_subscriptions := List.insert s (hb_subscriptions h)\<rparr>"

text \<open>A full queue loses its oldest message.\<close>

definition push_message :: "feed_message \<Rightarrow> feed_message list \<Rightarrow> feed_message list" where
  "push_message m q = (if CLIENT_QUEUE_MAXSIZE \<le> length q then tl q else q) @ [m]"

definition broadcast_message :: "feed_message \<Rightarrow> market_hub \<Rightarrow> market_hub \<times> nat" where
  "broadcast_message m h = (h\<lparr>hb_clients := map (\<lambda>(ws, q). (ws, push_message m q)) (hb_clients h)\<rparr>, length (hb_clients h))"

definition take_message :: "nat \<Rightarrow> market_hub \<Rightarrow> market_hub" where
  "take_message ws h = (case map_of (hb_clients h) ws of
     Some (_ # q) \<Rightarrow> h\<lparr>hb_clients := AList.update ws q (hb_clients h)\<rparr> | _ \<Rightarrow> h)"

definition ingest_tick :: "rat \<Rightarrow> rat \<Rightarrow> tick_event \<Rightarrow> market_hub \<Rightarrow> market_hub \<times> bool" where
  "ingest_tick now clock t h = (case validate_tick t (hb_quality h) of (q, r) \<Rightarrow>
     if \<not> qr_valid r then (h\<lparr>hb_quality := q\<rparr>, False)
     else (case publish_event t (hb_buffer h) of (b, ok) \<Rightarrow>
       (h\<lparr>hb_quality := q, hb_latest := AList.update (te_symbol t) t (hb_latest h), hb_last_tick := Some now,
          hb_ingested := hb_ingested h + 1, hb_candles := fst (on_tick t (hb_candles h)), hb_pipe := fst (enqueue_tick clock t (hb_pipe h)),
          hb_buffer := b\<rparr>, ok)))"

subsection \<open>The broadcast worker\<close>

text \<open>One client: its queue after the message, or nothing when it is evicted, and its drop counts.\<close>

definition deliver_one :: "feed_message \<Rightarrow> feed_message list \<Rightarrow> (nat \<times> nat) option \<Rightarrow> feed_message list option \<times> (nat \<times> nat) option \<times> bool" where
  "deliver_one m q counts = (
     if CLIENT_QUEUE_MAXSIZE \<le> length q then
       (case or_else counts (0, 0) of (c, t) \<Rightarrow>
          if MAX_CONSECUTIVE_DROPS \<le> c + 1 \<or> MAX_TOTAL_DROPS \<le> t + 1 then (None, Some (c + 1, t + 1), True)
          else (Some (push_message m q), Some (c + 1, t + 1), True))
     else (Some (push_message m q), map_option (\<lambda>(c, t). (0, t)) counts, False))"

definition set_drops :: "nat \<Rightarrow> (nat \<times> nat) option \<Rightarrow> (nat, nat \<times> nat) dict \<Rightarrow> (nat, nat \<times> nat) dict" where
  "set_drops ws counts d = (case counts of None \<Rightarrow> d | Some x \<Rightarrow> AList.update ws x d)"

text \<open>The loop over the clients, and the removal of the evicted ones after it.\<close>

definition deliver_client :: "feed_message \<Rightarrow> nat \<times> feed_message list \<Rightarrow> market_hub \<Rightarrow> market_hub" where
  "deliver_client m = (\<lambda>(ws, q) h. case deliver_one m q (map_of (hb_drops h) ws) of (q', counts, lost) \<Rightarrow>
     (let h' = h\<lparr>hb_dropped := hb_dropped h + (if lost then 1 else 0), hb_drops := set_drops ws counts (hb_drops h)\<rparr> in
      case q' of Some q2 \<Rightarrow> h'\<lparr>hb_clients := AList.update ws q2 (hb_clients h')\<rparr>
      | None \<Rightarrow> h'\<lparr>hb_clients := AList.delete ws (hb_clients h'), hb_drops := AList.delete ws (hb_drops h'), hb_evicted := hb_evicted h' + 1\<rparr>))"

definition deliver_batch :: "feed_message \<Rightarrow> market_hub \<Rightarrow> market_hub" where
  "deliver_batch m h = fold (deliver_client m) (hb_clients h) h"

definition broadcast_round :: "rat \<Rightarrow> market_hub \<Rightarrow> market_hub" where
  "broadcast_round now h = (case consume_batch BROADCAST_BATCH (hb_buffer h) of (b, batch) \<Rightarrow>
     let h' = h\<lparr>hb_buffer := b\<rparr> in
     if batch = [] \<or> hb_clients h = [] then h'
     else (deliver_batch (MarketTicks batch) h')\<lparr>hb_broadcasts := hb_broadcasts h + length batch, hb_last_broadcast := Some now\<rparr>)"

subsection \<open>Reading the hub\<close>

datatype feed_age = AGE_LIVE | AGE_STALE | AGE_DOWN | AGE_UNKNOWN

definition tick_age :: "rat \<Rightarrow> market_hub \<Rightarrow> rat option" where
  "tick_age now h = map_option (\<lambda>t. frnd (now - t)) (hb_last_tick h)"

definition is_ticking :: "rat \<Rightarrow> market_hub \<Rightarrow> bool" where
  "is_ticking now h \<longleftrightarrow> (case tick_age now h of Some a \<Rightarrow> a \<le> 15 | None \<Rightarrow> False)"

definition feed_age_status :: "rat \<Rightarrow> market_hub \<Rightarrow> feed_age" where
  "feed_age_status now h = (if \<not> hb_running h then AGE_DOWN else (case tick_age now h of None \<Rightarrow> AGE_UNKNOWN
     | Some a \<Rightarrow> if a \<le> 15 then AGE_LIVE else AGE_STALE))"

definition get_latest_tick :: "rat \<Rightarrow> string \<Rightarrow> market_hub \<Rightarrow> tick_event option" where
  "get_latest_tick now s h = (case map_of (hb_latest h) s of None \<Rightarrow> None
     | Some t \<Rightarrow> if 60 < frnd (now - te_timestamp t) then None else Some t)"

text \<open>The snapshot a client gets on connecting: the cards of the coordinator with a price, else the ticks of the last minute.\<close>

definition feed_snapshot :: "rat \<Rightarrow> ('card \<Rightarrow> rat option) \<Rightarrow> 'card list option \<Rightarrow> market_hub \<Rightarrow> 'card list + tick_event list" where
  "feed_snapshot now price cards h = (let good = filter (\<lambda>c. case price c of Some p \<Rightarrow> 0 < p | None \<Rightarrow> False) (or_else cards []) in
     if good \<noteq> [] then Inl good else Inr (List.map_filter (\<lambda>t. get_latest_tick now (te_symbol t) h) (map snd (hb_latest h))))"

subsection \<open>Runs of the hub\<close>

datatype hub_op = IngestTick rat rat tick_event | BroadcastRound rat | RegisterClient nat | UnregisterClient nat | Control string
  | TakeMessage nat | Subscribe string | StartHub | StopHub

fun hub_step :: "hub_op \<Rightarrow> market_hub \<Rightarrow> market_hub" where
  "hub_step (IngestTick now clock t) h = fst (ingest_tick now clock t h)"
| "hub_step (BroadcastRound now) h = broadcast_round now h"
| "hub_step (RegisterClient ws) h = register_client ws h"
| "hub_step (UnregisterClient ws) h = unregister_client ws h"
| "hub_step (Control s) h = fst (broadcast_message (ControlMessage s) h)"
| "hub_step (TakeMessage ws) h = take_message ws h"
| "hub_step (Subscribe s) h = add_subscription s h"
| "hub_step StartHub h = start_hub h"
| "hub_step StopHub h = stop_hub h"

definition offered_ticks :: "hub_op list \<Rightarrow> tick_event list" where
  "offered_ticks ops = List.map_filter (\<lambda>x. case x of IngestTick _ _ t \<Rightarrow> Some t | _ \<Rightarrow> None) ops"

subsection \<open>The parts agree\<close>

lemma validate_ticks_snoc:
  "validate_ticks (ts @ [t]) q = (case validate_ticks ts q of (q1, vs) \<Rightarrow> (case validate_tick t q1 of (q2, r) \<Rightarrow>
     (q2, if qr_valid r then vs @ [t] else vs)))"
  by (induction ts arbitrary: q) (auto split: prod.splits)

definition last_tick_of :: "string \<Rightarrow> tick_event list \<Rightarrow> tick_event option" where
  "last_tick_of s ts = (let own = filter (\<lambda>t. te_symbol t = s) ts in if own = [] then None else Some (List.last own))"

text \<open>The operations without the ticks the quality check refuses.\<close>

fun passed_ops :: "quality_engine \<Rightarrow> hub_op list \<Rightarrow> hub_op list" where
  "passed_ops q [] = []"
| "passed_ops q (IngestTick now clock t # ops) = (case validate_tick t q of (q', r) \<Rightarrow>
     (if qr_valid r then [IngestTick now clock t] else []) @ passed_ops q' ops)"
| "passed_ops q (x # ops) = x # passed_ops q ops"

text \<open>What an operation of the feed asks of the write pipeline and of the event buffer, if anything.\<close>

definition pipe_call :: "hub_op \<Rightarrow> write_pipe \<Rightarrow> write_pipe" where
  "pipe_call x w = (case x of IngestTick now clock t \<Rightarrow> fst (enqueue_tick clock t w) | _ \<Rightarrow> w)"

definition buffer_call :: "hub_op \<Rightarrow> event_buffer \<Rightarrow> event_buffer" where
  "buffer_call x b = (case x of IngestTick now clock t \<Rightarrow> fst (publish_event t b)
     | BroadcastRound now \<Rightarrow> fst (consume_batch BROADCAST_BATCH b) | _ \<Rightarrow> b)"

lemma offered_Nil [simp]: "offered_ticks [] = []"
  by (simp add: offered_ticks_def List.map_filter_simps)

lemma offered_Cons [simp]: "offered_ticks (x # ops) = (case x of IngestTick _ _ t \<Rightarrow> [t] | _ \<Rightarrow> []) @ offered_ticks ops"
  by (simp add: offered_ticks_def List.map_filter_simps split: hub_op.split)

lemma offered_snoc: "offered_ticks (ops @ [x]) = offered_ticks ops @ (case x of IngestTick _ _ t \<Rightarrow> [t] | _ \<Rightarrow> [])"
  by (simp add: offered_ticks_def List.map_filter_def split: hub_op.split)

lemma passed_snoc:
  "passed_ops q (ops @ [x]) = passed_ops q ops @ (case x of
     IngestTick now clock t \<Rightarrow> if qr_valid (snd (validate_tick t (fst (validate_ticks (offered_ticks ops) q)))) then [x] else []
   | _ \<Rightarrow> [x])"
proof (induction q ops rule: passed_ops.induct)
  case (1 q)
  show ?case by (cases x) (simp_all split: prod.split)
next
  case (2 q now clock t ops)
  obtain q' r where v: "validate_tick t q = (q', r)" by fastforce
  obtain q2 vs where w: "validate_ticks (offered_ticks ops) q' = (q2, vs)" by fastforce
  show ?case using 2 [OF v [symmetric]] w by (cases x) (simp_all add: v)
qed (cases x; simp)+

lemma passed_are_valid: "offered_ticks (passed_ops q ops) = snd (validate_ticks (offered_ticks ops) q)"
proof (induction q ops rule: passed_ops.induct)
  case (2 q now clock t ops)
  obtain q' r where v: "validate_tick t q = (q', r)" by fastforce
  obtain q2 vs where w: "validate_ticks (offered_ticks ops) q' = (q2, vs)" by fastforce
  show ?case using 2 [OF v [symmetric]] w by (simp add: v)
qed simp_all

definition hub_tracks :: "nat \<Rightarrow> nat \<Rightarrow> event_buffer \<Rightarrow> hub_op list \<Rightarrow> market_hub \<Rightarrow> bool" where
  "hub_tracks n batch buf ops h \<longleftrightarrow> (case validate_ticks (offered_ticks ops) quality_init of (q, vs) \<Rightarrow>
     hb_quality h = q \<and> hb_candles h = on_ticks vs (candle_feed_init n) \<and> (\<forall>s. map_of (hb_latest h) s = last_tick_of s vs)
     \<and> hb_ingested h = length vs \<and> hb_pipe h = fold pipe_call (passed_ops quality_init ops) (pipe_init batch)
     \<and> hb_buffer h = fold buffer_call (passed_ops quality_init ops) buf)"

lemma ingest_tracks:
  assumes "hub_tracks n batch buf ops h"
  shows "hub_tracks n batch buf (ops @ [IngestTick now clock t]) (fst (ingest_tick now clock t h))"
proof -
  obtain q1 vs where v: "validate_ticks (offered_ticks ops) quality_init = (q1, vs)" by fastforce
  obtain q2 r where t: "validate_tick t q1 = (q2, r)" by fastforce
  obtain b ok where p: "publish_event t (hb_buffer h) = (b, ok)" by fastforce
  have q: "hb_quality h = q1" using assms v by (simp add: hub_tracks_def)
  have o: "offered_ticks (ops @ [IngestTick now clock t]) = offered_ticks ops @ [t]" by (simp add: offered_snoc)
  have "map_of (AList.update (te_symbol t) t (hb_latest h)) s = last_tick_of s (vs @ [t])" for s
    using assms v by (auto simp: hub_tracks_def last_tick_of_def Let_def dict_simps)
  then show ?thesis using assms v t q p
    by (auto simp: hub_tracks_def ingest_tick_def o validate_ticks_snoc passed_snoc pipe_call_def buffer_call_def on_ticks_def)
qed

text \<open>What the operations on clients leave alone.\<close>

definition same_market :: "market_hub \<Rightarrow> market_hub \<Rightarrow> bool" where
  "same_market h h' \<longleftrightarrow> hb_quality h' = hb_quality h \<and> hb_candles h' = hb_candles h \<and> hb_latest h' = hb_latest h \<and> hb_ingested h' = hb_ingested h
     \<and> hb_pipe h' = hb_pipe h \<and> hb_buffer h' = hb_buffer h"

lemma same_market_tracks:
  assumes "same_market (h\<lparr>hb_buffer := buffer_call x (hb_buffer h)\<rparr>) h'" "hub_tracks n batch buf ops h" "\<not> (\<exists>now clock t. x = IngestTick now clock t)"
  shows "hub_tracks n batch buf (ops @ [x]) h'"
  using assms by (cases x) (auto simp: same_market_def hub_tracks_def offered_snoc passed_snoc pipe_call_def split: prod.splits)

lemma deliver_client_market: "same_market h0 h \<Longrightarrow> same_market h0 (deliver_client m c h)"
  by (auto simp: same_market_def deliver_client_def Let_def split: prod.splits option.splits)

lemma deliver_fold_market: "same_market h0 h \<Longrightarrow> same_market h0 (fold (deliver_client m) cs h)"
  by (induction cs arbitrary: h) (auto simp: deliver_client_market)

lemma broadcast_round_market: "same_market (h\<lparr>hb_buffer := fst (consume_batch BROADCAST_BATCH (hb_buffer h))\<rparr>) (broadcast_round now h)"
proof -
  obtain b batch where b: "consume_batch BROADCAST_BATCH (hb_buffer h) = (b, batch)" by fastforce
  have "same_market (h\<lparr>hb_buffer := b\<rparr>) (deliver_batch (MarketTicks batch) (h\<lparr>hb_buffer := b\<rparr>))"
    unfolding deliver_batch_def by (rule deliver_fold_market) (simp add: same_market_def)
  then show ?thesis using b by (auto simp: broadcast_round_def Let_def same_market_def)
qed

lemma client_step_market:
  "same_market h (register_client ws h)" "same_market h (unregister_client ws h)" "same_market h (fst (broadcast_message m h))"
  "same_market h (take_message ws h)" "same_market h (add_subscription s h)" "same_market h (start_hub h)" "same_market h (stop_hub h)"
  by (auto simp: same_market_def register_client_def unregister_client_def broadcast_message_def take_message_def add_subscription_def
      start_hub_def stop_hub_def split: option.splits list.splits)

lemma hub_run_tracks: "hub_tracks n batch buf [] h \<Longrightarrow> hub_tracks n batch buf ops (fold hub_step ops h)"
proof (induction ops rule: rev_induct)
  case (snoc x ops)
  then have h: "hub_tracks n batch buf ops (fold hub_step ops h)" by simp
  show ?case
  proof (cases x)
    case (IngestTick now clock t)
    then show ?thesis using ingest_tracks [OF h] by simp
  next
    case (BroadcastRound now)
    then show ?thesis using broadcast_round_market by (simp, intro same_market_tracks [OF _ h]) (simp_all add: buffer_call_def)
  qed (use client_step_market in \<open>(simp, intro same_market_tracks [OF _ h]; simp add: buffer_call_def)+\<close>)
qed simp

lemma hub_init_tracks: "hub_tracks n batch buf [] (hub_init n batch buf)"
  by (simp add: hub_tracks_def hub_init_def offered_ticks_def last_tick_of_def on_ticks_def)

text \<open>
  C14. Whatever ticks are offered, between whatever rounds of the worker and changes of clients, every part of the feed is
  handed exactly the ticks that passed the quality check, in their order: the live candles are those of these ticks (so the
  closed candles of a symbol are the reference candles), the cached tick of a symbol is the last of them, the write
  pipeline is in the state it has after exactly these ticks were enqueued, each at its own clock, and the event buffer in
  the state after exactly these ticks were published and the rounds between them took their batches.
\<close>

theorem feed_parts_agree:
  "let h = fold hub_step ops (hub_init n batch buf); ps = passed_ops quality_init ops; vs = offered_ticks ps in
     vs = snd (validate_ticks (offered_ticks ops) quality_init)
   \<and> hb_candles h = on_ticks vs (candle_feed_init n)
   \<and> bars_of k (hb_candles h) = last_n n (map candle_of_run (butlast (minute_runs k vs)))
   \<and> map_of (hb_latest h) s = last_tick_of s vs \<and> hb_ingested h = length vs
   \<and> hb_pipe h = fold pipe_call ps (pipe_init batch) \<and> hb_buffer h = fold buffer_call ps buf"
  using hub_run_tracks [OF hub_init_tracks [of n batch buf], of ops] on_ticks_feed [of n "offered_ticks (passed_ops quality_init ops)" k]
  by (simp add: Let_def hub_tracks_def feed_is_def passed_are_valid split: prod.splits)

subsection \<open>Slow clients\<close>

definition queue_fits :: "feed_message list \<Rightarrow> bool" where
  "queue_fits q \<longleftrightarrow> length q \<le> CLIENT_QUEUE_MAXSIZE"

definition drops_fit :: "nat \<times> nat \<Rightarrow> bool" where
  "drops_fit d \<longleftrightarrow> fst d < MAX_CONSECUTIVE_DROPS \<and> snd d < MAX_TOTAL_DROPS"

definition all_values :: "('v \<Rightarrow> bool) \<Rightarrow> ('k, 'v) dict \<Rightarrow> bool" where
  "all_values P d \<longleftrightarrow> list_all P (map snd d)"

definition clients_bounded :: "market_hub \<Rightarrow> bool" where
  "clients_bounded h \<longleftrightarrow> all_values queue_fits (hb_clients h) \<and> all_values drops_fit (hb_drops h)"

lemma all_values_update: "all_values P d \<Longrightarrow> P v \<Longrightarrow> all_values P (AList.update k v d)"
  using set_update [of k v d] by (auto simp: all_values_def list_all_iff)

lemma all_values_delete: "all_values P d \<Longrightarrow> all_values P (AList.delete k d)"
  using set_delete_subset [of k d] by (auto simp: all_values_def list_all_iff)

lemma all_values_get: "all_values P d \<Longrightarrow> map_of d k = Some v \<Longrightarrow> P v"
  by (auto simp: all_values_def list_all_iff dest!: map_of_SomeD)

lemma push_fits: "queue_fits q \<Longrightarrow> queue_fits (push_message m q)"
  by (auto simp: queue_fits_def push_message_def CLIENT_QUEUE_MAXSIZE_def)

lemma delivered_fits:
  assumes "deliver_one m q counts = (Some q2, counts', lost)" "queue_fits q" "\<And>x. counts = Some x \<Longrightarrow> drops_fit x"
  shows "queue_fits q2 \<and> (\<forall>y. counts' = Some y \<longrightarrow> drops_fit y)"
  using assms push_fits [OF assms(2)]
  by (cases counts) (auto simp: deliver_one_def drops_fit_def not_le MAX_CONSECUTIVE_DROPS_def MAX_TOTAL_DROPS_def split: if_splits prod.splits)

lemma set_then_delete: "AList.delete ws (set_drops ws c d) = AList.delete ws d"
  by (simp add: set_drops_def AList.delete_update_same split: option.splits)

lemma set_drops_fit: "all_values drops_fit d \<Longrightarrow> (\<And>y. c = Some y \<Longrightarrow> drops_fit y) \<Longrightarrow> all_values drops_fit (set_drops ws c d)"
  by (auto simp: set_drops_def all_values_update split: option.splits)

lemma deliver_client_bounded:
  assumes b: "clients_bounded h" and q: "queue_fits q"
  shows "clients_bounded (deliver_client m (ws, q) h)"
proof -
  obtain q' counts lost where o: "deliver_one m q (map_of (hb_drops h) ws) = (q', counts, lost)" by (cases "deliver_one m q (map_of (hb_drops h) ws)")
  have known: "drops_fit x" if "map_of (hb_drops h) ws = Some x" for x
    using b by (auto simp: clients_bounded_def intro: all_values_get [OF _ that])
  show ?thesis
  proof (cases q')
    case None
    then show ?thesis using b o by (simp add: deliver_client_def Let_def clients_bounded_def set_then_delete all_values_delete)
  next
    case (Some q2)
    then have "queue_fits q2 \<and> (\<forall>y. counts = Some y \<longrightarrow> drops_fit y)"
      using delivered_fits [of m q "map_of (hb_drops h) ws" q2 counts lost] o q known by blast
    moreover from this have "all_values drops_fit (set_drops ws counts (hb_drops h))"
      using b by (intro set_drops_fit) (auto simp: clients_bounded_def)
    ultimately show ?thesis using b o Some
      by (simp add: deliver_client_def Let_def clients_bounded_def all_values_update)
  qed
qed

lemma deliver_fold_bounded: "clients_bounded h \<Longrightarrow> all_values queue_fits cs \<Longrightarrow> clients_bounded (fold (deliver_client m) cs h)"
  by (induction cs arbitrary: h) (auto simp: deliver_client_bounded all_values_def)

lemma broadcast_round_bounded: "clients_bounded h \<Longrightarrow> clients_bounded (broadcast_round now h)"
  using deliver_fold_bounded [of "h\<lparr>hb_buffer := fst (consume_batch BROADCAST_BATCH (hb_buffer h))\<rparr>" "hb_clients h"
      "MarketTicks (snd (consume_batch BROADCAST_BATCH (hb_buffer h)))"]
  by (auto simp: broadcast_round_def deliver_batch_def Let_def clients_bounded_def split: prod.splits)

lemma ingest_bounded: "clients_bounded h \<Longrightarrow> clients_bounded (fst (ingest_tick now clock t h))"
  by (auto simp: ingest_tick_def clients_bounded_def split: prod.splits)

lemma client_step_bounded:
  assumes "clients_bounded h"
  shows "clients_bounded (register_client ws h)" "clients_bounded (unregister_client ws h)" "clients_bounded (fst (broadcast_message m h))"
    "clients_bounded (take_message ws h)" "clients_bounded (add_subscription s h)" "clients_bounded (start_hub h)" "clients_bounded (stop_hub h)"
proof -
  have "queue_fits q" if "map_of (hb_clients h) ws = Some (x # q)" for x q
    using all_values_get [OF _ that] assms by (fastforce simp: clients_bounded_def queue_fits_def)
  then show "clients_bounded (take_message ws h)"
    using assms by (auto simp: take_message_def clients_bounded_def all_values_update split: option.splits list.splits)
  show "clients_bounded (register_client ws h)"
    using assms by (simp add: register_client_def clients_bounded_def all_values_update all_values_delete queue_fits_def)
  show "clients_bounded (unregister_client ws h)"
    using assms by (simp add: unregister_client_def clients_bounded_def all_values_delete)
  show "clients_bounded (fst (broadcast_message m h))"
    using assms by (auto simp: broadcast_message_def clients_bounded_def all_values_def list_all_iff push_fits)
qed (use assms in \<open>simp_all add: clients_bounded_def add_subscription_def start_hub_def stop_hub_def\<close>)

lemma hub_step_bounded: "clients_bounded h \<Longrightarrow> clients_bounded (hub_step x h)"
  by (cases x) (simp_all add: ingest_bounded broadcast_round_bounded client_step_bounded)

interpretation hub_clients: op_invariant hub_step clients_bounded
  by unfold_locales (rule hub_step_bounded)

text \<open>
  However slowly clients read and whatever is ingested, broadcast, registered or taken in between, no queue of a client
  ever exceeds fifty messages, and the drop counters of the connected clients stay below the limits of fifty in a row and
  five hundred in all. The counters only see what the rounds displace: a control message also displaces the oldest
  message of a full queue, and nothing counts it (\<open>control_message_drops_batch\<close>).
\<close>

theorem slow_clients_bounded:
  "let h = fold hub_step ops (hub_init n batch buf) in
     list_all (\<lambda>q. length q \<le> 50) (map snd (hb_clients h)) \<and> list_all (\<lambda>d. fst d < 50 \<and> snd d < 500) (map snd (hb_drops h))"
  using hub_clients.run_inv [of "hub_init n batch buf" ops]
  by (simp add: Let_def clients_bounded_def all_values_def queue_fits_def drops_fit_def hub_init_def CLIENT_QUEUE_MAXSIZE_def
      MAX_CONSECUTIVE_DROPS_def MAX_TOTAL_DROPS_def list_all_iff)

lemma control_message_drops_batch:
  assumes "map_of (hb_clients h) ws = Some (MarketTicks b # q)" "length q = 49"
  shows "map_of (hb_clients (fst (broadcast_message (ControlMessage s) h))) ws = Some (q @ [ControlMessage s])
    \<and> hb_drops (fst (broadcast_message (ControlMessage s) h)) = hb_drops h
    \<and> hb_dropped (fst (broadcast_message (ControlMessage s) h)) = hb_dropped h"
  using assms by (simp add: broadcast_message_def push_message_def CLIENT_QUEUE_MAXSIZE_def map_of_map)

text \<open>A batch taken from the buffer while no client is connected is discarded, and no counter of the hub records it.\<close>

lemma batch_lost_without_clients:
  assumes "hb_clients h = []"
  shows "broadcast_round now h = h\<lparr>hb_buffer := fst (consume_batch BROADCAST_BATCH (hb_buffer h))\<rparr>"
  using assms by (simp add: broadcast_round_def Let_def split: prod.splits)

end
