(* ===== verification/Droid_Rules.thy ===== *)
theory Droid_Rules
  imports Droid_Decimal "HOL-Library.List_Lexorder" "HOL-Library.Char_ord"
begin

text \<open>
  \<open>backend/app/indicator_research/signals/rules.py\<close>: signal rules as JSON documents, validated into a canonical form and
  evaluated bar by bar over feature columns. A column holds a float or nothing for every bar (a boolean is its float);
  JSON numbers are floats, and a comparison that involves a literal which is neither a number nor a boolean is the
  \<open>TypeError\<close> of Python (two string literals, which Python would order, included). The texts of errors are codes.
\<close>

subsection \<open>Documents\<close>

datatype json = JNull | JBool bool | JNum rat | JStr string | JArr "json list" | JObj "(string \<times> json) list"

text \<open>\<open>bool(v)\<close>\<close>

fun json_truthy :: "json \<Rightarrow> bool" where
  "json_truthy JNull \<longleftrightarrow> False"
| "json_truthy (JBool b) \<longleftrightarrow> b"
| "json_truthy (JNum r) \<longleftrightarrow> r \<noteq> 0"
| "json_truthy (JStr s) \<longleftrightarrow> s \<noteq> []"
| "json_truthy (JArr xs) \<longleftrightarrow> xs \<noteq> []"
| "json_truthy (JObj kvs) \<longleftrightarrow> kvs \<noteq> []"

subsection \<open>Canonical rules\<close>

datatype rule_error = EMPTY_NAME | BAD_OPERAND_OBJECT | BAD_RANGE | BAD_OPERAND | TOO_DEEP | BAD_LOGIC | NO_CONDITIONS
  | CONDITIONS_NOT_LIST | CONDITION_NOT_OBJECT | NOT_TAKES_ONE | NO_LEFT | BAD_RULE_OPERATOR | NO_RIGHT | RANGE_REQUIRED
  | RANGE_REFUSED | BAD_BARS | RULE_NOT_OBJECT | UNKNOWN_FEATURE | NOT_NUMBERS

datatype rule_operator = OP_GT | OP_LT | OP_GE | OP_LE | OP_EQ | OP_NE | CROSSES_ABOVE | CROSSES_BELOW | TURNS_UP | TURNS_DOWN
  | SLOPE_UP | SLOPE_DOWN | IN_RANGE | OUTSIDE_RANGE

datatype operand = Feature string | Literal json | Range rat rat

datatype rule_logic = L_AND | L_OR | L_NOT

record rule_cond =
  rc_left :: operand
  rc_op :: rule_operator
  rc_right :: "operand option"
  rc_bars :: "int option"
  rc_enabled :: bool
  rc_label :: "string option"

datatype rule_node = Leaf rule_cond | Group rule_logic "rule_node list"

definition RULE_EPS :: rat where "RULE_EPS = frnd (1 / 10 ^ 12)"
definition RULE_MAX_DEPTH :: nat where "RULE_MAX_DEPTH = 12"

definition OPERATOR_NAMES :: "(string, rule_operator) dict" where
  "OPERATOR_NAMES = [(''>'', OP_GT), (''<'', OP_LT), (''>='', OP_GE), (''<='', OP_LE), (''=='', OP_EQ), (''!='', OP_NE),
     (''crosses_above'', CROSSES_ABOVE), (''crosses_below'', CROSSES_BELOW), (''turns_up'', TURNS_UP), (''turns_down'', TURNS_DOWN),
     (''slope_up'', SLOPE_UP), (''slope_down'', SLOPE_DOWN), (''in_range'', IN_RANGE), (''outside_range'', OUTSIDE_RANGE)]"

definition unary_op :: "rule_operator \<Rightarrow> bool" where
  "unary_op op \<longleftrightarrow> op \<in> {TURNS_UP, TURNS_DOWN, SLOPE_UP, SLOPE_DOWN}"

definition range_op :: "rule_operator \<Rightarrow> bool" where
  "range_op op \<longleftrightarrow> op \<in> {IN_RANGE, OUTSIDE_RANGE}"

definition LOGIC_NAMES :: "(string, rule_logic) dict" where
  "LOGIC_NAMES = [(''AND'', L_AND), (''OR'', L_OR), (''NOT'', L_NOT)]"

subsection \<open>Normalisation\<close>

definition rule_bind :: "rule_error + 'a \<Rightarrow> ('a \<Rightarrow> rule_error + 'b) \<Rightarrow> rule_error + 'b" where
  "rule_bind m f = (case m of Inl e \<Rightarrow> Inl e | Inr x \<Rightarrow> f x)"

definition read_operand :: "json \<Rightarrow> rule_error + operand" where
  "read_operand v = (case v of
     JObj o1 \<Rightarrow> (case map_of o1 ''feature'' of
         Some name \<Rightarrow> (case name of JStr s \<Rightarrow> if strip s = [] then Inl EMPTY_NAME else Inr (Feature (strip s)) | _ \<Rightarrow> Inl EMPTY_NAME)
       | None \<Rightarrow> (case map_of o1 ''value'' of Some w \<Rightarrow> Inr (Literal w) | None \<Rightarrow> Inl BAD_OPERAND_OBJECT))
   | JStr s \<Rightarrow> if s = [] then Inl EMPTY_NAME else Inr (Feature s)
   | JBool b \<Rightarrow> Inr (Literal v) | JNum r \<Rightarrow> Inr (Literal v)
   | JArr items \<Rightarrow> (case items of [JNum a, JNum b] \<Rightarrow> Inr (Range (frnd a) (frnd b)) | _ \<Rightarrow> Inl BAD_RANGE)
   | JNull \<Rightarrow> Inl BAD_OPERAND)"

definition is_range :: "operand \<Rightarrow> bool" where
  "is_range x \<longleftrightarrow> (case x of Range _ _ \<Rightarrow> True | _ \<Rightarrow> False)"

definition read_right :: "rule_operator \<Rightarrow> (string \<times> json) list \<Rightarrow> rule_error + operand option" where
  "read_right op raw = (if unary_op op then Inr None else (case map_of raw ''right'' of
     None \<Rightarrow> Inl NO_RIGHT
   | Some v \<Rightarrow> rule_bind (read_operand v) (\<lambda>x.
       if range_op op \<and> \<not> is_range x then Inl RANGE_REQUIRED
       else if \<not> range_op op \<and> is_range x then Inl RANGE_REFUSED
       else Inr (Some x))))"

definition read_bars :: "rule_operator \<Rightarrow> json option \<Rightarrow> rule_error + int option" where
  "read_bars op v = (case or_else v JNull of
     JNull \<Rightarrow> Inr (if op \<in> {SLOPE_UP, SLOPE_DOWN} then Some 1 else None)
   | JNum r \<Rightarrow> if rat_trunc r < 1 then Inl BAD_BARS else Inr (Some (rat_trunc r))
   | _ \<Rightarrow> Inl BAD_BARS)"

definition normalize_condition :: "(string \<times> json) list \<Rightarrow> rule_error + rule_cond" where
  "normalize_condition raw = (case map_of raw ''left'' of
     None \<Rightarrow> Inl NO_LEFT
   | Some l \<Rightarrow> (case (case map_of raw ''operator'' of Some (JStr s) \<Rightarrow> map_of OPERATOR_NAMES s | _ \<Rightarrow> None) of
       None \<Rightarrow> Inl BAD_RULE_OPERATOR
     | Some op \<Rightarrow> rule_bind (read_operand l) (\<lambda>left. rule_bind (read_right op raw) (\<lambda>right.
         rule_bind (read_bars op (map_of raw ''bars'')) (\<lambda>bars.
           Inr \<lparr>rc_left = left, rc_op = op, rc_right = right, rc_bars = bars,
             rc_enabled = (case map_of raw ''enabled'' of None \<Rightarrow> True | Some v \<Rightarrow> json_truthy v),
             rc_label = (case map_of raw ''label'' of Some (JStr s) \<Rightarrow> Some s | _ \<Rightarrow> None)\<rparr>)))))"

definition read_logic :: "(string \<times> json) list \<Rightarrow> rule_logic option" where
  "read_logic raw = (case map_of raw ''operator'' of None \<Rightarrow> Some L_AND
     | Some (JStr s) \<Rightarrow> map_of LOGIC_NAMES (map to_upper s) | Some _ \<Rightarrow> None)"

definition is_group :: "(string \<times> json) list \<Rightarrow> bool" where
  "is_group raw \<longleftrightarrow> map_of raw ''operator'' \<noteq> None \<and> map_of raw ''conditions'' \<noteq> None \<and> map_of raw ''left'' = None"

lemma size_map_of: "map_of kvs k = Some v \<Longrightarrow> size v < size (JObj kvs)"
  by (induction kvs) (auto split: if_splits)

function (sequential) normalize_group :: "nat \<Rightarrow> (string \<times> json) list \<Rightarrow> rule_error + rule_node"
  and normalize_items :: "nat \<Rightarrow> json list \<Rightarrow> rule_error + rule_node list" where
  "normalize_group d raw = (
     if RULE_MAX_DEPTH < d then Inl TOO_DEEP else (case read_logic raw of None \<Rightarrow> Inl BAD_LOGIC | Some lg \<Rightarrow>
       (case map_of raw ''conditions'' of
         None \<Rightarrow> Inl NO_CONDITIONS | Some JNull \<Rightarrow> Inl NO_CONDITIONS
       | Some (JArr items) \<Rightarrow> (case normalize_items d items of Inl e \<Rightarrow> Inl e
           | Inr cs \<Rightarrow> if lg = L_NOT \<and> length cs \<noteq> 1 then Inl NOT_TAKES_ONE else Inr (Group lg cs))
       | Some _ \<Rightarrow> Inl CONDITIONS_NOT_LIST)))"
| "normalize_items d [] = Inr []"
| "normalize_items d (JObj raw # items) = (
     case (if is_group raw then normalize_group (Suc d) raw else map_sum id Leaf (normalize_condition raw)) of
       Inl e \<Rightarrow> Inl e
     | Inr c \<Rightarrow> (case normalize_items d items of Inl e \<Rightarrow> Inl e | Inr cs \<Rightarrow> Inr (c # cs)))"
| "normalize_items d (_ # items) = Inl CONDITION_NOT_OBJECT"
  by pat_completeness auto
termination
  by (relation "measure (\<lambda>x. case x of Inl (d, raw) \<Rightarrow> size (JObj raw) | Inr (d, items) \<Rightarrow> size (JArr items))")
    (auto dest: size_map_of)

definition normalize_rule :: "json option \<Rightarrow> rule_error + rule_node option" where
  "normalize_rule r = (case r of None \<Rightarrow> Inr None | Some (JObj raw) \<Rightarrow> map_sum id Some (normalize_group 0 raw)
     | Some _ \<Rightarrow> Inl RULE_NOT_OBJECT)"

subsection \<open>Evaluation\<close>

type_synonym features = "(string, rat option list) dict"

datatype operand_value = VMissing | VNum rat | VOther

definition literal_value :: "json \<Rightarrow> operand_value" where
  "literal_value v = (case v of JNull \<Rightarrow> VMissing | JNum r \<Rightarrow> VNum r | JBool b \<Rightarrow> VNum (if b then 1 else 0) | _ \<Rightarrow> VOther)"

definition resolve_operand :: "operand \<Rightarrow> features \<Rightarrow> nat \<Rightarrow> rule_error + operand_value" where
  "resolve_operand x f i = (case x of
     Feature n \<Rightarrow> (case map_of f n of None \<Rightarrow> Inl UNKNOWN_FEATURE
       | Some col \<Rightarrow> Inr (if length col \<le> i then VMissing else (case col ! i of None \<Rightarrow> VMissing | Some r \<Rightarrow> VNum r)))
   | Literal v \<Rightarrow> Inr (literal_value v)
   | Range _ _ \<Rightarrow> Inr VOther)"

text \<open>A missing value makes a condition false; the continuation compares two numbers.\<close>

definition with_numbers :: "operand_value \<Rightarrow> operand_value \<Rightarrow> (rat \<Rightarrow> rat \<Rightarrow> bool) \<Rightarrow> rule_error + bool" where
  "with_numbers x y p = (if x = VMissing \<or> y = VMissing then Inr False
     else (case (x, y) of (VNum a, VNum b) \<Rightarrow> Inr (p a b) | _ \<Rightarrow> Inl NOT_NUMBERS))"

definition compare_values :: "rule_operator \<Rightarrow> rat \<Rightarrow> rat \<Rightarrow> bool" where
  "compare_values op l r = (case op of OP_GT \<Rightarrow> r < l | OP_LT \<Rightarrow> l < r | OP_GE \<Rightarrow> r \<le> l | OP_LE \<Rightarrow> l \<le> r
     | OP_EQ \<Rightarrow> \<bar>frnd (l - r)\<bar> \<le> RULE_EPS | OP_NE \<Rightarrow> RULE_EPS < \<bar>frnd (l - r)\<bar> | _ \<Rightarrow> False)"

definition unary_at :: "rule_cond \<Rightarrow> features \<Rightarrow> nat \<Rightarrow> rule_error + bool" where
  "unary_at c f i = (case rc_left c of Feature n \<Rightarrow>
     rule_bind (resolve_operand (rc_left c) f i) (\<lambda>current.
       let lag = (if rc_op c \<in> {TURNS_UP, TURNS_DOWN} then 2 else nat (or_else (rc_bars c) 1)) in
       if current = VMissing \<or> i < lag then Inr False
       else rule_bind (resolve_operand (rc_left c) f (i - lag)) (\<lambda>earlier.
         if rc_op c \<in> {TURNS_UP, TURNS_DOWN} then
           (if earlier = VMissing then Inr False
            else rule_bind (resolve_operand (rc_left c) f (i - 1)) (\<lambda>middle.
              rule_bind (with_numbers middle current (\<lambda>m v. if rc_op c = TURNS_UP then m < v else v < m)) (\<lambda>now.
              rule_bind (with_numbers middle earlier (\<lambda>m e. if rc_op c = TURNS_UP then m < e else e < m)) (\<lambda>before.
                Inr (now \<and> before)))))
         else with_numbers current earlier (\<lambda>v e. if rc_op c = SLOPE_UP then e < v else v < e)))
   | _ \<Rightarrow> Inr False)"

definition range_at :: "rule_cond \<Rightarrow> operand_value \<Rightarrow> rule_error + bool" where
  "range_at c left = (case rc_right c of Some (Range a b) \<Rightarrow>
       with_numbers left left (\<lambda>v _. (min a b \<le> v \<and> v \<le> max a b) = (rc_op c = IN_RANGE))
     | _ \<Rightarrow> Inl NOT_NUMBERS)"

definition condition_at :: "rule_cond \<Rightarrow> features \<Rightarrow> nat \<Rightarrow> rule_error + bool" where
  "condition_at c f i = (if unary_op (rc_op c) then unary_at c f i else
     rule_bind (resolve_operand (rc_left c) f i) (\<lambda>left.
     rule_bind (resolve_operand (or_else (rc_right c) (Literal JNull)) f i) (\<lambda>right.
       if left = VMissing \<or> right = VMissing then Inr False
       else if range_op (rc_op c) then range_at c left
       else if rc_op c \<in> {CROSSES_ABOVE, CROSSES_BELOW} then
         (if i < 1 then Inr False
          else rule_bind (resolve_operand (rc_left c) f (i - 1)) (\<lambda>prev_left.
               rule_bind (resolve_operand (or_else (rc_right c) (Literal JNull)) f (i - 1)) (\<lambda>prev_right.
               rule_bind (with_numbers prev_left prev_right (\<lambda>l r. if rc_op c = CROSSES_ABOVE then l \<le> r else r \<le> l)) (\<lambda>before.
                 if \<not> before then Inr False
                 else with_numbers left right (\<lambda>l r. if rc_op c = CROSSES_ABOVE then r < l else l < r)))))
       else with_numbers left right (compare_values (rc_op c)))))"

fun node_enabled :: "rule_node \<Rightarrow> bool" where
  "node_enabled (Leaf c) \<longleftrightarrow> rc_enabled c"
| "node_enabled (Group _ _) \<longleftrightarrow> True"

fun node_at :: "rule_node \<Rightarrow> features \<Rightarrow> nat \<Rightarrow> rule_error + bool"
  and outcomes_at :: "rule_node list \<Rightarrow> features \<Rightarrow> nat \<Rightarrow> rule_error + bool list"
  and negated_at :: "rule_node list \<Rightarrow> features \<Rightarrow> nat \<Rightarrow> rule_error + bool" where
  "node_at (Leaf c) f i = condition_at c f i"
| "node_at (Group lg cs) f i = (if lg = L_NOT then negated_at cs f i
     else rule_bind (outcomes_at cs f i) (\<lambda>bs. Inr (bs \<noteq> [] \<and> (if lg = L_AND then list_all id bs else list_ex id bs))))"
| "outcomes_at [] f i = Inr []"
| "outcomes_at (c # cs) f i = (if \<not> node_enabled c then outcomes_at cs f i
     else rule_bind (node_at c f i) (\<lambda>b. rule_bind (outcomes_at cs f i) (\<lambda>bs. Inr (b # bs))))"
| "negated_at [] f i = Inr False"
| "negated_at (c # cs) f i = map_sum id Not (node_at c f i)"

definition evaluate_at :: "rule_node option \<Rightarrow> features \<Rightarrow> nat \<Rightarrow> rule_error + bool" where
  "evaluate_at r f i = (case r of None \<Rightarrow> Inr False | Some g \<Rightarrow> node_at g f i)"

fun evaluate_bars :: "rule_node \<Rightarrow> features \<Rightarrow> nat list \<Rightarrow> rule_error + bool list" where
  "evaluate_bars g f [] = Inr []"
| "evaluate_bars g f (i # is) = rule_bind (node_at g f i) (\<lambda>b. rule_bind (evaluate_bars g f is) (\<lambda>bs. Inr (b # bs)))"

definition evaluate_series :: "rule_node option \<Rightarrow> features \<Rightarrow> nat \<Rightarrow> rule_error + bool list" where
  "evaluate_series r f n = (case r of None \<Rightarrow> Inr (replicate n False) | Some g \<Rightarrow> evaluate_bars g f [0..<n])"

subsection \<open>The canonical form as a document\<close>

definition operator_name :: "rule_operator \<Rightarrow> string" where
  "operator_name op = fst (hd (filter (\<lambda>p. snd p = op) OPERATOR_NAMES))"

definition logic_name :: "rule_logic \<Rightarrow> string" where
  "logic_name lg = fst (hd (filter (\<lambda>p. snd p = lg) LOGIC_NAMES))"

definition operand_kind :: "operand \<Rightarrow> json" where
  "operand_kind x = JStr (case x of Feature _ \<Rightarrow> ''feature'' | Literal _ \<Rightarrow> ''literal'' | Range _ _ \<Rightarrow> ''range'')"

definition operand_json :: "operand \<Rightarrow> json" where
  "operand_json x = (case x of Feature s \<Rightarrow> JStr s | Literal v \<Rightarrow> v | Range a b \<Rightarrow> JArr [JNum a, JNum b])"

definition json_option :: "('a \<Rightarrow> json) \<Rightarrow> 'a option \<Rightarrow> json" where
  "json_option f x = (case x of None \<Rightarrow> JNull | Some v \<Rightarrow> f v)"

definition cond_fields :: "rule_cond \<Rightarrow> (string \<times> json) list" where
  "cond_fields c = [(''left_kind'', operand_kind (rc_left c)), (''left'', operand_json (rc_left c)),
     (''operator'', JStr (operator_name (rc_op c))), (''right_kind'', json_option operand_kind (rc_right c)),
     (''right'', json_option operand_json (rc_right c)), (''bars'', json_option (\<lambda>b. JNum (of_int b)) (rc_bars c)),
     (''enabled'', JBool (rc_enabled c)), (''label'', json_option JStr (rc_label c))]"

fun node_json :: "rule_node \<Rightarrow> json" where
  "node_json (Leaf c) = JObj (cond_fields c)"
| "node_json (Group lg cs) = JObj [(''operator'', JStr (logic_name lg)), (''conditions'', JArr (map node_json cs))]"

subsection \<open>Checks before a run\<close>

fun iter_conditions :: "rule_node \<Rightarrow> rule_cond list" where
  "iter_conditions (Leaf c) = [c]"
| "iter_conditions (Group lg cs) = concat (map iter_conditions cs)"

definition operand_names :: "operand \<Rightarrow> string list" where
  "operand_names x = (case x of Feature s \<Rightarrow> [s] | _ \<Rightarrow> [])"

definition cond_names :: "rule_cond \<Rightarrow> string list" where
  "cond_names c = operand_names (rc_left c) @ (case rc_right c of None \<Rightarrow> [] | Some x \<Rightarrow> operand_names x)"

definition unknown_features :: "json option \<Rightarrow> string list \<Rightarrow> string list" where
  "unknown_features r known = (case normalize_rule r of
     Inr (Some g) \<Rightarrow> sort (remdups (filter (\<lambda>n. n \<notin> set known) (concat (map cond_names (iter_conditions g)))))
   | _ \<Rightarrow> [])"

datatype rule_problem = INVALID_RULE rule_error | NO_RULE | UNKNOWN_NAME string | NEVER_FIRES

definition validate_rule :: "json option \<Rightarrow> string list \<Rightarrow> rule_problem list" where
  "validate_rule r known = (case normalize_rule r of
     Inl e \<Rightarrow> [INVALID_RULE e]
   | Inr None \<Rightarrow> [NO_RULE]
   | Inr (Some g) \<Rightarrow> map UNKNOWN_NAME (unknown_features (Some (node_json g)) known)
       @ (if list_ex rc_enabled (iter_conditions g) then [] else [NEVER_FIRES]))"

subsection \<open>No condition sees a later bar\<close>

definition cut :: "nat \<Rightarrow> features \<Rightarrow> features" where
  "cut p f = map (\<lambda>(n, col). (n, take p col)) f"

lemma map_of_cut: "map_of (cut p f) n = map_option (take p) (map_of f n)"
  by (simp add: cut_def map_of_map)

lemma resolve_cut: "i < p \<Longrightarrow> resolve_operand x (cut p f) i = resolve_operand x f i"
  by (auto simp: resolve_operand_def map_of_cut split: operand.splits option.splits)

lemma resolve_cut_back: "i < p \<Longrightarrow> resolve_operand x (cut p f) (i - k) = resolve_operand x f (i - k)"
  by (rule resolve_cut) simp

lemma unary_cut: "i < p \<Longrightarrow> unary_at c (cut p f) i = unary_at c f i"
  by (simp only: unary_at_def resolve_cut resolve_cut_back)

lemma condition_cut: "i < p \<Longrightarrow> condition_at c (cut p f) i = condition_at c f i"
  by (simp only: condition_at_def unary_cut resolve_cut resolve_cut_back)

lemma node_cut: "i < p \<Longrightarrow> node_at g (cut p f) i = node_at g f i"
  and outcomes_cut: "i < p \<Longrightarrow> outcomes_at gs (cut p f) i = outcomes_at gs f i"
  and negated_cut: "i < p \<Longrightarrow> negated_at gs (cut p f) i = negated_at gs f i"
  by (induction g f i and gs f i and gs f i rule: node_at_outcomes_at_negated_at.induct) (simp_all add: condition_cut)

text \<open>
  The decision of a rule at a bar is the decision it makes when every later bar is removed: no rule, valid or not, can see
  the future. Cutting the columns anywhere after the bar leaves the whole earlier series of decisions as it was.
\<close>

theorem rule_is_causal: "evaluate_at r (cut (Suc i) f) i = evaluate_at r f i"
  by (simp add: evaluate_at_def node_cut split: option.split)

subsection \<open>What normalisation guarantees\<close>

definition name_ok :: "operand \<Rightarrow> bool" where
  "name_ok x \<longleftrightarrow> (case x of Feature s \<Rightarrow> s \<noteq> [] | Literal _ \<Rightarrow> True | Range a b \<Rightarrow> frnd a = a \<and> frnd b = b)"

definition leaf_ok :: "rule_cond \<Rightarrow> bool" where
  "leaf_ok c \<longleftrightarrow> name_ok (rc_left c) \<and> (case rc_right c of None \<Rightarrow> unary_op (rc_op c)
       | Some x \<Rightarrow> \<not> unary_op (rc_op c) \<and> name_ok x \<and> (range_op (rc_op c) = is_range x))
     \<and> (case rc_bars c of None \<Rightarrow> rc_op c \<notin> {SLOPE_UP, SLOPE_DOWN} | Some b \<Rightarrow> 1 \<le> b)"

fun node_ok :: "nat \<Rightarrow> rule_node \<Rightarrow> bool" where
  "node_ok d (Leaf c) \<longleftrightarrow> leaf_ok c"
| "node_ok d (Group lg cs) \<longleftrightarrow> d \<le> RULE_MAX_DEPTH \<and> (if lg = L_NOT then length cs = 1 else True) \<and> list_all (node_ok (Suc d)) cs"

lemma rule_bind_Inr: "rule_bind m f = Inr y \<longleftrightarrow> (\<exists>x. m = Inr x \<and> f x = Inr y)"
  by (cases m) (auto simp: rule_bind_def)

lemma rule_bind_simps [simp]: "rule_bind (Inr x) f = f x" "rule_bind (Inl e) f = Inl e"
  by (simp_all add: rule_bind_def)

lemma map_sum_Inr: "map_sum id h m = Inr y \<longleftrightarrow> (\<exists>x. m = Inr x \<and> y = h x)"
  by (cases m) auto

lemma read_operand_ok: "read_operand v = Inr x \<Longrightarrow> name_ok x"
  by (auto simp: read_operand_def name_ok_def flt.rnd_idem split: json.splits option.splits if_splits list.splits)

lemma read_right_ok:
  "read_right op raw = Inr r \<Longrightarrow> (case r of None \<Rightarrow> unary_op op
     | Some x \<Rightarrow> \<not> unary_op op \<and> name_ok x \<and> (range_op op = is_range x))"
  by (auto simp: read_right_def rule_bind_Inr dest: read_operand_ok split: if_splits option.splits)

lemma read_bars_ok:
  "read_bars op v = Inr b \<Longrightarrow> (case b of None \<Rightarrow> op \<notin> {SLOPE_UP, SLOPE_DOWN} | Some n \<Rightarrow> 1 \<le> n)"
  by (auto simp: read_bars_def split: json.splits if_splits)

lemma normalize_condition_ok:
  assumes "normalize_condition raw = Inr c"
  shows "leaf_ok c"
proof -
  obtain l left op right bars en lab where n: "read_operand l = Inr left" "read_right op raw = Inr right"
      "read_bars op (map_of raw ''bars'') = Inr bars"
    and c: "c = \<lparr>rc_left = left, rc_op = op, rc_right = right, rc_bars = bars, rc_enabled = en, rc_label = lab\<rparr>"
    using assms by (auto simp: normalize_condition_def rule_bind_Inr split: option.splits)
  show ?thesis using read_operand_ok [OF n(1)] read_right_ok [OF n(2)] read_bars_ok [OF n(3)]
    by (cases right; cases bars) (simp_all add: leaf_ok_def c)
qed

declare normalize_group.simps [simp del]

lemma normalize_group_ok: "normalize_group d raw = Inr g \<Longrightarrow> node_ok d g"
  and normalize_items_ok: "normalize_items d items = Inr cs \<Longrightarrow> list_all (node_ok (Suc d)) cs"
proof (induction d raw and d items arbitrary: g and cs rule: normalize_group_normalize_items.induct)
  case (1 d raw)
  then show ?case by (auto simp: normalize_group.simps [of d raw] split: if_splits option.splits json.splits sum.splits)
next
  case (3 d raw items)
  then show ?case by (auto simp: map_sum_Inr dest: normalize_condition_ok split: if_splits sum.splits)
qed simp_all

subsection \<open>Reading a canonical rule again\<close>

definition plain_operand :: "operand \<Rightarrow> bool" where
  "plain_operand x \<longleftrightarrow> (case x of Literal v \<Rightarrow> (case v of JNum _ \<Rightarrow> True | JBool _ \<Rightarrow> True | _ \<Rightarrow> False) | _ \<Rightarrow> True)"

definition plain_leaf :: "rule_cond \<Rightarrow> bool" where
  "plain_leaf c \<longleftrightarrow> \<not> is_range (rc_left c) \<and> plain_operand (rc_left c) \<and> (case rc_right c of None \<Rightarrow> True | Some x \<Rightarrow> plain_operand x)"

definition plain_rule :: "rule_node \<Rightarrow> bool" where
  "plain_rule g \<longleftrightarrow> list_all plain_leaf (iter_conditions g)"

lemma read_operand_json: "name_ok x \<Longrightarrow> plain_operand x \<Longrightarrow> read_operand (operand_json x) = Inr x"
  by (auto simp: name_ok_def plain_operand_def read_operand_def operand_json_def split: operand.splits json.splits)

lemma operator_name_read: "map_of OPERATOR_NAMES (operator_name op) = Some op"
  by (cases op) (simp_all add: operator_name_def OPERATOR_NAMES_def)

lemma logic_name_read: "map_of LOGIC_NAMES (map to_upper (logic_name lg)) = Some lg"
proof -
  have "map_of LOGIC_NAMES (map to_upper (logic_name L_AND)) = Some L_AND" "map_of LOGIC_NAMES (map to_upper (logic_name L_OR)) = Some L_OR"
    "map_of LOGIC_NAMES (map to_upper (logic_name L_NOT)) = Some L_NOT" by code_simp+
  then show ?thesis by (cases lg) simp_all
qed

lemma normalize_cond_fields:
  assumes "leaf_ok c" "plain_leaf c"
  shows "normalize_condition (cond_fields c) = Inr c"
proof -
  have l: "read_operand (operand_json (rc_left c)) = Inr (rc_left c)"
    using assms by (intro read_operand_json) (simp_all add: leaf_ok_def plain_leaf_def)
  have r: "read_right (rc_op c) (cond_fields c) = Inr (rc_right c)"
    using assms by (cases "rc_right c") (auto simp: leaf_ok_def plain_leaf_def read_right_def cond_fields_def json_option_def read_operand_json)
  have b: "read_bars (rc_op c) (Some (json_option (\<lambda>b. JNum (of_int b)) (rc_bars c))) = Inr (rc_bars c)"
    using assms(1) by (cases "rc_bars c") (auto simp: leaf_ok_def read_bars_def json_option_def rat_trunc_def)
  have "map_of (cond_fields c) ''left'' = Some (operand_json (rc_left c))"
    "map_of (cond_fields c) ''operator'' = Some (JStr (operator_name (rc_op c)))"
    "map_of (cond_fields c) ''bars'' = Some (json_option (\<lambda>b. JNum (of_int b)) (rc_bars c))"
    "map_of (cond_fields c) ''enabled'' = Some (JBool (rc_enabled c))"
    "map_of (cond_fields c) ''label'' = Some (json_option JStr (rc_label c))"
    by (simp_all add: cond_fields_def)
  moreover have "json_option JStr (rc_label c) = JNull \<and> rc_label c = None \<or> (\<exists>s. json_option JStr (rc_label c) = JStr s \<and> rc_label c = Some s)"
    by (cases "rc_label c") (simp_all add: json_option_def)
  ultimately show ?thesis by (auto simp: normalize_condition_def operator_name_read l r b)
qed

lemma cond_fields_leaf: "is_group (cond_fields c) = False"
  by (simp add: is_group_def cond_fields_def)

lemma plain_group: "plain_rule (Group lg cs) \<longleftrightarrow> list_all plain_rule cs"
  by (induction cs) (auto simp: plain_rule_def list_all_iff)

definition group_fields :: "rule_logic \<Rightarrow> rule_node list \<Rightarrow> (string \<times> json) list" where
  "group_fields lg cs = [(''operator'', JStr (logic_name lg)), (''conditions'', JArr (map node_json cs))]"

lemma group_fields_read:
  "is_group (group_fields lg cs)" "read_logic (group_fields lg cs) = Some lg" "map_of (group_fields lg cs) ''conditions'' = Some (JArr (map node_json cs))"
  by (simp_all add: is_group_def read_logic_def group_fields_def logic_name_read)

lemma node_json_group: "node_json (Group lg cs) = JObj (group_fields lg cs)"
  by (simp add: group_fields_def)

lemma normalize_node_json:
  "\<lbrakk>node_ok d (Group lg cs); plain_rule (Group lg cs)\<rbrakk> \<Longrightarrow> normalize_group d (group_fields lg cs) = Inr (Group lg cs)"
proof (induction "Group lg cs" arbitrary: d lg cs)
  case (Group lg cs)
  have items: "normalize_items d (map node_json xs) = Inr xs" if "set xs \<subseteq> set cs" for xs
    using that
  proof (induction xs)
    case (Cons x xs)
    have x: "node_ok (Suc d) x" "plain_rule x" using Group.prems Cons.prems by (auto simp: list_all_iff plain_group)
    have "normalize_items d (node_json x # map node_json xs) = Inr (x # xs)"
    proof (cases x)
      case (Leaf c)
      then show ?thesis using x Cons by (simp add: cond_fields_leaf normalize_cond_fields plain_rule_def)
    next
      case node: (Group lg' cs')
      have "normalize_group (Suc d) (group_fields lg' cs') = Inr x"
        using Group.hyps [of lg' cs' "Suc d"] x Cons.prems node by simp
      then show ?thesis using Cons by (simp add: node node_json_group group_fields_read del: node_json.simps)
    qed
    then show ?case by simp
  qed simp
  then show ?case using Group.prems items [of cs] by (simp add: normalize_group.simps group_fields_read)
qed

text \<open>
  C20. Normalising is stable: a rule that was accepted, written as the document of its canonical form and read again, is the
  same rule, as long as its literals are numbers or booleans and no left operand is a range.
\<close>

theorem normalised_rule_reads_back:
  assumes "normalize_rule r = Inr (Some g)" "plain_rule g"
  shows "normalize_rule (Some (node_json g)) = Inr (Some g)"
proof -
  obtain raw where "r = Some (JObj raw)" "normalize_group 0 raw = Inr g"
    using assms(1) by (auto simp: normalize_rule_def map_sum_Inr split: option.splits json.splits)
  moreover from this obtain lg cs where "g = Group lg cs"
    by (auto simp: normalize_group.simps [of 0 raw] split: if_splits option.splits json.splits sum.splits)
  ultimately show ?thesis using normalize_node_json [of 0 lg cs] normalize_group_ok [of 0 raw g] assms(2)
    by (simp add: normalize_rule_def node_json_group del: node_json.simps)
qed

definition demo_rule :: json where
  "demo_rule = JObj [(''operator'', JStr ''or''), (''conditions'', JArr
     [JObj [(''left'', JStr ''close''), (''operator'', JStr ''crosses_above''), (''right'', JObj [(''feature'', JStr '' ema '')])],
      JObj [(''operator'', JStr ''NOT''), (''conditions'', JArr [JObj [(''left'', JStr ''rsi''), (''operator'', JStr ''in_range''), (''right'', JArr [JNum 30, JNum 70])]])],
      JObj [(''left'', JStr ''rsi''), (''operator'', JStr ''slope_up''), (''enabled'', JNum 0)]])]"

definition demo_cond :: "string \<Rightarrow> rule_operator \<Rightarrow> operand option \<Rightarrow> int option \<Rightarrow> bool \<Rightarrow> rule_cond" where
  "demo_cond l op r b e = \<lparr>rc_left = Feature l, rc_op = op, rc_right = r, rc_bars = b, rc_enabled = e, rc_label = None\<rparr>"

definition demo_node :: rule_node where
  "demo_node = Group L_OR [Leaf (demo_cond ''close'' CROSSES_ABOVE (Some (Feature ''ema'')) None True),
     Group L_NOT [Leaf (demo_cond ''rsi'' IN_RANGE (Some (Range 30 70)) None True)],
     Leaf (demo_cond ''rsi'' SLOPE_UP None (Some 1) False)]"

lemma demo_normalised: "normalize_rule (Some demo_rule) = Inr (Some demo_node)"
  by code_simp

lemma demo_plain: "plain_rule demo_node"
  by code_simp

lemma normalised_rule_reads_back_witness: "normalize_rule (Some (node_json demo_node)) = Inr (Some demo_node)"
  by (rule normalised_rule_reads_back [OF demo_normalised demo_plain])

subsection \<open>Evaluation never raises on a checked rule\<close>

definition names_known :: "string list \<Rightarrow> rule_node \<Rightarrow> bool" where
  "names_known known g \<longleftrightarrow> set (concat (map cond_names (iter_conditions g))) \<subseteq> set known"

lemma sort_empty: "sort xs = [] \<longleftrightarrow> xs = []"
  by (metis length_sort length_0_conv)

lemma unknown_none:
  "normalize_rule r = Inr (Some g) \<Longrightarrow> unknown_features r known = [] \<longleftrightarrow> names_known known g"
  by (auto simp: unknown_features_def names_known_def sort_empty filter_empty_conv)

definition is_value :: "rule_error + operand_value \<Rightarrow> bool" where
  "is_value m \<longleftrightarrow> (\<exists>x. m = Inr x \<and> x \<noteq> VOther)"

lemma resolve_value:
  assumes "set (operand_names x) \<subseteq> fst ` set f" "plain_operand x" "\<not> is_range x"
  shows "is_value (resolve_operand x f i)"
  using assms map_of_None_notin [of f]
  by (auto simp: is_value_def resolve_operand_def operand_names_def plain_operand_def is_range_def literal_value_def split: operand.splits option.splits json.splits)

definition returns :: "rule_error + 'a \<Rightarrow> bool" where
  "returns m \<longleftrightarrow> (\<exists>x. m = Inr x)"

lemma returns_Inr [simp]: "returns (Inr x)"
  by (simp add: returns_def)

lemma returns_numbers: "x \<noteq> VOther \<Longrightarrow> y \<noteq> VOther \<Longrightarrow> returns (with_numbers x y p)"
  by (cases x; cases y) (simp_all add: with_numbers_def)

lemma returns_value: "is_value m \<Longrightarrow> (\<And>x. x \<noteq> VOther \<Longrightarrow> returns (g x)) \<Longrightarrow> returns (rule_bind m g)"
  by (auto simp: is_value_def)

lemma returns_bind: "returns m \<Longrightarrow> (\<And>x. returns (g x)) \<Longrightarrow> returns (rule_bind m g)"
  by (auto simp: returns_def)

lemma returns_if: "(b \<Longrightarrow> returns x) \<Longrightarrow> (\<not> b \<Longrightarrow> returns y) \<Longrightarrow> returns (if b then x else y)"
  by simp

lemmas returns_intros = returns_Inr returns_numbers returns_if

definition known_leaf :: "features \<Rightarrow> rule_cond \<Rightarrow> bool" where
  "known_leaf f c \<longleftrightarrow> leaf_ok c \<and> plain_leaf c \<and> set (cond_names c) \<subseteq> fst ` set f"

lemma left_value: "known_leaf f c \<Longrightarrow> is_value (resolve_operand (rc_left c) f i)"
  by (intro resolve_value) (auto simp: known_leaf_def plain_leaf_def cond_names_def)

lemma right_value:
  assumes "known_leaf f c" "\<not> unary_op (rc_op c)" "\<not> range_op (rc_op c)"
  shows "is_value (resolve_operand (or_else (rc_right c) (Literal JNull)) f i)"
  using assms by (cases "rc_right c") (auto simp: known_leaf_def plain_leaf_def leaf_ok_def cond_names_def intro: resolve_value)

lemma unary_returns:
  assumes "known_leaf f c"
  shows "returns (unary_at c f i)"
proof (cases "rc_left c")
  case (Feature n)
  note v = left_value [OF assms, unfolded Feature]
  show ?thesis unfolding unary_at_def Feature operand.case Let_def
    by (intro returns_intros returns_value [OF v] returns_bind)
qed (simp_all add: unary_at_def)

lemma range_right:
  assumes "known_leaf f c" "range_op (rc_op c)"
  obtains a b where "rc_right c = Some (Range a b)"
  using assms by (auto simp: known_leaf_def leaf_ok_def is_range_def unary_op_def range_op_def split: option.splits operand.splits)

lemma condition_returns:
  assumes k: "known_leaf f c"
  shows "returns (condition_at c f i)"
proof (cases "unary_op (rc_op c)")
  case True
  then show ?thesis using unary_returns [OF k] by (simp add: condition_at_def)
next
  case False
  note l = left_value [OF k]
  show ?thesis
  proof (cases "range_op (rc_op c)")
    case True
    then obtain a b where r: "rc_right c = Some (Range a b)" using range_right [OF k] by blast
    have right: "resolve_operand (or_else (rc_right c) (Literal JNull)) f i = Inr VOther" by (simp add: r resolve_operand_def)
    have at: "returns (range_at c x)" if "x \<noteq> VOther" for x
      unfolding range_at_def r option.case operand.case using that by (intro returns_intros)
    show ?thesis unfolding condition_at_def right rule_bind_simps using False True
      by (simp only: if_False if_True) (intro returns_value [OF l] returns_intros at)
  next
    case nr: False
    note v = right_value [OF k False nr]
    have "returns (condition_at c f i)" unfolding condition_at_def using False nr
      by (simp only: if_False) (intro returns_value [OF l] returns_value [OF v] returns_bind returns_intros)
    then show ?thesis .
  qed
qed

lemma node_returns: "list_all (known_leaf f) (iter_conditions g) \<Longrightarrow> returns (node_at g f i)"
  and outcomes_return: "list_all (known_leaf f) (concat (map iter_conditions gs)) \<Longrightarrow> returns (outcomes_at gs f i)"
  and negated_return: "list_all (known_leaf f) (concat (map iter_conditions gs)) \<Longrightarrow> returns (negated_at gs f i)"
proof (induction g f i and gs f i and gs f i rule: node_at_outcomes_at_negated_at.induct)
  case (2 lg cs f i)
  then show ?case by (auto simp: returns_def)
next
  case (4 c cs f i)
  then show ?case by (auto simp: returns_def)
next
  case (6 c cs f i)
  then obtain b where "node_at c f i = Inr b" by (auto simp: returns_def)
  then show ?case by (simp add: returns_def)
qed (simp_all add: condition_returns)

lemma leaves_ok: "node_ok d g \<Longrightarrow> list_all leaf_ok (iter_conditions g)"
  by (induction g arbitrary: d) (auto simp: list_all_iff)

lemma known_leaves:
  assumes "normalize_rule r = Inr (Some g)" "plain_rule g" "names_known (map fst f) g"
  shows "list_all (known_leaf f) (iter_conditions g)"
proof -
  have "node_ok 0 g" using assms(1)
    by (auto simp: normalize_rule_def map_sum_Inr dest: normalize_group_ok split: option.splits json.splits)
  then show ?thesis using leaves_ok [of 0 g] assms(2,3)
    by (auto simp: known_leaf_def plain_rule_def names_known_def list_all_iff)
qed

lemma evaluate_bars_return:
  "list_all (known_leaf f) (iter_conditions g) \<Longrightarrow> \<exists>bs. evaluate_bars g f is = Inr bs \<and> length bs = length is"
proof (induction "is")
  case (Cons i "is")
  then show ?case using node_returns [of f g i] by (auto simp: returns_def)
qed simp

text \<open>
  C24. A rule that was accepted, names only features that were supplied and has plain literals never raises while it is
  evaluated: it gives one decision for every bar.
\<close>

theorem checked_rule_never_raises:
  assumes "normalize_rule r = Inr (Some g)" "plain_rule g" "unknown_features r (map fst f) = []"
  shows "\<exists>bs. evaluate_series (Some g) f n = Inr bs \<and> length bs = n"
  using evaluate_bars_return [OF known_leaves [OF assms(1,2)], of f "[0..<n]"] assms(3) unknown_none [OF assms(1)]
  by (simp add: evaluate_series_def)

definition demo_features :: features where
  "demo_features = [(''close'', [Some 1, Some 3]), (''ema'', [Some 2, Some 2]), (''rsi'', [None, Some 50])]"

lemma demo_unknown: "unknown_features (Some demo_rule) (map fst demo_features) = []"
  by code_simp

lemma checked_rule_never_raises_witness:
  "\<exists>bs. evaluate_series (Some demo_node) demo_features 2 = Inr bs \<and> length bs = 2"
  by (rule checked_rule_never_raises [OF demo_normalised demo_plain demo_unknown])

subsection \<open>Where a rule does not do what its document says\<close>

text \<open>A disabled group stays active: normalisation drops its flag, so the signal needs a condition that was switched off.\<close>

definition disabled_group_rule :: json where
  "disabled_group_rule = JObj [(''operator'', JStr ''AND''), (''conditions'', JArr
     [JObj [(''left'', JStr ''close''), (''operator'', JStr ''>''), (''right'', JNum 0)],
      JObj [(''operator'', JStr ''OR''), (''enabled'', JBool False), (''conditions'', JArr
        [JObj [(''left'', JStr ''rsi''), (''operator'', JStr ''>''), (''right'', JNum 90)]])]])]"

lemma disabled_group_stays_active:
  "(case normalize_rule (Some disabled_group_rule) of Inr r \<Rightarrow> evaluate_at r demo_features 1 | Inl e \<Rightarrow> Inl e) = Inr False"
  by code_simp

text \<open>A range on the left passes normalisation and raises a \<open>TypeError\<close> when it is compared.\<close>

lemma range_on_left_raises:
  "(case normalize_rule (Some (JObj [(''conditions'', JArr [JObj [(''left'', JArr [JNum 1, JNum 2]), (''operator'', JStr ''>''), (''right'', JNum 0)]])])) of
      Inr r \<Rightarrow> evaluate_at r demo_features 1 | Inl e \<Rightarrow> Inl RULE_NOT_OBJECT) = Inl NOT_NUMBERS"
  by code_simp

text \<open>A null literal passes normalisation, but the canonical rule is refused when it is read again, as its description does.\<close>

lemma null_literal_not_stable:
  "(case normalize_rule (Some (JObj [(''conditions'', JArr [JObj [(''left'', JStr ''close''), (''operator'', JStr ''>''),
      (''right'', JObj [(''value'', JNull)])]])])) of
      Inr (Some g) \<Rightarrow> normalize_rule (Some (node_json g)) | _ \<Rightarrow> Inr None) = Inl BAD_OPERAND"
  by code_simp

end
