(* ===== verification/Droid_Backtest.thy ===== *)
theory Droid_Backtest
  imports Droid_Rules
begin

text \<open>
  \<open>backend/app/indicator_research/backtesting\<close>: \<open>costs.py\<close>, \<open>models.py\<close>, \<open>engine.py\<close> and the structural audit of
  \<open>validation.py\<close>. The engine walks over the bars once: a queued exit and a queued entry fill at the open, then stop and target
  are checked, then signals are read at the close, then the account is marked to the market. A bar has the label of its time
  stamp, the stamp itself in microseconds UTC when it can be parsed, and its prices when they are finite; a column of ATR
  values and the two series of signals are given index by index.
\<close>

subsection \<open>Costs\<close>

record cost_model =
  km_slippage :: rat
  km_brokerage :: rat
  km_exchange :: rat
  km_sebi :: rat
  km_gst :: rat
  km_stt_sell :: rat
  km_stamp_buy :: rat

datatype cost_side = BUYING | SELLING

definition REFERENCE_COSTS :: cost_model where
  "REFERENCE_COSTS = \<lparr>km_slippage = 2, km_brokerage = 3, km_exchange = frnd (19 / 100), km_sebi = frnd (1 / 100), km_gst = 18,
     km_stt_sell = 5 / 4, km_stamp_buy = frnd (1 / 5)\<rparr>"

definition ZERO_COSTS :: cost_model where
  "ZERO_COSTS = \<lparr>km_slippage = 0, km_brokerage = 0, km_exchange = 0, km_sebi = 0, km_gst = 0, km_stt_sell = 0, km_stamp_buy = 0\<rparr>"

definition fee_bps :: "cost_model \<Rightarrow> cost_side \<Rightarrow> rat" where
  "fee_bps k s = (let taxable = frnd (frnd (km_brokerage k + km_exchange k) + km_sebi k) in
     frnd (frnd (taxable + frnd (taxable * frnd (km_gst k / 100))) + (if s = SELLING then km_stt_sell k else km_stamp_buy k)))"

definition side_bps :: "cost_model \<Rightarrow> cost_side \<Rightarrow> rat" where
  "side_bps k s = frnd (km_slippage k + fee_bps k s)"

definition round_trip_bps :: "cost_model \<Rightarrow> rat" where
  "round_trip_bps k = frnd (side_bps k BUYING + side_bps k SELLING)"

definition slip_factor :: "cost_model \<Rightarrow> rat" where
  "slip_factor k = frnd (1 + frnd (km_slippage k / 10000))"

definition fill_price :: "cost_model \<Rightarrow> rat \<Rightarrow> cost_side \<Rightarrow> rat" where
  "fill_price k p s = (if p \<le> 0 then p else if s = BUYING then frnd (p * slip_factor k) else frnd (p / slip_factor k))"

definition fee_amount :: "cost_model \<Rightarrow> rat \<Rightarrow> cost_side \<Rightarrow> rat" where
  "fee_amount k notional s = frnd (frnd (\<bar>notional\<bar> * fee_bps k s) / 10000)"

definition transaction_cost :: "cost_model \<Rightarrow> rat \<Rightarrow> rat \<Rightarrow> rat" where
  "transaction_cost k entry exit = frnd (fee_amount k entry BUYING + fee_amount k exit SELLING)"

subsection \<open>Settings\<close>

datatype stop_mode = STOP_NONE | STOP_PERCENT | STOP_ATR | STOP_POINTS
datatype size_mode = FIXED_FRACTION | FIXED_UNITS
datatype entry_fill = NEXT_OPEN | SIGNAL_CLOSE
datatype exit_reason = STOP_LOSS | TAKE_PROFIT | MAX_BARS_HELD | OPPOSITE_SIGNAL | SESSION_CLOSE | END_OF_DATA
datatype trade_side = LONG_SIDE | SHORT_SIDE

record exit_settings =
  xs_stop_mode :: stop_mode
  xs_stop_value :: rat
  xs_target_mode :: stop_mode
  xs_target_value :: rat
  xs_max_bars :: "int option"
  xs_on_opposite :: bool
  xs_allow_long :: bool
  xs_allow_short :: bool
  xs_session_close :: bool

record execution_settings =
  es_fill :: entry_fill
  es_size :: size_mode
  es_capital :: rat
  es_allocation :: rat
  es_units :: rat
  es_leverage :: rat

record backtest_settings =
  bs_execution :: execution_settings
  bs_exits :: exit_settings
  bs_costs :: cost_model

subsection \<open>Bars and trades\<close>

record price_bar =
  pb_label :: "string option"
  pb_utc :: "int option"
  pb_open :: "rat option"
  pb_high :: "rat option"
  pb_low :: "rat option"
  pb_close :: "rat option"
  pb_volume :: "rat option"

datatype regime = REGIME_UNKNOWN | REGIME_RANGE | TREND_UP | TREND_DOWN
datatype day_part = PART_UNKNOWN | PRE_OPEN | PART_OPEN | MORNING | MIDDAY | AFTERNOON | PART_CLOSE | POST_CLOSE
datatype holding = HELD_3 | HELD_10 | HELD_30 | HELD_100 | HELD_MORE

record bt_trade =
  tr_id :: nat
  tr_side :: trade_side
  tr_signal_index :: nat
  tr_signal_time :: "string option"
  tr_entry_index :: nat
  tr_entry_time :: "string option"
  tr_entry_price :: rat
  tr_entry_ref :: rat
  tr_exit_index :: nat
  tr_exit_time :: "string option"
  tr_exit_price :: rat
  tr_exit_ref :: rat
  tr_reason :: exit_reason
  tr_quantity :: rat
  tr_entry_notional :: rat
  tr_exit_notional :: rat
  tr_bars :: nat
  tr_gross :: rat
  tr_costs :: rat
  tr_net :: rat
  tr_return :: rat
  tr_mae :: rat
  tr_mfe :: rat
  tr_mae_pct :: rat
  tr_mfe_pct :: rat
  tr_stop :: "rat option"
  tr_target :: "rat option"
  tr_before :: rat
  tr_after :: rat
  tr_regime :: regime
  tr_part :: day_part
  tr_holding :: holding

record equity_point =
  ep_index :: nat
  ep_time :: "string option"
  ep_equity :: rat
  ep_drawdown :: rat
  ep_in_position :: bool

record bt_position =
  bp_side :: trade_side
  bp_signal_index :: nat
  bp_signal_time :: "string option"
  bp_entry_index :: nat
  bp_entry_time :: "string option"
  bp_entry_utc :: "int option"
  bp_reference :: rat
  bp_price :: rat
  bp_at_close :: bool
  bp_quantity :: rat
  bp_stop :: "rat option"
  bp_target :: "rat option"
  bp_mfe :: rat
  bp_mae :: rat
  bp_equity :: rat
  bp_regime :: regime

text \<open>Minutes of the day in India, half past five ahead.\<close>

definition ist_minute :: "int option \<Rightarrow> int option" where
  "ist_minute t = map_option (\<lambda>u. (u + 19800000000) div 60000000 mod 1440) t"

definition time_bucket :: "int option \<Rightarrow> day_part" where
  "time_bucket t = (case ist_minute t of None \<Rightarrow> PART_UNKNOWN | Some m \<Rightarrow>
     if m < 9 * 60 + 15 then PRE_OPEN else if m < 10 * 60 + 15 then PART_OPEN else if m < 12 * 60 then MORNING
     else if m < 13 * 60 + 30 then MIDDAY else if m < 14 * 60 + 45 then AFTERNOON
     else if m \<le> 15 * 60 + 30 then PART_CLOSE else POST_CLOSE)"

definition holding_bucket :: "nat \<Rightarrow> holding" where
  "holding_bucket n = (if n \<le> 3 then HELD_3 else if n \<le> 10 then HELD_10 else if n \<le> 30 then HELD_30 else if n \<le> 100 then HELD_100 else HELD_MORE)"

definition REGIME_LOOKBACK :: nat where "REGIME_LOOKBACK = 50"

definition classify_regime :: "price_bar list \<Rightarrow> nat \<Rightarrow> regime" where
  "classify_regime bars i = (let start = i + 1 - REGIME_LOOKBACK; closes = map (\<lambda>j. pb_close (bars ! j)) [start..<Suc i] in
     if i + 1 - start < 10 \<or> None \<in> set closes then REGIME_UNKNOWN
     else let v = map the closes; net = \<bar>frnd (List.last v - hd v)\<bar>; path = py_sum (map2 (\<lambda>a b. \<bar>frnd (b - a)\<bar>) v (tl v)) in
       if path \<le> 0 then REGIME_UNKNOWN
       else if frnd (net / path) < frnd (3 / 10) then REGIME_RANGE
       else if hd v < List.last v then TREND_UP else TREND_DOWN)"

subsection \<open>Opening and closing\<close>

definition direction :: "trade_side \<Rightarrow> rat" where
  "direction s = (case s of LONG_SIDE \<Rightarrow> 1 | SHORT_SIDE \<Rightarrow> - 1)"

definition entry_allowed :: "trade_side \<Rightarrow> exit_settings \<Rightarrow> bool" where
  "entry_allowed s x = (case s of LONG_SIDE \<Rightarrow> xs_allow_long x | SHORT_SIDE \<Rightarrow> xs_allow_short x)"

definition price_level :: "stop_mode \<Rightarrow> rat \<Rightarrow> rat \<Rightarrow> rat option \<Rightarrow> trade_side \<Rightarrow> bool \<Rightarrow> rat option" where
  "price_level mode val fill atr s stop = (if mode = STOP_NONE \<or> val \<le> 0 then None else
     map_option (\<lambda>d. if stop = (s = LONG_SIDE) then frnd (fill - d) else frnd (fill + d))
       (case mode of STOP_PERCENT \<Rightarrow> Some (frnd (frnd (fill * val) / 100)) | STOP_POINTS \<Rightarrow> Some val
        | STOP_ATR \<Rightarrow> map_option (\<lambda>a. frnd (a * val)) atr | STOP_NONE \<Rightarrow> None))"

definition enter_position :: "backtest_settings \<Rightarrow> trade_side \<Rightarrow> nat \<Rightarrow> string option \<Rightarrow> nat \<Rightarrow> price_bar \<Rightarrow> rat \<Rightarrow> rat \<Rightarrow> rat option \<Rightarrow> bool \<Rightarrow> regime \<Rightarrow> bt_position" where
  "enter_position b s sig sig_time i bar ref equity atr at_close reg = (let e = bs_execution b; x = bs_exits b;
       fill = fill_price (bs_costs b) ref (if s = LONG_SIDE then BUYING else SELLING) in
     \<lparr>bp_side = s, bp_signal_index = sig, bp_signal_time = sig_time, bp_entry_index = i, bp_entry_time = pb_label bar, bp_entry_utc = pb_utc bar,
      bp_reference = ref, bp_price = fill, bp_at_close = at_close,
      bp_quantity = (if es_size e = FIXED_UNITS then es_units e
        else if 0 < fill then frnd (frnd (frnd (equity * es_allocation e) * es_leverage e) / fill) else 0),
      bp_stop = price_level (xs_stop_mode x) (xs_stop_value x) fill atr s True,
      bp_target = price_level (xs_target_mode x) (xs_target_value x) fill atr s False,
      bp_mfe = 0, bp_mae = 0, bp_equity = equity, bp_regime = reg\<rparr>)"

definition opt_sat :: "('a \<Rightarrow> bool) \<Rightarrow> 'a option \<Rightarrow> bool" where
  "opt_sat P x = (case x of None \<Rightarrow> False | Some v \<Rightarrow> P v)"

definition stop_hit :: "bt_position \<Rightarrow> rat \<Rightarrow> bool" where
  "stop_hit p price = opt_sat (\<lambda>l. case bp_side p of LONG_SIDE \<Rightarrow> price \<le> l | SHORT_SIDE \<Rightarrow> l \<le> price) (bp_stop p)"

definition target_hit :: "bt_position \<Rightarrow> rat \<Rightarrow> bool" where
  "target_hit p price = opt_sat (\<lambda>l. case bp_side p of LONG_SIDE \<Rightarrow> l \<le> price | SHORT_SIDE \<Rightarrow> price \<le> l) (bp_target p)"

definition SESSION_CUTOFF :: int where "SESSION_CUTOFF = 15 * 60 + 20"

definition bar_exit :: "exit_settings \<Rightarrow> bt_position \<Rightarrow> nat \<Rightarrow> rat \<Rightarrow> rat \<Rightarrow> rat \<Rightarrow> rat \<Rightarrow> int option \<Rightarrow> (rat \<times> exit_reason) option" where
  "bar_exit x p i op hi lo cl minute = (let long = (bp_side p = LONG_SIDE) in
     if stop_hit p op then Some (op, STOP_LOSS)
     else if target_hit p op then Some (op, TAKE_PROFIT)
     else if stop_hit p (if long then lo else hi) then Some (the (bp_stop p), STOP_LOSS)
     else if target_hit p (if long then hi else lo) then Some (the (bp_target p), TAKE_PROFIT)
     else if opt_sat (\<lambda>m. m \<le> int i - int (bp_entry_index p)) (xs_max_bars x) then Some (cl, MAX_BARS_HELD)
     else if xs_session_close x \<and> opt_sat (\<lambda>m. SESSION_CUTOFF \<le> m) minute then Some (cl, SESSION_CLOSE)
     else None)"

definition close_position :: "cost_model \<Rightarrow> bt_position \<Rightarrow> nat \<Rightarrow> string option \<Rightarrow> rat \<Rightarrow> exit_reason \<Rightarrow> bt_trade" where
  "close_position k p i label ref reason = (let
       fill = fill_price k ref (if bp_side p = LONG_SIDE then SELLING else BUYING); q = bp_quantity p;
       entry_notional = frnd (bp_price p * q); exit_notional = frnd (fill * q);
       gross = frnd (frnd (frnd (ref - bp_reference p) * q) * direction (bp_side p));
       slippage = frnd (frnd (\<bar>frnd (bp_price p - bp_reference p)\<bar> + \<bar>frnd (fill - ref)\<bar>) * q);
       fees = frnd (fee_amount k entry_notional BUYING + fee_amount k exit_notional SELLING);
       total = frnd (slippage + fees); net = frnd (gross - total); held = i - bp_entry_index p;
       mae = max 0 (bp_mae p); mfe = max 0 (bp_mfe p) in
     \<lparr>tr_id = 0, tr_side = bp_side p, tr_signal_index = bp_signal_index p, tr_signal_time = bp_signal_time p,
      tr_entry_index = bp_entry_index p, tr_entry_time = bp_entry_time p, tr_entry_price = round_places 6 (bp_price p),
      tr_entry_ref = round_places 6 (bp_reference p), tr_exit_index = i, tr_exit_time = label, tr_exit_price = round_places 6 fill,
      tr_exit_ref = round_places 6 ref, tr_reason = reason, tr_quantity = round_places 8 q,
      tr_entry_notional = round_places 4 entry_notional, tr_exit_notional = round_places 4 exit_notional, tr_bars = held,
      tr_gross = round_places 4 gross, tr_costs = round_places 4 total, tr_net = round_places 4 net,
      tr_return = round_places 6 (if bp_equity p \<noteq> 0 then frnd (frnd (100 * net) / bp_equity p) else 0),
      tr_mae = round_places 6 mae, tr_mfe = round_places 6 mfe,
      tr_mae_pct = (if bp_reference p \<noteq> 0 then round_places 4 (frnd (frnd (100 * mae) / bp_reference p)) else 0),
      tr_mfe_pct = (if bp_reference p \<noteq> 0 then round_places 4 (frnd (frnd (100 * mfe) / bp_reference p)) else 0),
      tr_stop = bp_stop p, tr_target = bp_target p, tr_before = round_places 4 (bp_equity p),
      tr_after = round_places 4 (frnd (bp_equity p + net)), tr_regime = bp_regime p, tr_part = time_bucket (bp_entry_utc p),
      tr_holding = holding_bucket held\<rparr>)"

subsection \<open>The walk over the bars\<close>

record sim_input =
  si_bars :: "price_bar list"
  si_atr :: "rat option list option"
  si_long :: "bool list"
  si_short :: "bool list"

text \<open>What the loop reads at a bar.\<close>

record bar_view =
  bv_bar :: price_bar
  bv_previous :: "string option"
  bv_regime :: regime
  bv_atr :: "rat option"
  bv_long :: bool
  bv_short :: bool

definition view_at :: "sim_input \<Rightarrow> nat \<Rightarrow> bar_view" where
  "view_at d i = \<lparr>bv_bar = si_bars d ! i, bv_previous = pb_label (si_bars d ! (i - 1)), bv_regime = classify_regime (si_bars d) i,
     bv_atr = (case si_atr d of None \<Rightarrow> None | Some col \<Rightarrow> col ! i), bv_long = si_long d ! i, bv_short = si_short d ! i\<rparr>"

record sim_state =
  sm_equity :: rat
  sm_peak :: rat
  sm_position :: "bt_position option"
  sm_pending_entry :: "(nat \<times> trade_side) option"
  sm_pending_exit :: "(nat \<times> exit_reason) option"
  sm_exited :: bool
  sm_trades :: "bt_trade list"
  sm_curve :: "equity_point list"

definition sim_init :: "backtest_settings \<Rightarrow> sim_state" where
  "sim_init b = \<lparr>sm_equity = es_capital (bs_execution b), sm_peak = es_capital (bs_execution b), sm_position = None, sm_pending_entry = None,
     sm_pending_exit = None, sm_exited = False, sm_trades = [], sm_curve = []\<rparr>"

definition ohlc :: "price_bar \<Rightarrow> (rat \<times> rat \<times> rat \<times> rat) option" where
  "ohlc b = (case (pb_open b, pb_high b, pb_low b, pb_close b) of (Some op, Some hi, Some lo, Some cl) \<Rightarrow> Some (op, hi, lo, cl) | _ \<Rightarrow> None)"

definition book_trade :: "bt_trade \<Rightarrow> sim_state \<Rightarrow> sim_state" where
  "book_trade t st = st\<lparr>sm_equity := tr_after t, sm_trades := sm_trades st @ [t], sm_position := None, sm_exited := True\<rparr>"

definition queued_exit :: "backtest_settings \<Rightarrow> bar_view \<Rightarrow> nat \<Rightarrow> sim_state \<Rightarrow> sim_state" where
  "queued_exit b v i st = (case (sm_position st, sm_pending_exit st) of
     (Some p, Some (j, reason)) \<Rightarrow> if j + 1 = i then
         (case ohlc (bv_bar v) of None \<Rightarrow> st
          | Some (op, _) \<Rightarrow> book_trade (close_position (bs_costs b) p i (pb_label (bv_bar v)) op reason) st)\<lparr>sm_pending_exit := None\<rparr>
       else st
   | _ \<Rightarrow> st)"

definition queued_entry :: "backtest_settings \<Rightarrow> bar_view \<Rightarrow> nat \<Rightarrow> sim_state \<Rightarrow> sim_state" where
  "queued_entry b v i st = (case (sm_position st, sm_pending_entry st) of
     (None, Some (j, s)) \<Rightarrow> if j + 1 = i then
         (case ohlc (bv_bar v) of None \<Rightarrow> st
          | Some (op, _) \<Rightarrow> if entry_allowed s (bs_exits b)
              then st\<lparr>sm_position := Some (enter_position b s j (bv_previous v) i (bv_bar v) op (sm_equity st) (bv_atr v) False (bv_regime v))\<rparr>
              else st)\<lparr>sm_pending_entry := None\<rparr>
       else st
   | _ \<Rightarrow> st)"

definition price_exit :: "backtest_settings \<Rightarrow> bar_view \<Rightarrow> nat \<Rightarrow> sim_state \<Rightarrow> sim_state" where
  "price_exit b v i st = (case (sm_position st, ohlc (bv_bar v)) of
     (Some p, Some (op, hi, lo, cl)) \<Rightarrow> (case bar_exit (bs_exits b) p i op hi lo cl (ist_minute (pb_utc (bv_bar v))) of
         None \<Rightarrow> st
       | Some (price, reason) \<Rightarrow> book_trade (close_position (bs_costs b) p i (pb_label (bv_bar v)) price reason) st)
   | _ \<Rightarrow> st)"

definition signal_side :: "exit_settings \<Rightarrow> bar_view \<Rightarrow> trade_side option" where
  "signal_side x v = (if bv_long v \<and> xs_allow_long x then Some LONG_SIDE else if bv_short v \<and> xs_allow_short x then Some SHORT_SIDE else None)"

definition new_signal :: "backtest_settings \<Rightarrow> bar_view \<Rightarrow> nat \<Rightarrow> bool \<Rightarrow> sim_state \<Rightarrow> sim_state" where
  "new_signal b v i has_next st = (case (sm_position st, ohlc (bv_bar v), signal_side (bs_exits b) v) of
     (None, Some (_, _, _, cl), Some s) \<Rightarrow>
       if sm_exited st then st
       else if es_fill (bs_execution b) = NEXT_OPEN then (if has_next then st\<lparr>sm_pending_entry := Some (i, s)\<rparr> else st)
       else st\<lparr>sm_pending_entry := None,
         sm_position := Some (enter_position b s i (pb_label (bv_bar v)) i (bv_bar v) cl (sm_equity st) (bv_atr v) True (bv_regime v))\<rparr>
   | _ \<Rightarrow> st)"

definition opposite_intent :: "backtest_settings \<Rightarrow> bar_view \<Rightarrow> nat \<Rightarrow> sim_state \<Rightarrow> sim_state" where
  "opposite_intent b v i st = (case (sm_position st, ohlc (bv_bar v)) of
     (Some p, Some _) \<Rightarrow>
       if \<not> sm_exited st \<and> xs_on_opposite (bs_exits b) \<and> bp_entry_index p < i \<and> (if bp_side p = LONG_SIDE then bv_short v else bv_long v)
         \<and> sm_pending_exit st = None
       then st\<lparr>sm_pending_exit := Some (i, OPPOSITE_SIGNAL)\<rparr> else st
   | _ \<Rightarrow> st)"

definition excursion :: "rat \<Rightarrow> rat \<Rightarrow> bt_position \<Rightarrow> bt_position" where
  "excursion hi lo p = (let up = frnd (hi - bp_reference p); down = frnd (bp_reference p - lo) in
     if bp_side p = LONG_SIDE then p\<lparr>bp_mfe := max (bp_mfe p) up, bp_mae := max (bp_mae p) down\<rparr>
     else p\<lparr>bp_mfe := max (bp_mfe p) down, bp_mae := max (bp_mae p) up\<rparr>)"

definition excursions :: "bar_view \<Rightarrow> nat \<Rightarrow> sim_state \<Rightarrow> sim_state" where
  "excursions v i st = (case (sm_position st, ohlc (bv_bar v)) of
     (Some p, Some (_, hi, lo, _)) \<Rightarrow> if sm_exited st \<or> (bp_at_close p \<and> i = bp_entry_index p) then st
       else st\<lparr>sm_position := Some (excursion hi lo p)\<rparr>
   | _ \<Rightarrow> st)"

definition drawdown_of :: "rat \<Rightarrow> rat \<Rightarrow> rat" where
  "drawdown_of peak now = (if peak \<le> 0 then 0 else frnd (frnd (100 * frnd (peak - now)) / peak))"

definition mark_to_market :: "bar_view \<Rightarrow> nat \<Rightarrow> sim_state \<Rightarrow> sim_state" where
  "mark_to_market v i st = (let now = (case (sm_position st, pb_close (bv_bar v)) of
         (Some p, Some cl) \<Rightarrow> frnd (sm_equity st + frnd (frnd (frnd (cl - bp_price p) * bp_quantity p) * direction (bp_side p)))
       | _ \<Rightarrow> sm_equity st);
       peak = max (sm_peak st) now in
     st\<lparr>sm_peak := peak, sm_curve := sm_curve st @ [\<lparr>ep_index = i, ep_time = pb_label (bv_bar v), ep_equity = round_places 4 now,
       ep_drawdown = round_places 6 (drawdown_of peak now), ep_in_position = (sm_position st \<noteq> None)\<rparr>]\<rparr>)"

definition bar_step :: "backtest_settings \<Rightarrow> bar_view \<Rightarrow> nat \<Rightarrow> bool \<Rightarrow> sim_state \<Rightarrow> sim_state" where
  "bar_step b v i has_next st = mark_to_market v i (excursions v i (opposite_intent b v i (new_signal b v i has_next
     (price_exit b v i (queued_entry b v i (queued_exit b v i (st\<lparr>sm_exited := False\<rparr>)))))))"

definition sim_step :: "backtest_settings \<Rightarrow> sim_input \<Rightarrow> nat \<Rightarrow> sim_state \<Rightarrow> sim_state" where
  "sim_step b d i st = bar_step b (view_at d i) i (i + 1 < length (si_bars d)) st"

definition sim_loop :: "backtest_settings \<Rightarrow> sim_input \<Rightarrow> nat \<Rightarrow> sim_state" where
  "sim_loop b d n = fold (sim_step b d) [0..<n] (sim_init b)"

definition number_trades :: "bt_trade list \<Rightarrow> bt_trade list" where
  "number_trades ts = map2 (\<lambda>k t. t\<lparr>tr_id := k\<rparr>) [1..<Suc (length ts)] ts"

definition force_close :: "backtest_settings \<Rightarrow> sim_input \<Rightarrow> sim_state \<Rightarrow> bt_trade list \<times> equity_point list" where
  "force_close b d st = (let final = si_bars d ! (length (si_bars d) - 1) in
     (case (sm_position st, pb_close final) of
       (Some p, Some cl) \<Rightarrow> (let t = close_position (bs_costs b) p (length (si_bars d) - 1) (pb_label final) cl END_OF_DATA;
           e = round_places 4 (tr_after t); point = List.last (sm_curve st) in
         (sm_trades st @ [t], if sm_curve st = [] then [] else butlast (sm_curve st)
            @ [point\<lparr>ep_equity := e, ep_drawdown := (if 0 < sm_peak st then round_places 6 (frnd (frnd (100 * frnd (sm_peak st - e)) / sm_peak st)) else ep_drawdown point),
                 ep_in_position := False\<rparr>]))
     | _ \<Rightarrow> (sm_trades st, sm_curve st)))"

definition simulate :: "backtest_settings \<Rightarrow> sim_input \<Rightarrow> bt_trade list \<times> equity_point list" where
  "simulate b d = (case force_close b d (sim_loop b d (length (si_bars d))) of (ts, curve) \<Rightarrow> (number_trades ts, curve))"

subsection \<open>The structural audit\<close>

datatype structural_issue = WRONG_ENTRY_BAR nat | EXITS_BEFORE_ENTRY nat | INSIDE_WARMUP nat | OVERLAPS nat

definition expected_gap :: "backtest_settings \<Rightarrow> nat" where
  "expected_gap b = (if es_fill (bs_execution b) = NEXT_OPEN then 1 else 0)"

fun structural_issues :: "nat \<Rightarrow> nat \<Rightarrow> nat option \<Rightarrow> bt_trade list \<Rightarrow> structural_issue list" where
  "structural_issues gap warmup prev [] = []"
| "structural_issues gap warmup prev (t # ts) =
     (if tr_entry_index t \<noteq> tr_signal_index t + gap then [WRONG_ENTRY_BAR (tr_id t)] else [])
     @ (if tr_exit_index t < tr_entry_index t then [EXITS_BEFORE_ENTRY (tr_id t)] else [])
     @ (if tr_entry_index t < warmup then [INSIDE_WARMUP (tr_id t)] else [])
     @ (if opt_sat (\<lambda>p. tr_entry_index t \<le> p) prev then [OVERLAPS (tr_id t)] else [])
     @ structural_issues gap warmup (Some (tr_exit_index t)) ts"

definition structural_checks :: "bt_trade list \<Rightarrow> backtest_settings \<Rightarrow> nat \<Rightarrow> bool \<times> structural_issue list" where
  "structural_checks ts b warmup = (let is = structural_issues (expected_gap b) warmup None ts in (is = [], is))"

text \<open>The shape of the trades of a walk so far, and of what is open or queued after \<open>k\<close> bars.\<close>

definition after_trades :: "bt_trade list \<Rightarrow> nat \<Rightarrow> bool" where
  "after_trades ts k \<longleftrightarrow> (if ts = [] then True else tr_exit_index (List.last ts) < k)"

definition position_ok :: "nat \<Rightarrow> nat \<Rightarrow> nat \<Rightarrow> sim_state \<Rightarrow> bool" where
  "position_ok gap w i st \<longleftrightarrow> (case sm_position st of None \<Rightarrow> True | Some p \<Rightarrow> bp_entry_index p = bp_signal_index p + gap
     \<and> w \<le> bp_signal_index p \<and> bp_entry_index p < i \<and> after_trades (sm_trades st) (bp_entry_index p))"

definition sim_ok :: "nat \<Rightarrow> nat \<Rightarrow> nat \<Rightarrow> sim_state \<Rightarrow> bool" where
  "sim_ok gap w k st \<longleftrightarrow> structural_issues gap w None (sm_trades st) = [] \<and> after_trades (sm_trades st) k \<and> position_ok gap w k st
     \<and> (case sm_pending_entry st of None \<Rightarrow> True | Some (j, _) \<Rightarrow> gap = 1 \<and> w \<le> j \<and> Suc j = k \<and> sm_position st = None)"

text \<open>Within a bar, once the queues are served.\<close>

definition sim_mid :: "nat \<Rightarrow> nat \<Rightarrow> nat \<Rightarrow> sim_state \<Rightarrow> bool" where
  "sim_mid gap w i st \<longleftrightarrow> structural_issues gap w None (sm_trades st) = [] \<and> after_trades (sm_trades st) (if sm_exited st then Suc i else i)
     \<and> position_ok gap w (Suc i) st \<and> (sm_position st \<noteq> None \<longrightarrow> \<not> sm_exited st)"

lemma issues_snoc:
  "structural_issues gap w prev (ts @ [t]) = [] \<longleftrightarrow> structural_issues gap w prev ts = []
     \<and> structural_issues gap w (if ts = [] then prev else Some (tr_exit_index (List.last ts))) [t] = []"
  by (induction ts arbitrary: prev) auto

lemma issues_number:
  "structural_issues gap w prev (map2 (\<lambda>k t. t\<lparr>tr_id := k\<rparr>) ks ts) = [] \<longleftrightarrow> structural_issues gap w prev (map snd (zip ks ts)) = []"
  by (induction ks ts arbitrary: prev rule: list_induct2') auto

lemma close_position_fields:
  "tr_entry_index (close_position k p i l r why) = bp_entry_index p" "tr_signal_index (close_position k p i l r why) = bp_signal_index p"
  "tr_exit_index (close_position k p i l r why) = i"
  by (simp_all add: close_position_def Let_def)

lemma enter_position_fields:
  "bp_entry_index (enter_position b s j l i bar r e a c g) = i" "bp_signal_index (enter_position b s j l i bar r e a c g) = j"
  by (simp_all add: enter_position_def Let_def)

lemma mid_book:
  assumes "sim_mid gap w i st" "sm_position st = Some p"
  shows "sim_mid gap w i (book_trade (close_position c p i l r why) st)"
  using assms
  by (auto simp: sim_mid_def position_ok_def book_trade_def issues_snoc close_position_fields after_trades_def opt_sat_def split: if_splits)

lemma queued_exit_mid:
  assumes "sim_ok gap w i st" "\<not> sm_exited st"
  shows "sim_mid gap w i (queued_exit b v i st) \<and> (case sm_pending_entry (queued_exit b v i st) of None \<Rightarrow> True
     | Some (j, _) \<Rightarrow> gap = 1 \<and> w \<le> j \<and> Suc j = i \<and> \<not> sm_exited (queued_exit b v i st) \<and> sm_position (queued_exit b v i st) = None)"
proof -
  have m: "sim_mid gap w i st" using assms by (auto simp: sim_ok_def sim_mid_def position_ok_def split: option.splits)
  have n: "sim_mid gap w i (s\<lparr>sm_pending_exit := x\<rparr>) = sim_mid gap w i s" for s x by (simp add: sim_mid_def position_ok_def split: option.split)
  have p: "sm_pending_entry st = None" if "sm_position st = Some p" for p
    using assms that by (auto simp: sim_ok_def split: option.splits)
  show ?thesis
    using m mid_book [OF m] assms p unfolding queued_exit_def
    by (auto simp: n sim_ok_def book_trade_def split: option.splits)
qed

lemma queued_entry_mid:
  assumes "sim_mid gap w i st" "case sm_pending_entry st of None \<Rightarrow> True | Some (j, _) \<Rightarrow> gap = 1 \<and> w \<le> j \<and> Suc j = i \<and> \<not> sm_exited st \<and> sm_position st = None"
  shows "sim_mid gap w i (queued_entry b v i st) \<and> sm_pending_entry (queued_entry b v i st) = None"
  using assms unfolding queued_entry_def
  by (auto simp: sim_mid_def position_ok_def enter_position_fields split: option.splits)

lemma price_exit_mid:
  assumes "sim_mid gap w i st" "sm_pending_entry st = None"
  shows "sim_mid gap w i (price_exit b v i st) \<and> sm_pending_entry (price_exit b v i st) = None"
  using assms mid_book [OF assms(1)] unfolding price_exit_def
  by (auto simp: book_trade_def split: option.splits)

lemma new_signal_ok:
  assumes "sim_mid (expected_gap b) w i st" "sm_pending_entry st = None" "bv_long v \<or> bv_short v \<Longrightarrow> w \<le> i"
  shows "sim_ok (expected_gap b) w (Suc i) (new_signal b v i has_next st)"
proof -
  have w: "w \<le> i" if "signal_side (bs_exits b) v = Some s" for s
    using that assms(3) by (auto simp: signal_side_def split: if_splits)
  show ?thesis using assms(1,2) unfolding new_signal_def
    by (auto simp: sim_mid_def sim_ok_def position_ok_def enter_position_fields expected_gap_def after_trades_def dest: w split: option.splits if_splits)
qed

lemma rest_ok:
  "sim_ok gap w k (opposite_intent b v i st) = sim_ok gap w k st" "sim_ok gap w k (excursions v i st) = sim_ok gap w k st"
  "sim_ok gap w k (mark_to_market v i st) = sim_ok gap w k st"
  by (auto simp: sim_ok_def position_ok_def opposite_intent_def excursions_def excursion_def mark_to_market_def Let_def split: option.splits)

lemma bar_step_ok:
  assumes "sim_ok (expected_gap b) w i st" "bv_long v \<or> bv_short v \<Longrightarrow> w \<le> i"
  shows "sim_ok (expected_gap b) w (Suc i) (bar_step b v i has_next st)"
proof -
  let ?st0 = "st\<lparr>sm_exited := False\<rparr>"
  have "sim_ok (expected_gap b) w i ?st0" using assms(1) by (auto simp: sim_ok_def position_ok_def split: option.splits)
  from queued_exit_mid [OF this] queued_entry_mid [of "expected_gap b" w i "queued_exit b v i ?st0"]
  have "sim_mid (expected_gap b) w i (queued_entry b v i (queued_exit b v i ?st0))" "sm_pending_entry (queued_entry b v i (queued_exit b v i ?st0)) = None"
    by simp_all
  from price_exit_mid [OF this] show ?thesis
    unfolding bar_step_def rest_ok by (intro new_signal_ok assms(2)) simp_all
qed

lemma sim_loop_ok:
  assumes "\<And>i. i < n \<Longrightarrow> si_long d ! i \<or> si_short d ! i \<Longrightarrow> w \<le> i"
  shows "sim_ok (expected_gap b) w n (sim_loop b d n)"
  using assms
proof (induction n)
  case 0
  then show ?case by (simp add: sim_loop_def sim_init_def sim_ok_def position_ok_def after_trades_def)
next
  case (Suc n)
  then show ?case unfolding sim_loop_def by (simp add: sim_step_def) (intro bar_step_ok; simp add: view_at_def)
qed

subsection \<open>A whole run\<close>

datatype run_refusal = NO_CANDLES | NAME_CLASH | BAD_LENGTH | ATR_MISSING | BAD_CAPITAL | BAD_ALLOCATION | BAD_MAX_BARS | BAD_SIGNAL_RULE rule_error
datatype run_failure = Refused run_refusal | Raised rule_error

record bt_result =
  br_trades :: "bt_trade list"
  br_curve :: "equity_point list"
  br_long :: "nat list"
  br_short :: "nat list"

definition price_features :: "price_bar list \<Rightarrow> features" where
  "price_features bars = [(''open'', map pb_open bars), (''high'', map pb_high bars), (''low'', map pb_low bars),
     (''close'', map pb_close bars), (''volume'', map pb_volume bars)]"

definition PRICE_COLUMNS :: "string list" where
  "PRICE_COLUMNS = [''open'', ''high'', ''low'', ''close'', ''volume'']"

definition settings_refusal :: "backtest_settings \<Rightarrow> features \<Rightarrow> run_refusal option" where
  "settings_refusal b f = (let e = bs_execution b; x = bs_exits b in
     if (xs_stop_mode x = STOP_ATR \<or> xs_target_mode x = STOP_ATR) \<and> ''atr'' \<notin> fst ` set f then Some ATR_MISSING
     else if es_capital e \<le> 0 then Some BAD_CAPITAL
     else if \<not> (0 < es_allocation e \<and> es_allocation e \<le> 1) then Some BAD_ALLOCATION
     else if opt_sat (\<lambda>m. m < 1) (xs_max_bars x) then Some BAD_MAX_BARS else None)"

definition input_refusal :: "backtest_settings \<Rightarrow> price_bar list \<Rightarrow> features \<Rightarrow> run_refusal option" where
  "input_refusal b bars f = (if bars = [] then Some NO_CANDLES
     else if list_ex (\<lambda>k. k \<in> set PRICE_COLUMNS) (map fst f) then Some NAME_CLASH
     else if list_ex (\<lambda>col. length col \<noteq> length bars) (map snd f) then Some BAD_LENGTH
     else settings_refusal b f)"

definition mask_signals :: "bool \<Rightarrow> nat \<Rightarrow> bool list \<Rightarrow> bool list" where
  "mask_signals allow w xs = (if allow then replicate (min w (length xs)) False @ drop w xs else replicate (length xs) False)"

text \<open>The summary of a rule normalises its canonical form once more, outside any handler.\<close>

definition describe_failure :: "rule_node option \<Rightarrow> rule_error option" where
  "describe_failure r = (case normalize_rule (map_option node_json r) of Inl e \<Rightarrow> Some e | Inr _ \<Rightarrow> None)"

definition rule_failure :: "rule_error \<Rightarrow> run_failure" where
  "rule_failure e = (if e = NOT_NUMBERS then Raised e else Refused (BAD_SIGNAL_RULE e))"

definition backtest_input ::
  "backtest_settings \<Rightarrow> price_bar list \<Rightarrow> features \<Rightarrow> rule_node option \<Rightarrow> rule_node option \<Rightarrow> nat \<Rightarrow> run_failure + sim_input" where
  "backtest_input b bars f lr sr w = (let all = price_features bars @ f; n = length bars in
     case evaluate_series lr all n of Inl e \<Rightarrow> Inl (rule_failure e) | Inr ls \<Rightarrow>
     (case evaluate_series sr all n of Inl e \<Rightarrow> Inl (rule_failure e) | Inr ss \<Rightarrow>
     (case (describe_failure lr, describe_failure sr) of (Some e, _) \<Rightarrow> Inl (Raised e) | (None, Some e) \<Rightarrow> Inl (Raised e)
      | (None, None) \<Rightarrow> Inr \<lparr>si_bars = bars, si_atr = map_of f ''atr'', si_long = mask_signals (xs_allow_long (bs_exits b)) w ls,
          si_short = mask_signals (xs_allow_short (bs_exits b)) w ss\<rparr>)))"

definition true_at :: "bool list \<Rightarrow> nat list" where
  "true_at bs = filter (\<lambda>i. bs ! i) [0..<length bs]"

definition run_backtest ::
  "backtest_settings \<Rightarrow> price_bar list \<Rightarrow> features \<Rightarrow> json option \<Rightarrow> json option \<Rightarrow> nat \<Rightarrow> run_failure + bt_result" where
  "run_backtest b bars f long short w = (case input_refusal b bars f of Some r \<Rightarrow> Inl (Refused r) | None \<Rightarrow>
     (case normalize_rule long of Inl e \<Rightarrow> Inl (Refused (BAD_SIGNAL_RULE e)) | Inr lr \<Rightarrow>
     (case normalize_rule short of Inl e \<Rightarrow> Inl (Refused (BAD_SIGNAL_RULE e)) | Inr sr \<Rightarrow>
     (case backtest_input b bars f lr sr w of Inl e \<Rightarrow> Inl e | Inr d \<Rightarrow>
       (if \<not> list_ex id (si_long d) \<and> \<not> list_ex id (si_short d)
        then Inr \<lparr>br_trades = [], br_curve = [], br_long = [], br_short = []\<rparr>
        else case simulate b d of (ts, curve) \<Rightarrow>
          Inr \<lparr>br_trades = ts, br_curve = curve, br_long = true_at (si_long d), br_short = true_at (si_short d)\<rparr>)))))"

lemma evaluate_bars_iff: "evaluate_bars g f is = Inr bs \<longleftrightarrow> list_all2 (\<lambda>i b. node_at g f i = Inr b) is bs"
  by (induction "is" arbitrary: bs) (auto simp: rule_bind_Inr list_all2_Cons1)

lemma evaluate_series_iff:
  "evaluate_series r f n = Inr bs \<longleftrightarrow> length bs = n \<and> (\<forall>i < n. evaluate_at r f i = Inr (bs ! i))"
proof (cases r)
  case None
  have "replicate n False = bs \<longleftrightarrow> length bs = n \<and> (\<forall>i < n. False = bs ! i)"
    by (auto simp: list_eq_iff_nth_eq)
  then show ?thesis using None by (simp add: evaluate_series_def evaluate_at_def)
qed (auto simp: evaluate_series_def evaluate_at_def evaluate_bars_iff list_all2_conv_all_nth)

lemma length_mask [simp]: "length (mask_signals a w xs) = length xs"
  by (auto simp: mask_signals_def)

lemma mask_nth: "i < length xs \<Longrightarrow> mask_signals a w xs ! i = (a \<and> w \<le> i \<and> xs ! i)"
  by (auto simp: mask_signals_def nth_append)

lemma input_shape:
  assumes "backtest_input b bars f lr sr w = Inr d"
  shows "si_bars d = bars" "length (si_long d) = length bars" "length (si_short d) = length bars"
    "\<And>i. i < length bars \<Longrightarrow> si_long d ! i \<or> si_short d ! i \<Longrightarrow> w \<le> i"
  using assms
  by (auto simp: backtest_input_def Let_def evaluate_series_iff mask_nth split: sum.splits option.splits)

lemma force_close_ok:
  assumes "sim_ok gap w n st" "n = length (si_bars d)"
  shows "structural_issues gap w None (fst (force_close b d st)) = []"
  using assms
  by (auto simp: force_close_def Let_def sim_ok_def position_ok_def issues_snoc close_position_fields after_trades_def opt_sat_def
      split: option.splits if_splits)

lemma number_trades_ok: "structural_issues gap w prev (number_trades ts) = [] \<longleftrightarrow> structural_issues gap w prev ts = []"
proof -
  have "map snd (zip [1..<Suc (length ts)] ts) = ts" by (rule map_snd_zip) (simp del: upt_Suc)
  then show ?thesis unfolding number_trades_def issues_number by (simp only:)
qed

lemma structural_audit_passes:
  "case run_backtest b bars f long short w of Inl _ \<Rightarrow> True | Inr r \<Rightarrow> structural_checks (br_trades r) b w = (True, [])"
proof -
  have "structural_checks (fst (simulate b d)) b w = (True, [])" if "backtest_input b bars f lr sr w = Inr d" for lr sr d
  proof -
    have "sim_ok (expected_gap b) w (length bars) (sim_loop b d (length bars))"
      using input_shape(4) [OF that] by (rule sim_loop_ok)
    from force_close_ok [OF this] show ?thesis using input_shape(1) [OF that]
      by (simp add: structural_checks_def Let_def simulate_def number_trades_ok split: prod.split)
         (metis fst_conv number_trades_ok)
  qed
  then show ?thesis
    by (auto simp: run_backtest_def structural_checks_def split: option.splits sum.splits prod.splits) (metis fst_conv)+
qed

text \<open>
  C32. Every run of the backtester passes its own structural audit: with fills at the next open every trade enters exactly one
  bar after its signal (with fills at the close, on it), never inside the warm-up window, never exits before it enters, and
  no two positions overlap.
\<close>

theorem backtest_passes_structural_audit:
  "case run_backtest b bars f long short w of Inl _ \<Rightarrow> True | Inr r \<Rightarrow> structural_checks (br_trades r) b w = (True, [])"
  by (rule structural_audit_passes)

subsection \<open>No bar sees a later one\<close>

text \<open>What a walk has decided; an entry queued on the last bar is known to have no bar to fill on.\<close>

definition decided :: "sim_state \<Rightarrow> sim_state" where
  "decided st = st\<lparr>sm_pending_entry := None\<rparr>"

lemma regime_take: "i < p \<Longrightarrow> classify_regime (take p bars) i = classify_regime bars i"
proof -
  assume "i < p"
  then have "map (\<lambda>j. pb_close (take p bars ! j)) [k..<Suc i] = map (\<lambda>j. pb_close (bars ! j)) [k..<Suc i]" for k
    by (intro map_cong) auto
  then show ?thesis by (simp only: classify_regime_def)
qed

lemma new_signal_decided: "decided (new_signal b v i x st) = decided (new_signal b v i y st)"
  by (simp add: new_signal_def decided_def split: option.split)

lemma rest_decided:
  "decided (opposite_intent b v i st) = opposite_intent b v i (decided st)" "decided (excursions v i st) = excursions v i (decided st)"
  "decided (mark_to_market v i st) = mark_to_market v i (decided st)"
  by (auto simp: opposite_intent_def excursions_def mark_to_market_def decided_def Let_def split: option.split)

lemma bar_step_decided: "decided (bar_step b v i x st) = decided (bar_step b v i y st)"
  unfolding bar_step_def rest_decided using new_signal_decided by metis

definition agrees :: "nat \<Rightarrow> sim_input \<Rightarrow> sim_input \<Rightarrow> bool" where
  "agrees p d d' \<longleftrightarrow> p \<le> length (si_bars d) \<and> p \<le> length (si_bars d') \<and> (\<forall>i < p. view_at d i = view_at d' i)"

lemma walk_agrees: "agrees p d d' \<Longrightarrow> decided (sim_loop b d p) = decided (sim_loop b d' p)"
proof (induction p)
  case (Suc p)
  have "sim_loop b d p = sim_loop b d' p"
  proof -
    have "fold (sim_step b d) [0..<p] (sim_init b) = fold (sim_step b d') [0..<p] (sim_init b)"
      by (rule fold_cong) (use Suc.prems in \<open>auto simp: agrees_def sim_step_def\<close>)
    then show ?thesis by (simp add: sim_loop_def)
  qed
  then show ?case using Suc.prems unfolding sim_loop_def
    by (simp add: sim_step_def agrees_def) (rule bar_step_decided)
qed (simp add: sim_loop_def)

lemma price_features_take: "price_features (take p bars) @ cut p f = cut p (price_features bars @ f)"
  by (simp add: price_features_def cut_def take_map)

lemma evaluate_at_cut: "i < p \<Longrightarrow> evaluate_at r (cut p f) i = evaluate_at r f i"
  by (simp add: evaluate_at_def node_cut split: option.split)

lemma evaluate_series_cut:
  assumes "evaluate_series r f n = Inr bs" "p \<le> n"
  shows "evaluate_series r (cut p f) p = Inr (take p bs)"
  using assms by (auto simp: evaluate_series_iff evaluate_at_cut)

definition input_cut :: "nat \<Rightarrow> sim_input \<Rightarrow> sim_input" where
  "input_cut p d = \<lparr>si_bars = take p (si_bars d), si_atr = map_option (take p) (si_atr d), si_long = take p (si_long d), si_short = take p (si_short d)\<rparr>"

lemma agrees_cut: "p \<le> length (si_bars d) \<Longrightarrow> agrees p (input_cut p d) d"
  by (auto simp: agrees_def input_cut_def view_at_def regime_take split: option.split)

lemma take_mask: "take p (mask_signals a w xs) = mask_signals a w (take p xs)"
  by (rule nth_equalityI) (simp_all add: mask_nth)

lemma input_of_prefix:
  assumes "backtest_input b bars f lr sr w = Inr d" "p \<le> length bars"
  shows "backtest_input b (take p bars) (cut p f) lr sr w = Inr (input_cut p d)"
proof -
  obtain ls ss where e: "evaluate_series lr (price_features bars @ f) (length bars) = Inr ls"
      "evaluate_series sr (price_features bars @ f) (length bars) = Inr ss" "describe_failure lr = None" "describe_failure sr = None"
    and d: "d = \<lparr>si_bars = bars, si_atr = map_of f ''atr'', si_long = mask_signals (xs_allow_long (bs_exits b)) w ls,
          si_short = mask_signals (xs_allow_short (bs_exits b)) w ss\<rparr>"
    using assms(1) by (auto simp: backtest_input_def Let_def split: sum.splits option.splits)
  show ?thesis
    using evaluate_series_cut [OF e(1) assms(2)] evaluate_series_cut [OF e(2) assms(2)] e(3,4) assms(2)
    by (simp add: backtest_input_def Let_def price_features_take d input_cut_def map_of_cut take_mask min_absorb2)
qed

text \<open>
  A backtest cannot see the future: when every bar after the first \<open>p\<close> is removed from the candles and from the feature
  columns, an accepted run is still accepted, and its walk has taken the same trades, at the same prices, holds the same
  position with the same queued exit and has the same equity curve up to there.
\<close>

theorem backtest_sees_no_future:
  "case backtest_input b bars f lr sr w of Inl _ \<Rightarrow> True
   | Inr d \<Rightarrow> (case backtest_input b (take (min p (length bars)) bars) (cut (min p (length bars)) f) lr sr w of Inl _ \<Rightarrow> False
       | Inr d' \<Rightarrow> decided (sim_loop b d' (min p (length bars))) = decided (sim_loop b d (min p (length bars))))"
proof (cases "backtest_input b bars f lr sr w")
  case (Inr d)
  have "agrees (min p (length bars)) (input_cut (min p (length bars)) d) d"
    using input_shape(1) [OF Inr] by (intro agrees_cut) simp
  then show ?thesis using input_of_prefix [OF Inr, of "min p (length bars)"] Inr by (simp add: walk_agrees)
qed simp

subsection \<open>Exits are read pessimistically\<close>

text \<open>The worst price of a bar for a position.\<close>

definition worst :: "bt_position \<Rightarrow> rat \<Rightarrow> rat \<Rightarrow> rat" where
  "worst p hi lo = (if bp_side p = LONG_SIDE then lo else hi)"

lemma stop_hit_worse:
  "stop_hit p price \<Longrightarrow> lo \<le> price \<Longrightarrow> price \<le> hi \<Longrightarrow> stop_hit p (worst p hi lo)"
  by (auto simp: stop_hit_def opt_sat_def worst_def split: option.splits trade_side.splits)

text \<open>
  C13. On a bar whose low and high enclose its open and its close, a position exits at a price inside the bar. Whenever the bar
  reaches the stop, the exit is the stop, unless the bar already opened at or beyond the target; a stop never fills better
  than its level, and a target only where the level was reached.
\<close>

theorem exits_are_pessimistic:
  assumes "lo \<le> op" "op \<le> hi" "lo \<le> cl" "cl \<le> hi" "bar_exit x p i op hi lo cl minute = Some (price, why)"
  shows "lo \<le> price \<and> price \<le> hi \<and> (stop_hit p (worst p hi lo) \<longrightarrow> why = STOP_LOSS \<or> target_hit p op)
    \<and> (why = STOP_LOSS \<longrightarrow> stop_hit p price) \<and> (why = TAKE_PROFIT \<longrightarrow> target_hit p price)"
  using assms
  by (cases "bp_side p"; cases "bp_stop p"; cases "bp_target p")
     (auto simp: bar_exit_def Let_def stop_hit_def target_hit_def opt_sat_def worst_def split: if_splits)

definition demo_settings :: backtest_settings where
  "demo_settings = \<lparr>bs_execution = \<lparr>es_fill = NEXT_OPEN, es_size = FIXED_UNITS, es_capital = 1000000, es_allocation = 1, es_units = 100, es_leverage = 1\<rparr>,
     bs_exits = \<lparr>xs_stop_mode = STOP_POINTS, xs_stop_value = 5, xs_target_mode = STOP_POINTS, xs_target_value = 10, xs_max_bars = None,
       xs_on_opposite = True, xs_allow_long = True, xs_allow_short = True, xs_session_close = False\<rparr>, bs_costs = ZERO_COSTS\<rparr>"

definition demo_bar :: "rat \<Rightarrow> rat \<Rightarrow> rat \<Rightarrow> rat \<Rightarrow> price_bar" where
  "demo_bar op hi lo cl = \<lparr>pb_label = None, pb_utc = None, pb_open = Some op, pb_high = Some hi, pb_low = Some lo, pb_close = Some cl, pb_volume = None\<rparr>"

definition demo_position :: "trade_side \<Rightarrow> cost_model \<Rightarrow> bt_position" where
  "demo_position s k = enter_position (demo_settings\<lparr>bs_costs := k\<rparr>) s 0 None 1 (demo_bar 100 112 94 104) 100 1000000 None False REGIME_UNKNOWN"

lemma demo_exit: "bar_exit (bs_exits demo_settings) (demo_position LONG_SIDE ZERO_COSTS) 1 100 112 94 104 None = Some (95, STOP_LOSS)"
  by code_simp

lemma exits_are_pessimistic_witness:
  "(94::rat) \<le> 95 \<and> 95 \<le> (112::rat) \<and> stop_hit (demo_position LONG_SIDE ZERO_COSTS) 95"
  using exits_are_pessimistic [OF _ _ _ _ demo_exit] by simp

subsection \<open>Costs only cost\<close>

definition costs_ok :: "cost_model \<Rightarrow> bool" where
  "costs_ok k \<longleftrightarrow> 0 \<le> km_slippage k \<and> 0 \<le> km_brokerage k \<and> 0 \<le> km_exchange k \<and> 0 \<le> km_sebi k \<and> 0 \<le> km_gst k \<and> 0 \<le> km_stt_sell k
     \<and> 0 \<le> km_stamp_buy k"

lemma fee_nonneg: "costs_ok k \<Longrightarrow> 0 \<le> fee_amount k x s"
  by (auto simp: fee_amount_def fee_bps_def costs_ok_def Let_def intro!: flt.rnd_nonneg divide_nonneg_pos mult_nonneg_nonneg add_nonneg_nonneg)

lemma rounded_mono: "x \<le> y \<Longrightarrow> round_places n x \<le> round_places n y"
  unfolding round_places_def by (intro flt.rnd_mono divide_right_mono) (simp_all add: rhe_mono)

lemma round_places_zero: "round_places n 0 = 0"
  using rhe_int [of 0] by (simp add: round_places_def)

lemma rounded_nonneg: "0 \<le> x \<Longrightarrow> 0 \<le> round_places n x"
  using rounded_mono [of 0 x n] by (simp add: round_places_zero)

lemma slip_factor_ge: "costs_ok k \<Longrightarrow> 1 \<le> slip_factor k"
  using flt.rnd_mono [of 1 "1 + frnd (km_slippage k / 10000)"] by (simp add: slip_factor_def costs_ok_def flt.rnd_nonneg)

lemma fill_adverse:
  assumes "costs_ok k"
  shows "frnd r \<le> fill_price k (frnd r) BUYING" "fill_price k (frnd r) SELLING \<le> frnd r"
proof -
  have "frnd r \<le> frnd r * slip_factor k" "frnd r / slip_factor k \<le> frnd r" if "0 < frnd r"
    using slip_factor_ge [OF assms] that mult_left_mono [of 1 "slip_factor k" "frnd r"] by (simp_all add: pos_divide_le_eq)
  then show "frnd r \<le> fill_price k (frnd r) BUYING" "fill_price k (frnd r) SELLING \<le> frnd r"
    using flt.rnd_ge_rep [OF flt.rnd_idem, of r "frnd r * slip_factor k"] flt.rnd_le_rep [OF flt.rnd_idem, of "frnd r / slip_factor k" r]
    by (auto simp: fill_price_def)
qed

text \<open>
  C31. Costs never improve a trade: with charges that are not negative and a quantity that is not negative the recorded costs are
  not negative, the net profit is at most the gross profit, and a fill pays no less than the reference price when it buys and
  gets no more when it sells.
\<close>

theorem costs_never_help:
  assumes "costs_ok k" "0 \<le> bp_quantity p"
  shows "0 \<le> tr_costs (close_position k p i l r why) \<and> tr_net (close_position k p i l r why) \<le> tr_gross (close_position k p i l r why)
    \<and> frnd r \<le> fill_price k (frnd r) BUYING \<and> fill_price k (frnd r) SELLING \<le> frnd r"
proof -
  define g where "g = frnd (frnd (r - bp_reference p) * bp_quantity p) * direction (bp_side p)"
  define fill where "fill = fill_price k r (if bp_side p = LONG_SIDE then SELLING else BUYING)"
  define c where "c = frnd (frnd (frnd (\<bar>frnd (bp_price p - bp_reference p)\<bar> + \<bar>frnd (fill - r)\<bar>) * bp_quantity p)
    + frnd (fee_amount k (frnd (bp_price p * bp_quantity p)) BUYING + fee_amount k (frnd (fill * bp_quantity p)) SELLING))"
  have "0 \<le> frnd (\<bar>frnd (bp_price p - bp_reference p)\<bar> + \<bar>frnd (fill - r)\<bar>) * bp_quantity p"
    by (intro mult_nonneg_nonneg flt.rnd_nonneg add_nonneg_nonneg assms(2)) simp_all
  then have c: "0 \<le> c" unfolding c_def
    by (intro flt.rnd_nonneg add_nonneg_nonneg fee_nonneg assms(1))
  then have "frnd (frnd g - c) \<le> frnd (frnd g)" by (intro flt.rnd_mono) simp
  then have "round_places 4 (frnd (frnd g - c)) \<le> round_places 4 (frnd g)" by (intro rounded_mono) (simp add: flt.rnd_idem)
  then show ?thesis using c fill_adverse [OF assms(1), of r] rounded_nonneg [OF c, of 4]
    by (simp add: close_position_def Let_def g_def c_def fill_def)
qed

lemma costs_never_help_witness:
  "tr_net (close_position REFERENCE_COSTS (demo_position LONG_SIDE REFERENCE_COSTS) 2 None 108 TAKE_PROFIT)
     \<le> tr_gross (close_position REFERENCE_COSTS (demo_position LONG_SIDE REFERENCE_COSTS) 2 None 108 TAKE_PROFIT)"
proof -
  have "costs_ok REFERENCE_COSTS" by code_simp
  moreover have "0 \<le> bp_quantity (demo_position LONG_SIDE REFERENCE_COSTS)"
    by (simp add: demo_position_def enter_position_def demo_settings_def Let_def)
  ultimately show ?thesis using costs_never_help [of REFERENCE_COSTS "demo_position LONG_SIDE REFERENCE_COSTS" 2 None 108 TAKE_PROFIT] by blast
qed

text \<open>A short trade enters by selling, but pays the charges of a buyer on its entry and those of a seller on its exit.\<close>

lemma short_pays_fees_on_wrong_side:
  "tr_costs (close_position (ZERO_COSTS\<lparr>km_stt_sell := 10\<rparr>) (demo_position SHORT_SIDE ZERO_COSTS) 2 None 50 TAKE_PROFIT) = 5
   \<and> fee_amount (ZERO_COSTS\<lparr>km_stt_sell := 10\<rparr>) 10000 SELLING = 10"
  by (simp add: close_position_def demo_position_def enter_position_def demo_settings_def Let_def ZERO_COSTS_def fill_price_def slip_factor_def
    fee_amount_def fee_bps_def demo_bar_def direction_def) code_simp

subsection \<open>The account\<close>

text \<open>Every trade starts from the account the one before it left, and leaves it moved by its own net profit.\<close>

fun ledger :: "rat \<Rightarrow> bt_trade list \<Rightarrow> rat \<Rightarrow> bool" where
  "ledger c [] e \<longleftrightarrow> e = c"
| "ledger c (t # ts) e \<longleftrightarrow> tr_before t = round_places 4 c
     \<and> (\<exists>net. tr_net t = round_places 4 net \<and> tr_after t = round_places 4 (frnd (c + net))) \<and> ledger (tr_after t) ts e"

lemma ledger_snoc:
  "ledger c (ts @ [t]) e \<longleftrightarrow> (\<exists>m. ledger c ts m \<and> ledger m [t] e)"
  by (induction ts arbitrary: c) auto

definition account_ok :: "rat \<Rightarrow> sim_state \<Rightarrow> bool" where
  "account_ok c st \<longleftrightarrow> ledger c (sm_trades st) (sm_equity st) \<and> (case sm_position st of None \<Rightarrow> True | Some p \<Rightarrow> bp_equity p = sm_equity st)"

lemma close_ledger: "bp_equity p = m \<Longrightarrow> ledger m [close_position k p i l r why] (tr_after (close_position k p i l r why))"
  by (auto simp: close_position_def Let_def)

lemma account_book:
  assumes "account_ok c st" "sm_position st = Some p"
  shows "account_ok c (book_trade (close_position k p i l r why) st)"
  using assms close_ledger [of p "sm_equity st" k i l r why]
  by (auto simp: account_ok_def book_trade_def ledger_snoc simp del: ledger.simps)

lemma account_phases:
  assumes "account_ok c st"
  shows "account_ok c (queued_exit b v i st)" "account_ok c (queued_entry b v i st)" "account_ok c (price_exit b v i st)"
    "account_ok c (new_signal b v i x st)" "account_ok c (opposite_intent b v i st)" "account_ok c (excursions v i st)"
    "account_ok c (mark_to_market v i st)"
proof -
  have n: "account_ok c (s\<lparr>sm_pending_exit := y\<rparr>) = account_ok c s" "account_ok c (s\<lparr>sm_pending_entry := z\<rparr>) = account_ok c s" for s y z
    by (simp_all add: account_ok_def split: option.split)
  have o: "account_ok c (st\<lparr>sm_position := Some (enter_position b s j l i bar r (sm_equity st) a q g)\<rparr>)" for s j l bar r a q g
    using assms by (simp add: account_ok_def enter_position_def Let_def)
  show "account_ok c (queued_exit b v i st)" "account_ok c (price_exit b v i st)"
    using assms account_book [OF assms] by (auto simp: queued_exit_def price_exit_def n split: option.split)
  show "account_ok c (queued_entry b v i st)"
    using assms o by (auto simp: queued_entry_def n split: option.split)
  have "account_ok c (st\<lparr>sm_pending_entry := None, sm_position := Some (enter_position b s j l i bar r (sm_equity st) a q g)\<rparr>)" for s j l bar r a q g
    using assms by (simp add: account_ok_def enter_position_def Let_def)
  then show "account_ok c (new_signal b v i x st)"
    using assms by (auto simp: new_signal_def n split: option.split)
  show "account_ok c (opposite_intent b v i st)" "account_ok c (excursions v i st)" "account_ok c (mark_to_market v i st)"
    using assms by (auto simp: opposite_intent_def excursions_def excursion_def mark_to_market_def account_ok_def Let_def split: option.splits)
qed

lemma account_loop: "account_ok (es_capital (bs_execution b)) (sim_loop b d n)"
proof (induction n)
  case (Suc n)
  have "account_ok c (st\<lparr>sm_exited := y\<rparr>) = account_ok c st" for c st y by (simp add: account_ok_def split: option.split)
  then show ?case using Suc unfolding sim_loop_def
    by (simp add: sim_step_def bar_step_def account_phases)
qed (simp add: sim_loop_def sim_init_def account_ok_def)

lemma ledger_number: "ledger c (number_trades ts) e = ledger c ts e"
proof -
  have "ledger c (map2 (\<lambda>k t. t\<lparr>tr_id := k\<rparr>) ks ts) e = ledger c (map snd (zip ks ts)) e" for ks
    by (induction ks ts arbitrary: c rule: list_induct2') auto
  moreover have "map snd (zip [1..<Suc (length ts)] ts) = ts" by (rule map_snd_zip) (simp del: upt_Suc)
  ultimately show ?thesis unfolding number_trades_def by (simp only:)
qed

lemma last_point:
  assumes "0 < n"
  shows "sm_curve (sim_loop b d n) \<noteq> [] \<and> (sm_position (sim_loop b d n) = None
      \<longrightarrow> ep_equity (List.last (sm_curve (sim_loop b d n))) = round_places 4 (sm_equity (sim_loop b d n)))
    \<and> ep_in_position (List.last (sm_curve (sim_loop b d n))) = (sm_position (sim_loop b d n) \<noteq> None)"
proof -
  obtain m where "n = Suc m" using assms gr0_conv_Suc by blast
  then show ?thesis by (simp add: sim_loop_def sim_step_def bar_step_def mark_to_market_def Let_def)
qed

lemma simulate_account:
  assumes "si_bars d \<noteq> []" "simulate b d = (ts, curve)"
  shows "\<exists>e. ledger (es_capital (bs_execution b)) ts e \<and> (ep_in_position (List.last curve) \<or> ep_equity (List.last curve) = round_places 4 e)"
proof -
  define st where "st = sim_loop b d (length (si_bars d))"
  have a: "account_ok (es_capital (bs_execution b)) st" unfolding st_def by (rule account_loop)
  have l: "sm_curve st \<noteq> []" "sm_position st = None \<Longrightarrow> ep_equity (List.last (sm_curve st)) = round_places 4 (sm_equity st)"
    "ep_in_position (List.last (sm_curve st)) = (sm_position st \<noteq> None)"
    using last_point [of "length (si_bars d)" b d] assms(1) by (auto simp: st_def)
  obtain ts' where f: "force_close b d st = (ts', curve)" "ts = number_trades ts'"
    using assms(2) by (auto simp: simulate_def st_def split: prod.splits)
  show ?thesis
  proof (cases "sm_position st \<noteq> None \<and> pb_close (si_bars d ! (length (si_bars d) - 1)) \<noteq> None")
    case True
    then obtain p cl where p: "sm_position st = Some p" "pb_close (si_bars d ! (length (si_bars d) - 1)) = Some cl" by auto
    define t where "t = close_position (bs_costs b) p (length (si_bars d) - 1) (pb_label (si_bars d ! (length (si_bars d) - 1))) cl END_OF_DATA"
    have "ledger (sm_equity st) [t] (tr_after t)" using a p(1) close_ledger unfolding t_def by (simp add: account_ok_def)
    then have "ledger (es_capital (bs_execution b)) (sm_trades st @ [t]) (tr_after t)"
      using a by (auto simp: account_ok_def ledger_snoc simp del: ledger.simps)
    moreover have "ts' = sm_trades st @ [t]" "ep_equity (List.last curve) = round_places 4 (tr_after t)"
      using f(1) p l(1) by (auto simp: force_close_def Let_def t_def)
    ultimately show ?thesis using f(2) by (auto simp: ledger_number)
  next
    case False
    then show ?thesis using f a l by (auto simp: force_close_def Let_def account_ok_def ledger_number split: option.splits)
  qed
qed

text \<open>
  C5. The account of a run is a ledger: the first trade starts from the initial capital, every trade starts from the account the
  previous one left and leaves it moved by its own net profit, and an equity curve that ends flat ends at the account after
  the last trade.
\<close>

theorem account_is_ledger:
  "case run_backtest b bars f long short w of Inl _ \<Rightarrow> True
   | Inr r \<Rightarrow> \<exists>e. ledger (es_capital (bs_execution b)) (br_trades r) e
       \<and> (br_trades r = [] \<or> ep_in_position (List.last (br_curve r)) \<or> ep_equity (List.last (br_curve r)) = round_places 4 e)"
proof -
  have K: "\<exists>e. ledger (es_capital (bs_execution b)) ts e \<and> (ts = [] \<or> ep_in_position (List.last curve) \<or> ep_equity (List.last curve) = round_places 4 e)"
    if "input_refusal b bars f = None" "backtest_input b bars f lr sr w = Inr d" "simulate b d = (ts, curve)" for lr sr d ts curve
    using that simulate_account [of d b ts curve] input_shape(1) [OF that(2)] by (auto simp: input_refusal_def split: if_splits)
  then show ?thesis
    by (auto simp: run_backtest_def split: option.splits sum.splits prod.splits intro!: K)
qed

end
