(* ===== verification/Droid_Indicators.thy ===== *)
theory Droid_Indicators
  imports Droid_Backtest
begin

text \<open>
  \<open>backend/app/indicator_research/indicators\<close>: the numerical helpers and the indicators built from them. A series has a float or
  nothing for every bar. A loop of the source that carries state from bar to bar is a \<open>scan\<close>; a loop that reads other series
  at the same index maps over them. What every series of the library promises is the locale \<open>causal_series\<close>: it has a value
  for every bar, and removing later bars removes later values and changes no other. Square roots and logarithms are
  arguments.
\<close>

subsection \<open>The contract of a series\<close>

locale causal_series =
  fixes series :: "'a list \<Rightarrow> 'b list"
  assumes length_series: "length (series xs) = length xs"
    and series_take: "series (take n xs) = take n (series xs)"
begin

lemma series_nth: "i < n \<Longrightarrow> i < length xs \<Longrightarrow> series (take n xs) ! i = series xs ! i"
  by (simp add: series_take)

lemma series_append: "take (length xs) (series (xs @ ys)) = series xs"
  using series_take [of "length xs" "xs @ ys"] by simp

end

fun scan :: "('s \<Rightarrow> 'a \<Rightarrow> 's \<times> 'b) \<Rightarrow> 's \<Rightarrow> 'a list \<Rightarrow> 'b list" where
  "scan f s [] = []"
| "scan f s (x # xs) = (case f s x of (s', y) \<Rightarrow> y # scan f s' xs)"

named_theorems causal

lemma causal_scan [causal]: "causal_series (scan f s)"
proof
  show "length (scan f s xs) = length xs" for xs by (induction xs arbitrary: s) (auto split: prod.split)
  show "scan f s (take n xs) = take n (scan f s xs)" for n xs
    by (induction xs arbitrary: s n) (auto simp: take_Cons split: prod.split nat.split)
qed

lemma causal_map [causal]: "causal_series (map f)"
  by unfold_locales (simp_all add: take_map)

lemma causal_nothing [causal]: "causal_series (\<lambda>xs. map (\<lambda>_. c) xs)"
  by unfold_locales (simp_all add: take_map)

lemma causal_comp:
  "causal_series g \<Longrightarrow> causal_series f \<Longrightarrow> causal_series (\<lambda>xs. g (f xs))"
  by (simp add: causal_series_def)

lemma causal_zip: "causal_series f \<Longrightarrow> causal_series g \<Longrightarrow> causal_series (\<lambda>xs. zip (f xs) (g xs))"
  by (simp add: causal_series_def take_zip)

lemma causal_map_of: "causal_series f \<Longrightarrow> causal_series (\<lambda>xs. map h (f xs))"
  by (rule causal_comp [OF causal_map])

lemma causal_scan_of: "causal_series f \<Longrightarrow> causal_series (\<lambda>xs. scan g s (f xs))"
  by (rule causal_comp [OF causal_scan])

lemma causal_id: "causal_series (\<lambda>xs. xs)"
  by unfold_locales simp_all

subsection \<open>Helpers\<close>

type_synonym series = "rat option list"

definition mean_of :: "rat \<Rightarrow> nat \<Rightarrow> rat" where
  "mean_of acc n = frnd (acc / of_nat n)"

text \<open>Most helpers keep the last values since the last gap.\<close>

definition sma_step :: "nat \<Rightarrow> rat list \<times> rat \<Rightarrow> rat option \<Rightarrow> (rat list \<times> rat) \<times> rat option" where
  "sma_step n st x = (case (st, x) of
     (_, None) \<Rightarrow> (([], 0), None)
   | ((w, acc), Some v) \<Rightarrow> (let w1 = w @ [v]; t1 = frnd (acc + v);
       w2 = (if n < length w1 then tl w1 else w1); t2 = (if n < length w1 then frnd (t1 - hd w1) else t1) in
       ((w2, t2), if length w2 = n then Some (mean_of t2 n) else None)))"

definition sma :: "nat \<Rightarrow> series \<Rightarrow> series" where
  "sma n xs = (if n = 0 then map (\<lambda>_. None) xs else scan (sma_step n) ([], 0) xs)"

text \<open>Averages that are seeded with the plain mean of the first values and smoothed from there.\<close>

definition seeded_step :: "nat \<Rightarrow> (rat \<Rightarrow> rat \<Rightarrow> rat) \<Rightarrow> rat list \<times> rat option \<Rightarrow> rat option \<Rightarrow> (rat list \<times> rat option) \<times> rat option" where
  "seeded_step n smooth st x = (case (st, x) of
     (_, None) \<Rightarrow> (([], None), None)
   | ((w, Some prev), Some v) \<Rightarrow> ((w, Some (smooth prev v)), Some (smooth prev v))
   | ((w, None), Some v) \<Rightarrow> (let w1 = w @ [v]; w2 = (if n < length w1 then tl w1 else w1); m = mean_of (py_sum w2) n in
       if length w1 < n then ((w1, None), None) else ((w2, Some m), Some m)))"

definition ema_smooth :: "nat \<Rightarrow> rat \<Rightarrow> rat \<Rightarrow> rat" where
  "ema_smooth n prev v = (let k = frnd (2 / frnd (of_nat n + 1)) in frnd (frnd (v * k) + frnd (prev * frnd (1 - k))))"

definition ema :: "nat \<Rightarrow> series \<Rightarrow> series" where
  "ema n xs = (if n = 0 then map (\<lambda>_. None) xs else scan (seeded_step n (ema_smooth n)) ([], None) xs)"

definition wilder_smooth :: "nat \<Rightarrow> rat \<Rightarrow> rat \<Rightarrow> rat" where
  "wilder_smooth n prev v = frnd (frnd (frnd (prev * (of_nat n - 1)) + v) / of_nat n)"

definition wilder :: "nat \<Rightarrow> series \<Rightarrow> series" where
  "wilder n xs = (if n = 0 then map (\<lambda>_. None) xs else scan (seeded_step n (wilder_smooth n)) ([], None) xs)"

definition stdev_step :: "(rat \<Rightarrow> rat) \<Rightarrow> nat \<Rightarrow> rat list \<times> rat \<times> rat \<Rightarrow> rat option \<Rightarrow> (rat list \<times> rat \<times> rat) \<times> rat option" where
  "stdev_step rt n st x = (case (st, x) of
     (_, None) \<Rightarrow> (([], 0, 0), None)
   | ((w, t, q), Some v) \<Rightarrow> (let w1 = w @ [v]; t1 = frnd (t + v); q1 = frnd (q + frnd (v * v)); old = hd w1; full = (n < length w1);
       w2 = (if full then tl w1 else w1); t2 = (if full then frnd (t1 - old) else t1); q2 = (if full then frnd (q1 - frnd (old * old)) else q1);
       mean = mean_of t2 n; var = frnd (mean_of q2 n - frnd (mean * mean)) in
       ((w2, t2, q2), if length w2 = n then Some (rt (max 0 var)) else None)))"

definition stdev :: "(rat \<Rightarrow> rat) \<Rightarrow> nat \<Rightarrow> series \<Rightarrow> series" where
  "stdev rt n xs = (if n \<le> 1 then map (\<lambda>_. None) xs else scan (stdev_step rt n) ([], 0, 0) xs)"

definition window_step :: "nat \<Rightarrow> (rat list \<Rightarrow> rat) \<Rightarrow> rat list \<Rightarrow> rat option \<Rightarrow> rat list \<times> rat option" where
  "window_step n f w x = (case x of None \<Rightarrow> ([], None)
   | Some v \<Rightarrow> (let w1 = w @ [v]; w2 = (if n < length w1 then tl w1 else w1) in (w2, if length w2 = n then Some (f w2) else None)))"

definition extreme :: "(rat list \<Rightarrow> rat) \<Rightarrow> nat \<Rightarrow> series \<Rightarrow> series" where
  "extreme f n xs = (if n = 0 then map (\<lambda>_. None) xs else scan (window_step n f) [] xs)"

definition highest :: "nat \<Rightarrow> series \<Rightarrow> series" where
  "highest = extreme (\<lambda>w. Max (set w))"

definition lowest :: "nat \<Rightarrow> series \<Rightarrow> series" where
  "lowest = extreme (\<lambda>w. Min (set w))"

definition range_step :: "rat option \<Rightarrow> price_bar \<Rightarrow> rat option \<times> rat option" where
  "range_step prev b = (pb_close b, (case (pb_high b, pb_low b, pb_close b) of
     (Some h, Some l, Some c) \<Rightarrow> Some (case prev of None \<Rightarrow> frnd (h - l)
        | Some p \<Rightarrow> max (frnd (h - l)) (max \<bar>frnd (h - p)\<bar> \<bar>frnd (l - p)\<bar>))
   | _ \<Rightarrow> None))"

definition true_range :: "price_bar list \<Rightarrow> series" where
  "true_range = scan range_step None"

definition atr :: "nat \<Rightarrow> price_bar list \<Rightarrow> series" where
  "atr n bars = wilder n (true_range bars)"

definition map2_opt :: "('a \<Rightarrow> 'b \<Rightarrow> 'c) \<Rightarrow> 'a option \<Rightarrow> 'b option \<Rightarrow> 'c option" where
  "map2_opt f x y = (case (x, y) of (Some a, Some b) \<Rightarrow> Some (f a b) | _ \<Rightarrow> None)"

definition typical_price :: "price_bar \<Rightarrow> rat option" where
  "typical_price b = (case (pb_high b, pb_low b, pb_close b) of (Some h, Some l, Some c) \<Rightarrow> Some (frnd (frnd (frnd (h + l) + c) / 3)) | _ \<Rightarrow> None)"

definition median_price :: "price_bar \<Rightarrow> rat option" where
  "median_price b = map2_opt (\<lambda>h l. frnd (frnd (h + l) / 2)) (pb_high b) (pb_low b)"

record vwap_state =
  vw_volume :: rat
  vw_value :: rat
  vw_window :: "(rat \<times> rat) list"
  vw_prev :: "rat option"

definition vwap_add :: "nat \<Rightarrow> rat \<Rightarrow> rat \<Rightarrow> vwap_state \<Rightarrow> vwap_state" where
  "vwap_add n p v st = (let st1 = st\<lparr>vw_value := frnd (vw_value st + frnd (p * v)), vw_volume := frnd (vw_volume st + v)\<rparr> in
     if n = 0 then st1
     else (let w = vw_window st @ [(p, v)] in
       if n < length w then st1\<lparr>vw_value := frnd (vw_value st1 - frnd (fst (hd w) * snd (hd w))), vw_volume := frnd (vw_volume st1 - snd (hd w)), vw_window := tl w\<rparr>
       else st1\<lparr>vw_window := w\<rparr>))"

definition vwap_step :: "nat \<Rightarrow> vwap_state \<Rightarrow> price_bar \<Rightarrow> vwap_state \<times> rat option" where
  "vwap_step n st b = (case typical_price b of None \<Rightarrow> (st, vw_prev st)
     | Some p \<Rightarrow> (let st1 = vwap_add n p (or_else (pb_volume b) 0) st;
         now = (if 0 < vw_volume st1 then Some (frnd (vw_value st1 / vw_volume st1)) else vw_prev st1) in
       (st1\<lparr>vw_prev := now\<rparr>, now)))"

definition vwap_init :: vwap_state where
  "vwap_init = \<lparr>vw_volume = 0, vw_value = 0, vw_window = [], vw_prev = None\<rparr>"

definition vwap :: "nat \<Rightarrow> price_bar list \<Rightarrow> series" where
  "vwap n = scan (vwap_step n) vwap_init"

text \<open>Least squares over the last values.\<close>

definition sum_x :: "nat \<Rightarrow> rat" where "sum_x n = frnd (of_nat (n * (n - 1)) / 2)"
definition sum_x2 :: "nat \<Rightarrow> rat" where "sum_x2 n = frnd (of_nat (n * (n - 1) * (2 * n - 1)) / 6)"

definition fit_denom :: "nat \<Rightarrow> rat" where
  "fit_denom n = frnd (frnd (of_nat n * sum_x2 n) - frnd (sum_x n * sum_x n))"

definition fit_slope :: "nat \<Rightarrow> rat list \<Rightarrow> rat" where
  "fit_slope n w = (let sy = py_sum w; sxy = py_sum (map2 (\<lambda>i y. frnd (of_nat i * y)) [0..<length w] w) in
     frnd (frnd (frnd (of_nat n * sxy) - frnd (sum_x n * sy)) / fit_denom n))"

definition fit_value :: "nat \<Rightarrow> rat list \<Rightarrow> rat" where
  "fit_value n w = (let s = fit_slope n w; b = frnd (frnd (py_sum w - frnd (s * sum_x n)) / of_nat n) in frnd (b + frnd (s * of_nat (n - 1))))"

definition linreg_slope :: "nat \<Rightarrow> series \<Rightarrow> series" where
  "linreg_slope n xs = (if n \<le> 1 \<or> fit_denom n = 0 then map (\<lambda>_. None) xs else scan (window_step n (fit_slope n)) [] xs)"

definition linreg_value :: "nat \<Rightarrow> series \<Rightarrow> series" where
  "linreg_value n xs = (if n \<le> 1 \<or> fit_denom n = 0 then map (\<lambda>_. None) xs else scan (window_step n (fit_value n)) [] xs)"

text \<open>The series some bars ago.\<close>

definition lagged :: "nat \<Rightarrow> 'a option list \<Rightarrow> 'a option list" where
  "lagged k xs = map (\<lambda>i. if i < k then None else xs ! (i - k)) [0..<length xs]"

definition diff :: "nat \<Rightarrow> series \<Rightarrow> series" where
  "diff k xs = (if k = 0 then map (\<lambda>_. None) xs else map2 (map2_opt (\<lambda>a b. frnd (a - b))) xs (lagged k xs))"

definition ema_alpha_step :: "rat \<Rightarrow> rat option \<Rightarrow> rat option \<Rightarrow> rat option \<times> rat option" where
  "ema_alpha_step a prev x = (case x of None \<Rightarrow> (None, None)
     | Some v \<Rightarrow> (let now = (case prev of None \<Rightarrow> v | Some p \<Rightarrow> frnd (frnd (v * a) + frnd (p * frnd (1 - a)))) in (Some now, Some now)))"

definition ema_alpha :: "rat \<Rightarrow> series \<Rightarrow> series" where
  "ema_alpha a xs = (if 0 < a \<and> a \<le> 1 then scan (ema_alpha_step a) None xs else map (\<lambda>_. None) xs)"

datatype price_source = SRC_CLOSE | SRC_OPEN | SRC_HIGH | SRC_LOW | SRC_HL2 | SRC_HLC3 | SRC_OHLC4

definition source_value :: "price_source \<Rightarrow> price_bar \<Rightarrow> rat option" where
  "source_value s b = (case s of SRC_CLOSE \<Rightarrow> pb_close b | SRC_OPEN \<Rightarrow> pb_open b | SRC_HIGH \<Rightarrow> pb_high b | SRC_LOW \<Rightarrow> pb_low b
     | SRC_HL2 \<Rightarrow> median_price b | SRC_HLC3 \<Rightarrow> typical_price b
     | SRC_OHLC4 \<Rightarrow> (case ohlc b of None \<Rightarrow> None | Some (op, h, l, c) \<Rightarrow> Some (frnd (frnd (frnd (frnd (op + h) + l) + c) / 4))))"

definition source_series :: "price_source \<Rightarrow> price_bar list \<Rightarrow> series" where
  "source_series s = map (source_value s)"

subsection \<open>The indicators\<close>

text \<open>An indicator gives named columns.\<close>

definition gain_of :: "rat \<Rightarrow> rat" where "gain_of d = (if 0 < d then d else 0)"
definition loss_of :: "rat \<Rightarrow> rat" where "loss_of d = (if d < 0 then - d else 0)"

definition rsi_value :: "rat \<Rightarrow> rat \<Rightarrow> rat" where
  "rsi_value g l = (if l = 0 then (if 0 < g then 100 else 50) else frnd (100 - frnd (100 / frnd (1 + frnd (g / l)))))"

definition rsi_series :: "nat \<Rightarrow> series \<Rightarrow> series" where
  "rsi_series n xs = map2 (map2_opt rsi_value) (wilder n (map (map_option gain_of) (diff 1 xs))) (wilder n (map (map_option loss_of) (diff 1 xs)))"

definition rsi :: "price_source \<Rightarrow> nat \<Rightarrow> price_bar list \<Rightarrow> features" where
  "rsi s n bars = [(''rsi'', rsi_series n (source_series s bars))]"

definition clamp100 :: "rat \<Rightarrow> rat" where "clamp100 x = max 0 (min 100 x)"

definition stoch_value :: "rat \<Rightarrow> rat \<Rightarrow> rat \<Rightarrow> rat" where
  "stoch_value v h l = (let span = frnd (h - l) in clamp100 (if span = 0 then 50 else frnd (frnd (100 * frnd (v - l)) / span)))"

definition stoch :: "nat \<Rightarrow> series \<Rightarrow> series" where
  "stoch n xs = map2 (\<lambda>v hl. map2_opt (\<lambda>x (h, l). stoch_value x h l) v (map2_opt Pair (fst hl) (snd hl))) xs (zip (highest n xs) (lowest n xs))"

definition macd_line :: "nat \<Rightarrow> nat \<Rightarrow> series \<Rightarrow> series" where
  "macd_line fast slow xs = map2 (map2_opt (\<lambda>a b. frnd (a - b))) (ema fast xs) (ema slow xs)"

definition macd :: "price_source \<Rightarrow> nat \<Rightarrow> nat \<Rightarrow> nat \<Rightarrow> price_bar list \<Rightarrow> features" where
  "macd s fast slow k bars = (let m = macd_line fast slow (source_series s bars); sig = ema k m in
     [(''macd'', m), (''signal'', sig), (''histogram'', map2 (map2_opt (\<lambda>a b. frnd (a - b))) m sig)])"

definition fisher_step :: "(rat \<Rightarrow> rat) \<Rightarrow> rat \<times> rat \<Rightarrow> rat option \<times> rat option \<times> rat option \<Rightarrow> (rat \<times> rat) \<times> rat option" where
  "fisher_step lg = (\<lambda>(v0, f0) (p, h, l). case (p, h, l) of (Some p, Some h, Some l) \<Rightarrow>
       (let span = frnd (h - l); norm = (if span = 0 then 1 / 2 else frnd (frnd (p - l) / span));
          raw = frnd (frnd (frnd (66 / 100) * frnd (norm - 1 / 2)) + frnd (frnd (67 / 100) * v0));
          v = max (frnd (- 999 / 1000)) (min (frnd (999 / 1000)) raw);
          f = frnd (frnd (lg (frnd (frnd (1 + v) / frnd (1 - v))) / 2) + frnd (f0 / 2)) in ((v, f), Some f))
     | _ \<Rightarrow> ((v0, f0), None))"

definition fisher :: "(rat \<Rightarrow> rat) \<Rightarrow> nat \<Rightarrow> nat \<Rightarrow> price_bar list \<Rightarrow> features" where
  "fisher lg n offset bars = (let price = map median_price bars;
      f = scan (fisher_step lg) (0, 0) (zip price (zip (highest n price) (lowest n price))) in
     [(''fisher'', f), (''signal'', lagged (max 1 offset) f)])"

definition stoch_rsi :: "price_source \<Rightarrow> nat \<Rightarrow> nat \<Rightarrow> nat \<Rightarrow> nat \<Rightarrow> price_bar list \<Rightarrow> features" where
  "stoch_rsi s n m ks ds bars = (let raw = stoch m (rsi_series n (source_series s bars)); k = map (map_option clamp100) (sma ks raw) in
     [(''stoch_rsi'', raw), (''k'', k), (''d'', map (map_option clamp100) (sma ds k))])"

definition channel_index :: "rat \<Rightarrow> rat \<Rightarrow> rat \<Rightarrow> rat" where
  "channel_index ap esa d = (let denom = frnd (frnd (15 / 1000) * d) in if denom = 0 then 0 else frnd (frnd (ap - esa) / denom))"

definition wavetrend :: "nat \<Rightarrow> nat \<Rightarrow> nat \<Rightarrow> price_bar list \<Rightarrow> features" where
  "wavetrend n1 n2 k bars = (let ap = map typical_price bars; esa = ema n1 ap;
      d = ema n1 (map2 (map2_opt (\<lambda>a e. \<bar>frnd (a - e)\<bar>)) ap esa);
      ci = map2 (\<lambda>ae d. map2_opt (\<lambda>(a, e) d. channel_index a e d) ae d) (map2 (map2_opt Pair) ap esa) d;
      wt1 = ema n2 ci in [(''wt1'', wt1), (''wt2'', sma k wt1)])"

text \<open>The window of the last values ending at a bar, the bar included.\<close>

definition windows :: "nat \<Rightarrow> 'a list \<Rightarrow> 'a list list" where
  "windows n xs = scan (\<lambda>w x. (last_n n (w @ [x]), last_n n (w @ [x]))) [] xs"

definition cci_value :: "nat \<Rightarrow> rat option \<Rightarrow> series \<Rightarrow> rat option" where
  "cci_value n m w = (case (m, List.last w) of (Some m, Some v) \<Rightarrow>
       (if length w < n \<or> None \<in> set w then None
        else (let mad = frnd (py_sum (map (\<lambda>x. \<bar>frnd (the x - m)\<bar>) w) / of_nat n); denom = frnd (frnd (15 / 1000) * mad) in
          Some (if denom = 0 then 0 else frnd (frnd (v - m) / denom))))
     | _ \<Rightarrow> None)"

definition cci :: "price_source \<Rightarrow> nat \<Rightarrow> price_bar list \<Rightarrow> features" where
  "cci s n bars = (let src = source_series s bars in [(''cci'', map2 (cci_value n) (sma n src) (windows n src))])"

definition williams_value :: "rat \<Rightarrow> rat \<Rightarrow> rat \<Rightarrow> rat" where
  "williams_value h l c = (let span = frnd (h - l) in if span = 0 then - 50 else frnd (frnd (- 100 * frnd (h - c)) / span))"

definition williams_r :: "nat \<Rightarrow> price_bar list \<Rightarrow> features" where
  "williams_r n bars = [(''williams_r'', map2 (\<lambda>hl c. map2_opt (\<lambda>(h, l) c. williams_value h l c) hl c)
      (map2 (map2_opt Pair) (highest n (map pb_high bars)) (lowest n (map pb_low bars))) (map pb_close bars))]"

definition stc :: "price_source \<Rightarrow> nat \<Rightarrow> nat \<Rightarrow> nat \<Rightarrow> rat \<Rightarrow> price_bar list \<Rightarrow> features" where
  "stc s cycle fast slow factor bars = (let a = max (frnd (1 / 100)) (min 1 factor); k = stoch cycle (macd_line fast slow (source_series s bars)) in
     [(''stc'', ema_alpha a (stoch cycle (ema_alpha a k)))])"

definition sma_indicator :: "price_source \<Rightarrow> nat \<Rightarrow> price_bar list \<Rightarrow> features" where
  "sma_indicator s n bars = [(''sma'', sma n (source_series s bars))]"

definition ema_indicator :: "price_source \<Rightarrow> nat \<Rightarrow> price_bar list \<Rightarrow> features" where
  "ema_indicator s n bars = [(''ema'', ema n (source_series s bars))]"

definition atr_indicator :: "nat \<Rightarrow> price_bar list \<Rightarrow> features" where
  "atr_indicator n bars = [(''atr'', atr n bars), (''atr_percent'', map2 (\<lambda>a b. case (a, pb_close b) of
       (Some a, Some c) \<Rightarrow> if c = 0 then None else Some (frnd (frnd (100 * a) / c)) | _ \<Rightarrow> None) (atr n bars) bars)]"

definition bollinger :: "(rat \<Rightarrow> rat) \<Rightarrow> price_source \<Rightarrow> nat \<Rightarrow> rat \<Rightarrow> price_bar list \<Rightarrow> features" where
  "bollinger rt s n k bars = (let src = source_series s bars; mid = sma n src; both = map2 (map2_opt Pair) mid (stdev rt n src);
      up = map (map_option (\<lambda>(m, d). frnd (m + frnd (k * d)))) both; lo = map (map_option (\<lambda>(m, d). frnd (m - frnd (k * d)))) both;
      band = map2 (map2_opt Pair) up lo in
     [(''upper'', up), (''middle'', mid), (''lower'', lo),
      (''bandwidth'', map2 (\<lambda>m b. case (m, b) of (Some m, Some (u, l)) \<Rightarrow> if m = 0 then None else Some (frnd (frnd (100 * frnd (u - l)) / m)) | _ \<Rightarrow> None) mid band),
      (''percent_b'', map2 (\<lambda>v b. case (v, b) of (Some v, Some (u, l)) \<Rightarrow> if frnd (u - l) = 0 then None else Some (frnd (frnd (v - l) / frnd (u - l))) | _ \<Rightarrow> None) src band)])"

definition donchian :: "nat \<Rightarrow> price_bar list \<Rightarrow> features" where
  "donchian n bars = (let u = highest n (map pb_high bars); l = lowest n (map pb_low bars) in
     [(''upper'', u), (''lower'', l), (''middle'', map2 (map2_opt (\<lambda>a b. frnd (frnd (a + b) / 2))) u l)])"

record trend_state =
  ts_close :: "rat option"
  ts_upper :: rat
  ts_lower :: rat
  ts_up :: "bool option"

definition trend_init :: trend_state where
  "trend_init = \<lparr>ts_close = None, ts_upper = 0, ts_lower = 0, ts_up = None\<rparr>"

definition supertrend_step :: "rat \<Rightarrow> trend_state \<Rightarrow> price_bar \<times> rat option \<Rightarrow> trend_state \<times> (rat \<times> rat \<times> bool) option" where
  "supertrend_step mult st = (\<lambda>(b, a). case (pb_high b, pb_low b, pb_close b, a) of
     (Some h, Some l, Some c, Some a) \<Rightarrow> (let mid = frnd (frnd (h + l) / 2); bu = frnd (mid + frnd (mult * a)); bl = frnd (mid - frnd (mult * a));
        st1 = (case (ts_close st, ts_up st) of
          (Some p, Some up) \<Rightarrow> (let u = (if bu < ts_upper st \<or> ts_upper st < p then bu else ts_upper st);
              l = (if ts_lower st < bl \<or> p < ts_lower st then bl else ts_lower st) in
            st\<lparr>ts_upper := u, ts_lower := l, ts_up := Some (if up then \<not> c < l else u < c)\<rparr>)
        | _ \<Rightarrow> st\<lparr>ts_upper := bu, ts_lower := bl, ts_up := Some (mid \<le> c)\<rparr>) in
        (st1\<lparr>ts_close := Some c\<rparr>, Some (ts_upper st1, ts_lower st1, ts_up st1 = Some True)))
   | _ \<Rightarrow> (st\<lparr>ts_close := pb_close b\<rparr>, None))"

definition supertrend :: "nat \<Rightarrow> rat \<Rightarrow> price_bar list \<Rightarrow> features" where
  "supertrend n mult bars = (let out = scan (supertrend_step mult) trend_init (zip bars (atr n bars)) in
     [(''supertrend'', map (map_option (\<lambda>(u, l, up). if up then l else u)) out), (''direction'', map (map_option (\<lambda>(u, l, up). if up then 1 else - 1)) out),
      (''upper_band'', map (map_option fst) out), (''lower_band'', map (map_option (\<lambda>(u, l, up). l)) out)])"

definition movement_step :: "(rat \<times> rat) option \<Rightarrow> price_bar \<Rightarrow> (rat \<times> rat) option \<times> (rat \<times> rat) option" where
  "movement_step prev b = (case (pb_high b, pb_low b) of
     (Some h, Some l) \<Rightarrow> (Some (h, l), (case prev of None \<Rightarrow> None | Some (ph, pl) \<Rightarrow>
         (let up = frnd (h - ph); down = frnd (pl - l) in Some (if down < up \<and> 0 < up then up else 0, if up < down \<and> 0 < down then down else 0))))
   | _ \<Rightarrow> (None, None))"

definition directional :: "rat option \<Rightarrow> rat option \<Rightarrow> rat option \<Rightarrow> (rat \<times> rat) option" where
  "directional tr p m = (case (tr, p, m) of (Some tr, Some p, Some m) \<Rightarrow> if tr = 0 then None else Some (frnd (frnd (100 * p) / tr), frnd (frnd (100 * m) / tr)) | _ \<Rightarrow> None)"

definition dx_value :: "rat \<times> rat \<Rightarrow> rat" where
  "dx_value = (\<lambda>(p, m). let d = frnd (p + m) in if d = 0 then 0 else frnd (frnd (100 * \<bar>frnd (p - m)\<bar>) / d))"

definition adx :: "nat \<Rightarrow> price_bar list \<Rightarrow> features" where
  "adx n bars = (let dm = scan movement_step None bars; p = wilder n (map (map_option fst) dm); m = wilder n (map (map_option snd) dm);
      di = map2 (\<lambda>t pm. directional t (fst pm) (snd pm)) (wilder n (true_range bars)) (zip p m) in
     [(''adx'', wilder n (map (map_option dx_value) di)), (''plus_di'', map (map_option fst) di), (''minus_di'', map (map_option snd) di)])"

text \<open>Days and months in India, for the anchors of the volume-weighted price.\<close>

definition bar_ist_day :: "price_bar \<Rightarrow> int option" where
  "bar_ist_day b = map_option (\<lambda>u. (u + 19800000000) div 86400000000) (pb_utc b)"

definition month_index :: "int \<Rightarrow> int" where
  "month_index d = (let z = d + 719468; era = z div 146097; doe = z mod 146097;
     yoe = (doe - doe div 1460 + doe div 36524 - doe div 146096) div 365; doy = doe - (365 * yoe + yoe div 4 - yoe div 100);
     mp = (5 * doy + 2) div 153 in 12 * (yoe + era * 400) + mp)"

datatype vwap_anchor = BY_SESSION | BY_WEEK | BY_MONTH | ROLLING

definition anchor_reset :: "vwap_anchor \<Rightarrow> int option \<Rightarrow> int option \<Rightarrow> bool" where
  "anchor_reset a p c = (case (p, c) of (Some p, Some c) \<Rightarrow> (case a of BY_SESSION \<Rightarrow> p \<noteq> c | BY_WEEK \<Rightarrow> (p + 3) div 7 \<noteq> (c + 3) div 7
     | BY_MONTH \<Rightarrow> month_index p \<noteq> month_index c | ROLLING \<Rightarrow> False) | _ \<Rightarrow> False)"

definition anchored_step :: "vwap_anchor \<Rightarrow> nat \<Rightarrow> vwap_state \<times> int option \<Rightarrow> price_bar \<times> rat option
    \<Rightarrow> (vwap_state \<times> int option) \<times> (rat option \<times> rat option \<times> rat option)" where
  "anchored_step a n = (\<lambda>(st, day) (b, p). let today = bar_ist_day b;
      st1 = (if a \<noteq> ROLLING \<and> anchor_reset a day today then st\<lparr>vw_volume := 0, vw_value := 0\<rparr> else st);
      st2 = (case p of None \<Rightarrow> st1 | Some p \<Rightarrow> vwap_add (if a = ROLLING then n else 0) p (or_else (pb_volume b) 0) st1);
      now = (if p \<noteq> None \<and> 0 < vw_volume st2 then Some (frnd (vw_value st2 / vw_volume st2)) else vw_prev st) in
     ((st2\<lparr>vw_prev := (if now = None then vw_prev st else now)\<rparr>, today),
      (now, map2_opt (\<lambda>c v. frnd (c - v)) (pb_close b) now, map_option (\<lambda>v. case vw_prev st of None \<Rightarrow> 0 | Some q \<Rightarrow> frnd (v - q)) now)))"

definition vwap_indicator :: "vwap_anchor \<Rightarrow> nat \<Rightarrow> price_source \<Rightarrow> price_bar list \<Rightarrow> features" where
  "vwap_indicator a n s bars = (let out = scan (anchored_step a n) (vwap_init, None) (zip bars (source_series s bars)) in
     [(''vwap'', map fst out), (''distance_from_vwap'', map (\<lambda>x. fst (snd x)) out), (''vwap_slope'', map (\<lambda>x. snd (snd x)) out)])"

subsection \<open>Every series is causal\<close>

interpretation scan: causal_series "scan f s" by (rule causal_scan)
interpretation mapped: causal_series "map f" by (rule causal_map)

lemma causal_if: "causal_series f \<Longrightarrow> causal_series g \<Longrightarrow> causal_series (\<lambda>xs. if b then f xs else g xs)"
  by (cases b) simp_all

lemma sma_causal: "causal_series (sma n)"
  unfolding sma_def by (intro causal_if causal_nothing causal_scan)

interpretation sma: causal_series "sma n" by (rule sma_causal)

lemma ema_causal: "causal_series (ema n)"
  unfolding ema_def by (intro causal_if causal_nothing causal_scan)

interpretation ema: causal_series "ema n" by (rule ema_causal)

lemma wilder_causal: "causal_series (wilder n)"
  unfolding wilder_def by (intro causal_if causal_nothing causal_scan)

interpretation wilder: causal_series "wilder n" by (rule wilder_causal)

lemma stdev_causal: "causal_series (stdev rt n)"
  unfolding stdev_def by (intro causal_if causal_nothing causal_scan)

lemma extreme_causal: "causal_series (extreme f n)"
  unfolding extreme_def by (intro causal_if causal_nothing causal_scan)

interpretation extreme: causal_series "extreme f n" by (rule extreme_causal)

lemma linreg_causal: "causal_series (linreg_slope n)" "causal_series (linreg_value n)"
  unfolding linreg_slope_def linreg_value_def by (intro causal_if causal_nothing causal_scan)+

lemma ema_alpha_causal: "causal_series (ema_alpha a)"
  unfolding ema_alpha_def by (intro causal_if causal_nothing causal_scan)

lemma lagged_causal: "causal_series (lagged k)"
proof
  show "length (lagged k xs) = length xs" for xs :: "'a option list" by (simp add: lagged_def)
  show "lagged k (take n xs) = take n (lagged k xs)" for n and xs :: "'a option list"
    by (rule nth_equalityI) (auto simp: lagged_def)
qed

lemma windows_causal: "causal_series (windows n)"
  unfolding windows_def by (rule causal_scan)

lemma true_range_causal: "causal_series true_range"
  unfolding true_range_def by (rule causal_scan)

lemma vwap_causal: "causal_series (vwap n)"
  unfolding vwap_def by (rule causal_scan)

lemma source_causal: "causal_series (source_series s)"
  unfolding source_series_def by (rule causal_map)

lemmas causal_parts = sma_causal [THEN causal_comp] ema_causal [THEN causal_comp] wilder_causal [THEN causal_comp] stdev_causal [THEN causal_comp]
  extreme_causal [THEN causal_comp] linreg_causal [THEN causal_comp] ema_alpha_causal [THEN causal_comp] lagged_causal [THEN causal_comp]
  windows_causal [THEN causal_comp] true_range_causal [THEN causal_comp] vwap_causal [THEN causal_comp] source_causal [THEN causal_comp]
  causal_map_of causal_scan_of causal_zip causal_id

lemma diff_causal: "causal_series (diff k)"
proof (cases "k = 0")
  case False
  have "causal_series (\<lambda>xs. map2 (map2_opt (\<lambda>a b. frnd (a - b))) xs (lagged k xs))" by (intro causal_parts)
  then show ?thesis using False by (simp add: diff_def [abs_def])
qed (simp add: diff_def [abs_def] causal_nothing)

lemma rsi_causal: "causal_series (rsi_series n)"
  unfolding rsi_series_def by (intro causal_parts diff_causal [THEN causal_comp])

lemma stoch_causal: "causal_series (stoch n)"
  unfolding stoch_def highest_def lowest_def by (intro causal_parts)

lemma macd_line_causal: "causal_series (macd_line f s)"
  unfolding macd_line_def by (intro causal_parts)

lemma atr_causal: "causal_series (atr n)"
  unfolding atr_def by (intro causal_parts)

definition causal_features :: "(price_bar list \<Rightarrow> features) \<Rightarrow> bool" where
  "causal_features F \<longleftrightarrow> (\<forall>bars n. F (take n bars) = cut n (F bars)) \<and> (\<forall>bars. list_all (\<lambda>col. length col = length bars) (map snd (F bars)))"

lemma causal_features_Nil: "causal_features (\<lambda>bars. [])"
  by (simp add: causal_features_def cut_def)

lemma causal_features_Cons: "causal_series g \<Longrightarrow> causal_features F \<Longrightarrow> causal_features (\<lambda>bars. (n, g bars) # F bars)"
  by (simp add: causal_features_def causal_series_def cut_def)

lemmas features_intros = causal_features_Nil causal_features_Cons causal_parts diff_causal [THEN causal_comp] rsi_causal [THEN causal_comp]
  stoch_causal [THEN causal_comp] macd_line_causal [THEN causal_comp] atr_causal [THEN causal_comp]

text \<open>Sixteen of the registered indicators, with their resolved parameters.\<close>

datatype indicator = I_SMA price_source nat | I_EMA price_source nat | I_VWAP vwap_anchor nat price_source | I_SUPERTREND nat rat | I_ADX nat
  | I_DONCHIAN nat | I_RSI price_source nat | I_MACD price_source nat nat nat | I_FISHER nat nat | I_STOCH_RSI price_source nat nat nat nat
  | I_WAVETREND nat nat nat | I_CCI price_source nat | I_WILLIAMS nat | I_STC price_source nat nat nat rat | I_ATR nat | I_BOLLINGER price_source nat rat

fun calculate :: "(rat \<Rightarrow> rat) \<Rightarrow> (rat \<Rightarrow> rat) \<Rightarrow> indicator \<Rightarrow> price_bar list \<Rightarrow> features" where
  "calculate rt lg (I_SMA s n) = sma_indicator s n"
| "calculate rt lg (I_EMA s n) = ema_indicator s n"
| "calculate rt lg (I_VWAP a n s) = vwap_indicator a n s"
| "calculate rt lg (I_SUPERTREND n m) = supertrend n m"
| "calculate rt lg (I_ADX n) = adx n"
| "calculate rt lg (I_DONCHIAN n) = donchian n"
| "calculate rt lg (I_RSI s n) = rsi s n"
| "calculate rt lg (I_MACD s f l k) = macd s f l k"
| "calculate rt lg (I_FISHER n k) = fisher lg n k"
| "calculate rt lg (I_STOCH_RSI s n m k d) = stoch_rsi s n m k d"
| "calculate rt lg (I_WAVETREND a b k) = wavetrend a b k"
| "calculate rt lg (I_CCI s n) = cci s n"
| "calculate rt lg (I_WILLIAMS n) = williams_r n"
| "calculate rt lg (I_STC s c f l a) = stc s c f l a"
| "calculate rt lg (I_ATR n) = atr_indicator n"
| "calculate rt lg (I_BOLLINGER s n k) = bollinger rt s n k"

lemma indicator_columns_causal:
  "causal_features (sma_indicator s n)" "causal_features (ema_indicator s n)" "causal_features (vwap_indicator a n s)"
  "causal_features (supertrend n mult)" "causal_features (adx n)" "causal_features (donchian n)" "causal_features (rsi s n)"
  "causal_features (macd s f l k)"
  unfolding sma_indicator_def ema_indicator_def vwap_indicator_def supertrend_def adx_def donchian_def rsi_def macd_def Let_def highest_def lowest_def
  by (intro features_intros)+

lemma indicator_columns_causal2:
  "causal_features (fisher lg n k)" "causal_features (stoch_rsi s n m k d)" "causal_features (wavetrend a b k)" "causal_features (cci s n)"
  "causal_features (williams_r n)" "causal_features (stc s c f l al)" "causal_features (atr_indicator n)" "causal_features (bollinger rt s n w)"
  unfolding fisher_def stoch_rsi_def wavetrend_def cci_def williams_r_def stc_def atr_indicator_def bollinger_def Let_def highest_def lowest_def
  by (intro features_intros)+

lemma calculate_causal: "causal_features (calculate rt lg x)"
  by (cases x) (simp_all add: indicator_columns_causal indicator_columns_causal2)

subsection \<open>Rolling windows\<close>

definition scan_state :: "('s \<Rightarrow> 'a \<Rightarrow> 's \<times> 'b) \<Rightarrow> 's \<Rightarrow> 'a list \<Rightarrow> 's" where
  "scan_state f s xs = foldl (\<lambda>s x. fst (f s x)) s xs"

lemma scan_snoc: "scan f s (xs @ [x]) = scan f s xs @ [snd (f (scan_state f s xs) x)]"
  by (induction xs arbitrary: s) (auto simp: scan_state_def split: prod.split)

lemma scan_state_snoc: "scan_state f s (xs @ [x]) = fst (f (scan_state f s xs) x)"
  by (simp add: scan_state_def)

definition unbroken :: "series \<Rightarrow> rat list" where
  "unbroken xs = map the (rev (takeWhile (\<lambda>x. x \<noteq> None) (rev xs)))"

lemma unbroken_snoc: "unbroken (xs @ [x]) = (case x of None \<Rightarrow> [] | Some v \<Rightarrow> unbroken xs @ [v])"
  by (simp add: unbroken_def split: option.split)

lemma last_n_snoc_tl: "0 < n \<Longrightarrow> last_n n (last_n n xs @ [x]) = (if n < length (last_n n xs @ [x]) then tl (last_n n xs @ [x]) else last_n n xs @ [x])"
  by (cases "n \<le> length xs") (auto simp: last_n_def drop_Suc tl_drop split: if_splits)

lemma window_state: "0 < n \<Longrightarrow> scan_state (window_step n f) [] xs = last_n n (unbroken xs)"
proof (induction xs rule: rev_induct)
  case (snoc x xs)
  show ?case
  proof (cases x)
    case (Some v)
    then show ?thesis using snoc last_n_snoc_tl [OF snoc.prems, of "unbroken xs" v]
      by (simp add: scan_state_snoc unbroken_snoc window_step_def Let_def last_n_append_last_n)
  qed (simp add: scan_state_snoc unbroken_snoc window_step_def last_n_def)
qed (simp add: scan_state_def unbroken_def last_n_def)

lemma windows_snoc: "windows n (xs @ [x]) = windows n xs @ [last_n n (xs @ [x])]" if "0 < n"
proof -
  have K: "scan_state (\<lambda>w x. (last_n n (w @ [x]), last_n n (w @ [x]))) [] xs = last_n n xs" for xs :: "'a list"
  proof (induction xs rule: rev_induct)
    case (snoc x xs)
    then show ?case using that by (simp add: scan_state_snoc last_n_append_last_n)
  qed (simp add: scan_state_def last_n_def)
  show ?thesis unfolding windows_def scan_snoc K using that by (simp add: last_n_append_last_n)
qed

text \<open>The last values are unbroken exactly when the window is full and has no gap.\<close>

lemma unbroken_window:
  assumes "0 < n"
  shows "length (last_n n (unbroken xs)) = n \<longleftrightarrow> length (last_n n xs) = n \<and> None \<notin> set (last_n n xs)"
    "length (last_n n (unbroken xs)) = n \<Longrightarrow> last_n n (unbroken xs) = map the (last_n n xs)"
proof -
  define t where "t = rev (takeWhile (\<lambda>x. x \<noteq> None) (rev xs))"
  define h where "h = rev (dropWhile (\<lambda>x. x \<noteq> None) (rev xs))"
  have "rev (rev xs) = rev (takeWhile (\<lambda>x. x \<noteq> None) (rev xs) @ dropWhile (\<lambda>x. x \<noteq> None) (rev xs))"
    unfolding takeWhile_dropWhile_id ..
  then have xs: "xs = h @ t" unfolding rev_append t_def h_def rev_rev_ident .
  have t: "None \<notin> set t" by (auto simp: t_def dest: set_takeWhileD)
  have h: "h = [] \<or> List.last h = None"
    using hd_dropWhile [of "\<lambda>x. x \<noteq> None" "rev xs"] last_rev [of "dropWhile (\<lambda>x. x \<noteq> None) (rev xs)"]
    unfolding h_def by (metis rev.simps(1))
  have u: "unbroken xs = map the t" by (simp add: unbroken_def t_def)
  have l: "last_n n xs = last_n n t" if "n \<le> length t" using that by (simp add: xs last_n_def)
  have gap: "None \<in> set (last_n n xs)" if "length t < n" "n \<le> length xs"
  proof -
    have "h \<noteq> []" using that xs by auto
    moreover have "last_n n xs = drop (length xs - n) h @ t" using that by (simp add: last_n_def xs)
    moreover have "length xs - n < length h" using that xs by auto
    ultimately show ?thesis using h by (metis Un_iff last_drop last_in_set length_drop list.size(3) set_append zero_less_diff less_numeral_extra(3))
  qed
  show "length (last_n n (unbroken xs)) = n \<longleftrightarrow> length (last_n n xs) = n \<and> None \<notin> set (last_n n xs)"
  proof (cases "n \<le> length t")
    case True
    then show ?thesis using l t u set_last_n_subset [of n t] xs by auto
  next
    case False
    then show ?thesis using gap u by (auto simp: min_def)
  qed
  show "last_n n (unbroken xs) = map the (last_n n xs)" if "length (last_n n (unbroken xs)) = n"
    using that l u by (simp add: last_n_def drop_map)
qed

definition window_value :: "nat \<Rightarrow> (rat list \<Rightarrow> rat) \<Rightarrow> series \<Rightarrow> rat option" where
  "window_value n f w = (if length w = n \<and> None \<notin> set w then Some (f (map the w)) else None)"

text \<open>
  C29. The rolling extremes and fits, which keep a window that a gap empties, are what their names say: at every bar the function
  of the last values up to that bar, and nothing while there are fewer or one of them is missing.
\<close>

theorem rolling_is_windowed:
  "scan (window_step (Suc n) f) [] xs = map (window_value (Suc n) f) (windows (Suc n) xs)"
proof (induction xs rule: rev_induct)
  case (snoc x xs)
  have "snd (window_step (Suc n) f (scan_state (window_step (Suc n) f) [] xs) x) = window_value (Suc n) f (last_n (Suc n) (xs @ [x]))"
  proof (cases x)
    case None
    have "None \<in> set (last_n (Suc n) (xs @ [None]))" by (simp add: last_n_def)
    then show ?thesis using None by (simp add: window_step_def window_value_def)
  next
    case (Some v)
    have w: "snd (window_step (Suc n) f (scan_state (window_step (Suc n) f) [] xs) x)
        = (if length (last_n (Suc n) (unbroken (xs @ [x]))) = Suc n then Some (f (last_n (Suc n) (unbroken (xs @ [x])))) else None)"
      using Some last_n_snoc_tl [of "Suc n" "unbroken xs" v] window_state [of "Suc n" f xs]
      by (simp add: window_step_def Let_def unbroken_snoc last_n_append_last_n)
    show ?thesis unfolding w window_value_def
      using unbroken_window [of "Suc n" "xs @ [x]"] by simp
  qed
  then show ?case using snoc by (simp add: scan_snoc windows_snoc)
qed (simp add: windows_def)

subsection \<open>One feature map\<close>

text \<open>\<open>research/features.py\<close>: the outputs of the selected indicators merged, the first one to use a name keeping it.\<close>

definition complete_at :: "features \<Rightarrow> nat \<Rightarrow> bool" where
  "complete_at f i = list_all (\<lambda>col. i < length col \<and> col ! i \<noteq> None) (map snd f)"

definition warmup_of :: "features \<Rightarrow> nat \<times> bool" where
  "warmup_of f = (if f = [] then (0, False) else let n = foldr max (map length (map snd f)) 0 in
     case find (complete_at f) [0..<n] of Some i \<Rightarrow> (i, True) | None \<Rightarrow> (n, False))"

fun indicator_id :: "indicator \<Rightarrow> string" where
  "indicator_id (I_SMA _ _) = ''sma''"
| "indicator_id (I_EMA _ _) = ''ema''"
| "indicator_id (I_VWAP _ _ _) = ''vwap''"
| "indicator_id (I_SUPERTREND _ _) = ''supertrend''"
| "indicator_id (I_ADX _) = ''adx''"
| "indicator_id (I_DONCHIAN _) = ''donchian''"
| "indicator_id (I_RSI _ _) = ''rsi''"
| "indicator_id (I_MACD _ _ _ _) = ''macd''"
| "indicator_id (I_FISHER _ _) = ''fisher''"
| "indicator_id (I_STOCH_RSI _ _ _ _ _) = ''stoch_rsi''"
| "indicator_id (I_WAVETREND _ _ _) = ''wavetrend''"
| "indicator_id (I_CCI _ _) = ''cci''"
| "indicator_id (I_WILLIAMS _) = ''williams_r''"
| "indicator_id (I_STC _ _ _ _ _) = ''stc''"
| "indicator_id (I_ATR _) = ''atr''"
| "indicator_id (I_BOLLINGER _ _ _) = ''bollinger''"

text \<open>A selected indicator is what the registry and the resolution of its parameters make of it, or a refusal.\<close>

record indicator_spec =
  is_name :: string
  is_resolved :: "indicator option"

datatype build_error = NO_BARS | NO_INDICATORS | SPEC_FAILED string | NO_OUTPUTS
datatype build_warning = NEVER_DEFINED string | OUTPUT_IGNORED string string

record feature_build =
  fb_features :: features
  fb_owners :: "(string \<times> string) list"
  fb_resolved :: "string list"
  fb_warmup :: nat
  fb_warnings :: "build_warning list"
  fb_errors :: "build_error list"

definition empty_build :: feature_build where
  "empty_build = \<lparr>fb_features = [], fb_owners = [], fb_resolved = [], fb_warmup = 0, fb_warnings = [], fb_errors = []\<rparr>"

definition merge_output :: "string \<Rightarrow> string \<times> series \<Rightarrow> feature_build \<Rightarrow> feature_build" where
  "merge_output i out fb = (if fst out \<in> fst ` set (fb_features fb)
     then fb\<lparr>fb_warnings := fb_warnings fb @ [OUTPUT_IGNORED (fst out) i]\<rparr>
     else fb\<lparr>fb_features := fb_features fb @ [out], fb_owners := fb_owners fb @ [(fst out, i)]\<rparr>)"

definition add_outputs :: "string \<Rightarrow> features \<Rightarrow> feature_build \<Rightarrow> feature_build" where
  "add_outputs i outs fb = fold (merge_output i) outs
     (fb\<lparr>fb_warmup := max (fb_warmup fb) (fst (warmup_of outs)),
         fb_warnings := fb_warnings fb @ (if snd (warmup_of outs) then [] else [NEVER_DEFINED i]),
         fb_resolved := fb_resolved fb @ [i]\<rparr>)"

definition add_spec :: "(rat \<Rightarrow> rat) \<Rightarrow> (rat \<Rightarrow> rat) \<Rightarrow> price_bar list \<Rightarrow> indicator_spec \<Rightarrow> feature_build \<Rightarrow> feature_build" where
  "add_spec rt lg bars spec fb = (case is_resolved spec of
     None \<Rightarrow> fb\<lparr>fb_errors := fb_errors fb @ [SPEC_FAILED (is_name spec)]\<rparr>
   | Some x \<Rightarrow> add_outputs (indicator_id x) (calculate rt lg x bars) fb)"

definition build_features :: "(rat \<Rightarrow> rat) \<Rightarrow> (rat \<Rightarrow> rat) \<Rightarrow> price_bar list \<Rightarrow> indicator_spec list \<Rightarrow> feature_build" where
  "build_features rt lg bars specs = (if bars = [] then empty_build\<lparr>fb_errors := [NO_BARS]\<rparr>
     else if specs = [] then empty_build\<lparr>fb_errors := [NO_INDICATORS]\<rparr>
     else let fb = fold (add_spec rt lg bars) specs empty_build in
       if fb_features fb = [] \<and> fb_errors fb = [] then fb\<lparr>fb_errors := [NO_OUTPUTS]\<rparr> else fb)"

text \<open>The run of one configuration: its features, then the backtest over them.\<close>

datatype research_refusal = NO_FEATURES "build_error list" | RUN_FAILED run_failure

definition run_once ::
  "(rat \<Rightarrow> rat) \<Rightarrow> (rat \<Rightarrow> rat) \<Rightarrow> backtest_settings \<Rightarrow> price_bar list \<Rightarrow> indicator_spec list \<Rightarrow> json option \<Rightarrow> json option \<Rightarrow> research_refusal + bt_result" where
  "run_once rt lg b bars specs long short = (let fb = build_features rt lg bars specs in
     if fb_errors fb \<noteq> [] then Inl (NO_FEATURES (fb_errors fb))
     else case run_backtest b bars (fb_features fb) long short (fb_warmup fb) of Inl e \<Rightarrow> Inl (RUN_FAILED e) | Inr r \<Rightarrow> Inr r)"

subsection \<open>Features of a prefix\<close>

definition columns_of :: "nat \<Rightarrow> features \<Rightarrow> bool" where
  "columns_of n f = list_all (\<lambda>col. length col = n) (map snd f)"

lemma foldr_max_const: "xs \<noteq> [] \<Longrightarrow> list_all (\<lambda>x. x = n) xs \<Longrightarrow> foldr max xs 0 = (n::nat)"
proof (induction xs)
  case (Cons x xs)
  then show ?case by (cases "xs = []") auto
qed simp

lemma warmup_columns:
  "columns_of n f \<Longrightarrow> f \<noteq> [] \<Longrightarrow> warmup_of f = (case find (complete_at f) [0..<n] of Some i \<Rightarrow> (i, True) | None \<Rightarrow> (n, False))"
  using foldr_max_const [of "map length (map snd f)" n] by (simp add: warmup_of_def columns_of_def list_all_iff)

lemma complete_cut: "p \<le> n \<Longrightarrow> columns_of n f \<Longrightarrow> i < p \<Longrightarrow> complete_at (cut p f) i = complete_at f i"
  by (auto simp: complete_at_def cut_def columns_of_def list_all_iff)

lemma columns_cut: "p \<le> n \<Longrightarrow> columns_of n f \<Longrightarrow> columns_of p (cut p f)"
  by (auto simp: columns_of_def cut_def list_all_iff)

lemma find_snoc: "find P (xs @ [x]) = (case find P xs of None \<Rightarrow> if P x then Some x else None | Some y \<Rightarrow> Some y)"
  by (induction xs) auto

lemma find_upt: "find P [0..<n] = (if \<exists>i<n. P i then Some (Least P) else None)"
proof (induction n)
  case (Suc n)
  have "Least P = n" if "P n" "\<forall>i<n. \<not> P i" using that by (metis LeastI linorder_neqE_nat not_less_Least)
  then show ?case using Suc by (auto simp: find_snoc less_Suc_eq)
qed simp

lemma warmup_cut:
  assumes "p \<le> n" "columns_of n f" "f \<noteq> []"
  shows "fst (warmup_of (cut p f)) = min (fst (warmup_of f)) p"
proof -
  have f: "find (complete_at (cut p f)) [0..<p] = find (complete_at f) [0..<p]"
    by (intro find_cong) (auto simp: complete_cut [OF assms(1,2)])
  have L: "Least (complete_at f) < m" if "\<exists>i<m. complete_at f i" for m
    using that by (metis LeastI_ex le_less_trans Least_le)
  have "cut p f \<noteq> []" using assms(3) by (simp add: cut_def)
  then have "fst (warmup_of (cut p f)) = (case find (complete_at f) [0..<p] of Some i \<Rightarrow> i | None \<Rightarrow> p)"
    using warmup_columns [OF columns_cut [OF assms(1,2)]] f by (simp split: option.split)
  moreover have "fst (warmup_of f) = (case find (complete_at f) [0..<n] of Some i \<Rightarrow> i | None \<Rightarrow> n)"
    using warmup_columns [OF assms(2,3)] by (simp split: option.split)
  moreover have "p \<le> Least (complete_at f)" if "\<forall>i<p. \<not> complete_at f i" "complete_at f i" for i
    using that by (metis LeastI_ex not_less)
  moreover have "\<exists>i<n. complete_at f i" if "\<exists>i<p. complete_at f i"
    using that assms(1) by (meson less_le_trans)
  ultimately show ?thesis using L [of p] assms(1) unfolding find_upt
    by (cases "\<exists>i<p. complete_at f i"; cases "\<exists>i<n. complete_at f i") (simp_all, (metis min.absorb1 min.absorb2 less_imp_le)+)
qed

text \<open>A build over a prefix, of which only the warnings may differ.\<close>

definition build_agrees :: "nat \<Rightarrow> feature_build \<Rightarrow> feature_build \<Rightarrow> bool" where
  "build_agrees p fb' fb \<longleftrightarrow> fb_features fb' = cut p (fb_features fb) \<and> fb_owners fb' = fb_owners fb \<and> fb_resolved fb' = fb_resolved fb
     \<and> fb_warmup fb' = min (fb_warmup fb) p \<and> fb_errors fb' = fb_errors fb"

lemma fst_cut: "fst ` set (cut p f) = fst ` set f"
  by (force simp: cut_def)

lemma cut_Nil_iff: "cut p f = [] \<longleftrightarrow> f = []"
  by (simp add: cut_def)

lemma merge_agrees: "build_agrees p fb' fb \<Longrightarrow> build_agrees p (merge_output i (n, take p col) fb') (merge_output i (n, col) fb)"
  by (simp add: build_agrees_def merge_output_def fst_cut) (simp add: cut_def)

lemma merges_agree: "build_agrees p fb' fb \<Longrightarrow> build_agrees p (fold (merge_output i) (cut p outs) fb') (fold (merge_output i) outs fb)"
proof (induction outs arbitrary: fb fb')
  case (Cons a outs)
  then show ?case using merge_agrees [OF Cons.prems, of i "fst a" "snd a"] by (cases a) (simp add: cut_def)
qed (simp add: cut_def)

lemma calculate_columns: "columns_of (length bars) (calculate rt lg x bars)"
  using calculate_causal [of rt lg x] by (simp add: causal_features_def columns_of_def)

lemma calculate_nonempty: "calculate rt lg x bars \<noteq> []"
  by (cases x) (simp_all add: sma_indicator_def ema_indicator_def vwap_indicator_def supertrend_def adx_def donchian_def rsi_def macd_def
    fisher_def stoch_rsi_def wavetrend_def cci_def williams_r_def stc_def atr_indicator_def bollinger_def Let_def)

lemma calculate_take: "calculate rt lg x (take p bars) = cut p (calculate rt lg x bars)"
  using calculate_causal [of rt lg x] by (simp add: causal_features_def)

lemma spec_agrees:
  assumes "build_agrees p fb' fb" "p \<le> length bars"
  shows "build_agrees p (add_spec rt lg (take p bars) spec fb') (add_spec rt lg bars spec fb)"
proof (cases "is_resolved spec")
  case (Some x)
  have "fst (warmup_of (cut p (calculate rt lg x bars))) = min (fst (warmup_of (calculate rt lg x bars))) p"
    by (rule warmup_cut [OF assms(2) calculate_columns calculate_nonempty])
  then show ?thesis unfolding add_spec_def Some option.case add_outputs_def calculate_take
    by (intro merges_agree) (use assms(1) in \<open>simp add: build_agrees_def min_max_distrib1\<close>)
qed (use assms(1) in \<open>simp add: add_spec_def build_agrees_def\<close>)

lemma specs_agree:
  assumes "p \<le> length bars"
  shows "build_agrees p fb' fb \<Longrightarrow> build_agrees p (fold (add_spec rt lg (take p bars)) specs fb') (fold (add_spec rt lg bars) specs fb)"
  by (induction specs arbitrary: fb fb') (use spec_agrees [OF _ assms] in auto)

lemma build_of_prefix:
  assumes "p \<le> length bars" "0 < p"
  shows "build_agrees p (build_features rt lg (take p bars) specs) (build_features rt lg bars specs)"
proof -
  have "build_agrees p empty_build empty_build" by (simp add: build_agrees_def empty_build_def cut_def)
  from specs_agree [OF assms(1) this, of rt lg specs] assms show ?thesis
    by (auto simp: build_features_def Let_def build_agrees_def cut_Nil_iff empty_build_def)
qed

text \<open>The columns of a build are as long as the candles.\<close>

lemma build_columns: "columns_of (length bars) (fb_features (build_features rt lg bars specs))"
proof -
  have m: "columns_of n (fb_features (fold (merge_output i) outs fb))" if "columns_of n (fb_features fb)" "columns_of n outs" for n i outs fb
    using that by (induction outs arbitrary: fb) (auto simp: columns_of_def merge_output_def)
  have "columns_of (length bars) (fb_features (fold (add_spec rt lg bars) specs fb))" if "columns_of (length bars) (fb_features fb)" for fb
    using that
  proof (induction specs arbitrary: fb)
    case (Cons s specs)
    have "columns_of (length bars) (fb_features (add_spec rt lg bars s fb))"
      using m [OF _ calculate_columns] Cons.prems by (simp add: add_spec_def add_outputs_def split: option.split)
    then show ?case using Cons.IH by simp
  qed simp
  then show ?thesis by (auto simp: build_features_def Let_def empty_build_def columns_of_def)
qed

lemma mask_min: "length xs = q \<Longrightarrow> mask_signals a (min w q) xs = mask_signals a w xs"
  by (rule nth_equalityI) (auto simp: mask_nth)

lemma input_min_warmup: "backtest_input b bars f lr sr (min w (length bars)) = backtest_input b bars f lr sr w"
proof -
  have "mask_signals a (min w n) ls = mask_signals a w ls" if "evaluate_series r g n = Inr ls" for a r g n ls
    using that by (simp add: evaluate_series_iff mask_min)
  then show ?thesis
    by (cases "evaluate_series lr (price_features bars @ f) (length bars)"; cases "evaluate_series sr (price_features bars @ f) (length bars)")
       (fastforce simp: backtest_input_def Let_def split: option.split)+
qed

text \<open>
  C4. A research run cannot see the future, from the candles on: when the candles after the first \<open>p\<close> are taken away and every
  indicator is computed again on what is left, a configuration that ran over all candles is not refused, and its walk has
  taken the same trades at the same prices, holds the same position and has drawn the same equity curve over these \<open>p\<close> bars.
\<close>

theorem research_run_sees_no_future:
  "let q = min (Suc p) (length bars); fb = build_features rt lg bars specs; fb' = build_features rt lg (take q bars) specs in
   case backtest_input b bars (fb_features fb) lr sr (fb_warmup fb) of Inl _ \<Rightarrow> True
   | Inr d \<Rightarrow> (case backtest_input b (take q bars) (fb_features fb') lr sr (fb_warmup fb') of Inl _ \<Rightarrow> False
       | Inr d' \<Rightarrow> decided (sim_loop b d' q) = decided (sim_loop b d q))"
proof -
  define q fb where "q = min (Suc p) (length bars)" and "fb = build_features rt lg bars specs"
  show ?thesis
  proof (cases "backtest_input b bars (fb_features fb) lr sr (fb_warmup fb)")
    case (Inr d)
    have q: "q \<le> length bars" by (simp add: q_def)
    have W: "backtest_input b (take q bars) f lr sr (min w q) = backtest_input b (take q bars) f lr sr w" for f w
      using input_min_warmup [of b "take q bars" f lr sr w] q by simp
    have "backtest_input b (take q bars) (fb_features (build_features rt lg (take q bars) specs)) lr sr (fb_warmup (build_features rt lg (take q bars) specs))
        = Inr (input_cut q d)"
    proof (cases "bars = []")
      case True
      then show ?thesis using input_of_prefix [OF Inr q] by (simp add: fb_def build_features_def empty_build_def cut_def)
    next
      case False
      then have "0 < q" by (simp add: q_def)
      then show ?thesis using build_of_prefix [OF q, of rt lg specs] input_of_prefix [OF Inr q] W
        by (simp add: build_agrees_def fb_def)
    qed
    moreover have "agrees q (input_cut q d) d"
      using input_shape(1) [OF Inr] q by (intro agrees_cut) simp
    ultimately show ?thesis using Inr by (simp add: walk_agrees q_def fb_def)
  qed (simp add: fb_def)
qed

end
