(* ===== verification/Droid_Validation.thy ===== *)
theory Droid_Validation
  imports Droid_Indicators
begin

text \<open>
  \<open>backend/app/indicator_research/backtesting/validation.py\<close>: the audit that a run attaches to its result. The features are built
  again from prefixes of the candles and the rules evaluated on them, and what they give at the last bar of the prefix is
  compared with the run. The lemmas show that the audit of a run of the library never accuses it, and when it wrongly does.
\<close>

subsection \<open>Which prefixes\<close>

definition sample_candidates :: "nat \<Rightarrow> nat \<Rightarrow> nat list" where
  "sample_candidates n m = sort (remdups (filter (\<lambda>p. m \<le> p \<and> p \<le> n)
     [m, max m (n div 4), max m (n div 2), max m (3 * n div 4), max m (n - 1)]))"

definition prefix_samples :: "nat \<Rightarrow> nat \<Rightarrow> nat \<Rightarrow> nat list" where
  "prefix_samples n count m = (if n < m then [] else
     let points = sample_candidates n m in
     if length points \<le> count then points
     else let step = frnd (of_nat (length points) / of_nat count);
              chosen = map (\<lambda>i. points ! nat \<lfloor>frnd (of_nat i * step)\<rfloor>) [0..<count] in
          sort (remdups (if List.last chosen \<noteq> n then chosen @ [n] else chosen)))"

lemma candidates_subset: "set (sample_candidates n m) \<subseteq> {m..n}"
  by (auto simp: sample_candidates_def)

lemma candidates_short: "length (sample_candidates n m) \<le> 5"
proof -
  define xs where "xs = filter (\<lambda>p. m \<le> p \<and> p \<le> n) [m, max m (n div 4), max m (n div 2), max m (3 * n div 4), max m (n - 1)]"
  have "length (remdups xs) \<le> length xs" by (rule length_remdups_leq)
  also have "\<dots> \<le> 5" unfolding xs_def by (rule order_trans [OF length_filter_le]) simp
  finally show ?thesis by (simp add: sample_candidates_def xs_def)
qed

lemma samples_are_candidates: "5 \<le> count \<Longrightarrow> prefix_samples n count m = (if n < m then [] else sample_candidates n m)"
  using order_trans [OF candidates_short] by (simp add: prefix_samples_def Let_def)

text \<open>The full series is never among the samples of a series longer than the minimum, and every other series has one.\<close>

lemma samples_miss_last_bar: "5 \<le> count \<Longrightarrow> m < n \<Longrightarrow> 0 < m \<Longrightarrow> n \<notin> set (prefix_samples n count m)"
  by (auto simp: samples_are_candidates sample_candidates_def max_def split: if_splits)

lemma samples_exist: "5 \<le> count \<Longrightarrow> m \<le> n \<Longrightarrow> m \<in> set (prefix_samples n count m)"
  by (simp add: samples_are_candidates sample_candidates_def)

lemma samples_bounds: "5 \<le> count \<Longrightarrow> p \<in> set (prefix_samples n count m) \<Longrightarrow> m \<le> p \<and> p \<le> n"
  using candidates_subset [of n m] by (auto simp: samples_are_candidates split: if_splits)

subsection \<open>The comparison\<close>

definition TOLERANCE :: rat where "TOLERANCE = frnd (1 / 1000000000)"

definition close_enough :: "rat option \<Rightarrow> rat option \<Rightarrow> bool" where
  "close_enough x y = (case (x, y) of (None, None) \<Rightarrow> True
   | (Some a, Some b) \<Rightarrow> \<bar>frnd (a - b)\<bar> \<le> frnd (TOLERANCE + frnd (TOLERANCE * max \<bar>a\<bar> \<bar>b\<bar>)) | _ \<Rightarrow> False)"

lemma close_enough_refl: "close_enough x x"
proof -
  have "0 \<le> TOLERANCE" by (simp add: TOLERANCE_def flt.rnd_nonneg)
  then show ?thesis
    by (auto simp: close_enough_def flt.rnd_zero intro!: flt.rnd_nonneg add_nonneg_nonneg mult_nonneg_nonneg split: option.split)
qed

datatype mismatch = FEATURE_MISSING string nat | FEATURE_DIFFERS string nat "rat option" "rat option"
  | LONG_DIFFERS nat bool bool | SHORT_DIFFERS nat bool bool

record causality_report =
  cr_checked :: bool
  cr_samples :: "nat list"
  cr_checks :: nat
  cr_mismatches :: "mismatch list"

definition cr_causal :: "causality_report \<Rightarrow> bool" where
  "cr_causal c \<longleftrightarrow> cr_mismatches c = []"

definition note_mismatches :: "nat \<Rightarrow> mismatch list \<Rightarrow> causality_report \<Rightarrow> causality_report" where
  "note_mismatches n ms c = c\<lparr>cr_checks := cr_checks c + n, cr_mismatches := cr_mismatches c @ ms\<rparr>"

definition signal_mismatches :: "nat \<Rightarrow> bool \<Rightarrow> bool \<Rightarrow> bool \<Rightarrow> bool \<Rightarrow> mismatch list" where
  "signal_mismatches i full_long prefix_long full_short prefix_short =
     (if prefix_long \<noteq> full_long then [LONG_DIFFERS i full_long prefix_long] else [])
     @ (if prefix_short \<noteq> full_short then [SHORT_DIFFERS i full_short prefix_short] else [])"

subsection \<open>The rules alone\<close>

definition check_rule_prefix ::
  "rule_node option \<Rightarrow> rule_node option \<Rightarrow> features \<Rightarrow> bool list \<Rightarrow> bool list \<Rightarrow> nat \<Rightarrow> causality_report \<Rightarrow> rule_error + causality_report" where
  "check_rule_prefix lr sr f ls ss p c =
     rule_bind (evaluate_series lr (cut p f) p) (\<lambda>pl. rule_bind (evaluate_series sr (cut p f) p) (\<lambda>ps.
       Inr (note_mismatches 1 (signal_mismatches (p - 1) (ls ! (p - 1)) (pl ! (p - 1)) (ss ! (p - 1)) (ps ! (p - 1))) c)))"

fun check_prefixes :: "(nat \<Rightarrow> causality_report \<Rightarrow> rule_error + causality_report) \<Rightarrow> nat list \<Rightarrow> causality_report \<Rightarrow> rule_error + causality_report" where
  "check_prefixes f [] c = Inr c"
| "check_prefixes f (p # ps) c = rule_bind (f p c) (check_prefixes f ps)"

definition checkable :: "nat \<Rightarrow> nat \<Rightarrow> nat \<Rightarrow> nat \<Rightarrow> nat list" where
  "checkable n count m w = filter (\<lambda>p. w \<le> p - 1) (prefix_samples n count m)"

definition new_report :: "nat list \<Rightarrow> causality_report" where
  "new_report samples = \<lparr>cr_checked = (samples \<noteq> []), cr_samples = samples, cr_checks = 0, cr_mismatches = []\<rparr>"

definition check_rule_causality ::
  "rule_node option \<Rightarrow> rule_node option \<Rightarrow> features \<Rightarrow> bool list \<Rightarrow> bool list \<Rightarrow> nat \<Rightarrow> nat \<Rightarrow> rule_error + causality_report" where
  "check_rule_causality lr sr f ls ss count w = (let samples = checkable (length ls) count 12 w in
     check_prefixes (check_rule_prefix lr sr f ls ss) samples (new_report samples))"

subsection \<open>The features and the rules\<close>

definition feature_mismatches :: "features \<Rightarrow> features \<Rightarrow> nat \<Rightarrow> nat \<times> mismatch list" where
  "feature_mismatches f rebuilt i = fold (\<lambda>(n, col) (k, ms). case map_of rebuilt n of
       None \<Rightarrow> (k, ms @ [FEATURE_MISSING n i])
     | Some col' \<Rightarrow> if length col' \<le> i then (k, ms @ [FEATURE_MISSING n i])
         else (Suc k, if close_enough (col ! i) (col' ! i) then ms else ms @ [FEATURE_DIFFERS n i (col ! i) (col' ! i)])) f (0, [])"

definition check_feature_prefix ::
  "(price_bar list \<Rightarrow> features) \<Rightarrow> price_bar list \<Rightarrow> features \<Rightarrow> rule_node option \<Rightarrow> rule_node option \<Rightarrow> bool list \<Rightarrow> bool list
     \<Rightarrow> nat \<Rightarrow> causality_report \<Rightarrow> rule_error + causality_report" where
  "check_feature_prefix provider bars f lr sr ls ss p c = (let rebuilt = provider (take p bars); c1 = (case feature_mismatches f rebuilt (p - 1) of
       (k, ms) \<Rightarrow> note_mismatches k ms c) in
     if \<not> list_ex (\<lambda>x. x \<noteq> None) (concat (map snd (cut p rebuilt))) then Inr c1
     else rule_bind (evaluate_series lr (cut p rebuilt) p) (\<lambda>pl. rule_bind (evaluate_series sr (cut p rebuilt) p) (\<lambda>ps.
       Inr (note_mismatches 2 (signal_mismatches (p - 1) (ls ! (p - 1)) (pl ! (p - 1)) (ss ! (p - 1)) (ps ! (p - 1))) c1))))"

definition check_feature_causality ::
  "(price_bar list \<Rightarrow> features) \<Rightarrow> price_bar list \<Rightarrow> features \<Rightarrow> rule_node option \<Rightarrow> rule_node option \<Rightarrow> bool list \<Rightarrow> bool list
     \<Rightarrow> nat \<Rightarrow> nat \<Rightarrow> rule_error + causality_report" where
  "check_feature_causality provider bars f lr sr ls ss count w = (let samples = checkable (length bars) count 20 w in
     check_prefixes (check_feature_prefix provider bars f lr sr ls ss) samples (new_report samples))"

text \<open>The provider builds every column again, the prices first.\<close>

definition feature_provider :: "(rat \<Rightarrow> rat) \<Rightarrow> (rat \<Rightarrow> rat) \<Rightarrow> indicator_spec list \<Rightarrow> price_bar list \<Rightarrow> features" where
  "feature_provider rt lg specs bars = (let f = fb_features (build_features rt lg bars specs) in
     map (\<lambda>(n, col). (n, case map_of f n of None \<Rightarrow> col | Some col' \<Rightarrow> col')) (price_features bars)
     @ filter (\<lambda>x. fst x \<notin> set PRICE_COLUMNS) f)"

record validation_report =
  vr_no_lookahead :: bool
  vr_repaint_free :: bool
  vr_tested :: bool
  vr_structural :: "structural_issue list"
  vr_causality :: causality_report

definition validate_backtest ::
  "(price_bar list \<Rightarrow> features) \<Rightarrow> backtest_settings \<Rightarrow> price_bar list \<Rightarrow> features \<Rightarrow> rule_node option \<Rightarrow> rule_node option
     \<Rightarrow> bool list \<Rightarrow> bool list \<Rightarrow> bt_trade list \<Rightarrow> nat \<Rightarrow> rule_error + validation_report" where
  "validate_backtest provider b bars f lr sr ls ss ts w = (let (passed, issues) = structural_checks ts b w in
     rule_bind (check_feature_causality provider bars f lr sr ls ss 6 w) (\<lambda>c. let free = cr_checked c \<and> cr_causal c in
       Inr \<lparr>vr_no_lookahead = passed \<and> free, vr_repaint_free = free, vr_tested = cr_checked c, vr_structural = issues, vr_causality = c\<rparr>))"

text \<open>\<open>rules.is_normalized\<close>: whether a document looks as if it came out of the normalisation. A run that was accepted
  has a list of conditions; for any other document the check answers no or raises.\<close>

function (sequential) is_normalized :: "(string \<times> json) list \<Rightarrow> bool"
  and items_normalized :: "json list \<Rightarrow> bool" where
  "is_normalized raw = (map_of raw ''operator'' \<noteq> None \<and> (case map_of raw ''conditions'' of
     None \<Rightarrow> True | Some (JArr items) \<Rightarrow> items_normalized items | Some v \<Rightarrow> \<not> json_truthy v))"
| "items_normalized [] = True"
| "items_normalized (JObj raw # items) =
     ((if map_of raw ''conditions'' \<noteq> None then is_normalized raw else map_of raw ''left_kind'' \<noteq> None) \<and> items_normalized items)"
| "items_normalized (_ # items) = False"
  by pat_completeness auto
termination
  by (relation "measure (\<lambda>x. case x of Inl raw \<Rightarrow> size (JObj raw) | Inr items \<Rightarrow> size (JArr items))")
    (auto dest: size_map_of)

declare is_normalized.simps [simp del]

text \<open>The rule the audit evaluates. \<open>run_once\<close> hands it the documents it was given: one that does not look normalised is
  normalised on the fly; one that does is evaluated as it stands, which is the rule it is the canonical document of, if
  there is one. The evaluation of any other document that looks normalised is not modelled: \<open>None\<close>.\<close>

definition audit_rule :: "json option \<Rightarrow> (rule_error + rule_node option) option" where
  "audit_rule r = (case r of Some (JObj raw) \<Rightarrow>
       if is_normalized raw then (case normalize_rule r of
           Inr (Some g) \<Rightarrow> if node_json g = JObj raw then Some (Inr (Some g)) else None
         | _ \<Rightarrow> None)
       else Some (normalize_rule r)
     | _ \<Rightarrow> Some (normalize_rule r))"

text \<open>A run with its audit, as \<open>runner.run_once\<close> attaches it.\<close>

datatype audit_failure = RUN_REFUSED research_refusal | AUDIT_RAISED rule_error | AUDIT_AS_IT_STANDS

definition signal_flags :: "nat list \<Rightarrow> nat \<Rightarrow> bool list" where
  "signal_flags is n = map (\<lambda>i. i \<in> set is) [0..<n]"

definition audited_run ::
  "(rat \<Rightarrow> rat) \<Rightarrow> (rat \<Rightarrow> rat) \<Rightarrow> backtest_settings \<Rightarrow> price_bar list \<Rightarrow> indicator_spec list \<Rightarrow> json option \<Rightarrow> json option
     \<Rightarrow> audit_failure + bt_result \<times> validation_report" where
  "audited_run rt lg b bars specs long short = (case run_once rt lg b bars specs long short of Inl e \<Rightarrow> Inl (RUN_REFUSED e)
   | Inr r \<Rightarrow> let fb = build_features rt lg bars specs; n = length bars in
       (case (audit_rule long, audit_rule short) of
          (Some l, Some s) \<Rightarrow> (case rule_bind l (\<lambda>lr. rule_bind s (\<lambda>sr.
             validate_backtest (feature_provider rt lg specs) b bars (fb_features fb) lr sr (signal_flags (br_long r) n) (signal_flags (br_short r) n)
               (br_trades r) (fb_warmup fb))) of Inl e \<Rightarrow> Inl (AUDIT_RAISED e) | Inr v \<Rightarrow> Inr (r, v))
        | _ \<Rightarrow> Inl AUDIT_AS_IT_STANDS))"

text \<open>A document with a condition that has no \<open>left_kind\<close>, such as one a user writes, does not look normalised.\<close>

lemma items_with_plain:
  "JObj leaf \<in> set items \<Longrightarrow> map_of leaf ''left_kind'' = None \<Longrightarrow> map_of leaf ''conditions'' = None \<Longrightarrow> \<not> items_normalized items"
proof (induction items)
  case (Cons x items)
  then show ?case by (cases x) auto
qed simp

lemma user_rule_normalised:
  assumes "map_of raw ''conditions'' = Some (JArr items)" "JObj leaf \<in> set items"
    and "map_of leaf ''left_kind'' = None" "map_of leaf ''conditions'' = None"
  shows "audit_rule (Some (JObj raw)) = Some (normalize_rule (Some (JObj raw)))"
  using assms items_with_plain [OF assms(2-4)] by (simp add: audit_rule_def is_normalized.simps)

lemma canonical_rule_kept:
  assumes "normalize_rule (Some (node_json g)) = Inr (Some g)"
  shows "audit_rule (Some (node_json g)) = Some (Inr (Some g))"
proof -
  obtain raw where "node_json g = JObj raw" by (cases g) simp_all
  then show ?thesis using assms by (simp add: audit_rule_def)
qed

lemma audit_rule_run:
  "normalize_rule r = Inr x \<Longrightarrow> audit_rule r = None \<or> audit_rule r = Some (Inr x)"
  by (auto simp: audit_rule_def split: option.splits json.splits sum.splits if_splits)

subsection \<open>What the audit of a run of the library finds\<close>

lemma build_distinct: "distinct (map fst (fb_features (build_features rt lg bars specs)))"
proof -
  have m: "distinct (map fst (fb_features (fold (merge_output i) outs fb)))" if "distinct (map fst (fb_features fb))" for i outs fb
    using that by (induction outs arbitrary: fb) (auto simp: merge_output_def)
  have "distinct (map fst (fb_features (fold (add_spec rt lg bars) specs fb)))" if "distinct (map fst (fb_features fb))" for fb
    using that
  proof (induction specs arbitrary: fb)
    case (Cons s specs)
    have "distinct (map fst (fb_features (add_spec rt lg bars s fb)))"
      using m Cons.prems by (simp add: add_spec_def add_outputs_def split: option.split)
    then show ?case using Cons.IH by simp
  qed simp
  then show ?thesis by (auto simp: build_features_def Let_def empty_build_def)
qed

lemma price_names: "fst ` set (price_features bars) = set PRICE_COLUMNS"
  by (simp add: price_features_def PRICE_COLUMNS_def)

lemma provider_of_prefix:
  assumes "p \<le> length bars" "0 < p" "f = fb_features (build_features rt lg bars specs)" "\<forall>x \<in> set f. fst x \<notin> set PRICE_COLUMNS"
  shows "feature_provider rt lg specs (take p bars) = cut p (price_features bars @ f)"
proof -
  have f: "fb_features (build_features rt lg (take p bars) specs) = cut p f"
    using build_of_prefix [OF assms(1,2), of rt lg specs] assms(3) by (simp add: build_agrees_def)
  have n: "map_of (cut p f) n = None" if "n \<in> set PRICE_COLUMNS" for n
    using assms(4) that by (auto simp: map_of_eq_None_iff cut_def)
  have "filter (\<lambda>x. fst x \<notin> set PRICE_COLUMNS) (cut p f) = cut p f"
    using assms(4) by (intro filter_True) (auto simp: cut_def)
  moreover have "map (\<lambda>(n, col). (n, case map_of (cut p f) n of None \<Rightarrow> col | Some col' \<Rightarrow> col')) (price_features (take p bars)) = price_features (take p bars)"
    by (simp add: price_features_def n PRICE_COLUMNS_def)
  ultimately show ?thesis unfolding feature_provider_def f Let_def by (simp add: price_features_take)
qed

lemma features_reproduced:
  assumes "distinct (map fst f)" "columns_of n f" "0 < p" "p \<le> n" "\<forall>x \<in> set f. fst x \<notin> set PRICE_COLUMNS"
  shows "snd (feature_mismatches f (cut p (price_features bars @ f)) (p - 1)) = []"
proof -
  define rebuilt where "rebuilt = cut p (price_features bars @ f)"
  have m: "map_of rebuilt k = Some (take p col) \<and> length col = n" if "(k, col) \<in> set f" for k col
  proof -
    have "k \<notin> set PRICE_COLUMNS" using assms(5) that by force
    then have "map_of (price_features bars) k = None" by (simp add: map_of_eq_None_iff price_names)
    then show ?thesis using assms(1,2) that by (auto simp: rebuilt_def map_of_cut map_add_def columns_of_def list_all_iff)
  qed
  have step: "(case map_of rebuilt k of None \<Rightarrow> (c, ms @ [FEATURE_MISSING k (p - 1)])
     | Some col' \<Rightarrow> if length col' \<le> p - 1 then (c, ms @ [FEATURE_MISSING k (p - 1)])
         else (Suc c, if close_enough (col ! (p - 1)) (col' ! (p - 1)) then ms else ms @ [FEATURE_DIFFERS k (p - 1) (col ! (p - 1)) (col' ! (p - 1))])) = (Suc c, ms)"
    if "(k, col) \<in> set f" for k col c ms
    using m [OF that] assms(3,4) by (simp add: close_enough_refl min_def)
  have "snd (fold (\<lambda>(k, col) (c, ms). case map_of rebuilt k of None \<Rightarrow> (c, ms @ [FEATURE_MISSING k (p - 1)])
     | Some col' \<Rightarrow> if length col' \<le> p - 1 then (c, ms @ [FEATURE_MISSING k (p - 1)])
         else (Suc c, if close_enough (col ! (p - 1)) (col' ! (p - 1)) then ms else ms @ [FEATURE_DIFFERS k (p - 1) (col ! (p - 1)) (col' ! (p - 1))])) g (c, [])) = []"
    if "set g \<subseteq> set f" for g c
    using that
  proof (induction g arbitrary: c)
    case (Cons x g)
    obtain k col where x: "x = (k, col)" by (cases x)
    then have "(k, col) \<in> set f" "set g \<subseteq> set f" using Cons.prems by auto
    then show ?case using Cons.IH x by (simp only: fold.simps comp_apply prod.case step)
  qed simp
  from this [OF order_refl] show ?thesis unfolding feature_mismatches_def rebuilt_def .
qed

text \<open>What a report may hold: a signal the run suppressed because its side is switched off.\<close>

definition only_disabled :: "exit_settings \<Rightarrow> causality_report \<Rightarrow> bool" where
  "only_disabled x c \<longleftrightarrow> list_all (\<lambda>m. case m of LONG_DIFFERS _ full again \<Rightarrow> \<not> xs_allow_long x \<and> \<not> full \<and> again
     | SHORT_DIFFERS _ full again \<Rightarrow> \<not> xs_allow_short x \<and> \<not> full \<and> again | _ \<Rightarrow> False) (cr_mismatches c)"

lemma check_prefixes_keep:
  assumes "\<And>p c. p \<in> set ps \<Longrightarrow> P c \<Longrightarrow> \<exists>c'. f p c = Inr c' \<and> P c'" "P c"
  shows "\<exists>c'. check_prefixes f ps c = Inr c' \<and> P c'"
  using assms
proof (induction ps arbitrary: c)
  case (Cons p ps)
  obtain c' where c': "f p c = Inr c'" "P c'" using Cons.prems by (meson list.set_intros(1))
  have "\<And>q c. q \<in> set ps \<Longrightarrow> P c \<Longrightarrow> \<exists>c'. f q c = Inr c' \<and> P c'" using Cons.prems(1) by simp
  from Cons.IH [OF this c'(2)] show ?case using c'(1) by (simp add: rule_bind_def)
qed simp

lemma only_disabled_signals:
  assumes "only_disabled x c" "fl = (xs_allow_long x \<and> pl)" "fs = (xs_allow_short x \<and> ps)"
  shows "only_disabled x (note_mismatches k (signal_mismatches i fl pl fs ps) c)"
  using assms by (auto simp: only_disabled_def note_mismatches_def signal_mismatches_def)

lemma prefix_only_disabled:
  assumes d: "backtest_input b bars f lr sr w = Inr d" and f: "f = fb_features (build_features rt lg bars specs)"
    and names: "\<forall>x \<in> set f. fst x \<notin> set PRICE_COLUMNS" and p: "0 < p" "p \<le> length bars" "w \<le> p - 1"
    and c: "only_disabled (bs_exits b) c"
  shows "\<exists>c'. check_feature_prefix (feature_provider rt lg specs) bars f lr sr (si_long d) (si_short d) p c = Inr c' \<and> only_disabled (bs_exits b) c'"
proof -
  define pf where "pf = price_features bars @ f"
  obtain ls ss where e: "evaluate_series lr pf (length bars) = Inr ls" "evaluate_series sr pf (length bars) = Inr ss"
    and s: "si_long d = mask_signals (xs_allow_long (bs_exits b)) w ls" "si_short d = mask_signals (xs_allow_short (bs_exits b)) w ss"
    using d unfolding pf_def by (auto simp: backtest_input_def Let_def split: sum.splits option.splits)
  have l: "length ls = length bars" "length ss = length bars" using e by (simp_all add: evaluate_series_iff)
  have q: "p - 1 < length bars" "p - 1 < p" using p by auto
  have r: "feature_provider rt lg specs (take p bars) = cut p pf"
    unfolding pf_def by (rule provider_of_prefix [OF p(2,1) f names])
  have cc: "cut p (cut p pf) = cut p pf" by (auto simp: cut_def)
  have fm: "snd (feature_mismatches f (cut p pf) (p - 1)) = []" unfolding pf_def
    by (rule features_reproduced [OF build_distinct [of rt lg bars specs, folded f] build_columns [of bars rt lg specs, folded f] p(1,2) names])
  obtain k where k: "feature_mismatches f (cut p pf) (p - 1) = (k, [])" using fm by (metis prod.collapse)
  have c1: "only_disabled (bs_exits b) (note_mismatches k [] c)" using c by (simp add: only_disabled_def note_mismatches_def)
  have "only_disabled (bs_exits b) (note_mismatches 2 (signal_mismatches (p - 1) (si_long d ! (p - 1)) (take p ls ! (p - 1))
      (si_short d ! (p - 1)) (take p ss ! (p - 1))) (note_mismatches k [] c))"
    using q l p(3) by (intro only_disabled_signals [OF c1]) (simp_all add: s mask_nth)
  then show ?thesis using c1
    unfolding check_feature_prefix_def Let_def r k prod.case cc evaluate_series_cut [OF e(1) p(2)] evaluate_series_cut [OF e(2) p(2)]
    by (simp add: rule_bind_def)
qed

lemma feature_audit_only_disabled:
  assumes d: "backtest_input b bars f lr sr w = Inr d" and f: "f = fb_features (build_features rt lg bars specs)"
    and names: "\<forall>x \<in> set f. fst x \<notin> set PRICE_COLUMNS" and count: "5 \<le> count"
  shows "\<exists>c. check_feature_causality (feature_provider rt lg specs) bars f lr sr (si_long d) (si_short d) count w = Inr c \<and> only_disabled (bs_exits b) c"
  unfolding check_feature_causality_def Let_def
proof (rule check_prefixes_keep [where P = "only_disabled (bs_exits b)"])
  fix p c assume "p \<in> set (checkable (length bars) count 20 w)" and c: "only_disabled (bs_exits b) c"
  then have p: "p \<in> set (prefix_samples (length bars) count 20)" "w \<le> p - 1" unfolding checkable_def by simp_all
  have "0 < p" "p \<le> length bars" using samples_bounds [OF count p(1)] by simp_all
  then show "\<exists>c'. check_feature_prefix (feature_provider rt lg specs) bars f lr sr (si_long d) (si_short d) p c = Inr c' \<and> only_disabled (bs_exits b) c'"
    by (rule prefix_only_disabled [OF d f names _ _ p(2) c])
qed (simp add: new_report_def only_disabled_def)

lemma flags_true_at: "signal_flags (true_at bs) (length bs) = bs"
  by (rule nth_equalityI) (auto simp: signal_flags_def true_at_def)

lemma flags_none: "\<not> list_ex id bs \<Longrightarrow> signal_flags [] (length bs) = bs"
  by (rule nth_equalityI) (simp_all add: signal_flags_def list_ex_length)

lemma run_backtest_cases:
  assumes "run_backtest b bars f long short w = Inr r"
  obtains lr sr d where "input_refusal b bars f = None" "normalize_rule long = Inr lr" "normalize_rule short = Inr sr"
    "backtest_input b bars f lr sr w = Inr d" "signal_flags (br_long r) (length bars) = si_long d" "signal_flags (br_short r) (length bars) = si_short d"
proof -
  obtain lr sr d where *: "input_refusal b bars f = None" "normalize_rule long = Inr lr" "normalize_rule short = Inr sr"
      "backtest_input b bars f lr sr w = Inr d"
    using assms by (auto simp: run_backtest_def split: option.splits sum.splits)
  have l: "length (si_long d) = length bars" "length (si_short d) = length bars" using input_shape [OF *(4)] by auto
  have "signal_flags (br_long r) (length bars) = si_long d \<and> signal_flags (br_short r) (length bars) = si_short d"
    using assms * flags_none [of "si_long d"] flags_none [of "si_short d"] flags_true_at [of "si_long d"] flags_true_at [of "si_short d"] l
    by (auto simp: run_backtest_def split: if_splits prod.splits)
  then show thesis using that * by blast
qed

text \<open>
  C11. The audit of a run never accuses it of reading the future, with one exception: unless a rule document looks normalised
  without being the canonical document of the rule it means (\<open>AUDIT_AS_IT_STANDS\<close>: the audit then evaluates the document as
  it stands, and the engine its normal form), a run of the library never raises in its audit, passes the structural part,
  reproduces every feature at every sampled bar, and the only difference the audit may report is that the rule of a
  switched off side fires on a bar on which the run, as configured, suppressed it.
\<close>

theorem audit_accuses_only_disabled_sides:
  "case audited_run rt lg b bars specs long short of
     Inl (RUN_REFUSED e) \<Rightarrow> True
   | Inl (AUDIT_RAISED e) \<Rightarrow> False
   | Inl AUDIT_AS_IT_STANDS \<Rightarrow> audit_rule long = None \<or> audit_rule short = None
   | Inr (r, v) \<Rightarrow> vr_structural v = [] \<and> only_disabled (bs_exits b) (vr_causality v)
       \<and> vr_no_lookahead v = (vr_tested v \<and> cr_mismatches (vr_causality v) = [])"
proof (cases "run_once rt lg b bars specs long short")
  case (Inr r)
  define fb where "fb = build_features rt lg bars specs"
  have run: "run_backtest b bars (fb_features fb) long short (fb_warmup fb) = Inr r"
    using Inr by (auto simp: run_once_def Let_def fb_def split: if_splits sum.splits)
  from run_backtest_cases [OF run] obtain lr sr d where s: "input_refusal b bars (fb_features fb) = None" "normalize_rule long = Inr lr"
      "normalize_rule short = Inr sr" "backtest_input b bars (fb_features fb) lr sr (fb_warmup fb) = Inr d"
      "signal_flags (br_long r) (length bars) = si_long d" "signal_flags (br_short r) (length bars) = si_short d" .
  have "\<forall>x \<in> set (fb_features fb). fst x \<notin> set PRICE_COLUMNS"
    using s(1) by (auto simp: input_refusal_def list_ex_iff split: if_splits)
  from feature_audit_only_disabled [OF s(4) _ this, of rt lg specs 6] obtain c where
      c: "check_feature_causality (feature_provider rt lg specs) bars (fb_features fb) lr sr (si_long d) (si_short d) 6 (fb_warmup fb) = Inr c"
      "only_disabled (bs_exits b) c"
    by (auto simp: fb_def)
  have "structural_checks (br_trades r) b (fb_warmup fb) = (True, [])"
    using structural_audit_passes [where b = b and bars = bars and f = "fb_features fb" and w = "fb_warmup fb" and long = long and short = short] run by simp
  then show ?thesis using Inr audit_rule_run [OF s(2)] audit_rule_run [OF s(3)] s(5,6) c
    by (auto simp: audited_run_def Let_def fb_def rule_bind_def validate_backtest_def cr_causal_def)
qed (simp add: audited_run_def)

text \<open>With the long side switched off, a long rule that holds is reported as one that reads the future.\<close>

definition close_above :: rule_node where
  "close_above = Group L_AND [Leaf (demo_cond ''close'' OP_GT (Some (Literal (JNum 0))) None True)]"

lemma disabled_side_is_accused:
  "map_sum id cr_mismatches (check_feature_causality (feature_provider id id []) (replicate 20 (demo_bar 100 112 94 104)) [] (Some close_above) None
     (mask_signals False 0 (replicate 20 True)) (replicate 20 False) 6 0) = Inr [LONG_DIFFERS 19 False True]"
  by code_simp

end
