(* ===== verification/Droid_Metrics.thy ===== *)
theory Droid_Metrics
  imports Droid_Validation "HOL-Library.Sublist"
begin

text \<open>
  \<open>backend/app/indicator_research/backtesting/metrics.py\<close>: the figures computed from the trades and the equity curve of a run.
  Square roots and powers are arguments; a figure that is not defined is missing and its reason is noted. The lemmas show that
  the one-pass computations (drawdown, streaks, groups) are the quantities they are named after.
\<close>

subsection \<open>Averages\<close>

definition SESSION_MINUTES :: rat where "SESSION_MINUTES = 375"
definition TRADING_DAYS_PER_YEAR :: rat where "TRADING_DAYS_PER_YEAR = 250"

definition TIMEFRAME_MINUTES :: "(string, rat) dict" where
  "TIMEFRAME_MINUTES = [(''1m'', 1), (''2m'', 2), (''3m'', 3), (''5m'', 5), (''10m'', 10), (''15m'', 15), (''30m'', 30), (''60m'', 60),
     (''1h'', 60), (''1d'', SESSION_MINUTES), (''1D'', SESSION_MINUTES)]"

definition bars_per_year :: "string \<Rightarrow> rat" where
  "bars_per_year tf = (case (map_of TIMEFRAME_MINUTES tf, map_of TIMEFRAME_MINUTES (map to_lower tf)) of
     (Some m, _) \<Rightarrow> frnd (frnd (SESSION_MINUTES / m) * TRADING_DAYS_PER_YEAR)
   | (None, Some m) \<Rightarrow> frnd (frnd (SESSION_MINUTES / m) * TRADING_DAYS_PER_YEAR)
   | (None, None) \<Rightarrow> TRADING_DAYS_PER_YEAR)"

definition mean_value :: "rat list \<Rightarrow> rat option" where
  "mean_value xs = (if xs = [] then None else Some (frnd (py_sum xs / of_nat (length xs))))"

definition median_value :: "rat list \<Rightarrow> rat option" where
  "median_value xs = (if xs = [] then None else let s = sort xs; m = length s div 2 in
     if odd (length s) then Some (s ! m) else Some (frnd (frnd (s ! (m - 1) + s ! m) / 2)))"

definition sample_stdev :: "(rat \<Rightarrow> rat) \<Rightarrow> rat list \<Rightarrow> rat option" where
  "sample_stdev rt xs = (if length xs < 2 then None else let m = frnd (py_sum xs / of_nat (length xs)) in
     Some (rt (frnd (py_sum (map (\<lambda>v. frnd ((frnd (v - m)) ^ 2)) xs) / of_nat (length xs - 1)))))"

definition round_opt :: "rat option \<Rightarrow> nat \<Rightarrow> rat option" where
  "round_opt v n = map_option (round_places n) v"

subsection \<open>Drawdown\<close>

record drawdown_state =
  ds_peak :: rat
  ds_peak_index :: nat
  ds_pct :: rat
  ds_abs :: rat
  ds_from :: nat
  ds_trough :: nat

definition fall_from :: "rat \<Rightarrow> rat \<Rightarrow> rat" where
  "fall_from peak v = (if 0 < peak then frnd (frnd (peak - v) / peak) else 0)"

definition drawdown_step :: "nat \<times> rat \<Rightarrow> drawdown_state \<Rightarrow> drawdown_state" where
  "drawdown_step iv st = (case iv of (i, v) \<Rightarrow>
     let st1 = (if ds_peak st < v then st\<lparr>ds_peak := v, ds_peak_index := i\<rparr> else st) in
     if 0 < ds_peak st1 \<and> ds_pct st1 < fall_from (ds_peak st1) v
     then st1\<lparr>ds_pct := fall_from (ds_peak st1) v, ds_abs := frnd (ds_peak st1 - v), ds_from := ds_peak_index st1, ds_trough := i\<rparr> else st1)"

definition drawdown_init :: "rat list \<Rightarrow> drawdown_state" where
  "drawdown_init xs = \<lparr>ds_peak = (if xs = [] then 0 else hd xs), ds_peak_index = 0, ds_pct = 0, ds_abs = 0, ds_from = 0, ds_trough = 0\<rparr>"

definition drawdown_walk :: "rat list \<Rightarrow> drawdown_state" where
  "drawdown_walk xs = fold drawdown_step (enumerate 0 xs) (drawdown_init xs)"

definition max_drawdown :: "rat list \<Rightarrow> rat \<times> rat \<times> nat \<times> nat" where
  "max_drawdown xs = (let st = drawdown_walk xs in (ds_pct st, ds_abs st, ds_from st, ds_trough st))"

subsection \<open>Streaks\<close>

definition streak_step :: "rat \<Rightarrow> int \<times> int \<times> int \<Rightarrow> int \<times> int \<times> int" where
  "streak_step pnl s = (case s of (win, loss, run) \<Rightarrow>
     if 0 < pnl then let r = (if 0 \<le> run then run + 1 else 1) in (max win r, loss, r)
     else if pnl < 0 then let r = (if run \<le> 0 then run - 1 else -1) in (win, max loss (- r), r)
     else (win, loss, 0))"

definition streaks :: "bt_trade list \<Rightarrow> int \<times> int" where
  "streaks ts = (case fold streak_step (map tr_net ts) (0, 0, 0) of (w, l, r) \<Rightarrow> (w, l))"

subsection \<open>The block of a run\<close>

datatype undefined_metric = INFINITE_PROFIT_FACTOR | NO_CLOSED_PNL | NO_LOSING_TRADES | NO_EQUITY_VARIANCE | NO_NEGATIVE_RETURNS | NO_ADVERSE_EXCURSION

record bt_metrics =
  mt_trades :: nat
  mt_wins :: nat
  mt_losses :: nat
  mt_flat :: nat
  mt_win_rate :: "rat option"
  mt_initial :: rat
  mt_final :: rat
  mt_net :: rat
  mt_return_pct :: "rat option"
  mt_before_costs :: rat
  mt_total_costs :: rat
  mt_cost_drag :: "rat option"
  mt_gross_profit :: rat
  mt_gross_loss :: rat
  mt_profit_factor :: "rat option"
  mt_expectancy :: "rat option"
  mt_avg_win :: "rat option"
  mt_avg_loss :: "rat option"
  mt_payoff :: "rat option"
  mt_largest_win :: rat
  mt_largest_loss :: rat
  mt_avg_bars :: "rat option"
  mt_median_bars :: "rat option"
  mt_exposure :: "rat option"
  mt_dd_pct :: rat
  mt_dd_abs :: rat
  mt_dd_bars :: nat
  mt_sharpe :: "rat option"
  mt_sortino :: "rat option"
  mt_annual_return :: "rat option"
  mt_calmar :: "rat option"
  mt_win_streak :: int
  mt_loss_streak :: int
  mt_avg_mae :: "rat option"
  mt_avg_mfe :: "rat option"
  mt_mfe_mae :: "rat option"
  mt_longs :: nat
  mt_shorts :: nat
  mt_bars :: nat
  mt_undefined :: "undefined_metric list"

definition wins_of :: "bt_trade list \<Rightarrow> bt_trade list" where "wins_of = filter (\<lambda>t. 0 < tr_net t)"
definition losses_of :: "bt_trade list \<Rightarrow> bt_trade list" where "losses_of = filter (\<lambda>t. tr_net t < 0)"
definition flats_of :: "bt_trade list \<Rightarrow> bt_trade list" where "flats_of = filter (\<lambda>t. tr_net t = 0)"

definition profit_factor_of :: "rat \<Rightarrow> rat \<Rightarrow> rat option \<times> undefined_metric list" where
  "profit_factor_of gain loss = (if 0 < loss then (Some (frnd (gain / loss)), [])
     else if 0 < gain then (None, [INFINITE_PROFIT_FACTOR]) else (None, [NO_CLOSED_PNL]))"

definition payoff_of :: "rat option \<Rightarrow> rat option \<Rightarrow> bool \<Rightarrow> rat option \<times> undefined_metric list" where
  "payoff_of win loss any_loss = (case (win, loss) of
     (Some w, Some l) \<Rightarrow> if l \<noteq> 0 then (Some (frnd (w / l)), []) else (None, if any_loss then [] else [NO_LOSING_TRADES])
   | (Some w, None) \<Rightarrow> (None, if any_loss then [] else [NO_LOSING_TRADES]) | _ \<Rightarrow> (None, []))"

fun bar_returns :: "rat list \<Rightarrow> rat list" where
  "bar_returns (p # c # es) = (if 0 < p then frnd (frnd (c / p) - 1) # bar_returns (c # es) else bar_returns (c # es))"
| "bar_returns _ = []"

definition ratio_of :: "(rat \<Rightarrow> rat) \<Rightarrow> rat \<Rightarrow> rat option \<Rightarrow> rat option \<Rightarrow> rat option" where
  "ratio_of rt yearly m sd = (case (m, sd) of (Some a, Some s) \<Rightarrow> if 0 < s then Some (frnd (frnd (a / s) * rt yearly)) else None | _ \<Rightarrow> None)"

definition annual_return :: "(rat \<Rightarrow> rat \<Rightarrow> rat) \<Rightarrow> nat \<Rightarrow> rat \<Rightarrow> rat \<Rightarrow> rat \<Rightarrow> rat option" where
  "annual_return pw bars yearly initial final = (if 0 < bars \<and> 0 < initial \<and> 0 < final then
     let years = (if yearly \<noteq> 0 then frnd (of_nat bars / yearly) else 0) in
     if 0 < years then Some (frnd (frnd (pw (frnd (final / initial)) (frnd (1 / years)) - 1) * 100)) else None else None)"

definition extreme_of :: "(rat \<Rightarrow> rat \<Rightarrow> rat) \<Rightarrow> rat list \<Rightarrow> rat" where
  "extreme_of f xs = (case xs of [] \<Rightarrow> 0 | y # ys \<Rightarrow> foldl f y ys)"

definition excursion_ratio :: "rat option \<Rightarrow> rat option \<Rightarrow> rat option \<times> undefined_metric list" where
  "excursion_ratio mae mfe = (let live = (\<lambda>v. case v of None \<Rightarrow> False | Some x \<Rightarrow> x \<noteq> 0) in
     if live mae \<and> live mfe then (Some (round_places 4 (frnd (the mfe / the mae))), [])
     else (None, if live mae then [] else [NO_ADVERSE_EXCURSION]))"

definition compute_metrics :: "(rat \<Rightarrow> rat) \<Rightarrow> (rat \<Rightarrow> rat \<Rightarrow> rat) \<Rightarrow> bt_trade list \<Rightarrow> equity_point list \<Rightarrow> rat \<Rightarrow> string \<Rightarrow> nat \<Rightarrow> bt_metrics" where
  "compute_metrics rt pw ts curve initial tf bars = (let
     final = (if curve = [] then initial else ep_equity (List.last curve));
     net = frnd (final - initial);
     gain = py_sum (map tr_net (wins_of ts)); loss = py_sum (map (\<lambda>t. - tr_net t) (losses_of ts));
     costs = py_sum (map tr_costs ts);
     (factor, u1) = profit_factor_of gain loss;
     win = mean_value (map tr_net (wins_of ts)); lose = mean_value (map (\<lambda>t. - tr_net t) (losses_of ts));
     (payoff, u2) = payoff_of win lose (losses_of ts \<noteq> []);
     held = sum_list (map tr_bars ts);
     exposure = (if 0 < bars \<and> ts \<noteq> [] then Some (frnd (frnd (100 * of_nat (min held bars)) / of_nat bars)) else None);
     rets = bar_returns (map ep_equity curve);
     yearly = bars_per_year tf;
     sd = sample_stdev rt rets;
     sharpe = ratio_of rt yearly (mean_value rets) sd;
     u3 = (if sharpe = None \<and> sd = Some 0 then [NO_EQUITY_VARIANCE] else []);
     down = filter (\<lambda>r. r < 0) rets;
     sortino = ratio_of rt yearly (mean_value rets) (sample_stdev rt down);
     u4 = (if sortino = None \<and> down = [] then [NO_NEGATIVE_RETURNS] else []);
     (dd, dd_abs, dd_from, dd_to) = max_drawdown (map ep_equity curve);
     annual = annual_return pw bars yearly initial final;
     calmar = (case annual of Some a \<Rightarrow> if 0 < dd then Some (frnd (a / frnd (dd * 100))) else None | None \<Rightarrow> None);
     (streak_win, streak_loss) = streaks ts;
     lengths = map (\<lambda>t. of_nat (tr_bars t)) ts;
     mae = round_opt (mean_value (map tr_mae_pct ts)) 4; mfe = round_opt (mean_value (map tr_mfe_pct ts)) 4;
     (ratio, u5) = excursion_ratio mae mfe;
     percent = (\<lambda>x. if initial \<noteq> 0 then Some (round_places 4 (frnd (frnd (100 * x) / initial))) else None)
   in \<lparr>mt_trades = length ts, mt_wins = length (wins_of ts), mt_losses = length (losses_of ts), mt_flat = length (flats_of ts),
       mt_win_rate = (if ts = [] then None else Some (round_places 2 (frnd (frnd (100 * of_nat (length (wins_of ts))) / of_nat (length ts))))),
       mt_initial = round_places 2 initial, mt_final = round_places 2 final, mt_net = round_places 2 net, mt_return_pct = percent net,
       mt_before_costs = round_places 2 (py_sum (map tr_gross ts)), mt_total_costs = round_places 2 costs, mt_cost_drag = percent costs,
       mt_gross_profit = round_places 2 gain, mt_gross_loss = round_places 2 loss, mt_profit_factor = round_opt factor 4,
       mt_expectancy = round_opt (mean_value (map tr_net ts)) 2, mt_avg_win = round_opt win 2, mt_avg_loss = round_opt lose 2,
       mt_payoff = round_opt payoff 4, mt_largest_win = round_places 2 (extreme_of max (map tr_net ts)),
       mt_largest_loss = round_places 2 (extreme_of min (map tr_net ts)), mt_avg_bars = round_opt (mean_value lengths) 2,
       mt_median_bars = round_opt (median_value lengths) 2, mt_exposure = round_opt exposure 2,
       mt_dd_pct = round_places 4 (frnd (100 * dd)), mt_dd_abs = round_places 2 dd_abs, mt_dd_bars = dd_to - dd_from,
       mt_sharpe = round_opt sharpe 4, mt_sortino = round_opt sortino 4, mt_annual_return = round_opt annual 4, mt_calmar = round_opt calmar 4,
       mt_win_streak = streak_win, mt_loss_streak = streak_loss, mt_avg_mae = mae, mt_avg_mfe = mfe, mt_mfe_mae = ratio,
       mt_longs = length (filter (\<lambda>t. tr_side t = LONG_SIDE) ts), mt_shorts = length (filter (\<lambda>t. tr_side t = SHORT_SIDE) ts),
       mt_bars = bars, mt_undefined = u1 @ u2 @ u3 @ u4 @ u5\<rparr>)"

subsection \<open>Groups\<close>

definition add_to_bucket :: "('t \<Rightarrow> string) \<Rightarrow> 't \<Rightarrow> (string, 't list) dict \<Rightarrow> (string, 't list) dict" where
  "add_to_bucket key t d = AList.update (key t) ((case map_of d (key t) of None \<Rightarrow> [] | Some g \<Rightarrow> g) @ [t]) d"

definition buckets_of :: "('t \<Rightarrow> string) \<Rightarrow> 't list \<Rightarrow> (string, 't list) dict" where
  "buckets_of key ts = fold (add_to_bucket key) ts []"

record group_block =
  gm_trades :: nat
  gm_win_rate :: "rat option"
  gm_net :: rat
  gm_avg :: "rat option"
  gm_factor :: "rat option"
  gm_bars :: "rat option"
  gm_costs :: rat
  gm_mae :: "rat option"
  gm_mfe :: "rat option"
  gm_low :: bool

definition group_block_of :: "bt_trade list \<Rightarrow> group_block" where
  "group_block_of g = (let gain = py_sum (map tr_net (wins_of g)); loss = py_sum (map (\<lambda>t. - tr_net t) (losses_of g)) in
     \<lparr>gm_trades = length g,
      gm_win_rate = (if g = [] then None else Some (round_places 2 (frnd (frnd (100 * of_nat (length (wins_of g))) / of_nat (length g))))),
      gm_net = round_places 2 (py_sum (map tr_net g)), gm_avg = round_opt (mean_value (map tr_net g)) 2,
      gm_factor = (if 0 < loss then Some (round_places 4 (frnd (gain / loss))) else None),
      gm_bars = round_opt (mean_value (map (\<lambda>t. of_nat (tr_bars t)) g)) 2, gm_costs = round_places 2 (py_sum (map tr_costs g)),
      gm_mae = round_opt (mean_value (map tr_mae_pct g)) 4, gm_mfe = round_opt (mean_value (map tr_mfe_pct g)) 4, gm_low = length g < 20\<rparr>)"

definition group_metrics :: "(bt_trade \<Rightarrow> string) \<Rightarrow> bt_trade list \<Rightarrow> (string, group_block) dict" where
  "group_metrics key ts = sort_key fst (map (\<lambda>(n, g). (n, group_block_of g)) (buckets_of key ts))"

subsection \<open>Streaks are the longest runs\<close>

definition longest_run :: "('t \<Rightarrow> bool) \<Rightarrow> 't list \<Rightarrow> nat" where
  "longest_run P xs = Max (length ` set (filter (list_all P) (sublists xs)))"

definition trailing_run :: "('t \<Rightarrow> bool) \<Rightarrow> 't list \<Rightarrow> nat" where
  "trailing_run P xs = length (takeWhile P (rev xs))"

lemma trailing_snoc: "trailing_run P (xs @ [x]) = (if P x then Suc (trailing_run P xs) else 0)"
  by (simp add: trailing_run_def)

lemma suffix_run: "suffix ys xs \<Longrightarrow> list_all P ys \<Longrightarrow> length ys \<le> trailing_run P xs"
proof -
  assume "suffix ys xs" "list_all P ys"
  then obtain zs where "rev xs = rev ys @ zs" "\<forall>y \<in> set (rev ys). P y"
    by (auto simp: suffix_def list_all_iff)
  then have "takeWhile P (rev xs) = rev ys @ takeWhile P zs" by (metis takeWhile_append2)
  then show ?thesis by (simp add: trailing_run_def)
qed

lemma trailing_suffix: "\<exists>ys. suffix ys xs \<and> list_all P ys \<and> length ys = trailing_run P xs"
proof (intro exI conjI)
  show "suffix (rev (takeWhile P (rev xs))) xs"
    by (metis rev_rev_ident suffix_to_prefix takeWhile_is_prefix)
  show "list_all P (rev (takeWhile P (rev xs)))" by (auto simp: list_all_iff dest: set_takeWhileD)
qed (simp add: trailing_run_def)

lemma longest_ge: "sublist ys xs \<Longrightarrow> list_all P ys \<Longrightarrow> length ys \<le> longest_run P xs"
  unfolding longest_run_def by (intro Max_ge finite_imageI finite_set imageI) simp

lemma longest_attained: "\<exists>ys. sublist ys xs \<and> list_all P ys \<and> length ys = longest_run P xs"
proof -
  have "longest_run P xs \<in> length ` set (filter (list_all P) (sublists xs))"
    unfolding longest_run_def by (rule Max_in [OF finite_imageI [OF finite_set]]) (auto intro!: exI [of _ "[]"])
  then show ?thesis by auto
qed

lemma longest_snoc: "longest_run P (xs @ [x]) = max (longest_run P xs) (trailing_run P (xs @ [x]))"
proof (rule antisym)
  obtain ys where ys: "sublist ys (xs @ [x])" "list_all P ys" "length ys = longest_run P (xs @ [x])"
    using longest_attained by blast
  then consider "suffix ys (xs @ [x])" | "sublist ys xs" by (auto simp: sublist_snoc)
  then show "longest_run P (xs @ [x]) \<le> max (longest_run P xs) (trailing_run P (xs @ [x]))"
  proof cases
    case 1
    then show ?thesis using suffix_run ys by (metis max.coboundedI2)
  next
    case 2
    then show ?thesis using longest_ge ys by (metis max.coboundedI1)
  qed
  obtain zs where zs: "sublist zs xs" "list_all P zs" "length zs = longest_run P xs" using longest_attained by blast
  obtain us where us: "suffix us (xs @ [x])" "list_all P us" "length us = trailing_run P (xs @ [x])" using trailing_suffix by blast
  have "sublist zs (xs @ [x])" using zs(1) by (simp add: sublist_snoc)
  then show "max (longest_run P xs) (trailing_run P (xs @ [x])) \<le> longest_run P (xs @ [x])"
    using longest_ge zs(2,3) us suffix_imp_sublist by (metis max.boundedI)
qed

lemma longest_Nil: "longest_run P [] = 0"
  using longest_attained [of "[]" P] by auto

definition streak_state :: "rat list \<Rightarrow> int \<times> int \<times> int" where
  "streak_state ps = (int (longest_run (\<lambda>p. 0 < p) ps), int (longest_run (\<lambda>p. p < 0) ps),
     int (trailing_run (\<lambda>p. 0 < p) ps) - int (trailing_run (\<lambda>p. p < 0) ps))"

lemma one_trailing: "trailing_run (\<lambda>p. 0 < (p::rat)) ps = 0 \<or> trailing_run (\<lambda>p. p < 0) ps = 0"
  by (cases ps rule: rev_cases) (auto simp: trailing_snoc trailing_run_def)

lemma streak_walk: "fold streak_step ps (0, 0, 0) = streak_state ps"
proof (induction ps rule: rev_induct)
  case (snoc p ps)
  consider "0 < p" | "p < 0" | "p = 0" by fastforce
  then show ?case
    using snoc one_trailing [of ps]
    by cases (auto simp: streak_step_def streak_state_def longest_snoc trailing_snoc Let_def of_nat_max)
qed (simp add: streak_state_def longest_Nil trailing_run_def)

lemma longest_map: "longest_run P (map f xs) = longest_run (P \<circ> f) xs"
  by (induction xs rule: rev_induct) (simp_all add: longest_Nil longest_snoc trailing_run_def rev_map takeWhile_map comp_def)

text \<open>
  C33. The one-pass count of streaks is right: the reported numbers are the lengths of the longest runs of consecutive trades
  that all won, and that all lost; a trade that breaks even ends both.
\<close>

theorem streaks_are_longest_runs:
  "streaks ts = (int (longest_run (\<lambda>t. 0 < tr_net t) ts), int (longest_run (\<lambda>t. tr_net t < 0) ts))"
  using streak_walk [of "map tr_net ts"] by (simp add: streaks_def streak_state_def longest_map comp_def)

subsection \<open>The drawdown is the worst fall\<close>

definition running_max :: "rat list \<Rightarrow> rat" where
  "running_max xs = (if xs = [] then 0 else foldl max (hd xs) xs)"

definition falls :: "rat list \<Rightarrow> rat list" where
  "falls xs = map (\<lambda>j. fall_from (running_max (take (Suc j) xs)) (xs ! j)) [0..<length xs]"

lemma falls_snoc: "falls (xs @ [x]) = falls xs @ [fall_from (running_max (xs @ [x])) x]"
  by (auto simp: falls_def nth_append)

lemma running_max_snoc: "xs \<noteq> [] \<Longrightarrow> running_max (xs @ [x]) = max (running_max xs) x"
  by (simp add: running_max_def)

definition drawdown_ok :: "rat list \<Rightarrow> drawdown_state \<Rightarrow> bool" where
  "drawdown_ok xs st \<longleftrightarrow> ds_peak st = running_max xs \<and> 0 \<le> ds_pct st \<and> ds_pct st = foldl max 0 (falls xs)
     \<and> (xs = [] \<or> ds_peak_index st < length xs \<and> ds_peak st = xs ! ds_peak_index st)
     \<and> (0 < ds_pct st \<longrightarrow> ds_from st \<le> ds_trough st \<and> ds_trough st < length xs
         \<and> ds_pct st = fall_from (xs ! ds_from st) (xs ! ds_trough st) \<and> ds_abs st = frnd (xs ! ds_from st - xs ! ds_trough st))"

lemma drawdown_step_ok:
  assumes "drawdown_ok xs st" "xs \<noteq> []"
  shows "drawdown_ok (xs @ [x]) (drawdown_step (length xs, x) st)"
  using assms
  by (auto simp: drawdown_ok_def drawdown_step_def Let_def running_max_snoc falls_snoc fall_from_def nth_append max_def)

lemma drawdown_walk_ok: "xs \<noteq> [] \<Longrightarrow> drawdown_ok xs (drawdown_walk xs)"
proof (induction xs rule: rev_induct)
  case (snoc x xs)
  show ?case
  proof (cases "xs = []")
    case True
    then show ?thesis by (simp add: drawdown_walk_def drawdown_ok_def drawdown_init_def drawdown_step_def falls_def fall_from_def running_max_def flt.rnd_zero Let_def)
  next
    case False
    then have "drawdown_walk (xs @ [x]) = drawdown_step (length xs, x) (drawdown_walk xs)"
      by (simp add: drawdown_walk_def enumerate_append_eq drawdown_init_def)
    then show ?thesis using snoc.IH [OF False] drawdown_step_ok [OF _ False] by simp
  qed
qed simp

text \<open>
  C15. The reported drawdown is the worst fall of the equity curve: the largest, over all bars, of the relative fall from the highest
  equity up to that bar; and a drawdown that is not zero is the fall between the two reported bars, the peak not after
  the trough, whose absolute size is the reported one.
\<close>

theorem drawdown_is_worst_fall:
  "case max_drawdown xs of (pct, points, i, j) \<Rightarrow> pct = foldl max 0 (falls xs)
     \<and> (if 0 < pct then i \<le> j \<and> j < length xs \<and> pct = fall_from (xs ! i) (xs ! j) \<and> points = frnd (xs ! i - xs ! j) else True)"
proof (cases "xs = []")
  case True
  then show ?thesis by (simp add: max_drawdown_def drawdown_walk_def drawdown_init_def falls_def)
next
  case False
  from drawdown_walk_ok [OF this] show ?thesis using False by (simp add: max_drawdown_def Let_def drawdown_ok_def)
qed

subsection \<open>Groups partition\<close>

lemma bucket_lookup: "map_of (buckets_of key ts) k = (if filter (\<lambda>t. key t = k) ts = [] then None else Some (filter (\<lambda>t. key t = k) ts))"
proof (induction ts arbitrary: k rule: rev_induct)
  case (snoc t ts)
  have "buckets_of key (ts @ [t]) = add_to_bucket key t (buckets_of key ts)" by (simp add: buckets_of_def)
  then show ?case by (simp add: add_to_bucket_def dict_simps snoc)
qed (simp add: buckets_of_def)

lemma bucket_keys: "distinct (map fst (buckets_of key ts))"
proof (induction ts rule: rev_induct)
  case (snoc t ts)
  have "buckets_of key (ts @ [t]) = add_to_bucket key t (buckets_of key ts)" by (simp add: buckets_of_def)
  then show ?case using snoc by (simp add: add_to_bucket_def distinct_update)
qed (simp add: buckets_of_def)

text \<open>
  C40. The statistics by regime, by time of day and by side group every trade once: a group has the figures of exactly the trades
  with its name, in their order, the groups are sorted by name, each name occurs once, and there is no group without a trade.
\<close>

theorem groups_partition_trades:
  "sorted (map fst (group_metrics key ts)) \<and> distinct (map fst (group_metrics key ts))
   \<and> map_of (group_metrics key ts) k
     = (let g = filter (\<lambda>t. key t = k) ts in if g = [] then None else Some (group_block_of g))"
proof -
  define d where "d = map (\<lambda>(n, g). (n, group_block_of g)) (buckets_of key ts)"
  have m: "map fst d = map fst (buckets_of key ts)" by (simp add: d_def case_prod_unfold comp_def)
  have dd: "distinct (map fst d)" using bucket_keys [of key ts] m by simp
  have ds: "distinct (map fst (sort_key fst d))"
    using dd by (simp add: distinct_map distinct_sort)
  have "map_of (sort_key fst d) = map_of d" using map_of_inject_set [OF ds dd] by simp
  moreover have "map_of d k = map_option group_block_of (map_of (buckets_of key ts) k)" by (simp add: d_def map_of_map)
  ultimately show ?thesis using ds by (simp add: group_metrics_def d_def [symmetric] bucket_lookup Let_def)
qed

end
