(* ===== verification/Droid_Selection.thy ===== *)
theory Droid_Selection
  imports Droid_Metrics
begin

text \<open>
  \<open>backend/app/indicator_research/research/optimizer.py\<close> and \<open>walkforward.py\<close>: the search over the parameters of the primary
  indicator, on one sample, and fold by fold. What the registry makes of a combination of parameters is an argument. The
  lemmas show the ranking is by the objective, and that no fold selects its parameters on bars it is tested on.
\<close>

subsection \<open>The grid\<close>

datatype param_value = PInt int | PNum rat | PText string

datatype param_kind = K_INTEGER | K_NUMBER | K_CHOICE | K_OTHER

record param_spec =
  ps_name :: string
  ps_kind :: param_kind
  ps_default :: rat
  ps_min :: "rat option"
  ps_max :: "rat option"
  ps_options :: "string list"

type_synonym combination = "(string, param_value) dict"

text \<open>\<open>int(x)\<close> of a float\<close>

definition int_of :: "rat \<Rightarrow> int" where
  "int_of x = (if 0 \<le> x then \<lfloor>x\<rfloor> else \<lceil>x\<rceil>)"

definition integer_axis :: "param_spec \<Rightarrow> int list" where
  "integer_axis p = (let d = int_of (ps_default p);
       lo = (case ps_min p of Some m \<Rightarrow> int_of m | None \<Rightarrow> max 2 (d div 2));
       hi = (case ps_max p of Some m \<Rightarrow> int_of m | None \<Rightarrow> d * 2) in
     sort (remdups [max lo (int_of (frnd (of_int d * (1 / 2)))), max lo (int_of (frnd (of_int d * (3 / 4)))), d,
       min hi (int_of (frnd (of_int d * (3 / 2)))), min hi (int_of (frnd (of_int d * 2)))]))"

definition number_axis :: "param_spec \<Rightarrow> rat list" where
  "number_axis p = (let d = ps_default p;
       lo = (case ps_min p of Some m \<Rightarrow> m | None \<Rightarrow> frnd (d * (1 / 2))); hi = (case ps_max p of Some m \<Rightarrow> m | None \<Rightarrow> frnd (d * 2)) in
     sort (remdups [round_places 6 (max lo (frnd (d * (1 / 2)))), round_places 6 d, round_places 6 (min hi (frnd (d * (3 / 2))))]))"

definition axis_of :: "param_spec \<Rightarrow> param_value list option" where
  "axis_of p = (case ps_kind p of K_INTEGER \<Rightarrow> Some (map PInt (integer_axis p)) | K_NUMBER \<Rightarrow> Some (map PNum (number_axis p))
   | K_CHOICE \<Rightarrow> (if ps_options p = [] then None else Some (map PText (ps_options p))) | K_OTHER \<Rightarrow> None)"

definition parameter_space :: "param_spec list \<Rightarrow> (string, param_value list) dict \<Rightarrow> (string, param_value list) dict" where
  "parameter_space specs overrides = List.map_filter (\<lambda>p. case map_of overrides (ps_name p) of
     Some (v # vs) \<Rightarrow> Some (ps_name p, v # vs) | _ \<Rightarrow> map_option (Pair (ps_name p)) (axis_of p)) specs"

definition grid_combinations :: "(string, param_value list) dict \<Rightarrow> combination list" where
  "grid_combinations space = (if space = [] then [[]] else
     let names = sort (map fst space) in map (zip names) (product_lists (map (\<lambda>n. the (map_of space n)) names)))"

text \<open>The combinations a limited search takes, at even distances; a limit of 0 is refused by the request.\<close>

definition thin_out :: "nat \<Rightarrow> 'c list \<Rightarrow> 'c list" where
  "thin_out k xs = (if k < length xs then let step = frnd (of_nat (length xs) / of_nat k) in
     map (\<lambda>i. xs ! nat \<lfloor>frnd (of_nat i * step)\<rfloor>) [0..<k] else xs)"

subsection \<open>The objective\<close>

datatype objective = BY_RETURN | BY_NET | BY_FACTOR | BY_EXPECTANCY | BY_SHARPE | BY_SORTINO | BY_CALMAR | BY_WIN_RATE | BY_DRAWDOWN | BY_PAYOFF | BY_MFE

fun objective_value :: "objective \<Rightarrow> bt_metrics \<Rightarrow> rat option" where
  "objective_value BY_RETURN m = mt_return_pct m"
| "objective_value BY_NET m = Some (mt_net m)"
| "objective_value BY_FACTOR m = mt_profit_factor m"
| "objective_value BY_EXPECTANCY m = mt_expectancy m"
| "objective_value BY_SHARPE m = mt_sharpe m"
| "objective_value BY_SORTINO m = mt_sortino m"
| "objective_value BY_CALMAR m = mt_calmar m"
| "objective_value BY_WIN_RATE m = mt_win_rate m"
| "objective_value BY_DRAWDOWN m = Some (mt_dd_pct m)"
| "objective_value BY_PAYOFF m = mt_payoff m"
| "objective_value BY_MFE m = mt_avg_mfe m"

definition rank_value :: "objective \<Rightarrow> bt_metrics \<Rightarrow> rat option" where
  "rank_value ob m = map_option (\<lambda>v. if ob = BY_DRAWDOWN then - v else v) (objective_value ob m)"

subsection \<open>A scored run\<close>

text \<open>What a search keeps of a run, and the run a search makes: features, backtest and metrics over the given candles.\<close>

record outcome =
  oc_trades :: nat
  oc_metrics :: bt_metrics

definition scored_run ::
  "(rat \<Rightarrow> rat) \<Rightarrow> (rat \<Rightarrow> rat) \<Rightarrow> (rat \<Rightarrow> rat \<Rightarrow> rat) \<Rightarrow> backtest_settings \<Rightarrow> string \<Rightarrow> json option \<Rightarrow> json option
     \<Rightarrow> price_bar list \<Rightarrow> indicator_spec list \<Rightarrow> research_refusal + outcome" where
  "scored_run rt lg pw b tf long short bars specs = (case run_once rt lg b bars specs long short of Inl e \<Rightarrow> Inl e
   | Inr r \<Rightarrow> Inr \<lparr>oc_trades = length (br_trades r),
       oc_metrics = compute_metrics rt pw (br_trades r) (br_curve r) (es_capital (bs_execution b)) tf (length bars)\<rparr>)"

subsection \<open>The search on one sample\<close>

datatype search_error = NO_SPECS | NO_SEARCH_BARS | OVER_BUDGET nat | FEW_FOLDS | TOO_FEW_BARS nat

record search_row =
  sw_params :: combination
  sw_outcome :: outcome
  sw_insufficient :: bool
  sw_rank :: "rat option"

record search_report =
  sr_rows :: "search_row list"
  sr_best :: "search_row option"
  sr_failures :: "(combination \<times> research_refusal) list"
  sr_total :: nat
  sr_evaluated :: nat

definition evaluate_combo :: "(combination \<Rightarrow> research_refusal + outcome) \<Rightarrow> objective \<Rightarrow> nat \<Rightarrow> combination \<Rightarrow> (combination \<times> research_refusal) + search_row" where
  "evaluate_combo run ob min_trades c = (case run c of Inl e \<Rightarrow> Inl (c, e)
   | Inr oc \<Rightarrow> Inr \<lparr>sw_params = c, sw_outcome = oc, sw_insufficient = oc_trades oc < min_trades, sw_rank = rank_value ob (oc_metrics oc)\<rparr>)"

definition rankable :: "search_row \<Rightarrow> bool" where
  "rankable r \<longleftrightarrow> sw_rank r \<noteq> None \<and> \<not> sw_insufficient r"

definition ranked_rows :: "search_row list \<Rightarrow> search_row list" where
  "ranked_rows rows = sort_key (\<lambda>r. - the (sw_rank r)) (filter rankable rows) @ filter (\<lambda>r. \<not> rankable r) rows"

definition optimize ::
  "(price_bar list \<Rightarrow> combination \<Rightarrow> research_refusal + outcome) \<Rightarrow> price_bar list \<Rightarrow> combination list \<Rightarrow> objective \<Rightarrow> nat \<Rightarrow> nat \<Rightarrow> nat
     \<Rightarrow> search_error + search_report" where
  "optimize run bars all ob max_combos min_trades budget = (if bars = [] then Inl NO_SEARCH_BARS else
     let combos = thin_out max_combos all; estimated = length combos * length bars in
     if budget < estimated then Inl (OVER_BUDGET estimated) else
     let results = map (evaluate_combo (run bars) ob min_trades) combos;
         rows = List.map_filter (\<lambda>x. case x of Inl _ \<Rightarrow> None | Inr r \<Rightarrow> Some r) results; ordered = ranked_rows rows in
     Inr \<lparr>sr_rows = ordered, sr_best = (if ordered = [] then None else Some (hd ordered)),
       sr_failures = take 10 (List.map_filter (\<lambda>x. case x of Inl f \<Rightarrow> Some f | Inr _ \<Rightarrow> None) results),
       sr_total = length all, sr_evaluated = length combos\<rparr>)"

subsection \<open>Walk-forward\<close>

definition split_blocks :: "nat \<Rightarrow> nat \<Rightarrow> (nat \<times> nat) list" where
  "split_blocks n folds = (let size = n div (folds + 1) in
     map (\<lambda>k. (k * size, if k = folds then n else (k + 1) * size)) [0..<folds + 1])"

definition slice :: "nat \<Rightarrow> nat \<Rightarrow> 'a list \<Rightarrow> 'a list" where
  "slice i j xs = drop i (take j xs)"

definition better_combo ::
  "(combination \<Rightarrow> research_refusal + outcome) \<Rightarrow> objective \<Rightarrow> nat \<Rightarrow> combination \<Rightarrow> (combination \<times> bt_metrics \<times> rat) option
     \<Rightarrow> (combination \<times> bt_metrics \<times> rat) option" where
  "better_combo run ob min_trades c best = (case run c of Inl _ \<Rightarrow> best
   | Inr oc \<Rightarrow> if oc_trades oc < min_trades then best else
      (case objective_value ob (oc_metrics oc) of None \<Rightarrow> best
       | Some v \<Rightarrow> if (case best of None \<Rightarrow> True | Some (_, _, r) \<Rightarrow> r < v) then Some (c, oc_metrics oc, v) else best))"

definition select_combo :: "(combination \<Rightarrow> research_refusal + outcome) \<Rightarrow> objective \<Rightarrow> nat \<Rightarrow> combination list \<Rightarrow> (combination \<times> bt_metrics \<times> rat) option" where
  "select_combo run ob min_trades combos = fold (better_combo run ob min_trades) combos None"

record fold_report =
  fo_fold :: nat
  fo_train :: "nat \<times> nat"
  fo_test :: "nat \<times> nat"
  fo_selected :: "(combination \<times> bt_metrics \<times> rat) option"
  fo_tested :: "(research_refusal + outcome) option"

definition purged_end :: "nat \<Rightarrow> nat \<Rightarrow> nat" where
  "purged_end train_end purge = max (train_end - purge) 10"

definition MINIMUM_TEST :: nat where "MINIMUM_TEST = 30"

definition run_fold ::
  "(price_bar list \<Rightarrow> combination \<Rightarrow> research_refusal + outcome) \<Rightarrow> price_bar list \<Rightarrow> combination list \<Rightarrow> objective \<Rightarrow> nat \<Rightarrow> nat
     \<Rightarrow> nat \<Rightarrow> nat \<times> nat \<Rightarrow> fold_report option" where
  "run_fold run bars combos ob min_trades purge k test = (let train = (0, purged_end (fst test) purge) in
     if snd train < 30 \<or> snd test - fst test < MINIMUM_TEST then None else
     let best = select_combo (run (slice (fst train) (snd train) bars)) ob min_trades combos in
     Some \<lparr>fo_fold = k, fo_train = train, fo_test = test, fo_selected = best,
       fo_tested = map_option (\<lambda>b. run (slice (fst test) (snd test) bars) (fst b)) best\<rparr>)"

record leakage_audit =
  la_train_precedes_test :: bool
  la_blocks_disjoint :: bool

record walk_report =
  wr_folds :: "fold_report list"
  wr_completed :: nat
  wr_pooled_trades :: nat
  wr_pooled_net :: rat
  wr_optimism :: "rat option"
  wr_audit :: leakage_audit

definition completed :: "fold_report list \<Rightarrow> fold_report list" where
  "completed fs = filter (\<lambda>f. fo_selected f \<noteq> None) fs"

definition train_objectives :: "objective \<Rightarrow> fold_report list \<Rightarrow> rat list" where
  "train_objectives ob fs = map (\<lambda>f. case objective_value ob (fst (snd (the (fo_selected f)))) of None \<Rightarrow> 0 | Some v \<Rightarrow> v) (completed fs)"

definition test_objectives :: "objective \<Rightarrow> fold_report list \<Rightarrow> rat list" where
  "test_objectives ob fs = List.map_filter (\<lambda>f. case fo_tested f of Some (Inr oc) \<Rightarrow> objective_value ob (oc_metrics oc) | _ \<Rightarrow> None) fs"

definition optimism_of :: "objective \<Rightarrow> fold_report list \<Rightarrow> rat option" where
  "optimism_of ob fs = (let tr = train_objectives ob fs; te = test_objectives ob fs in
     if tr \<noteq> [] \<and> te \<noteq> [] \<and> length tr = length te
     then Some (round_places 4 (frnd (frnd (py_sum tr / of_nat (length tr)) - frnd (py_sum te / of_nat (length te))))) else None)"

definition audit_of :: "fold_report list \<Rightarrow> leakage_audit" where
  "audit_of fs = (let c = completed fs in
     \<lparr>la_train_precedes_test = list_all (\<lambda>f. snd (fo_train f) \<le> fst (fo_test f)) c,
      la_blocks_disjoint = list_all (\<lambda>i. snd (fo_test (c ! i)) \<le> fst (fo_test (c ! Suc i))) [0..<length c - 1]\<rparr>)"

definition walk_forward ::
  "(price_bar list \<Rightarrow> combination \<Rightarrow> research_refusal + outcome) \<Rightarrow> price_bar list \<Rightarrow> combination list \<Rightarrow> objective \<Rightarrow> nat \<Rightarrow> nat
     \<Rightarrow> nat \<Rightarrow> nat \<Rightarrow> search_error + walk_report" where
  "walk_forward run bars all ob max_combos min_trades folds purge = (let n = length bars in
     if folds < 2 then Inl FEW_FOLDS
     else if n < (folds + 1) * MINIMUM_TEST then Inl (TOO_FEW_BARS ((folds + 1) * MINIMUM_TEST))
     else let combos = thin_out max_combos all; blocks = split_blocks n folds;
       fs = List.map_filter (\<lambda>k. run_fold run bars combos ob min_trades purge k (blocks ! Suc k)) [0..<folds] in
     Inr \<lparr>wr_folds = fs, wr_completed = length (completed fs),
       wr_pooled_trades = sum_list (map (\<lambda>f. case fo_tested f of Some (Inr oc) \<Rightarrow> oc_trades oc | _ \<Rightarrow> 0) fs),
       wr_pooled_net = round_places 2 (foldl (\<lambda>x f. frnd (x + (case fo_tested f of Some (Inr oc) \<Rightarrow> mt_net (oc_metrics oc) | _ \<Rightarrow> 0))) 0 (completed fs)),
       wr_optimism = optimism_of ob fs, wr_audit = audit_of fs\<rparr>)"

subsection \<open>The best row is best\<close>

lemma sorted_hd_least: "sorted (map f (x # xs)) \<Longrightarrow> y \<in> set (x # xs) \<Longrightarrow> f x \<le> (f y :: rat)"
  by auto

lemma rows_best:
  assumes "r \<in> set rows" "rankable r"
  shows "rankable (hd (ranked_rows rows)) \<and> hd (ranked_rows rows) \<in> set rows \<and> the (sw_rank r) \<le> the (sw_rank (hd (ranked_rows rows)))"
proof -
  define rs where "rs = sort_key (\<lambda>r. - the (sw_rank r)) (filter rankable rows)"
  have r: "r \<in> set rs" using assms by (simp add: rs_def)
  then obtain x xs where x: "rs = x # xs" by (cases rs) auto
  have "x \<in> set rs" by (simp add: x)
  then have "rankable x" "x \<in> set rows" by (simp_all add: rs_def)
  moreover have "- the (sw_rank x) \<le> - the (sw_rank r)"
    using sorted_hd_least [of "\<lambda>r. - the (sw_rank r)" x xs r] r by (simp flip: x) (simp add: rs_def)
  moreover have "hd (ranked_rows rows) = x" by (simp add: ranked_rows_def rs_def [symmetric] x)
  ultimately show ?thesis by simp
qed

lemma in_map_filter: "y \<in> set (List.map_filter f xs) \<longleftrightarrow> (\<exists>x \<in> set xs. f x = Some y)"
  by (auto simp: List.map_filter_def intro!: rev_image_eqI)

lemma ranked_set: "set (ranked_rows rows) = set rows"
  by (auto simp: ranked_rows_def)

lemma rows_are_results: "set (List.map_filter (\<lambda>x. case x of Inl _ \<Rightarrow> None | Inr r \<Rightarrow> Some r) (map g cs)) = {r. \<exists>c \<in> set cs. g c = Inr r}"
  by (induction cs) (auto simp: List.map_filter_simps split: sum.split)

text \<open>What a search may rank a combination by: the objective of a run with enough trades.\<close>

definition combo_value :: "(combination \<Rightarrow> research_refusal + outcome) \<Rightarrow> objective \<Rightarrow> nat \<Rightarrow> combination \<Rightarrow> rat option" where
  "combo_value run ob min_trades c = (case run c of Inl _ \<Rightarrow> None
     | Inr oc \<Rightarrow> if oc_trades oc < min_trades then None else rank_value ob (oc_metrics oc))"

lemma evaluated_row:
  assumes "evaluate_combo run ob m c = Inr r"
  shows "sw_params r = c \<and> run c = Inr (sw_outcome r) \<and> (if rankable r then combo_value run ob m c = sw_rank r \<and> sw_rank r \<noteq> None
    else combo_value run ob m c = None)"
  using assms by (auto simp: evaluate_combo_def rankable_def combo_value_def split: sum.splits)

lemma ranked_hd:
  assumes "ranked_rows rows \<noteq> []"
  shows "hd (ranked_rows rows) \<in> set rows"
    and "r \<in> set rows \<Longrightarrow> rankable r \<Longrightarrow> rankable (hd (ranked_rows rows)) \<and> the (sw_rank r) \<le> the (sw_rank (hd (ranked_rows rows)))"
  using assms ranked_set [of rows] hd_in_set [OF assms] rows_best [of r rows] by auto

text \<open>
  C18. The search ranks by what it was asked for. The row it calls best is one of the combinations it evaluated, with its run;
  when that run made enough trades and has the objective, it is at least as good as that of every evaluated combination
  with enough trades (a smaller drawdown when the objective is the drawdown, a larger value otherwise). The best row is a
  run without enough trades or without the objective exactly when every run is, and there is no best row exactly when
  every run was refused.
\<close>

theorem best_row_is_best:
  "case optimize run bars all ob k m budget of Inl _ \<Rightarrow> True
   | Inr rep \<Rightarrow> (case sr_best rep of
       None \<Rightarrow> list_all (\<lambda>c. isl (run bars c)) (thin_out k all)
     | Some r \<Rightarrow> sw_params r \<in> set (thin_out k all) \<and> run bars (sw_params r) = Inr (sw_outcome r)
         \<and> (case combo_value (run bars) ob m (sw_params r) of
              None \<Rightarrow> list_all (\<lambda>c. combo_value (run bars) ob m c = None) (thin_out k all)
            | Some v \<Rightarrow> list_all (\<lambda>c. case combo_value (run bars) ob m c of None \<Rightarrow> True | Some w \<Rightarrow> w \<le> v) (thin_out k all)))"
proof (cases "optimize run bars all ob k m budget")
  case (Inr rep)
  define cs where "cs = thin_out k all"
  define rows where "rows = List.map_filter (\<lambda>x. case x of Inl _ \<Rightarrow> None | Inr r \<Rightarrow> Some r) (map (evaluate_combo (run bars) ob m) cs)"
  have rep: "sr_best rep = (if ranked_rows rows = [] then None else Some (hd (ranked_rows rows)))"
    using Inr by (auto simp: optimize_def Let_def rows_def cs_def split: if_splits)
  have rows: "set rows = {r. \<exists>c \<in> set cs. evaluate_combo (run bars) ob m c = Inr r}" unfolding rows_def rows_are_results ..
  have valued: "\<exists>r \<in> set rows. rankable r \<and> the (sw_rank r) = v" if c: "c \<in> set cs" "combo_value (run bars) ob m c = Some v" for c v
  proof -
    obtain oc where oc: "run bars c = Inr oc" using c(2) by (auto simp: combo_value_def split: sum.splits)
    then obtain r where r: "evaluate_combo (run bars) ob m c = Inr r" by (auto simp: evaluate_combo_def)
    then have "r \<in> set rows" using c(1) rows by blast
    then show ?thesis using evaluated_row [OF r] c(2) by (auto split: if_splits intro!: bexI [of _ r])
  qed
  show ?thesis
  proof (cases "ranked_rows rows = []")
    case True
    then have "rows = []" using ranked_set [of rows] by simp
    then have none: "evaluate_combo (run bars) ob m c \<noteq> Inr r" if "c \<in> set cs" for c r using that rows by auto
    have "isl (run bars c)" if c: "c \<in> set cs" for c
    proof (cases "run bars c")
      case (Inr oc)
      then have "\<exists>r. evaluate_combo (run bars) ob m c = Inr r" by (simp add: evaluate_combo_def)
      then show ?thesis using none [OF c] by blast
    qed simp
    then show ?thesis using Inr True by (simp add: rep cs_def [symmetric] list_all_iff)
  next
    case False
    define r where "r = hd (ranked_rows rows)"
    note best = ranked_hd [OF False, folded r_def]
    from best(1) rows obtain c where c: "c \<in> set cs" "evaluate_combo (run bars) ob m c = Inr r" by blast
    note e = evaluated_row [OF c(2)]
    have "combo_value (run bars) ob m c' = None" if "\<not> rankable r" "c' \<in> set cs" for c'
      using valued [OF that(2)] best(2) that(1) by (metis option.exhaust)
    moreover have "w \<le> the (sw_rank r)" if "rankable r" "c' \<in> set cs" "combo_value (run bars) ob m c' = Some w" for c' w
      using valued [OF that(2,3)] best(2) by auto
    ultimately show ?thesis using Inr False e c(1)
      by (auto simp: rep r_def [symmetric] cs_def [symmetric] list_all_iff split: option.split if_splits)
  qed
qed simp

subsection \<open>No fold selects on what it is tested on\<close>

lemma length_blocks: "length (split_blocks n folds) = folds + 1"
  by (simp add: split_blocks_def Let_def)

lemma block_nth: "k \<le> folds \<Longrightarrow> split_blocks n folds ! k = (k * (n div (folds + 1)), if k = folds then n else (k + 1) * (n div (folds + 1)))"
  by (simp add: split_blocks_def Let_def nth_append del: upt_Suc)

lemma block_chain: "k < folds \<Longrightarrow> snd (split_blocks n folds ! k) = fst (split_blocks n folds ! Suc k)"
  by (simp add: block_nth)

lemma block_bounds: "k \<le> folds \<Longrightarrow> fst (split_blocks n folds ! k) \<le> snd (split_blocks n folds ! k) \<and> snd (split_blocks n folds ! k) \<le> n"
proof -
  assume "k \<le> folds"
  have "(folds + 1) * (n div (folds + 1)) \<le> n" by (rule times_div_less_eq_dividend)
  then have "j * (n div (folds + 1)) \<le> n" if "j \<le> folds + 1" for j
    using that by (meson le_trans mult_le_mono1)
  then show ?thesis using \<open>k \<le> folds\<close> by (auto simp: block_nth simp del: add_Suc_right)
qed

lemma fold_shape:
  assumes "run_fold run bars combos ob m purge k test = Some f"
  shows "fo_test f = test \<and> snd (fo_train f) + purge = fst test \<and> fo_fold f = k
    \<and> fo_selected f = select_combo (run (take (snd (fo_train f)) bars)) ob m combos"
  using assms by (auto simp: run_fold_def Let_def purged_end_def slice_def max_def split: if_splits)

definition fold_list ::
  "(price_bar list \<Rightarrow> combination \<Rightarrow> research_refusal + outcome) \<Rightarrow> price_bar list \<Rightarrow> combination list \<Rightarrow> objective \<Rightarrow> nat \<Rightarrow> nat \<Rightarrow> nat \<Rightarrow> nat list
     \<Rightarrow> fold_report list" where
  "fold_list run bars combos ob m purge folds ks =
     List.map_filter (\<lambda>k. run_fold run bars combos ob m purge k (split_blocks (length bars) folds ! Suc k)) ks"

lemma fold_in_list:
  assumes "f \<in> set (fold_list run bars combos ob m purge folds ks)" "set ks \<subseteq> {..<folds}"
  shows "fo_fold f \<in> set ks \<and> fo_test f = split_blocks (length bars) folds ! Suc (fo_fold f) \<and> snd (fo_train f) + purge = fst (fo_test f)
    \<and> snd (fo_test f) \<le> length bars \<and> fo_selected f = select_combo (run (take (snd (fo_train f)) bars)) ob m combos"
proof -
  obtain k where k: "k \<in> set ks" "run_fold run bars combos ob m purge k (split_blocks (length bars) folds ! Suc k) = Some f"
    using assms(1) by (auto simp: fold_list_def in_map_filter)
  then have "Suc k \<le> folds" using assms(2) by auto
  then show ?thesis using fold_shape [OF k(2)] k(1) block_bounds [of "Suc k" folds "length bars"] by simp
qed

lemma folds_ordered: "sorted_wrt (<) ks \<Longrightarrow> set ks \<subseteq> {..<folds}
  \<Longrightarrow> sorted_wrt (\<lambda>f g. snd (fo_test f) \<le> fst (fo_test g)) (fold_list run bars combos ob m purge folds ks)"
proof (induction ks)
  case (Cons k ks)
  define rest where "rest = fold_list run bars combos ob m purge folds ks"
  have ih: "sorted_wrt (\<lambda>f g. snd (fo_test f) \<le> fst (fo_test g)) rest" using Cons by (simp add: rest_def)
  show ?case
  proof (cases "run_fold run bars combos ob m purge k (split_blocks (length bars) folds ! Suc k)")
    case None
    then show ?thesis using ih by (simp add: fold_list_def rest_def List.map_filter_simps)
  next
    case (Some f)
    have "snd (fo_test f) \<le> fst (fo_test g)" if "g \<in> set rest" for g
    proof -
      have g: "fo_fold g \<in> set ks" "fo_test g = split_blocks (length bars) folds ! Suc (fo_fold g)"
        using fold_in_list [of g run bars combos ob m purge folds ks] that Cons.prems(2) by (auto simp: rest_def)
      have "k < fo_fold g" "fo_fold g < folds" using g(1) Cons.prems by auto
      then show ?thesis using fold_shape [OF Some] g(2) mult_le_mono1 [of "Suc k" "fo_fold g" "length bars div Suc folds"] by (simp add: block_nth)
    qed
    then show ?thesis using ih Some by (simp add: fold_list_def rest_def List.map_filter_simps)
  qed
qed (simp add: fold_list_def List.map_filter_simps)

text \<open>
  C8. Walk-forward never selects on what it is tested on: the parameters of a fold are a function of the bars before its training
  end, which lies exactly the purge length before the test block starts; test blocks are inside the sample, in order and
  disjoint; and so both flags of the leakage audit of every report are true.
\<close>

theorem walk_forward_has_no_leakage:
  "case walk_forward run bars all ob k m folds purge of Inl _ \<Rightarrow> True
   | Inr rep \<Rightarrow> list_all (\<lambda>f. fo_selected f = select_combo (run (take (snd (fo_train f)) bars)) ob m (thin_out k all)
         \<and> snd (fo_train f) + purge = fst (fo_test f) \<and> snd (fo_test f) \<le> length bars) (wr_folds rep)
       \<and> sorted_wrt (\<lambda>f g. snd (fo_test f) \<le> fst (fo_test g)) (wr_folds rep)
       \<and> la_train_precedes_test (wr_audit rep) \<and> la_blocks_disjoint (wr_audit rep)"
proof (cases "walk_forward run bars all ob k m folds purge")
  case (Inr rep)
  define fs where "fs = fold_list run bars (thin_out k all) ob m purge folds [0..<folds]"
  have rep: "wr_folds rep = fs" "wr_audit rep = audit_of fs"
    using Inr by (auto simp: walk_forward_def Let_def fs_def fold_list_def split: if_splits)
  have f: "fo_selected f = select_combo (run (take (snd (fo_train f)) bars)) ob m (thin_out k all)
      \<and> snd (fo_train f) + purge = fst (fo_test f) \<and> snd (fo_test f) \<le> length bars" if "f \<in> set fs" for f
  proof -
    have "set [0..<folds] \<subseteq> {..<folds}" by auto
    from fold_in_list [OF that [unfolded fs_def] this] show ?thesis by blast
  qed
  have o: "sorted_wrt (\<lambda>f g. snd (fo_test f) \<le> fst (fo_test g)) fs"
    unfolding fs_def by (rule folds_ordered) auto
  then have "sorted_wrt (\<lambda>f g. snd (fo_test f) \<le> fst (fo_test g)) (completed fs)"
    unfolding completed_def by (rule sorted_wrt_filter)
  then have "la_blocks_disjoint (audit_of fs)"
    using sorted_wrt_nth_less [of _ "completed fs"] by (fastforce simp: audit_of_def Let_def list_all_iff)
  moreover have "la_train_precedes_test (audit_of fs)"
    using f by (fastforce simp: audit_of_def Let_def list_all_iff completed_def)
  ultimately show ?thesis using Inr f o by (simp add: rep list_all_iff)
qed simp

subsection \<open>What a fold selects\<close>

definition eligible_score :: "(combination \<Rightarrow> research_refusal + outcome) \<Rightarrow> objective \<Rightarrow> nat \<Rightarrow> combination \<Rightarrow> rat option" where
  "eligible_score run ob m c = (case run c of Inl _ \<Rightarrow> None | Inr oc \<Rightarrow> if oc_trades oc < m then None else objective_value ob (oc_metrics oc))"

definition selection_ok :: "(combination \<Rightarrow> rat option) \<Rightarrow> combination list \<Rightarrow> (combination \<times> bt_metrics \<times> rat) option \<Rightarrow> bool" where
  "selection_ok score cs best \<longleftrightarrow> (case best of None \<Rightarrow> list_all (\<lambda>c. score c = None) cs
     | Some (c, _, v) \<Rightarrow> c \<in> set cs \<and> score c = Some v \<and> list_all (\<lambda>c'. case score c' of None \<Rightarrow> True | Some v' \<Rightarrow> v' \<le> v) cs)"

lemma better_step:
  assumes "selection_ok (eligible_score run ob m) cs best"
  shows "selection_ok (eligible_score run ob m) (cs @ [c]) (better_combo run ob m c best)"
proof (cases "eligible_score run ob m c")
  case None
  then have "better_combo run ob m c best = best"
    by (auto simp: eligible_score_def better_combo_def split: sum.splits option.splits if_splits)
  then show ?thesis using assms None by (auto simp: selection_ok_def split: option.splits)
next
  case (Some v)
  then obtain oc where "run c = Inr oc" "\<not> oc_trades oc < m" "objective_value ob (oc_metrics oc) = Some v"
    by (auto simp: eligible_score_def split: sum.splits if_splits)
  then have "better_combo run ob m c best = (if (case best of None \<Rightarrow> True | Some (_, _, r) \<Rightarrow> r < v) then Some (c, oc_metrics oc, v) else best)"
    by (simp add: better_combo_def)
  then show ?thesis using assms Some
    by (auto simp: selection_ok_def list_all_iff split: option.splits)
qed

text \<open>
  A fold selects the best combination of its training block: the one whose objective is the largest among those that ran, made
  enough trades and have the objective, and nothing only when there is no such combination.
\<close>

theorem fold_selects_largest:
  "selection_ok (eligible_score run ob m) cs (select_combo run ob m cs)"
proof (induction cs rule: rev_induct)
  case (snoc c cs)
  then show ?case using better_step by (simp add: select_combo_def)
qed (simp add: select_combo_def selection_ok_def)

text \<open>The search on one sample prefers a small drawdown, a fold of the walk-forward the largest.\<close>

lemma walk_forward_prefers_drawdown:
  assumes "mt_dd_pct (oc_metrics a) < mt_dd_pct (oc_metrics z)" "m \<le> oc_trades a" "m \<le> oc_trades z"
  shows "select_combo (\<lambda>c. Inr (if c = [] then a else z)) BY_DRAWDOWN m [[], [p]] = Some ([p], oc_metrics z, mt_dd_pct (oc_metrics z))
    \<and> the (rank_value BY_DRAWDOWN (oc_metrics z)) < the (rank_value BY_DRAWDOWN (oc_metrics a))"
  using assms by (simp add: select_combo_def better_combo_def rank_value_def)

subsection \<open>The correction for many attempts\<close>

definition PI_FLOAT :: rat where "PI_FLOAT = 884279719003555 / 281474976710656"
definition EULER_GAMMA :: rat where "EULER_GAMMA = frnd (5772156649 / 10000000000)"

definition expected_max_null_sharpe :: "(rat \<Rightarrow> rat) \<Rightarrow> (rat \<Rightarrow> rat) \<Rightarrow> nat \<Rightarrow> rat" where
  "expected_max_null_sharpe rt lg trials = (if trials \<le> 1 then 0 else
     let t = rt (frnd (2 * lg (of_nat trials))); corr = frnd (frnd (lg PI_FLOAT + EULER_GAMMA) / frnd (2 * t)) in max 0 (frnd (t - corr)))"

datatype overfit_risk = RISK_LOW | RISK_MODERATE | RISK_HIGH

record test_penalty =
  tp_trials :: nat
  tp_expected :: rat
  tp_haircut :: rat
  tp_adjusted :: "rat option"
  tp_risk :: overfit_risk

definition multiple_testing_penalty :: "(rat \<Rightarrow> rat) \<Rightarrow> (rat \<Rightarrow> rat) \<Rightarrow> rat option \<Rightarrow> nat \<Rightarrow> test_penalty" where
  "multiple_testing_penalty rt lg best trials = (case best of
     None \<Rightarrow> \<lparr>tp_trials = trials, tp_expected = 0, tp_haircut = 0, tp_adjusted = None, tp_risk = (if trials \<le> 5 then RISK_LOW else RISK_MODERATE)\<rparr>
   | Some s \<Rightarrow> if trials \<le> 1 then \<lparr>tp_trials = trials, tp_expected = 0, tp_haircut = 0, tp_adjusted = Some s, tp_risk = RISK_LOW\<rparr> else
     let e = expected_max_null_sharpe rt lg trials;
         cut = min 100 (max 0 (frnd (frnd (e / max (frnd (1 / 1000)) \<bar>s\<bar>) * 100)));
         factor = max 0 (frnd (1 - frnd (e / frnd (\<bar>s\<bar> + e)))) in
     \<lparr>tp_trials = trials, tp_expected = round_places 4 e, tp_haircut = round_places 2 cut,
      tp_adjusted = Some (if 0 < s then round_places 4 (frnd (s * factor)) else s),
      tp_risk = (if 50 \<le> trials \<or> 60 < cut then RISK_HIGH else if 10 \<le> trials then RISK_MODERATE else RISK_LOW)\<rparr>)"

end
