(* ===== verification/Spec2Isabelle.thy ===== *)
theory Spec2Isabelle
  imports Droid_Prelude Droid_Rounding Droid_Decimal Droid_Money Droid_Sizing Droid_Risk Droid_Orders
    Droid_Positions Droid_Capital Droid_Recon Droid_ExecSM Droid_Circuit Droid_RateLimit Droid_Leadership
    Droid_SignalFSM Droid_Intents Droid_Feed Droid_Guard Droid_Trigger Droid_Paper
    Droid_Buffer Droid_Greeks Droid_Arbiter Droid_Calendar Droid_Staleness Droid_Fills Droid_Vortex
    Droid_VortexGates Droid_VortexStrategy Droid_Health Droid_Governance Droid_Instruments Droid_LivePosition
    Droid_Costs Droid_Marks Droid_Friction Droid_Overlay Droid_RiskEngine Droid_FeedMonitor Droid_Gates
    Droid_Candles Droid_Series Droid_CentralFeed Droid_Rules Droid_Backtest Droid_Indicators
    Droid_Validation Droid_Metrics Droid_Selection
begin

text \<open>
  A verification development of the trading back end under \<open>backend/app\<close>: the parts that decide whether, how large and
  at what price an order may be sent, and that keep the state of orders, signals, positions, capital and feeds.

  \<^bold>\<open>How the program works.\<close> Quotes arrive over a feed whose sequence numbers are validated, are buffered as events and
  refresh a cache of option-chain rows and a registry of marks. Strategies (VORTEX-SNAP is modelled) propose setups; a chain
  of gates and the central risk engine turn a setup into a sized decision or a reason to refuse it; the signal state
  machine carries an accepted signal through arming, trigger, targets and exit; the execution guard stands between a
  signal and an order; fills become positions whose exposure a Greeks ledger mirrors. The algo package has its own path
  with sizing, trade and portfolio risk engines, an order manager over broker adapters, capital reservations, positions
  with an exit monitor and reconciliation. A single leader with a fencing token, circuit breakers, rate limits, clock and
  data-health monitors, alerts and an audit trail surround both. Beside them \<open>indicator_research\<close> lets a user test an idea:
  indicators computed from candles feed rule trees, a backtest walks the bars on their signals, an audit looks for use of
  the future, metrics summarise the run, and a search and a walk-forward choose parameters by them.

  \<^bold>\<open>Numbers.\<close> \<open>Droid_Rounding\<close> models the two rounded arithmetics the code computes in: \<open>drnd\<close>, the 28 significant digits of
  \<open>decimal\<close> under its default context, and \<open>frnd\<close>, the 53 bits of a binary64 float, both over \<open>rat\<close> and both an instance of the
  locale \<open>rounding\<close> (monotone, sign preserving, bounded relative error); \<open>round2\<close> and \<open>round_places\<close> are Python's \<open>round\<close>. Every
  operation of the source is followed by the rounding it has there. \<open>Droid_Decimal\<close> adds infinities, NaN, the conversions
  of \<open>core/financial_precision.py\<close> and the exceptions they raise. Floats that overflow, and so infinite floats, are not
  reached by the values a model is given unless a theory says so. Integers are Python's unbounded ones.

  \<^bold>\<open>State and effects.\<close> A class of the program is a record of its fields and a method a function from the record (and the clock
  readings, random draws, provider answers it uses, as arguments) to the record and the answer; a Python exception is a
  value of \<open>exn\<close>, a refusal a constructor of a reason type; texts of messages become such codes. Dictionaries are
  association lists in insertion order. Where a property quantifies over runs, the operations are the constructors of a
  step relation or of an operation type, and the property is proved over its reflexive transitive closure or its runs.
  A method under a lock is one step; a class without locks is modelled for one caller at a time.

  \<^bold>\<open>Theories\<close>, each over the files it names in its first text:

  \<^item> foundations: \<open>Droid_Prelude\<close> (exceptions, dictionaries, the locales \<open>keyed_store\<close>, \<open>transition_table\<close>, \<open>bounded_log\<close>,
    \<open>guarded_invariant\<close> and \<open>op_invariant\<close>), \<open>Droid_Rounding\<close>, \<open>Droid_Decimal\<close>, \<open>Droid_Money\<close>;
  \<^item> the algo package: \<open>Droid_Sizing\<close>, \<open>Droid_Risk\<close>, \<open>Droid_Orders\<close>, \<open>Droid_Positions\<close>, \<open>Droid_Capital\<close>, \<open>Droid_Recon\<close>,
    \<open>Droid_Governance\<close>, \<open>Droid_Instruments\<close>, \<open>Droid_Health\<close>;
  \<^item> core and services: \<open>Droid_Circuit\<close>, \<open>Droid_RateLimit\<close>, \<open>Droid_Leadership\<close>, \<open>Droid_ExecSM\<close>, \<open>Droid_Calendar\<close>,
    \<open>Droid_Staleness\<close>, \<open>Droid_Buffer\<close>, \<open>Droid_Paper\<close>, \<open>Droid_Candles\<close>, \<open>Droid_Series\<close>, \<open>Droid_CentralFeed\<close>;
  \<^item> signals, safety: \<open>Droid_Feed\<close>, \<open>Droid_FeedMonitor\<close>, \<open>Droid_Guard\<close>, \<open>Droid_Trigger\<close>, \<open>Droid_Intents\<close>;
  \<^item> signals, prices and risk: \<open>Droid_Marks\<close>, \<open>Droid_Costs\<close>, \<open>Droid_Friction\<close>, \<open>Droid_Greeks\<close>, \<open>Droid_Arbiter\<close>, \<open>Droid_Overlay\<close>,
    \<open>Droid_Gates\<close>, \<open>Droid_RiskEngine\<close>;
  \<^item> signals, life cycle: \<open>Droid_SignalFSM\<close>, \<open>Droid_Fills\<close>, \<open>Droid_LivePosition\<close>;
  \<^item> strategies: \<open>Droid_Vortex\<close> (classifier, confirmation, session), \<open>Droid_VortexGates\<close>, \<open>Droid_VortexStrategy\<close>;
  \<^item> research, in the order of a run: \<open>Droid_Indicators\<close> (series, indicators, the feature map), \<open>Droid_Rules\<close> (rule trees),
    \<open>Droid_Backtest\<close> (the walk over the bars), \<open>Droid_Validation\<close> (its audit), \<open>Droid_Metrics\<close>, \<open>Droid_Selection\<close> (parameter
    search and walk-forward).

  \<^bold>\<open>Interfaces.\<close> A life-cycle table is a \<open>transition_table\<close>: a log of moves is a path of the table, and its closed states are
  never left; orders, executions, intents, signals and live positions interpret it. An audit buffer or decision log is a
  \<open>bounded_log\<close>. A state with an invariant that its operations keep is a \<open>guarded_invariant\<close> (the guard says which
  operations a client may call) or an \<open>op_invariant\<close> (every operation); the desk of live positions, the model registry and
  the instrument master interpret them. A \<open>causal_series\<close> has a value for every bar, and removing later bars changes no
  earlier value: the series helpers of \<open>Droid_Indicators\<close> interpret it, and every indicator is composed of them.

  \<^bold>\<open>What the lemmas show\<close>, by group: no order is resubmitted and no book drifts from its log of fills but by the
  resting orders a tick marks filled (\<open>Droid_Orders\<close>, \<open>Droid_Paper\<close>, \<open>Droid_Fills\<close>); reserved and deployed capital stays
  within the limit, though what was consumed is in neither sum (\<open>Droid_Capital\<close>); sizes and risks stay inside their limits and
  approvals hold exactly under their conditions (\<open>Droid_Sizing\<close>, \<open>Droid_Risk\<close>, \<open>Droid_RiskEngine\<close>); a degraded feed stays
  degraded until a snapshot and stops every order, and an order that passes the execution guard meets its policy on the
  raw inputs (\<open>Droid_Feed\<close>, \<open>Droid_Guard\<close>); a restart brings back what was last written (\<open>Droid_Intents\<close>); a deposed leader is fenced off
  (\<open>Droid_Leadership\<close>); states follow their tables, stops never loosen (\<open>Droid_SignalFSM\<close>, \<open>Droid_ExecSM\<close>,
  \<open>Droid_Positions\<close>); the exposure of the positions the paper engine registers is mirrored, and the registry of marks keeps
  the best one offered (\<open>Droid_LivePosition\<close>, \<open>Droid_Marks\<close>); buffers and logs lose nothing but what they count as shed (\<open>Droid_Buffer\<close>, \<open>Droid_Health\<close>); a strategy only
  signals after all its gates and every candidate of it ends (\<open>Droid_Vortex\<close> to \<open>Droid_VortexStrategy\<close>); live candles,
  resampled candles and the write pipeline equal reference definitions, and every part of the central feed is handed exactly
  the ticks that passed the quality check (\<open>Droid_Candles\<close>, \<open>Droid_Series\<close>, \<open>Droid_CentralFeed\<close>); a research run
  cannot see the future, from the candles through indicators and rules to its trades, its account is a ledger, its audit
  accuses it wrongly only for a side that is switched off (or, not modelled, for a rule document that only looks normalised), its metrics are the quantities they are named after, and no fold selects
  on what it is tested on (\<open>Droid_Rules\<close> to \<open>Droid_Selection\<close>). Lemmas named in
  the findings show where the code departs from its documentation or intent, on concrete states.

  \<^bold>\<open>Bounds and termination.\<close> Functions are total by structural recursion, except where a text says otherwise: the searches of
  \<open>Droid_Calendar\<close> for a trading day are \<open>partial_function\<close>s, proved to return for every date; the waiting caller of
  \<open>Droid_RateLimit\<close> runs over the list of clock readings it takes, proved to end when the bucket refills within them. No
  other fuel is used. Constants (limits, ages, caps) are the code's and are definitions of their own.

  \<^bold>\<open>Parameters.\<close> What is not in the repository, or is not determined by it, is an argument: clock readings and random draws,
  the answers of broker, quote and chain providers, hashes and serialisers, the outcome of each file replacement, the
  greeks and premiums of the option model (transcendental functions), square roots, powers and logarithms of the research
  figures, and the rows a database returns.

  \<^bold>\<open>Not modelled.\<close> SQL, Redis and HTTP plumbing; asynchronous scheduling inside one method (a method that awaits is
  modelled with the answers it awaits as arguments); event publication, logging and the texts of messages; persistence of
  signals and journals other than the intent ledger's file; the indicators outside the sixteen of \<open>Droid_Indicators\<close>, the
  statistical research under \<open>research\<close>, machine learning and the HTTP interface; the user interface.
\<close>

end
